(* ===== verification/Go_Prelude.thy ===== *)
theory Go_Prelude
  imports Main
    "HOL-Library.AList"
    "HOL-Library.Char_ord"
    "HOL-Library.List_Lexorder"
    "HOL-Library.Multiset"
begin

text \<open>
  The part of Go and of its standard library that the sources use, as HOL functions, and the
  generic lemmas the component theories share.

  \<^item> \<^emph>\<open>Maps.\<close> A Go map with string keys is an association list with distinct keys
    (\<open>gomap\<close>); reading a missing key gives the zero value (\<open>get_or\<close>). Go iterates a map in an
    unspecified order. A \<^verbatim>\<open>range\<close> loop is therefore a fold over \<open>range_keys rk m\<close>, the keys
    sorted by a ranking \<open>rk\<close> the caller supplies: every order of the keys is given by some
    ranking, so a theorem for all rankings is a theorem for all iteration orders.
  \<^item> \<^emph>\<open>Strings\<close> are byte lists. \<open>TrimSpace\<close> strips the UTF-8 encodings of the Unicode white
    space characters; \<open>Cut\<close>, \<open>Split\<close>, \<open>Contains\<close>, \<open>HasPrefix\<close> work on bytes as Go's do.
  \<^item> \<^emph>\<open>Integers and time.\<close> A \<open>time.Time\<close> is the number of nanoseconds since Go's zero time, so
    \<open>IsZero\<close> is a comparison with 0; a \<open>time.Duration\<close> is a number of nanoseconds. \<open>Sub\<close>
    saturates at the bounds of an \<open>int64\<close> and a product of durations wraps (\<open>wrap64\<close>).
  \<^item> \<^emph>\<open>Searching and formatting\<close>: \<open>sort.Search\<close> as the binary search it is, and
    \<open>fmt.Sprintf\<close> with \<open>%d\<close> and \<open>%06d\<close>.
\<close>

named_theorems frame \<open>what an operation leaves unchanged\<close>
named_theorems bus_defs \<open>definitions of the bus operations\<close>

section \<open>Maps and range loops\<close>

type_synonym 'v gomap = "(string \<times> 'v) list"
type_synonym ranking = "string \<Rightarrow> nat"

definition get_or :: "'v \<Rightarrow> 'v gomap \<Rightarrow> string \<Rightarrow> 'v" where
  "get_or d m k = (case map_of m k of None \<Rightarrow> d | Some v \<Rightarrow> v)"

definition has_key :: "'v gomap \<Rightarrow> string \<Rightarrow> bool" where
  "has_key m k = (map_of m k \<noteq> None)"

abbreviation keys_distinct :: "'v gomap \<Rightarrow> bool" where
  "keys_distinct m \<equiv> distinct (map fst m)"

definition range_keys :: "ranking \<Rightarrow> 'v gomap \<Rightarrow> string list" where
  "range_keys rk m = sort_key rk (map fst m)"

lemma set_range_keys [simp]: "set (range_keys rk m) = fst ` set m"
  by (simp add: range_keys_def)

lemma distinct_range_keys [simp]: "distinct (range_keys rk m) = keys_distinct m"
  by (simp add: range_keys_def)

lemma map_of_alist_update [simp]:
  "map_of (AList.update k v m) k' = (if k' = k then Some v else map_of m k')"
  by (simp add: update_conv')

lemma map_of_alist_delete [simp]:
  "map_of (AList.delete k m) k' = (if k' = k then None else map_of m k')"
  by (simp add: delete_conv')

lemma get_or_update [simp]:
  "get_or d (AList.update k v m) k' = (if k' = k then v else get_or d m k')"
  by (simp add: get_or_def)

lemma get_or_delete [simp]:
  "get_or d (AList.delete k m) k' = (if k' = k then d else get_or d m k')"
  by (simp add: get_or_def)

lemma has_key_update [simp]: "has_key (AList.update k v m) k' = (k' = k \<or> has_key m k')"
  by (simp add: has_key_def)

lemma has_key_delete [simp]: "has_key (AList.delete k m) k' = (k' \<noteq> k \<and> has_key m k')"
  by (simp add: has_key_def)

lemma has_key_iff_mem: "has_key m k \<longleftrightarrow> k \<in> fst ` set m"
  by (metis has_key_def map_of_eq_None_iff)

lemma get_or_Some: "map_of m k = Some v \<Longrightarrow> get_or d m k = v"
  by (simp add: get_or_def)

lemma get_or_None: "map_of m k = None \<Longrightarrow> get_or d m k = d"
  by (simp add: get_or_def)

lemma map_of_filter_distinct:
  assumes "keys_distinct m"
  shows "map_of (filter (\<lambda>(k, v). P k v) m) k =
    (case map_of m k of None \<Rightarrow> None | Some v \<Rightarrow> if P k v then Some v else None)"
  using assms
proof (induction m)
  case (Cons x m)
  have "map_of (filter (\<lambda>(k, v). P k v) m) (fst x) = None"
    using Cons.prems by (auto simp: map_of_eq_None_iff)
  with Cons show ?case by (cases x) (auto split: option.splits)
qed simp

lemma keys_update_present [simp]: "map_of m k = Some v \<Longrightarrow> map fst (AList.update k w m) = map fst m"
  by (metis map_of_eq_None_iff option.distinct(1) set_map update_keys)

lemma keys_update_distinct [simp]: "keys_distinct m \<Longrightarrow> keys_distinct (AList.update k v m)"
  by (rule distinct_update)

lemma keys_delete_distinct [simp]: "keys_distinct m \<Longrightarrow> keys_distinct (AList.delete k m)"
  by (rule distinct_delete)

lemma keys_distinct_filter: "keys_distinct m \<Longrightarrow> keys_distinct (filter P m)"
  by (induction m) auto

text \<open>
  The two shapes of \<^verbatim>\<open>range\<close> loop the bus has. A loop whose body keeps a property keeps it as a
  whole (\<open>fold_keeps\<close>); a loop that visits each key once and changes nothing but the entry of the
  key it visits leaves in each entry what the body made of it, in whatever order the keys came
  (\<open>fold_pointwise\<close>).
\<close>

lemma fold_keeps:
  assumes "\<And>k s. P s \<Longrightarrow> P (f k s)" and "P s"
  shows "P (fold f ks s)"
  using assms by (induction ks arbitrary: s) auto

lemma fold_keeps_eq:
  assumes "\<And>k s. g (f k s) = g s"
  shows "g (fold f ks s) = g s"
  using assms by (induction ks arbitrary: s) auto

lemma fold_pointwise:
  assumes step: "\<And>k s k'. I s \<Longrightarrow> look (f k s) k' = (if k' = k then upd k (look s k) else look s k')"
    and inv: "\<And>k s. I s \<Longrightarrow> I (f k s)"
    and "I s" and "distinct ks"
  shows "look (fold f ks s) k' = (if k' \<in> set ks then upd k' (look s k') else look s k')"
  using assms(3,4)
proof (induction ks arbitrary: s)
  case Nil
  then show ?case by simp
next
  case (Cons k ks)
  have "I (f k s)" by (rule inv) (rule Cons.prems)
  moreover have "distinct ks" using Cons.prems by simp
  ultimately have "look (fold f ks (f k s)) k' =
      (if k' \<in> set ks then upd k' (look (f k s) k') else look (f k s) k')"
    by (rule Cons.IH)
  then show ?case using Cons.prems by (auto simp: step)
qed

section \<open>Strings\<close>

text \<open>
  The characters \<^verbatim>\<open>unicode.IsSpace\<close> accepts, in UTF-8. No encoding is a prefix or a suffix of
  another, so stripping encodings from either end is what \<^verbatim>\<open>strings.TrimSpace\<close> does rune by rune.
\<close>

definition space_runes :: "string list" where
  "space_runes =
     [[CHR 0x09], [CHR 0x0A], [CHR 0x0B], [CHR 0x0C], [CHR 0x0D], [CHR 0x20], [CHR 0xC2, CHR 0x85],
      [CHR 0xC2, CHR 0xA0], [CHR 0xE1, CHR 0x9A, CHR 0x80], [CHR 0xE2, CHR 0x80, CHR 0x80],
      [CHR 0xE2, CHR 0x80, CHR 0x81], [CHR 0xE2, CHR 0x80, CHR 0x82],
      [CHR 0xE2, CHR 0x80, CHR 0x83], [CHR 0xE2, CHR 0x80, CHR 0x84],
      [CHR 0xE2, CHR 0x80, CHR 0x85], [CHR 0xE2, CHR 0x80, CHR 0x86],
      [CHR 0xE2, CHR 0x80, CHR 0x87], [CHR 0xE2, CHR 0x80, CHR 0x88],
      [CHR 0xE2, CHR 0x80, CHR 0x89], [CHR 0xE2, CHR 0x80, CHR 0x8A],
      [CHR 0xE2, CHR 0x80, CHR 0xA8], [CHR 0xE2, CHR 0x80, CHR 0xA9],
      [CHR 0xE2, CHR 0x80, CHR 0xAF], [CHR 0xE2, CHR 0x81, CHR 0x9F],
      [CHR 0xE3, CHR 0x80, CHR 0x80]]"

fun is_prefix :: "string \<Rightarrow> string \<Rightarrow> bool" where
  "is_prefix [] s = True"
| "is_prefix (c # cs) [] = False"
| "is_prefix (c # cs) (d # ds) = (c = d \<and> is_prefix cs ds)"

definition starts_with_any :: "string list \<Rightarrow> string \<Rightarrow> string option" where
  "starts_with_any es s = find (\<lambda>e. is_prefix e s) es"

fun strip_fuel :: "nat \<Rightarrow> string list \<Rightarrow> string \<Rightarrow> string" where
  "strip_fuel 0 es s = s"
| "strip_fuel (Suc n) es s =
     (case starts_with_any es s of
        None \<Rightarrow> s
      | Some e \<Rightarrow> strip_fuel n es (drop (length e) s))"

definition strip :: "string list \<Rightarrow> string \<Rightarrow> string" where
  "strip es s = strip_fuel (length s) es s"

definition TrimSpace :: "string \<Rightarrow> string" where
  "TrimSpace s = rev (strip (map rev space_runes) (rev (strip space_runes s)))"

lemma is_prefix_iff: "is_prefix p s \<longleftrightarrow> (\<exists>t. s = p @ t)"
  by (induction p s rule: is_prefix.induct) auto

lemma starts_with_any_None: "starts_with_any es s = None \<longleftrightarrow> (\<forall>e \<in> set es. \<not> is_prefix e s)"
  by (auto simp: starts_with_any_def find_None_iff)

lemma starts_with_any_SomeD: "starts_with_any es s = Some e \<Longrightarrow> e \<in> set es \<and> is_prefix e s"
  by (auto simp: starts_with_any_def find_Some_iff)

text \<open>The fuel is enough: with non-empty encodings each round shortens the string.\<close>

lemma strip_fuel_done:
  assumes "[] \<notin> set es" and "length s \<le> n"
  shows "starts_with_any es (strip_fuel n es s) = None"
  using assms(2)
proof (induction n arbitrary: s)
  case 0
  then have "\<forall>e \<in> set es. \<not> is_prefix e s"
    using assms(1) by (metis is_prefix.simps(2) le_zero_eq length_0_conv list.exhaust)
  then show ?case by (simp add: starts_with_any_None)
next
  case (Suc n)
  show ?case
  proof (cases "starts_with_any es s")
    case None
    then show ?thesis by simp
  next
    case (Some e)
    then have "e \<noteq> []" "is_prefix e s"
      using assms(1) by (auto dest: starts_with_any_SomeD)
    then have "length (drop (length e) s) \<le> n"
      using Suc.prems by (cases e; cases s) auto
    with Some Suc.IH show ?thesis by simp
  qed
qed

lemma strip_fuel_suffix: "\<exists>p. s = p @ strip_fuel n es s"
proof (induction n arbitrary: s)
  case 0
  then show ?case by simp
next
  case (Suc n)
  show ?case
  proof (cases "starts_with_any es s")
    case None
    then show ?thesis by simp
  next
    case (Some e)
    obtain p where "drop (length e) s = p @ strip_fuel n es (drop (length e) s)"
      using Suc.IH by blast
    then have "s = (take (length e) s @ p) @ strip_fuel n es (drop (length e) s)"
      by (metis append.assoc append_take_drop_id)
    then have "s = (take (length e) s @ p) @ strip_fuel (Suc n) es s"
      using Some by simp
    then show ?thesis ..
  qed
qed

lemma strip_id: "starts_with_any es s = None \<Longrightarrow> strip es s = s"
  by (cases "length s") (auto simp: strip_def)

lemma strip_done: "[] \<notin> set es \<Longrightarrow> starts_with_any es (strip es s) = None"
  by (simp add: strip_def strip_fuel_done)

lemma strip_suffix: "\<exists>p. s = p @ strip es s"
  by (simp add: strip_def strip_fuel_suffix)

lemma space_runes_nonempty: "[] \<notin> set space_runes" "[] \<notin> set (map rev space_runes)"
  by (simp_all add: space_runes_def)

lemma TrimSpace_prefix_free: "starts_with_any space_runes (TrimSpace s) = None"
proof -
  let ?l = "strip space_runes s"
  have l: "starts_with_any space_runes ?l = None"
    by (rule strip_done) (rule space_runes_nonempty)
  obtain q where "rev ?l = q @ rev (TrimSpace s)"
    using strip_suffix [of "rev ?l"] by (auto simp: TrimSpace_def)
  then have "?l = TrimSpace s @ rev q" by (metis rev_append rev_rev_ident)
  with l show ?thesis
    by (auto simp: starts_with_any_None is_prefix_iff)
qed

lemma TrimSpace_suffix_free: "starts_with_any (map rev space_runes) (rev (TrimSpace s)) = None"
  unfolding TrimSpace_def rev_rev_ident by (rule strip_done) (rule space_runes_nonempty)

lemma TrimSpace_idem [simp]: "TrimSpace (TrimSpace s) = TrimSpace s"
proof -
  have "strip space_runes (TrimSpace s) = TrimSpace s"
    by (rule strip_id) (rule TrimSpace_prefix_free)
  moreover have "strip (map rev space_runes) (rev (TrimSpace s)) = rev (TrimSpace s)"
    by (rule strip_id) (rule TrimSpace_suffix_free)
  ultimately show ?thesis by (subst TrimSpace_def) simp
qed

lemma TrimSpace_Nil [simp]: "TrimSpace [] = []"
  by (simp add: TrimSpace_def strip_def)

text \<open>
  \<^verbatim>\<open>strings.ToLower\<close> on the ASCII letters. The sources compare the result with ASCII words that
  have no \<open>i\<close> and no \<open>k\<close>, the only ASCII letters some other character is lowered to.
\<close>

definition ascii_lower :: "char \<Rightarrow> char" where
  "ascii_lower c =
     (case c of Char b0 b1 b2 b3 b4 b5 b6 b7 \<Rightarrow>
        (let n = (of_char c :: int) in
         if 65 \<le> n \<and> n \<le> 90 then Char b0 b1 b2 b3 b4 True b6 b7 else c))"

definition ToLower :: "string \<Rightarrow> string" where
  "ToLower s = map ascii_lower s"

text \<open>\<^verbatim>\<open>strings.Cut\<close> and \<^verbatim>\<open>strings.Split\<close> at a one-byte separator.\<close>

fun Cut :: "string \<Rightarrow> char \<Rightarrow> string \<times> string \<times> bool" where
  "Cut [] sep = ([], [], False)"
| "Cut (c # cs) sep =
     (if c = sep then ([], cs, True)
      else (case Cut cs sep of (before, after, found) \<Rightarrow> (c # before, after, found)))"

fun Split :: "string \<Rightarrow> char \<Rightarrow> string list" where
  "Split [] sep = [[]]"
| "Split (c # cs) sep =
     (if c = sep then [] # Split cs sep
      else (case Split cs sep of [] \<Rightarrow> [[c]] | w # ws \<Rightarrow> (c # w) # ws))"

definition Contains :: "string \<Rightarrow> char \<Rightarrow> bool" where
  "Contains s c = (c \<in> set s)"

lemma Cut_found: "snd (snd (Cut s sep)) = (sep \<in> set s)"
  by (induction s sep rule: Cut.induct) (auto split: prod.splits)

lemma Cut_append: "sep \<notin> set p \<Longrightarrow> Cut (p @ sep # s) sep = (p, s, True)"
  by (induction p) auto

lemma Split_nonempty: "Split s sep \<noteq> []"
  by (cases s) (auto split: list.splits)

lemma Split_append:
  assumes "sep \<notin> set p"
  shows "Split (p @ sep # s) sep = p # Split s sep"
  using assms by (induction p) (auto split: list.splits)

lemma Split_no_sep: "sep \<notin> set s \<Longrightarrow> Split s sep = [s]"
  by (induction s) auto

section \<open>Machine integers and time\<close>

type_synonym time = int
type_synonym duration = int

definition wrap64 :: "int \<Rightarrow> int" where
  "wrap64 x = (x + 2 ^ 63) mod 2 ^ 64 - 2 ^ 63"

abbreviation max_int64 :: int where "max_int64 \<equiv> 2 ^ 63 - 1"
abbreviation min_int64 :: int where "min_int64 \<equiv> - (2 ^ 63)"

lemma wrap64_id: "- (2 ^ 63) \<le> x \<Longrightarrow> x < 2 ^ 63 \<Longrightarrow> wrap64 x = x"
  by (simp add: wrap64_def)

lemma wrap64_range: "- (2 ^ 63) \<le> wrap64 x \<and> wrap64 x < 2 ^ 63"
proof -
  have "0 \<le> (x + 2 ^ 63) mod 2 ^ 64 \<and> (x + 2 ^ 63) mod 2 ^ 64 < (2 ^ 64 :: int)" by simp
  then show ?thesis by (simp add: wrap64_def)
qed

abbreviation Millisecond :: duration where "Millisecond \<equiv> 1000000"
abbreviation Second :: duration where "Second \<equiv> 1000000000"
abbreviation Minute :: duration where "Minute \<equiv> 60000000000"
abbreviation Hour :: duration where "Hour \<equiv> 3600000000000"

definition IsZero :: "time \<Rightarrow> bool" where
  "IsZero t = (t = 0)"

definition After :: "time \<Rightarrow> time \<Rightarrow> bool" where
  "After t u = (u < t)"

definition Add :: "time \<Rightarrow> duration \<Rightarrow> time" where
  "Add t d = t + d"

definition Sub :: "time \<Rightarrow> time \<Rightarrow> duration" where
  "Sub t u = max min_int64 (min max_int64 (t - u))"

definition seconds_dur :: "int \<Rightarrow> duration" where
  \<comment> \<open>\<^verbatim>\<open>time.Duration(n) * time.Second\<close>, an \<open>int64\<close> product\<close>
  "seconds_dur n = wrap64 (n * Second)"

definition dur_seconds :: "duration \<Rightarrow> int" where
  \<comment> \<open>\<^verbatim>\<open>int(d.Seconds())\<close>, truncated towards zero\<close>
  "dur_seconds d = sgn d * (\<bar>d\<bar> div Second)"

lemma Sub_gt: "min_int64 \<le> d \<Longrightarrow> d < max_int64 \<Longrightarrow> d < Sub t u \<longleftrightarrow> d < t - u"
  by (auto simp: Sub_def)

lemma Sub_le: "min_int64 \<le> d \<Longrightarrow> d < max_int64 \<Longrightarrow> Sub t u \<le> d \<longleftrightarrow> t - u \<le> d"
  by (auto simp: Sub_def)

lemma Sub_same [simp]: "Sub t t = 0"
  by (simp add: Sub_def)

lemma Sub_mono: "t \<le> t' \<Longrightarrow> Sub t u \<le> Sub t' u"
  by (simp add: Sub_def)

section \<open>sort.Search\<close>

text \<open>
  \<^verbatim>\<open>sort.Search(n, f)\<close>: the least \<open>i\<close> in \<open>[0, n]\<close> with \<open>f i\<close>, found by bisection. The loop
  keeps \<open>f (i - 1) = false\<close> and \<open>f j = true\<close> and halves \<open>j - i\<close>.
\<close>

function search_loop :: "(nat \<Rightarrow> bool) \<Rightarrow> nat \<Rightarrow> nat \<Rightarrow> nat" where
  "search_loop f i j =
     (if i < j then
        (let h = (i + j) div 2 in
         if \<not> f h then search_loop f (h + 1) j else search_loop f i h)
      else i)"
  by pat_completeness auto
termination
  by (relation "measure (\<lambda>(f, i, j). j - i)") auto

declare search_loop.simps [simp del]

definition sort_Search :: "nat \<Rightarrow> (nat \<Rightarrow> bool) \<Rightarrow> nat" where
  "sort_Search n f = search_loop f 0 n"

lemma search_loop_correct:
  assumes "\<And>a b. a \<le> b \<Longrightarrow> b < n \<Longrightarrow> f a \<Longrightarrow> f b"
    and "i \<le> j" and "j \<le> n" and "\<forall>k < i. \<not> f k" and "\<forall>k. j \<le> k \<and> k < n \<longrightarrow> f k"
  shows "search_loop f i j \<le> n \<and> (\<forall>k < n. f k \<longleftrightarrow> search_loop f i j \<le> k)"
  using assms
proof (induction f i j rule: search_loop.induct)
  case (1 f i j)
  note mono = "1.prems"(1)
  show ?case
  proof (cases "i < j")
    case False
    then have "search_loop f i j = i" by (simp add: search_loop.simps [of f i j])
    with False "1.prems"(2-) show ?thesis by (simp add: order_antisym) (metis leI)
  next
    case True
    define h where "h = (i + j) div 2"
    have h: "i \<le> h" "h < j" "h < n" using True "1.prems"(3) by (auto simp: h_def)
    show ?thesis
    proof (cases "f h")
      case False
      have "\<forall>k < h + 1. \<not> f k" using False h mono by (metis Suc_eq_plus1 less_Suc_eq_le)
      then have "search_loop f (h + 1) j \<le> n \<and> (\<forall>k < n. f k \<longleftrightarrow> search_loop f (h + 1) j \<le> k)"
        using h "1.prems"(3,5) by (intro "1.IH"(1) [OF True h_def False mono]) auto
      with True False show ?thesis
        by (simp add: search_loop.simps [of f i j] Let_def flip: h_def)
    next
      case fh: True
      have "\<forall>k. h \<le> k \<and> k < n \<longrightarrow> f k" using fh mono by blast
      then have "search_loop f i h \<le> n \<and> (\<forall>k < n. f k \<longleftrightarrow> search_loop f i h \<le> k)"
        using fh h "1.prems"(4) by (intro "1.IH"(2) [OF True h_def _ mono]) auto
      with True fh show ?thesis
        by (simp add: search_loop.simps [of f i j] Let_def flip: h_def)
    qed
  qed
qed

lemma sort_Search_correct:
  assumes "\<And>a b. a \<le> b \<Longrightarrow> b < n \<Longrightarrow> f a \<Longrightarrow> f b"
  shows "sort_Search n f \<le> n \<and> (\<forall>k < n. f k \<longleftrightarrow> sort_Search n f \<le> k)"
  unfolding sort_Search_def by (rule search_loop_correct) (use assms in auto)

section \<open>fmt.Sprintf with an integer verb\<close>

definition digit :: "int \<Rightarrow> char" where
  "digit d = ''0123456789'' ! nat d"

function decimal :: "int \<Rightarrow> string" where
  "decimal n = (if n < 10 then [digit n] else decimal (n div 10) @ [digit (n mod 10)])"
  by pat_completeness auto
termination
  by (relation "measure nat") auto

declare decimal.simps [simp del]

definition pad_zeros :: "nat \<Rightarrow> string \<Rightarrow> string" where
  "pad_zeros w s = replicate (w - length s) (digit 0) @ s"

definition fmt_d :: "int \<Rightarrow> string" where
  \<comment> \<open>the verb \<^verbatim>\<open>%d\<close>\<close>
  "fmt_d n = (if n < 0 then CHR ''-'' # decimal (- n) else decimal n)"

definition fmt_06d :: "int \<Rightarrow> string" where
  \<comment> \<open>the verb \<^verbatim>\<open>%06d\<close>: the sign counts towards the width\<close>
  "fmt_06d n =
     (if n < 0 then CHR ''-'' # pad_zeros 5 (decimal (- n))
      else pad_zeros 6 (decimal n))"

definition decimal_value :: "string \<Rightarrow> int" where
  "decimal_value s = foldl (\<lambda>v c. v * 10 + (of_char c - 48)) 0 s"

lemma of_char_digit:
  assumes "0 \<le> d" and "d < 10"
  shows "(of_char (digit d) :: int) = 48 + d"
proof -
  have "d = 0 \<or> d = 1 \<or> d = 2 \<or> d = 3 \<or> d = 4 \<or> d = 5 \<or> d = 6 \<or> d = 7 \<or> d = 8 \<or> d = 9"
    using assms by presburger
  then show ?thesis by (elim disjE; simp add: digit_def)
qed

lemma decimal_value_snoc: "decimal_value (s @ [c]) = decimal_value s * 10 + (of_char c - 48)"
  by (simp add: decimal_value_def)

lemma decimal_value_zeros: "decimal_value (replicate k (digit 0) @ s) = decimal_value s"
proof (induction k)
  case (Suc k)
  then show ?case by (simp add: decimal_value_def of_char_digit)
qed simp

lemma decimal_value_decimal: "0 \<le> n \<Longrightarrow> decimal_value (decimal n) = n"
proof (induction n rule: decimal.induct)
  case (1 n)
  show ?case
  proof (cases "n < 10")
    case True
    with "1.prems" show ?thesis
      by (simp add: decimal.simps [of n] decimal_value_def of_char_digit)
  next
    case False
    then have "decimal_value (decimal (n div 10)) = n div 10" by (intro "1.IH") auto
    with False show ?thesis
      by (simp add: decimal.simps [of n] decimal_value_snoc of_char_digit)
  qed
qed

lemma fmt_06d_inj:
  assumes "0 \<le> m" and "0 \<le> n" and "fmt_06d m = fmt_06d n"
  shows "m = n"
proof -
  have "decimal_value (fmt_06d k) = k" if "0 \<le> k" for k
    using that by (simp add: fmt_06d_def pad_zeros_def decimal_value_zeros decimal_value_decimal)
  with assms show ?thesis by metis
qed

end
