(* ===== verification/Go_Json.thy ===== *)
theory Go_Json
  imports Go_Prelude
begin

text \<open>
  Go values of type \<^verbatim>\<open>any\<close> as the sources build them, and \<^verbatim>\<open>encoding/json\<close>'s rendering of them.
  The bus keeps such values (message metadata, observer payloads, callback payloads) and measures
  them: the retained bytes of an event count the length of its rendered JSON. \<open>JOpaque\<close> stands for
  a value \<^verbatim>\<open>json.Marshal\<close> refuses; a number is carried as the literal it renders to; a Go map
  (\<open>JMap\<close>) is rendered with its keys sorted and a struct (\<open>JStruct\<close>) in field order. Times are
  rendered in \<^verbatim>\<open>RFC3339Nano\<close>, UTC.
\<close>

datatype json =
    JNull
  | JBool bool
  | JNum string
  | JStr string
  | JTime time
  | JArr "json list"
  | JMap "(string \<times> json) list"
  | JStruct "(string \<times> json) list"
  | JOpaque

section \<open>UTF-8\<close>

definition byte_in :: "int \<Rightarrow> int \<Rightarrow> char \<Rightarrow> bool" where
  "byte_in lo hi c = (lo \<le> (of_char c :: int) \<and> (of_char c :: int) \<le> hi)"

definition second_byte_ok :: "char \<Rightarrow> char \<Rightarrow> bool" where
  "second_byte_ok b0 b1 =
     (let n = (of_char b0 :: int) in
      if n = 0xE0 then byte_in 0xA0 0xBF b1
      else if n = 0xED then byte_in 0x80 0x9F b1
      else if n = 0xF0 then byte_in 0x90 0xBF b1
      else if n = 0xF4 then byte_in 0x80 0x8F b1
      else byte_in 0x80 0xBF b1)"

text \<open>The length of the rune a string starts with; 0 when the string is empty or malformed there.\<close>

fun rune_len :: "string \<Rightarrow> nat" where
  "rune_len [] = 0"
| "rune_len (b0 # bs) =
     (if byte_in 0 0x7F b0 then 1
      else if byte_in 0xC2 0xDF b0 then
        (case bs of b1 # _ \<Rightarrow> if second_byte_ok b0 b1 then 2 else 0 | _ \<Rightarrow> 0)
      else if byte_in 0xE0 0xEF b0 then
        (case bs of b1 # b2 # _ \<Rightarrow> if second_byte_ok b0 b1 \<and> byte_in 0x80 0xBF b2 then 3 else 0
         | _ \<Rightarrow> 0)
      else if byte_in 0xF0 0xF4 b0 then
        (case bs of b1 # b2 # b3 # _ \<Rightarrow>
           if second_byte_ok b0 b1 \<and> byte_in 0x80 0xBF b2 \<and> byte_in 0x80 0xBF b3 then 4 else 0
         | _ \<Rightarrow> 0)
      else 0)"

lemma rune_len_le: "rune_len s \<le> length s"
  by (cases s) (auto split: list.splits)

declare rune_len.simps [simp del]

section \<open>Strings\<close>

definition hex_digit :: "int \<Rightarrow> char" where
  "hex_digit d = ''0123456789abcdef'' ! nat d"

definition u00 :: "char \<Rightarrow> string" where
  "u00 c = (let n = (of_char c :: int)
            in [CHR 0x5C, CHR ''u'', CHR ''0'', CHR ''0'', hex_digit (n div 16), hex_digit (n mod 16)])"

text \<open>One ASCII character inside a JSON string; HTML characters are escaped too.\<close>

definition json_ascii :: "char \<Rightarrow> string" where
  "json_ascii c =
     (let n = (of_char c :: int) in
      if n = 34 \<or> n = 92 then [CHR 0x5C, c]
      else if n = 8 then [CHR 0x5C, CHR ''b'']
      else if n = 12 then [CHR 0x5C, CHR ''f'']
      else if n = 10 then [CHR 0x5C, CHR ''n'']
      else if n = 13 then [CHR 0x5C, CHR ''r'']
      else if n = 9 then [CHR 0x5C, CHR ''t'']
      else if n < 32 \<or> n = 60 \<or> n = 62 \<or> n = 38 then u00 c
      else [c])"

primrec json_escape_fuel :: "nat \<Rightarrow> string \<Rightarrow> string" where
  "json_escape_fuel 0 s = []"
| "json_escape_fuel (Suc n) s =
     (case s of [] \<Rightarrow> []
      | c # cs \<Rightarrow>
        (let k = rune_len s in
         if k = 0 then CHR 0x5C # ''ufffd'' @ json_escape_fuel n cs
         else if k = 1 then json_ascii c @ json_escape_fuel n cs
         else if take 3 s = [CHR 0xE2, CHR 0x80, CHR 0xA8] then
           CHR 0x5C # ''u2028'' @ json_escape_fuel n (drop k s)
         else if take 3 s = [CHR 0xE2, CHR 0x80, CHR 0xA9] then
           CHR 0x5C # ''u2029'' @ json_escape_fuel n (drop k s)
         else take k s @ json_escape_fuel n (drop k s)))"

definition json_string :: "string \<Rightarrow> string" where
  "json_string s = CHR 0x22 # json_escape_fuel (length s) s @ [CHR 0x22]"

text \<open>The fuel is the length of the string, and every round consumes a byte: more changes nothing.\<close>

lemma json_escape_fuel_enough:
  "length s \<le> n \<Longrightarrow> json_escape_fuel (n + k) s = json_escape_fuel n s"
proof (induction n arbitrary: s)
  case 0
  then show ?case by (cases k) auto
next
  case (Suc n)
  show ?case
  proof (cases s)
    case Nil
    then show ?thesis by simp
  next
    case (Cons c cs)
    then have "json_escape_fuel (n + k) cs = json_escape_fuel n cs"
      using Suc by simp
    moreover have "json_escape_fuel (n + k) (drop (rune_len s) s) = json_escape_fuel n (drop (rune_len s) s)"
      if "rune_len s \<noteq> 0"
      using Suc.prems that by (intro Suc.IH) simp
    ultimately show ?thesis by (auto simp: Cons Let_def)
  qed
qed

section \<open>Times\<close>

text \<open>The proleptic Gregorian calendar, from the days since 1 January of year 1.\<close>

definition leap_year :: "int \<Rightarrow> bool" where
  "leap_year y = (y mod 4 = 0 \<and> (y mod 100 \<noteq> 0 \<or> y mod 400 = 0))"

definition year_yday :: "int \<Rightarrow> int \<times> int" where
  "year_yday d =
     (let n400 = d div 146097; r400 = d mod 146097;
          n100 = min 3 (r400 div 36524); r100 = r400 - n100 * 36524;
          n4 = r100 div 1461; r4 = r100 mod 1461;
          n1 = min 3 (r4 div 365)
      in (400 * n400 + 100 * n100 + 4 * n4 + n1 + 1, r4 - n1 * 365))"

definition month_lengths :: "bool \<Rightarrow> int list" where
  "month_lengths leap = [31, if leap then 29 else 28, 31, 30, 31, 30, 31, 31, 30, 31, 30, 31]"

fun month_day :: "int list \<Rightarrow> int \<Rightarrow> int \<Rightarrow> int \<times> int" where
  "month_day [] m d = (m, d + 1)"
| "month_day (l # ls) m d = (if d < l then (m, d + 1) else month_day ls (m + 1) (d - l))"

definition dec_width :: "nat \<Rightarrow> int \<Rightarrow> string" where
  "dec_width w n = pad_zeros w (decimal n)"

fun strip_trailing_zeros :: "string \<Rightarrow> string" where
  "strip_trailing_zeros s =
     (if s \<noteq> [] \<and> last s = CHR ''0'' then strip_trailing_zeros (butlast s) else s)"

declare strip_trailing_zeros.simps [simp del]

definition frac_nanos :: "int \<Rightarrow> string" where
  "frac_nanos n =
     (let f = strip_trailing_zeros (dec_width 9 n) in if f = [] then [] else CHR ''.'' # f)"

definition rfc3339nano :: "time \<Rightarrow> string" where
  "rfc3339nano t =
     (let secs = t div Second; nanos = t mod Second;
          days = secs div 86400; sod = secs mod 86400;
          (y, yday) = year_yday days;
          (mo, dd) = month_day (month_lengths (leap_year y)) 1 yday
      in dec_width 4 y @ ''-'' @ dec_width 2 mo @ ''-'' @ dec_width 2 dd @ ''T''
         @ dec_width 2 (sod div 3600) @ '':'' @ dec_width 2 (sod div 60 mod 60) @ '':''
         @ dec_width 2 (sod mod 60) @ frac_nanos nanos @ ''Z'')"

definition time_year :: "time \<Rightarrow> int" where
  "time_year t = fst (year_yday (t div Second div 86400))"

section \<open>json.Marshal\<close>

definition join_comma :: "string list \<Rightarrow> string" where
  "join_comma xs = concat (case xs of [] \<Rightarrow> [] | y # ys \<Rightarrow> y # map (\<lambda>s. '','' @ s) ys)"

definition json_object :: "(string \<times> string) list \<Rightarrow> string" where
  "json_object kvs =
     CHR 0x7B # join_comma (map (\<lambda>(k, v). json_string k @ '':'' @ v) kvs) @ [CHR 0x7D]"

fun Marshal :: "json \<Rightarrow> string option"
  and marshal_list :: "json list \<Rightarrow> string list option"
  and marshal_fields :: "(string \<times> json) list \<Rightarrow> (string \<times> string) list option" where
  "Marshal JNull = Some ''null''"
| "Marshal (JBool b) = Some (if b then ''true'' else ''false'')"
| "Marshal (JNum lit) = Some lit"
| "Marshal (JStr s) = Some (json_string s)"
| "Marshal (JTime t) =
     (if 0 \<le> time_year t \<and> time_year t \<le> 9999
      then Some (CHR 0x22 # rfc3339nano t @ [CHR 0x22]) else None)"
| "Marshal (JArr xs) =
     map_option (\<lambda>ss. CHR ''['' # join_comma ss @ '']'') (marshal_list xs)"
| "Marshal (JMap kvs) = map_option (\<lambda>fs. json_object (sort_key fst fs)) (marshal_fields kvs)"
| "Marshal (JStruct kvs) = map_option json_object (marshal_fields kvs)"
| "Marshal JOpaque = None"
| "marshal_list [] = Some []"
| "marshal_list (x # xs) =
     (case Marshal x of None \<Rightarrow> None | Some s \<Rightarrow> map_option (\<lambda>ss. s # ss) (marshal_list xs))"
| "marshal_fields [] = Some []"
| "marshal_fields ((k, x) # kvs) =
     (case Marshal x of None \<Rightarrow> None
      | Some s \<Rightarrow> map_option (\<lambda>fs. (k, s) # fs) (marshal_fields kvs))"

text \<open>A nil slice renders as \<open>null\<close>; the bus stores no other empty slice of names.\<close>

definition json_strings :: "string list \<Rightarrow> json" where
  "json_strings xs = (if xs = [] then JNull else JArr (map JStr xs))"

text \<open>\<^verbatim>\<open>if v != nil { if blob, err := json.Marshal(v); err == nil { size += len(blob) } }\<close>\<close>

definition json_size :: "json \<Rightarrow> int" where
  "json_size v =
     (if v = JNull then 0
      else (case Marshal v of None \<Rightarrow> 0 | Some blob \<Rightarrow> int (length blob)))"

lemma json_size_nonneg [simp]: "0 \<le> json_size v"
  by (simp add: json_size_def split: option.splits)

end
