(* ===== verification/Bus_Types.thy ===== *)
theory Bus_Types
  imports Go_Json
begin

text \<open>
  The data model of the bus (\<^verbatim>\<open>pkg/bus/types.go\<close>) and its errors (\<^verbatim>\<open>pkg/bus/errors.go\<close>).

  A Go string type with named constants is a datatype with those constants and one more
  constructor for every other string the type can hold (the zero value is that constructor at the
  empty string). A struct is a record whose fields carry a prefix, since Isabelle record fields
  are global names. The order on message states is the order of the request life cycle; it is
  stated as an instance of the library's class \<open>order\<close>.
\<close>

section \<open>Named string types\<close>

datatype scope = ScopePersonal | ScopeUCLA | ScopeShared | ScopeOther string

datatype namespace_mode = NamespaceModeCompat | NamespaceModeStrict | NamespaceModeOther string

datatype agent_mode = AgentModePull | AgentModePush | AgentModeOther string

datatype message_type =
  MessageTypeRequest | MessageTypeResponse | MessageTypeInform | MessageTypeOther string

datatype message_state =
    StatePending | StateWaitingAck | StateExecuting
  | StateCompleted | StateRejected | StateError | StateOther string

datatype agent_status = AgentStatusActive | AgentStatusExpired | AgentStatusOther string

datatype event_type =
    ObserveMessage | ObserveAck | ObserveProgress | ObserveStateChange
  | ObserveAgentRegistered | ObserveAgentExpired | ObserveHumanInjection

fun scope_str :: "scope \<Rightarrow> string" where
  "scope_str ScopePersonal = ''personal''"
| "scope_str ScopeUCLA = ''ucla''"
| "scope_str ScopeShared = ''shared''"
| "scope_str (ScopeOther s) = s"

fun message_type_str :: "message_type \<Rightarrow> string" where
  "message_type_str MessageTypeRequest = ''request''"
| "message_type_str MessageTypeResponse = ''response''"
| "message_type_str MessageTypeInform = ''inform''"
| "message_type_str (MessageTypeOther s) = s"

fun message_state_str :: "message_state \<Rightarrow> string" where
  "message_state_str StatePending = ''pending''"
| "message_state_str StateWaitingAck = ''waiting''"
| "message_state_str StateExecuting = ''executing''"
| "message_state_str StateCompleted = ''completed''"
| "message_state_str StateRejected = ''rejected''"
| "message_state_str StateError = ''error''"
| "message_state_str (StateOther s) = s"

fun isTerminal :: "message_state \<Rightarrow> bool" where
  "isTerminal StateCompleted = True"
| "isTerminal StateRejected = True"
| "isTerminal StateError = True"
| "isTerminal _ = False"

text \<open>How far a request has come. Terminal states are equally far and incomparable.\<close>

fun state_rank :: "message_state \<Rightarrow> nat" where
  "state_rank StatePending = 0"
| "state_rank (StateOther s) = 0"
| "state_rank StateWaitingAck = 1"
| "state_rank StateExecuting = 2"
| "state_rank StateCompleted = 3"
| "state_rank StateRejected = 3"
| "state_rank StateError = 3"

instantiation message_state :: order
begin

definition less_eq_message_state :: "message_state \<Rightarrow> message_state \<Rightarrow> bool" where
  "less_eq_message_state a b = (a = b \<or> state_rank a < state_rank b)"

definition less_message_state :: "message_state \<Rightarrow> message_state \<Rightarrow> bool" where
  "less_message_state a b = (state_rank a < state_rank b)"

instance
  by standard (auto simp: less_eq_message_state_def less_message_state_def)

end

lemma isTerminal_rank: "isTerminal st \<longleftrightarrow> state_rank st = 3"
  by (cases st) auto

lemma state_rank_le: "state_rank st \<le> 3"
  by (cases st) auto

lemma terminal_maximal: "isTerminal st \<Longrightarrow> st \<le> st' \<Longrightarrow> st' = st"
  using state_rank_le [of st'] by (auto simp: isTerminal_rank less_eq_message_state_def)

lemma terminal_above: "isTerminal st' \<Longrightarrow> \<not> isTerminal st \<Longrightarrow> st \<le> st'"
  using state_rank_le [of st] by (auto simp: isTerminal_rank less_eq_message_state_def)

lemma waiting_le_executing: "StateWaitingAck \<le> StateExecuting" "StatePending \<le> StateWaitingAck"
  "StatePending \<le> StateExecuting"
  by (simp_all add: less_eq_message_state_def)

section \<open>Structs\<close>

record attachment =
  at_URL :: string
  at_Name :: string
  at_ContentType :: string
  at_Size :: int
  at_SHA256 :: string

record build_info =
  bi_Commit :: string
  bi_Dirty :: bool

record agent_meta =
  am_Owner :: string
  am_Repo :: string
  am_HealthURL :: string
  am_Dependencies :: "string list"

record agent =
  a_AgentID :: string
  a_AllowedScopes :: "string list"
  a_SharedGrants :: "string list"
  a_Capabilities :: "string list"
  a_Version :: string
  a_Description :: string
  a_AgentClass :: string
  a_MutationClass :: string
  a_Build :: "build_info option"
  a_Meta :: "agent_meta option"
  a_Mode :: agent_mode
  a_CallbackURL :: string
  a_Status :: agent_status
  a_RegisteredAt :: time
  a_ExpiresAt :: time
  a_TTLSeconds :: int

record conversation =
  c_ConversationID :: string
  c_Title :: string
  c_Participants :: "string list"
  c_Status :: string
  c_MessageCount :: int
  c_CreatedAt :: time
  c_LastMessageAt :: time
  c_Meta :: json

record message =
  m_MessageID :: string
  m_Type :: message_type
  m_From :: string
  m_To :: string
  m_ConversationID :: string
  m_RequestID :: string
  m_InReplyTo :: string
  m_Body :: string
  m_Meta :: json
  m_Attachments :: "attachment list"
  m_State :: message_state
  m_CreatedAt :: time
  m_TerminalAt :: time
  m_DeliveredAt :: time
  m_LastProgressAt :: time
  m_TTLExpiresAt :: time
  m_GraceUntil :: time
  m_QueuedForAgent :: bool

record inbox_event =
  i_MessageID :: string
  i_Type :: message_type
  i_From :: string
  i_ConversationID :: string
  i_Body :: string
  i_Meta :: json
  i_Attachments :: "attachment list"
  i_CreatedAt :: time

record observe_event =
  o_ID :: int
  o_Type :: event_type
  o_At :: time
  o_Data :: json
  o_ConversationID :: string
  o_AgentIDs :: "string list"
  o_Size :: int

record register_agent_input =
  ra_AgentID :: string
  ra_Secret :: string
  ra_AllowedScopes :: "string list"
  ra_SharedGrants :: "string list"
  ra_Capabilities :: "string list"
  ra_Version :: string
  ra_Description :: string
  ra_AgentClass :: string
  ra_MutationClass :: string
  ra_Build :: "build_info option"
  ra_Meta :: "agent_meta option"
  ra_Mode :: agent_mode
  ra_CallbackURL :: string
  ra_TTLSeconds :: int

record create_conversation_input =
  cc_ConversationID :: string
  cc_Title :: string
  cc_Participants :: "string list"
  cc_Meta :: json
  cc_ActorAgentID :: string

record list_conversations_filter =
  lf_Participant :: string
  lf_Status :: string
  lf_ActorAgentID :: string

record send_message_input =
  sm_To :: string
  sm_From :: string
  sm_ConversationID :: string
  sm_RequestID :: string
  sm_Type :: message_type
  sm_Body :: string
  sm_Meta :: json
  sm_Attachments :: "attachment list"
  sm_TTLSeconds :: int
  sm_InReplyTo :: string

record poll_inbox_input =
  pi_AgentID :: string
  pi_Cursor :: int
  pi_Wait :: duration
  pi_Limit :: int

record ack_input =
  ak_AgentID :: string
  ak_MessageID :: string
  ak_Status :: string
  ak_Reason :: string

record event_input =
  ev_ActorAgentID :: string
  ev_MessageID :: string
  ev_Type :: string
  ev_Body :: string
  ev_Meta :: json

record inject_input =
  ij_Identity :: string
  ij_ConversationID :: string
  ij_To :: string
  ij_Body :: string

record list_conversation_messages_input =
  lm_ConversationID :: string
  lm_Cursor :: int
  lm_Limit :: int
  lm_ActorAgentID :: string

record observe_filter =
  of_ConversationID :: string
  of_AgentID :: string
  of_ActorAgentID :: string

section \<open>Errors\<close>

datatype error_code =
    CodeValidation | CodeUnauthorized | CodeNotFound | CodeRejected | CodeRateLimited
  | CodeUnavailable | CodePayloadTooLarge | CodeTimeout | CodeInternal

record bus_error_data =
  e_Code :: error_code
  e_Message :: string
  e_Transient :: bool
  e_RetryAfter :: int
  e_Status :: int

text \<open>An error a Go function returns: one of the bus's own, or any other (a database error, say).\<close>

datatype bus_error = BusError bus_error_data | OtherError string

fun code_str :: "error_code \<Rightarrow> string" where
  "code_str CodeValidation = ''validation''"
| "code_str CodeUnauthorized = ''unauthorized''"
| "code_str CodeNotFound = ''not_found''"
| "code_str CodeRejected = ''rejected''"
| "code_str CodeRateLimited = ''rate_limited''"
| "code_str CodeUnavailable = ''unavailable''"
| "code_str CodePayloadTooLarge = ''payload_too_large''"
| "code_str CodeTimeout = ''timeout''"
| "code_str CodeInternal = ''internal''"

definition error_text :: "bus_error_data \<Rightarrow> string" where
  "error_text e = code_str (e_Code e) @ '': '' @ e_Message e"

fun statusForCode :: "error_code \<Rightarrow> int" where
  "statusForCode CodeValidation = 400"
| "statusForCode CodeUnauthorized = 401"
| "statusForCode CodeNotFound = 404"
| "statusForCode CodeRejected = 409"
| "statusForCode CodeRateLimited = 429"
| "statusForCode CodePayloadTooLarge = 413"
| "statusForCode CodeTimeout = 408"
| "statusForCode CodeUnavailable = 503"
| "statusForCode CodeInternal = 500"

definition newError :: "error_code \<Rightarrow> string \<Rightarrow> bool \<Rightarrow> duration \<Rightarrow> bus_error" where
  "newError code msg transient retryAfter =
     (let retryAfterSec =
        (if retryAfter > 0
         then (let r = dur_seconds retryAfter in if r \<le> 0 then 1 else r)
         else 0)
      in BusError \<lparr>e_Code = code, e_Message = msg, e_Transient = transient,
                   e_RetryAfter = retryAfterSec, e_Status = statusForCode code\<rparr>)"

definition NewValidationJSONError :: "string \<Rightarrow> bus_error" where
  "NewValidationJSONError err = newError CodeValidation (''invalid json: '' @ err) False 0"

definition NewInternalError :: "string \<Rightarrow> bus_error" where
  "NewInternalError msg = newError CodeInternal msg True 0"

fun error_is :: "error_code \<Rightarrow> bus_error \<Rightarrow> bool" where
  "error_is c (BusError e) = (e_Code e = c)"
| "error_is c (OtherError s) = False"

lemma error_is_newError [simp]: "error_is c (newError c' msg tr ra) = (c = c')"
  by (auto simp: newError_def Let_def)

section \<open>Cloning\<close>

text \<open>
  The clone functions copy slices so that a caller cannot reach the store's arrays; on values they
  are the identity, an empty slice becoming nil.
\<close>

definition cloneStrings :: "string list \<Rightarrow> string list" where
  "cloneStrings xs = (if length xs = 0 then [] else [] @ xs)"

fun cloneBuildInfo :: "build_info option \<Rightarrow> build_info option" where
  "cloneBuildInfo None = None"
| "cloneBuildInfo (Some b) = Some b"

fun cloneAgentMeta :: "agent_meta option \<Rightarrow> agent_meta option" where
  "cloneAgentMeta None = None"
| "cloneAgentMeta (Some m) = Some (m\<lparr>am_Dependencies := cloneStrings (am_Dependencies m)\<rparr>)"

definition cloneAgent :: "agent \<Rightarrow> agent" where
  "cloneAgent a =
     a\<lparr>a_AllowedScopes := cloneStrings (a_AllowedScopes a),
       a_SharedGrants := cloneStrings (a_SharedGrants a),
       a_Capabilities := cloneStrings (a_Capabilities a),
       a_Build := cloneBuildInfo (a_Build a),
       a_Meta := cloneAgentMeta (a_Meta a)\<rparr>"

lemma cloneStrings_id [simp]: "cloneStrings xs = xs"
  by (simp add: cloneStrings_def)

lemma cloneAgent_id [simp]: "cloneAgent a = a"
proof -
  have "cloneBuildInfo b = b" for b by (cases b) auto
  moreover have "cloneAgentMeta m = m" for m by (cases m) auto
  ultimately show ?thesis by (simp add: cloneAgent_def)
qed

end
