(* ===== verification/Bus_Scope.thy ===== *)
theory Bus_Scope
  imports Bus_Types
begin

text \<open>
  Configuration, namespaces and authorization: \<^verbatim>\<open>Config\<close> and the defaults of \<^verbatim>\<open>NewStore\<close>
  (\<^verbatim>\<open>pkg/bus/store.go\<close>), the scope functions (\<^verbatim>\<open>pkg/bus/scope.go\<close>) and the authorization
  functions of the store.

  The methods of this part read only the configuration and the set of control-plane identities,
  so they are defined on the record \<open>policy\<close> that the store's record extends. Clock, logger and
  HTTP client are not state of the model: a method that reads the clock takes the reading as an
  argument. The secret hashes are compared through an arbitrary function for SHA-256.

  The locale \<open>access_control\<close> is what the rest of the bus relies on here: who may touch which
  name. Its lemmas say what that keeps apart, and the interpretation shows the bus's own
  \<open>agentCanAccessName\<close> provides it.
\<close>

section \<open>Configuration\<close>

record config =
  cfg_GracePeriod :: duration
  cfg_ProgressMinInterval :: duration
  cfg_IdempotencyWindow :: duration
  cfg_InboxWaitMax :: duration
  cfg_AckTimeout :: duration
  cfg_DefaultMessageTTL :: duration
  cfg_DefaultRegistrationTTL :: duration
  cfg_PushMaxAttempts :: int
  cfg_PushBaseBackoff :: duration
  cfg_PushQueueSize :: int
  cfg_PushWorkers :: int
  cfg_PushShutdownTimeout :: duration
  cfg_MaxInboxEventsPerAgent :: int
  cfg_MaxObserveEvents :: int
  cfg_MaxInboxBytesPerAgent :: int
  cfg_MaxObserveBytes :: int
  cfg_MessageRetention :: duration
  cfg_MessageMaxAge :: duration
  cfg_ConversationRetention :: duration
  cfg_AgentRetention :: duration
  cfg_SweepMinInterval :: duration
  cfg_NamespaceMode :: namespace_mode
  cfg_LegacyScope :: scope
  cfg_SharedGrantAgents :: "string list"
  cfg_ControlPlaneAgents :: "string list"
  cfg_ControlPlaneAgentSecretHashes :: "string gomap"

record policy =
  s_cfg :: config
  s_controlPlaneAgents :: "string list"

definition or_default :: "int \<Rightarrow> int \<Rightarrow> int" where
  \<comment> \<open>\<^verbatim>\<open>if x <= 0 { x = d }\<close>\<close>
  "or_default x d = (if x \<le> 0 then d else x)"

definition or_disabled :: "int \<Rightarrow> int \<Rightarrow> int" where
  \<comment> \<open>\<^verbatim>\<open>if x == 0 { x = d }; if x < 0 { x = 0 }\<close>\<close>
  "or_disabled x d = (let y = (if x = 0 then d else x) in if y < 0 then 0 else y)"

definition normalize_config :: "config \<Rightarrow> config" where
  "normalize_config cfg =
     cfg\<lparr>cfg_GracePeriod := or_default (cfg_GracePeriod cfg) (30 * Second),
         cfg_ProgressMinInterval := or_default (cfg_ProgressMinInterval cfg) (2 * Second),
         cfg_IdempotencyWindow := or_default (cfg_IdempotencyWindow cfg) (24 * Hour),
         cfg_InboxWaitMax := or_default (cfg_InboxWaitMax cfg) (60 * Second),
         cfg_AckTimeout := or_default (cfg_AckTimeout cfg) (10 * Second),
         cfg_DefaultMessageTTL := or_default (cfg_DefaultMessageTTL cfg) (600 * Second),
         cfg_DefaultRegistrationTTL := or_default (cfg_DefaultRegistrationTTL cfg) (60 * Second),
         cfg_PushMaxAttempts := or_default (cfg_PushMaxAttempts cfg) 3,
         cfg_PushBaseBackoff := or_default (cfg_PushBaseBackoff cfg) (500 * Millisecond),
         cfg_PushQueueSize := or_default (cfg_PushQueueSize cfg) 256,
         cfg_PushWorkers := or_default (cfg_PushWorkers cfg) 4,
         cfg_PushShutdownTimeout := or_default (cfg_PushShutdownTimeout cfg) (15 * Second),
         cfg_MaxInboxEventsPerAgent := or_default (cfg_MaxInboxEventsPerAgent cfg) 10000,
         cfg_MaxObserveEvents := or_default (cfg_MaxObserveEvents cfg) 50000,
         cfg_MaxInboxBytesPerAgent := or_disabled (cfg_MaxInboxBytesPerAgent cfg) 33554432,
         cfg_MaxObserveBytes := or_disabled (cfg_MaxObserveBytes cfg) 67108864,
         cfg_MessageRetention := or_disabled (cfg_MessageRetention cfg) Hour,
         cfg_MessageMaxAge := or_disabled (cfg_MessageMaxAge cfg) (24 * Hour),
         cfg_ConversationRetention := or_disabled (cfg_ConversationRetention cfg) (24 * Hour),
         cfg_AgentRetention := or_disabled (cfg_AgentRetention cfg) (24 * Hour),
         cfg_SweepMinInterval := or_default (cfg_SweepMinInterval cfg) (250 * Millisecond),
         cfg_NamespaceMode :=
           (if cfg_NamespaceMode cfg = NamespaceModeStrict then NamespaceModeStrict
            else NamespaceModeCompat),
         cfg_LegacyScope :=
           (if cfg_LegacyScope cfg = ScopePersonal then ScopePersonal else ScopeUCLA)\<rparr>"

text \<open>What the running store can rely on, whatever the operator configured.\<close>

definition config_ok :: "config \<Rightarrow> bool" where
  "config_ok cfg \<longleftrightarrow>
     0 < cfg_GracePeriod cfg \<and> 0 < cfg_ProgressMinInterval cfg \<and> 0 < cfg_IdempotencyWindow cfg \<and>
     0 < cfg_InboxWaitMax cfg \<and> 0 < cfg_AckTimeout cfg \<and> 0 < cfg_DefaultMessageTTL cfg \<and>
     0 < cfg_DefaultRegistrationTTL cfg \<and> 0 < cfg_PushMaxAttempts cfg \<and>
     0 < cfg_PushBaseBackoff cfg \<and> 0 < cfg_PushQueueSize cfg \<and> 0 < cfg_PushWorkers cfg \<and>
     0 < cfg_PushShutdownTimeout cfg \<and> 0 < cfg_MaxInboxEventsPerAgent cfg \<and>
     0 < cfg_MaxObserveEvents cfg \<and> 0 \<le> cfg_MaxInboxBytesPerAgent cfg \<and>
     0 \<le> cfg_MaxObserveBytes cfg \<and> 0 \<le> cfg_MessageRetention cfg \<and> 0 \<le> cfg_MessageMaxAge cfg \<and>
     0 \<le> cfg_ConversationRetention cfg \<and> 0 \<le> cfg_AgentRetention cfg \<and>
     0 < cfg_SweepMinInterval cfg \<and>
     (cfg_NamespaceMode cfg = NamespaceModeCompat \<or> cfg_NamespaceMode cfg = NamespaceModeStrict) \<and>
     (cfg_LegacyScope cfg = ScopePersonal \<or> cfg_LegacyScope cfg = ScopeUCLA)"

section \<open>Names and scopes\<close>

definition valid_scope_of :: "string \<Rightarrow> scope option" where
  \<comment> \<open>the map \<^verbatim>\<open>validScopes\<close>\<close>
  "valid_scope_of s =
     (if s = ''personal'' then Some ScopePersonal
      else if s = ''ucla'' then Some ScopeUCLA
      else if s = ''shared'' then Some ScopeShared else None)"

definition allScopeNames :: "string list" where
  "allScopeNames = [''personal'', ''ucla'', ''shared'']"

definition ScopeOfName :: "string \<Rightarrow> scope option" where
  "ScopeOfName name =
     (case Cut (TrimSpace name) (CHR ''.'') of
        (pre, _, ok) \<Rightarrow> if \<not> ok \<or> pre = [] then None else valid_scope_of pre)"

definition scopeOfName :: "'z policy_scheme \<Rightarrow> string \<Rightarrow> scope option" where
  "scopeOfName s name =
     (case ScopeOfName name of
        Some sc \<Rightarrow> Some sc
      | None \<Rightarrow>
          if cfg_NamespaceMode (s_cfg s) \<noteq> NamespaceModeCompat then None
          else if TrimSpace name = [] then None
          else Some (cfg_LegacyScope (s_cfg s)))"

fun normalizeScopes_loop :: "string list \<Rightarrow> string list \<Rightarrow> bus_error + string list" where
  "normalizeScopes_loop out [] = Inr out"
| "normalizeScopes_loop out (x # xs) =
     (let raw = TrimSpace (ToLower x) in
      if raw = [] then normalizeScopes_loop out xs
      else if valid_scope_of raw = None then
        Inl (newError CodeValidation ''allowed_scopes must contain only personal, ucla, or shared'' False 0)
      else if raw \<in> set out then normalizeScopes_loop out xs
      else normalizeScopes_loop (out @ [raw]) xs)"

definition normalizeScopes :: "string list \<Rightarrow> bus_error + string list" where
  "normalizeScopes scopes = normalizeScopes_loop [] scopes"

fun normalizeSharedGrants_loop :: "string list \<Rightarrow> string list \<Rightarrow> bus_error + string list" where
  "normalizeSharedGrants_loop out [] = Inr out"
| "normalizeSharedGrants_loop out (x # xs) =
     (let grant = TrimSpace (ToLower x) in
      if grant = [] then normalizeSharedGrants_loop out xs
      else if grant = ''shared'' \<or> grant = ''shared.*'' then
        (if ''shared'' \<in> set out then normalizeSharedGrants_loop out xs
         else normalizeSharedGrants_loop (out @ [''shared'']) xs)
      else Inl (newError CodeValidation ''shared_grants must contain only shared'' False 0))"

definition normalizeSharedGrants :: "string list \<Rightarrow> bus_error + string list" where
  "normalizeSharedGrants grants = normalizeSharedGrants_loop [] grants"

text \<open>The configuration errors \<^verbatim>\<open>NewStore\<close> reports, with the identity their text quotes.\<close>

datatype config_error =
    ControlPlanePrefixed string
  | ControlPlaneHashMissing string
  | ControlPlaneHashInvalid
  | ControlPlaneHashUnconfigured string

fun normalizeControlPlane_loop :: "string list \<Rightarrow> string list \<Rightarrow> config_error + string list" where
  "normalizeControlPlane_loop out [] = Inr out"
| "normalizeControlPlane_loop out (x # xs) =
     (let agentID = TrimSpace x in
      if agentID = [] then normalizeControlPlane_loop out xs
      else if Contains agentID (CHR ''.'') then
        Inl (ControlPlanePrefixed agentID)
      else if agentID \<in> set out then normalizeControlPlane_loop out xs
      else normalizeControlPlane_loop (out @ [agentID]) xs)"

definition NormalizeControlPlaneAgents :: "string list \<Rightarrow> config_error + string list" where
  "NormalizeControlPlaneAgents agents = normalizeControlPlane_loop [] agents"

definition isConfiguredControlPlaneAgent :: "'z policy_scheme \<Rightarrow> string \<Rightarrow> bool" where
  "isConfiguredControlPlaneAgent s agentID = (TrimSpace agentID \<in> set (s_controlPlaneAgents s))"

definition isControlPlaneAgent :: "'z policy_scheme \<Rightarrow> string \<Rightarrow> bool" where
  "isControlPlaneAgent s agentID =
     (cfg_NamespaceMode (s_cfg s) = NamespaceModeStrict \<and> isConfiguredControlPlaneAgent s agentID)"

definition acceptsName :: "'z policy_scheme \<Rightarrow> string \<Rightarrow> bool" where
  "acceptsName s name = (isControlPlaneAgent s name \<or> scopeOfName s name \<noteq> None)"

definition agentAllowedScopes :: "'z policy_scheme \<Rightarrow> string \<Rightarrow> string list" where
  "agentAllowedScopes s agentID =
     (if isControlPlaneAgent s agentID then cloneStrings allScopeNames
      else (case scopeOfName s agentID of None \<Rightarrow> [] | Some sc \<Rightarrow> [scope_str sc]))"

definition agentHasScope :: "'z policy_scheme \<Rightarrow> string \<Rightarrow> scope \<Rightarrow> bool" where
  "agentHasScope s agentID sc = list_ex (\<lambda>allowed. allowed = scope_str sc) (agentAllowedScopes s agentID)"

definition agentSharedGrants :: "'z policy_scheme \<Rightarrow> string \<Rightarrow> string list" where
  "agentSharedGrants s agentID =
     (let agentID = TrimSpace agentID in
      if agentID = [] then []
      else if isControlPlaneAgent s agentID then [scope_str ScopeShared]
      else if list_ex (\<lambda>raw. TrimSpace raw = agentID) (cfg_SharedGrantAgents (s_cfg s))
      then [scope_str ScopeShared] else [])"

definition agentHasSharedGrant :: "'z policy_scheme \<Rightarrow> string \<Rightarrow> bool" where
  "agentHasSharedGrant s agentID =
     list_ex (\<lambda>grant. grant = scope_str ScopeShared) (agentSharedGrants s agentID)"

section \<open>Authorization\<close>

definition authorizeAgentForName :: "'z policy_scheme \<Rightarrow> string \<Rightarrow> string \<Rightarrow> bus_error option" where
  \<comment> \<open>\<open>None\<close> is Go's nil error\<close>
  "authorizeAgentForName s agentID resource =
     (if isControlPlaneAgent s agentID \<and> acceptsName s resource then None
      else (case scopeOfName s resource of
              None \<Rightarrow> Some (newError CodeValidation
                ''topic/queue name must be prefixed with personal., ucla., or shared.'' False 0)
            | Some sc \<Rightarrow>
                if sc = ScopeShared then
                  (if agentHasSharedGrant s agentID then None
                   else Some (newError CodeUnauthorized
                     ''shared.* access requires explicit shared grant'' False 0))
                else if agentHasScope s agentID sc then None
                else Some (newError CodeUnauthorized
                  ''identity is not allowed to access this scope'' False 0)))"

definition authorizeSendTarget :: "'z policy_scheme \<Rightarrow> string \<Rightarrow> string \<Rightarrow> bus_error option" where
  "authorizeSendTarget s agentID resource =
     (if isControlPlaneAgent s resource then None else authorizeAgentForName s agentID resource)"

definition agentCanAccessName :: "'z policy_scheme \<Rightarrow> string \<Rightarrow> string \<Rightarrow> bool" where
  "agentCanAccessName s agentID resource =
     (let agentID = TrimSpace agentID in
      if agentID = [] then True
      else if isControlPlaneAgent s agentID then acceptsName s resource
      else (case scopeOfName s resource of
              None \<Rightarrow> False
            | Some sc \<Rightarrow>
                if sc = ScopeShared then agentHasSharedGrant s agentID
                else agentHasScope s agentID sc))"

fun canAccess_loop :: "'z policy_scheme \<Rightarrow> string \<Rightarrow> bool \<Rightarrow> string list \<Rightarrow> bool" where
  "canAccess_loop s actor protected [] = protected"
| "canAccess_loop s actor protected (x # xs) =
     (let name = TrimSpace x in
      if name = [] then canAccess_loop s actor protected xs
      else if \<not> agentCanAccessName s actor name then False
      else canAccess_loop s actor True xs)"

definition actorCanAccessAllNames :: "'z policy_scheme \<Rightarrow> string \<Rightarrow> string list \<Rightarrow> bool" where
  "actorCanAccessAllNames s actor names =
     (let actor = TrimSpace actor in
      if actor = [] then True else canAccess_loop s actor False names)"

definition actorCanAccessConversation :: "'z policy_scheme \<Rightarrow> string \<Rightarrow> conversation option \<Rightarrow> bool" where
  "actorCanAccessConversation s actor conv =
     (case conv of None \<Rightarrow> False | Some c \<Rightarrow> actorCanAccessAllNames s actor (c_Participants c))"

fun authorizeNames_loop :: "'z policy_scheme \<Rightarrow> string \<Rightarrow> string list \<Rightarrow> bus_error option" where
  "authorizeNames_loop s actor [] = None"
| "authorizeNames_loop s actor (x # xs) =
     (let name = TrimSpace x in
      if name = [] then authorizeNames_loop s actor xs
      else if agentCanAccessName s actor name then authorizeNames_loop s actor xs
      else Some (newError CodeUnauthorized ''identity is not allowed to access this scope'' False 0))"

definition authorizeActorForNames :: "'z policy_scheme \<Rightarrow> string \<Rightarrow> string list \<Rightarrow> bus_error option" where
  "authorizeActorForNames s actor names =
     (let actor = TrimSpace actor in
      if actor = [] then None else authorizeNames_loop s actor names)"

section \<open>Lemmas\<close>

lemma config_ok_normalize: "config_ok (normalize_config cfg)"
  by (simp add: config_ok_def normalize_config_def or_default_def or_disabled_def Let_def)

lemma or_default_pos: "0 < d \<Longrightarrow> 0 < or_default x d"
  by (simp add: or_default_def)

lemma ScopeOfName_trim [simp]: "ScopeOfName (TrimSpace n) = ScopeOfName n"
  by (simp add: ScopeOfName_def)

lemma scopeOfName_trim [simp]: "scopeOfName s (TrimSpace n) = scopeOfName s n"
  by (simp add: scopeOfName_def)

lemma isControlPlaneAgent_trim [simp]: "isControlPlaneAgent s (TrimSpace n) = isControlPlaneAgent s n"
  by (simp add: isControlPlaneAgent_def isConfiguredControlPlaneAgent_def)

lemma acceptsName_trim [simp]: "acceptsName s (TrimSpace n) = acceptsName s n"
  by (simp add: acceptsName_def)

lemma agentHasScope_trim [simp]: "agentHasScope s (TrimSpace n) sc = agentHasScope s n sc"
  by (simp add: agentHasScope_def agentAllowedScopes_def)

lemma agentSharedGrants_trim [simp]: "agentSharedGrants s (TrimSpace n) = agentSharedGrants s n"
  by (simp add: agentSharedGrants_def Let_def)

lemma agentHasSharedGrant_trim [simp]: "agentHasSharedGrant s (TrimSpace n) = agentHasSharedGrant s n"
  by (simp add: agentHasSharedGrant_def)

lemma agentCanAccessName_trim [simp]:
  "agentCanAccessName s (TrimSpace a) r = agentCanAccessName s a r"
  "agentCanAccessName s a (TrimSpace r) = agentCanAccessName s a r"
  by (simp_all add: agentCanAccessName_def Let_def)

lemma scope_str_inj_named:
  "scope_str a = scope_str b \<Longrightarrow> a \<in> {ScopePersonal, ScopeUCLA, ScopeShared} \<Longrightarrow>
   b \<in> {ScopePersonal, ScopeUCLA, ScopeShared} \<Longrightarrow> a = b"
  by auto

lemma ScopeOfName_named: "ScopeOfName n = Some sc \<Longrightarrow> sc \<in> {ScopePersonal, ScopeUCLA, ScopeShared}"
  by (auto simp: ScopeOfName_def valid_scope_of_def split: prod.splits if_splits)

lemma scopeOfName_named:
  assumes "config_ok (s_cfg s)" and "scopeOfName s n = Some sc"
  shows "sc \<in> {ScopePersonal, ScopeUCLA, ScopeShared}"
  using assms by (auto simp: scopeOfName_def config_ok_def dest: ScopeOfName_named split: option.splits if_splits)

text \<open>A prefixed name belongs to the scope its prefix spells, in either mode.\<close>

lemma ScopeOfName_prefixed:
  assumes "TrimSpace n = p @ CHR ''.'' # r" and "CHR ''.'' \<notin> set p" and "p \<noteq> []"
  shows "ScopeOfName n = valid_scope_of p"
  using assms by (simp add: ScopeOfName_def Cut_append)

text \<open>
  The check a handler makes before acting (\<open>authorizeAgentForName\<close>) and the predicate the read
  paths filter with (\<open>agentCanAccessName\<close>) agree.
\<close>

lemma authorize_iff_can_access:
  assumes "TrimSpace a \<noteq> []"
  shows "authorizeAgentForName s a r = None \<longleftrightarrow> agentCanAccessName s a r"
  using assms
  by (auto simp: authorizeAgentForName_def agentCanAccessName_def acceptsName_def Let_def
      split: option.splits)

lemma canAccess_loop_iff:
  "canAccess_loop s actor p xs \<longleftrightarrow>
     (p \<or> (\<exists>x \<in> set xs. TrimSpace x \<noteq> [])) \<and>
     (\<forall>x \<in> set xs. TrimSpace x \<noteq> [] \<longrightarrow> agentCanAccessName s actor x)"
  by (induction xs arbitrary: p) (auto simp: Let_def)

lemma actorCanAccessAllNames_iff:
  assumes "TrimSpace actor \<noteq> []"
  shows "actorCanAccessAllNames s actor names \<longleftrightarrow>
     (\<exists>x \<in> set names. TrimSpace x \<noteq> []) \<and>
     (\<forall>x \<in> set names. TrimSpace x \<noteq> [] \<longrightarrow> agentCanAccessName s actor x)"
  using assms by (simp add: actorCanAccessAllNames_def canAccess_loop_iff Let_def)

lemma authorizeNames_loop_iff:
  "authorizeNames_loop s actor xs = None \<longleftrightarrow>
     (\<forall>x \<in> set xs. TrimSpace x \<noteq> [] \<longrightarrow> agentCanAccessName s actor x)"
  by (induction xs) (auto simp: Let_def)

lemma authorizeActorForNames_iff:
  "authorizeActorForNames s actor names = None \<longleftrightarrow>
     TrimSpace actor = [] \<or>
     (\<forall>x \<in> set names. TrimSpace x \<noteq> [] \<longrightarrow> agentCanAccessName s actor x)"
  by (simp add: authorizeActorForNames_def authorizeNames_loop_iff Let_def)

lemma normalizeScopes_loop_props:
  "normalizeScopes_loop out xs = Inr ys \<Longrightarrow> distinct out \<Longrightarrow>
     distinct ys \<and> set ys = set out \<union> {TrimSpace (ToLower x) |x. x \<in> set xs \<and> TrimSpace (ToLower x) \<noteq> []}"
proof (induction xs arbitrary: out)
  case Nil
  then show ?case by simp
next
  case (Cons x xs)
  show ?case
  proof (cases "TrimSpace (ToLower x) = [] \<or> TrimSpace (ToLower x) \<in> set out")
    case True
    then have "normalizeScopes_loop out xs = Inr ys"
      using Cons.prems by (auto simp: Let_def split: if_splits)
    from Cons.IH [OF this Cons.prems(2)] True show ?thesis by auto
  next
    case False
    then have "normalizeScopes_loop (out @ [TrimSpace (ToLower x)]) xs = Inr ys"
      using Cons.prems by (auto simp: Let_def split: if_splits)
    from Cons.IH [OF this] False Cons.prems(2) show ?thesis by auto
  qed
qed

definition plain_name :: "string \<Rightarrow> bool" where
  "plain_name y \<longleftrightarrow> y \<noteq> [] \<and> TrimSpace y = y \<and> CHR ''.'' \<notin> set y"

lemma normalizeControlPlane_loop_props:
  "normalizeControlPlane_loop out xs = Inr ys \<Longrightarrow> distinct out \<Longrightarrow> \<forall>y \<in> set out. plain_name y \<Longrightarrow>
     distinct ys \<and> (\<forall>y \<in> set ys. plain_name y) \<and>
     set ys = set out \<union> {TrimSpace x |x. x \<in> set xs \<and> TrimSpace x \<noteq> []}"
proof (induction xs arbitrary: out)
  case Nil
  then show ?case by simp
next
  case (Cons x xs)
  show ?case
  proof (cases "TrimSpace x = [] \<or> TrimSpace x \<in> set out")
    case True
    then have "normalizeControlPlane_loop out xs = Inr ys"
      using Cons.prems(1) by (auto simp: Let_def split: if_splits)
    from Cons.IH [OF this Cons.prems(2,3)] True show ?thesis by auto
  next
    case False
    then have *: "normalizeControlPlane_loop (out @ [TrimSpace x]) xs = Inr ys"
      and "plain_name (TrimSpace x)"
      using Cons.prems(1) by (auto simp: Let_def Contains_def plain_name_def split: if_splits)
    then have "\<forall>y \<in> set (out @ [TrimSpace x]). plain_name y"
      using Cons.prems(3) by auto
    from Cons.IH [OF * _ this] False Cons.prems(2) show ?thesis by auto
  qed
qed

section \<open>The access-control interface\<close>

text \<open>
  What the store asks of authorization: which scope a name lies in, which scope an identity
  lives in, who is granted the shared scope, who is infrastructure, and who may touch a name.
\<close>

locale access_control =
  fixes scope_of :: "string \<Rightarrow> scope option"
    and home :: "string \<Rightarrow> scope option"
    and granted :: "string \<Rightarrow> bool"
    and trusted :: "string \<Rightarrow> bool"
    and may :: "string \<Rightarrow> string \<Rightarrow> bool"
  assumes may_ordinary:
    "\<not> trusted a \<Longrightarrow> may a r \<longleftrightarrow>
       (\<exists>sc. scope_of r = Some sc \<and> (if sc = ScopeShared then granted a else home a = Some sc))"
    and may_trusted: "trusted a \<Longrightarrow> scope_of r \<noteq> None \<Longrightarrow> may a r"
begin

text \<open>An ordinary identity reaches no name outside its home scope but a shared one it is granted.\<close>

lemma confined:
  assumes "\<not> trusted a" and "may a r" and "scope_of r = Some sc" and "sc \<noteq> ScopeShared"
  shows "home a = Some sc"
  using assms may_ordinary by auto

lemma shared_needs_grant:
  assumes "\<not> trusted a" and "may a r" and "scope_of r = Some ScopeShared"
  shows "granted a"
  using assms may_ordinary by auto

text \<open>No ordinary identity reaches names of both private scopes.\<close>

lemma no_bridge:
  assumes "\<not> trusted a" and "may a r" and "may a r'"
    and "scope_of r = Some ScopePersonal" and "scope_of r' = Some ScopeUCLA"
  shows False
  using confined [OF assms(1,2,4)] confined [OF assms(1,3,5)] by simp

lemma unscoped_denied: "\<not> trusted a \<Longrightarrow> scope_of r = None \<Longrightarrow> \<not> may a r"
  by (simp add: may_ordinary)

end

lemma agentHasScope_ordinary:
  assumes "config_ok (s_cfg s)" and "\<not> isControlPlaneAgent s a"
    and "sc \<in> {ScopePersonal, ScopeUCLA, ScopeShared}"
  shows "agentHasScope s a sc \<longleftrightarrow> scopeOfName s a = Some sc"
  using assms scopeOfName_named [OF assms(1), of a]
  by (auto simp: agentHasScope_def agentAllowedScopes_def split: option.splits)

text \<open>
  The bus's own access control, for every policy whose configuration passed \<^verbatim>\<open>NewStore\<close>. A name is
  read with surrounding space removed; the empty actor stands for a request authenticated by an
  operator token and is not an identity.
\<close>

definition can_access :: "'z policy_scheme \<Rightarrow> string \<Rightarrow> string \<Rightarrow> bool" where
  "can_access s a r = (config_ok (s_cfg s) \<and> TrimSpace a \<noteq> [] \<and> agentCanAccessName s a r)"

definition home_scope :: "'z policy_scheme \<Rightarrow> string \<Rightarrow> scope option" where
  "home_scope s a = (if config_ok (s_cfg s) \<and> TrimSpace a \<noteq> [] then scopeOfName s a else None)"

definition shared_granted :: "'z policy_scheme \<Rightarrow> string \<Rightarrow> bool" where
  "shared_granted s a = (config_ok (s_cfg s) \<and> TrimSpace a \<noteq> [] \<and> agentHasSharedGrant s a)"

definition trusted_infra :: "'z policy_scheme \<Rightarrow> string \<Rightarrow> bool" where
  "trusted_infra s a = (config_ok (s_cfg s) \<and> TrimSpace a \<noteq> [] \<and> isControlPlaneAgent s a)"

interpretation bus_access:
  access_control "scopeOfName s" "home_scope s" "shared_granted s" "trusted_infra s" "can_access s"
  for s :: "'z policy_scheme"
proof unfold_locales
  fix a r
  assume nt: "\<not> trusted_infra s a"
  show "can_access s a r \<longleftrightarrow>
      (\<exists>sc. scopeOfName s r = Some sc \<and>
        (if sc = ScopeShared then shared_granted s a else home_scope s a = Some sc))"
  proof (cases "config_ok (s_cfg s) \<and> TrimSpace a \<noteq> []")
    case True
    with nt have "\<not> isControlPlaneAgent s a" by (simp add: trusted_infra_def)
    with True show ?thesis
      using scopeOfName_named [of s r] agentHasScope_ordinary [of s a]
      by (auto simp: can_access_def home_scope_def shared_granted_def agentCanAccessName_def Let_def
          split: option.splits)
  next
    case False
    then show ?thesis
      by (auto simp: can_access_def home_scope_def shared_granted_def)
  qed
next
  fix a r
  assume "trusted_infra s a" and "scopeOfName s r \<noteq> None"
  then show "can_access s a r"
    by (simp add: can_access_def trusted_infra_def agentCanAccessName_def acceptsName_def Let_def)
qed

end
