(* ===== verification/Bus_State.thy ===== *)
theory Bus_State
  imports Bus_Scope
begin

text \<open>
  The state of the in-memory store (\<^verbatim>\<open>Store\<close> in \<^verbatim>\<open>pkg/bus/store.go\<close>), its construction, and the
  helpers that run with the store's lock held: agent inboxes, the observer ring, the broadcast
  channels waiters sleep on, and the queue of push callbacks.

  The record \<open>store\<close> extends \<open>policy\<close>. A broadcast channel is a number; \<open>s_closedChans\<close> holds
  the ones that were closed, so a goroutine waiting on channel \<open>ch\<close> is runnable exactly when
  \<open>ch\<close> is in it. \<open>s_pushInflight\<close> are the jobs the workers hold and \<open>s_pushBackground\<close> the receipt
  writes \<^verbatim>\<open>finishAcceptance\<close> started: Go keeps both on goroutine stacks.

  The locale \<open>cursor_log\<close> is the interface both kinds of event buffer offer their readers: entries
  have absolute positions, appending adds one at the end and may evict from the front, and a
  reader's cursor is a position. Its lemmas say that a reader that keeps up loses nothing and sees
  nothing twice; it is interpreted on the inboxes and on the observer ring.
\<close>

section \<open>State\<close>

record idempotency_entry =
  ie_MessageID :: string
  ie_CreatedAt :: time

text \<open>
  \<^verbatim>\<open>onSuccess\<close> and \<^verbatim>\<open>onFailure\<close> are either both nil or both write the receipt of one message, so a
  job carries the identity of that message, if any.
\<close>

record push_job =
  pj_url :: string
  pj_payload :: json
  pj_receipt :: "string option"

record push_receipt =
  pr_MessageID :: string
  pr_attempts :: int
  pr_failure :: string

record send_acceptance =
  sa_message :: message
  sa_conversation :: conversation
  sa_conversationPos :: int
  sa_nextConversationID :: int
  sa_nextMessageID :: int
  sa_idempotencyKey :: string
  sa_idempotency :: idempotency_entry
  sa_inboxEvent :: "inbox_event option"
  sa_pushURL :: string
  sa_pushPayload :: "json option"
  sa_pushReceipt :: "string option"

record store = policy +
  s_nextConversationID :: int
  s_nextMessageID :: int
  s_nextObserveID :: int
  s_agents :: "agent gomap"
  s_conversations :: "conversation gomap"
  s_messages :: "message gomap"
  s_conversationMessages :: "string list gomap"
  s_inboxes :: "inbox_event list gomap"
  s_inboxBase :: "int gomap"
  s_inboxBytes :: "int gomap"
  s_observeEvents :: "observe_event list"
  s_observeBytes :: int
  s_observeEpoch :: string
  s_idempotency :: "idempotency_entry gomap"
  s_lastSweepAt :: time
  s_inboxNotify :: "nat gomap"
  s_observeNotify :: nat
  s_closedChans :: "nat list"
  s_nextChan :: nat
  s_sweepSkipped :: nat
  s_sweepRan :: nat
  s_humanAllowlist :: "string list"
  s_pushFailures :: int
  s_pushSuccesses :: int
  s_pushQueue :: "push_job list"
  s_pushInflight :: "push_job list"
  s_pushBackground :: "push_receipt list"
  s_pushWG :: int
  s_pushCancelled :: bool
  s_pushClosed :: bool

section \<open>NewStore\<close>

fun check_control_plane_hashes :: "string gomap \<Rightarrow> string list \<Rightarrow> config_error option" where
  "check_control_plane_hashes hashes [] = None"
| "check_control_plane_hashes hashes (a # as) =
     (if has_key hashes a then check_control_plane_hashes hashes as
      else Some (ControlPlaneHashMissing a))"

fun check_hash_identities :: "string list \<Rightarrow> string list \<Rightarrow> config_error option" where
  "check_hash_identities configured [] = None"
| "check_hash_identities configured (a # as) =
     (if TrimSpace a \<noteq> a \<or> a = [] \<or> Contains a (CHR ''.'') then Some ControlPlaneHashInvalid
      else if a \<notin> set configured then Some (ControlPlaneHashUnconfigured a)
      else check_hash_identities configured as)"

definition parse_allowlist :: "string \<Rightarrow> string list" where
  "parse_allowlist raw =
     remdups (filter (\<lambda>v. v \<noteq> []) (map TrimSpace (Split raw (CHR '',''))))"

definition new_store_state :: "config \<Rightarrow> string list \<Rightarrow> string list \<Rightarrow> string \<Rightarrow> store" where
  "new_store_state cfg controlPlane allowlist epoch =
     \<lparr>s_cfg = cfg, s_controlPlaneAgents = controlPlane,
      s_nextConversationID = 0, s_nextMessageID = 0, s_nextObserveID = 0,
      s_agents = [], s_conversations = [], s_messages = [], s_conversationMessages = [],
      s_inboxes = [], s_inboxBase = [], s_inboxBytes = [],
      s_observeEvents = [], s_observeBytes = 0, s_observeEpoch = epoch,
      s_idempotency = [], s_lastSweepAt = 0,
      s_inboxNotify = [], s_observeNotify = 0, s_closedChans = [], s_nextChan = 1,
      s_sweepSkipped = 0, s_sweepRan = 0,
      s_humanAllowlist = allowlist, s_pushFailures = 0, s_pushSuccesses = 0,
      s_pushQueue = [], s_pushInflight = [], s_pushBackground = [], s_pushWG = 0,
      s_pushCancelled = False, s_pushClosed = False\<rparr>"

definition NewStore :: "ranking \<Rightarrow> string \<Rightarrow> string \<Rightarrow> config \<Rightarrow> config_error + store" where
  "NewStore rk humanAllowlist epoch cfg =
     (case NormalizeControlPlaneAgents (cfg_ControlPlaneAgents cfg) of
        Inl e \<Rightarrow> Inl e
      | Inr controlPlane \<Rightarrow>
          let hashes = cfg_ControlPlaneAgentSecretHashes cfg in
          (case check_control_plane_hashes hashes controlPlane of
             Some e \<Rightarrow> Inl e
           | None \<Rightarrow>
               (case check_hash_identities controlPlane (range_keys rk hashes) of
                  Some e \<Rightarrow> Inl e
                | None \<Rightarrow>
                    Inr (new_store_state
                      (normalize_config (cfg\<lparr>cfg_ControlPlaneAgents := controlPlane\<rparr>))
                      controlPlane (parse_allowlist humanAllowlist) epoch))))"

section \<open>Channels\<close>

definition make_chan :: "store \<Rightarrow> nat \<times> store" where
  "make_chan s = (s_nextChan s, s\<lparr>s_nextChan := Suc (s_nextChan s)\<rparr>)"

definition close_chan :: "nat \<Rightarrow> store \<Rightarrow> store" where
  "close_chan ch s = s\<lparr>s_closedChans := ch # s_closedChans s\<rparr>"

definition inboxNotifyChanLocked :: "string \<Rightarrow> store \<Rightarrow> nat \<times> store" where
  "inboxNotifyChanLocked agentID s =
     (case map_of (s_inboxNotify s) agentID of
        Some ch \<Rightarrow> (ch, s)
      | None \<Rightarrow>
          (case make_chan s of
             (ch, s') \<Rightarrow> (ch, s'\<lparr>s_inboxNotify := AList.update agentID ch (s_inboxNotify s')\<rparr>)))"

definition signalInboxLocked :: "string \<Rightarrow> store \<Rightarrow> store" where
  "signalInboxLocked agentID s =
     (case map_of (s_inboxNotify s) agentID of
        Some ch \<Rightarrow>
          (let s' = close_chan ch s
           in s'\<lparr>s_inboxNotify := AList.delete agentID (s_inboxNotify s')\<rparr>)
      | None \<Rightarrow> s)"

definition signalObserveLocked :: "store \<Rightarrow> store" where
  "signalObserveLocked s =
     (case make_chan (close_chan (s_observeNotify s) s) of
        (ch, s') \<Rightarrow> s'\<lparr>s_observeNotify := ch\<rparr>)"

section \<open>Evicting from a bounded buffer\<close>

text \<open>
  The loop both \<^verbatim>\<open>appendInboxLocked\<close> and \<^verbatim>\<open>trimObserveLocked\<close> run: drop the overflow of the count
  cap, then drop from the front while more than one event is left and the bytes exceed the budget.
\<close>

fun evict_bytes :: "('e \<Rightarrow> int) \<Rightarrow> int \<Rightarrow> int \<Rightarrow> 'e list \<Rightarrow> nat" where
  "evict_bytes sz maxBytes remaining (e # e' # es) =
     (if remaining > maxBytes then Suc (evict_bytes sz maxBytes (remaining - sz e) (e' # es))
      else 0)"
| "evict_bytes sz maxBytes remaining es = 0"

definition evict_count :: "('e \<Rightarrow> int) \<Rightarrow> int \<Rightarrow> int \<Rightarrow> int \<Rightarrow> 'e list \<Rightarrow> nat" where
  "evict_count sz maxEvents maxBytes bytes es =
     (let d = (if maxEvents > 0 \<and> int (length es) > maxEvents
               then length es - nat maxEvents else 0)
      in if maxBytes > 0
         then d + evict_bytes sz maxBytes (bytes - sum_list (map sz (take d es))) (drop d es)
         else d)"

section \<open>Inboxes\<close>

definition attachment_size :: "attachment \<Rightarrow> int" where
  "attachment_size a =
     32 + int (length (at_URL a)) + int (length (at_Name a)) + int (length (at_ContentType a))
        + int (length (at_SHA256 a))"

definition inboxEventSize :: "inbox_event \<Rightarrow> int" where
  "inboxEventSize evt =
     64 + int (length (i_MessageID evt)) + int (length (i_From evt))
        + int (length (i_ConversationID evt)) + int (length (i_Body evt))
        + sum_list (map attachment_size (i_Attachments evt)) + json_size (i_Meta evt)"

abbreviation inbox_of :: "store \<Rightarrow> string \<Rightarrow> inbox_event list" where
  "inbox_of s a \<equiv> get_or [] (s_inboxes s) a"

abbreviation inbox_base :: "store \<Rightarrow> string \<Rightarrow> int" where
  "inbox_base s a \<equiv> get_or 0 (s_inboxBase s) a"

abbreviation inbox_bytes :: "store \<Rightarrow> string \<Rightarrow> int" where
  "inbox_bytes s a \<equiv> get_or 0 (s_inboxBytes s) a"

definition dropInboxPrefixLocked :: "string \<Rightarrow> int \<Rightarrow> store \<Rightarrow> store" where
  "dropInboxPrefixLocked agentID n s =
     (let events = inbox_of s agentID in
      if n \<le> 0 \<or> n > int (length events) then s
      else s\<lparr>s_inboxBytes := AList.update agentID
                (inbox_bytes s agentID - sum_list (map inboxEventSize (take (nat n) events)))
                (s_inboxBytes s),
             s_inboxes := AList.update agentID (drop (nat n) events) (s_inboxes s),
             s_inboxBase := AList.update agentID (inbox_base s agentID + n) (s_inboxBase s)\<rparr>)"

definition appendInboxLocked :: "string \<Rightarrow> inbox_event \<Rightarrow> store \<Rightarrow> store" where
  "appendInboxLocked agentID evt s =
     (let events = inbox_of s agentID @ [evt];
          bytes = inbox_bytes s agentID + inboxEventSize evt;
          s1 = s\<lparr>s_inboxes := AList.update agentID events (s_inboxes s),
                 s_inboxBytes := AList.update agentID bytes (s_inboxBytes s)\<rparr>;
          d = evict_count inboxEventSize (cfg_MaxInboxEventsPerAgent (s_cfg s))
                (cfg_MaxInboxBytesPerAgent (s_cfg s)) bytes events;
          s2 = (if d > 0 then dropInboxPrefixLocked agentID (int d) s1 else s1)
      in signalInboxLocked agentID s2)"

section \<open>The observer ring\<close>

definition observeEventSize :: "observe_event \<Rightarrow> int" where
  "observeEventSize evt =
     64 + int (length (o_ConversationID evt)) + sum_list (map (\<lambda>i. int (length i)) (o_AgentIDs evt))
        + json_size (o_Data evt)"

definition trimObserveLocked :: "store \<Rightarrow> store" where
  "trimObserveLocked s =
     (let events = s_observeEvents s;
          d = evict_count o_Size (cfg_MaxObserveEvents (s_cfg s)) (cfg_MaxObserveBytes (s_cfg s))
                (s_observeBytes s) events
      in if d = 0 then s
         else s\<lparr>s_observeBytes := s_observeBytes s - sum_list (map o_Size (take d events)),
                s_observeEvents := drop d events\<rparr>)"

definition publishLocked ::
  "event_type \<Rightarrow> json \<Rightarrow> string \<Rightarrow> string list \<Rightarrow> time \<Rightarrow> store \<Rightarrow> store" where
  "publishLocked eventType data conversationID agentIDs at s =
     (let s1 = s\<lparr>s_nextObserveID := s_nextObserveID s + 1\<rparr>;
          evt = \<lparr>o_ID = s_nextObserveID s1, o_Type = eventType, o_At = at, o_Data = data,
                 o_ConversationID = conversationID, o_AgentIDs = agentIDs, o_Size = 0\<rparr>;
          evt = evt\<lparr>o_Size := observeEventSize evt\<rparr>;
          s2 = s1\<lparr>s_observeEvents := s_observeEvents s1 @ [evt],
                  s_observeBytes := s_observeBytes s1 + o_Size evt\<rparr>
      in signalObserveLocked (trimObserveLocked s2))"

section \<open>The push queue\<close>

definition enqueuePushJobLocked :: "push_job \<Rightarrow> store \<Rightarrow> string \<times> store" where
  \<comment> \<open>the string is the scheduling failure, empty when the job was queued\<close>
  "enqueuePushJobLocked job s =
     (if s_pushClosed s then
        (''push delivery interrupted by shutdown'', s\<lparr>s_pushFailures := s_pushFailures s + 1\<rparr>)
      else if int (length (s_pushQueue s)) < cfg_PushQueueSize (s_cfg s) then
        ('''', s\<lparr>s_pushQueue := s_pushQueue s @ [job], s_pushWG := s_pushWG s + 1\<rparr>)
      else (''push queue full'', s\<lparr>s_pushFailures := s_pushFailures s + 1\<rparr>))"

definition finishAcceptance :: "push_job option \<Rightarrow> string \<Rightarrow> store \<Rightarrow> store" where
  "finishAcceptance enqueueFailure reason s =
     (case enqueueFailure of
        None \<Rightarrow> s
      | Some job \<Rightarrow>
          (case pj_receipt job of
             None \<Rightarrow> s
           | Some mid \<Rightarrow>
               if s_pushClosed s then s
               else s\<lparr>s_pushWG := s_pushWG s + 1,
                      s_pushBackground := s_pushBackground s @
                        [\<lparr>pr_MessageID = mid, pr_attempts = 0, pr_failure = reason\<rparr>]\<rparr>))"

section \<open>Frames\<close>

text \<open>What each helper leaves alone, field by field.\<close>

lemmas chan_defs = make_chan_def close_chan_def inboxNotifyChanLocked_def signalInboxLocked_def
  signalObserveLocked_def

lemma signalInboxLocked_frame [simp, frame]:
  "s_cfg (signalInboxLocked a s) = s_cfg s"
  "s_controlPlaneAgents (signalInboxLocked a s) = s_controlPlaneAgents s"
  "s_nextConversationID (signalInboxLocked a s) = s_nextConversationID s"
  "s_nextMessageID (signalInboxLocked a s) = s_nextMessageID s"
  "s_nextObserveID (signalInboxLocked a s) = s_nextObserveID s"
  "s_agents (signalInboxLocked a s) = s_agents s"
  "s_conversations (signalInboxLocked a s) = s_conversations s"
  "s_messages (signalInboxLocked a s) = s_messages s"
  "s_conversationMessages (signalInboxLocked a s) = s_conversationMessages s"
  "s_inboxes (signalInboxLocked a s) = s_inboxes s"
  "s_inboxBase (signalInboxLocked a s) = s_inboxBase s"
  "s_inboxBytes (signalInboxLocked a s) = s_inboxBytes s"
  "s_observeEvents (signalInboxLocked a s) = s_observeEvents s"
  "s_observeBytes (signalInboxLocked a s) = s_observeBytes s"
  "s_observeEpoch (signalInboxLocked a s) = s_observeEpoch s"
  "s_idempotency (signalInboxLocked a s) = s_idempotency s"
  "s_lastSweepAt (signalInboxLocked a s) = s_lastSweepAt s"
  "s_observeNotify (signalInboxLocked a s) = s_observeNotify s"
  "s_nextChan (signalInboxLocked a s) = s_nextChan s"
  "s_sweepSkipped (signalInboxLocked a s) = s_sweepSkipped s"
  "s_sweepRan (signalInboxLocked a s) = s_sweepRan s"
  "s_humanAllowlist (signalInboxLocked a s) = s_humanAllowlist s"
  "s_pushFailures (signalInboxLocked a s) = s_pushFailures s"
  "s_pushSuccesses (signalInboxLocked a s) = s_pushSuccesses s"
  "s_pushQueue (signalInboxLocked a s) = s_pushQueue s"
  "s_pushInflight (signalInboxLocked a s) = s_pushInflight s"
  "s_pushBackground (signalInboxLocked a s) = s_pushBackground s"
  "s_pushWG (signalInboxLocked a s) = s_pushWG s"
  "s_pushCancelled (signalInboxLocked a s) = s_pushCancelled s"
  "s_pushClosed (signalInboxLocked a s) = s_pushClosed s"
  by (simp_all add: chan_defs Let_def split: option.splits)

lemma inboxNotifyChanLocked_frame [simp, frame]:
  "s_cfg (snd (inboxNotifyChanLocked a s)) = s_cfg s"
  "s_controlPlaneAgents (snd (inboxNotifyChanLocked a s)) = s_controlPlaneAgents s"
  "s_nextConversationID (snd (inboxNotifyChanLocked a s)) = s_nextConversationID s"
  "s_nextMessageID (snd (inboxNotifyChanLocked a s)) = s_nextMessageID s"
  "s_nextObserveID (snd (inboxNotifyChanLocked a s)) = s_nextObserveID s"
  "s_agents (snd (inboxNotifyChanLocked a s)) = s_agents s"
  "s_conversations (snd (inboxNotifyChanLocked a s)) = s_conversations s"
  "s_messages (snd (inboxNotifyChanLocked a s)) = s_messages s"
  "s_conversationMessages (snd (inboxNotifyChanLocked a s)) = s_conversationMessages s"
  "s_inboxes (snd (inboxNotifyChanLocked a s)) = s_inboxes s"
  "s_inboxBase (snd (inboxNotifyChanLocked a s)) = s_inboxBase s"
  "s_inboxBytes (snd (inboxNotifyChanLocked a s)) = s_inboxBytes s"
  "s_observeEvents (snd (inboxNotifyChanLocked a s)) = s_observeEvents s"
  "s_observeBytes (snd (inboxNotifyChanLocked a s)) = s_observeBytes s"
  "s_observeEpoch (snd (inboxNotifyChanLocked a s)) = s_observeEpoch s"
  "s_idempotency (snd (inboxNotifyChanLocked a s)) = s_idempotency s"
  "s_lastSweepAt (snd (inboxNotifyChanLocked a s)) = s_lastSweepAt s"
  "s_observeNotify (snd (inboxNotifyChanLocked a s)) = s_observeNotify s"
  "s_closedChans (snd (inboxNotifyChanLocked a s)) = s_closedChans s"
  "s_sweepSkipped (snd (inboxNotifyChanLocked a s)) = s_sweepSkipped s"
  "s_sweepRan (snd (inboxNotifyChanLocked a s)) = s_sweepRan s"
  "s_humanAllowlist (snd (inboxNotifyChanLocked a s)) = s_humanAllowlist s"
  "s_pushFailures (snd (inboxNotifyChanLocked a s)) = s_pushFailures s"
  "s_pushSuccesses (snd (inboxNotifyChanLocked a s)) = s_pushSuccesses s"
  "s_pushQueue (snd (inboxNotifyChanLocked a s)) = s_pushQueue s"
  "s_pushInflight (snd (inboxNotifyChanLocked a s)) = s_pushInflight s"
  "s_pushBackground (snd (inboxNotifyChanLocked a s)) = s_pushBackground s"
  "s_pushWG (snd (inboxNotifyChanLocked a s)) = s_pushWG s"
  "s_pushCancelled (snd (inboxNotifyChanLocked a s)) = s_pushCancelled s"
  "s_pushClosed (snd (inboxNotifyChanLocked a s)) = s_pushClosed s"
  by (simp_all add: chan_defs Let_def split: option.splits)

lemma signalObserveLocked_frame [simp, frame]:
  "s_cfg (signalObserveLocked s) = s_cfg s"
  "s_controlPlaneAgents (signalObserveLocked s) = s_controlPlaneAgents s"
  "s_nextConversationID (signalObserveLocked s) = s_nextConversationID s"
  "s_nextMessageID (signalObserveLocked s) = s_nextMessageID s"
  "s_nextObserveID (signalObserveLocked s) = s_nextObserveID s"
  "s_agents (signalObserveLocked s) = s_agents s"
  "s_conversations (signalObserveLocked s) = s_conversations s"
  "s_messages (signalObserveLocked s) = s_messages s"
  "s_conversationMessages (signalObserveLocked s) = s_conversationMessages s"
  "s_inboxes (signalObserveLocked s) = s_inboxes s"
  "s_inboxBase (signalObserveLocked s) = s_inboxBase s"
  "s_inboxBytes (signalObserveLocked s) = s_inboxBytes s"
  "s_observeEvents (signalObserveLocked s) = s_observeEvents s"
  "s_observeBytes (signalObserveLocked s) = s_observeBytes s"
  "s_observeEpoch (signalObserveLocked s) = s_observeEpoch s"
  "s_idempotency (signalObserveLocked s) = s_idempotency s"
  "s_lastSweepAt (signalObserveLocked s) = s_lastSweepAt s"
  "s_inboxNotify (signalObserveLocked s) = s_inboxNotify s"
  "s_sweepSkipped (signalObserveLocked s) = s_sweepSkipped s"
  "s_sweepRan (signalObserveLocked s) = s_sweepRan s"
  "s_humanAllowlist (signalObserveLocked s) = s_humanAllowlist s"
  "s_pushFailures (signalObserveLocked s) = s_pushFailures s"
  "s_pushSuccesses (signalObserveLocked s) = s_pushSuccesses s"
  "s_pushQueue (signalObserveLocked s) = s_pushQueue s"
  "s_pushInflight (signalObserveLocked s) = s_pushInflight s"
  "s_pushBackground (signalObserveLocked s) = s_pushBackground s"
  "s_pushWG (signalObserveLocked s) = s_pushWG s"
  "s_pushCancelled (signalObserveLocked s) = s_pushCancelled s"
  "s_pushClosed (signalObserveLocked s) = s_pushClosed s"
  by (simp_all add: chan_defs)

lemma dropInboxPrefixLocked_frame [simp, frame]:
  "s_cfg (dropInboxPrefixLocked a n s) = s_cfg s"
  "s_controlPlaneAgents (dropInboxPrefixLocked a n s) = s_controlPlaneAgents s"
  "s_nextConversationID (dropInboxPrefixLocked a n s) = s_nextConversationID s"
  "s_nextMessageID (dropInboxPrefixLocked a n s) = s_nextMessageID s"
  "s_nextObserveID (dropInboxPrefixLocked a n s) = s_nextObserveID s"
  "s_agents (dropInboxPrefixLocked a n s) = s_agents s"
  "s_conversations (dropInboxPrefixLocked a n s) = s_conversations s"
  "s_messages (dropInboxPrefixLocked a n s) = s_messages s"
  "s_conversationMessages (dropInboxPrefixLocked a n s) = s_conversationMessages s"
  "s_observeEvents (dropInboxPrefixLocked a n s) = s_observeEvents s"
  "s_observeBytes (dropInboxPrefixLocked a n s) = s_observeBytes s"
  "s_observeEpoch (dropInboxPrefixLocked a n s) = s_observeEpoch s"
  "s_idempotency (dropInboxPrefixLocked a n s) = s_idempotency s"
  "s_lastSweepAt (dropInboxPrefixLocked a n s) = s_lastSweepAt s"
  "s_inboxNotify (dropInboxPrefixLocked a n s) = s_inboxNotify s"
  "s_observeNotify (dropInboxPrefixLocked a n s) = s_observeNotify s"
  "s_closedChans (dropInboxPrefixLocked a n s) = s_closedChans s"
  "s_nextChan (dropInboxPrefixLocked a n s) = s_nextChan s"
  "s_sweepSkipped (dropInboxPrefixLocked a n s) = s_sweepSkipped s"
  "s_sweepRan (dropInboxPrefixLocked a n s) = s_sweepRan s"
  "s_humanAllowlist (dropInboxPrefixLocked a n s) = s_humanAllowlist s"
  "s_pushFailures (dropInboxPrefixLocked a n s) = s_pushFailures s"
  "s_pushSuccesses (dropInboxPrefixLocked a n s) = s_pushSuccesses s"
  "s_pushQueue (dropInboxPrefixLocked a n s) = s_pushQueue s"
  "s_pushInflight (dropInboxPrefixLocked a n s) = s_pushInflight s"
  "s_pushBackground (dropInboxPrefixLocked a n s) = s_pushBackground s"
  "s_pushWG (dropInboxPrefixLocked a n s) = s_pushWG s"
  "s_pushCancelled (dropInboxPrefixLocked a n s) = s_pushCancelled s"
  "s_pushClosed (dropInboxPrefixLocked a n s) = s_pushClosed s"
  by (simp_all add: dropInboxPrefixLocked_def Let_def)

lemma appendInboxLocked_frame [simp, frame]:
  "s_cfg (appendInboxLocked a e s) = s_cfg s"
  "s_controlPlaneAgents (appendInboxLocked a e s) = s_controlPlaneAgents s"
  "s_nextConversationID (appendInboxLocked a e s) = s_nextConversationID s"
  "s_nextMessageID (appendInboxLocked a e s) = s_nextMessageID s"
  "s_nextObserveID (appendInboxLocked a e s) = s_nextObserveID s"
  "s_agents (appendInboxLocked a e s) = s_agents s"
  "s_conversations (appendInboxLocked a e s) = s_conversations s"
  "s_messages (appendInboxLocked a e s) = s_messages s"
  "s_conversationMessages (appendInboxLocked a e s) = s_conversationMessages s"
  "s_observeEvents (appendInboxLocked a e s) = s_observeEvents s"
  "s_observeBytes (appendInboxLocked a e s) = s_observeBytes s"
  "s_observeEpoch (appendInboxLocked a e s) = s_observeEpoch s"
  "s_idempotency (appendInboxLocked a e s) = s_idempotency s"
  "s_lastSweepAt (appendInboxLocked a e s) = s_lastSweepAt s"
  "s_observeNotify (appendInboxLocked a e s) = s_observeNotify s"
  "s_nextChan (appendInboxLocked a e s) = s_nextChan s"
  "s_sweepSkipped (appendInboxLocked a e s) = s_sweepSkipped s"
  "s_sweepRan (appendInboxLocked a e s) = s_sweepRan s"
  "s_humanAllowlist (appendInboxLocked a e s) = s_humanAllowlist s"
  "s_pushFailures (appendInboxLocked a e s) = s_pushFailures s"
  "s_pushSuccesses (appendInboxLocked a e s) = s_pushSuccesses s"
  "s_pushQueue (appendInboxLocked a e s) = s_pushQueue s"
  "s_pushInflight (appendInboxLocked a e s) = s_pushInflight s"
  "s_pushBackground (appendInboxLocked a e s) = s_pushBackground s"
  "s_pushWG (appendInboxLocked a e s) = s_pushWG s"
  "s_pushCancelled (appendInboxLocked a e s) = s_pushCancelled s"
  "s_pushClosed (appendInboxLocked a e s) = s_pushClosed s"
  by (simp_all add: appendInboxLocked_def Let_def)

lemma trimObserveLocked_frame [simp, frame]:
  "s_cfg (trimObserveLocked s) = s_cfg s"
  "s_controlPlaneAgents (trimObserveLocked s) = s_controlPlaneAgents s"
  "s_nextConversationID (trimObserveLocked s) = s_nextConversationID s"
  "s_nextMessageID (trimObserveLocked s) = s_nextMessageID s"
  "s_nextObserveID (trimObserveLocked s) = s_nextObserveID s"
  "s_agents (trimObserveLocked s) = s_agents s"
  "s_conversations (trimObserveLocked s) = s_conversations s"
  "s_messages (trimObserveLocked s) = s_messages s"
  "s_conversationMessages (trimObserveLocked s) = s_conversationMessages s"
  "s_inboxes (trimObserveLocked s) = s_inboxes s"
  "s_inboxBase (trimObserveLocked s) = s_inboxBase s"
  "s_inboxBytes (trimObserveLocked s) = s_inboxBytes s"
  "s_observeEpoch (trimObserveLocked s) = s_observeEpoch s"
  "s_idempotency (trimObserveLocked s) = s_idempotency s"
  "s_lastSweepAt (trimObserveLocked s) = s_lastSweepAt s"
  "s_inboxNotify (trimObserveLocked s) = s_inboxNotify s"
  "s_observeNotify (trimObserveLocked s) = s_observeNotify s"
  "s_closedChans (trimObserveLocked s) = s_closedChans s"
  "s_nextChan (trimObserveLocked s) = s_nextChan s"
  "s_sweepSkipped (trimObserveLocked s) = s_sweepSkipped s"
  "s_sweepRan (trimObserveLocked s) = s_sweepRan s"
  "s_humanAllowlist (trimObserveLocked s) = s_humanAllowlist s"
  "s_pushFailures (trimObserveLocked s) = s_pushFailures s"
  "s_pushSuccesses (trimObserveLocked s) = s_pushSuccesses s"
  "s_pushQueue (trimObserveLocked s) = s_pushQueue s"
  "s_pushInflight (trimObserveLocked s) = s_pushInflight s"
  "s_pushBackground (trimObserveLocked s) = s_pushBackground s"
  "s_pushWG (trimObserveLocked s) = s_pushWG s"
  "s_pushCancelled (trimObserveLocked s) = s_pushCancelled s"
  "s_pushClosed (trimObserveLocked s) = s_pushClosed s"
  by (simp_all add: trimObserveLocked_def Let_def)

lemma publishLocked_frame [simp, frame]:
  "s_cfg (publishLocked ty d cid ids at s) = s_cfg s"
  "s_controlPlaneAgents (publishLocked ty d cid ids at s) = s_controlPlaneAgents s"
  "s_nextConversationID (publishLocked ty d cid ids at s) = s_nextConversationID s"
  "s_nextMessageID (publishLocked ty d cid ids at s) = s_nextMessageID s"
  "s_agents (publishLocked ty d cid ids at s) = s_agents s"
  "s_conversations (publishLocked ty d cid ids at s) = s_conversations s"
  "s_messages (publishLocked ty d cid ids at s) = s_messages s"
  "s_conversationMessages (publishLocked ty d cid ids at s) = s_conversationMessages s"
  "s_inboxes (publishLocked ty d cid ids at s) = s_inboxes s"
  "s_inboxBase (publishLocked ty d cid ids at s) = s_inboxBase s"
  "s_inboxBytes (publishLocked ty d cid ids at s) = s_inboxBytes s"
  "s_observeEpoch (publishLocked ty d cid ids at s) = s_observeEpoch s"
  "s_idempotency (publishLocked ty d cid ids at s) = s_idempotency s"
  "s_lastSweepAt (publishLocked ty d cid ids at s) = s_lastSweepAt s"
  "s_inboxNotify (publishLocked ty d cid ids at s) = s_inboxNotify s"
  "s_sweepSkipped (publishLocked ty d cid ids at s) = s_sweepSkipped s"
  "s_sweepRan (publishLocked ty d cid ids at s) = s_sweepRan s"
  "s_humanAllowlist (publishLocked ty d cid ids at s) = s_humanAllowlist s"
  "s_pushFailures (publishLocked ty d cid ids at s) = s_pushFailures s"
  "s_pushSuccesses (publishLocked ty d cid ids at s) = s_pushSuccesses s"
  "s_pushQueue (publishLocked ty d cid ids at s) = s_pushQueue s"
  "s_pushInflight (publishLocked ty d cid ids at s) = s_pushInflight s"
  "s_pushBackground (publishLocked ty d cid ids at s) = s_pushBackground s"
  "s_pushWG (publishLocked ty d cid ids at s) = s_pushWG s"
  "s_pushCancelled (publishLocked ty d cid ids at s) = s_pushCancelled s"
  "s_pushClosed (publishLocked ty d cid ids at s) = s_pushClosed s"
  by (simp_all add: publishLocked_def Let_def)

lemma enqueuePushJobLocked_frame [simp, frame]:
  "s_cfg (snd (enqueuePushJobLocked j s)) = s_cfg s"
  "s_controlPlaneAgents (snd (enqueuePushJobLocked j s)) = s_controlPlaneAgents s"
  "s_nextConversationID (snd (enqueuePushJobLocked j s)) = s_nextConversationID s"
  "s_nextMessageID (snd (enqueuePushJobLocked j s)) = s_nextMessageID s"
  "s_nextObserveID (snd (enqueuePushJobLocked j s)) = s_nextObserveID s"
  "s_agents (snd (enqueuePushJobLocked j s)) = s_agents s"
  "s_conversations (snd (enqueuePushJobLocked j s)) = s_conversations s"
  "s_messages (snd (enqueuePushJobLocked j s)) = s_messages s"
  "s_conversationMessages (snd (enqueuePushJobLocked j s)) = s_conversationMessages s"
  "s_inboxes (snd (enqueuePushJobLocked j s)) = s_inboxes s"
  "s_inboxBase (snd (enqueuePushJobLocked j s)) = s_inboxBase s"
  "s_inboxBytes (snd (enqueuePushJobLocked j s)) = s_inboxBytes s"
  "s_observeEvents (snd (enqueuePushJobLocked j s)) = s_observeEvents s"
  "s_observeBytes (snd (enqueuePushJobLocked j s)) = s_observeBytes s"
  "s_observeEpoch (snd (enqueuePushJobLocked j s)) = s_observeEpoch s"
  "s_idempotency (snd (enqueuePushJobLocked j s)) = s_idempotency s"
  "s_lastSweepAt (snd (enqueuePushJobLocked j s)) = s_lastSweepAt s"
  "s_inboxNotify (snd (enqueuePushJobLocked j s)) = s_inboxNotify s"
  "s_observeNotify (snd (enqueuePushJobLocked j s)) = s_observeNotify s"
  "s_closedChans (snd (enqueuePushJobLocked j s)) = s_closedChans s"
  "s_nextChan (snd (enqueuePushJobLocked j s)) = s_nextChan s"
  "s_sweepSkipped (snd (enqueuePushJobLocked j s)) = s_sweepSkipped s"
  "s_sweepRan (snd (enqueuePushJobLocked j s)) = s_sweepRan s"
  "s_humanAllowlist (snd (enqueuePushJobLocked j s)) = s_humanAllowlist s"
  "s_pushSuccesses (snd (enqueuePushJobLocked j s)) = s_pushSuccesses s"
  "s_pushInflight (snd (enqueuePushJobLocked j s)) = s_pushInflight s"
  "s_pushBackground (snd (enqueuePushJobLocked j s)) = s_pushBackground s"
  "s_pushCancelled (snd (enqueuePushJobLocked j s)) = s_pushCancelled s"
  "s_pushClosed (snd (enqueuePushJobLocked j s)) = s_pushClosed s"
  by (simp_all add: enqueuePushJobLocked_def)

lemma finishAcceptance_frame [simp, frame]:
  "s_cfg (finishAcceptance j r s) = s_cfg s"
  "s_controlPlaneAgents (finishAcceptance j r s) = s_controlPlaneAgents s"
  "s_nextConversationID (finishAcceptance j r s) = s_nextConversationID s"
  "s_nextMessageID (finishAcceptance j r s) = s_nextMessageID s"
  "s_nextObserveID (finishAcceptance j r s) = s_nextObserveID s"
  "s_agents (finishAcceptance j r s) = s_agents s"
  "s_conversations (finishAcceptance j r s) = s_conversations s"
  "s_messages (finishAcceptance j r s) = s_messages s"
  "s_conversationMessages (finishAcceptance j r s) = s_conversationMessages s"
  "s_inboxes (finishAcceptance j r s) = s_inboxes s"
  "s_inboxBase (finishAcceptance j r s) = s_inboxBase s"
  "s_inboxBytes (finishAcceptance j r s) = s_inboxBytes s"
  "s_observeEvents (finishAcceptance j r s) = s_observeEvents s"
  "s_observeBytes (finishAcceptance j r s) = s_observeBytes s"
  "s_observeEpoch (finishAcceptance j r s) = s_observeEpoch s"
  "s_idempotency (finishAcceptance j r s) = s_idempotency s"
  "s_lastSweepAt (finishAcceptance j r s) = s_lastSweepAt s"
  "s_inboxNotify (finishAcceptance j r s) = s_inboxNotify s"
  "s_observeNotify (finishAcceptance j r s) = s_observeNotify s"
  "s_closedChans (finishAcceptance j r s) = s_closedChans s"
  "s_nextChan (finishAcceptance j r s) = s_nextChan s"
  "s_sweepSkipped (finishAcceptance j r s) = s_sweepSkipped s"
  "s_sweepRan (finishAcceptance j r s) = s_sweepRan s"
  "s_humanAllowlist (finishAcceptance j r s) = s_humanAllowlist s"
  "s_pushFailures (finishAcceptance j r s) = s_pushFailures s"
  "s_pushSuccesses (finishAcceptance j r s) = s_pushSuccesses s"
  "s_pushQueue (finishAcceptance j r s) = s_pushQueue s"
  "s_pushInflight (finishAcceptance j r s) = s_pushInflight s"
  "s_pushCancelled (finishAcceptance j r s) = s_pushCancelled s"
  "s_pushClosed (finishAcceptance j r s) = s_pushClosed s"
  by (simp_all add: finishAcceptance_def split: option.splits)

section \<open>Eviction\<close>

lemma evict_bytes_less: "es \<noteq> [] \<Longrightarrow> evict_bytes sz maxB r es < length es"
  by (induction sz maxB r es rule: evict_bytes.induct) auto

text \<open>The byte loop stops within budget or at the last event, and not before it has to.\<close>

lemma evict_bytes_budget:
  "r = sum_list (map sz es) \<Longrightarrow>
     (let k = evict_bytes sz maxB r es in
      sum_list (map sz (drop k es)) \<le> maxB \<or> length (drop k es) \<le> 1)"
  by (induction sz maxB r es rule: evict_bytes.induct) (auto simp: Let_def)

lemma evict_bytes_minimal:
  "j < evict_bytes sz maxB r es \<Longrightarrow> r = sum_list (map sz es) \<Longrightarrow>
     sum_list (map sz (drop j es)) > maxB"
proof (induction sz maxB r es arbitrary: j rule: evict_bytes.induct)
  case (1 sz maxB r e e' es)
  then show ?case by (cases j) (auto split: if_splits)
qed auto

definition count_overflow :: "int \<Rightarrow> 'e list \<Rightarrow> nat" where
  "count_overflow maxN es = (if maxN > 0 \<and> int (length es) > maxN then length es - nat maxN else 0)"

lemma evict_count_alt:
  "evict_count sz maxN maxB bytes es =
     (let d = count_overflow maxN es in
      if maxB > 0 then d + evict_bytes sz maxB (bytes - sum_list (map sz (take d es))) (drop d es)
      else d)"
  by (simp add: evict_count_def count_overflow_def Let_def)

lemma count_overflow_less: "es \<noteq> [] \<Longrightarrow> count_overflow maxN es < length es"
  by (auto simp: count_overflow_def)

lemma sum_take_drop: "sum_list (map f xs) - sum_list (map f (take n xs)) = sum_list (map f (drop n xs))"
  for f :: "'e \<Rightarrow> int"
  by (metis add_diff_cancel_left' append_take_drop_id map_append sum_list_append)

text \<open>The newest event is never evicted.\<close>

lemma evict_count_less:
  assumes "es \<noteq> []"
  shows "evict_count sz maxN maxB bytes es < length es"
proof -
  let ?d = "count_overflow maxN es"
  have d: "?d < length es" using assms by (rule count_overflow_less)
  then have "evict_bytes sz maxB r (drop ?d es) < length (drop ?d es)" for r
    by (intro evict_bytes_less) simp
  with d show ?thesis by (auto simp: evict_count_alt Let_def less_diff_conv add.commute)
qed

lemma evict_count_within_count:
  "maxN > 0 \<Longrightarrow> int (length (drop (evict_count sz maxN maxB bytes es) es)) \<le> maxN"
  by (auto simp: evict_count_alt count_overflow_def Let_def)

lemma evict_count_within_bytes:
  assumes "maxB > 0" and "bytes = sum_list (map sz es)"
  shows "sum_list (map sz (drop (evict_count sz maxN maxB bytes es) es)) \<le> maxB \<or>
     length (drop (evict_count sz maxN maxB bytes es) es) \<le> 1"
proof -
  let ?d = "count_overflow maxN es"
  have "bytes - sum_list (map sz (take ?d es)) = sum_list (map sz (drop ?d es))"
    using assms(2) by (simp add: sum_take_drop)
  from evict_bytes_budget [OF this, of maxB] assms(1) show ?thesis
    by (simp add: evict_count_alt Let_def add.commute)
qed

lemma evict_count_minimal:
  assumes "bytes = sum_list (map sz es)" and "j < evict_count sz maxN maxB bytes es"
  shows "int (length (drop j es)) > maxN \<and> maxN > 0 \<or>
     sum_list (map sz (drop j es)) > maxB \<and> maxB > 0"
proof (cases "j < count_overflow maxN es")
  case True
  then show ?thesis by (auto simp: count_overflow_def split: if_splits)
next
  case False
  let ?d = "count_overflow maxN es"
  have mb: "maxB > 0" using assms(2) False by (auto simp: evict_count_alt Let_def split: if_splits)
  have "j - ?d < evict_bytes sz maxB (bytes - sum_list (map sz (take ?d es))) (drop ?d es)"
    using assms(2) False mb by (simp add: evict_count_alt Let_def less_diff_conv2 add.commute)
  from evict_bytes_minimal [OF this] have "sum_list (map sz (drop (j - ?d) (drop ?d es))) > maxB"
    using assms(1) by (simp add: sum_take_drop)
  with False mb show ?thesis by simp
qed

section \<open>What the helpers compute\<close>

definition inbox_evicted :: "string \<Rightarrow> inbox_event \<Rightarrow> store \<Rightarrow> nat" where
  "inbox_evicted a e s =
     evict_count inboxEventSize (cfg_MaxInboxEventsPerAgent (s_cfg s))
       (cfg_MaxInboxBytesPerAgent (s_cfg s)) (inbox_bytes s a + inboxEventSize e)
       (inbox_of s a @ [e])"

lemma inbox_evicted_le: "inbox_evicted a e s \<le> length (inbox_of s a)"
  using evict_count_less [of "inbox_of s a @ [e]"] by (simp add: inbox_evicted_def less_Suc_eq_le)

lemma dropInboxPrefixLocked_tables:
  assumes "0 \<le> n" and "n \<le> int (length (inbox_of s a))"
  shows "inbox_of (dropInboxPrefixLocked a n s) b = (if b = a then drop (nat n) (inbox_of s a) else inbox_of s b)"
    and "inbox_base (dropInboxPrefixLocked a n s) b = (if b = a then inbox_base s a + n else inbox_base s b)"
    and "inbox_bytes (dropInboxPrefixLocked a n s) b =
      (if b = a then inbox_bytes s a - sum_list (map inboxEventSize (take (nat n) (inbox_of s a)))
       else inbox_bytes s b)"
  using assms by (auto simp: dropInboxPrefixLocked_def Let_def)

lemma appendInboxLocked_tables:
  fixes s :: store and a :: string and e :: inbox_event
  defines "d \<equiv> inbox_evicted a e s"
  shows "inbox_of (appendInboxLocked a e s) b = (if b = a then drop d (inbox_of s a @ [e]) else inbox_of s b)"
    and "inbox_base (appendInboxLocked a e s) b = (if b = a then inbox_base s a + int d else inbox_base s b)"
    and "inbox_bytes (appendInboxLocked a e s) b =
      (if b = a then inbox_bytes s a + inboxEventSize e
         - sum_list (map inboxEventSize (take d (inbox_of s a @ [e])))
       else inbox_bytes s b)"
  using inbox_evicted_le [of a e s]
  by (auto simp: appendInboxLocked_def inbox_evicted_def [symmetric] dropInboxPrefixLocked_tables d_def Let_def)

definition observe_entry ::
  "event_type \<times> json \<times> string \<times> string list \<times> time \<Rightarrow> store \<Rightarrow> observe_event" where
  "observe_entry x s =
     (case x of (ty, d, cid, ids, at) \<Rightarrow>
        let evt = \<lparr>o_ID = s_nextObserveID s + 1, o_Type = ty, o_At = at, o_Data = d,
                   o_ConversationID = cid, o_AgentIDs = ids, o_Size = 0\<rparr>
        in evt\<lparr>o_Size := observeEventSize evt\<rparr>)"

definition publish :: "event_type \<times> json \<times> string \<times> string list \<times> time \<Rightarrow> store \<Rightarrow> store" where
  "publish x s = (case x of (ty, d, cid, ids, at) \<Rightarrow> publishLocked ty d cid ids at s)"

definition observe_evicted :: "observe_event \<Rightarrow> store \<Rightarrow> nat" where
  "observe_evicted e s =
     evict_count o_Size (cfg_MaxObserveEvents (s_cfg s)) (cfg_MaxObserveBytes (s_cfg s))
       (s_observeBytes s + o_Size e) (s_observeEvents s @ [e])"

lemma observe_evicted_le: "observe_evicted e s \<le> length (s_observeEvents s)"
  using evict_count_less [of "s_observeEvents s @ [e]"] by (simp add: observe_evicted_def less_Suc_eq_le)

lemma publishLocked_ring:
  fixes s :: store and ty :: event_type and d :: json and cid :: string and ids :: "string list"
    and at :: time
  defines "evt \<equiv> observe_entry (ty, d, cid, ids, at) s"
  shows "s_nextObserveID (publishLocked ty d cid ids at s) = s_nextObserveID s + 1"
    and "s_observeEvents (publishLocked ty d cid ids at s) =
      drop (observe_evicted evt s) (s_observeEvents s @ [evt])"
    and "s_observeBytes (publishLocked ty d cid ids at s) =
      s_observeBytes s + o_Size evt - sum_list (map o_Size (take (observe_evicted evt s) (s_observeEvents s @ [evt])))"
  by (simp_all add: publishLocked_def trimObserveLocked_def evt_def observe_entry_def observe_evicted_def Let_def)

section \<open>Buffers read through a cursor\<close>

definition since_cursor :: "'e list \<Rightarrow> int \<Rightarrow> int \<Rightarrow> 'e list" where
  "since_cursor es base c = drop (nat (c - base)) es"

fun appended :: "('x \<Rightarrow> 's \<Rightarrow> 'e) \<Rightarrow> ('x \<Rightarrow> 's \<Rightarrow> 's) \<Rightarrow> 'x list \<Rightarrow> 's \<Rightarrow> 'e list" where
  "appended mk app [] s = []"
| "appended mk app (x # xs) s = mk x s # appended mk app xs (app x s)"

locale cursor_log =
  fixes entries :: "'s \<Rightarrow> 'e list"
    and base :: "'s \<Rightarrow> int"
    and entry :: "'x \<Rightarrow> 's \<Rightarrow> 'e"
    and append :: "'x \<Rightarrow> 's \<Rightarrow> 's"
  assumes append_evicts: "\<exists>d. d \<le> length (entries s) \<and>
    entries (append x s) = drop d (entries s @ [entry x s]) \<and> base (append x s) = base s + int d"
begin

lemma base_mono: "base s \<le> base (append x s)"
  using append_evicts [of s x] by auto

lemma end_advances:
  "base (append x s) + int (length (entries (append x s))) = base s + int (length (entries s)) + 1"
  using append_evicts [of s x] by auto

text \<open>The newest entry is always there, at the old end.\<close>

lemma newest_kept:
  "entries (append x s) \<noteq> [] \<and> last (entries (append x s)) = entry x s"
  using append_evicts [of s x] by auto

text \<open>An entry that is not evicted keeps its position.\<close>

lemma position_stable:
  assumes "base (append x s) \<le> p" and "p < base s + int (length (entries s))"
  shows "entries (append x s) ! nat (p - base (append x s)) = entries s ! nat (p - base s)"
proof -
  obtain d where d: "d \<le> length (entries s)"
    "entries (append x s) = drop d (entries s @ [entry x s])" "base (append x s) = base s + int d"
    using append_evicts by blast
  have "nat (p - base s) = d + nat (p - base (append x s))" using d(3) assms(1) by simp
  moreover have "nat (p - base s) < length (entries s)" using assms d(3) by simp
  ultimately show ?thesis using d by (auto simp: nth_append)
qed

text \<open>
  A reader whose cursor the eviction has not overtaken sees exactly what it had still to read,
  followed by the new entries.
\<close>

lemma reader_step:
  assumes "base (append x s) \<le> c" and "c \<le> base s + int (length (entries s))"
  shows "since_cursor (entries (append x s)) (base (append x s)) c =
    since_cursor (entries s) (base s) c @ [entry x s]"
proof -
  obtain d where d: "entries (append x s) = drop d (entries s @ [entry x s])"
    "base (append x s) = base s + int d"
    using append_evicts by blast
  have "nat (c - base (append x s)) + d = nat (c - base s)" using d(2) assms(1) by simp
  moreover have "nat (c - base s) \<le> length (entries s)" using assms(2) by simp
  ultimately show ?thesis by (simp add: since_cursor_def d(1))
qed

lemma base_mono_fold: "base s \<le> base (fold append xs s)"
  by (induction xs arbitrary: s) (auto intro: order_trans base_mono)

lemma reader_lossless:
  assumes "base (fold append xs s) \<le> c" and "c \<le> base s + int (length (entries s))"
  shows "since_cursor (entries (fold append xs s)) (base (fold append xs s)) c =
    since_cursor (entries s) (base s) c @ appended entry append xs s"
  using assms
proof (induction xs arbitrary: s)
  case Nil
  then show ?case by simp
next
  case (Cons x xs)
  have b: "base (append x s) \<le> c"
    using base_mono_fold [of "append x s" xs] Cons.prems(1) by simp
  have "since_cursor (entries (fold append xs (append x s))) (base (fold append xs (append x s))) c =
      since_cursor (entries (append x s)) (base (append x s)) c @ appended entry append xs (append x s)"
    using Cons.prems end_advances [of x s] by (intro Cons.IH) auto
  with reader_step [OF b Cons.prems(2)] show ?case by simp
qed

end

lemma since_cursor_split:
  assumes "base \<le> c" and "k \<le> length (since_cursor es base c)"
  shows "since_cursor es base c = take k (since_cursor es base c) @ since_cursor es base (c + int k)"
proof -
  have "nat (c + int k - base) = nat (c - base) + k" using assms(1) by simp
  then show ?thesis by (simp add: since_cursor_def drop_drop add.commute flip: drop_drop)
qed

interpretation inbox_log:
  cursor_log "\<lambda>s. inbox_of s a" "\<lambda>s. inbox_base s a" "\<lambda>e s. e" "appendInboxLocked a"
  for a :: string
proof
  fix s x
  show "\<exists>d. d \<le> length (inbox_of s a) \<and> inbox_of (appendInboxLocked a x s) a = drop d (inbox_of s a @ [x]) \<and>
      inbox_base (appendInboxLocked a x s) a = inbox_base s a + int d"
    using inbox_evicted_le [of a x s] by (auto simp: appendInboxLocked_tables)
qed

definition observe_base :: "store \<Rightarrow> int" where
  "observe_base s = s_nextObserveID s - int (length (s_observeEvents s))"

interpretation observe_log: cursor_log s_observeEvents observe_base observe_entry publish
proof
  fix s x
  show "\<exists>d. d \<le> length (s_observeEvents s) \<and>
      s_observeEvents (publish x s) = drop d (s_observeEvents s @ [observe_entry x s]) \<and>
      observe_base (publish x s) = observe_base s + int d"
    using observe_evicted_le [of "observe_entry x s" s]
    by (cases x)
      (auto simp: publish_def publishLocked_ring observe_base_def of_nat_diff
        intro!: exI [of _ "observe_evicted (observe_entry x s) s"])
qed

end
