(* ===== verification/Bus_Sweep.thy ===== *)
theory Bus_Sweep
  imports Bus_State
begin

text \<open>
  The sweep (\<^verbatim>\<open>sweepLocked\<close>) and the retention pass it ends with (\<^verbatim>\<open>pruneLocked\<close>), both of
  \<^verbatim>\<open>pkg/bus/store.go\<close>. Every operation of the store starts with a sweep, so this is where agents
  expire, requests time out, queued requests are delivered to agents that came back, and memory is
  reclaimed.

  Both passes range over Go maps. The order of each loop is an argument (\<open>orders\<close>: one ranking of
  the keys per loop), and the reference functions \<open>swept_agent\<close>, \<open>swept_message\<close> and
  \<open>prunable_message\<close> say what the passes make of one entry. The lemmas of the last sections show
  that the loops compute exactly that, whatever the orders were.
\<close>

type_synonym orders = "nat \<Rightarrow> ranking"

section \<open>sweepLocked\<close>

definition sweep_due :: "time \<Rightarrow> store \<Rightarrow> bool" where
  "sweep_due now s =
     (\<not> (cfg_SweepMinInterval (s_cfg s) > 0 \<and> \<not> IsZero (s_lastSweepAt s) \<and>
         Sub now (s_lastSweepAt s) < cfg_SweepMinInterval (s_cfg s)))"

definition sweep_idempotency :: "time \<Rightarrow> store \<Rightarrow> store" where
  "sweep_idempotency now s =
     s\<lparr>s_idempotency := filter (\<lambda>(k, v). \<not> Sub now (ie_CreatedAt v) > cfg_IdempotencyWindow (s_cfg s))
        (s_idempotency s)\<rparr>"

definition sweep_agent :: "time \<Rightarrow> string \<Rightarrow> store \<Rightarrow> store" where
  "sweep_agent now k s =
     (case map_of (s_agents s) k of
        None \<Rightarrow> s
      | Some agent \<Rightarrow>
          if a_Status agent = AgentStatusActive \<and> After now (a_ExpiresAt agent) then
            publishLocked ObserveAgentExpired
              (JMap [(''agent_id'', JStr (a_AgentID agent)), (''at'', JTime now)])
              [] [a_AgentID agent] now
              (s\<lparr>s_agents := AList.update k (agent\<lparr>a_Status := AgentStatusExpired\<rparr>) (s_agents s)\<rparr>)
          else s)"

text \<open>Moving a request to the error state, with the observer event that reports it.\<close>

definition fail_message :: "time \<Rightarrow> string \<Rightarrow> message \<Rightarrow> string \<Rightarrow> store \<Rightarrow> store" where
  "fail_message now k m err s =
     publishLocked ObserveStateChange
       (JMap [(''message_id'', JStr (m_MessageID m)),
              (''from_state'', JStr (message_state_str (m_State m))),
              (''to_state'', JStr (message_state_str StateError)),
              (''at'', JTime now),
              (''error'', JStr err)])
       (m_ConversationID m) [m_From m, m_To m] now
       (s\<lparr>s_messages := AList.update k (m\<lparr>m_State := StateError, m_TerminalAt := now\<rparr>) (s_messages s)\<rparr>)"

definition inbox_event_of :: "message \<Rightarrow> inbox_event" where
  "inbox_event_of m =
     \<lparr>i_MessageID = m_MessageID m, i_Type = m_Type m, i_From = m_From m,
      i_ConversationID = m_ConversationID m, i_Body = m_Body m, i_Meta = m_Meta m,
      i_Attachments = m_Attachments m, i_CreatedAt = m_CreatedAt m\<rparr>"

definition target_active :: "agent gomap \<Rightarrow> string \<Rightarrow> bool" where
  "target_active agents to =
     (case map_of agents to of None \<Rightarrow> False | Some a \<Rightarrow> a_Status a = AgentStatusActive)"

definition sweep_message :: "time \<Rightarrow> string \<Rightarrow> store \<Rightarrow> store" where
  "sweep_message now k s =
     (case map_of (s_messages s) k of
        None \<Rightarrow> s
      | Some m \<Rightarrow>
          if m_Type m \<noteq> MessageTypeRequest \<or> isTerminal (m_State m) then s
          else if \<not> IsZero (m_TTLExpiresAt m) \<and> After now (m_TTLExpiresAt m) then
            fail_message now k m ''ttl timeout'' s
          else if m_State m = StateWaitingAck \<and> \<not> IsZero (m_DeliveredAt m) \<and>
                  Sub now (m_DeliveredAt m) > cfg_AckTimeout (s_cfg s) then
            fail_message now k m ''ack timeout'' s
          else if m_QueuedForAgent m then
            (if target_active (s_agents s) (m_To m) then
               (let m' = m\<lparr>m_QueuedForAgent := False, m_State := StateWaitingAck, m_DeliveredAt := now\<rparr>
                in appendInboxLocked (m_To m') (inbox_event_of m')
                     (s\<lparr>s_messages := AList.update k m' (s_messages s)\<rparr>))
             else if \<not> IsZero (m_GraceUntil m) \<and> After now (m_GraceUntil m) then
               fail_message now k (m\<lparr>m_QueuedForAgent := False\<rparr>)
                 ''target agent did not re-register in grace period'' s
             else s)
          else s)"

section \<open>pruneLocked\<close>

definition prunable_message :: "config \<Rightarrow> time \<Rightarrow> message \<Rightarrow> bool" where
  "prunable_message cfg now m =
     (if cfg_MessageMaxAge cfg > 0 \<and> Sub now (m_CreatedAt m) > cfg_MessageMaxAge cfg then True
      else if cfg_MessageRetention cfg > 0 \<and> isTerminal (m_State m) then
        (let terminalAt = (if IsZero (m_TerminalAt m) then m_CreatedAt m else m_TerminalAt m)
         in Sub now terminalAt > cfg_MessageRetention cfg)
      else False)"

definition prune_messages :: "time \<Rightarrow> store \<Rightarrow> store" where
  "prune_messages now s =
     (if cfg_MessageRetention (s_cfg s) > 0 \<or> cfg_MessageMaxAge (s_cfg s) > 0 then
        s\<lparr>s_messages := filter (\<lambda>(k, m). \<not> prunable_message (s_cfg s) now m) (s_messages s)\<rparr>
      else s)"

definition conversation_live :: "store \<Rightarrow> string \<Rightarrow> bool" where
  "conversation_live s cid =
     list_ex (\<lambda>mid. has_key (s_messages s) mid) (get_or [] (s_conversationMessages s) cid)"

definition prunable_conversation :: "time \<Rightarrow> store \<Rightarrow> string \<Rightarrow> bool" where
  "prunable_conversation now s cid =
     (case map_of (s_conversations s) cid of
        None \<Rightarrow> False
      | Some c \<Rightarrow>
          \<not> Sub now (c_LastMessageAt c) \<le> cfg_ConversationRetention (s_cfg s) \<and>
          \<not> conversation_live s cid)"

definition prune_conversations :: "time \<Rightarrow> store \<Rightarrow> store" where
  "prune_conversations now s =
     (if cfg_ConversationRetention (s_cfg s) > 0 then
        s\<lparr>s_conversations := filter (\<lambda>(cid, c). \<not> prunable_conversation now s cid) (s_conversations s),
          s_conversationMessages :=
            filter (\<lambda>(cid, ids). \<not> prunable_conversation now s cid) (s_conversationMessages s)\<rparr>
      else s)"

definition prunable_agent :: "config \<Rightarrow> time \<Rightarrow> agent \<Rightarrow> bool" where
  "prunable_agent cfg now a =
     (\<not> (a_Status a \<noteq> AgentStatusExpired \<or> Sub now (a_ExpiresAt a) \<le> cfg_AgentRetention cfg))"

definition prune_agent :: "time \<Rightarrow> string \<Rightarrow> store \<Rightarrow> store" where
  "prune_agent now k s =
     (case map_of (s_agents s) k of
        None \<Rightarrow> s
      | Some a \<Rightarrow>
          if \<not> prunable_agent (s_cfg s) now a then s
          else
            (let s1 = signalInboxLocked k (s\<lparr>s_agents := AList.delete k (s_agents s)\<rparr>)
             in s1\<lparr>s_inboxes := AList.delete k (s_inboxes s1),
                   s_inboxBase := AList.delete k (s_inboxBase s1),
                   s_inboxBytes := AList.delete k (s_inboxBytes s1)\<rparr>))"

definition prune_agents :: "ranking \<Rightarrow> time \<Rightarrow> store \<Rightarrow> store" where
  "prune_agents rk now s =
     (if cfg_AgentRetention (s_cfg s) > 0
      then fold (prune_agent now) (range_keys rk (s_agents s)) s else s)"

definition pruneLocked :: "orders \<Rightarrow> time \<Rightarrow> store \<Rightarrow> store" where
  "pruneLocked R now s = prune_agents (R 2) now (prune_conversations now (prune_messages now s))"

definition sweep_agents :: "ranking \<Rightarrow> time \<Rightarrow> store \<Rightarrow> store" where
  "sweep_agents rk now s = fold (sweep_agent now) (range_keys rk (s_agents s)) s"

definition sweep_messages :: "ranking \<Rightarrow> time \<Rightarrow> store \<Rightarrow> store" where
  "sweep_messages rk now s = fold (sweep_message now) (range_keys rk (s_messages s)) s"

definition sweepLocked :: "orders \<Rightarrow> time \<Rightarrow> store \<Rightarrow> store" where
  "sweepLocked R now s =
     (if \<not> sweep_due now s then s\<lparr>s_sweepSkipped := Suc (s_sweepSkipped s)\<rparr>
      else
        (let s0 = s\<lparr>s_lastSweepAt := now, s_sweepRan := Suc (s_sweepRan s)\<rparr>;
             s1 = sweep_idempotency now s0;
             s2 = sweep_agents (R 0) now s1;
             s3 = sweep_messages (R 1) now s2
         in pruneLocked R now s3))"

section \<open>Frames\<close>

lemma sweep_agent_frame [simp, frame]:
  "s_cfg (sweep_agent now k s) = s_cfg s"
  "s_controlPlaneAgents (sweep_agent now k s) = s_controlPlaneAgents s"
  "s_nextConversationID (sweep_agent now k s) = s_nextConversationID s"
  "s_nextMessageID (sweep_agent now k s) = s_nextMessageID s"
  "s_conversations (sweep_agent now k s) = s_conversations s"
  "s_messages (sweep_agent now k s) = s_messages s"
  "s_conversationMessages (sweep_agent now k s) = s_conversationMessages s"
  "s_inboxes (sweep_agent now k s) = s_inboxes s"
  "s_inboxBase (sweep_agent now k s) = s_inboxBase s"
  "s_inboxBytes (sweep_agent now k s) = s_inboxBytes s"
  "s_observeEpoch (sweep_agent now k s) = s_observeEpoch s"
  "s_idempotency (sweep_agent now k s) = s_idempotency s"
  "s_lastSweepAt (sweep_agent now k s) = s_lastSweepAt s"
  "s_inboxNotify (sweep_agent now k s) = s_inboxNotify s"
  "s_sweepSkipped (sweep_agent now k s) = s_sweepSkipped s"
  "s_sweepRan (sweep_agent now k s) = s_sweepRan s"
  "s_humanAllowlist (sweep_agent now k s) = s_humanAllowlist s"
  "s_pushFailures (sweep_agent now k s) = s_pushFailures s"
  "s_pushSuccesses (sweep_agent now k s) = s_pushSuccesses s"
  "s_pushQueue (sweep_agent now k s) = s_pushQueue s"
  "s_pushInflight (sweep_agent now k s) = s_pushInflight s"
  "s_pushBackground (sweep_agent now k s) = s_pushBackground s"
  "s_pushWG (sweep_agent now k s) = s_pushWG s"
  "s_pushCancelled (sweep_agent now k s) = s_pushCancelled s"
  "s_pushClosed (sweep_agent now k s) = s_pushClosed s"
  by (simp_all add: sweep_agent_def split: option.splits)

lemma sweep_agents_frame [simp, frame]:
  "s_cfg (sweep_agents rk now s) = s_cfg s"
  "s_controlPlaneAgents (sweep_agents rk now s) = s_controlPlaneAgents s"
  "s_nextConversationID (sweep_agents rk now s) = s_nextConversationID s"
  "s_nextMessageID (sweep_agents rk now s) = s_nextMessageID s"
  "s_conversations (sweep_agents rk now s) = s_conversations s"
  "s_messages (sweep_agents rk now s) = s_messages s"
  "s_conversationMessages (sweep_agents rk now s) = s_conversationMessages s"
  "s_inboxes (sweep_agents rk now s) = s_inboxes s"
  "s_inboxBase (sweep_agents rk now s) = s_inboxBase s"
  "s_inboxBytes (sweep_agents rk now s) = s_inboxBytes s"
  "s_observeEpoch (sweep_agents rk now s) = s_observeEpoch s"
  "s_idempotency (sweep_agents rk now s) = s_idempotency s"
  "s_lastSweepAt (sweep_agents rk now s) = s_lastSweepAt s"
  "s_inboxNotify (sweep_agents rk now s) = s_inboxNotify s"
  "s_sweepSkipped (sweep_agents rk now s) = s_sweepSkipped s"
  "s_sweepRan (sweep_agents rk now s) = s_sweepRan s"
  "s_humanAllowlist (sweep_agents rk now s) = s_humanAllowlist s"
  "s_pushFailures (sweep_agents rk now s) = s_pushFailures s"
  "s_pushSuccesses (sweep_agents rk now s) = s_pushSuccesses s"
  "s_pushQueue (sweep_agents rk now s) = s_pushQueue s"
  "s_pushInflight (sweep_agents rk now s) = s_pushInflight s"
  "s_pushBackground (sweep_agents rk now s) = s_pushBackground s"
  "s_pushWG (sweep_agents rk now s) = s_pushWG s"
  "s_pushCancelled (sweep_agents rk now s) = s_pushCancelled s"
  "s_pushClosed (sweep_agents rk now s) = s_pushClosed s"
  unfolding sweep_agents_def by (rule fold_keeps_eq, simp)+

lemma fail_message_frame [simp, frame]:
  "s_cfg (fail_message now k m err s) = s_cfg s"
  "s_controlPlaneAgents (fail_message now k m err s) = s_controlPlaneAgents s"
  "s_nextConversationID (fail_message now k m err s) = s_nextConversationID s"
  "s_nextMessageID (fail_message now k m err s) = s_nextMessageID s"
  "s_agents (fail_message now k m err s) = s_agents s"
  "s_conversations (fail_message now k m err s) = s_conversations s"
  "s_conversationMessages (fail_message now k m err s) = s_conversationMessages s"
  "s_inboxes (fail_message now k m err s) = s_inboxes s"
  "s_inboxBase (fail_message now k m err s) = s_inboxBase s"
  "s_inboxBytes (fail_message now k m err s) = s_inboxBytes s"
  "s_observeEpoch (fail_message now k m err s) = s_observeEpoch s"
  "s_idempotency (fail_message now k m err s) = s_idempotency s"
  "s_lastSweepAt (fail_message now k m err s) = s_lastSweepAt s"
  "s_inboxNotify (fail_message now k m err s) = s_inboxNotify s"
  "s_sweepSkipped (fail_message now k m err s) = s_sweepSkipped s"
  "s_sweepRan (fail_message now k m err s) = s_sweepRan s"
  "s_humanAllowlist (fail_message now k m err s) = s_humanAllowlist s"
  "s_pushFailures (fail_message now k m err s) = s_pushFailures s"
  "s_pushSuccesses (fail_message now k m err s) = s_pushSuccesses s"
  "s_pushQueue (fail_message now k m err s) = s_pushQueue s"
  "s_pushInflight (fail_message now k m err s) = s_pushInflight s"
  "s_pushBackground (fail_message now k m err s) = s_pushBackground s"
  "s_pushWG (fail_message now k m err s) = s_pushWG s"
  "s_pushCancelled (fail_message now k m err s) = s_pushCancelled s"
  "s_pushClosed (fail_message now k m err s) = s_pushClosed s"
  by (simp_all add: fail_message_def)

lemma sweep_message_frame [simp, frame]:
  "s_cfg (sweep_message now k s) = s_cfg s"
  "s_controlPlaneAgents (sweep_message now k s) = s_controlPlaneAgents s"
  "s_nextConversationID (sweep_message now k s) = s_nextConversationID s"
  "s_nextMessageID (sweep_message now k s) = s_nextMessageID s"
  "s_agents (sweep_message now k s) = s_agents s"
  "s_conversations (sweep_message now k s) = s_conversations s"
  "s_conversationMessages (sweep_message now k s) = s_conversationMessages s"
  "s_observeEpoch (sweep_message now k s) = s_observeEpoch s"
  "s_idempotency (sweep_message now k s) = s_idempotency s"
  "s_lastSweepAt (sweep_message now k s) = s_lastSweepAt s"
  "s_sweepSkipped (sweep_message now k s) = s_sweepSkipped s"
  "s_sweepRan (sweep_message now k s) = s_sweepRan s"
  "s_humanAllowlist (sweep_message now k s) = s_humanAllowlist s"
  "s_pushFailures (sweep_message now k s) = s_pushFailures s"
  "s_pushSuccesses (sweep_message now k s) = s_pushSuccesses s"
  "s_pushQueue (sweep_message now k s) = s_pushQueue s"
  "s_pushInflight (sweep_message now k s) = s_pushInflight s"
  "s_pushBackground (sweep_message now k s) = s_pushBackground s"
  "s_pushWG (sweep_message now k s) = s_pushWG s"
  "s_pushCancelled (sweep_message now k s) = s_pushCancelled s"
  "s_pushClosed (sweep_message now k s) = s_pushClosed s"
  by (simp_all add: sweep_message_def Let_def split: option.splits)

lemma sweep_messages_frame [simp, frame]:
  "s_cfg (sweep_messages rk now s) = s_cfg s"
  "s_controlPlaneAgents (sweep_messages rk now s) = s_controlPlaneAgents s"
  "s_nextConversationID (sweep_messages rk now s) = s_nextConversationID s"
  "s_nextMessageID (sweep_messages rk now s) = s_nextMessageID s"
  "s_agents (sweep_messages rk now s) = s_agents s"
  "s_conversations (sweep_messages rk now s) = s_conversations s"
  "s_conversationMessages (sweep_messages rk now s) = s_conversationMessages s"
  "s_observeEpoch (sweep_messages rk now s) = s_observeEpoch s"
  "s_idempotency (sweep_messages rk now s) = s_idempotency s"
  "s_lastSweepAt (sweep_messages rk now s) = s_lastSweepAt s"
  "s_sweepSkipped (sweep_messages rk now s) = s_sweepSkipped s"
  "s_sweepRan (sweep_messages rk now s) = s_sweepRan s"
  "s_humanAllowlist (sweep_messages rk now s) = s_humanAllowlist s"
  "s_pushFailures (sweep_messages rk now s) = s_pushFailures s"
  "s_pushSuccesses (sweep_messages rk now s) = s_pushSuccesses s"
  "s_pushQueue (sweep_messages rk now s) = s_pushQueue s"
  "s_pushInflight (sweep_messages rk now s) = s_pushInflight s"
  "s_pushBackground (sweep_messages rk now s) = s_pushBackground s"
  "s_pushWG (sweep_messages rk now s) = s_pushWG s"
  "s_pushCancelled (sweep_messages rk now s) = s_pushCancelled s"
  "s_pushClosed (sweep_messages rk now s) = s_pushClosed s"
  unfolding sweep_messages_def by (rule fold_keeps_eq, simp)+

lemma prune_agent_frame [simp, frame]:
  "s_cfg (prune_agent now k s) = s_cfg s"
  "s_controlPlaneAgents (prune_agent now k s) = s_controlPlaneAgents s"
  "s_nextConversationID (prune_agent now k s) = s_nextConversationID s"
  "s_nextMessageID (prune_agent now k s) = s_nextMessageID s"
  "s_nextObserveID (prune_agent now k s) = s_nextObserveID s"
  "s_conversations (prune_agent now k s) = s_conversations s"
  "s_messages (prune_agent now k s) = s_messages s"
  "s_conversationMessages (prune_agent now k s) = s_conversationMessages s"
  "s_observeEvents (prune_agent now k s) = s_observeEvents s"
  "s_observeBytes (prune_agent now k s) = s_observeBytes s"
  "s_observeEpoch (prune_agent now k s) = s_observeEpoch s"
  "s_idempotency (prune_agent now k s) = s_idempotency s"
  "s_lastSweepAt (prune_agent now k s) = s_lastSweepAt s"
  "s_observeNotify (prune_agent now k s) = s_observeNotify s"
  "s_nextChan (prune_agent now k s) = s_nextChan s"
  "s_sweepSkipped (prune_agent now k s) = s_sweepSkipped s"
  "s_sweepRan (prune_agent now k s) = s_sweepRan s"
  "s_humanAllowlist (prune_agent now k s) = s_humanAllowlist s"
  "s_pushFailures (prune_agent now k s) = s_pushFailures s"
  "s_pushSuccesses (prune_agent now k s) = s_pushSuccesses s"
  "s_pushQueue (prune_agent now k s) = s_pushQueue s"
  "s_pushInflight (prune_agent now k s) = s_pushInflight s"
  "s_pushBackground (prune_agent now k s) = s_pushBackground s"
  "s_pushWG (prune_agent now k s) = s_pushWG s"
  "s_pushCancelled (prune_agent now k s) = s_pushCancelled s"
  "s_pushClosed (prune_agent now k s) = s_pushClosed s"
  by (simp_all add: prune_agent_def Let_def split: option.splits)

lemma prune_agents_frame [simp, frame]:
  "s_cfg (prune_agents rk now s) = s_cfg s"
  "s_controlPlaneAgents (prune_agents rk now s) = s_controlPlaneAgents s"
  "s_nextConversationID (prune_agents rk now s) = s_nextConversationID s"
  "s_nextMessageID (prune_agents rk now s) = s_nextMessageID s"
  "s_nextObserveID (prune_agents rk now s) = s_nextObserveID s"
  "s_conversations (prune_agents rk now s) = s_conversations s"
  "s_messages (prune_agents rk now s) = s_messages s"
  "s_conversationMessages (prune_agents rk now s) = s_conversationMessages s"
  "s_observeEvents (prune_agents rk now s) = s_observeEvents s"
  "s_observeBytes (prune_agents rk now s) = s_observeBytes s"
  "s_observeEpoch (prune_agents rk now s) = s_observeEpoch s"
  "s_idempotency (prune_agents rk now s) = s_idempotency s"
  "s_lastSweepAt (prune_agents rk now s) = s_lastSweepAt s"
  "s_observeNotify (prune_agents rk now s) = s_observeNotify s"
  "s_nextChan (prune_agents rk now s) = s_nextChan s"
  "s_sweepSkipped (prune_agents rk now s) = s_sweepSkipped s"
  "s_sweepRan (prune_agents rk now s) = s_sweepRan s"
  "s_humanAllowlist (prune_agents rk now s) = s_humanAllowlist s"
  "s_pushFailures (prune_agents rk now s) = s_pushFailures s"
  "s_pushSuccesses (prune_agents rk now s) = s_pushSuccesses s"
  "s_pushQueue (prune_agents rk now s) = s_pushQueue s"
  "s_pushInflight (prune_agents rk now s) = s_pushInflight s"
  "s_pushBackground (prune_agents rk now s) = s_pushBackground s"
  "s_pushWG (prune_agents rk now s) = s_pushWG s"
  "s_pushCancelled (prune_agents rk now s) = s_pushCancelled s"
  "s_pushClosed (prune_agents rk now s) = s_pushClosed s"
  by (cases "cfg_AgentRetention (s_cfg s) > 0"; simp add: prune_agents_def; rule fold_keeps_eq, simp)+

lemma sweepLocked_frame [simp, frame]:
  "s_cfg (sweepLocked R now s) = s_cfg s"
  "s_controlPlaneAgents (sweepLocked R now s) = s_controlPlaneAgents s"
  "s_nextConversationID (sweepLocked R now s) = s_nextConversationID s"
  "s_nextMessageID (sweepLocked R now s) = s_nextMessageID s"
  "s_observeEpoch (sweepLocked R now s) = s_observeEpoch s"
  "s_humanAllowlist (sweepLocked R now s) = s_humanAllowlist s"
  "s_pushFailures (sweepLocked R now s) = s_pushFailures s"
  "s_pushSuccesses (sweepLocked R now s) = s_pushSuccesses s"
  "s_pushQueue (sweepLocked R now s) = s_pushQueue s"
  "s_pushInflight (sweepLocked R now s) = s_pushInflight s"
  "s_pushBackground (sweepLocked R now s) = s_pushBackground s"
  "s_pushWG (sweepLocked R now s) = s_pushWG s"
  "s_pushCancelled (sweepLocked R now s) = s_pushCancelled s"
  "s_pushClosed (sweepLocked R now s) = s_pushClosed s"
  by (simp_all add: sweepLocked_def pruneLocked_def sweep_idempotency_def prune_messages_def prune_conversations_def Let_def)

section \<open>What the sweep makes of one agent and of one message\<close>

definition swept_agent :: "time \<Rightarrow> agent \<Rightarrow> agent" where
  "swept_agent now a =
     (if a_Status a = AgentStatusActive \<and> After now (a_ExpiresAt a)
      then a\<lparr>a_Status := AgentStatusExpired\<rparr> else a)"

definition failed_at :: "time \<Rightarrow> message \<Rightarrow> message" where
  "failed_at now m = m\<lparr>m_State := StateError, m_TerminalAt := now\<rparr>"

definition timed_out :: "config \<Rightarrow> time \<Rightarrow> message \<Rightarrow> bool" where
  "timed_out cfg now m \<longleftrightarrow>
     \<not> IsZero (m_TTLExpiresAt m) \<and> After now (m_TTLExpiresAt m) \<or>
     m_State m = StateWaitingAck \<and> \<not> IsZero (m_DeliveredAt m) \<and>
       Sub now (m_DeliveredAt m) > cfg_AckTimeout cfg"

definition swept_message :: "config \<Rightarrow> (string \<Rightarrow> bool) \<Rightarrow> time \<Rightarrow> message \<Rightarrow> message" where
  "swept_message cfg active now m =
     (if m_Type m \<noteq> MessageTypeRequest \<or> isTerminal (m_State m) then m
      else if timed_out cfg now m then failed_at now m
      else if m_QueuedForAgent m \<and> active (m_To m) then
        m\<lparr>m_QueuedForAgent := False, m_State := StateWaitingAck, m_DeliveredAt := now\<rparr>
      else if m_QueuedForAgent m \<and> \<not> IsZero (m_GraceUntil m) \<and> After now (m_GraceUntil m) then
        failed_at now (m\<lparr>m_QueuedForAgent := False\<rparr>)
      else m)"

lemma sweep_agent_look:
  "map_of (s_agents (sweep_agent now k s)) k' =
     (if k' = k then map_option (swept_agent now) (map_of (s_agents s) k) else map_of (s_agents s) k')"
  by (auto simp: sweep_agent_def swept_agent_def split: option.splits)

lemma sweep_message_look:
  "map_of (s_messages (sweep_message now k s)) k' =
     (if k' = k
      then map_option (swept_message (s_cfg s) (target_active (s_agents s)) now) (map_of (s_messages s) k)
      else map_of (s_messages s) k')"
  by (auto simp: sweep_message_def swept_message_def timed_out_def failed_at_def fail_message_def
      Let_def split: option.splits)

lemma sweep_agents_look:
  assumes "keys_distinct (s_agents s)"
  shows "map_of (s_agents (sweep_agents rk now s)) k =
    map_option (swept_agent now) (map_of (s_agents s) k)"
proof -
  have "map_of (s_agents (fold (sweep_agent now) ks s)) k =
      (if k \<in> set ks then map_option (swept_agent now) (map_of (s_agents s) k) else map_of (s_agents s) k)"
    if "distinct ks" for ks
    using that
    by (intro fold_pointwise [where look = "\<lambda>s. map_of (s_agents s)" and I = "\<lambda>_. True"
          and upd = "\<lambda>_. map_option (swept_agent now)"]) (auto simp: sweep_agent_look)
  with assms show ?thesis
    by (auto simp: sweep_agents_def map_of_eq_None_iff [symmetric])
qed

lemma sweep_messages_look:
  assumes "keys_distinct (s_messages s)"
  shows "map_of (s_messages (sweep_messages rk now s)) k =
    map_option (swept_message (s_cfg s) (target_active (s_agents s)) now) (map_of (s_messages s) k)"
proof -
  let ?u = "map_option (swept_message (s_cfg s) (target_active (s_agents s)) now)"
  have "map_of (s_messages (fold (sweep_message now) ks s)) k =
      (if k \<in> set ks then ?u (map_of (s_messages s) k) else map_of (s_messages s) k)"
    if "distinct ks" for ks
    using that
    by (intro fold_pointwise [where look = "\<lambda>s. map_of (s_messages s)" and upd = "\<lambda>_. ?u"
          and I = "\<lambda>t. s_cfg t = s_cfg s \<and> s_agents t = s_agents s"]) (auto simp: sweep_message_look)
  with assms show ?thesis
    by (auto simp: sweep_messages_def map_of_eq_None_iff [symmetric])
qed

lemma prune_agent_look:
  "map_of (s_agents (prune_agent now k s)) k' =
     (if k' = k then (case map_of (s_agents s) k of
          None \<Rightarrow> None | Some a \<Rightarrow> if prunable_agent (s_cfg s) now a then None else Some a)
      else map_of (s_agents s) k')"
  by (auto simp: prune_agent_def Let_def split: option.splits)

lemma prune_agents_look:
  assumes "keys_distinct (s_agents s)"
  shows "map_of (s_agents (prune_agents rk now s)) k =
    (case map_of (s_agents s) k of
       None \<Rightarrow> None
     | Some a \<Rightarrow> if cfg_AgentRetention (s_cfg s) > 0 \<and> prunable_agent (s_cfg s) now a then None else Some a)"
proof -
  let ?u = "\<lambda>_. case_option None (\<lambda>a. if prunable_agent (s_cfg s) now a then None else Some a)"
  have "map_of (s_agents (fold (prune_agent now) ks s)) k =
      (if k \<in> set ks then ?u k (map_of (s_agents s) k) else map_of (s_agents s) k)"
    if "distinct ks" for ks
    using that
    by (intro fold_pointwise [where look = "\<lambda>s. map_of (s_agents s)" and upd = ?u
          and I = "\<lambda>t. s_cfg t = s_cfg s"]) (auto simp: prune_agent_look split: option.splits)
  with assms show ?thesis
    by (auto simp: prune_agents_def map_of_eq_None_iff [symmetric] split: option.splits)
qed

lemma sweep_keys:
  "map fst (s_agents (sweep_agents rk now s)) = map fst (s_agents s)"
  "map fst (s_messages (sweep_messages rk now s)) = map fst (s_messages s)"
  "keys_distinct (s_agents s) \<Longrightarrow> keys_distinct (s_agents (prune_agents rk now s))"
proof -
  have "map fst (s_agents (sweep_agent now k t)) = map fst (s_agents t)" for k t
    by (auto simp: sweep_agent_def split: option.splits)
  then show "map fst (s_agents (sweep_agents rk now s)) = map fst (s_agents s)"
    unfolding sweep_agents_def by (intro fold_keeps_eq)
  have "map fst (s_messages (sweep_message now k t)) = map fst (s_messages t)" for k t
    by (auto simp: sweep_message_def fail_message_def Let_def split: option.splits)
  then show "map fst (s_messages (sweep_messages rk now s)) = map fst (s_messages s)"
    unfolding sweep_messages_def by (intro fold_keeps_eq)
  show "keys_distinct (s_agents (prune_agents rk now s))" if "keys_distinct (s_agents s)"
    using that unfolding prune_agents_def
    by (auto simp: prune_agent_def Let_def distinct_delete split: option.splits
        intro: fold_keeps [where P = "\<lambda>s. keys_distinct (s_agents s)"])
qed

text \<open>
  The whole sweep, entry by entry. Nothing on the right-hand sides mentions an iteration order.
\<close>

definition active_after :: "time \<Rightarrow> agent gomap \<Rightarrow> string \<Rightarrow> bool" where
  "active_after now agents to =
     (case map_of agents to of
        None \<Rightarrow> False
      | Some a \<Rightarrow> a_Status a = AgentStatusActive \<and> \<not> After now (a_ExpiresAt a))"

definition kept_agent :: "config \<Rightarrow> time \<Rightarrow> agent \<Rightarrow> agent option" where
  "kept_agent cfg now a =
     (let a' = swept_agent now a in
      if cfg_AgentRetention cfg > 0 \<and> prunable_agent cfg now a' then None else Some a')"

definition kept_message :: "config \<Rightarrow> (string \<Rightarrow> bool) \<Rightarrow> time \<Rightarrow> message \<Rightarrow> message option" where
  "kept_message cfg active now m =
     (let m' = swept_message cfg active now m in
      if prunable_message cfg now m' then None else Some m')"

lemma target_active_after:
  "keys_distinct (s_agents s) \<Longrightarrow>
     target_active (s_agents (sweep_agents rk now s)) = active_after now (s_agents s)"
  unfolding target_active_def active_after_def
  by (rule ext) (auto simp: sweep_agents_look swept_agent_def simp del: map_of_eq_Some_iff split: option.splits)

lemma prune_messages_look:
  assumes "keys_distinct (s_messages s)"
  shows "map_of (s_messages (prune_messages now s)) k =
    (case map_of (s_messages s) k of
       None \<Rightarrow> None | Some m \<Rightarrow> if prunable_message (s_cfg s) now m then None else Some m)"
  using assms
  by (auto simp: prune_messages_def map_of_filter_distinct prunable_message_def Let_def split: option.splits)

lemma prune_frame [simp]:
  "s_agents (prune_messages now s) = s_agents s" "s_agents (prune_conversations now s) = s_agents s"
  "s_messages (prune_conversations now s) = s_messages s"
  "s_cfg (prune_messages now s) = s_cfg s" "s_cfg (prune_conversations now s) = s_cfg s"
  "s_conversations (prune_messages now s) = s_conversations s"
  "s_conversationMessages (prune_messages now s) = s_conversationMessages s"
  "s_idempotency (prune_messages now s) = s_idempotency s"
  "s_idempotency (prune_conversations now s) = s_idempotency s"
  by (simp_all add: prune_messages_def prune_conversations_def)

lemma sweepLocked_agents:
  assumes "keys_distinct (s_agents s)"
  shows "map_of (s_agents (sweepLocked R now s)) k =
    (if sweep_due now s then Option.bind (map_of (s_agents s) k) (kept_agent (s_cfg s) now)
     else map_of (s_agents s) k)"
  using assms
  by (auto simp: sweepLocked_def pruneLocked_def sweep_idempotency_def Let_def prune_agents_look
      sweep_keys sweep_agents_look kept_agent_def split: option.splits)

lemma sweepLocked_messages:
  assumes "keys_distinct (s_agents s)" and "keys_distinct (s_messages s)"
  shows "map_of (s_messages (sweepLocked R now s)) k =
    (if sweep_due now s
     then Option.bind (map_of (s_messages s) k)
            (kept_message (s_cfg s) (active_after now (s_agents s)) now)
     else map_of (s_messages s) k)"
  using assms
  by (auto simp: sweepLocked_def pruneLocked_def sweep_idempotency_def Let_def prune_messages_look
      sweep_keys sweep_messages_look target_active_after kept_message_def split: option.splits)

lemma sweepLocked_idempotency:
  "s_idempotency (sweepLocked R now s) =
     (if sweep_due now s
      then filter (\<lambda>(k, v). \<not> Sub now (ie_CreatedAt v) > cfg_IdempotencyWindow (s_cfg s)) (s_idempotency s)
      else s_idempotency s)"
  by (simp add: sweepLocked_def pruneLocked_def sweep_idempotency_def Let_def)

end
