(* ===== verification/Bus_Agents.thy ===== *)
theory Bus_Agents
  imports Bus_Sweep
begin

text \<open>
  Registration and the counters: \<^verbatim>\<open>RegisterAgent\<close>, \<^verbatim>\<open>ListAgents\<close>, \<^verbatim>\<open>snapshotCounts\<close> and the
  three reports built on it (\<^verbatim>\<open>Health\<close>, \<^verbatim>\<open>SystemStatus\<close>, \<^verbatim>\<open>Metrics\<close>), of
  \<^verbatim>\<open>pkg/bus/store.go\<close>.

  An operation is a function of the map iteration orders, the clock reading, its input and the
  store; it returns its result (\<open>Inl\<close> an error) and the store it leaves. SHA-256 is an argument of
  \<open>RegisterAgent\<close>: only a comparison of digests matters here.
\<close>

section \<open>Operations\<close>

fun normalizeBuildInfo :: "build_info option \<Rightarrow> build_info option" where
  "normalizeBuildInfo None = None"
| "normalizeBuildInfo (Some b) =
     (let out = \<lparr>bi_Commit = TrimSpace (bi_Commit b), bi_Dirty = bi_Dirty b\<rparr>
      in if bi_Commit out = [] \<and> \<not> bi_Dirty out then None else Some out)"

fun normalizeAgentMeta :: "agent_meta option \<Rightarrow> agent_meta option" where
  "normalizeAgentMeta None = None"
| "normalizeAgentMeta (Some m) =
     (let out = \<lparr>am_Owner = TrimSpace (am_Owner m), am_Repo = TrimSpace (am_Repo m),
                 am_HealthURL = TrimSpace (am_HealthURL m),
                 am_Dependencies = filter (\<lambda>d. d \<noteq> []) (map TrimSpace (am_Dependencies m))\<rparr>
      in if am_Owner out = [] \<and> am_Repo out = [] \<and> am_HealthURL out = [] \<and> am_Dependencies out = []
         then None else Some out)"

text \<open>The checks \<^verbatim>\<open>RegisterAgent\<close> makes before it takes the lock.\<close>

definition register_mode :: "register_agent_input \<Rightarrow> agent_mode" where
  "register_mode input =
     (if ra_Mode input = AgentModeOther [] then AgentModePull else ra_Mode input)"

definition register_check :: "(string \<Rightarrow> string) \<Rightarrow> register_agent_input \<Rightarrow> store \<Rightarrow> bus_error option" where
  "register_check sha256 input s =
     (let agentID = TrimSpace (ra_AgentID input);
          mode = register_mode input;
          agentClass = TrimSpace (ra_AgentClass input);
          mutationClass = TrimSpace (ra_MutationClass input)
      in
      if agentID = [] then Some (newError CodeValidation ''agent_id is required'' False 0)
      else if \<not> acceptsName s agentID then
        Some (newError CodeValidation ''agent_id must be prefixed with personal., ucla., or shared.'' False 0)
      else if isConfiguredControlPlaneAgent s agentID \<and>
              sha256 (ra_Secret input) \<noteq>
                get_or (replicate 32 (CHR 0x00)) (cfg_ControlPlaneAgentSecretHashes (s_cfg s)) agentID then
        Some (newError CodeUnauthorized ''control-plane registration credential rejected'' False 0)
      else case normalizeScopes (ra_AllowedScopes input) of
        Inl err \<Rightarrow> Some err
      | Inr _ \<Rightarrow>
      (case normalizeSharedGrants (ra_SharedGrants input) of
        Inl err \<Rightarrow> Some err
      | Inr _ \<Rightarrow>
      if mode \<noteq> AgentModePull \<and> mode \<noteq> AgentModePush then
        Some (newError CodeValidation ''mode must be pull or push'' False 0)
      else if mode = AgentModePush \<and> TrimSpace (ra_CallbackURL input) = [] then
        Some (newError CodeValidation ''callback_url required for push mode'' False 0)
      else if agentClass \<noteq> [] \<and> agentClass \<noteq> ''worker'' \<and> agentClass \<noteq> ''orchestrator'' then
        Some (newError CodeValidation ''agent_class must be worker or orchestrator'' False 0)
      else if mutationClass \<noteq> [] \<and> mutationClass \<noteq> ''observe'' \<and> mutationClass \<noteq> ''recommend'' \<and>
              mutationClass \<noteq> ''mutate'' then
        Some (newError CodeValidation ''mutation_class must be observe, recommend, or mutate'' False 0)
      else None))"

definition register_ttl :: "register_agent_input \<Rightarrow> store \<Rightarrow> int" where
  "register_ttl input s =
     (if ra_TTLSeconds input \<le> 0 then dur_seconds (cfg_DefaultRegistrationTTL (s_cfg s))
      else ra_TTLSeconds input)"

definition registered_agent :: "time \<Rightarrow> register_agent_input \<Rightarrow> store \<Rightarrow> agent" where
  "registered_agent now input s =
     (let agentID = TrimSpace (ra_AgentID input); ttl = register_ttl input s in
      \<lparr>a_AgentID = agentID,
       a_AllowedScopes = agentAllowedScopes s agentID,
       a_SharedGrants = agentSharedGrants s agentID,
       a_Capabilities = cloneStrings (ra_Capabilities input),
       a_Version = TrimSpace (ra_Version input),
       a_Description = TrimSpace (ra_Description input),
       a_AgentClass = TrimSpace (ra_AgentClass input),
       a_MutationClass = TrimSpace (ra_MutationClass input),
       a_Build = normalizeBuildInfo (ra_Build input),
       a_Meta = normalizeAgentMeta (ra_Meta input),
       a_Mode = register_mode input,
       a_CallbackURL = TrimSpace (ra_CallbackURL input),
       a_Status = AgentStatusActive,
       a_RegisteredAt = (case map_of (s_agents s) agentID of
                           None \<Rightarrow> now | Some existing \<Rightarrow> a_RegisteredAt existing),
       a_ExpiresAt = Add now (seconds_dur ttl),
       a_TTLSeconds = ttl\<rparr>)"

definition install_agent :: "string \<Rightarrow> agent \<Rightarrow> store \<Rightarrow> store" where
  "install_agent agentID agent s =
     (let s1 = s\<lparr>s_agents := AList.update agentID agent (s_agents s)\<rparr> in
      if has_key (s_inboxes s1) agentID then s1
      else s1\<lparr>s_inboxes := AList.update agentID [] (s_inboxes s1),
              s_inboxBase := AList.update agentID 0 (s_inboxBase s1),
              s_inboxBytes := AList.update agentID 0 (s_inboxBytes s1)\<rparr>)"

definition RegisterAgent ::
  "(string \<Rightarrow> string) \<Rightarrow> orders \<Rightarrow> time \<Rightarrow> register_agent_input \<Rightarrow> store \<Rightarrow> (bus_error + agent) \<times> store" where
  "RegisterAgent sha256 R now input s =
     (case register_check sha256 input s of
        Some err \<Rightarrow> (Inl err, s)
      | None \<Rightarrow>
          (let s1 = sweepLocked R now s;
               agentID = TrimSpace (ra_AgentID input);
               agent = registered_agent now input s1
           in case authorizeAgentForName s1 (a_AgentID agent) agentID of
                Some err \<Rightarrow> (Inl err, s1)
              | None \<Rightarrow>
                  (Inr (cloneAgent agent),
                   publishLocked ObserveAgentRegistered
                     (JMap [(''agent_id'', JStr (a_AgentID agent)),
                            (''allowed_scopes'', json_strings (a_AllowedScopes agent)),
                            (''shared_grants'', json_strings (a_SharedGrants agent)),
                            (''capabilities'', json_strings (a_Capabilities agent)),
                            (''at'', JTime now)])
                     [] [a_AgentID agent] now (install_agent agentID agent s1))))"

definition listed_agent :: "string \<Rightarrow> agent \<Rightarrow> bool" where
  "listed_agent capability a =
     (if a_Status a \<noteq> AgentStatusActive then False
      else if capability \<noteq> [] \<and> \<not> list_ex (\<lambda>c. c = capability) (a_Capabilities a) then False
      else True)"

definition values_in :: "ranking \<Rightarrow> 'v gomap \<Rightarrow> 'v list" where
  \<comment> \<open>the values a \<^verbatim>\<open>range\<close> loop visits, in its order\<close>
  "values_in rk m = List.map_filter (map_of m) (range_keys rk m)"

text \<open>\<open>R 3\<close> is the order of the operation's own loop; the sweep uses \<open>R 0\<close>, \<open>R 1\<close> and \<open>R 2\<close>.\<close>

definition ListAgents :: "orders \<Rightarrow> time \<Rightarrow> string \<Rightarrow> store \<Rightarrow> agent list \<times> store" where
  "ListAgents R now capability s =
     (let s1 = sweepLocked R now s in
      (sort_key a_AgentID
         (map cloneAgent (filter (listed_agent (TrimSpace capability)) (values_in (R 3) (s_agents s1)))),
       s1))"

record snapshot_counts =
  sc_active :: int
  sc_expired :: int
  sc_conversations :: int
  sc_messages :: int
  sc_observeEvents :: int
  sc_pushSuccesses :: int
  sc_pushFailures :: int

definition snapshotCounts :: "orders \<Rightarrow> time \<Rightarrow> store \<Rightarrow> snapshot_counts \<times> store" where
  "snapshotCounts R now s =
     (let s1 = sweepLocked R now s;
          counts = \<lparr>sc_active = 0, sc_expired = 0,
                    sc_conversations = int (length (s_conversations s1)),
                    sc_messages = int (length (s_messages s1)),
                    sc_observeEvents = int (length (s_observeEvents s1)),
                    sc_pushSuccesses = s_pushSuccesses s1,
                    sc_pushFailures = s_pushFailures s1\<rparr>
      in (fold (\<lambda>a c. if a_Status a = AgentStatusActive
                      then c\<lparr>sc_active := sc_active c + 1\<rparr>
                      else c\<lparr>sc_expired := sc_expired c + 1\<rparr>)
            (values_in (R 3) (s_agents s1)) counts, s1))"

definition Health :: "orders \<Rightarrow> time \<Rightarrow> store \<Rightarrow> json \<times> store" where
  "Health R now s =
     (let (counts, s1) = snapshotCounts R now s in
      (JMap [(''ok'', JBool True), (''status'', JStr ''healthy''),
             (''agents'', JNum (fmt_d (sc_active counts))),
             (''observe'', JNum (fmt_d (sc_observeEvents counts))),
             (''push'', JMap [(''successes'', JNum (fmt_d (sc_pushSuccesses counts))),
                              (''failures'', JNum (fmt_d (sc_pushFailures counts)))])], s1))"

definition SystemStatus :: "orders \<Rightarrow> time \<Rightarrow> store \<Rightarrow> json \<times> store" where
  "SystemStatus R now s =
     (let (counts, s1) = snapshotCounts R now s in
      (JMap [(''ok'', JBool True),
             (''system'', JMap [
                (''agents_active'', JNum (fmt_d (sc_active counts))),
                (''agents_expired'', JNum (fmt_d (sc_expired counts))),
                (''conversations'', JNum (fmt_d (sc_conversations counts))),
                (''messages'', JNum (fmt_d (sc_messages counts))),
                (''observe_events'', JNum (fmt_d (sc_observeEvents counts))),
                (''push_successes'', JNum (fmt_d (sc_pushSuccesses counts))),
                (''push_failures'', JNum (fmt_d (sc_pushFailures counts)))])], s1))"

definition metric_lines :: "string \<Rightarrow> string \<Rightarrow> string \<Rightarrow> int \<Rightarrow> string" where
  "metric_lines name help kind n =
     ''# HELP '' @ name @ '' '' @ help @ [CHR 0x0A] @
     ''# TYPE '' @ name @ '' '' @ kind @ [CHR 0x0A] @
     name @ '' '' @ fmt_d n @ [CHR 0x0A]"

definition Metrics :: "orders \<Rightarrow> time \<Rightarrow> store \<Rightarrow> string \<times> store" where
  "Metrics R now s =
     (let (counts, s1) = snapshotCounts R now s in
      (metric_lines ''agent_bus_agents_active'' ''Number of active registered agents.'' ''gauge''
         (sc_active counts) @
       metric_lines ''agent_bus_agents_expired'' ''Number of expired agents still tracked.'' ''gauge''
         (sc_expired counts) @
       metric_lines ''agent_bus_conversations_total'' ''Number of tracked conversations.'' ''gauge''
         (sc_conversations counts) @
       metric_lines ''agent_bus_messages_total'' ''Number of tracked messages.'' ''gauge''
         (sc_messages counts) @
       metric_lines ''agent_bus_observe_events_total'' ''Number of retained observe events.'' ''gauge''
         (sc_observeEvents counts) @
       metric_lines ''agent_bus_push_successes_total'' ''Successful push callback deliveries.'' ''counter''
         (sc_pushSuccesses counts) @
       metric_lines ''agent_bus_push_failures_total'' ''Failed push callback deliveries after retries.'' ''counter''
         (sc_pushFailures counts), s1))"

definition GetMessageForTest :: "string \<Rightarrow> store \<Rightarrow> message option" where
  "GetMessageForTest messageID s = map_of (s_messages s) messageID"

end
