(* ===== verification/Bus_Conversations.thy ===== *)
theory Bus_Conversations
  imports Bus_Agents
begin

text \<open>
  Conversations: \<^verbatim>\<open>ensureConversationLocked\<close>, \<^verbatim>\<open>mergeConversationParticipantsLocked\<close>,
  \<^verbatim>\<open>CreateConversation\<close>, \<^verbatim>\<open>ListConversations\<close> and \<^verbatim>\<open>ListConversationMessages\<close> of
  \<^verbatim>\<open>pkg/bus/store.go\<close>.

  \<open>merge_loop\<close> carries the set \<^verbatim>\<open>seen\<close> of the Go function. The sort by creation time is not
  stable in Go: conversations created at the same instant come in any order, which the arbitrary
  order of the loop before it provides.
\<close>

section \<open>Operations\<close>

definition conversation_id :: "int \<Rightarrow> string" where
  "conversation_id n = ''c-'' @ fmt_06d n"

fun merge_loop :: "string list \<Rightarrow> string list \<Rightarrow> string list \<Rightarrow> string list" where
  "merge_loop seen participants [] = participants"
| "merge_loop seen participants (x # xs) =
     (let p = TrimSpace x in
      if p = [] then merge_loop seen participants xs
      else if p \<in> set seen then merge_loop seen participants xs
      else merge_loop (p # seen) (participants @ [p]) xs)"

definition mergeConversationParticipantsLocked :: "conversation \<Rightarrow> string list \<Rightarrow> conversation" where
  "mergeConversationParticipantsLocked c participants =
     c\<lparr>c_Participants := merge_loop (map TrimSpace (c_Participants c)) (c_Participants c) participants\<rparr>"

definition ensureConversationLocked ::
  "create_conversation_input \<Rightarrow> time \<Rightarrow> store \<Rightarrow> (bus_error + conversation) \<times> store" where
  "ensureConversationLocked input now s =
     (let id0 = TrimSpace (cc_ConversationID input);
          s1 = (if id0 = [] then s\<lparr>s_nextConversationID := s_nextConversationID s + 1\<rparr> else s);
          id = (if id0 = [] then conversation_id (s_nextConversationID s1) else id0)
      in case map_of (s_conversations s1) id of
           Some existing \<Rightarrow>
             (case authorizeActorForNames s1 (cc_ActorAgentID input) (c_Participants existing) of
                Some err \<Rightarrow> (Inl err, s1)
              | None \<Rightarrow>
                  (case authorizeActorForNames s1 (cc_ActorAgentID input) (cc_Participants input) of
                     Some err \<Rightarrow> (Inl err, s1)
                   | None \<Rightarrow>
                       (let c = mergeConversationParticipantsLocked existing (cc_Participants input)
                        in (Inr c, s1\<lparr>s_conversations := AList.update id c (s_conversations s1)\<rparr>))))
         | None \<Rightarrow>
             (case authorizeActorForNames s1 (cc_ActorAgentID input) (cc_Participants input) of
                Some err \<Rightarrow> (Inl err, s1)
              | None \<Rightarrow>
                  (let c = \<lparr>c_ConversationID = id, c_Title = TrimSpace (cc_Title input),
                            c_Participants = [] @ cc_Participants input, c_Status = ''active'',
                            c_MessageCount = 0, c_CreatedAt = now, c_LastMessageAt = now,
                            c_Meta = cc_Meta input\<rparr>
                   in (Inr c, s1\<lparr>s_conversations := AList.update id c (s_conversations s1)\<rparr>))))"

fun check_participants :: "store \<Rightarrow> string list \<Rightarrow> bus_error option" where
  "check_participants s [] = None"
| "check_participants s (p # ps) =
     (if TrimSpace p = [] then check_participants s ps
      else if \<not> acceptsName s p then
        Some (newError CodeValidation ''participants must be prefixed with personal., ucla., or shared.'' False 0)
      else check_participants s ps)"

definition CreateConversation ::
  "orders \<Rightarrow> time \<Rightarrow> create_conversation_input \<Rightarrow> store \<Rightarrow> (bus_error + conversation) \<times> store" where
  "CreateConversation R now input s =
     (case check_participants s (cc_Participants input) of
        Some err \<Rightarrow> (Inl err, s)
      | None \<Rightarrow> ensureConversationLocked input now (sweepLocked R now s))"

definition listed_conversation :: "store \<Rightarrow> string \<Rightarrow> string \<Rightarrow> string \<Rightarrow> conversation \<Rightarrow> bool" where
  "listed_conversation s participant status actor c =
     (if status \<noteq> [] \<and> c_Status c \<noteq> status then False
      else if \<not> actorCanAccessConversation s actor (Some c) then False
      else if participant \<noteq> [] \<and> \<not> list_ex (\<lambda>p. p = participant) (c_Participants c) then False
      else True)"

definition ListConversations ::
  "orders \<Rightarrow> time \<Rightarrow> list_conversations_filter \<Rightarrow> store \<Rightarrow> conversation list \<times> store" where
  "ListConversations R now flt s =
     (let s1 = sweepLocked R now s in
      (sort_key c_CreatedAt
         (filter (listed_conversation s1 (TrimSpace (lf_Participant flt)) (TrimSpace (lf_Status flt))
                    (TrimSpace (lf_ActorAgentID flt)))
            (values_in (R 3) (s_conversations s1))), s1))"

definition page_limit :: "int \<Rightarrow> int" where
  "page_limit requested =
     (let limit = (if requested \<le> 0 then 50 else requested) in if limit > 200 then 200 else limit)"

definition page_start :: "int \<Rightarrow> int \<Rightarrow> int" where
  "page_start cursor n =
     (let c = (if cursor < 0 then 0 else cursor) in if c > n then n else c)"

definition ListConversationMessages ::
  "orders \<Rightarrow> time \<Rightarrow> list_conversation_messages_input \<Rightarrow> store \<Rightarrow>
     (bus_error + string \<times> message list \<times> int) \<times> store" where
  "ListConversationMessages R now input s =
     (if TrimSpace (lm_ConversationID input) = [] then
        (Inl (newError CodeValidation ''conversation_id is required'' False 0), s)
      else
        (let limit = page_limit (lm_Limit input); s1 = sweepLocked R now s in
         case map_of (s_conversations s1) (lm_ConversationID input) of
           None \<Rightarrow> (Inl (newError CodeNotFound ''conversation not found'' False 0), s1)
         | Some conv \<Rightarrow>
             if \<not> actorCanAccessConversation s1 (TrimSpace (lm_ActorAgentID input)) (Some conv) then
               (Inl (newError CodeNotFound ''conversation not found'' False 0), s1)
             else
               (let ids = get_or [] (s_conversationMessages s1) (c_ConversationID conv);
                    n = int (length ids);
                    cursor = page_start (lm_Cursor input) n;
                    stop = (if cursor + limit > n then n else cursor + limit)
                in (Inr (c_ConversationID conv,
                         List.map_filter (map_of (s_messages s1))
                           (take (nat (stop - cursor)) (drop (nat cursor) ids)),
                         stop), s1))))"

end
