(* ===== verification/Bus_Delivery.thy ===== *)
theory Bus_Delivery
  imports Bus_Conversations
begin

text \<open>
  Accepting messages: \<^verbatim>\<open>sendMessage\<close> and \<^verbatim>\<open>inject\<close> of \<^verbatim>\<open>pkg/bus/store.go\<close>.

  Each is split where the code's comments split it: checks before the lock (\<open>send_check\<close>),
  authorization and deduplication under it (\<open>send_authorize\<close>, \<open>dedup_hit\<close>), the plan (\<open>send_plan\<close>, a
  \<open>send_acceptance\<close>), the durability barrier, and the step that makes the accepted message visible
  (\<open>accept_send\<close>). A barrier acts on the state \<open>'d\<close> of the durable backend, which is arbitrary
  here; it fails with an error or succeeds, possibly asking for push receipts. The in-memory store
  has no barrier (\<open>None\<close>).
\<close>

type_synonym 'd barrier = "(send_acceptance \<Rightarrow> 'd \<Rightarrow> (bus_error + string option) \<times> 'd) option"

definition message_id :: "int \<Rightarrow> string" where
  "message_id n = ''m-'' @ fmt_06d n"

definition dedupeKey :: "string \<Rightarrow> string \<Rightarrow> string \<Rightarrow> string" where
  "dedupeKey from to requestID = from @ [CHR 0x1F] @ to @ [CHR 0x1F] @ requestID"

definition run_barrier ::
  "'d barrier \<Rightarrow> send_acceptance \<Rightarrow> 'd \<Rightarrow> (bus_error + send_acceptance) \<times> 'd" where
  "run_barrier commit acceptance d =
     (case commit of
        None \<Rightarrow> (Inr acceptance, d)
      | Some f \<Rightarrow>
          (case f acceptance d of
             (Inl err, d') \<Rightarrow> (Inl err, d')
           | (Inr receipt, d') \<Rightarrow> (Inr (acceptance\<lparr>sa_pushReceipt := receipt\<rparr>), d')))"

section \<open>sendMessage\<close>

definition send_type :: "send_message_input \<Rightarrow> message_type" where
  "send_type input =
     (if sm_Type input = MessageTypeOther [] then MessageTypeRequest else sm_Type input)"

definition send_ttl :: "send_message_input \<Rightarrow> store \<Rightarrow> int" where
  "send_ttl input s =
     (if sm_TTLSeconds input \<le> 0 then dur_seconds (cfg_DefaultMessageTTL (s_cfg s))
      else sm_TTLSeconds input)"

definition send_check :: "send_message_input \<Rightarrow> store \<Rightarrow> bus_error option" where
  "send_check input s =
     (let to = TrimSpace (sm_To input); from = TrimSpace (sm_From input); msgType = send_type input in
      if to = [] then Some (newError CodeValidation ''to is required'' False 0)
      else if \<not> acceptsName s to then
        Some (newError CodeValidation ''to must be prefixed with personal., ucla., or shared.'' False 0)
      else if from = [] then Some (newError CodeValidation ''from is required'' False 0)
      else if \<not> acceptsName s from then
        Some (newError CodeValidation ''from must be prefixed with personal., ucla., or shared.'' False 0)
      else if TrimSpace (sm_RequestID input) = [] then
        Some (newError CodeValidation ''request_id is required'' False 0)
      else if TrimSpace (sm_Body input) = [] then
        Some (newError CodeValidation ''body is required'' False 0)
      else if msgType \<noteq> MessageTypeRequest \<and> msgType \<noteq> MessageTypeResponse \<and>
              msgType \<noteq> MessageTypeInform then
        Some (newError CodeValidation ''type must be request, response, or inform'' False 0)
      else None)"

text \<open>The sender and the target, under the lock: who may send to whom. The result is the target.\<close>

definition send_authorize :: "string \<Rightarrow> string \<Rightarrow> store \<Rightarrow> bus_error + agent" where
  "send_authorize from to s =
     (case map_of (s_agents s) from of
        None \<Rightarrow> Inl (newError CodeUnauthorized ''sender is not registered/active'' False 0)
      | Some sender \<Rightarrow>
          if a_Status sender \<noteq> AgentStatusActive then
            Inl (newError CodeUnauthorized ''sender is not registered/active'' False 0)
          else (case authorizeAgentForName s (a_AgentID sender) from of
            Some err \<Rightarrow> Inl err
          | None \<Rightarrow>
              (case authorizeSendTarget s (a_AgentID sender) to of
                 Some err \<Rightarrow> Inl err
               | None \<Rightarrow>
                   (case map_of (s_agents s) to of
                      None \<Rightarrow> Inl (newError CodeNotFound ''target agent not registered'' False 0)
                    | Some target \<Rightarrow> Inr target))))"

definition zero_message :: message where
  "zero_message =
     \<lparr>m_MessageID = [], m_Type = MessageTypeOther [], m_From = [], m_To = [], m_ConversationID = [],
      m_RequestID = [], m_InReplyTo = [], m_Body = [], m_Meta = JNull, m_Attachments = [],
      m_State = StateOther [], m_CreatedAt = 0, m_TerminalAt = 0, m_DeliveredAt = 0,
      m_LastProgressAt = 0, m_TTLExpiresAt = 0, m_GraceUntil = 0, m_QueuedForAgent = False\<rparr>"

text \<open>
  A repeated request inside the idempotency window: the message it was accepted as, or what is
  left of it when retention has reclaimed the message.
\<close>

definition dedup_hit :: "time \<Rightarrow> string \<Rightarrow> string \<Rightarrow> string \<Rightarrow> store \<Rightarrow> message option" where
  "dedup_hit now from to requestID s =
     (case map_of (s_idempotency s) (dedupeKey from to requestID) of
        None \<Rightarrow> None
      | Some dedup \<Rightarrow>
          if Sub now (ie_CreatedAt dedup) \<le> cfg_IdempotencyWindow (s_cfg s) then
            (case map_of (s_messages s) (ie_MessageID dedup) of
               Some existing \<Rightarrow> Some existing
             | None \<Rightarrow>
                 Some (zero_message\<lparr>m_MessageID := ie_MessageID dedup, m_From := from, m_To := to,
                                    m_RequestID := requestID, m_CreatedAt := ie_CreatedAt dedup\<rparr>))
          else None)"

definition send_conversation ::
  "time \<Rightarrow> string \<Rightarrow> string \<Rightarrow> string \<Rightarrow> store \<Rightarrow> bus_error + int \<times> conversation" where
  "send_conversation now from to requested s =
     (let id0 = TrimSpace requested;
          nextConv = (if id0 = [] then s_nextConversationID s + 1 else s_nextConversationID s);
          conversationID = (if id0 = [] then conversation_id nextConv else id0)
      in case map_of (s_conversations s) conversationID of
           Some existing \<Rightarrow>
             (case authorizeActorForNames s from (c_Participants existing) of
                Some err \<Rightarrow> Inl err
              | None \<Rightarrow>
                  (case authorizeActorForNames s from [from, to] of
                     Some err \<Rightarrow> Inl err
                   | None \<Rightarrow> Inr (nextConv, mergeConversationParticipantsLocked existing [from, to])))
         | None \<Rightarrow>
             (case authorizeActorForNames s from [from] of
                Some err \<Rightarrow> Inl err
              | None \<Rightarrow>
                  Inr (nextConv,
                       \<lparr>c_ConversationID = conversationID, c_Title = [], c_Participants = [from, to],
                        c_Status = ''active'', c_MessageCount = 0, c_CreatedAt = now,
                        c_LastMessageAt = now, c_Meta = JNull\<rparr>)))"

definition attachment_json :: "attachment \<Rightarrow> json" where
  "attachment_json a =
     JStruct ([(''url'', JStr (at_URL a))]
       @ (if at_Name a = [] then [] else [(''name'', JStr (at_Name a))])
       @ (if at_ContentType a = [] then [] else [(''content_type'', JStr (at_ContentType a))])
       @ (if at_Size a = 0 then [] else [(''size'', JNum (fmt_d (at_Size a)))])
       @ (if at_SHA256 a = [] then [] else [(''sha256'', JStr (at_SHA256 a))]))"

definition push_payload :: "message \<Rightarrow> bool \<Rightarrow> json" where
  "push_payload m with_attachments =
     JMap ([(''message_id'', JStr (m_MessageID m)),
            (''request_id'', JStr (m_RequestID m)),
            (''type'', JStr (message_type_str (m_Type m))),
            (''from'', JStr (m_From m)),
            (''conversation_id'', JStr (m_ConversationID m)),
            (''body'', JStr (m_Body m)),
            (''meta'', m_Meta m)]
       @ (if with_attachments then [(''attachments'', JArr (map attachment_json (m_Attachments m)))] else [])
       @ [(''created_at'', JTime (m_CreatedAt m))])"

definition expired_beyond_grace :: "time \<Rightarrow> agent \<Rightarrow> store \<Rightarrow> bool" where
  "expired_beyond_grace now target s =
     (a_Status target = AgentStatusExpired \<and>
      After now (Add (a_ExpiresAt target) (cfg_GracePeriod (s_cfg s))))"

text \<open>The message as it is accepted, before it is known whether the target can be reached.\<close>

definition new_message :: "time \<Rightarrow> send_message_input \<Rightarrow> string \<Rightarrow> int \<Rightarrow> store \<Rightarrow> message" where
  "new_message now input conversationID nextMsg s =
     (let m = \<lparr>m_MessageID = message_id nextMsg, m_Type = send_type input,
               m_From = TrimSpace (sm_From input), m_To = TrimSpace (sm_To input),
               m_ConversationID = conversationID, m_RequestID = TrimSpace (sm_RequestID input),
               m_InReplyTo = TrimSpace (sm_InReplyTo input), m_Body = TrimSpace (sm_Body input),
               m_Meta = sm_Meta input, m_Attachments = [] @ sm_Attachments input,
               m_State = StatePending, m_CreatedAt = now, m_TerminalAt = 0, m_DeliveredAt = 0,
               m_LastProgressAt = 0, m_TTLExpiresAt = Add now (seconds_dur (send_ttl input s)),
               m_GraceUntil = 0, m_QueuedForAgent = False\<rparr>
      in if send_type input \<noteq> MessageTypeRequest
         then m\<lparr>m_State := StateCompleted, m_TerminalAt := now\<rparr> else m)"

definition route_message :: "time \<Rightarrow> agent \<Rightarrow> message \<Rightarrow> store \<Rightarrow> message" where
  "route_message now target m s =
     (if a_Status target = AgentStatusExpired then
        m\<lparr>m_QueuedForAgent := True, m_GraceUntil := Add (a_ExpiresAt target) (cfg_GracePeriod (s_cfg s))\<rparr>
      else if m_Type m = MessageTypeRequest then m\<lparr>m_State := StateWaitingAck, m_DeliveredAt := now\<rparr>
      else m)"

definition send_plan ::
  "time \<Rightarrow> send_message_input \<Rightarrow> agent \<Rightarrow> store \<Rightarrow> bus_error + send_acceptance" where
  "send_plan now input target s =
     (let from = TrimSpace (sm_From input); to = TrimSpace (sm_To input) in
      case send_conversation now from to (sm_ConversationID input) s of
        Inl err \<Rightarrow> Inl err
      | Inr (nextConv, conv) \<Rightarrow>
          if expired_beyond_grace now target s then
            Inl (newError CodeNotFound ''target agent expired beyond grace period'' False 0)
          else
            (let nextMsg = s_nextMessageID s + 1;
                 m = route_message now target
                       (new_message now input (c_ConversationID conv) nextMsg s) s;
                 reachable = a_Status target \<noteq> AgentStatusExpired;
                 pushed = reachable \<and> a_Mode target = AgentModePush \<and> TrimSpace (a_CallbackURL target) \<noteq> [];
                 position = int (length (get_or [] (s_conversationMessages s) (c_ConversationID conv)));
                 conv = conv\<lparr>c_MessageCount := position + 1, c_LastMessageAt := now\<rparr>;
                 conv = (if c_Status conv = [] then conv\<lparr>c_Status := ''active''\<rparr> else conv)
             in Inr \<lparr>sa_message = m, sa_conversation = conv, sa_conversationPos = position,
                     sa_nextConversationID = nextConv, sa_nextMessageID = nextMsg,
                     sa_idempotencyKey = dedupeKey from to (TrimSpace (sm_RequestID input)),
                     sa_idempotency = \<lparr>ie_MessageID = m_MessageID m, ie_CreatedAt = now\<rparr>,
                     sa_inboxEvent = (if reachable then Some (inbox_event_of m) else None),
                     sa_pushURL = (if pushed then TrimSpace (a_CallbackURL target) else []),
                     sa_pushPayload = (if pushed then Some (push_payload m True) else None),
                     sa_pushReceipt = None\<rparr>))"

text \<open>Making an accepted message part of the store; common to sends and injections.\<close>

definition install_message :: "send_acceptance \<Rightarrow> store \<Rightarrow> store" where
  "install_message acc s =
     (let m = sa_message acc; conv = sa_conversation acc; cid = c_ConversationID conv in
      s\<lparr>s_nextConversationID := sa_nextConversationID acc,
        s_nextMessageID := sa_nextMessageID acc,
        s_conversations := AList.update cid conv (s_conversations s),
        s_messages := AList.update (m_MessageID m) m (s_messages s),
        s_conversationMessages := AList.update cid
          (get_or [] (s_conversationMessages s) cid @ [m_MessageID m]) (s_conversationMessages s)\<rparr>)"

definition deliver_inbox :: "string \<Rightarrow> inbox_event option \<Rightarrow> store \<Rightarrow> store" where
  "deliver_inbox to evt s = (case evt of None \<Rightarrow> s | Some e \<Rightarrow> appendInboxLocked to e s)"

definition publish_message :: "time \<Rightarrow> message \<Rightarrow> store \<Rightarrow> store" where
  "publish_message now m s =
     publishLocked ObserveMessage
       (JMap [(''message_id'', JStr (m_MessageID m)),
              (''type'', JStr (message_type_str (m_Type m))),
              (''from'', JStr (m_From m)),
              (''to'', JStr (m_To m)),
              (''conversation_id'', JStr (m_ConversationID m)),
              (''body'', JStr (m_Body m)),
              (''created_at'', JTime (m_CreatedAt m))])
       (m_ConversationID m) [m_From m, m_To m] now s"

text \<open>The push callback of an acceptance, and the deferred \<^verbatim>\<open>finishAcceptance\<close>.\<close>

definition push_and_finish :: "send_acceptance \<Rightarrow> store \<Rightarrow> store" where
  "push_and_finish acc s =
     (case sa_pushPayload acc of
        None \<Rightarrow> finishAcceptance None [] s
      | Some payload \<Rightarrow>
          if sa_pushURL acc = [] then finishAcceptance None [] s
          else
            (let job = \<lparr>pj_url = sa_pushURL acc, pj_payload = payload, pj_receipt = sa_pushReceipt acc\<rparr>;
                 (failure, s') = enqueuePushJobLocked job s
             in if failure \<noteq> [] then finishAcceptance (Some job) failure s'
                else finishAcceptance None [] s'))"

definition accept_send :: "time \<Rightarrow> send_acceptance \<Rightarrow> store \<Rightarrow> store" where
  "accept_send now acc s =
     (let s1 = install_message acc s;
          s2 = s1\<lparr>s_idempotency := AList.update (sa_idempotencyKey acc) (sa_idempotency acc) (s_idempotency s1)\<rparr>;
          s3 = deliver_inbox (m_To (sa_message acc)) (sa_inboxEvent acc) s2
      in push_and_finish acc (publish_message now (sa_message acc) s3))"

definition sendMessage ::
  "orders \<Rightarrow> time \<Rightarrow> 'd barrier \<Rightarrow> send_message_input \<Rightarrow> store \<Rightarrow> 'd \<Rightarrow>
     (bus_error + message \<times> bool) \<times> store \<times> 'd" where
  "sendMessage R now commit input s d =
     (case send_check input s of
        Some err \<Rightarrow> (Inl err, s, d)
      | None \<Rightarrow>
          (let s1 = sweepLocked R now s;
               from = TrimSpace (sm_From input); to = TrimSpace (sm_To input) in
           case send_authorize from to s1 of
             Inl err \<Rightarrow> (Inl err, finishAcceptance None [] s1, d)
           | Inr target \<Rightarrow>
               (case dedup_hit now from to (TrimSpace (sm_RequestID input)) s1 of
                  Some m \<Rightarrow> (Inr (m, True), finishAcceptance None [] s1, d)
                | None \<Rightarrow>
                    (case send_plan now input target s1 of
                       Inl err \<Rightarrow> (Inl err, finishAcceptance None [] s1, d)
                     | Inr acc \<Rightarrow>
                         (case run_barrier commit acc d of
                            (Inl err, d') \<Rightarrow> (Inl err, finishAcceptance None [] s1, d')
                          | (Inr acc', d') \<Rightarrow>
                              (Inr (sa_message acc', False), accept_send now acc' s1, d'))))))"

definition SendMessage ::
  "orders \<Rightarrow> time \<Rightarrow> send_message_input \<Rightarrow> store \<Rightarrow> (bus_error + message \<times> bool) \<times> store" where
  "SendMessage R now input s =
     (case sendMessage R now (None :: unit barrier) input s () of (r, s', _) \<Rightarrow> (r, s'))"

section \<open>inject\<close>

definition inject_check :: "inject_input \<Rightarrow> store \<Rightarrow> bus_error option" where
  "inject_check input s =
     (let identity = TrimSpace (ij_Identity input); to = TrimSpace (ij_To input) in
      if identity = [] \<or> TrimSpace (ij_Body input) = [] then
        Some (newError CodeValidation ''identity and body are required'' False 0)
      else if to \<noteq> [] \<and> \<not> acceptsName s to then
        Some (newError CodeValidation ''to must be prefixed with personal., ucla., or shared.'' False 0)
      else if s_humanAllowlist s \<noteq> [] \<and> identity \<notin> set (s_humanAllowlist s) then
        Some (newError CodeUnauthorized ''human identity not allowed'' False 0)
      else None)"

definition unix_nano :: "time \<Rightarrow> int" where
  \<comment> \<open>\<^verbatim>\<open>UnixNano\<close>, an \<open>int64\<close>\<close>
  "unix_nano t = wrap64 (t - 62135596800 * Second)"

definition inject_conversation :: "time \<Rightarrow> string \<Rightarrow> store \<Rightarrow> int \<times> conversation" where
  "inject_conversation now requested s =
     (let id0 = TrimSpace requested;
          nextConv = (if id0 = [] then s_nextConversationID s + 1 else s_nextConversationID s);
          conversationID = (if id0 = [] then conversation_id nextConv else id0)
      in (nextConv,
          case map_of (s_conversations s) conversationID of
            Some existing \<Rightarrow> existing
          | None \<Rightarrow>
              \<lparr>c_ConversationID = conversationID, c_Title = [], c_Participants = [],
               c_Status = ''active'', c_MessageCount = 0, c_CreatedAt = now,
               c_LastMessageAt = now, c_Meta = JNull\<rparr>))"

definition injected_message :: "time \<Rightarrow> inject_input \<Rightarrow> string \<Rightarrow> int \<Rightarrow> store \<Rightarrow> message" where
  "injected_message now input conversationID nextMsg s =
     \<lparr>m_MessageID = message_id nextMsg, m_Type = MessageTypeInform,
      m_From = ''human:'' @ TrimSpace (ij_Identity input), m_To = TrimSpace (ij_To input),
      m_ConversationID = conversationID, m_RequestID = ''inject-'' @ fmt_d (unix_nano now),
      m_InReplyTo = [], m_Body = TrimSpace (ij_Body input),
      m_Meta = JMap [(''identity'', JStr (TrimSpace (ij_Identity input)))], m_Attachments = [],
      m_State = StateCompleted, m_CreatedAt = now, m_TerminalAt = 0, m_DeliveredAt = 0,
      m_LastProgressAt = 0, m_TTLExpiresAt = Add now (cfg_DefaultMessageTTL (s_cfg s)),
      m_GraceUntil = 0, m_QueuedForAgent = False\<rparr>"

text \<open>Where an injected message goes: nowhere, into a queue, or to a registered agent.\<close>

definition inject_route :: "time \<Rightarrow> message \<Rightarrow> store \<Rightarrow> bus_error + message \<times> agent option" where
  "inject_route now m s =
     (if m_To m = [] then Inr (m, None)
      else (case map_of (s_agents s) (m_To m) of
              None \<Rightarrow> Inl (newError CodeNotFound ''target agent not registered'' False 0)
            | Some target \<Rightarrow>
                if a_Status target = AgentStatusExpired then
                  (if expired_beyond_grace now target s then
                     Inl (newError CodeNotFound ''target agent expired beyond grace period'' False 0)
                   else Inr (m\<lparr>m_QueuedForAgent := True,
                               m_GraceUntil := Add (a_ExpiresAt target) (cfg_GracePeriod (s_cfg s)),
                               m_State := StatePending\<rparr>, None))
                else Inr (m, Some target)))"

definition inject_plan :: "time \<Rightarrow> inject_input \<Rightarrow> store \<Rightarrow> bus_error + send_acceptance" where
  "inject_plan now input s =
     (let (nextConv, conv) = inject_conversation now (ij_ConversationID input) s;
          nextMsg = s_nextMessageID s + 1 in
      case inject_route now (injected_message now input (c_ConversationID conv) nextMsg s) s of
        Inl err \<Rightarrow> Inl err
      | Inr (m0, dest) \<Rightarrow>
          (let m = (if isTerminal (m_State m0) then m0\<lparr>m_TerminalAt := now\<rparr> else m0);
               pushed = (case dest of None \<Rightarrow> False
                         | Some target \<Rightarrow> a_Mode target = AgentModePush \<and> TrimSpace (a_CallbackURL target) \<noteq> []);
               position = int (length (get_or [] (s_conversationMessages s) (c_ConversationID conv)));
               conv = conv\<lparr>c_MessageCount := position + 1, c_LastMessageAt := now\<rparr>
           in Inr \<lparr>sa_message = m, sa_conversation = conv, sa_conversationPos = position,
                   sa_nextConversationID = nextConv, sa_nextMessageID = nextMsg,
                   sa_idempotencyKey = [], sa_idempotency = \<lparr>ie_MessageID = [], ie_CreatedAt = 0\<rparr>,
                   sa_inboxEvent = map_option (\<lambda>_. inbox_event_of m) dest,
                   sa_pushURL = (case dest of Some target \<Rightarrow> if pushed then TrimSpace (a_CallbackURL target) else []
                                 | None \<Rightarrow> []),
                   sa_pushPayload = (if pushed then Some (push_payload m False) else None),
                   sa_pushReceipt = None\<rparr>))"

definition publish_injection :: "time \<Rightarrow> string \<Rightarrow> message \<Rightarrow> store \<Rightarrow> store" where
  "publish_injection now identity m s =
     publishLocked ObserveHumanInjection
       (JMap [(''identity'', JStr identity),
              (''message_id'', JStr (m_MessageID m)),
              (''conversation_id'', JStr (m_ConversationID m)),
              (''to'', JStr (m_To m)),
              (''body'', JStr (m_Body m)),
              (''at'', JTime now)])
       (m_ConversationID m) [m_From m, m_To m] now s"

definition accept_injection :: "time \<Rightarrow> string \<Rightarrow> send_acceptance \<Rightarrow> store \<Rightarrow> store" where
  "accept_injection now identity acc s =
     (let m = sa_message acc;
          s1 = deliver_inbox (m_To m) (sa_inboxEvent acc) (install_message acc s)
      in push_and_finish acc (publish_message now m (publish_injection now identity m s1)))"

definition inject ::
  "orders \<Rightarrow> time \<Rightarrow> 'd barrier \<Rightarrow> inject_input \<Rightarrow> store \<Rightarrow> 'd \<Rightarrow> (bus_error + message) \<times> store \<times> 'd" where
  "inject R now commit input s d =
     (case inject_check input s of
        Some err \<Rightarrow> (Inl err, s, d)
      | None \<Rightarrow>
          (let s1 = sweepLocked R now s in
           case inject_plan now input s1 of
             Inl err \<Rightarrow> (Inl err, finishAcceptance None [] s1, d)
           | Inr acc \<Rightarrow>
               (case run_barrier commit acc d of
                  (Inl err, d') \<Rightarrow> (Inl err, finishAcceptance None [] s1, d')
                | (Inr acc', d') \<Rightarrow>
                    (Inr (sa_message acc'), accept_injection now (TrimSpace (ij_Identity input)) acc' s1, d'))))"

definition Inject ::
  "orders \<Rightarrow> time \<Rightarrow> inject_input \<Rightarrow> store \<Rightarrow> (bus_error + message) \<times> store" where
  "Inject R now input s =
     (case inject R now (None :: unit barrier) input s () of (r, s', _) \<Rightarrow> (r, s'))"

end
