(* ===== verification/Bus_Inbox.thy ===== *)
theory Bus_Inbox
  imports Bus_Delivery
begin

text \<open>
  The receiving side: \<^verbatim>\<open>pollInbox\<close>, \<^verbatim>\<open>ack\<close>, \<^verbatim>\<open>postEvent\<close>, \<^verbatim>\<open>eventMatchesFilter\<close> and
  \<^verbatim>\<open>ObserveSince\<close> of \<^verbatim>\<open>pkg/bus/store.go\<close>.

  The two long polls hold the lock for one turn at a time and sleep on a channel in between. A turn
  (\<open>poll_turn\<close>, \<open>observe_turn\<close>) is a function of the store; it ends the call or blocks on a
  channel. The loop runs over a list of turns, each with what the world does while the call
  sleeps: the steps of the other goroutines, the clock readings, and whether the timer fires. A
  list that runs out, or a channel nobody closed, leaves the call blocked (\<open>None\<close>).
\<close>

type_synonym 'd message_barrier = "(message \<Rightarrow> 'd \<Rightarrow> bus_error option \<times> 'd) option"
type_synonym 'd cursor_barrier = "(string \<Rightarrow> int \<Rightarrow> 'd \<Rightarrow> bus_error option \<times> 'd) option"

definition run_message_barrier :: "'d message_barrier \<Rightarrow> message \<Rightarrow> 'd \<Rightarrow> bus_error option \<times> 'd" where
  "run_message_barrier commit m d = (case commit of None \<Rightarrow> (None, d) | Some f \<Rightarrow> f m d)"

section \<open>pollInbox\<close>

datatype 'r turn_result = Done 'r | Blocked nat int

record 'd turn =
  tn_orders :: orders
  tn_now :: time
  tn_later :: time
  tn_others :: "store \<times> 'd \<Rightarrow> store \<times> 'd"
  tn_timer :: bool

definition poll_check :: "poll_inbox_input \<Rightarrow> store \<Rightarrow> bus_error option" where
  "poll_check input s =
     (let agentID = TrimSpace (pi_AgentID input) in
      if agentID = [] then Some (newError CodeValidation ''agent_id is required'' False 0)
      else if \<not> acceptsName s agentID then
        Some (newError CodeValidation ''agent_id must be prefixed with personal., ucla., or shared.'' False 0)
      else None)"

definition clamp_wait :: "duration \<Rightarrow> store \<Rightarrow> duration" where
  "clamp_wait requested s =
     (let wait = (if requested < 0 then 0 else requested) in
      if wait > cfg_InboxWaitMax (s_cfg s) then cfg_InboxWaitMax (s_cfg s) else wait)"

definition clamp_cursor :: "int \<Rightarrow> int \<Rightarrow> int \<Rightarrow> int" where
  "clamp_cursor requested base stop =
     (let cursor = (if requested < base then base else requested) in
      if cursor > stop then stop else cursor)"

definition limit_page :: "int \<Rightarrow> 'e list \<Rightarrow> 'e list" where
  "limit_page limit xs = (if limit > 0 \<and> int (length xs) > limit then take (nat limit) xs else xs)"

definition run_advance ::
  "'d cursor_barrier \<Rightarrow> string \<Rightarrow> int \<Rightarrow> int \<Rightarrow> 'd \<Rightarrow> bus_error option \<times> 'd" where
  "run_advance advance agentID cursor base d =
     (if cursor > base then (case advance of None \<Rightarrow> (None, d) | Some f \<Rightarrow> f agentID cursor d)
      else (None, d))"

definition poll_turn ::
  "orders \<Rightarrow> time \<Rightarrow> time \<Rightarrow> 'd cursor_barrier \<Rightarrow> poll_inbox_input \<Rightarrow> time \<Rightarrow> duration \<Rightarrow> store \<Rightarrow> 'd \<Rightarrow>
     (bus_error + inbox_event list \<times> int) turn_result \<times> store \<times> 'd" where
  "poll_turn R now later advance input deadline wait s d =
     (let agentID = TrimSpace (pi_AgentID input); s1 = sweepLocked R now s in
      case map_of (s_agents s1) agentID of
        None \<Rightarrow> (Done (Inl (newError CodeUnauthorized ''agent is not registered/active'' False 0)), s1, d)
      | Some agent \<Rightarrow>
          if a_Status agent \<noteq> AgentStatusActive then
            (Done (Inl (newError CodeUnauthorized ''agent is not registered/active'' False 0)), s1, d)
          else (case authorizeAgentForName s1 (a_AgentID agent) agentID of
            Some err \<Rightarrow> (Done (Inl err), s1, d)
          | None \<Rightarrow>
              (let base = inbox_base s1 agentID;
                   stop = base + int (length (inbox_of s1 agentID));
                   cursor = clamp_cursor (pi_Cursor input) base stop
               in case run_advance advance agentID cursor base d of
                    (Some err, d') \<Rightarrow> (Done (Inl err), s1, d')
                  | (None, d') \<Rightarrow>
                      (let s2 = (if cursor > base then dropInboxPrefixLocked agentID (cursor - base) s1 else s1);
                           base' = (if cursor > base then cursor else base) in
                       if cursor < stop then
                         (let out = limit_page (pi_Limit input)
                                (drop (nat (cursor - base')) (inbox_of s2 agentID))
                          in (Done (Inr (out, cursor + int (length out))), s2, d'))
                       else if wait = 0 then (Done (Inr ([], cursor)), s2, d')
                       else if Sub deadline later \<le> 0 then (Done (Inr ([], cursor)), s2, d')
                       else (case inboxNotifyChanLocked agentID s2 of
                               (ch, s3) \<Rightarrow> (Blocked ch cursor, s3, d'))))))"

fun poll_loop ::
  "'d cursor_barrier \<Rightarrow> poll_inbox_input \<Rightarrow> time \<Rightarrow> duration \<Rightarrow> 'd turn list \<Rightarrow> store \<Rightarrow> 'd \<Rightarrow>
     (bus_error + inbox_event list \<times> int) option \<times> store \<times> 'd" where
  "poll_loop advance input deadline wait [] s d = (None, s, d)"
| "poll_loop advance input deadline wait (t # ts) s d =
     (case poll_turn (tn_orders t) (tn_now t) (tn_later t) advance input deadline wait s d of
        (Done r, s', d') \<Rightarrow> (Some r, s', d')
      | (Blocked ch cursor, s', d') \<Rightarrow>
          (case tn_others t (s', d') of
             (s'', d'') \<Rightarrow>
               if tn_timer t then (Some (Inr ([], cursor)), s'', d'')
               else if ch \<in> set (s_closedChans s'') then poll_loop advance input deadline wait ts s'' d''
               else (None, s'', d'')))"

definition pollInbox ::
  "time \<Rightarrow> 'd cursor_barrier \<Rightarrow> poll_inbox_input \<Rightarrow> 'd turn list \<Rightarrow> store \<Rightarrow> 'd \<Rightarrow>
     (bus_error + inbox_event list \<times> int) option \<times> store \<times> 'd" where
  "pollInbox start advance input ts s d =
     (case poll_check input s of
        Some err \<Rightarrow> (Some (Inl err), s, d)
      | None \<Rightarrow>
          (let wait = clamp_wait (pi_Wait input) s in
           poll_loop advance input (Add start wait) wait ts s d))"

section \<open>ack\<close>

definition publish_transition :: "time \<Rightarrow> message_state \<Rightarrow> message \<Rightarrow> store \<Rightarrow> store" where
  "publish_transition now from m s =
     publishLocked ObserveStateChange
       (JMap [(''message_id'', JStr (m_MessageID m)),
              (''from_state'', JStr (message_state_str from)),
              (''to_state'', JStr (message_state_str (m_State m))),
              (''at'', JTime now)])
       (m_ConversationID m) [m_From m, m_To m] now s"

definition acked :: "time \<Rightarrow> string \<Rightarrow> message \<Rightarrow> message" where
  "acked now status m =
     (let m1 = m\<lparr>m_QueuedForAgent := False\<rparr>;
          m2 = (if IsZero (m_DeliveredAt m1) then m1\<lparr>m_DeliveredAt := now\<rparr> else m1)
      in if status = ''rejected'' then m2\<lparr>m_State := StateRejected, m_TerminalAt := now\<rparr>
         else m2\<lparr>m_State := StateExecuting\<rparr>)"

definition ack_check :: "ack_input \<Rightarrow> bus_error option" where
  "ack_check input =
     (let status = TrimSpace (ak_Status input) in
      if TrimSpace (ak_AgentID input) = [] \<or> TrimSpace (ak_MessageID input) = [] then
        Some (newError CodeValidation ''agent_id and message_id are required'' False 0)
      else if status \<noteq> ''accepted'' \<and> status \<noteq> ''rejected'' then
        Some (newError CodeValidation ''status must be accepted or rejected'' False 0)
      else None)"

definition ack ::
  "orders \<Rightarrow> time \<Rightarrow> 'd message_barrier \<Rightarrow> ack_input \<Rightarrow> store \<Rightarrow> 'd \<Rightarrow> bus_error option \<times> store \<times> 'd" where
  "ack R now commit input s d =
     (case ack_check input of
        Some err \<Rightarrow> (Some err, s, d)
      | None \<Rightarrow>
          (let agentID = TrimSpace (ak_AgentID input); messageID = TrimSpace (ak_MessageID input);
               status = TrimSpace (ak_Status input); s1 = sweepLocked R now s in
           case map_of (s_messages s1) messageID of
             None \<Rightarrow> (Some (newError CodeNotFound ''message not found'' False 0), s1, d)
           | Some m \<Rightarrow>
               if m_Type m \<noteq> MessageTypeRequest then
                 (Some (newError CodeValidation ''acks only apply to request messages'' False 0), s1, d)
               else if m_To m \<noteq> agentID then
                 (Some (newError CodeUnauthorized ''agent_id does not own this message'' False 0), s1, d)
               else if isTerminal (m_State m) then (None, s1, d)
               else
                 (let next = acked now status m in
                  case run_message_barrier commit next d of
                    (Some err, d') \<Rightarrow> (Some err, s1, d')
                  | (None, d') \<Rightarrow>
                      (let s2 = s1\<lparr>s_messages := AList.update messageID next (s_messages s1)\<rparr>;
                           s3 = publishLocked ObserveAck
                                  (JMap [(''message_id'', JStr (m_MessageID next)),
                                         (''agent_id'', JStr agentID),
                                         (''status'', JStr status),
                                         (''at'', JTime now)])
                                  (m_ConversationID next) [m_From next, m_To next] now s2
                       in (None, publish_transition now (m_State m) next s3, d')))))"

section \<open>postEvent\<close>

definition event_check :: "event_input \<Rightarrow> bus_error option" where
  "event_check input =
     (let typeRaw = TrimSpace (ev_Type input) in
      if TrimSpace (ev_ActorAgentID input) = [] then
        Some (newError CodeUnauthorized ''X-Agent-ID is required'' False 0)
      else if TrimSpace (ev_MessageID input) = [] \<or> typeRaw = [] \<or> TrimSpace (ev_Body input) = [] then
        Some (newError CodeValidation ''message_id, type, and body are required'' False 0)
      else if typeRaw \<noteq> ''progress'' \<and> typeRaw \<noteq> ''final'' \<and> typeRaw \<noteq> ''error'' then
        Some (newError CodeValidation ''type must be progress, final, or error'' False 0)
      else None)"

text \<open>The transition an event asks for, or the error of a progress report that comes too soon.\<close>

definition event_transition :: "config \<Rightarrow> time \<Rightarrow> string \<Rightarrow> message \<Rightarrow> bus_error + message" where
  "event_transition cfg now typeRaw m =
     (if typeRaw = ''progress'' then
        (if \<not> IsZero (m_LastProgressAt m) \<and> Sub now (m_LastProgressAt m) < cfg_ProgressMinInterval cfg then
           Inl (newError CodeRateLimited ''progress event too frequent'' True
                  (wrap64 (cfg_ProgressMinInterval cfg - Sub now (m_LastProgressAt m))))
         else
           (let m1 = (if m_State m = StateWaitingAck then m\<lparr>m_State := StateExecuting\<rparr> else m)
            in Inr (m1\<lparr>m_LastProgressAt := now\<rparr>)))
      else if typeRaw = ''final'' then Inr (m\<lparr>m_State := StateCompleted, m_TerminalAt := now\<rparr>)
      else if typeRaw = ''error'' then Inr (m\<lparr>m_State := StateError, m_TerminalAt := now\<rparr>)
      else Inr m)"

definition publish_event :: "time \<Rightarrow> event_input \<Rightarrow> message_state \<Rightarrow> message \<Rightarrow> store \<Rightarrow> store" where
  "publish_event now input from m s =
     (let body = TrimSpace (ev_Body input) in
      if TrimSpace (ev_Type input) = ''progress'' then
        publishLocked ObserveProgress
          (JMap [(''message_id'', JStr (m_MessageID m)), (''body'', JStr body),
                 (''meta'', ev_Meta input), (''at'', JTime now)])
          (m_ConversationID m) [m_From m, m_To m] now
          (if from \<noteq> m_State m then publish_transition now from m s else s)
      else
        publishLocked ObserveStateChange
          (JMap [(''message_id'', JStr (m_MessageID m)),
                 (''from_state'', JStr (message_state_str from)),
                 (''to_state'', JStr (message_state_str (m_State m))),
                 (''at'', JTime now), (''body'', JStr body), (''meta'', ev_Meta input)])
          (m_ConversationID m) [m_From m, m_To m] now s)"

definition postEvent ::
  "orders \<Rightarrow> time \<Rightarrow> 'd message_barrier \<Rightarrow> event_input \<Rightarrow> store \<Rightarrow> 'd \<Rightarrow> bus_error option \<times> store \<times> 'd" where
  "postEvent R now commit input s d =
     (case event_check input of
        Some err \<Rightarrow> (Some err, s, d)
      | None \<Rightarrow>
          (let messageID = TrimSpace (ev_MessageID input); s1 = sweepLocked R now s in
           case map_of (s_messages s1) messageID of
             None \<Rightarrow> (Some (newError CodeNotFound ''message not found'' False 0), s1, d)
           | Some m \<Rightarrow>
               if m_To m \<noteq> TrimSpace (ev_ActorAgentID input) then
                 (Some (newError CodeUnauthorized ''actor does not own this message'' False 0), s1, d)
               else if m_Type m \<noteq> MessageTypeRequest then
                 (Some (newError CodeValidation ''events only apply to request messages'' False 0), s1, d)
               else if isTerminal (m_State m) then
                 (case run_message_barrier commit m d of (e, d') \<Rightarrow> (e, s1, d'))
               else
                 (case event_transition (s_cfg s1) now (TrimSpace (ev_Type input)) m of
                    Inl err \<Rightarrow> (Some err, s1, d)
                  | Inr next \<Rightarrow>
                      (case run_message_barrier commit next d of
                         (Some err, d') \<Rightarrow> (Some err, s1, d')
                       | (None, d') \<Rightarrow>
                           (None,
                            publish_event now input (m_State m) next
                              (s1\<lparr>s_messages := AList.update messageID next (s_messages s1)\<rparr>), d')))))"

section \<open>ObserveSince\<close>

fun agent_named :: "string \<Rightarrow> string list \<Rightarrow> bool" where
  "agent_named a [] = False"
| "agent_named a (i # is) = (if i = a then True else agent_named a is)"

definition eventMatchesFilter :: "store \<Rightarrow> observe_event \<Rightarrow> observe_filter \<Rightarrow> bool" where
  "eventMatchesFilter s evt flt =
     (if of_ConversationID flt \<noteq> [] \<and> o_ConversationID evt \<noteq> of_ConversationID flt then False
      else if of_AgentID flt \<noteq> [] then
        (if agent_named (of_AgentID flt) (o_AgentIDs evt)
         then actorCanAccessAllNames s (of_ActorAgentID flt) (o_AgentIDs evt) else False)
      else actorCanAccessAllNames s (of_ActorAgentID flt) (o_AgentIDs evt))"

definition observe_select :: "store \<Rightarrow> int \<Rightarrow> observe_filter \<Rightarrow> observe_event list \<times> int" where
  "observe_select s afterID flt =
     (let idx = sort_Search (length (s_observeEvents s)) (\<lambda>i. o_ID (s_observeEvents s ! i) > afterID) in
      fold (\<lambda>evt (out, lastID). if \<not> eventMatchesFilter s evt flt then (out, lastID) else (out @ [evt], o_ID evt))
        (drop idx (s_observeEvents s)) ([], afterID))"

definition observe_turn ::
  "orders \<Rightarrow> time \<Rightarrow> time \<Rightarrow> int \<Rightarrow> observe_filter \<Rightarrow> time \<Rightarrow> duration \<Rightarrow> store \<Rightarrow>
     (observe_event list \<times> int) turn_result \<times> store" where
  "observe_turn R now later afterID flt deadline wait s =
     (let s1 = sweepLocked R now s; (out, lastID) = observe_select s1 afterID flt in
      if out \<noteq> [] then (Done (out, lastID), s1)
      else if wait = 0 then (Done (out, lastID), s1)
      else if Sub deadline later \<le> 0 then (Done (out, lastID), s1)
      else (Blocked (s_observeNotify s1) lastID, s1))"

fun observe_loop ::
  "int \<Rightarrow> observe_filter \<Rightarrow> time \<Rightarrow> duration \<Rightarrow> unit turn list \<Rightarrow> store \<Rightarrow>
     (observe_event list \<times> int) option \<times> store" where
  "observe_loop afterID flt deadline wait [] s = (None, s)"
| "observe_loop afterID flt deadline wait (t # ts) s =
     (case observe_turn (tn_orders t) (tn_now t) (tn_later t) afterID flt deadline wait s of
        (Done r, s') \<Rightarrow> (Some r, s')
      | (Blocked ch lastID, s') \<Rightarrow>
          (let s'' = fst (tn_others t (s', ())) in
           if tn_timer t then (Some ([], lastID), s'')
           else if ch \<in> set (s_closedChans s'') then observe_loop afterID flt deadline wait ts s''
           else (None, s'')))"

definition ObserveSince ::
  "time \<Rightarrow> int \<Rightarrow> observe_filter \<Rightarrow> duration \<Rightarrow> unit turn list \<Rightarrow> store \<Rightarrow>
     (observe_event list \<times> int) option \<times> store" where
  "ObserveSince start afterID flt requested ts s =
     (let wait = clamp_wait requested s in observe_loop afterID flt (Add start wait) wait ts s)"

section \<open>Lemmas\<close>

definition may_poll :: "store \<Rightarrow> string \<Rightarrow> bool" where
  "may_poll s a \<longleftrightarrow>
     (\<exists>ag. map_of (s_agents s) a = Some ag \<and> a_Status ag = AgentStatusActive \<and>
           authorizeAgentForName s (a_AgentID ag) a = None)"

text \<open>A turn of an agent that may poll, on a store without a barrier.\<close>

lemma poll_turn_ready:
  fixes R :: orders and now :: time and s :: store and input :: poll_inbox_input
  defines "s1 \<equiv> sweepLocked R now s" and "a \<equiv> TrimSpace (pi_AgentID input)"
  defines "c \<equiv> clamp_cursor (pi_Cursor input) (inbox_base s1 a) (inbox_base s1 a + int (length (inbox_of s1 a)))"
  defines "s2 \<equiv> dropInboxPrefixLocked a (c - inbox_base s1 a) s1"
  assumes "may_poll s1 a"
  shows "poll_turn R now later None input deadline wait s d =
    (if c < inbox_base s1 a + int (length (inbox_of s1 a)) then
       (let out = limit_page (pi_Limit input) (inbox_of s2 a)
        in (Done (Inr (out, c + int (length out))), s2, d))
     else if wait = 0 \<or> Sub deadline later \<le> 0 then (Done (Inr ([], c)), s2, d)
     else (case inboxNotifyChanLocked a s2 of (ch, s3) \<Rightarrow> (Blocked ch c, s3, d)))"
proof -
  have base: "inbox_base s1 a \<le> c" by (simp add: c_def clamp_cursor_def Let_def)
  then have s2: "s2 = (if c > inbox_base s1 a then dropInboxPrefixLocked a (c - inbox_base s1 a) s1 else s1)"
    by (auto simp: s2_def dropInboxPrefixLocked_def Let_def)
  obtain ag where "map_of (s_agents s1) a = Some ag" "a_Status ag = AgentStatusActive"
    "authorizeAgentForName s1 (a_AgentID ag) a = None"
    using assms(5) by (auto simp: may_poll_def)
  then show ?thesis
    unfolding poll_turn_def Let_def s1_def [symmetric] a_def [symmetric] c_def [symmetric] s2 [symmetric]
    using base by (simp add: run_advance_def)
qed

text \<open>The loop of \<^verbatim>\<open>ObserveSince\<close> is a filter, and the last identifier it saw is that of its last event.\<close>

lemma observe_fold:
  "fold (\<lambda>evt (out, lastID). if \<not> P evt then (out, lastID) else (out @ [evt], o_ID evt)) es (acc, l) =
     (acc @ filter P es, if filter P es = [] then l else o_ID (last (filter P es)))"
  by (induction es arbitrary: acc l) auto

lemma observe_select_filter:
  "observe_select s afterID flt =
     (let out = filter (\<lambda>e. eventMatchesFilter s e flt)
        (drop (sort_Search (length (s_observeEvents s)) (\<lambda>i. o_ID (s_observeEvents s ! i) > afterID))
           (s_observeEvents s))
      in (out, if out = [] then afterID else o_ID (last out)))"
  by (simp add: observe_select_def observe_fold Let_def)

lemma agent_named_iff: "agent_named a is \<longleftrightarrow> a \<in> set is"
  by (induction "is") auto

end
