(* ===== verification/Bus_Push.thy ===== *)
theory Bus_Push
  imports Bus_Inbox
begin

text \<open>
  Push callbacks: the worker pool of \<^verbatim>\<open>NewStore\<close>, \<^verbatim>\<open>sendPushCallback\<close> and \<^verbatim>\<open>closePushWorkers\<close>
  of \<^verbatim>\<open>pkg/bus/store.go\<close>.

  What the network does in attempt \<open>n\<close> is given by a function \<open>net\<close>: whether the request could be
  built, the client's error and the response status, and whether the shutdown cancelled the
  context by then or during the pause that follows. \<open>push_loop\<close> is the retry loop; it returns how
  the delivery ended and the pauses it slept. \<open>worker_take\<close>, \<open>worker_finish\<close> and
  \<open>background_finish\<close> are the atomic steps of the goroutines, and \<open>close_begin\<close>, \<open>close_timeout\<close>
  and \<open>close_end\<close> the three points at which \<^verbatim>\<open>closePushWorkers\<close> touches the store.
\<close>

section \<open>sendPushCallback\<close>

record push_attempt =
  pa_built :: bool
  pa_err :: bool
  pa_status :: "int option"
  pa_cancelled :: bool
  pa_cancelledInPause :: bool

datatype push_end =
    PushDelivered int
  | PushMarshalFailed
  | PushBuildFailed int
  | PushInterrupted int
  | PushExhausted int

definition attempt_succeeded :: "push_attempt \<Rightarrow> bool" where
  "attempt_succeeded a =
     (\<not> pa_err a \<and> (case pa_status a of None \<Rightarrow> False | Some st \<Rightarrow> 200 \<le> st \<and> st < 300))"

function push_loop ::
  "(int \<Rightarrow> push_attempt) \<Rightarrow> int \<Rightarrow> int \<Rightarrow> duration \<Rightarrow> push_end \<times> duration list" where
  "push_loop net maxAttempts attempt backoff =
     (if attempt \<le> maxAttempts then
        (let a = net attempt in
         if \<not> pa_built a then (PushBuildFailed attempt, [])
         else if attempt_succeeded a then (PushDelivered attempt, [])
         else if pa_cancelled a then (PushInterrupted attempt, [])
         else if attempt = maxAttempts then (PushExhausted maxAttempts, [])
         else if pa_cancelledInPause a then (PushInterrupted attempt, [])
         else (case push_loop net maxAttempts (attempt + 1) (wrap64 (backoff * 2)) of
                 (e, pauses) \<Rightarrow> (e, backoff # pauses)))
      else (PushExhausted maxAttempts, []))"
  by pat_completeness auto
termination
  by (relation "measure (\<lambda>(net, maxAttempts, attempt, backoff). nat (maxAttempts + 1 - attempt))") auto

declare push_loop.simps [simp del]

definition push_run :: "(int \<Rightarrow> push_attempt) \<Rightarrow> config \<Rightarrow> push_job \<Rightarrow> push_end \<times> duration list" where
  "push_run net cfg job =
     (case Marshal (pj_payload job) of
        None \<Rightarrow> (PushMarshalFailed, [])
      | Some _ \<Rightarrow> push_loop net (cfg_PushMaxAttempts cfg) 1 (cfg_PushBaseBackoff cfg))"

text \<open>The receipt the job's callback writes: attempts made and the failure, empty on success.\<close>

fun push_result :: "push_end \<Rightarrow> int \<times> string" where
  "push_result (PushDelivered n) = (n, '''')"
| "push_result PushMarshalFailed = (0, ''marshal callback payload'')"
| "push_result (PushBuildFailed n) = (n, ''build callback request'')"
| "push_result (PushInterrupted n) = (n, ''push delivery interrupted by shutdown'')"
| "push_result (PushExhausted n) = (n, ''callback retries exhausted'')"

definition sendPushCallback ::
  "(int \<Rightarrow> push_attempt) \<Rightarrow> push_job \<Rightarrow> store \<Rightarrow> push_receipt option \<times> store" where
  "sendPushCallback net job s =
     (let e = fst (push_run net (s_cfg s) job) in
      (map_option (\<lambda>mid. \<lparr>pr_MessageID = mid, pr_attempts = fst (push_result e),
                          pr_failure = snd (push_result e)\<rparr>) (pj_receipt job),
       (case e of
          PushDelivered _ \<Rightarrow> s\<lparr>s_pushSuccesses := s_pushSuccesses s + 1\<rparr>
        | PushExhausted _ \<Rightarrow> s\<lparr>s_pushFailures := s_pushFailures s + 1\<rparr>
        | _ \<Rightarrow> s)))"

section \<open>The worker pool\<close>

definition worker_take :: "store \<Rightarrow> store option" where
  "worker_take s =
     (case s_pushQueue s of
        [] \<Rightarrow> None
      | job # queue \<Rightarrow>
          if int (length (s_pushInflight s)) < cfg_PushWorkers (s_cfg s)
          then Some (s\<lparr>s_pushQueue := queue, s_pushInflight := s_pushInflight s @ [job]\<rparr>)
          else None)"

definition remove_nth :: "nat \<Rightarrow> 'a list \<Rightarrow> 'a list" where
  "remove_nth i xs = take i xs @ drop (Suc i) xs"

definition worker_finish ::
  "(int \<Rightarrow> push_attempt) \<Rightarrow> nat \<Rightarrow> store \<Rightarrow> (push_receipt option \<times> store) option" where
  "worker_finish net i s =
     (if i < length (s_pushInflight s) then
        (case sendPushCallback net (s_pushInflight s ! i) s of
           (r, s1) \<Rightarrow> Some (r, s1\<lparr>s_pushInflight := remove_nth i (s_pushInflight s1),
                                 s_pushWG := s_pushWG s1 - 1\<rparr>))
      else None)"

definition background_finish :: "nat \<Rightarrow> store \<Rightarrow> (push_receipt \<times> store) option" where
  "background_finish i s =
     (if i < length (s_pushBackground s) then
        Some (s_pushBackground s ! i,
              s\<lparr>s_pushBackground := remove_nth i (s_pushBackground s), s_pushWG := s_pushWG s - 1\<rparr>)
      else None)"

section \<open>closePushWorkers\<close>

text \<open>\<open>None\<close>: the pool is closed already and the call returns at once.\<close>

definition close_begin :: "store \<Rightarrow> store option" where
  "close_begin s = (if s_pushClosed s then None else Some (s\<lparr>s_pushClosed := True\<rparr>))"

definition close_timeout :: "store \<Rightarrow> store" where
  "close_timeout s = s\<lparr>s_pushCancelled := True\<rparr>"

text \<open>\<^verbatim>\<open>pushWG.Wait\<close> returns when the counter is zero; then the queue's channel is closed.\<close>

definition close_end :: "store \<Rightarrow> store option" where
  "close_end s = (if s_pushWG s = 0 then Some (s\<lparr>s_pushCancelled := True\<rparr>) else None)"

section \<open>Lemmas\<close>

lemma push_loop_attempts:
  assumes "1 \<le> attempt" and "attempt \<le> maxA"
  shows "attempt \<le> fst (push_result (fst (push_loop net maxA attempt b))) \<and>
     fst (push_result (fst (push_loop net maxA attempt b))) \<le> maxA"
  using assms
proof (induction net maxA attempt b rule: push_loop.induct)
  case (1 net maxA attempt b)
  show ?case
  proof (cases "attempt = maxA")
    case True
    then show ?thesis by (auto simp: push_loop.simps [of net maxA maxA b] Let_def)
  next
    case False
    with 1 show ?thesis
      by (auto simp: push_loop.simps [of net maxA attempt b] Let_def split: prod.splits)
  qed
qed

text \<open>A delivery pauses between attempts only, so the number of pauses is one less than the attempts.\<close>

lemma push_loop_pauses:
  assumes "1 \<le> attempt" and "attempt \<le> maxA"
  shows "int (length (snd (push_loop net maxA attempt b))) =
     fst (push_result (fst (push_loop net maxA attempt b))) - attempt"
  using assms
proof (induction net maxA attempt b rule: push_loop.induct)
  case (1 net maxA attempt b)
  show ?case
  proof (cases "attempt = maxA")
    case True
    then show ?thesis by (auto simp: push_loop.simps [of net maxA maxA b] Let_def)
  next
    case False
    with 1 show ?thesis
      by (auto simp: push_loop.simps [of net maxA attempt b] Let_def split: prod.splits)
  qed
qed

text \<open>While the doubling does not overflow, the pauses are the base back-off times powers of two.\<close>

lemma push_loop_backoff:
  assumes "0 \<le> b" and "k < length (snd (push_loop net maxA attempt b))" and "b * 2 ^ k < 2 ^ 63"
  shows "snd (push_loop net maxA attempt b) ! k = b * 2 ^ k"
  using assms
proof (induction net maxA attempt b arbitrary: k rule: push_loop.induct)
  case (1 net maxA attempt b)
  let ?r = "push_loop net maxA (attempt + 1) (wrap64 (b * 2))"
  have rec: "push_loop net maxA attempt b = (fst ?r, b # snd ?r)"
    and conds: "attempt \<le> maxA" "pa_built (net attempt)" "\<not> attempt_succeeded (net attempt)"
      "\<not> pa_cancelled (net attempt)" "attempt \<noteq> maxA" "\<not> pa_cancelledInPause (net attempt)"
    using "1.prems"(2)
    by (auto simp: push_loop.simps [of net maxA attempt b] Let_def split: if_splits prod.splits)
  show ?case
  proof (cases k)
    case 0
    then show ?thesis by (simp add: rec)
  next
    case (Suc j)
    have b2: "b * 2 * 2 ^ j < 2 ^ 63" using "1.prems"(3) Suc by (simp add: algebra_simps)
    have "b * 2 \<le> b * 2 * 2 ^ j" using "1.prems"(1) by (simp add: mult_le_cancel_left1)
    with b2 have w: "wrap64 (b * 2) = b * 2" using "1.prems"(1) by (intro wrap64_id) auto
    have "snd ?r ! j = wrap64 (b * 2) * 2 ^ j"
      using "1.prems" Suc conds b2 by (intro "1.IH") (auto simp: rec w)
    then show ?thesis by (simp add: rec Suc w)
  qed
qed

lemma length_remove_nth: "i < length xs \<Longrightarrow> length (remove_nth i xs) = length xs - 1"
  by (simp add: remove_nth_def)

end
