(* ===== verification/Bus_Inv.thy ===== *)
theory Bus_Inv
  imports Bus_Push
begin

text \<open>
  The invariant of the in-memory store, one predicate per part of the state, and the relations that
  say how a store may change from one moment to a later one.

  \<^item> \<open>bus_inv\<close>: the observer ring and the inboxes are within their caps and their byte counts are
    right; keys are the identifiers of the entries; message numbers are never reused; a live
    message is linked in a live conversation; an idempotency entry names the message its key was
    accepted as; the push counter counts the outstanding work; a channel somebody may wait on is
    open.
  \<^item> \<open>evolves s s'\<close>: messages keep their identity, move forward through the life cycle and do not
    come back after they were reclaimed.
  \<^item> \<open>wakes s s'\<close>: a channel somebody waited on in \<open>s\<close> is closed in \<open>s'\<close>, or nothing happened
    that its waiter waits for.

  \<open>keeps\<close> puts the three together. It is reflexive and transitive, and the lemmas of this theory
  establish it for the helpers; the operations are compositions of them.
\<close>

declare map_of_eq_Some_iff [simp del]

section \<open>The parts of the invariant\<close>

definition ring_inv :: "store \<Rightarrow> bool" where
  "ring_inv s \<longleftrightarrow>
     0 \<le> observe_base s \<and>
     (\<forall>i < length (s_observeEvents s). o_ID (s_observeEvents s ! i) = observe_base s + 1 + int i) \<and>
     s_observeBytes s = sum_list (map o_Size (s_observeEvents s)) \<and>
     int (length (s_observeEvents s)) \<le> cfg_MaxObserveEvents (s_cfg s) \<and>
     (cfg_MaxObserveBytes (s_cfg s) > 0 \<longrightarrow>
        s_observeBytes s \<le> cfg_MaxObserveBytes (s_cfg s) \<or> length (s_observeEvents s) \<le> 1)"

definition inbox_ok :: "store \<Rightarrow> string \<Rightarrow> bool" where
  "inbox_ok s a \<longleftrightarrow>
     0 \<le> inbox_base s a \<and> (\<not> has_key (s_inboxes s) a \<longrightarrow> inbox_base s a = 0) \<and>
     inbox_bytes s a = sum_list (map inboxEventSize (inbox_of s a)) \<and>
     int (length (inbox_of s a)) \<le> cfg_MaxInboxEventsPerAgent (s_cfg s) \<and>
     (cfg_MaxInboxBytesPerAgent (s_cfg s) > 0 \<longrightarrow>
        inbox_bytes s a \<le> cfg_MaxInboxBytesPerAgent (s_cfg s) \<or> length (inbox_of s a) \<le> 1)"

definition inbox_inv :: "store \<Rightarrow> bool" where
  "inbox_inv s \<longleftrightarrow> (\<forall>a. inbox_ok s a)"

definition issued :: "int \<Rightarrow> string \<Rightarrow> bool" where
  "issued n k \<longleftrightarrow> (\<exists>i. 1 \<le> i \<and> i \<le> n \<and> k = message_id i)"

text \<open>
  A request that is not finished is pending exactly while it is queued for an absent agent;
  responses and informs are complete when accepted, except for an injection to an absent agent.
\<close>

definition message_ok :: "message \<Rightarrow> bool" where
  "message_ok m \<longleftrightarrow>
     (m_Type m = MessageTypeRequest \<longrightarrow>
        m_State m \<in> {StatePending, StateWaitingAck, StateExecuting, StateCompleted, StateRejected, StateError} \<and>
        (\<not> isTerminal (m_State m) \<longrightarrow> (m_State m = StatePending \<longleftrightarrow> m_QueuedForAgent m))) \<and>
     (m_Type m \<noteq> MessageTypeRequest \<longrightarrow>
        m_Type m \<in> {MessageTypeResponse, MessageTypeInform} \<and> m_State m \<in> {StatePending, StateCompleted})"

definition messages_inv :: "store \<Rightarrow> bool" where
  "messages_inv s \<longleftrightarrow>
     0 \<le> s_nextMessageID s \<and> keys_distinct (s_messages s) \<and>
     (\<forall>k m. map_of (s_messages s) k = Some m \<longrightarrow>
        m_MessageID m = k \<and> issued (s_nextMessageID s) k \<and> message_ok m)"

definition agent_ok :: "store \<Rightarrow> string \<Rightarrow> agent \<Rightarrow> bool" where
  "agent_ok s k a \<longleftrightarrow>
     a_AgentID a = k \<and> k \<noteq> [] \<and> TrimSpace k = k \<and> acceptsName s k \<and>
     a_Status a \<in> {AgentStatusActive, AgentStatusExpired} \<and>
     a_Mode a \<in> {AgentModePull, AgentModePush} \<and>
     a_AllowedScopes a = agentAllowedScopes s k \<and> a_SharedGrants a = agentSharedGrants s k"

definition agents_inv :: "store \<Rightarrow> bool" where
  "agents_inv s \<longleftrightarrow>
     keys_distinct (s_agents s) \<and> (\<forall>k a. map_of (s_agents s) k = Some a \<longrightarrow> agent_ok s k a)"

definition links_inv :: "store \<Rightarrow> bool" where
  "links_inv s \<longleftrightarrow>
     0 \<le> s_nextConversationID s \<and>
     keys_distinct (s_conversations s) \<and> keys_distinct (s_conversationMessages s) \<and>
     (\<forall>k c. map_of (s_conversations s) k = Some c \<longrightarrow>
        c_ConversationID c = k \<and>
        c_MessageCount c = int (length (get_or [] (s_conversationMessages s) k))) \<and>
     (\<forall>k. has_key (s_conversationMessages s) k \<longrightarrow> has_key (s_conversations s) k) \<and>
     (\<forall>k. distinct (get_or [] (s_conversationMessages s) k) \<and>
          (\<forall>i \<in> set (get_or [] (s_conversationMessages s) k). issued (s_nextMessageID s) i)) \<and>
     (\<forall>k m. map_of (s_messages s) k = Some m \<longrightarrow>
        k \<in> set (get_or [] (s_conversationMessages s) (m_ConversationID m)))"

definition idempotency_inv :: "store \<Rightarrow> bool" where
  "idempotency_inv s \<longleftrightarrow>
     keys_distinct (s_idempotency s) \<and>
     (\<forall>k e. map_of (s_idempotency s) k = Some e \<longrightarrow>
        issued (s_nextMessageID s) (ie_MessageID e) \<and>
        (\<forall>m. map_of (s_messages s) (ie_MessageID e) = Some m \<longrightarrow>
           k = dedupeKey (m_From m) (m_To m) (m_RequestID m) \<and> ie_CreatedAt e = m_CreatedAt m))"

definition push_inv :: "store \<Rightarrow> bool" where
  "push_inv s \<longleftrightarrow>
     s_pushWG s = int (length (s_pushQueue s) + length (s_pushInflight s) + length (s_pushBackground s)) \<and>
     int (length (s_pushQueue s)) \<le> cfg_PushQueueSize (s_cfg s) \<and>
     int (length (s_pushInflight s)) \<le> cfg_PushWorkers (s_cfg s)"

definition chan_inv :: "store \<Rightarrow> bool" where
  "chan_inv s \<longleftrightarrow>
     (\<forall>ch \<in> set (s_closedChans s). ch < s_nextChan s) \<and>
     s_observeNotify s < s_nextChan s \<and> s_observeNotify s \<notin> set (s_closedChans s) \<and>
     (\<forall>a ch. map_of (s_inboxNotify s) a = Some ch \<longrightarrow>
        ch < s_nextChan s \<and> ch \<notin> set (s_closedChans s) \<and> ch \<noteq> s_observeNotify s) \<and>
     (\<forall>a b ch. map_of (s_inboxNotify s) a = Some ch \<longrightarrow> map_of (s_inboxNotify s) b = Some ch \<longrightarrow> a = b)"

definition bus_inv :: "store \<Rightarrow> bool" where
  "bus_inv s \<longleftrightarrow>
     config_ok (s_cfg s) \<and> ring_inv s \<and> inbox_inv s \<and> messages_inv s \<and> agents_inv s \<and>
     links_inv s \<and> idempotency_inv s \<and> push_inv s \<and> chan_inv s"

section \<open>How a store changes\<close>

text \<open>
  What a message keeps, and that it moves forward: a finished message does not change at all.
\<close>

definition message_step :: "message \<Rightarrow> message \<Rightarrow> bool" where
  "message_step m m' \<longleftrightarrow>
     m_MessageID m' = m_MessageID m \<and> m_Type m' = m_Type m \<and> m_From m' = m_From m \<and>
     m_To m' = m_To m \<and> m_ConversationID m' = m_ConversationID m \<and>
     m_RequestID m' = m_RequestID m \<and> m_InReplyTo m' = m_InReplyTo m \<and> m_Body m' = m_Body m \<and>
     m_Meta m' = m_Meta m \<and> m_Attachments m' = m_Attachments m \<and>
     m_CreatedAt m' = m_CreatedAt m \<and> m_TTLExpiresAt m' = m_TTLExpiresAt m \<and>
     m_GraceUntil m' = m_GraceUntil m \<and> m_State m \<le> m_State m' \<and>
     (isTerminal (m_State m) \<longrightarrow> m' = m)"

definition evolves :: "store \<Rightarrow> store \<Rightarrow> bool" where
  "evolves s s' \<longleftrightarrow>
     s_nextMessageID s \<le> s_nextMessageID s' \<and> s_nextConversationID s \<le> s_nextConversationID s' \<and>
     s_nextObserveID s \<le> s_nextObserveID s' \<and>
     s_cfg s' = s_cfg s \<and> s_controlPlaneAgents s' = s_controlPlaneAgents s \<and>
     (\<forall>i m'. 1 \<le> i \<longrightarrow> i \<le> s_nextMessageID s \<longrightarrow>
        map_of (s_messages s') (message_id i) = Some m' \<longrightarrow>
        (\<exists>m. map_of (s_messages s) (message_id i) = Some m \<and> message_step m m'))"

abbreviation inbox_end :: "store \<Rightarrow> string \<Rightarrow> int" where
  "inbox_end s a \<equiv> inbox_base s a + int (length (inbox_of s a))"

definition wakes :: "store \<Rightarrow> store \<Rightarrow> bool" where
  "wakes s s' \<longleftrightarrow>
     set (s_closedChans s) \<subseteq> set (s_closedChans s') \<and>
     (s_observeNotify s \<in> set (s_closedChans s') \<or>
      s_observeNotify s' = s_observeNotify s \<and> s_nextObserveID s' = s_nextObserveID s) \<and>
     (\<forall>a ch. map_of (s_inboxNotify s) a = Some ch \<longrightarrow>
        ch \<in> set (s_closedChans s') \<or>
        map_of (s_inboxNotify s') a = Some ch \<and> inbox_end s' a = inbox_end s a)"

definition keeps :: "store \<Rightarrow> store \<Rightarrow> bool" where
  "keeps s s' \<longleftrightarrow> (bus_inv s \<longrightarrow> bus_inv s' \<and> evolves s s' \<and> wakes s s')"

lemma message_step_refl [simp]: "message_step m m"
  by (simp add: message_step_def)

lemma message_step_trans: "message_step m m' \<Longrightarrow> message_step m' m'' \<Longrightarrow> message_step m m''"
  unfolding message_step_def using order_trans terminal_maximal by (metis (no_types))

lemma evolves_refl [simp]: "evolves s s"
  by (auto simp: evolves_def)

lemma evolves_trans:
  assumes "evolves s s'" and "evolves s' s''"
  shows "evolves s s''"
proof -
  have "\<exists>m. map_of (s_messages s) (message_id i) = Some m \<and> message_step m m''"
    if i: "1 \<le> i" "i \<le> s_nextMessageID s" and m'': "map_of (s_messages s'') (message_id i) = Some m''"
    for i m''
  proof -
    have "i \<le> s_nextMessageID s'" using i assms(1) by (auto simp: evolves_def)
    then obtain m' where "map_of (s_messages s') (message_id i) = Some m'" "message_step m' m''"
      using assms(2) i(1) m'' by (auto simp: evolves_def)
    moreover from this obtain m where "map_of (s_messages s) (message_id i) = Some m" "message_step m m'"
      using assms(1) i by (auto simp: evolves_def)
    ultimately show ?thesis using message_step_trans by blast
  qed
  with assms show ?thesis unfolding evolves_def by (intro conjI) auto
qed

lemma wakes_refl [simp]: "wakes s s"
  by (simp add: wakes_def)

lemma wakes_trans:
  assumes "wakes s s'" and "wakes s' s''"
  shows "wakes s s''"
proof -
  have sub: "set (s_closedChans s) \<subseteq> set (s_closedChans s'')" "set (s_closedChans s') \<subseteq> set (s_closedChans s'')"
    using assms by (auto simp: wakes_def)
  have "ch \<in> set (s_closedChans s'') \<or>
      map_of (s_inboxNotify s'') a = Some ch \<and> inbox_end s'' a = inbox_end s a"
    if "map_of (s_inboxNotify s) a = Some ch" for a ch
  proof -
    from that assms(1) sub(2) consider "ch \<in> set (s_closedChans s'')"
      | "map_of (s_inboxNotify s') a = Some ch" "inbox_end s' a = inbox_end s a"
      by (auto simp: wakes_def)
    then show ?thesis using assms(2) unfolding wakes_def by cases (blast, metis)
  qed
  moreover have "s_observeNotify s \<in> set (s_closedChans s'') \<or>
      s_observeNotify s'' = s_observeNotify s \<and> s_nextObserveID s'' = s_nextObserveID s"
    using assms sub by (auto simp: wakes_def)
  ultimately show ?thesis using sub(1) unfolding wakes_def by blast
qed

lemma keeps_refl [simp]: "keeps s s"
  by (simp add: keeps_def)

lemma keeps_trans [trans]: "keeps s s' \<Longrightarrow> keeps s' s'' \<Longrightarrow> keeps s s''"
  unfolding keeps_def using evolves_trans wakes_trans by blast

lemma keeps_fold: "(\<And>k s. keeps s (f k s)) \<Longrightarrow> keeps s (fold f ks s)"
  by (induction ks arbitrary: s) (auto intro: keeps_trans)

section \<open>The helpers keep the invariant\<close>

lemma publishLocked_chans:
  "s_closedChans (publishLocked ty d cid ids at s) = s_observeNotify s # s_closedChans s"
  "s_observeNotify (publishLocked ty d cid ids at s) = s_nextChan s"
  "s_nextChan (publishLocked ty d cid ids at s) = Suc (s_nextChan s)"
  by (simp_all add: publishLocked_def signalObserveLocked_def make_chan_def close_chan_def Let_def)

lemma signalInboxLocked_chans:
  "s_closedChans (signalInboxLocked a s) =
     (case map_of (s_inboxNotify s) a of None \<Rightarrow> s_closedChans s | Some ch \<Rightarrow> ch # s_closedChans s)"
  "map_of (s_inboxNotify (signalInboxLocked a s)) b =
     (if b = a then None else map_of (s_inboxNotify s) b)"
  by (auto simp: signalInboxLocked_def close_chan_def Let_def split: option.splits)

lemma appendInboxLocked_chans:
  "s_closedChans (appendInboxLocked a e s) =
     (case map_of (s_inboxNotify s) a of None \<Rightarrow> s_closedChans s | Some ch \<Rightarrow> ch # s_closedChans s)"
  "map_of (s_inboxNotify (appendInboxLocked a e s)) b =
     (if b = a then None else map_of (s_inboxNotify s) b)"
  by (simp_all add: appendInboxLocked_def signalInboxLocked_chans Let_def split: option.splits)

lemma ring_inv_publish:
  assumes "config_ok (s_cfg s)" and "ring_inv s"
  shows "ring_inv (publishLocked ty d cid ids at s)"
proof -
  define evt where "evt = observe_entry (ty, d, cid, ids, at) s"
  define es where "es = s_observeEvents s @ [evt]"
  define n where "n = observe_evicted evt s"
  let ?s = "publishLocked ty d cid ids at s"
  note ring = publishLocked_ring [of ty d cid ids at s, folded evt_def, folded n_def es_def]
  have n: "n \<le> length (s_observeEvents s)" by (simp add: n_def observe_evicted_le)
  have base: "observe_base ?s = observe_base s + int n"
    using n by (simp add: observe_base_def ring es_def of_nat_diff)
  have id_es: "o_ID (es ! i) = observe_base s + 1 + int i" if "i < length es" for i
    using that assms(2)
    by (auto simp: es_def nth_append ring_inv_def evt_def observe_entry_def Let_def observe_base_def
        less_Suc_eq)
  have bytes: "s_observeBytes s + o_Size evt = sum_list (map o_Size es)"
    using assms(2) by (simp add: ring_inv_def es_def)
  have pos: "cfg_MaxObserveEvents (s_cfg s) > 0" using assms(1) by (simp add: config_ok_def)
  have drop_eq: "n = evict_count o_Size (cfg_MaxObserveEvents (s_cfg s)) (cfg_MaxObserveBytes (s_cfg s))
      (sum_list (map o_Size es)) es"
    by (simp add: n_def observe_evicted_def bytes es_def [symmetric])
  have "int (length (drop n es)) \<le> cfg_MaxObserveEvents (s_cfg s)"
    unfolding drop_eq using pos by (rule evict_count_within_count)
  moreover have "sum_list (map o_Size (drop n es)) \<le> cfg_MaxObserveBytes (s_cfg s) \<or> length (drop n es) \<le> 1"
    if "cfg_MaxObserveBytes (s_cfg s) > 0"
    unfolding drop_eq using that by (intro evict_count_within_bytes) auto
  moreover have "s_observeBytes ?s = sum_list (map o_Size (drop n es))"
    by (simp add: ring bytes sum_take_drop)
  moreover have "0 \<le> observe_base ?s" using base assms(2) by (simp add: ring_inv_def)
  moreover have "o_ID (drop n es ! i) = observe_base ?s + 1 + int i" if "i < length (drop n es)" for i
    using that id_es [of "n + i"] base by (simp add: add.commute less_diff_conv)
  ultimately show ?thesis by (auto simp: ring_inv_def ring)
qed

lemma inbox_inv_append:
  assumes "config_ok (s_cfg s)" and "inbox_inv s"
  shows "inbox_inv (appendInboxLocked a e s)"
proof -
  define es where "es = inbox_of s a @ [e]"
  define n where "n = inbox_evicted a e s"
  let ?s = "appendInboxLocked a e s"
  note tables = appendInboxLocked_tables [of a e s, folded n_def es_def]
  have bytes: "inbox_bytes s a + inboxEventSize e = sum_list (map inboxEventSize es)"
    using assms(2) by (simp add: inbox_inv_def inbox_ok_def es_def)
  have pos: "cfg_MaxInboxEventsPerAgent (s_cfg s) > 0" using assms(1) by (simp add: config_ok_def)
  have drop_eq: "n = evict_count inboxEventSize (cfg_MaxInboxEventsPerAgent (s_cfg s))
      (cfg_MaxInboxBytesPerAgent (s_cfg s)) (sum_list (map inboxEventSize es)) es"
    by (simp add: n_def inbox_evicted_def bytes es_def [symmetric])
  have count: "int (length (drop n es)) \<le> cfg_MaxInboxEventsPerAgent (s_cfg s)"
    unfolding drop_eq using pos by (rule evict_count_within_count)
  have budget: "sum_list (map inboxEventSize (drop n es)) \<le> cfg_MaxInboxBytesPerAgent (s_cfg s) \<or>
      length (drop n es) \<le> 1" if "cfg_MaxInboxBytesPerAgent (s_cfg s) > 0"
    unfolding drop_eq using that by (intro evict_count_within_bytes) auto
  have bytes': "inbox_bytes ?s a = sum_list (map inboxEventSize (drop n es))"
    by (simp add: tables bytes sum_take_drop)
  have keys: "has_key (s_inboxes ?s) b \<longleftrightarrow> b = a \<or> has_key (s_inboxes s) b" for b
    by (auto simp: appendInboxLocked_def dropInboxPrefixLocked_def Let_def)
  have "inbox_ok ?s a"
    using assms(2) count budget bytes' by (simp add: inbox_inv_def inbox_ok_def tables keys)
  moreover have "inbox_ok ?s b \<longleftrightarrow> inbox_ok s b" if "b \<noteq> a" for b
    using that by (simp add: inbox_ok_def tables keys)
  ultimately show ?thesis using assms(2) unfolding inbox_inv_def by metis
qed

lemma dropInboxPrefixLocked_0 [simp]: "dropInboxPrefixLocked a 0 s = s"
  by (simp add: dropInboxPrefixLocked_def Let_def)

lemma inbox_inv_drop:
  assumes "inbox_inv s" and "0 \<le> n" and "n \<le> int (length (inbox_of s a))"
  shows "inbox_inv (dropInboxPrefixLocked a n s)"
proof -
  let ?s = "dropInboxPrefixLocked a n s"
  note tables = dropInboxPrefixLocked_tables [OF assms(2,3)]
  have keys: "has_key (s_inboxes ?s) b \<longleftrightarrow> has_key (s_inboxes s) b" for b
    using assms(2,3) by (auto simp: dropInboxPrefixLocked_def Let_def get_or_def has_key_def split: option.splits)
  have ok: "inbox_ok s a" using assms(1) by (simp add: inbox_inv_def)
  then have sum: "inbox_bytes ?s a = sum_list (map inboxEventSize (drop (nat n) (inbox_of s a)))"
    by (simp add: tables inbox_ok_def sum_take_drop)
  have "0 \<le> sum_list (map inboxEventSize (take (nat n) (inbox_of s a)))"
    by (intro sum_list_nonneg) (auto simp: inboxEventSize_def attachment_size_def intro!: add_nonneg_nonneg sum_list_nonneg)
  then have "inbox_bytes ?s a \<le> inbox_bytes s a" by (simp add: tables)
  moreover have "n = 0" if "\<not> has_key (s_inboxes s) a"
    using that assms(2,3) by (simp add: has_key_def get_or_None)
  ultimately have "inbox_ok ?s a"
    using ok sum assms(2) by (auto simp: inbox_ok_def tables keys)
  moreover have "inbox_ok ?s b \<longleftrightarrow> inbox_ok s b" if "b \<noteq> a" for b
    using that by (simp add: inbox_ok_def tables keys)
  ultimately show ?thesis using assms(1) unfolding inbox_inv_def by metis
qed

text \<open>Each part depends on a few fields only.\<close>

lemma ring_inv_frame:
  assumes "ring_inv s" and "s_cfg s' = s_cfg s" and "s_nextObserveID s' = s_nextObserveID s"
    and "s_observeEvents s' = s_observeEvents s" and "s_observeBytes s' = s_observeBytes s"
  shows "ring_inv s'"
  using assms(1) unfolding ring_inv_def observe_base_def assms(2-) .

lemma inbox_inv_frame:
  assumes "inbox_inv s" and "s_cfg s' = s_cfg s" and "s_inboxes s' = s_inboxes s"
    and "s_inboxBase s' = s_inboxBase s" and "s_inboxBytes s' = s_inboxBytes s"
  shows "inbox_inv s'"
  using assms(1) unfolding inbox_inv_def inbox_ok_def assms(2-) .

lemma messages_inv_frame:
  assumes "messages_inv s" and "s_messages s' = s_messages s" and "s_nextMessageID s' = s_nextMessageID s"
  shows "messages_inv s'"
  using assms(1) unfolding messages_inv_def assms(2-) .

lemmas policy_defs = acceptsName_def isControlPlaneAgent_def isConfiguredControlPlaneAgent_def
  scopeOfName_def agentAllowedScopes_def agentSharedGrants_def

lemma agent_ok_frame:
  assumes "s_cfg s' = s_cfg s" and "s_controlPlaneAgents s' = s_controlPlaneAgents s"
  shows "agent_ok s' k a = agent_ok s k a"
  unfolding agent_ok_def policy_defs assms ..

lemma agents_inv_frame:
  assumes "agents_inv s" and "s_agents s' = s_agents s" and "s_cfg s' = s_cfg s"
    and "s_controlPlaneAgents s' = s_controlPlaneAgents s"
  shows "agents_inv s'"
  using assms(1) unfolding agents_inv_def assms(2) agent_ok_frame [OF assms(3,4)] .

lemma links_inv_frame:
  assumes "links_inv s" and "s_messages s' = s_messages s" and "s_nextMessageID s' = s_nextMessageID s"
    and "s_nextConversationID s' = s_nextConversationID s"
    and "s_conversations s' = s_conversations s" and "s_conversationMessages s' = s_conversationMessages s"
  shows "links_inv s'"
  using assms(1) unfolding links_inv_def assms(2-) .

lemma idempotency_inv_frame:
  assumes "idempotency_inv s" and "s_messages s' = s_messages s"
    and "s_nextMessageID s' = s_nextMessageID s" and "s_idempotency s' = s_idempotency s"
  shows "idempotency_inv s'"
  using assms(1) unfolding idempotency_inv_def assms(2-) .

lemma push_inv_frame:
  assumes "push_inv s" and "s_cfg s' = s_cfg s" and "s_pushQueue s' = s_pushQueue s"
    and "s_pushInflight s' = s_pushInflight s" and "s_pushBackground s' = s_pushBackground s"
    and "s_pushWG s' = s_pushWG s"
  shows "push_inv s'"
  using assms(1) unfolding push_inv_def assms(2-) .

lemma chan_inv_frame:
  assumes "chan_inv s" and "s_closedChans s' = s_closedChans s" and "s_nextChan s' = s_nextChan s"
    and "s_observeNotify s' = s_observeNotify s" and "s_inboxNotify s' = s_inboxNotify s"
  shows "chan_inv s'"
  using assms(1) unfolding chan_inv_def assms(2-) .

lemmas inv_frames = ring_inv_frame inbox_inv_frame messages_inv_frame agents_inv_frame links_inv_frame
  idempotency_inv_frame push_inv_frame chan_inv_frame

lemma evolves_frame:
  assumes "s_messages s' = s_messages s" and "s_nextMessageID s' = s_nextMessageID s"
    and "s_nextConversationID s \<le> s_nextConversationID s'" and "s_nextObserveID s \<le> s_nextObserveID s'"
    and "s_cfg s' = s_cfg s" and "s_controlPlaneAgents s' = s_controlPlaneAgents s"
  shows "evolves s s'"
  using assms by (simp add: evolves_def)

lemma wakes_frame:
  assumes "s_closedChans s' = s_closedChans s" and "s_observeNotify s' = s_observeNotify s"
    and "s_nextObserveID s' = s_nextObserveID s" and "s_inboxNotify s' = s_inboxNotify s"
    and "\<And>a. inbox_end s' a = inbox_end s a"
  shows "wakes s s'"
  using assms by (simp add: wakes_def)

lemma keeps_publishLocked: "keeps s (publishLocked ty d cid ids at s)"
  unfolding keeps_def
proof (intro impI conjI)
  assume inv: "bus_inv s"
  let ?s = "publishLocked ty d cid ids at s"
  have "chan_inv ?s"
    using inv by (auto simp: bus_inv_def chan_inv_def publishLocked_chans intro: less_SucI)
  moreover have "ring_inv ?s" using inv by (auto simp: bus_inv_def intro: ring_inv_publish)
  ultimately show "bus_inv ?s"
    using inv unfolding bus_inv_def by (auto elim: inv_frames)
  show "evolves s ?s" by (intro evolves_frame) (auto simp: publishLocked_ring)
  show "wakes s ?s" by (auto simp: wakes_def publishLocked_chans)
qed

lemma chan_inv_signal:
  assumes "chan_inv s"
    and "s_closedChans s' = (case map_of (s_inboxNotify s) a of None \<Rightarrow> s_closedChans s | Some ch \<Rightarrow> ch # s_closedChans s)"
    and "\<And>b. map_of (s_inboxNotify s') b = (if b = a then None else map_of (s_inboxNotify s) b)"
    and "s_nextChan s' = s_nextChan s" and "s_observeNotify s' = s_observeNotify s"
  shows "chan_inv s'"
  using assms unfolding chan_inv_def by (auto split: option.splits if_splits)

lemma keeps_appendInboxLocked: "keeps s (appendInboxLocked a e s)"
  unfolding keeps_def
proof (intro impI conjI)
  assume inv: "bus_inv s"
  let ?s = "appendInboxLocked a e s"
  have "chan_inv ?s"
    using inv by (auto simp: bus_inv_def appendInboxLocked_chans intro!: chan_inv_signal [of s ?s a])
  moreover have "inbox_inv ?s" using inv by (auto simp: bus_inv_def intro: inbox_inv_append)
  ultimately show "bus_inv ?s"
    using inv unfolding bus_inv_def by (auto elim: inv_frames)
  show "evolves s ?s" by (intro evolves_frame) auto
  show "wakes s ?s"
    by (auto simp: wakes_def appendInboxLocked_chans appendInboxLocked_tables split: option.splits)
qed

lemma keeps_dropInboxPrefixLocked:
  assumes "0 \<le> n" and "n \<le> int (length (inbox_of s a))"
  shows "keeps s (dropInboxPrefixLocked a n s)"
  unfolding keeps_def
proof (intro impI conjI)
  assume inv: "bus_inv s"
  let ?s = "dropInboxPrefixLocked a n s"
  have "inbox_inv ?s" using inv assms by (auto simp: bus_inv_def intro: inbox_inv_drop)
  then show "bus_inv ?s"
    using inv unfolding bus_inv_def by (auto elim: inv_frames)
  show "evolves s ?s" by (intro evolves_frame) auto
  show "wakes s ?s"
    using assms by (intro wakes_frame) (auto simp: dropInboxPrefixLocked_tables of_nat_diff)
qed

lemma keeps_inboxNotifyChanLocked: "keeps s (snd (inboxNotifyChanLocked a s))"
  unfolding keeps_def
proof (intro impI conjI)
  assume inv: "bus_inv s"
  let ?s = "snd (inboxNotifyChanLocked a s)"
  have "chan_inv ?s"
    using inv by (auto simp: bus_inv_def chan_inv_def inboxNotifyChanLocked_def make_chan_def
      intro: less_SucI split: option.splits)
  then show "bus_inv ?s"
    using inv unfolding bus_inv_def by (auto elim: inv_frames)
  show "evolves s ?s" by (intro evolves_frame) auto
  show "wakes s ?s"
    by (auto simp: wakes_def inboxNotifyChanLocked_def make_chan_def split: option.splits)
qed

section \<open>The table updates keep the invariant\<close>

lemma keeps_update_message:
  assumes "map_of (s_messages s) k = Some m" and "message_step m m'" and "message_ok m'"
  shows "keeps s (s\<lparr>s_messages := AList.update k m' (s_messages s)\<rparr>)"
  unfolding keeps_def
proof (intro impI conjI)
  assume inv: "bus_inv s"
  let ?s = "s\<lparr>s_messages := AList.update k m' (s_messages s)\<rparr>"
  note same = assms(2) [unfolded message_step_def]
  have "messages_inv ?s" using inv assms same by (auto simp: bus_inv_def messages_inv_def)
  moreover have "links_inv ?s" using inv assms(1) same by (auto simp: bus_inv_def links_inv_def)
  moreover have "idempotency_inv ?s"
    using inv assms(1) same by (auto simp: bus_inv_def idempotency_inv_def)
  ultimately show "bus_inv ?s"
    using inv unfolding bus_inv_def by (auto elim: inv_frames)
  show "evolves s ?s" using assms(1,2) by (auto simp: evolves_def)
  show "wakes s ?s" by (intro wakes_frame) auto
qed

lemma keeps_filter_messages:
  "keeps s (s\<lparr>s_messages := filter (\<lambda>(k, m). P k m) (s_messages s)\<rparr>)"
  unfolding keeps_def
proof (intro impI conjI)
  assume inv: "bus_inv s"
  let ?s = "s\<lparr>s_messages := filter (\<lambda>(k, m). P k m) (s_messages s)\<rparr>"
  have d: "keys_distinct (s_messages s)" using inv by (simp add: bus_inv_def messages_inv_def)
  have old: "map_of (s_messages s) k = Some m" if "map_of (s_messages ?s) k = Some m" for k m
    using that by (auto simp: map_of_filter_distinct [OF d] split: option.splits if_splits)
  have "messages_inv ?s"
    using inv d old unfolding bus_inv_def messages_inv_def by (auto intro: keys_distinct_filter)
  moreover have "links_inv ?s"
    using inv old unfolding bus_inv_def links_inv_def by auto
  moreover have "idempotency_inv ?s"
    using inv old unfolding bus_inv_def idempotency_inv_def by auto
  ultimately show "bus_inv ?s"
    using inv unfolding bus_inv_def by (auto elim: inv_frames)
  show "evolves s ?s" using old by (auto simp: evolves_def)
  show "wakes s ?s" by (intro wakes_frame) auto
qed

lemma keeps_update_agent:
  assumes "bus_inv s \<Longrightarrow> agent_ok s k a"
  shows "keeps s (s\<lparr>s_agents := AList.update k a (s_agents s)\<rparr>)"
  unfolding keeps_def
proof (intro impI conjI)
  assume inv: "bus_inv s"
  let ?s = "s\<lparr>s_agents := AList.update k a (s_agents s)\<rparr>"
  have "agents_inv ?s"
    using inv assms [OF inv] by (auto simp: bus_inv_def agents_inv_def agent_ok_frame [of ?s s])
  then show "bus_inv ?s"
    using inv unfolding bus_inv_def by (auto elim: inv_frames)
  show "evolves s ?s" by (intro evolves_frame) auto
  show "wakes s ?s" by (intro wakes_frame) auto
qed

lemma keeps_prune_agent: "keeps s (prune_agent now k s)"
proof (cases "\<exists>a. map_of (s_agents s) k = Some a \<and> prunable_agent (s_cfg s) now a")
  case False
  then have "prune_agent now k s = s" by (auto simp: prune_agent_def split: option.splits)
  then show ?thesis by simp
next
  case True
  let ?s = "prune_agent now k s"
  have agents: "s_agents ?s = AList.delete k (s_agents s)"
    and inb: "s_inboxes ?s = AList.delete k (s_inboxes s)" "s_inboxBase ?s = AList.delete k (s_inboxBase s)"
      "s_inboxBytes ?s = AList.delete k (s_inboxBytes s)"
    and chans: "s_closedChans ?s = (case map_of (s_inboxNotify s) k of None \<Rightarrow> s_closedChans s | Some ch \<Rightarrow> ch # s_closedChans s)"
      "\<And>b. map_of (s_inboxNotify ?s) b = (if b = k then None else map_of (s_inboxNotify s) b)"
    using True by (auto simp: prune_agent_def Let_def signalInboxLocked_chans split: option.splits)
  show ?thesis
    unfolding keeps_def
  proof (intro impI conjI)
    assume inv: "bus_inv s"
    have "chan_inv ?s" using inv chans by (intro chan_inv_signal [of s ?s k]) (auto simp: bus_inv_def)
    moreover have "inbox_ok ?s b" for b
    proof (cases "b = k")
      case True
      then show ?thesis using inv by (simp add: inbox_ok_def inb bus_inv_def config_ok_def)
    next
      case False
      then have "inbox_ok ?s b \<longleftrightarrow> inbox_ok s b" by (simp add: inbox_ok_def inb)
      then show ?thesis using inv by (simp add: bus_inv_def inbox_inv_def)
    qed
    moreover have "agents_inv ?s"
      using inv by (auto simp: bus_inv_def agents_inv_def agents agent_ok_frame [of ?s s] split: if_splits)
    ultimately show "bus_inv ?s"
      using inv unfolding bus_inv_def inbox_inv_def by (auto elim: inv_frames)
    show "evolves s ?s" by (intro evolves_frame) auto
    show "wakes s ?s" by (auto simp: wakes_def chans inb split: option.splits)
  qed
qed

lemma keeps_prune_conversations: "keeps s (prune_conversations now s)"
proof (cases "cfg_ConversationRetention (s_cfg s) > 0")
  case False
  then show ?thesis by (simp add: prune_conversations_def)
next
  case True
  let ?s = "prune_conversations now s" and ?P = "\<lambda>cid. \<not> prunable_conversation now s cid"
  have eqs: "s_conversations ?s = filter (\<lambda>(cid, c). ?P cid) (s_conversations s)"
    "s_conversationMessages ?s = filter (\<lambda>(cid, ids). ?P cid) (s_conversationMessages s)"
    using True by (simp_all add: prune_conversations_def)
  show ?thesis
    unfolding keeps_def
  proof (intro impI conjI)
    assume inv: "bus_inv s"
    then have L: "links_inv s" by (simp add: bus_inv_def)
    have d: "keys_distinct (s_conversations s)" "keys_distinct (s_conversationMessages s)"
      using L by (auto simp: links_inv_def)
    have look: "map_of (s_conversations ?s) k = (if ?P k then map_of (s_conversations s) k else None)"
        "map_of (s_conversationMessages ?s) k = (if ?P k then map_of (s_conversationMessages s) k else None)" for k
      by (auto simp: eqs map_of_filter_distinct d split: option.splits)
    have ids: "get_or [] (s_conversationMessages ?s) k =
        (if ?P k then get_or [] (s_conversationMessages s) k else [])" for k
      by (simp add: get_or_def look)
    have live: "?P (m_ConversationID m)" if "map_of (s_messages s) k = Some m" for k m
    proof -
      have "k \<in> set (get_or [] (s_conversationMessages s) (m_ConversationID m))"
        using L that by (simp add: links_inv_def)
      with that show ?thesis
        by (auto simp: prunable_conversation_def conversation_live_def list_ex_iff has_key_def split: option.splits)
    qed
    have "links_inv ?s"
      using L live unfolding links_inv_def ids look has_key_def
      by (auto simp: eqs keys_distinct_filter prune_conversations_def)
    then show "bus_inv ?s"
      using inv unfolding bus_inv_def by (auto simp: prune_conversations_def elim: inv_frames)
    show "evolves s ?s" by (intro evolves_frame) (auto simp: prune_conversations_def)
    show "wakes s ?s" by (intro wakes_frame) (auto simp: prune_conversations_def)
  qed
qed

lemma keeps_filter_idempotency:
  "keeps s (s\<lparr>s_idempotency := filter (\<lambda>(k, v). P k v) (s_idempotency s)\<rparr>)"
  unfolding keeps_def
proof (intro impI conjI)
  assume inv: "bus_inv s"
  let ?s = "s\<lparr>s_idempotency := filter (\<lambda>(k, v). P k v) (s_idempotency s)\<rparr>"
  have d: "keys_distinct (s_idempotency s)" using inv by (simp add: bus_inv_def idempotency_inv_def)
  have "idempotency_inv ?s"
    using inv d unfolding bus_inv_def idempotency_inv_def
    by (auto simp: map_of_filter_distinct keys_distinct_filter split: option.splits if_splits)
  then show "bus_inv ?s" using inv unfolding bus_inv_def by (auto elim: inv_frames)
  show "evolves s ?s" by (intro evolves_frame) auto
  show "wakes s ?s" by (intro wakes_frame) auto
qed

lemma keeps_update_idempotency:
  assumes "map_of (s_messages s) (ie_MessageID e) = Some m"
    and "k = dedupeKey (m_From m) (m_To m) (m_RequestID m)" and "ie_CreatedAt e = m_CreatedAt m"
  shows "keeps s (s\<lparr>s_idempotency := AList.update k e (s_idempotency s)\<rparr>)"
  unfolding keeps_def
proof (intro impI conjI)
  assume inv: "bus_inv s"
  let ?s = "s\<lparr>s_idempotency := AList.update k e (s_idempotency s)\<rparr>"
  have "issued (s_nextMessageID s) (ie_MessageID e)"
    using inv assms(1) by (auto simp: bus_inv_def messages_inv_def)
  then have "idempotency_inv ?s"
    using inv assms unfolding bus_inv_def idempotency_inv_def by auto
  then show "bus_inv ?s" using inv unfolding bus_inv_def by (auto elim: inv_frames)
  show "evolves s ?s" by (intro evolves_frame) auto
  show "wakes s ?s" by (intro wakes_frame) auto
qed

lemma message_id_inj: "0 \<le> i \<Longrightarrow> 0 \<le> j \<Longrightarrow> message_id i = message_id j \<longleftrightarrow> i = j"
  using fmt_06d_inj by (auto simp: message_id_def)

lemma issued_mono: "issued n k \<Longrightarrow> n \<le> n' \<Longrightarrow> issued n' k"
  by (auto simp: issued_def)

lemma not_issued_next: "0 \<le> n \<Longrightarrow> \<not> issued n (message_id (n + 1))"
  by (auto simp: issued_def message_id_inj)

lemma issued_next: "0 \<le> n \<Longrightarrow> issued (n + 1) (message_id (n + 1))"
  unfolding issued_def by (intro exI [of _ "n + 1"]) auto

text \<open>What a plan has to get right for the acceptance to be installed.\<close>

definition acceptable :: "store \<Rightarrow> send_acceptance \<Rightarrow> bool" where
  "acceptable s acc \<longleftrightarrow>
     sa_nextMessageID acc = s_nextMessageID s + 1 \<and>
     s_nextConversationID s \<le> sa_nextConversationID acc \<and>
     m_MessageID (sa_message acc) = message_id (s_nextMessageID s + 1) \<and> message_ok (sa_message acc) \<and>
     c_ConversationID (sa_conversation acc) = m_ConversationID (sa_message acc) \<and>
     c_MessageCount (sa_conversation acc) =
       int (length (get_or [] (s_conversationMessages s) (m_ConversationID (sa_message acc)))) + 1"

lemma keeps_install_message:
  assumes "bus_inv s \<Longrightarrow> acceptable s acc"
  shows "keeps s (install_message acc s)"
  unfolding keeps_def
proof (intro impI conjI)
  assume inv: "bus_inv s"
  let ?s = "install_message acc s" and ?m = "sa_message acc" and ?n = "s_nextMessageID s"
  note acc = assms [OF inv, unfolded acceptable_def]
  have M: "messages_inv s" and L: "links_inv s" and I: "idempotency_inv s"
    using inv by (auto simp: bus_inv_def)
  have n0: "0 \<le> ?n" using M by (simp add: messages_inv_def)
  note fresh = not_issued_next [OF n0] and up = issued_mono [of ?n _ "?n + 1"]
  have "messages_inv ?s"
    using M acc issued_next [OF n0] up by (auto simp: messages_inv_def install_message_def Let_def)
  moreover have linked: "k \<in> set (get_or [] (s_conversationMessages s) c)"
    if "map_of (s_messages s) k = Some m" "m_ConversationID m = c" for k m c
    using L that by (auto simp: links_inv_def)
  have "links_inv ?s"
    using L acc n0 fresh issued_next [OF n0] up
    unfolding links_inv_def
    by (auto simp: install_message_def Let_def split: if_splits intro: linked)
  moreover have "ie_MessageID e \<noteq> message_id (?n + 1)" if "map_of (s_idempotency s) k = Some e" for k e
    using I fresh that unfolding idempotency_inv_def by metis
  then have "idempotency_inv ?s"
    using I acc up unfolding idempotency_inv_def
    by (auto simp: install_message_def Let_def split: if_splits)
  ultimately show "bus_inv ?s"
    using inv unfolding bus_inv_def by (auto simp: install_message_def Let_def elim: inv_frames)
  show "evolves s ?s"
    using acc n0 by (auto simp: evolves_def install_message_def Let_def message_id_inj)
  show "wakes s ?s" by (intro wakes_frame) (auto simp: install_message_def Let_def)
qed

lemma keeps_update_conversation:
  assumes "bus_inv s \<Longrightarrow> c_ConversationID c = k \<and>
    c_MessageCount c = int (length (get_or [] (s_conversationMessages s) k))"
  shows "keeps s (s\<lparr>s_conversations := AList.update k c (s_conversations s)\<rparr>)"
  unfolding keeps_def
proof (intro impI conjI)
  assume inv: "bus_inv s"
  let ?s = "s\<lparr>s_conversations := AList.update k c (s_conversations s)\<rparr>"
  have "links_inv ?s"
    using inv assms [OF inv] by (auto simp: bus_inv_def links_inv_def)
  then show "bus_inv ?s" using inv unfolding bus_inv_def by (auto elim: inv_frames)
  show "evolves s ?s" by (intro evolves_frame) auto
  show "wakes s ?s" by (intro wakes_frame) auto
qed

lemma keeps_push_and_finish: "keeps s (push_and_finish acc s)"
  unfolding keeps_def
proof (intro impI conjI)
  assume inv: "bus_inv s"
  let ?s = "push_and_finish acc s"
  have fr: "s_cfg ?s = s_cfg s" "s_controlPlaneAgents ?s = s_controlPlaneAgents s"
    "s_nextMessageID ?s = s_nextMessageID s" "s_nextConversationID ?s = s_nextConversationID s"
    "s_nextObserveID ?s = s_nextObserveID s" "s_agents ?s = s_agents s" "s_messages ?s = s_messages s"
    "s_conversations ?s = s_conversations s" "s_conversationMessages ?s = s_conversationMessages s"
    "s_inboxes ?s = s_inboxes s" "s_inboxBase ?s = s_inboxBase s" "s_inboxBytes ?s = s_inboxBytes s"
    "s_observeEvents ?s = s_observeEvents s" "s_observeBytes ?s = s_observeBytes s"
    "s_idempotency ?s = s_idempotency s" "s_inboxNotify ?s = s_inboxNotify s"
    "s_observeNotify ?s = s_observeNotify s" "s_closedChans ?s = s_closedChans s"
    "s_nextChan ?s = s_nextChan s"
    by (simp_all add: push_and_finish_def Let_def enqueuePushJobLocked_def split: option.splits prod.splits)
  have "push_inv ?s"
    using inv by (auto simp: bus_inv_def push_inv_def push_and_finish_def Let_def
        enqueuePushJobLocked_def finishAcceptance_def split: option.splits)
  then show "bus_inv ?s" using inv fr unfolding bus_inv_def by (auto elim: inv_frames)
  show "evolves s ?s" by (intro evolves_frame) (auto simp: fr)
  show "wakes s ?s" by (intro wakes_frame) (auto simp: fr)
qed

section \<open>The sweep keeps the invariant\<close>

lemma keeps_sweep_agent: "keeps s (sweep_agent now k s)"
proof (cases "\<exists>a. map_of (s_agents s) k = Some a \<and> a_Status a = AgentStatusActive \<and> After now (a_ExpiresAt a)")
  case False
  then have "sweep_agent now k s = s" by (auto simp: sweep_agent_def split: option.splits)
  then show ?thesis by simp
next
  case True
  then obtain a where a: "map_of (s_agents s) k = Some a" "a_Status a = AgentStatusActive"
    "After now (a_ExpiresAt a)" by blast
  let ?s = "s\<lparr>s_agents := AList.update k (a\<lparr>a_Status := AgentStatusExpired\<rparr>) (s_agents s)\<rparr>"
  have "keeps s ?s"
    using a by (intro keeps_update_agent) (auto simp: bus_inv_def agents_inv_def agent_ok_def)
  also have "keeps ?s (sweep_agent now k s)" using a by (simp add: sweep_agent_def keeps_publishLocked)
  finally show ?thesis .
qed

lemma message_step_to:
  assumes "\<not> isTerminal (m_State m)" and "m_State m \<le> st"
  shows "message_step m (m\<lparr>m_State := st\<rparr>)" and "message_step m (m\<lparr>m_State := st, m_TerminalAt := t\<rparr>)"
    and "message_step m (m\<lparr>m_QueuedForAgent := q, m_State := st, m_DeliveredAt := t\<rparr>)"
    and "message_step m (m\<lparr>m_QueuedForAgent := q, m_State := st, m_TerminalAt := t\<rparr>)"
  using assms by (simp_all add: message_step_def)

lemma message_step_swept:
  assumes "message_ok m"
  shows "message_step m (swept_message cfg active now m)"
proof (cases "m_Type m \<noteq> MessageTypeRequest \<or> isTerminal (m_State m)")
  case True
  then show ?thesis by (auto simp: swept_message_def)
next
  case False
  then have nt: "\<not> isTerminal (m_State m)" and "m_State m \<le> StateError" by (auto intro: terminal_above)
  moreover have "m_State m \<le> StateWaitingAck" if "m_QueuedForAgent m"
    using assms False that by (auto simp: message_ok_def waiting_le_executing)
  ultimately show ?thesis
    using False by (auto simp: swept_message_def failed_at_def intro: message_step_to)
qed

lemma message_ok_swept: "message_ok m \<Longrightarrow> message_ok (swept_message cfg active now m)"
  by (auto simp: message_ok_def swept_message_def failed_at_def)

text \<open>Sweeping a message is replacing it by its swept form, with an event for those who watch.\<close>

lemma fail_message_publish:
  "m_ConversationID m0 = m_ConversationID m \<Longrightarrow> m_From m0 = m_From m \<Longrightarrow> m_To m0 = m_To m \<Longrightarrow>
   \<exists>d. fail_message now k m0 err s =
     publishLocked ObserveStateChange d (m_ConversationID m) [m_From m, m_To m] now
       (s\<lparr>s_messages := AList.update k (failed_at now m0) (s_messages s)\<rparr>)"
  by (auto simp: fail_message_def failed_at_def)

lemma sweep_message_cases:
  fixes now :: time
  assumes "map_of (s_messages s) k = Some m"
  defines "m' \<equiv> swept_message (s_cfg s) (target_active (s_agents s)) now m"
  shows "sweep_message now k s = s \<and> m' = m \<or>
    (\<exists>d. sweep_message now k s = publishLocked ObserveStateChange d (m_ConversationID m) [m_From m, m_To m] now
            (s\<lparr>s_messages := AList.update k m' (s_messages s)\<rparr>)) \<or>
    sweep_message now k s = appendInboxLocked (m_To m) (inbox_event_of m)
            (s\<lparr>s_messages := AList.update k m' (s_messages s)\<rparr>)"
proof -
  consider (skip) "m_Type m \<noteq> MessageTypeRequest \<or> isTerminal (m_State m)"
    | (timeout) "m_Type m = MessageTypeRequest" "\<not> isTerminal (m_State m)" "timed_out (s_cfg s) now m"
    | (live) "m_Type m = MessageTypeRequest" "\<not> isTerminal (m_State m)" "\<not> timed_out (s_cfg s) now m"
    by blast
  then show ?thesis
  proof cases
    case skip
    then show ?thesis using assms(1) by (simp add: sweep_message_def m'_def swept_message_def)
  next
    case timeout
    let ?err = "if \<not> IsZero (m_TTLExpiresAt m) \<and> After now (m_TTLExpiresAt m)
      then ''ttl timeout'' else ''ack timeout''"
    have "sweep_message now k s = fail_message now k m ?err s"
      using timeout assms(1) by (auto simp: sweep_message_def timed_out_def)
    moreover have "m' = failed_at now m" using timeout by (simp add: m'_def swept_message_def)
    ultimately show ?thesis using fail_message_publish [of m m now k ?err s] by metis
  next
    case live
    let ?q = "m\<lparr>m_QueuedForAgent := False\<rparr>"
      and ?err = "''target agent did not re-register in grace period''"
    have sw: "sweep_message now k s =
        (if m_QueuedForAgent m then
           (if target_active (s_agents s) (m_To m) then
              appendInboxLocked (m_To m) (inbox_event_of m)
                (s\<lparr>s_messages := AList.update k
                   (m\<lparr>m_QueuedForAgent := False, m_State := StateWaitingAck, m_DeliveredAt := now\<rparr>) (s_messages s)\<rparr>)
            else if \<not> IsZero (m_GraceUntil m) \<and> After now (m_GraceUntil m)
            then fail_message now k ?q ?err s else s) else s)"
      using live assms(1) unfolding sweep_message_def timed_out_def Let_def by (auto simp: inbox_event_of_def)
    show ?thesis
    proof (cases "m_QueuedForAgent m \<and> \<not> target_active (s_agents s) (m_To m) \<and>
        \<not> IsZero (m_GraceUntil m) \<and> After now (m_GraceUntil m)")
      case True
      then have "sweep_message now k s = fail_message now k ?q ?err s" by (simp add: sw)
      moreover have "m' = failed_at now ?q" using live True by (simp add: m'_def swept_message_def)
      ultimately show ?thesis using fail_message_publish [of ?q m now k ?err s] by auto
    next
      case False
      then show ?thesis using live by (auto simp: sw m'_def swept_message_def)
    qed
  qed
qed

text \<open>\<open>keeps\<close> for a state reached so far, extended by one more step.\<close>

lemmas keeps_then = keeps_trans [OF _ keeps_publishLocked] keeps_trans [OF _ keeps_appendInboxLocked]
  keeps_trans [OF _ keeps_push_and_finish] keeps_trans [OF _ keeps_inboxNotifyChanLocked]

lemma keeps_sweep_message: "keeps s (sweep_message now k s)"
proof (cases "map_of (s_messages s) k")
  case None
  then show ?thesis by (simp add: sweep_message_def)
next
  case (Some m)
  define m' where "m' = swept_message (s_cfg s) (target_active (s_agents s)) now m"
  let ?s = "s\<lparr>s_messages := AList.update k m' (s_messages s)\<rparr>"
  show ?thesis
  proof (cases "message_ok m")
    case True
    then have "keeps s ?s"
      using Some by (auto simp: m'_def intro!: keeps_update_message message_step_swept message_ok_swept)
    then show ?thesis
      using sweep_message_cases [OF Some, of now, folded m'_def]
      by (auto intro: keeps_then)
  next
    case False
    then have "\<not> bus_inv s" using Some by (auto simp: bus_inv_def messages_inv_def)
    then show ?thesis by (simp add: keeps_def)
  qed
qed

lemma keeps_counters:
  "keeps s (s\<lparr>s_sweepSkipped := n\<rparr>)" "keeps s (s\<lparr>s_lastSweepAt := t, s_sweepRan := n\<rparr>)"
  unfolding keeps_def bus_inv_def
  by (auto elim: inv_frames intro!: evolves_frame wakes_frame)

lemma keeps_sweepLocked: "keeps s (sweepLocked R now s)"
proof (cases "sweep_due now s")
  case False
  then show ?thesis by (simp add: sweepLocked_def keeps_counters)
next
  case True
  define s0 where "s0 = s\<lparr>s_lastSweepAt := now, s_sweepRan := Suc (s_sweepRan s)\<rparr>"
  have "keeps s s0" unfolding s0_def by (rule keeps_counters)
  also have "keeps s0 (sweep_idempotency now s0)"
    unfolding sweep_idempotency_def by (rule keeps_filter_idempotency)
  also have "keeps \<dots> (sweep_agents (R 0) now \<dots>)"
    unfolding sweep_agents_def by (intro keeps_fold keeps_sweep_agent)
  also have "keeps \<dots> (sweep_messages (R 1) now \<dots>)"
    unfolding sweep_messages_def by (intro keeps_fold keeps_sweep_message)
  also have "keeps \<dots> (prune_messages now \<dots>)"
    by (simp add: prune_messages_def keeps_filter_messages)
  also have "keeps \<dots> (prune_conversations now \<dots>)"
    by (rule keeps_prune_conversations)
  also have "keeps \<dots> (prune_agents (R 2) now \<dots>)"
    by (auto simp: prune_agents_def intro: keeps_fold keeps_prune_agent)
  finally show ?thesis using True by (simp add: sweepLocked_def pruneLocked_def s0_def Let_def)
qed

end
