(* ===== verification/Bus_Steps.thy ===== *)
theory Bus_Steps
  imports Bus_Inv
begin

text \<open>
  Every operation of the store keeps the invariant and moves the store forward (\<open>keeps\<close>), and so
  does everything that can be reached from a new store.

  \<open>store_operation\<close> is the contract all operations share; it is interpreted on each of them.
  \<open>bus_step\<close> is the bus as a transition system: one rule per operation, with the durable backend's
  state beside the store, and the steps of the push workers. \<open>step_system\<close> is the locale of
  transition systems with an invariant and a history relation; the bus is an instance.
\<close>

section \<open>Agents\<close>

lemma register_check_ok:
  assumes "register_check sha256 input s = None"
  shows "TrimSpace (ra_AgentID input) \<noteq> []" and "acceptsName s (TrimSpace (ra_AgentID input))"
    and "register_mode input \<in> {AgentModePull, AgentModePush}"
  using assms by (auto simp: register_check_def Let_def split: if_splits sum.splits)

lemma agent_ok_registered:
  assumes "register_check sha256 input s0 = None"
    and "s_cfg s = s_cfg s0" and "s_controlPlaneAgents s = s_controlPlaneAgents s0"
  shows "agent_ok s (TrimSpace (ra_AgentID input)) (registered_agent now input s)"
proof -
  have "acceptsName s (TrimSpace (ra_AgentID input)) = acceptsName s0 (TrimSpace (ra_AgentID input))"
    unfolding policy_defs assms(2,3) ..
  with register_check_ok [OF assms(1)] show ?thesis
    by (simp add: agent_ok_def registered_agent_def Let_def del: acceptsName_trim)
qed

lemma keeps_new_inbox:
  assumes "\<not> has_key (s_inboxes s) a"
  shows "keeps s (s\<lparr>s_inboxes := AList.update a [] (s_inboxes s),
    s_inboxBase := AList.update a 0 (s_inboxBase s), s_inboxBytes := AList.update a 0 (s_inboxBytes s)\<rparr>)"
    (is "keeps s ?s")
  unfolding keeps_def
proof (intro impI conjI)
  assume inv: "bus_inv s"
  have empty: "inbox_of s a = []" "inbox_base s a = 0"
    using inv assms by (auto simp: bus_inv_def inbox_inv_def inbox_ok_def get_or_None has_key_def)
  have "inbox_ok ?s a" using inv by (simp add: inbox_ok_def bus_inv_def config_ok_def)
  moreover have "inbox_ok ?s b = inbox_ok s b" if "b \<noteq> a" for b
    using that by (simp add: inbox_ok_def)
  ultimately have "inbox_inv ?s" using inv unfolding bus_inv_def inbox_inv_def by metis
  then show "bus_inv ?s" using inv unfolding bus_inv_def by (auto elim: inv_frames)
  show "evolves s ?s" by (intro evolves_frame) auto
  show "wakes s ?s" by (intro wakes_frame) (auto simp: empty)
qed

lemma keeps_install_agent:
  assumes "bus_inv s \<Longrightarrow> agent_ok s k a"
  shows "keeps s (install_agent k a s)"
proof -
  let ?s = "s\<lparr>s_agents := AList.update k a (s_agents s)\<rparr>"
  have "keeps s ?s" using assms by (rule keeps_update_agent)
  also have "keeps ?s (install_agent k a s)"
    using keeps_new_inbox [of ?s k] by (auto simp: install_agent_def Let_def)
  finally show ?thesis .
qed

lemma keeps_RegisterAgent: "keeps s (snd (RegisterAgent sha256 R now input s))"
proof (cases "register_check sha256 input s")
  case (Some err)
  then show ?thesis by (simp add: RegisterAgent_def)
next
  case None
  let ?s1 = "sweepLocked R now s"
  have "keeps s (install_agent (TrimSpace (ra_AgentID input)) (registered_agent now input ?s1) ?s1)"
    by (rule keeps_trans [OF keeps_sweepLocked keeps_install_agent]) (simp add: agent_ok_registered [OF None])
  from keeps_then(1) [OF this] show ?thesis
    unfolding RegisterAgent_def None Let_def option.case
    by (cases "authorizeAgentForName ?s1 (a_AgentID (registered_agent now input ?s1)) (TrimSpace (ra_AgentID input))")
      (simp_all only: option.case snd_conv keeps_sweepLocked)
qed

section \<open>Conversations\<close>

lemma keeps_next_conversation:
  "0 \<le> n \<Longrightarrow> keeps s (s\<lparr>s_nextConversationID := s_nextConversationID s + n\<rparr>)"
  unfolding keeps_def bus_inv_def
  by (auto simp: links_inv_def elim: inv_frames intro!: evolves_frame wakes_frame)

lemma merge_keeps_id [simp]:
  "c_ConversationID (mergeConversationParticipantsLocked c ps) = c_ConversationID c"
  "c_MessageCount (mergeConversationParticipantsLocked c ps) = c_MessageCount c"
  by (simp_all add: mergeConversationParticipantsLocked_def)

lemma links_inv_conversation:
  assumes "links_inv s"
  shows "map_of (s_conversations s) k = Some c \<Longrightarrow>
      c_ConversationID c = k \<and> c_MessageCount c = int (length (get_or [] (s_conversationMessages s) k))"
    and "map_of (s_conversations s) k = None \<Longrightarrow> get_or [] (s_conversationMessages s) k = []"
  using assms unfolding links_inv_def has_key_def
  by (blast, metis get_or_None)

lemma keeps_ensureConversationLocked: "keeps s (snd (ensureConversationLocked input now s))"
proof -
  define s1 where "s1 = (if TrimSpace (cc_ConversationID input) = []
    then s\<lparr>s_nextConversationID := s_nextConversationID s + 1\<rparr> else s)"
  define k where "k = (if TrimSpace (cc_ConversationID input) = []
    then conversation_id (s_nextConversationID s1) else TrimSpace (cc_ConversationID input))"
  have s1: "keeps s s1" by (auto simp: s1_def intro: keeps_next_conversation)
  note def = ensureConversationLocked_def [of input now s, unfolded Let_def, folded s1_def, folded k_def]
  have put: "keeps s (s1\<lparr>s_conversations := AList.update k c (s_conversations s1)\<rparr>)"
    if "links_inv s1 \<Longrightarrow> c_ConversationID c = k \<and>
         c_MessageCount c = int (length (get_or [] (s_conversationMessages s1) k))" for c
    using that by (intro keeps_trans [OF s1] keeps_update_conversation) (simp add: bus_inv_def)
  show ?thesis
  proof (cases "map_of (s_conversations s1) k")
    case None
    then have "links_inv s1 \<Longrightarrow> get_or [] (s_conversationMessages s1) k = []"
      using links_inv_conversation(2) by blast
    then show ?thesis unfolding def by (auto simp: None s1 intro!: put split: option.splits)
  next
    case (Some c)
    then have "links_inv s1 \<Longrightarrow> c_ConversationID c = k \<and>
        c_MessageCount c = int (length (get_or [] (s_conversationMessages s1) k))"
      using links_inv_conversation(1) by blast
    then show ?thesis unfolding def by (auto simp: Some s1 intro!: put split: option.splits)
  qed
qed

lemma keeps_CreateConversation: "keeps s (snd (CreateConversation R now input s))"
  by (auto simp: CreateConversation_def split: option.splits
      intro: keeps_trans [OF keeps_sweepLocked keeps_ensureConversationLocked])

section \<open>Sending\<close>

lemma send_conversation_ok:
  assumes "send_conversation now from to requested s = Inr (nextConv, c)" and "links_inv s"
  shows "s_nextConversationID s \<le> nextConv"
  using assms by (auto simp: send_conversation_def Let_def split: option.splits if_splits)

lemma new_message_ok:
  assumes "send_check input s0 = None"
  shows "message_ok (route_message now target (new_message now input cid n s) s)"
proof -
  have "send_type input \<in> {MessageTypeRequest, MessageTypeResponse, MessageTypeInform}"
    using assms by (auto simp: send_check_def Let_def split: if_splits)
  then show ?thesis by (auto simp: message_ok_def route_message_def new_message_def Let_def)
qed

lemma route_message_keeps [simp]:
  "m_MessageID (route_message now target m s) = m_MessageID m"
  "m_Type (route_message now target m s) = m_Type m"
  "m_From (route_message now target m s) = m_From m"
  "m_To (route_message now target m s) = m_To m"
  "m_ConversationID (route_message now target m s) = m_ConversationID m"
  "m_RequestID (route_message now target m s) = m_RequestID m"
  "m_Body (route_message now target m s) = m_Body m"
  "m_CreatedAt (route_message now target m s) = m_CreatedAt m"
  by (simp_all add: route_message_def)

lemma new_message_fields [simp]:
  "m_MessageID (new_message now input cid n s) = message_id n"
  "m_Type (new_message now input cid n s) = send_type input"
  "m_From (new_message now input cid n s) = TrimSpace (sm_From input)"
  "m_To (new_message now input cid n s) = TrimSpace (sm_To input)"
  "m_ConversationID (new_message now input cid n s) = cid"
  "m_RequestID (new_message now input cid n s) = TrimSpace (sm_RequestID input)"
  "m_Body (new_message now input cid n s) = TrimSpace (sm_Body input)"
  "m_CreatedAt (new_message now input cid n s) = now"
  by (simp_all add: new_message_def Let_def)

lemma send_plan_fields:
  assumes "send_plan now input target s = Inr acc"
  obtains nextConv conv where
    "send_conversation now (TrimSpace (sm_From input)) (TrimSpace (sm_To input)) (sm_ConversationID input) s =
       Inr (nextConv, conv)"
    "\<not> expired_beyond_grace now target s"
    "sa_message acc = route_message now target
       (new_message now input (c_ConversationID conv) (s_nextMessageID s + 1) s) s"
    "c_ConversationID (sa_conversation acc) = c_ConversationID conv"
    "c_MessageCount (sa_conversation acc) =
       int (length (get_or [] (s_conversationMessages s) (c_ConversationID conv))) + 1"
    "c_Participants (sa_conversation acc) = c_Participants conv"
    "sa_nextConversationID acc = nextConv" "sa_nextMessageID acc = s_nextMessageID s + 1"
    "sa_idempotencyKey acc = dedupeKey (TrimSpace (sm_From input)) (TrimSpace (sm_To input)) (TrimSpace (sm_RequestID input))"
    "sa_idempotency acc = \<lparr>ie_MessageID = m_MessageID (sa_message acc), ie_CreatedAt = now\<rparr>"
    "sa_inboxEvent acc =
       (if a_Status target \<noteq> AgentStatusExpired then Some (inbox_event_of (sa_message acc)) else None)"
  using assms by (auto simp: send_plan_def Let_def split: sum.splits prod.splits if_splits)

lemma send_plan_acceptable:
  assumes "send_plan now input target s = Inr acc" and "send_check input s0 = None" and "bus_inv s"
  shows "acceptable s acc"
proof -
  from assms(1) obtain nextConv conv where plan:
    "send_conversation now (TrimSpace (sm_From input)) (TrimSpace (sm_To input)) (sm_ConversationID input) s =
       Inr (nextConv, conv)"
    "sa_message acc = route_message now target
       (new_message now input (c_ConversationID conv) (s_nextMessageID s + 1) s) s"
    "c_ConversationID (sa_conversation acc) = c_ConversationID conv"
    "c_MessageCount (sa_conversation acc) =
       int (length (get_or [] (s_conversationMessages s) (c_ConversationID conv))) + 1"
    "sa_nextConversationID acc = nextConv" "sa_nextMessageID acc = s_nextMessageID s + 1"
    by (rule send_plan_fields)
  have "links_inv s" using assms(3) by (simp add: bus_inv_def)
  with plan send_conversation_ok [OF plan(1)] new_message_ok [OF assms(2)] show ?thesis
    by (simp add: acceptable_def)
qed

lemma acceptable_receipt [simp]: "acceptable s (acc\<lparr>sa_pushReceipt := r\<rparr>) = acceptable s acc"
  by (simp add: acceptable_def)

text \<open>The barrier decides whether the acceptance goes ahead; it does not change what is accepted.\<close>

lemma run_barrier_cases:
  assumes "run_barrier commit acc d = (res, d')"
  obtains e where "res = Inl e" | r where "res = Inr (acc\<lparr>sa_pushReceipt := r\<rparr>)"
proof (cases commit)
  case None
  with assms that(2) [of "sa_pushReceipt acc"] show thesis by (simp add: run_barrier_def)
next
  case (Some f)
  with assms that show thesis
    by (auto simp: run_barrier_def split: prod.splits sum.splits)
qed

lemma keeps_deliver_inbox: "keeps s (deliver_inbox to evt s)"
  by (auto simp: deliver_inbox_def keeps_appendInboxLocked split: option.splits)

lemma keeps_accept_send:
  assumes "bus_inv s \<Longrightarrow> acceptable s acc"
    and "sa_idempotencyKey acc =
      dedupeKey (m_From (sa_message acc)) (m_To (sa_message acc)) (m_RequestID (sa_message acc))"
    and "sa_idempotency acc =
      \<lparr>ie_MessageID = m_MessageID (sa_message acc), ie_CreatedAt = m_CreatedAt (sa_message acc)\<rparr>"
  shows "keeps s (accept_send now acc s)"
proof -
  let ?s1 = "install_message acc s"
  let ?s2 = "?s1\<lparr>s_idempotency := AList.update (sa_idempotencyKey acc) (sa_idempotency acc) (s_idempotency ?s1)\<rparr>"
  have "keeps s ?s1" using assms(1) by (rule keeps_install_message)
  also have "keeps ?s1 ?s2"
    using assms(2,3) by (intro keeps_update_idempotency) (auto simp: install_message_def Let_def)
  also have "keeps ?s2 (accept_send now acc s)"
    unfolding accept_send_def Let_def publish_message_def
    by (rule keeps_trans [OF keeps_trans [OF keeps_deliver_inbox keeps_publishLocked] keeps_push_and_finish])
  finally show ?thesis .
qed

lemma finish_nothing [simp]: "finishAcceptance None r s = s"
  by (simp add: finishAcceptance_def)

lemma keeps_sendMessage: "keeps s (fst (snd (sendMessage R now commit input s d)))"
proof -
  let ?s1 = "sweepLocked R now s"
  have "keeps s (accept_send now acc' ?s1)"
    if chk: "send_check input s = None" and plan: "send_plan now input target ?s1 = Inr acc"
      and bar: "run_barrier commit acc d = (Inr acc', d')" for target acc acc' d'
  proof (rule keeps_trans [OF keeps_sweepLocked keeps_accept_send])
    obtain r where r: "acc' = acc\<lparr>sa_pushReceipt := r\<rparr>" using bar by (rule run_barrier_cases) auto
    show "bus_inv ?s1 \<Longrightarrow> acceptable ?s1 acc'"
      using send_plan_acceptable [OF plan chk] by (simp add: r)
    show "sa_idempotencyKey acc' =
        dedupeKey (m_From (sa_message acc')) (m_To (sa_message acc')) (m_RequestID (sa_message acc'))"
      using plan by (rule send_plan_fields) (simp add: r)
    show "sa_idempotency acc' =
        \<lparr>ie_MessageID = m_MessageID (sa_message acc'), ie_CreatedAt = m_CreatedAt (sa_message acc')\<rparr>"
      using plan by (rule send_plan_fields) (simp add: r)
  qed
  then show ?thesis
    using keeps_sweepLocked [of s R now]
    by (simp add: sendMessage_def Let_def split: option.splits sum.splits prod.splits)
qed

lemma inject_plan_fields:
  assumes "inject_plan now input s = Inr acc"
  obtains nextConv conv m0 dest where
    "inject_conversation now (ij_ConversationID input) s = (nextConv, conv)"
    "inject_route now (injected_message now input (c_ConversationID conv) (s_nextMessageID s + 1) s) s = Inr (m0, dest)"
    "sa_message acc = (if isTerminal (m_State m0) then m0\<lparr>m_TerminalAt := now\<rparr> else m0)"
    "c_ConversationID (sa_conversation acc) = c_ConversationID conv"
    "c_MessageCount (sa_conversation acc) =
       int (length (get_or [] (s_conversationMessages s) (c_ConversationID conv))) + 1"
    "sa_nextConversationID acc = nextConv" "sa_nextMessageID acc = s_nextMessageID s + 1"
    "sa_inboxEvent acc = map_option (\<lambda>_. inbox_event_of (sa_message acc)) dest"
  using assms by (auto simp: inject_plan_def Let_def split: sum.splits prod.splits)

lemma inject_route_message:
  assumes "inject_route now m s = Inr (m0, dest)"
  shows "m_MessageID m0 = m_MessageID m" "m_Type m0 = m_Type m" "m_ConversationID m0 = m_ConversationID m"
    "m_From m0 = m_From m" "m_To m0 = m_To m" "m_Body m0 = m_Body m" "m_CreatedAt m0 = m_CreatedAt m"
    "m_State m0 = m_State m \<or> m_State m0 = StatePending"
  using assms by (auto simp: inject_route_def split: if_splits option.splits)

lemma inject_plan_acceptable:
  assumes "inject_plan now input s = Inr acc"
  shows "acceptable s acc"
proof -
  from assms obtain nextConv conv m0 dest where plan:
    "inject_conversation now (ij_ConversationID input) s = (nextConv, conv)"
    "inject_route now (injected_message now input (c_ConversationID conv) (s_nextMessageID s + 1) s) s = Inr (m0, dest)"
    "sa_message acc = (if isTerminal (m_State m0) then m0\<lparr>m_TerminalAt := now\<rparr> else m0)"
    "c_ConversationID (sa_conversation acc) = c_ConversationID conv"
    "c_MessageCount (sa_conversation acc) =
       int (length (get_or [] (s_conversationMessages s) (c_ConversationID conv))) + 1"
    "sa_nextConversationID acc = nextConv" "sa_nextMessageID acc = s_nextMessageID s + 1"
    by (rule inject_plan_fields)
  have "s_nextConversationID s \<le> nextConv"
    using plan(1) by (auto simp: inject_conversation_def Let_def)
  moreover have "message_ok (sa_message acc)"
    using inject_route_message [OF plan(2)] plan(3) by (auto simp: message_ok_def injected_message_def)
  ultimately show ?thesis
    using plan inject_route_message [OF plan(2)] by (auto simp: acceptable_def injected_message_def)
qed

lemma keeps_accept_injection:
  assumes "bus_inv s \<Longrightarrow> acceptable s acc"
  shows "keeps s (accept_injection now identity acc s)"
proof -
  have "keeps s (install_message acc s)" using assms by (rule keeps_install_message)
  from keeps_trans [OF this keeps_deliver_inbox] show ?thesis
    unfolding accept_injection_def Let_def publish_message_def publish_injection_def
    by (rule keeps_then(3) [OF keeps_then(1) [OF keeps_then(1)]])
qed

lemma keeps_inject: "keeps s (fst (snd (inject R now commit input s d)))"
proof -
  let ?s1 = "sweepLocked R now s"
  have "keeps s (accept_injection now identity acc' ?s1)"
    if plan: "inject_plan now input ?s1 = Inr acc"
      and bar: "run_barrier commit acc d = (Inr acc', d')" for identity acc acc' d'
  proof (rule keeps_trans [OF keeps_sweepLocked keeps_accept_injection])
    obtain r where "acc' = acc\<lparr>sa_pushReceipt := r\<rparr>" using bar by (rule run_barrier_cases) auto
    then show "acceptable ?s1 acc'" using inject_plan_acceptable [OF plan] by simp
  qed
  then show ?thesis
    using keeps_sweepLocked [of s R now]
    by (simp add: inject_def Let_def split: option.splits sum.splits prod.splits)
qed

section \<open>Receiving\<close>

lemma keeps_poll_turn: "keeps s (fst (snd (poll_turn R now later advance input deadline wait s d)))"
proof -
  let ?s1 = "sweepLocked R now s" and ?a = "TrimSpace (pi_AgentID input)"
  let ?base = "inbox_base ?s1 ?a" and ?stop = "inbox_end ?s1 ?a"
  let ?cursor = "clamp_cursor (pi_Cursor input) ?base ?stop"
  define s2 where "s2 = (if ?cursor > ?base then dropInboxPrefixLocked ?a (?cursor - ?base) ?s1 else ?s1)"
  have "?cursor - ?base \<le> int (length (inbox_of ?s1 ?a))" by (simp add: clamp_cursor_def Let_def)
  then have "keeps ?s1 s2" by (auto simp: s2_def intro: keeps_dropInboxPrefixLocked)
  from keeps_trans [OF keeps_sweepLocked this] have "keeps s s2" .
  moreover from keeps_then(4) [OF this] have "keeps s (snd (inboxNotifyChanLocked ?a s2))" .
  ultimately show ?thesis
    using keeps_sweepLocked [of s R now]
    unfolding poll_turn_def Let_def s2_def [symmetric]
    by (auto split: option.splits prod.splits)
qed

lemma message_step_acked:
  assumes "message_ok m" and "m_Type m = MessageTypeRequest" and "\<not> isTerminal (m_State m)"
  shows "message_step m (acked now status m)" and "message_ok (acked now status m)"
proof -
  have "m_State m \<le> StateRejected" "m_State m \<le> StateExecuting"
    using assms by (auto simp: message_ok_def terminal_above waiting_le_executing)
  then show "message_step m (acked now status m)"
    using assms(3) by (simp add: message_step_def acked_def Let_def)
  show "message_ok (acked now status m)"
    using assms(2) by (auto simp: message_ok_def acked_def Let_def)
qed

lemma message_step_event:
  assumes "message_ok m" and "m_Type m = MessageTypeRequest" and "\<not> isTerminal (m_State m)"
    and "event_transition cfg now typeRaw m = Inr m'"
  shows "message_step m m'" and "message_ok m'"
proof -
  have "m_State m \<le> StateCompleted" "m_State m \<le> StateError"
    using assms by (auto simp: terminal_above)
  then show "message_step m m'"
    using assms(3,4) by (auto simp: message_step_def event_transition_def Let_def waiting_le_executing split: if_splits)
  show "message_ok m'"
    using assms by (auto simp: message_ok_def event_transition_def Let_def split: if_splits)
qed

text \<open>Replacing a message by a later version of itself, after the sweep.\<close>

lemma keeps_transition:
  assumes "map_of (s_messages s1) k = Some m" and "keeps s s1"
    and "message_ok m \<Longrightarrow> message_step m m' \<and> message_ok m'"
  shows "keeps s (s1\<lparr>s_messages := AList.update k m' (s_messages s1)\<rparr>)"
proof (cases "message_ok m")
  case True
  then show ?thesis using assms by (auto intro: keeps_trans keeps_update_message)
next
  case False
  then have "\<not> bus_inv s1" using assms(1) by (auto simp: bus_inv_def messages_inv_def)
  then have "\<not> bus_inv s" using assms(2) by (auto simp: keeps_def)
  then show ?thesis by (simp add: keeps_def)
qed

lemma keeps_ack: "keeps s (fst (snd (ack R now commit input s d)))"
proof -
  let ?s1 = "sweepLocked R now s"
  have "keeps s (?s1\<lparr>s_messages := AList.update k (acked now status m) (s_messages ?s1)\<rparr>)"
    if "map_of (s_messages ?s1) k = Some m" "m_Type m = MessageTypeRequest" "\<not> isTerminal (m_State m)"
    for k m status
    using that by (intro keeps_transition keeps_sweepLocked) (auto intro: message_step_acked)
  then show ?thesis
    using keeps_sweepLocked [of s R now]
    by (simp add: ack_def Let_def publish_transition_def keeps_then(1) split: option.splits prod.splits)
qed

lemma keeps_publish_event: "keeps s s' \<Longrightarrow> keeps s (publish_event now input from m s')"
  by (simp add: publish_event_def publish_transition_def Let_def keeps_then(1))

lemma keeps_postEvent: "keeps s (fst (snd (postEvent R now commit input s d)))"
proof -
  let ?s1 = "sweepLocked R now s"
  have "keeps s (?s1\<lparr>s_messages := AList.update k m' (s_messages ?s1)\<rparr>)"
    if "map_of (s_messages ?s1) k = Some m" "m_Type m = MessageTypeRequest" "\<not> isTerminal (m_State m)"
      "event_transition cfg now ty m = Inr m'" for k m m' cfg ty
    using that by (intro keeps_transition keeps_sweepLocked) (auto intro: message_step_event)
  then show ?thesis
    using keeps_sweepLocked [of s R now]
    by (simp add: postEvent_def Let_def keeps_publish_event split: option.splits prod.splits sum.splits)
qed

lemma keeps_reads:
  "keeps s (snd (ListAgents R now cap s))"
  "keeps s (snd (ListConversations R now flt s))"
  "keeps s (snd (ListConversationMessages R now input s))"
  "keeps s (snd (snapshotCounts R now s))"
  "keeps s (snd (observe_turn R now later afterID oflt deadline wait s))"
  by (simp_all add: ListAgents_def ListConversations_def ListConversationMessages_def snapshotCounts_def
      observe_turn_def Let_def keeps_sweepLocked split: option.splits prod.splits)

section \<open>Push workers\<close>

lemma keeps_push_fields:
  assumes "bus_inv s \<Longrightarrow> push_inv (s\<lparr>s_pushFailures := f, s_pushSuccesses := g, s_pushQueue := q,
      s_pushInflight := i, s_pushBackground := b, s_pushWG := w, s_pushCancelled := c, s_pushClosed := x\<rparr>)"
  shows "keeps s (s\<lparr>s_pushFailures := f, s_pushSuccesses := g, s_pushQueue := q,
      s_pushInflight := i, s_pushBackground := b, s_pushWG := w, s_pushCancelled := c, s_pushClosed := x\<rparr>)"
    (is "keeps s ?s")
  unfolding keeps_def
proof (intro impI conjI)
  assume inv: "bus_inv s"
  show "bus_inv ?s"
    using inv assms [OF inv] unfolding bus_inv_def by (auto elim: inv_frames)
  show "evolves s ?s" by (intro evolves_frame) auto
  show "wakes s ?s" by (intro wakes_frame) auto
qed

lemma push_only:
  assumes "s' = s\<lparr>s_pushFailures := s_pushFailures s', s_pushSuccesses := s_pushSuccesses s',
      s_pushQueue := s_pushQueue s', s_pushInflight := s_pushInflight s',
      s_pushBackground := s_pushBackground s', s_pushWG := s_pushWG s',
      s_pushCancelled := s_pushCancelled s', s_pushClosed := s_pushClosed s'\<rparr>"
    and "bus_inv s \<Longrightarrow> push_inv s'"
  shows "keeps s s'"
  using assms by (subst assms(1), intro keeps_push_fields) simp

lemma keeps_push_steps:
  "worker_take s = Some s' \<Longrightarrow> keeps s s'"
  "worker_finish net i s = Some (r, s') \<Longrightarrow> keeps s s'"
  "background_finish i s = Some (r', s') \<Longrightarrow> keeps s s'"
  "close_begin s = Some s' \<Longrightarrow> keeps s s'"
  "keeps s (close_timeout s)"
  "close_end s = Some s' \<Longrightarrow> keeps s s'"
proof -
  show "keeps s s'" if "worker_take s = Some s'"
    using that by (intro push_only)
      (auto simp: worker_take_def bus_inv_def push_inv_def split: list.splits if_splits)
  show "keeps s s'" if "worker_finish net i s = Some (r, s')"
    using that by (intro push_only)
      (auto simp: worker_finish_def sendPushCallback_def bus_inv_def push_inv_def length_remove_nth Let_def
        of_nat_diff split: if_splits push_end.splits)
  show "keeps s s'" if "background_finish i s = Some (r', s')"
    using that by (intro push_only)
      (auto simp: background_finish_def bus_inv_def push_inv_def length_remove_nth of_nat_diff split: if_splits)
  show "keeps s s'" if "close_begin s = Some s'"
    using that by (intro push_only) (auto simp: close_begin_def bus_inv_def push_inv_def split: if_splits)
  show "keeps s (close_timeout s)"
    by (intro push_only) (auto simp: close_timeout_def bus_inv_def push_inv_def)
  show "keeps s s'" if "close_end s = Some s'"
    using that by (intro push_only) (auto simp: close_end_def bus_inv_def push_inv_def split: if_splits)
qed

section \<open>The contract of an operation\<close>

locale store_operation =
  fixes op :: "store \<times> 'd \<Rightarrow> store \<times> 'd"
  assumes op_keeps: "keeps s (fst (op (s, d)))"
begin

lemma op_inv: "bus_inv s \<Longrightarrow> bus_inv (fst (op (s, d)))"
  using op_keeps by (simp add: keeps_def)

lemma op_forward:
  assumes "bus_inv s" and "map_of (s_messages s) k = Some m"
    and "map_of (s_messages (fst (op (s, d)))) k = Some m'"
  shows "message_step m m'"
proof -
  have "issued (s_nextMessageID s) k" using assms(1,2) by (auto simp: bus_inv_def messages_inv_def)
  then obtain i where "1 \<le> i" "i \<le> s_nextMessageID s" "k = message_id i" by (auto simp: issued_def)
  moreover have "evolves s (fst (op (s, d)))" using assms(1) op_keeps by (simp add: keeps_def)
  ultimately show ?thesis using assms(2,3) unfolding evolves_def by fastforce
qed

lemma op_wakes: "bus_inv s \<Longrightarrow> wakes s (fst (op (s, d)))"
  using op_keeps by (simp add: keeps_def)

end

interpretation register_op: store_operation "\<lambda>(s, d). (snd (RegisterAgent sha256 R now input s), d)"
  for sha256 R now input
  by unfold_locales (simp add: keeps_RegisterAgent)

interpretation create_op: store_operation "\<lambda>(s, d). (snd (CreateConversation R now input s), d)"
  for R now input
  by unfold_locales (simp add: keeps_CreateConversation)

interpretation send_op: store_operation "\<lambda>(s, d). snd (sendMessage R now commit input s d)"
  for R now commit input
  by unfold_locales (simp add: keeps_sendMessage)

interpretation inject_op: store_operation "\<lambda>(s, d). snd (inject R now commit input s d)"
  for R now commit input
  by unfold_locales (simp add: keeps_inject)

interpretation poll_op: store_operation "\<lambda>(s, d). snd (poll_turn R now later advance input deadline wait s d)"
  for R now later advance input deadline wait
  by unfold_locales (simp add: keeps_poll_turn)

interpretation ack_op: store_operation "\<lambda>(s, d). snd (ack R now commit input s d)"
  for R now commit input
  by unfold_locales (simp add: keeps_ack)

interpretation event_op: store_operation "\<lambda>(s, d). snd (postEvent R now commit input s d)"
  for R now commit input
  by unfold_locales (simp add: keeps_postEvent)

section \<open>The bus as a transition system\<close>

inductive bus_step :: "store \<times> 'd \<Rightarrow> store \<times> 'd \<Rightarrow> bool" where
  step_register: "bus_step (s, d) (snd (RegisterAgent sha256 R now reg s), d)"
| step_agents: "bus_step (s, d) (snd (ListAgents R now cap s), d)"
| step_counts: "bus_step (s, d) (snd (snapshotCounts R now s), d)"
| step_create: "bus_step (s, d) (snd (CreateConversation R now cc s), d)"
| step_conversations: "bus_step (s, d) (snd (ListConversations R now lf s), d)"
| step_messages: "bus_step (s, d) (snd (ListConversationMessages R now lm s), d)"
| step_send: "bus_step (s, d) (snd (sendMessage R now commit sm s d))"
| step_inject: "bus_step (s, d) (snd (inject R now commit ij s d))"
| step_poll: "bus_step (s, d) (snd (poll_turn R now later advance poll deadline wait s d))"
| step_ack: "bus_step (s, d) (snd (ack R now mcommit ak s d))"
| step_event: "bus_step (s, d) (snd (postEvent R now mcommit ev s d))"
| step_observe: "bus_step (s, d) (snd (observe_turn R now later afterID oflt deadline wait s), d)"
| step_take: "worker_take s = Some s' \<Longrightarrow> bus_step (s, d) (s', d)"
| step_finish: "worker_finish net i s = Some (r, s') \<Longrightarrow> bus_step (s, d) (s', d)"
| step_background: "background_finish i s = Some (r', s') \<Longrightarrow> bus_step (s, d) (s', d)"
| step_close: "close_begin s = Some s' \<Longrightarrow> bus_step (s, d) (s', d)"
| step_cancel: "bus_step (s, d) (close_timeout s, d)"
| step_closed: "close_end s = Some s' \<Longrightarrow> bus_step (s, d) (s', d)"
| step_durable: "bus_step (s, d) (s, d')"

lemma keeps_bus_step: "bus_step x y \<Longrightarrow> keeps (fst x) (fst y)"
  by (induction rule: bus_step.induct)
    (auto simp: keeps_RegisterAgent keeps_reads keeps_CreateConversation keeps_sendMessage keeps_inject
      keeps_poll_turn keeps_ack keeps_postEvent intro: keeps_push_steps)

definition new_bus :: "store \<times> 'd \<Rightarrow> bool" where
  "new_bus x \<longleftrightarrow> (\<exists>rk allowlist epoch cfg. NewStore rk allowlist epoch cfg = Inr (fst x))"

lemma bus_inv_new:
  assumes "NewStore rk allowlist epoch cfg = Inr s"
  shows "bus_inv s"
proof -
  obtain cps cfg' where s: "s = new_store_state (normalize_config cfg') cps (parse_allowlist allowlist) epoch"
    using assms by (auto simp: NewStore_def Let_def split: sum.splits option.splits)
  have ok: "config_ok (normalize_config cfg')" by (rule config_ok_normalize)
  then show ?thesis
    by (simp add: s new_store_state_def bus_inv_def ring_inv_def inbox_inv_def inbox_ok_def messages_inv_def
        agents_inv_def links_inv_def idempotency_inv_def push_inv_def chan_inv_def observe_base_def
        get_or_def has_key_def config_ok_def)
qed

locale step_system =
  fixes init :: "'s \<Rightarrow> bool" and step :: "'s \<Rightarrow> 's \<Rightarrow> bool" and inv :: "'s \<Rightarrow> bool"
    and rel :: "'s \<Rightarrow> 's \<Rightarrow> bool"
  assumes init_inv: "init s \<Longrightarrow> inv s"
    and step_inv: "inv s \<Longrightarrow> step s t \<Longrightarrow> inv t"
    and rel_refl: "rel s s"
    and rel_trans: "rel s t \<Longrightarrow> rel t u \<Longrightarrow> rel s u"
    and step_rel: "inv s \<Longrightarrow> step s t \<Longrightarrow> rel s t"
begin

lemma steps_inv: "step\<^sup>*\<^sup>* s t \<Longrightarrow> inv s \<Longrightarrow> inv t"
  by (induction rule: rtranclp_induct) (auto intro: step_inv)

lemma reachable_inv: "init s \<Longrightarrow> step\<^sup>*\<^sup>* s t \<Longrightarrow> inv t"
  using steps_inv init_inv by blast

lemma history: "step\<^sup>*\<^sup>* s t \<Longrightarrow> inv s \<Longrightarrow> rel s t"
proof (induction rule: rtranclp_induct)
  case base
  show ?case by (rule rel_refl)
next
  case (step t u)
  then show ?case using rel_trans step_rel steps_inv by blast
qed

lemma reachable_history: "init r \<Longrightarrow> step\<^sup>*\<^sup>* r s \<Longrightarrow> step\<^sup>*\<^sup>* s t \<Longrightarrow> rel s t"
  using history reachable_inv by blast

end

interpretation bus_life: step_system new_bus bus_step "\<lambda>x. bus_inv (fst x)"
  "\<lambda>x y. evolves (fst x) (fst y)"
proof unfold_locales
  show "bus_inv (fst s)" if "new_bus s" for s :: "store \<times> 'd"
    using that bus_inv_new by (auto simp: new_bus_def)
  show "bus_inv (fst t)" if "bus_inv (fst s)" "bus_step s t" for s t :: "store \<times> 'd"
    using that keeps_bus_step [of s t] by (simp add: keeps_def)
  show "evolves (fst s) (fst t)" if "bus_inv (fst s)" "bus_step s t" for s t :: "store \<times> 'd"
    using that keeps_bus_step [of s t] by (simp add: keeps_def)
qed (auto intro: evolves_trans)

interpretation bus_waits: step_system new_bus bus_step "\<lambda>x. bus_inv (fst x)"
  "\<lambda>x y. wakes (fst x) (fst y)"
proof unfold_locales
  show "bus_inv (fst s)" if "new_bus s" for s :: "store \<times> 'd"
    using that bus_inv_new by (auto simp: new_bus_def)
  show "bus_inv (fst t)" if "bus_inv (fst s)" "bus_step s t" for s t :: "store \<times> 'd"
    using that keeps_bus_step [of s t] by (simp add: keeps_def)
  show "wakes (fst s) (fst t)" if "bus_inv (fst s)" "bus_step s t" for s t :: "store \<times> 'd"
    using that keeps_bus_step [of s t] by (simp add: keeps_def)
qed (auto intro: wakes_trans)

end
