(* ===== verification/Bus_Examples.thy ===== *)
theory Bus_Examples
  imports Bus_Steps
begin

text \<open>
  A small scenario the properties are tried on: a strict bus with one control-plane identity, on
  which \<^verbatim>\<open>ucla.a\<close> and \<^verbatim>\<open>ucla.b\<close> register and \<^verbatim>\<open>ucla.a\<close> sends \<^verbatim>\<open>ucla.b\<close> a request. The clock does not
  move, so only the first operation sweeps. SHA-256 is the identity here.
\<close>

definition ex_config :: config where
  "ex_config =
     \<lparr>cfg_GracePeriod = 0, cfg_ProgressMinInterval = 0, cfg_IdempotencyWindow = 0,
      cfg_InboxWaitMax = 0, cfg_AckTimeout = 0, cfg_DefaultMessageTTL = 0,
      cfg_DefaultRegistrationTTL = 0, cfg_PushMaxAttempts = 0, cfg_PushBaseBackoff = 0,
      cfg_PushQueueSize = 0, cfg_PushWorkers = 0, cfg_PushShutdownTimeout = 0,
      cfg_MaxInboxEventsPerAgent = 0, cfg_MaxObserveEvents = 0, cfg_MaxInboxBytesPerAgent = -1,
      cfg_MaxObserveBytes = -1, cfg_MessageRetention = 0, cfg_MessageMaxAge = 0,
      cfg_ConversationRetention = 0, cfg_AgentRetention = 0, cfg_SweepMinInterval = 0,
      cfg_NamespaceMode = NamespaceModeStrict, cfg_LegacyScope = ScopeOther [],
      cfg_SharedGrantAgents = [], cfg_ControlPlaneAgents = [''router''],
      cfg_ControlPlaneAgentSecretHashes = [(''router'', ''secret'')]\<rparr>"

definition ex0 :: store where
  "ex0 = new_store_state (normalize_config ex_config) [''router''] [] ''e''"

definition ex_orders :: orders where
  "ex_orders = (\<lambda>_ _. 0)"

definition ex_time :: time where
  "ex_time = 63000000000 * Second"

definition ex_register :: "string \<Rightarrow> register_agent_input" where
  "ex_register a =
     \<lparr>ra_AgentID = a, ra_Secret = [], ra_AllowedScopes = [], ra_SharedGrants = [],
      ra_Capabilities = [], ra_Version = [], ra_Description = [], ra_AgentClass = [],
      ra_MutationClass = [], ra_Build = None, ra_Meta = None, ra_Mode = AgentModeOther [],
      ra_CallbackURL = [], ra_TTLSeconds = 60\<rparr>"

definition ex_agent :: "string \<Rightarrow> agent" where
  "ex_agent a =
     \<lparr>a_AgentID = a, a_AllowedScopes = [''ucla''], a_SharedGrants = [], a_Capabilities = [],
      a_Version = [], a_Description = [], a_AgentClass = [], a_MutationClass = [], a_Build = None,
      a_Meta = None, a_Mode = AgentModePull, a_CallbackURL = [], a_Status = AgentStatusActive,
      a_RegisteredAt = ex_time, a_ExpiresAt = ex_time + Minute, a_TTLSeconds = 60\<rparr>"

definition ex_send :: send_message_input where
  "ex_send =
     \<lparr>sm_To = ''ucla.b'', sm_From = ''ucla.a'', sm_ConversationID = [], sm_RequestID = ''r1'',
      sm_Type = MessageTypeOther [], sm_Body = ''hi'', sm_Meta = JNull, sm_Attachments = [],
      sm_TTLSeconds = 0, sm_InReplyTo = []\<rparr>"

definition ex_message :: message where
  "ex_message =
     \<lparr>m_MessageID = ''m-000001'', m_Type = MessageTypeRequest, m_From = ''ucla.a'', m_To = ''ucla.b'',
      m_ConversationID = ''c-000001'', m_RequestID = ''r1'', m_InReplyTo = [], m_Body = ''hi'',
      m_Meta = JNull, m_Attachments = [], m_State = StateWaitingAck, m_CreatedAt = ex_time,
      m_TerminalAt = 0, m_DeliveredAt = ex_time, m_LastProgressAt = 0,
      m_TTLExpiresAt = ex_time + 600 * Second, m_GraceUntil = 0, m_QueuedForAgent = False\<rparr>"

definition ex1 :: store where
  "ex1 = snd (RegisterAgent id ex_orders ex_time (ex_register ''ucla.a'') ex0)"

definition ex2 :: store where
  "ex2 = snd (RegisterAgent id ex_orders ex_time (ex_register ''ucla.b'') ex1)"

definition ex3 :: store where
  "ex3 = fst (snd (sendMessage ex_orders ex_time (None :: unit barrier) ex_send ex2 ()))"

section \<open>Evaluation\<close>

lemma ex0_new: "NewStore (\<lambda>_. 0) [] ''e'' ex_config = Inr ex0"
proof -
  have "NormalizeControlPlaneAgents [''router''] = Inr [''router'']" by code_simp
  moreover have "check_control_plane_hashes [(''router'', ''secret'')] [''router''] = None" by code_simp
  moreover have "check_hash_identities [''router''] [''router''] = None" by code_simp
  moreover have "parse_allowlist [] = []" by code_simp
  moreover have "normalize_config (ex_config\<lparr>cfg_ControlPlaneAgents := [''router'']\<rparr>) = normalize_config ex_config"
    and "cfg_ControlPlaneAgents ex_config = [''router'']"
    and "cfg_ControlPlaneAgentSecretHashes ex_config = [(''router'', ''secret'')]"
    by (simp_all add: ex_config_def)
  ultimately show ?thesis
    by (simp add: NewStore_def ex0_def Let_def range_keys_def del: check_control_plane_hashes.simps
        check_hash_identities.simps)
qed

lemma sweepLocked_skip:
  "\<not> sweep_due now s \<Longrightarrow> sweepLocked R now s = s\<lparr>s_sweepSkipped := Suc (s_sweepSkipped s)\<rparr>"
  by (simp add: sweepLocked_def)

lemma update_nothing:
  "s_idempotency (s :: store) = [] \<Longrightarrow> s\<lparr>s_idempotency := []\<rparr> = s"
  "s_messages (s :: store) = [] \<Longrightarrow> s\<lparr>s_messages := []\<rparr> = s"
  "s_conversations (s :: store) = [] \<Longrightarrow> s_conversationMessages s = [] \<Longrightarrow>
     s\<lparr>s_conversations := [], s_conversationMessages := []\<rparr> = s"
  by (cases s; simp)+

lemma sweepLocked_empty:
  assumes "sweep_due now s" and "s_agents s = []" and "s_messages s = []" and "s_idempotency s = []"
    and "s_conversations s = []" and "s_conversationMessages s = []"
  shows "sweepLocked R now s = s\<lparr>s_lastSweepAt := now, s_sweepRan := Suc (s_sweepRan s)\<rparr>"
proof -
  define s0 where "s0 = s\<lparr>s_lastSweepAt := now, s_sweepRan := Suc (s_sweepRan s)\<rparr>"
  have empty: "s_agents s0 = []" "s_messages s0 = []" "s_idempotency s0 = []" "s_conversations s0 = []"
    "s_conversationMessages s0 = []"
    using assms by (simp_all add: s0_def)
  have "sweep_idempotency now s0 = s0" "prune_messages now s0 = s0" "prune_conversations now s0 = s0"
    by (simp_all add: sweep_idempotency_def prune_messages_def prune_conversations_def empty update_nothing)
  moreover have "sweep_agents rk now s0 = s0" "sweep_messages rk now s0 = s0" "prune_agents rk now s0 = s0" for rk
    by (simp_all add: sweep_agents_def sweep_messages_def prune_agents_def range_keys_def empty)
  ultimately show ?thesis
    using assms(1) by (simp add: sweepLocked_def pruneLocked_def Let_def s0_def)
qed

lemma ex0_fields:
  "s_cfg ex0 = normalize_config ex_config" "s_controlPlaneAgents ex0 = [''router'']"
  "s_agents ex0 = []" "s_messages ex0 = []" "s_conversations ex0 = []" "s_conversationMessages ex0 = []"
  "s_inboxes ex0 = []" "s_inboxBase ex0 = []" "s_inboxBytes ex0 = []" "s_idempotency ex0 = []"
  "s_inboxNotify ex0 = []" "s_nextMessageID ex0 = 0" "s_nextConversationID ex0 = 0"
  "s_nextObserveID ex0 = 0" "s_lastSweepAt ex0 = 0"
  by (simp_all add: ex0_def new_store_state_def)

text \<open>The names of the scenario, under the policy all its stores have.\<close>

definition ex_policy :: policy where
  "ex_policy = \<lparr>s_cfg = normalize_config ex_config, s_controlPlaneAgents = [''router'']\<rparr>"

definition same_policy :: "store \<Rightarrow> bool" where
  "same_policy s \<longleftrightarrow> s_cfg s = s_cfg ex_policy \<and> s_controlPlaneAgents s = s_controlPlaneAgents ex_policy"

lemma ex_names:
  "TrimSpace ''ucla.a'' = ''ucla.a''" "TrimSpace ''ucla.b'' = ''ucla.b''" "TrimSpace ''r1'' = ''r1''"
  "TrimSpace ''hi'' = ''hi''"
  by code_simp+

lemma ex_policy_names:
  "acceptsName ex_policy ''ucla.a''" "acceptsName ex_policy ''ucla.b''"
  "\<not> isConfiguredControlPlaneAgent ex_policy ''ucla.a''" "\<not> isConfiguredControlPlaneAgent ex_policy ''ucla.b''"
  "agentAllowedScopes ex_policy ''ucla.a'' = [''ucla'']" "agentAllowedScopes ex_policy ''ucla.b'' = [''ucla'']"
  "agentSharedGrants ex_policy ''ucla.a'' = []" "agentSharedGrants ex_policy ''ucla.b'' = []"
  "authorizeAgentForName ex_policy ''ucla.a'' ''ucla.a'' = None"
  "authorizeAgentForName ex_policy ''ucla.b'' ''ucla.b'' = None"
  "authorizeSendTarget ex_policy ''ucla.a'' ''ucla.b'' = None"
  "agentCanAccessName ex_policy ''ucla.a'' ''ucla.a''" "agentCanAccessName ex_policy ''ucla.a'' ''ucla.b''"
  by code_simp+

lemma same_policy_eval:
  assumes "same_policy s"
  shows "acceptsName s n = acceptsName ex_policy n"
    and "isConfiguredControlPlaneAgent s n = isConfiguredControlPlaneAgent ex_policy n"
    and "agentAllowedScopes s n = agentAllowedScopes ex_policy n"
    and "agentSharedGrants s n = agentSharedGrants ex_policy n"
    and "authorizeAgentForName s n r = authorizeAgentForName ex_policy n r"
    and "authorizeSendTarget s n r = authorizeSendTarget ex_policy n r"
    and "agentCanAccessName s n r = agentCanAccessName ex_policy n r"
  unfolding authorizeSendTarget_def authorizeAgentForName_def agentCanAccessName_def agentHasSharedGrant_def
    agentHasScope_def policy_defs conjunct1 [OF assms [unfolded same_policy_def]]
    conjunct2 [OF assms [unfolded same_policy_def]]
  by (rule refl)+

lemma ex_register_check:
  "same_policy s \<Longrightarrow> register_check id (ex_register ''ucla.a'') s = None"
  "same_policy s \<Longrightarrow> register_check id (ex_register ''ucla.b'') s = None"
proof -
  have "normalizeScopes [] = Inr []" "normalizeSharedGrants [] = Inr []" by code_simp+
  then show "same_policy s \<Longrightarrow> register_check id (ex_register ''ucla.a'') s = None"
    "same_policy s \<Longrightarrow> register_check id (ex_register ''ucla.b'') s = None"
    by (simp_all add: register_check_def register_mode_def ex_register_def Let_def ex_names same_policy_eval
        ex_policy_names)
qed

lemma ex_registered_agent:
  assumes "same_policy s" and "map_of (s_agents s) a = None" and "a = ''ucla.a'' \<or> a = ''ucla.b''"
  shows "registered_agent ex_time (ex_register a) s = ex_agent a"
proof -
  have "seconds_dur 60 = Minute" by code_simp
  then show ?thesis
    using assms
    by (auto simp: registered_agent_def ex_register_def ex_agent_def register_mode_def register_ttl_def Let_def
        ex_names same_policy_eval ex_policy_names Add_def)
qed

lemma ex_skip:
  assumes "s_cfg s = normalize_config ex_config" and "s_lastSweepAt s = ex_time"
  shows "sweepLocked R ex_time s = s\<lparr>s_sweepSkipped := Suc (s_sweepSkipped s)\<rparr>"
  using assms
  by (intro sweepLocked_skip) (simp add: sweep_due_def IsZero_def ex_time_def normalize_config_def or_default_def
      ex_config_def)

lemma ex_config_fields:
  "cfg_DefaultMessageTTL (normalize_config ex_config) = 600 * Second"
  "cfg_IdempotencyWindow (normalize_config ex_config) = 24 * Hour"
  "cfg_GracePeriod (normalize_config ex_config) = 30 * Second"
  "cfg_MaxInboxEventsPerAgent (normalize_config ex_config) = 10000"
  "cfg_MaxInboxBytesPerAgent (normalize_config ex_config) = 0"
  "cfg_InboxWaitMax (normalize_config ex_config) = 60 * Second"
  by (simp_all add: normalize_config_def or_default_def or_disabled_def ex_config_def)

lemma ex1_fields:
  "same_policy ex1" "s_lastSweepAt ex1 = ex_time"
  "s_agents ex1 = [(''ucla.a'', ex_agent ''ucla.a'')]"
  "s_messages ex1 = []" "s_conversations ex1 = []" "s_conversationMessages ex1 = []"
  "s_inboxes ex1 = [(''ucla.a'', [])]" "s_inboxBase ex1 = [(''ucla.a'', 0)]"
  "s_inboxBytes ex1 = [(''ucla.a'', 0)]" "s_idempotency ex1 = []" "s_inboxNotify ex1 = []"
  "s_nextMessageID ex1 = 0" "s_nextConversationID ex1 = 0" "s_nextObserveID ex1 = 1"
proof -
  let ?s = "sweepLocked ex_orders ex_time ex0"
  have sw: "?s = ex0\<lparr>s_lastSweepAt := ex_time, s_sweepRan := Suc (s_sweepRan ex0)\<rparr>"
    by (intro sweepLocked_empty) (simp_all add: ex0_fields sweep_due_def IsZero_def)
  have pol: "same_policy ex0" "same_policy ?s" by (simp_all add: same_policy_def ex_policy_def ex0_fields)
  have agent: "registered_agent ex_time (ex_register ''ucla.a'') ?s = ex_agent ''ucla.a''"
    using pol(2) by (intro ex_registered_agent) (simp_all add: sw ex0_fields)
  have id: "TrimSpace (ra_AgentID (ex_register ''ucla.a'')) = ''ucla.a''"
    by (simp add: ex_register_def ex_names)
  obtain dat where ex1: "ex1 = publishLocked ObserveAgentRegistered dat [] [''ucla.a''] ex_time
      (install_agent ''ucla.a'' (ex_agent ''ucla.a'') ?s)"
    using ex_register_check(1) [OF pol(1)]
    by (simp add: ex1_def RegisterAgent_def Let_def agent id same_policy_eval [OF pol(2)] ex_policy_names
        ex_agent_def)
  note defs = ex1 install_agent_def Let_def sw ex0_fields has_key_def publishLocked_ring
  show "same_policy ex1" by (simp add: defs same_policy_def ex_policy_def)
  show "s_lastSweepAt ex1 = ex_time" "s_agents ex1 = [(''ucla.a'', ex_agent ''ucla.a'')]"
    "s_messages ex1 = []" "s_conversations ex1 = []" "s_conversationMessages ex1 = []"
    "s_inboxes ex1 = [(''ucla.a'', [])]" "s_inboxBase ex1 = [(''ucla.a'', 0)]"
    "s_inboxBytes ex1 = [(''ucla.a'', 0)]" "s_idempotency ex1 = []" "s_inboxNotify ex1 = []"
    "s_nextMessageID ex1 = 0" "s_nextConversationID ex1 = 0" "s_nextObserveID ex1 = 1"
    by (simp_all add: defs)
qed

lemma publishLocked_ring_nonempty: "s_observeEvents (publishLocked ty d cid ids at s) \<noteq> []"
  using observe_evicted_le [of "observe_entry (ty, d, cid, ids, at) s" s] by (simp add: publishLocked_ring)

lemma ex2_fields:
  "same_policy ex2" "s_lastSweepAt ex2 = ex_time"
  "s_agents ex2 = [(''ucla.a'', ex_agent ''ucla.a''), (''ucla.b'', ex_agent ''ucla.b'')]"
  "s_messages ex2 = []" "s_conversations ex2 = []" "s_conversationMessages ex2 = []"
  "s_inboxes ex2 = [(''ucla.a'', []), (''ucla.b'', [])]"
  "s_inboxBase ex2 = [(''ucla.a'', 0), (''ucla.b'', 0)]"
  "s_inboxBytes ex2 = [(''ucla.a'', 0), (''ucla.b'', 0)]" "s_idempotency ex2 = []"
  "s_inboxNotify ex2 = []" "s_nextMessageID ex2 = 0" "s_nextConversationID ex2 = 0"
  "s_nextObserveID ex2 = 2" "s_observeEvents ex2 \<noteq> []"
proof -
  let ?s = "sweepLocked ex_orders ex_time ex1"
  have sw: "?s = ex1\<lparr>s_sweepSkipped := Suc (s_sweepSkipped ex1)\<rparr>"
    using ex1_fields(1,2) by (intro ex_skip) (auto simp: same_policy_def ex_policy_def)
  have pol: "same_policy ex1" "same_policy ?s"
    using ex1_fields(1) by (simp_all add: same_policy_def sw)
  have agent: "registered_agent ex_time (ex_register ''ucla.b'') ?s = ex_agent ''ucla.b''"
    using pol(2) by (intro ex_registered_agent) (simp_all add: sw ex1_fields)
  have id: "TrimSpace (ra_AgentID (ex_register ''ucla.b'')) = ''ucla.b''"
    by (simp add: ex_register_def ex_names)
  obtain dat where ex2: "ex2 = publishLocked ObserveAgentRegistered dat [] [''ucla.b''] ex_time
      (install_agent ''ucla.b'' (ex_agent ''ucla.b'') ?s)"
    using ex_register_check(2) [OF pol(1)]
    by (simp add: ex2_def RegisterAgent_def Let_def agent id same_policy_eval [OF pol(2)] ex_policy_names
        ex_agent_def)
  note defs = ex2 install_agent_def Let_def sw ex1_fields has_key_def publishLocked_ring
  show "same_policy ex2" using ex1_fields(1) by (simp add: defs same_policy_def)
  show "s_lastSweepAt ex2 = ex_time"
    "s_agents ex2 = [(''ucla.a'', ex_agent ''ucla.a''), (''ucla.b'', ex_agent ''ucla.b'')]"
    "s_messages ex2 = []" "s_conversations ex2 = []" "s_conversationMessages ex2 = []"
    "s_inboxes ex2 = [(''ucla.a'', []), (''ucla.b'', [])]"
    "s_inboxBase ex2 = [(''ucla.a'', 0), (''ucla.b'', 0)]"
    "s_inboxBytes ex2 = [(''ucla.a'', 0), (''ucla.b'', 0)]" "s_idempotency ex2 = []"
    "s_inboxNotify ex2 = []" "s_nextMessageID ex2 = 0" "s_nextConversationID ex2 = 0"
    "s_nextObserveID ex2 = 2"
    by (simp_all add: defs)
  show "s_observeEvents ex2 \<noteq> []" unfolding ex2 by (rule publishLocked_ring_nonempty)
qed

lemma ex_reachable:
  "bus_step\<^sup>*\<^sup>* (ex0, ()) (ex1, ())" "bus_step\<^sup>*\<^sup>* (ex1, ()) (ex2, ())" "bus_step\<^sup>*\<^sup>* (ex2, ()) (ex3, ())"
proof -
  show "bus_step\<^sup>*\<^sup>* (ex0, ()) (ex1, ())" "bus_step\<^sup>*\<^sup>* (ex1, ()) (ex2, ())"
    unfolding ex1_def ex2_def by (rule r_into_rtranclp, rule step_register)+
  have "snd (sendMessage ex_orders ex_time (None :: unit barrier) ex_send ex2 ()) = (ex3, ())"
    by (simp add: ex3_def prod_eq_iff)
  then show "bus_step\<^sup>*\<^sup>* (ex2, ()) (ex3, ())" by (metis step_send r_into_rtranclp)
qed

lemma ex_inv: "bus_inv ex0" "bus_inv ex1" "bus_inv ex2" "bus_inv ex3"
proof -
  show i0: "bus_inv ex0" by (rule bus_inv_new [OF ex0_new])
  then show i1: "bus_inv ex1" using ex_reachable(1) bus_life.steps_inv [of "(ex0, ())" "(ex1, ())"] by simp
  then show i2: "bus_inv ex2" using ex_reachable(2) bus_life.steps_inv [of "(ex1, ())" "(ex2, ())"] by simp
  then show "bus_inv ex3" using ex_reachable(3) bus_life.steps_inv [of "(ex2, ())" "(ex3, ())"] by simp
qed

definition ex_conversation :: conversation where
  "ex_conversation =
     \<lparr>c_ConversationID = ''c-000001'', c_Title = [], c_Participants = [''ucla.a'', ''ucla.b''],
      c_Status = ''active'', c_MessageCount = 1, c_CreatedAt = ex_time, c_LastMessageAt = ex_time,
      c_Meta = JNull\<rparr>"

definition ex_acceptance :: send_acceptance where
  "ex_acceptance =
     \<lparr>sa_message = ex_message, sa_conversation = ex_conversation, sa_conversationPos = 0,
      sa_nextConversationID = 1, sa_nextMessageID = 1,
      sa_idempotencyKey = dedupeKey ''ucla.a'' ''ucla.b'' ''r1'',
      sa_idempotency = \<lparr>ie_MessageID = ''m-000001'', ie_CreatedAt = ex_time\<rparr>,
      sa_inboxEvent = Some (inbox_event_of ex_message), sa_pushURL = [], sa_pushPayload = None,
      sa_pushReceipt = None\<rparr>"

lemma ex_send_eval:
  "sendMessage ex_orders ex_time commit ex_send ex2 d =
     (let s1 = ex2\<lparr>s_sweepSkipped := Suc (s_sweepSkipped ex2)\<rparr> in
      case run_barrier commit ex_acceptance d of
        (Inl err, d') \<Rightarrow> (Inl err, s1, d')
      | (Inr acc, d') \<Rightarrow> (Inr (sa_message acc, False), accept_send ex_time acc s1, d'))"
proof -
  let ?s = "sweepLocked ex_orders ex_time ex2"
  have sw: "?s = ex2\<lparr>s_sweepSkipped := Suc (s_sweepSkipped ex2)\<rparr>"
    using ex2_fields(1,2) by (intro ex_skip) (auto simp: same_policy_def ex_policy_def)
  have pol: "same_policy ex2" "same_policy ?s"
    using ex2_fields(1) by (simp_all add: same_policy_def sw)
  have trims: "TrimSpace (sm_From ex_send) = ''ucla.a''" "TrimSpace (sm_To ex_send) = ''ucla.b''"
    "TrimSpace (sm_RequestID ex_send) = ''r1''" "TrimSpace (sm_Body ex_send) = ''hi''"
    "TrimSpace (sm_ConversationID ex_send) = []" "TrimSpace (sm_InReplyTo ex_send) = []"
    by (simp_all add: ex_send_def ex_names)
  have check: "send_check ex_send ex2 = None"
    by (simp add: send_check_def Let_def trims send_type_def same_policy_eval [OF pol(1)] ex_policy_names)
      (simp add: ex_send_def)
  have auth: "send_authorize ''ucla.a'' ''ucla.b'' ?s = Inr (ex_agent ''ucla.b'')"
    using same_policy_eval [OF pol(2)]
    by (simp add: send_authorize_def sw ex2_fields ex_agent_def ex_policy_names)
  have dedup: "dedup_hit ex_time ''ucla.a'' ''ucla.b'' ''r1'' ?s = None"
    by (simp add: dedup_hit_def sw ex2_fields)
  have ids: "conversation_id 1 = ''c-000001''" "message_id 1 = ''m-000001''"
    "seconds_dur 600 = 600000000000" "dur_seconds 600000000000 = 600" by code_simp+
  have cfg: "s_cfg ex2 = normalize_config ex_config" using pol(1) by (simp add: same_policy_def ex_policy_def)
  have conv: "send_conversation ex_time ''ucla.a'' ''ucla.b'' (sm_ConversationID ex_send) ?s =
      Inr (1, ex_conversation\<lparr>c_MessageCount := 0\<rparr>)"
  proof -
    have "authorizeActorForNames ?s ''ucla.a'' [''ucla.a''] = None"
      by (simp add: authorizeActorForNames_def Let_def ex_names ex_policy_names same_policy_eval(7) [OF pol(2)])
    moreover have "s_conversations ?s = []" by (simp add: sw ex2_fields)
    ultimately show ?thesis
      by (simp add: send_conversation_def Let_def trims ex2_fields ids ex_conversation_def)
  qed
  have ttl: "send_ttl ex_send ?s = 600"
    by (simp add: send_ttl_def cfg ex_config_fields ids) (simp add: ex_send_def)
  have ty: "send_type ex_send = MessageTypeRequest" by (simp add: send_type_def ex_send_def)
  have plan: "send_plan ex_time ex_send (ex_agent ''ucla.b'') ?s = Inr ex_acceptance"
    by (simp add: send_plan_def trims conv Let_def expired_beyond_grace_def ex_agent_def new_message_def
        route_message_def ty ttl ids Add_def)
      (simp add: sw ex2_fields ids ex_acceptance_def ex_conversation_def ex_message_def ex_send_def get_or_def
        inbox_event_of_def)
  show ?thesis
    by (simp add: sendMessage_def check trims auth dedup plan Let_def)
      (simp add: sw split: prod.splits sum.splits)
qed

lemma ex3_accepted:
  "ex3 = accept_send ex_time ex_acceptance (ex2\<lparr>s_sweepSkipped := Suc (s_sweepSkipped ex2)\<rparr>)"
  by (simp add: ex3_def ex_send_eval run_barrier_def Let_def)

lemma ex3_fields:
  "same_policy ex3" "s_lastSweepAt ex3 = ex_time" "s_agents ex3 = s_agents ex2"
  "s_messages ex3 = [(''m-000001'', ex_message)]"
  "s_conversations ex3 = [(''c-000001'', ex_conversation)]"
  "s_conversationMessages ex3 = [(''c-000001'', [''m-000001''])]"
  "s_idempotency ex3 =
     [(dedupeKey ''ucla.a'' ''ucla.b'' ''r1'', \<lparr>ie_MessageID = ''m-000001'', ie_CreatedAt = ex_time\<rparr>)]"
  "s_nextMessageID ex3 = 1" "s_nextConversationID ex3 = 1" "s_nextObserveID ex3 = 3"
  "inbox_of ex3 ''ucla.b'' = [inbox_event_of ex_message]" "inbox_base ex3 ''ucla.b'' = 0"
proof -
  note defs = ex3_accepted accept_send_def install_message_def deliver_inbox_def publish_message_def
    push_and_finish_def ex_acceptance_def finishAcceptance_def Let_def
  show "same_policy ex3" using ex2_fields(1) by (simp add: defs same_policy_def)
  show "s_lastSweepAt ex3 = ex_time" "s_agents ex3 = s_agents ex2"
    "s_messages ex3 = [(''m-000001'', ex_message)]"
    "s_conversations ex3 = [(''c-000001'', ex_conversation)]"
    "s_conversationMessages ex3 = [(''c-000001'', [''m-000001''])]"
    "s_idempotency ex3 =
       [(dedupeKey ''ucla.a'' ''ucla.b'' ''r1'', \<lparr>ie_MessageID = ''m-000001'', ie_CreatedAt = ex_time\<rparr>)]"
    "s_nextMessageID ex3 = 1" "s_nextConversationID ex3 = 1" "s_nextObserveID ex3 = 3"
    by (simp_all add: defs ex2_fields publishLocked_ring ex_message_def ex_conversation_def get_or_def)
  show "inbox_of ex3 ''ucla.b'' = [inbox_event_of ex_message]" "inbox_base ex3 ''ucla.b'' = 0"
  proof -
    have "inbox_of ex2 ''ucla.b'' = []" "inbox_base ex2 ''ucla.b'' = 0" "inbox_bytes ex2 ''ucla.b'' = 0"
      by (simp_all add: ex2_fields get_or_def)
    then show "inbox_of ex3 ''ucla.b'' = [inbox_event_of ex_message]" "inbox_base ex3 ''ucla.b'' = 0"
      using ex2_fields(1)
      by (simp_all add: defs appendInboxLocked_tables ex_message_def inbox_evicted_def
          same_policy_def ex_policy_def evict_count_def ex_config_fields)
  qed
qed

text \<open>The recipient accepts the request; and it polls an inbox it has read to the end.\<close>

definition ex_ack :: ack_input where
  "ex_ack = \<lparr>ak_AgentID = ''ucla.b'', ak_MessageID = ''m-000001'', ak_Status = ''accepted'', ak_Reason = []\<rparr>"

definition ex4 :: store where
  "ex4 = fst (snd (ack ex_orders ex_time (None :: unit message_barrier) ex_ack ex3 ()))"

definition ex_poll :: "int \<Rightarrow> poll_inbox_input" where
  "ex_poll c = \<lparr>pi_AgentID = ''ucla.b'', pi_Cursor = c, pi_Wait = Second, pi_Limit = 0\<rparr>"

lemma ex_poll_fields [simp]:
  "pi_AgentID (ex_poll c) = ''ucla.b''" "pi_Cursor (ex_poll c) = c" "pi_Limit (ex_poll c) = 0"
  by (simp_all add: ex_poll_def)

lemma ex_ack_names: "TrimSpace ''m-000001'' = ''m-000001''" "TrimSpace ''accepted'' = ''accepted''"
  by code_simp+

lemma ex4_fields:
  "s_messages ex4 = [(''m-000001'', ex_message\<lparr>m_State := StateExecuting\<rparr>)]"
  "s_nextObserveID ex4 = 5" "s_agents ex4 = s_agents ex2"
proof -
  let ?s = "sweepLocked ex_orders ex_time ex3"
  have sw: "?s = ex3\<lparr>s_sweepSkipped := Suc (s_sweepSkipped ex3)\<rparr>"
    using ex3_fields(1,2) by (intro ex_skip) (auto simp: same_policy_def ex_policy_def)
  have m: "acked ex_time ''accepted'' ex_message = ex_message\<lparr>m_State := StateExecuting\<rparr>"
    by (simp add: acked_def ex_message_def IsZero_def ex_time_def Let_def)
  have "ack_check ex_ack = None" by (simp add: ack_check_def ex_ack_def ex_names ex_ack_names Let_def)
  moreover have "TrimSpace (ak_AgentID ex_ack) = ''ucla.b''" "TrimSpace (ak_MessageID ex_ack) = ''m-000001''"
    "TrimSpace (ak_Status ex_ack) = ''accepted''"
    by (simp_all add: ex_ack_def ex_names ex_ack_names)
  moreover have "m_Type ex_message = MessageTypeRequest" "m_To ex_message = ''ucla.b''"
    "m_From ex_message = ''ucla.a''" "m_ConversationID ex_message = ''c-000001''" "\<not> isTerminal (m_State ex_message)"
    by (simp_all add: ex_message_def)
  ultimately obtain d1 d2 where ex4: "ex4 = publishLocked ObserveStateChange d2 ''c-000001'' [''ucla.a'', ''ucla.b''] ex_time
      (publishLocked ObserveAck d1 ''c-000001'' [''ucla.a'', ''ucla.b''] ex_time
        (?s\<lparr>s_messages := AList.update ''m-000001'' (ex_message\<lparr>m_State := StateExecuting\<rparr>) (s_messages ?s)\<rparr>))"
    by (simp add: ex4_def ack_def sw ex3_fields Let_def run_message_barrier_def publish_transition_def m)
  show "s_messages ex4 = [(''m-000001'', ex_message\<lparr>m_State := StateExecuting\<rparr>)]"
    "s_nextObserveID ex4 = 5" "s_agents ex4 = s_agents ex2"
    by (simp_all add: ex4 sw ex3_fields publishLocked_ring)
qed

lemma ex4_reachable: "bus_step\<^sup>*\<^sup>* (ex3, ()) (ex4, ())"
proof -
  have "snd (ack ex_orders ex_time (None :: unit message_barrier) ex_ack ex3 ()) = (ex4, ())"
    by (simp add: ex4_def prod_eq_iff)
  then show ?thesis by (metis step_ack r_into_rtranclp)
qed

lemma ex_poll_ready:
  assumes "same_policy s" and "s_lastSweepAt s = ex_time"
    and "map_of (s_agents s) ''ucla.b'' = Some (ex_agent ''ucla.b'')"
  shows "sweepLocked R ex_time s = s\<lparr>s_sweepSkipped := Suc (s_sweepSkipped s)\<rparr>"
    and "may_poll (sweepLocked R ex_time s) (TrimSpace (pi_AgentID (ex_poll c)))"
proof -
  let ?s = "sweepLocked R ex_time s"
  show sw: "?s = s\<lparr>s_sweepSkipped := Suc (s_sweepSkipped s)\<rparr>"
    using assms(1,2) by (intro ex_skip) (auto simp: same_policy_def ex_policy_def)
  have pol: "same_policy ?s" using assms(1) by (simp add: same_policy_def)
  have "authorizeAgentForName ?s ''ucla.b'' ''ucla.b'' = None"
    using same_policy_eval [OF pol] by (simp add: ex_policy_names)
  then show "may_poll ?s (TrimSpace (pi_AgentID (ex_poll c)))"
    using assms(3) by (simp add: may_poll_def ex_names sw ex_agent_def)
qed

end
