(* ===== verification/Reading.thy ===== *)
theory Reading
  imports Bus_Examples
begin

text \<open>
  What readers get: inbox polls, observer streams, conversation pages and agent lists. The locale
  \<open>cursor_log\<close> carries the statements about readers that come back with the cursor they were given.
\<close>

section \<open>Helpers\<close>

lemma ring_ids:
  assumes "ring_inv s" and "i < length (s_observeEvents s)"
  shows "o_ID (s_observeEvents s ! i) = observe_base s + 1 + int i"
  using assms by (simp add: ring_inv_def)

text \<open>Bisection finds the first event past a position because identifiers are consecutive.\<close>

lemma observe_search:
  assumes "ring_inv s"
  defines "es \<equiv> s_observeEvents s"
  shows "drop (sort_Search (length es) (\<lambda>i. o_ID (es ! i) > c)) es = filter (\<lambda>e. o_ID e > c) es"
proof -
  let ?n = "sort_Search (length es) (\<lambda>i. o_ID (es ! i) > c)"
  have "?n \<le> length es \<and> (\<forall>k < length es. o_ID (es ! k) > c \<longleftrightarrow> ?n \<le> k)"
    using ring_ids [OF assms(1)] by (intro sort_Search_correct) (auto simp: es_def)
  then have n: "?n \<le> length es" "\<And>k. k < length es \<Longrightarrow> o_ID (es ! k) > c \<longleftrightarrow> ?n \<le> k" by auto
  have "filter (\<lambda>e. o_ID e > c) (take ?n es) = []"
    using n by (auto simp: filter_empty_conv in_set_conv_nth)
  moreover have "filter (\<lambda>e. o_ID e > c) (drop ?n es) = drop ?n es"
    using n by (auto simp: filter_id_conv in_set_conv_nth)
  ultimately show ?thesis by (metis append_Nil append_take_drop_id filter_append)
qed

section \<open>Observers\<close>

text \<open>
  C34. \<^verbatim>\<open>ObserveSince\<close> finds its starting point by binary search; on every reachable store the result
  is what a scan of the whole ring would give: the retained events with an identifier past the
  cursor that match the filter, in order, and the identifier of the last of them as the next
  cursor (the old cursor when there is none).
\<close>

theorem observe_select_correct:
  assumes "bus_inv s"
  shows "observe_select s afterID flt =
    (let out = filter (\<lambda>e. o_ID e > afterID \<and> eventMatchesFilter s e flt) (s_observeEvents s)
     in (out, if out = [] then afterID else o_ID (last out)))"
proof -
  have "ring_inv s" using assms by (simp add: bus_inv_def)
  from observe_search [OF this, of afterID] show ?thesis
    by (simp add: observe_select_filter Let_def conj_commute)
qed

theorem observe_select_correct_witness:
  "fst (observe_select ex2 2 \<lparr>of_ConversationID = [], of_AgentID = [], of_ActorAgentID = []\<rparr>) = []"
proof -
  have "\<not> 2 < o_ID e" if "e \<in> set (s_observeEvents ex2)" for e
    using that ex_inv(3) ex2_fields(14)
    by (auto simp: bus_inv_def ring_inv_def observe_base_def in_set_conv_nth)
  then show ?thesis
    unfolding observe_select_correct [OF ex_inv(3)] Let_def by (auto simp: filter_empty_conv)
qed

section \<open>Inboxes\<close>

lemma clamp_bounds:
  "base \<le> stop \<Longrightarrow> base \<le> clamp_cursor c base stop \<and> clamp_cursor c base stop \<le> stop"
  by (simp add: clamp_cursor_def Let_def)

text \<open>
  A poll that does not wait returns exactly the events the agent has not read: those from its
  cursor on (moved into the retained range), cut to the limit it asked for, with the position after
  the last one as the next cursor. The events before the cursor are reclaimed, the others stay for
  a retry, and no other inbox is touched.
\<close>

theorem poll_page:
  fixes R :: orders and now :: time and s :: store and input :: poll_inbox_input
  defines "s1 \<equiv> sweepLocked R now s" and "a \<equiv> TrimSpace (pi_AgentID input)"
  defines "c \<equiv> clamp_cursor (pi_Cursor input) (inbox_base s1 a) (inbox_end s1 a)"
  defines "unread \<equiv> since_cursor (inbox_of s1 a) (inbox_base s1 a) c"
  defines "page \<equiv> limit_page (pi_Limit input) unread"
  assumes "may_poll s1 a"
  shows "\<exists>s2. poll_turn R now later None input deadline 0 s d =
      (Done (Inr (page, c + int (length page))), s2, d) \<and>
    inbox_of s2 a = unread \<and> inbox_base s2 a = c \<and>
    (\<forall>b. b \<noteq> a \<longrightarrow> inbox_of s2 b = inbox_of s1 b \<and> inbox_base s2 b = inbox_base s1 b)"
proof -
  let ?s2 = "dropInboxPrefixLocked a (c - inbox_base s1 a) s1"
  have c: "inbox_base s1 a \<le> c" "c \<le> inbox_end s1 a"
    using clamp_bounds [of "inbox_base s1 a" "inbox_end s1 a"] by (auto simp: c_def)
  note tables = dropInboxPrefixLocked_tables [of "c - inbox_base s1 a" s1 a]
  have inb: "inbox_of ?s2 a = unread" "inbox_base ?s2 a = c"
    "\<And>b. b \<noteq> a \<Longrightarrow> inbox_of ?s2 b = inbox_of s1 b \<and> inbox_base ?s2 b = inbox_base s1 b"
    using c by (auto simp: tables unread_def since_cursor_def)
  have "poll_turn R now later None input deadline 0 s d =
      (Done (Inr (page, c + int (length page))), ?s2, d)"
  proof (cases "c < inbox_end s1 a")
    case True
    then show ?thesis
      using poll_turn_ready [OF assms(6) [unfolded s1_def a_def], where wait = 0 and later = later
          and deadline = deadline and d = d, folded s1_def a_def, folded c_def] inb
      by (simp add: Let_def page_def)
  next
    case False
    then have "unread = []" using c by (simp add: unread_def since_cursor_def)
    with False show ?thesis
      using poll_turn_ready [OF assms(6) [unfolded s1_def a_def], where wait = 0 and later = later
          and deadline = deadline and d = d, folded s1_def a_def, folded c_def]
      by (simp add: page_def limit_page_def)
  qed
  with inb show ?thesis by blast
qed

theorem poll_page_witness:
  "\<exists>s2. poll_turn ex_orders ex_time ex_time (None :: unit cursor_barrier) (ex_poll 0) ex_time 0 ex3 () =
     (Done (Inr ([inbox_event_of ex_message], 1)), s2, ()) \<and> inbox_base s2 ''ucla.b'' = 0"
proof -
  have ready: "may_poll (sweepLocked ex_orders ex_time ex3) (TrimSpace (pi_AgentID (ex_poll 0)))"
    and sw: "sweepLocked ex_orders ex_time ex3 = ex3\<lparr>s_sweepSkipped := Suc (s_sweepSkipped ex3)\<rparr>"
    using ex_poll_ready [OF ex3_fields(1,2)] by (auto simp: ex3_fields ex2_fields)
  from poll_page [OF ready, of ex_time ex_time "()"] show ?thesis
    by (auto simp: ex_names sw ex3_fields clamp_cursor_def since_cursor_def limit_page_def Let_def)
qed

text \<open>
  C29. A reader that comes back with the cursor it was given misses nothing and sees nothing twice:
  if its cursor has not been overtaken by eviction, what it can read is what it still had to read
  followed by everything appended since, in order.
\<close>

theorem inbox_reader_lossless:
  assumes "inbox_base (fold (appendInboxLocked a) es s) a \<le> c" and "c \<le> inbox_end s a"
  shows "since_cursor (inbox_of (fold (appendInboxLocked a) es s) a)
      (inbox_base (fold (appendInboxLocked a) es s) a) c =
    since_cursor (inbox_of s a) (inbox_base s a) c @ es"
proof -
  have "appended (\<lambda>e s. e) (appendInboxLocked a) es s = es" by (induction es arbitrary: s) auto
  with inbox_log.reader_lossless [OF assms] show ?thesis by simp
qed

theorem inbox_reader_lossless_witness:
  "since_cursor (inbox_of (appendInboxLocked ''ucla.b'' (inbox_event_of ex_message) ex3) ''ucla.b'') 0 1 =
     [inbox_event_of ex_message]"
proof -
  have "inbox_evicted ''ucla.b'' (inbox_event_of ex_message) ex3 = 0"
    using ex3_fields(1) by (simp add: inbox_evicted_def evict_count_def ex3_fields same_policy_def ex_policy_def ex_config_fields)
  then have base: "inbox_base (appendInboxLocked ''ucla.b'' (inbox_event_of ex_message) ex3) ''ucla.b'' = 0"
    by (simp add: appendInboxLocked_tables ex3_fields)
  with inbox_reader_lossless [of "''ucla.b''" "[inbox_event_of ex_message]" ex3 1] show ?thesis
    by (simp add: ex3_fields since_cursor_def)
qed

text \<open>
  C33. Appending to an inbox evicts from the front, and no more than the caps ask for: the newest
  event stays, the count cap holds, the bytes are within the budget unless a single event exceeds
  it, and evicting fewer events would break one of the two.
\<close>

theorem inbox_eviction:
  fixes s :: store and a :: string and e :: inbox_event
  assumes "config_ok (s_cfg s)" and "inbox_ok s a"
  defines "s' \<equiv> appendInboxLocked a e s" and "cfg \<equiv> s_cfg s"
  shows "\<exists>n. inbox_of s' a = drop n (inbox_of s a @ [e]) \<and> inbox_base s' a = inbox_base s a + int n \<and>
    last (inbox_of s' a) = e \<and>
    int (length (inbox_of s' a)) \<le> cfg_MaxInboxEventsPerAgent cfg \<and>
    (cfg_MaxInboxBytesPerAgent cfg > 0 \<longrightarrow>
       sum_list (map inboxEventSize (inbox_of s' a)) \<le> cfg_MaxInboxBytesPerAgent cfg \<or>
       inbox_of s' a = [e]) \<and>
    (\<forall>j < n. int (length (drop j (inbox_of s a @ [e]))) > cfg_MaxInboxEventsPerAgent cfg \<or>
       cfg_MaxInboxBytesPerAgent cfg > 0 \<and>
       sum_list (map inboxEventSize (drop j (inbox_of s a @ [e]))) > cfg_MaxInboxBytesPerAgent cfg)"
proof -
  let ?es = "inbox_of s a @ [e]" and ?n = "inbox_evicted a e s"
  have bytes: "inbox_bytes s a + inboxEventSize e = sum_list (map inboxEventSize ?es)"
    using assms(2) by (simp add: inbox_ok_def)
  have n: "?n = evict_count inboxEventSize (cfg_MaxInboxEventsPerAgent cfg) (cfg_MaxInboxBytesPerAgent cfg)
      (sum_list (map inboxEventSize ?es)) ?es"
    by (simp only: inbox_evicted_def bytes cfg_def)
  have pos: "cfg_MaxInboxEventsPerAgent cfg > 0" using assms(1) by (simp add: config_ok_def cfg_def)
  have inb: "inbox_of s' a = drop ?n ?es" "inbox_base s' a = inbox_base s a + int ?n"
    by (simp_all add: s'_def appendInboxLocked_tables)
  have kept: "inbox_of s' a \<noteq> []" "last (inbox_of s' a) = e"
    using inbox_log.newest_kept [of a e s] by (simp_all add: s'_def)
  have "int (length (inbox_of s' a)) \<le> cfg_MaxInboxEventsPerAgent cfg"
    unfolding inb n using pos by (rule evict_count_within_count)
  moreover have "sum_list (map inboxEventSize (inbox_of s' a)) \<le> cfg_MaxInboxBytesPerAgent cfg \<or>
      length (inbox_of s' a) \<le> 1" if "cfg_MaxInboxBytesPerAgent cfg > 0"
    unfolding inb n using that by (intro evict_count_within_bytes) auto
  moreover have "length xs \<le> 1 \<longleftrightarrow> xs = [e]" if "xs \<noteq> []" "last xs = e" for xs
    using that by (cases xs) auto
  moreover have "int (length (drop j ?es)) > cfg_MaxInboxEventsPerAgent cfg \<or> cfg_MaxInboxBytesPerAgent cfg > 0 \<and>
      sum_list (map inboxEventSize (drop j ?es)) > cfg_MaxInboxBytesPerAgent cfg" if "j < ?n" for j
    using evict_count_minimal [OF refl that [unfolded n]] by auto
  ultimately show ?thesis using inb kept by (intro exI [of _ ?n]) metis
qed

theorem inbox_eviction_witness:
  "\<exists>n. inbox_of (appendInboxLocked ''ucla.b'' (inbox_event_of ex_message) ex3) ''ucla.b'' =
     drop n [inbox_event_of ex_message, inbox_event_of ex_message] \<and> n < 2"
proof -
  have "config_ok (s_cfg ex3)" "inbox_ok ex3 ''ucla.b''"
    using ex_inv(4) by (simp_all add: bus_inv_def inbox_inv_def)
  from inbox_eviction [OF this, of "inbox_event_of ex_message"] obtain n where
    "inbox_of (appendInboxLocked ''ucla.b'' (inbox_event_of ex_message) ex3) ''ucla.b'' =
       drop n [inbox_event_of ex_message, inbox_event_of ex_message]"
    by (auto simp: ex3_fields)
  moreover from this have "n < 2"
    using inbox_log.newest_kept [of "''ucla.b''" "inbox_event_of ex_message" ex3] by auto
  ultimately show ?thesis by blast
qed

text \<open>
  A cursor past the end of the inbox is taken as an acknowledgement of everything in it: the
  poll answers with no events, and the events that were waiting are reclaimed. This is what an
  agent gets that comes back with the cursor of an inbox that has since been pruned and recreated,
  although the code comment reads a cursor as proof of receipt.
\<close>

theorem stale_cursor_discards:
  assumes "may_poll (sweepLocked R now s) (TrimSpace (pi_AgentID input))"
    and "inbox_end (sweepLocked R now s) (TrimSpace (pi_AgentID input)) \<le> pi_Cursor input"
  shows "\<exists>s2. poll_turn R now later None input deadline 0 s d =
      (Done (Inr ([], inbox_end (sweepLocked R now s) (TrimSpace (pi_AgentID input)))), s2, d) \<and>
    inbox_of s2 (TrimSpace (pi_AgentID input)) = []"
proof -
  let ?s1 = "sweepLocked R now s" and ?a = "TrimSpace (pi_AgentID input)"
  have "clamp_cursor (pi_Cursor input) (inbox_base ?s1 ?a) (inbox_end ?s1 ?a) = inbox_end ?s1 ?a"
    using assms(2) by (auto simp: clamp_cursor_def Let_def)
  then show ?thesis
    using poll_turn_ready [OF assms(1), where wait = 0 and later = later and deadline = deadline and d = d]
    by (auto simp: dropInboxPrefixLocked_tables)
qed

theorem stale_cursor_discards_witness:
  "inbox_of ex3 ''ucla.b'' \<noteq> [] \<and>
   (\<exists>s2. poll_turn ex_orders ex_time ex_time (None :: unit cursor_barrier) (ex_poll 7) ex_time 0 ex3 () =
      (Done (Inr ([], 1)), s2, ()) \<and> inbox_of s2 ''ucla.b'' = [])"
proof -
  have ready: "may_poll (sweepLocked ex_orders ex_time ex3) (TrimSpace (pi_AgentID (ex_poll 7)))"
    and sw: "sweepLocked ex_orders ex_time ex3 = ex3\<lparr>s_sweepSkipped := Suc (s_sweepSkipped ex3)\<rparr>"
    using ex_poll_ready [OF ex3_fields(1,2)] by (auto simp: ex3_fields ex2_fields)
  from stale_cursor_discards [OF ready, of ex_time ex_time "()"] show ?thesis
    by (simp add: ex_names sw ex3_fields)
qed

section \<open>Lists\<close>

lemma values_in_set:
  assumes "keys_distinct m"
  shows "set (values_in rk m) = {v. \<exists>k. map_of m k = Some v}" and "length (values_in rk m) = length m"
proof -
  have mem: "k \<in> fst ` set m \<longleftrightarrow> map_of m k \<noteq> None" for k by (simp add: map_of_eq_None_iff)
  then have "{k \<in> fst ` set m. map_of m k \<noteq> None} = {k. map_of m k \<noteq> None}" by blast
  then have "set (values_in rk m) = (\<lambda>k. the (map_of m k)) ` {k. map_of m k \<noteq> None}"
    unfolding values_in_def List.map_filter_def set_map set_filter set_range_keys comp_def by simp
  also have "\<dots> = {v. \<exists>k. map_of m k = Some v}" by (auto simp: image_iff) (metis option.sel)
  finally show "set (values_in rk m) = {v. \<exists>k. map_of m k = Some v}" .
  have "map_of m k \<noteq> None" if "k \<in> set (range_keys rk m)" for k
    using that by (auto simp: map_of_eq_None_iff)
  then have "filter (\<lambda>k. map_of m k \<noteq> None) (range_keys rk m) = range_keys rk m" by (auto simp: filter_id_conv)
  then show "length (values_in rk m) = length m"
    by (simp add: values_in_def List.map_filter_def range_keys_def)
qed

lemma values_in_agents:
  assumes "agents_inv s"
  shows "distinct (map a_AgentID (values_in rk (s_agents s)))"
proof -
  have id: "a_AgentID (the (map_of (s_agents s) k)) = k" if "map_of (s_agents s) k \<noteq> None" for k
    using assms that by (auto simp: agents_inv_def agent_ok_def)
  have "map a_AgentID (values_in rk (s_agents s)) =
      filter (\<lambda>k. map_of (s_agents s) k \<noteq> None) (range_keys rk (s_agents s))"
    unfolding values_in_def List.map_filter_def map_map
    by (intro map_idI) (use id in auto)
  moreover have "distinct (range_keys rk (s_agents s))" using assms by (simp add: agents_inv_def)
  ultimately show ?thesis by simp
qed

text \<open>
  \<^verbatim>\<open>ListAgents\<close> returns the agents that are active after the sweep and have the capability asked
  for, all of them and each once, in the order of their identifiers, whatever the order in which
  Go ranges over the map.
\<close>

theorem list_agents_complete:
  assumes "bus_inv s"
  shows "set (fst (ListAgents R now cap s)) =
      {a. (\<exists>k. map_of (s_agents (sweepLocked R now s)) k = Some a) \<and> a_Status a = AgentStatusActive \<and>
          (TrimSpace cap \<noteq> [] \<longrightarrow> TrimSpace cap \<in> set (a_Capabilities a))} \<and>
    sorted (map a_AgentID (fst (ListAgents R now cap s))) \<and>
    distinct (map a_AgentID (fst (ListAgents R now cap s)))"
proof -
  let ?s = "sweepLocked R now s"
  have "bus_inv ?s" using assms keeps_sweepLocked [of s R now] by (simp add: keeps_def)
  then have inv: "agents_inv ?s" by (simp add: bus_inv_def)
  have listed: "listed_agent (TrimSpace cap) a \<longleftrightarrow> a_Status a = AgentStatusActive \<and>
      (TrimSpace cap \<noteq> [] \<longrightarrow> TrimSpace cap \<in> set (a_Capabilities a))" for a
    by (auto simp: listed_agent_def list_ex_iff)
  let ?xs = "filter (listed_agent (TrimSpace cap)) (values_in (R 3) (s_agents ?s))"
  have "map cloneAgent xs = xs" for xs by (induction xs) auto
  then have out: "fst (ListAgents R now cap s) = sort_key a_AgentID ?xs" by (simp add: ListAgents_def Let_def)
  have "mset (map a_AgentID (sort_key a_AgentID ?xs)) = mset (map a_AgentID ?xs)" by simp
  moreover have "distinct (map a_AgentID ?xs)"
    using values_in_agents [OF inv] by (rule distinct_map_filter)
  ultimately have "distinct (map a_AgentID (sort_key a_AgentID ?xs))" by (metis mset_eq_imp_distinct_iff)
  moreover have "keys_distinct (s_agents ?s)" using inv by (simp add: agents_inv_def)
  ultimately show ?thesis
    by (auto simp: out listed values_in_set)
qed

lemma map_of_pair_range: "x \<noteq> y \<Longrightarrow> (\<exists>k. map_of [(x, a), (y, b)] k = Some v) \<longleftrightarrow> v = a \<or> v = b"
  by auto

theorem list_agents_complete_witness:
  "map a_AgentID (fst (ListAgents ex_orders ex_time [] ex2)) = [''ucla.a'', ''ucla.b'']"
proof -
  have sw: "sweepLocked ex_orders ex_time ex2 = ex2\<lparr>s_sweepSkipped := Suc (s_sweepSkipped ex2)\<rparr>"
    using ex2_fields(1,2) by (intro ex_skip) (auto simp: same_policy_def ex_policy_def)
  have ids: "a_AgentID (ex_agent k) = k" "a_Status (ex_agent k) = AgentStatusActive" for k
    by (simp_all add: ex_agent_def)
  let ?out = "fst (ListAgents ex_orders ex_time [] ex2)"
  note * = list_agents_complete [OF ex_inv(3), of ex_orders ex_time "[]"]
  have "(\<exists>k. map_of (s_agents (sweepLocked ex_orders ex_time ex2)) k = Some a) \<longleftrightarrow>
      a = ex_agent ''ucla.a'' \<or> a = ex_agent ''ucla.b''" for a
    using map_of_pair_range [of "''ucla.a''" "''ucla.b''"] by (simp add: sw ex2_fields del: map_of.simps)
  with * have "set ?out = {ex_agent ''ucla.a'', ex_agent ''ucla.b''}" by (auto simp: ids)
  then have "set (map a_AgentID ?out) = set [''ucla.a'', ''ucla.b'']" by (auto simp: ids)
  moreover have "sorted [''ucla.a'', ''ucla.b'']" "distinct [''ucla.a'', ''ucla.b'']"
    by (simp_all add: less_eq_list_code less_char_def)
  ultimately show ?thesis using * by (intro sorted_distinct_set_unique) auto
qed

text \<open>
  \<^verbatim>\<open>ListConversationMessages\<close> pages through a conversation: the page starts at the cursor (moved
  into range), holds what is left of at most 200 messages (50 when no limit is given), and the
  cursor it returns is where the next page starts. What the page and the rest from there hold
  together is what was there from the cursor on, and the cursor advances until the end is reached.
\<close>

theorem conversation_page:
  assumes "TrimSpace (lm_ConversationID input) \<noteq> []"
    and "map_of (s_conversations (sweepLocked R now s)) (lm_ConversationID input) = Some conv"
    and "actorCanAccessConversation (sweepLocked R now s) (TrimSpace (lm_ActorAgentID input)) (Some conv)"
  defines "s1 \<equiv> sweepLocked R now s"
  defines "ids \<equiv> get_or [] (s_conversationMessages s1) (c_ConversationID conv)"
  defines "n \<equiv> int (length ids)"
  defines "c \<equiv> min n (max 0 (lm_Cursor input))"
  defines "look \<equiv> List.map_filter (map_of (s_messages s1))"
  shows "\<exists>page next. ListConversationMessages R now input s =
      (Inr (c_ConversationID conv, page, next), s1) \<and>
    page @ look (drop (nat next) ids) = look (drop (nat c) ids) \<and>
    c \<le> next \<and> next \<le> n \<and> next - c \<le> 200 \<and> (next = c \<longrightarrow> c = n)"
proof -
  define limit where "limit = page_limit (lm_Limit input)"
  define stop where "stop = (if c + limit > n then n else c + limit)"
  have lim: "0 < limit" "limit \<le> 200" by (auto simp: limit_def page_limit_def Let_def)
  have start: "page_start (lm_Cursor input) n = c" by (simp add: page_start_def c_def Let_def)
  have c0: "0 \<le> c" "c \<le> n" by (simp_all add: c_def n_def)
  have stop: "c \<le> stop" "stop \<le> n" "stop - c \<le> 200" "stop = c \<Longrightarrow> c = n"
    using lim c0 by (auto simp: stop_def split: if_splits)
  have nats: "nat stop = nat (stop - c) + nat c" using c0 stop by simp
  have "take (nat (stop - c)) (drop (nat c) ids) @ drop (nat stop) ids = drop (nat c) ids"
    unfolding nats drop_drop [symmetric] by (rule append_take_drop_id)
  then have parts: "look (take (nat (stop - c)) (drop (nat c) ids)) @ look (drop (nat stop) ids) = look (drop (nat c) ids)"
    unfolding look_def List.map_filter_def by (metis filter_append map_append)
  have "ListConversationMessages R now input s =
      (Inr (c_ConversationID conv, look (take (nat (stop - c)) (drop (nat c) ids)), stop), s1)"
    using assms(1-3) start
    by (simp add: ListConversationMessages_def Let_def stop_def limit_def n_def ids_def s1_def look_def)
  with parts stop show ?thesis by blast
qed

theorem conversation_page_witness:
  "\<exists>page next. fst (ListConversationMessages ex_orders ex_time
       \<lparr>lm_ConversationID = ''c-000001'', lm_Cursor = 0, lm_Limit = 0, lm_ActorAgentID = []\<rparr> ex3) =
     Inr (''c-000001'', page, next) \<and> page @ List.map_filter (map_of (s_messages ex3)) (drop (nat next) [''m-000001'']) =
       [ex_message]"
proof -
  let ?i = "\<lparr>lm_ConversationID = ''c-000001'', lm_Cursor = 0, lm_Limit = 0, lm_ActorAgentID = []\<rparr>"
  have sw: "sweepLocked ex_orders ex_time ex3 = ex3\<lparr>s_sweepSkipped := Suc (s_sweepSkipped ex3)\<rparr>"
    using ex3_fields(1,2) by (intro ex_skip) (auto simp: same_policy_def ex_policy_def)
  have trim: "TrimSpace ''c-000001'' = ''c-000001''" by code_simp
  have 1: "TrimSpace (lm_ConversationID ?i) \<noteq> []" by (simp add: trim)
  have 2: "map_of (s_conversations (sweepLocked ex_orders ex_time ex3)) (lm_ConversationID ?i) = Some ex_conversation"
    by (simp add: sw ex3_fields)
  have 3: "actorCanAccessConversation (sweepLocked ex_orders ex_time ex3) (TrimSpace (lm_ActorAgentID ?i)) (Some ex_conversation)"
    by (simp add: actorCanAccessConversation_def actorCanAccessAllNames_def)
  have "c_ConversationID ex_conversation = ''c-000001''" by (simp add: ex_conversation_def)
  with conversation_page [OF 1 2 3] show ?thesis
    by (auto simp: sw ex3_fields get_or_def List.map_filter_def)
qed

text \<open>
  The counters add up: the active and the expired agents \<^verbatim>\<open>snapshotCounts\<close> reports are all the
  agents of the store, and the active ones are counted exactly.
\<close>

theorem snapshot_counts_exact:
  fixes R :: orders and now :: time
  assumes "bus_inv s"
  defines "counts \<equiv> fst (snapshotCounts R now s)" and "s1 \<equiv> sweepLocked R now s"
  shows "sc_active counts + sc_expired counts = int (length (s_agents s1)) \<and>
    sc_active counts = int (length (filter (\<lambda>a. a_Status a = AgentStatusActive) (values_in (R 3) (s_agents s1)))) \<and>
    sc_messages counts = int (length (s_messages s1)) \<and>
    sc_observeEvents counts \<le> cfg_MaxObserveEvents (s_cfg s)"
proof -
  have inv: "bus_inv s1" using assms(1) keeps_sweepLocked [of s R now] by (simp add: keeps_def s1_def)
  let ?f = "\<lambda>a c. if a_Status a = AgentStatusActive then c\<lparr>sc_active := sc_active c + 1\<rparr>
    else c\<lparr>sc_expired := sc_expired c + 1\<rparr>"
  have loop: "sc_active (fold ?f as c) = sc_active c + int (length (filter (\<lambda>a. a_Status a = AgentStatusActive) as))"
    "sc_expired (fold ?f as c) = sc_expired c + int (length (filter (\<lambda>a. a_Status a \<noteq> AgentStatusActive) as))"
    "sc_messages (fold ?f as c) = sc_messages c" "sc_observeEvents (fold ?f as c) = sc_observeEvents c" for as c
    by (induction as arbitrary: c) auto
  have "length (filter P xs) + length (filter (\<lambda>a. \<not> P a) xs) = length xs" for P and xs :: "agent list"
    by (rule sum_length_filter_compl)
  moreover have "length (values_in (R 3) (s_agents s1)) = length (s_agents s1)"
    using inv by (intro values_in_set) (simp add: bus_inv_def agents_inv_def)
  moreover have "int (length (s_observeEvents s1)) \<le> cfg_MaxObserveEvents (s_cfg s)"
    using inv by (simp add: bus_inv_def ring_inv_def s1_def)
  ultimately show ?thesis
    by (simp add: counts_def snapshotCounts_def Let_def loop s1_def [symmetric] flip: of_nat_add)
qed

theorem snapshot_counts_exact_witness:
  "sc_active (fst (snapshotCounts ex_orders ex_time ex2)) + sc_expired (fst (snapshotCounts ex_orders ex_time ex2)) = 2"
proof -
  have sw: "sweepLocked ex_orders ex_time ex2 = ex2\<lparr>s_sweepSkipped := Suc (s_sweepSkipped ex2)\<rparr>"
    using ex2_fields(1,2) by (intro ex_skip) (auto simp: same_policy_def ex_policy_def)
  show ?thesis
    using snapshot_counts_exact [OF ex_inv(3), of ex_orders ex_time] by (simp add: sw ex2_fields)
qed

end
