(* ===== verification/Lifecycle.thy ===== *)
theory Lifecycle
  imports Reading
begin

text \<open>
  What holds of every store that can be reached from \<^verbatim>\<open>NewStore\<close>, and of every later one: the
  invariant, the life cycle of messages, and that nobody who waits is forgotten. The statements are
  about the transition system \<open>bus_step\<close> and rest on the interpretations of \<open>step_system\<close>.
\<close>

section \<open>Helpers\<close>

lemma ex3_from_new: "bus_step\<^sup>*\<^sup>* (ex0, ()) (ex3, ())"
  using ex_reachable by (metis rtranclp_trans)

text \<open>A poll that goes to sleep has read its inbox to the end and left its channel in the table.\<close>

lemma poll_blocked:
  assumes "poll_turn R now later advance input deadline wait s d = (Blocked ch cursor, s', d')"
  shows "map_of (s_inboxNotify s') (TrimSpace (pi_AgentID input)) = Some ch"
    and "inbox_end s' (TrimSpace (pi_AgentID input)) = cursor"
proof -
  let ?s1 = "sweepLocked R now s" and ?a = "TrimSpace (pi_AgentID input)"
  let ?base = "inbox_base ?s1 ?a" and ?stop = "inbox_end ?s1 ?a"
  let ?c = "clamp_cursor (pi_Cursor input) ?base ?stop"
  define s2 where "s2 = (if ?c > ?base then dropInboxPrefixLocked ?a (?c - ?base) ?s1 else ?s1)"
  have *: "(ch, s') = inboxNotifyChanLocked ?a s2 \<and> cursor = ?c \<and> \<not> ?c < ?stop"
    using assms unfolding poll_turn_def Let_def s2_def [symmetric]
    by (auto split: option.splits prod.splits if_splits)
  have c: "?c = ?stop" using * by (simp add: clamp_cursor_def Let_def split: if_splits)
  have "inbox_end s2 ?a = ?stop"
    by (auto simp: s2_def c dropInboxPrefixLocked_tables)
  then have "inbox_end s' ?a = cursor"
    using * c inboxNotifyChanLocked_frame(10,11) [of ?a s2] by (metis snd_conv)
  then show "inbox_end s' ?a = cursor" .
  show "map_of (s_inboxNotify s') ?a = Some ch"
    using * by (auto simp: inboxNotifyChanLocked_def make_chan_def split: option.splits)
qed

section \<open>Reachable stores\<close>

text \<open>
  C1. Whatever the configuration \<^verbatim>\<open>NewStore\<close> accepted, and whatever sequence of operations, long-poll
  turns, push-worker steps and backend actions followed, the store satisfies its invariant: caps
  respected, byte counts exact, identifiers consistent, live messages linked in live conversations,
  push work counted, channels with waiters open.
\<close>

theorem reachable_bus_inv:
  assumes "NewStore rk allowlist epoch cfg = Inr s" and "bus_step\<^sup>*\<^sup>* (s, d) (s', d')"
  shows "bus_inv s'"
  using bus_life.reachable_inv [of "(s, d)" "(s', d')"] assms by (auto simp: new_bus_def)

theorem reachable_bus_inv_witness: "bus_inv ex3"
  by (rule reachable_bus_inv [OF ex0_new ex3_from_new])



text \<open>
  Message identifiers are never reused and a reclaimed message does not come back: an
  identifier issued before some moment and not in the store then is in no later store.
\<close>

theorem message_not_resurrected:
  assumes "bus_inv s" and "bus_step\<^sup>*\<^sup>* (s, d) (s', d')"
    and "issued (s_nextMessageID s) k" and "map_of (s_messages s) k = None"
  shows "map_of (s_messages s') k = None"
proof -
  have "evolves s s'" using bus_life.history [OF assms(2)] assms(1) by simp
  moreover obtain i where "1 \<le> i" "i \<le> s_nextMessageID s" "k = message_id i"
    using assms(3) by (auto simp: issued_def)
  ultimately show ?thesis
    using assms(4) unfolding evolves_def by (cases "map_of (s_messages s') k") fastforce+
qed

theorem message_not_resurrected_witness:
  "map_of (s_messages (ex4\<lparr>s_messages := []\<rparr>)) ''m-000001'' = None"
proof -
  let ?s = "ex4\<lparr>s_messages := []\<rparr>"
  have "bus_inv ex4" using bus_life.steps_inv [OF ex4_reachable] ex_inv(4) by simp
  moreover have "?s = ex4\<lparr>s_messages := filter (\<lambda>(k, m). False) (s_messages ex4)\<rparr>" by simp
  ultimately have inv: "bus_inv ?s" using keeps_filter_messages [of ex4 "\<lambda>_ _. False"] by (simp add: keeps_def)
  have "message_id 1 = ''m-000001''" by code_simp
  moreover have "s_nextMessageID ex4 \<ge> 1"
    using bus_life.history [OF ex4_reachable] ex_inv(4) by (simp add: evolves_def ex3_fields)
  ultimately have "issued (s_nextMessageID ?s) ''m-000001''"
    unfolding issued_def by (intro exI [of _ 1]) auto
  from message_not_resurrected [OF inv rtranclp.rtrancl_refl [of _ "(?s, ())"] this] show ?thesis by simp
qed

text \<open>
  C28. No lost wake-up for inbox readers. When a poll goes to sleep on a channel, then as long as
  that channel stays open there is nothing new for it to read: the inbox still ends where the
  poll's cursor is. So whatever puts an event into the inbox, or removes the inbox, closes the
  channel and wakes the reader.
\<close>

theorem poll_no_lost_wakeup:
  assumes "bus_inv s"
    and "poll_turn R now later advance input deadline wait s d = (Blocked ch cursor, s1, d1)"
    and "bus_step\<^sup>*\<^sup>* (s1, d1) (s2, d2)" and "ch \<notin> set (s_closedChans s2)"
  shows "inbox_end s2 (TrimSpace (pi_AgentID input)) = cursor"
proof -
  let ?a = "TrimSpace (pi_AgentID input)"
  have inv1: "bus_inv s1"
    using poll_op.op_inv [OF assms(1), of R now later advance input deadline wait d] assms(2) by simp
  have "map_of (s_inboxNotify s1) ?a = Some ch \<and> inbox_end s1 ?a = cursor"
    using poll_blocked [OF assms(2)] by simp
  moreover have "wakes s1 s2" using bus_waits.history [OF assms(3)] inv1 by simp
  ultimately show ?thesis using assms(4) unfolding wakes_def by blast
qed

theorem poll_no_lost_wakeup_witness:
  "\<exists>ch s1. poll_turn ex_orders ex_time ex_time (None :: unit cursor_barrier) (ex_poll 0) (ex_time + Second)
       Second ex2 () = (Blocked ch 0, s1, ()) \<and> inbox_end s1 ''ucla.b'' = 0"
proof -
  have ready: "may_poll (sweepLocked ex_orders ex_time ex2) (TrimSpace (pi_AgentID (ex_poll 0)))"
    and sw: "sweepLocked ex_orders ex_time ex2 = ex2\<lparr>s_sweepSkipped := Suc (s_sweepSkipped ex2)\<rparr>"
    using ex_poll_ready [OF ex2_fields(1,2)] by (auto simp: ex2_fields)
  have inb: "inbox_of ex2 ''ucla.b'' = []" "inbox_base ex2 ''ucla.b'' = 0" by (simp_all add: ex2_fields get_or_def)
  obtain ch s1 where turn: "poll_turn ex_orders ex_time ex_time (None :: unit cursor_barrier) (ex_poll 0)
      (ex_time + Second) Second ex2 () = (Blocked ch 0, s1, ())"
    using poll_turn_ready [OF ready, where later = ex_time and deadline = "ex_time + Second" and wait = Second and d = "()"]
    by (simp add: ex_names sw inb clamp_cursor_def Sub_def Let_def split: prod.splits)
  have inv: "bus_inv s1"
    using poll_op.op_inv [OF ex_inv(3), of ex_orders ex_time ex_time None "ex_poll 0" "ex_time + Second" Second "()"]
      turn by simp
  then have "ch \<notin> set (s_closedChans s1)"
    using poll_blocked(1) [OF turn] by (auto simp: bus_inv_def chan_inv_def)
  from poll_no_lost_wakeup [OF ex_inv(3) turn rtranclp.rtrancl_refl this] turn show ?thesis
    by (auto simp: ex_names)
qed

text \<open>
  No lost wake-up for observers: while the channel an observer sleeps on is open, no event has
  been published since it looked.
\<close>

theorem observe_no_lost_wakeup:
  assumes "bus_inv s"
    and "observe_turn R now later afterID flt deadline wait s = (Blocked ch lastID, s1)"
    and "bus_step\<^sup>*\<^sup>* (s1, d1) (s2, d2)" and "ch \<notin> set (s_closedChans s2)"
  shows "s_nextObserveID s2 = s_nextObserveID s1 \<and> lastID = afterID"
proof -
  have s1: "s1 = sweepLocked R now s" "ch = s_observeNotify s1"
    and last: "fst (observe_select s1 afterID flt) = []" "lastID = snd (observe_select s1 afterID flt)"
    using assms(2) by (auto simp: observe_turn_def Let_def split: prod.splits if_splits)
  have "bus_inv s1" using assms(1) keeps_sweepLocked [of s R now] by (simp add: s1(1) keeps_def)
  then have "wakes s1 s2" using bus_waits.history [OF assms(3)] by simp
  with assms(4) s1(2) have "s_nextObserveID s2 = s_nextObserveID s1" by (auto simp: wakes_def)
  with last show ?thesis by (simp add: observe_select_filter Let_def)
qed

theorem observe_no_lost_wakeup_witness:
  "\<exists>ch s1. observe_turn ex_orders ex_time ex_time 2 \<lparr>of_ConversationID = [], of_AgentID = [], of_ActorAgentID = []\<rparr>
       (ex_time + Second) Second ex2 = (Blocked ch 2, s1) \<and> s_nextObserveID s1 = 2"
proof -
  let ?flt = "\<lparr>of_ConversationID = [], of_AgentID = [], of_ActorAgentID = []\<rparr>"
    and ?s = "sweepLocked ex_orders ex_time ex2"
  have sw: "?s = ex2\<lparr>s_sweepSkipped := Suc (s_sweepSkipped ex2)\<rparr>"
    using ex2_fields(1,2) by (intro ex_skip) (auto simp: same_policy_def ex_policy_def)
  have inv: "bus_inv ?s" using ex_inv(3) keeps_sweepLocked [of ex2 ex_orders ex_time] by (simp add: keeps_def)
  then have ring: "ring_inv ?s" by (simp add: bus_inv_def)
  have "\<not> 2 < o_ID e" if "e \<in> set (s_observeEvents ?s)" for e
    using that ring ex2_fields(14)
    by (auto simp: ring_inv_def observe_base_def in_set_conv_nth sw)
  then have "observe_select ?s 2 ?flt = ([], 2)"
    using observe_search [OF ring, of 2] by (auto simp: observe_select_filter Let_def filter_empty_conv)
  then have turn: "observe_turn ex_orders ex_time ex_time 2 ?flt (ex_time + Second) Second ex2 =
      (Blocked (s_observeNotify ?s) 2, ?s)"
    by (simp add: observe_turn_def Let_def Sub_def)
  have "s_observeNotify ?s \<notin> set (s_closedChans ?s)" using inv by (simp add: bus_inv_def chan_inv_def)
  from observe_no_lost_wakeup [OF ex_inv(3) turn rtranclp.rtrancl_refl this] turn show ?thesis
    by (auto simp: sw ex2_fields)
qed

end
