(* ===== verification/Access.thy ===== *)
theory Access
  imports Bus_Examples
begin

text \<open>
  Who may do what: scopes, grants and control-plane identities, in configuration, registration,
  sending and listing. The statements about names rest on the interpretation of \<open>access_control\<close>.
\<close>

section \<open>Scopes\<close>

text \<open>
  C6. Scope isolation. Under any configuration \<^verbatim>\<open>NewStore\<close> produces, an identity that is not a
  control-plane agent can access a name only if that name lies in its own scope, or in the shared
  scope and the operator granted it shared access; so no ordinary identity can access both a
  personal and a ucla name.
\<close>

theorem scope_isolation:
  assumes "config_ok (s_cfg s)" and "TrimSpace a \<noteq> []" and "\<not> isControlPlaneAgent s a"
  shows "(agentCanAccessName s a r \<longleftrightarrow>
      (scopeOfName s r = Some ScopeShared \<and> agentHasSharedGrant s a \<or>
       scopeOfName s r \<notin> {None, Some ScopeShared} \<and> scopeOfName s a = scopeOfName s r)) \<and>
    \<not> (agentCanAccessName s a r \<and> agentCanAccessName s a r' \<and>
       scopeOfName s r = Some ScopePersonal \<and> scopeOfName s r' = Some ScopeUCLA)"
proof -
  have nt: "\<not> trusted_infra s a" using assms(3) by (simp add: trusted_infra_def)
  have may: "can_access s a x \<longleftrightarrow> agentCanAccessName s a x" for x
    using assms(1,2) by (simp add: can_access_def)
  have "home_scope s a = scopeOfName s a" "shared_granted s a = agentHasSharedGrant s a"
    using assms(1,2) by (simp_all add: home_scope_def shared_granted_def)
  with bus_access.may_ordinary [OF nt, of r] have "agentCanAccessName s a r \<longleftrightarrow>
      (scopeOfName s r = Some ScopeShared \<and> agentHasSharedGrant s a \<or>
       scopeOfName s r \<notin> {None, Some ScopeShared} \<and> scopeOfName s a = scopeOfName s r)"
    unfolding may by (cases "scopeOfName s r") auto
  moreover have "\<not> (agentCanAccessName s a r \<and> agentCanAccessName s a r' \<and>
      scopeOfName s r = Some ScopePersonal \<and> scopeOfName s r' = Some ScopeUCLA)"
    using bus_access.no_bridge [OF nt] unfolding may by blast
  ultimately show ?thesis by blast
qed

theorem scope_isolation_witness:
  "agentCanAccessName ex_policy ''ucla.a'' ''ucla.b'' \<and> \<not> agentCanAccessName ex_policy ''ucla.a'' ''personal.b''"
proof -
  have ok: "config_ok (s_cfg ex_policy)" by (simp add: ex_policy_def config_ok_normalize)
  have a: "TrimSpace ''ucla.a'' \<noteq> []" by (simp add: ex_names)
  have "\<not> isControlPlaneAgent ex_policy ''ucla.a''" "scopeOfName ex_policy ''ucla.a'' = Some ScopeUCLA"
    "scopeOfName ex_policy ''ucla.b'' = Some ScopeUCLA" "scopeOfName ex_policy ''personal.b'' = Some ScopePersonal"
    by code_simp+
  with scope_isolation [OF ok a] show ?thesis by force
qed

text \<open>
  The two forms of the access check agree: the error \<^verbatim>\<open>authorizeAgentForName\<close> returns before an
  action is nil exactly when the predicate \<^verbatim>\<open>agentCanAccessName\<close>, with which the read paths filter,
  holds; and \<^verbatim>\<open>authorizeSendTarget\<close> adds exactly the queues of control-plane agents.
\<close>

theorem authorization_agrees:
  assumes "TrimSpace a \<noteq> []"
  shows "(authorizeAgentForName s a r = None \<longleftrightarrow> agentCanAccessName s a r) \<and>
    (authorizeSendTarget s a r = None \<longleftrightarrow> isControlPlaneAgent s r \<or> agentCanAccessName s a r)"
  using authorize_iff_can_access [OF assms] by (simp add: authorizeSendTarget_def)

theorem authorization_agrees_witness:
  "authorizeSendTarget ex_policy ''ucla.a'' ''router'' = None \<and> \<not> agentCanAccessName ex_policy ''ucla.a'' ''router''"
proof -
  have "TrimSpace ''ucla.a'' \<noteq> []" by (simp add: ex_names)
  moreover have "isControlPlaneAgent ex_policy ''router''" "\<not> agentCanAccessName ex_policy ''ucla.a'' ''router''"
    by code_simp+
  ultimately show ?thesis using authorization_agrees by blast
qed

section \<open>Configuration and registration\<close>

lemma check_hashes_ok: "check_control_plane_hashes h as = None \<Longrightarrow> a \<in> set as \<Longrightarrow> has_key h a"
  by (induction h as rule: check_control_plane_hashes.induct) (auto split: if_splits)

lemma check_identities_ok: "check_hash_identities c as = None \<Longrightarrow> a \<in> set as \<Longrightarrow> a \<in> set c"
  by (induction c as rule: check_hash_identities.induct) (auto split: if_splits)

lemma new_store_parts:
  assumes "NewStore rk allowlist epoch cfg = Inr s"
  obtains "distinct (s_controlPlaneAgents s)" and "\<forall>a \<in> set (s_controlPlaneAgents s). plain_name a"
    and "\<forall>a. has_key (cfg_ControlPlaneAgentSecretHashes cfg) a \<longleftrightarrow> a \<in> set (s_controlPlaneAgents s)"
    and "s_cfg s = normalize_config (cfg\<lparr>cfg_ControlPlaneAgents := s_controlPlaneAgents s\<rparr>)"
proof -
  obtain cps where n: "NormalizeControlPlaneAgents (cfg_ControlPlaneAgents cfg) = Inr cps"
    and h: "check_control_plane_hashes (cfg_ControlPlaneAgentSecretHashes cfg) cps = None"
      "check_hash_identities cps (range_keys rk (cfg_ControlPlaneAgentSecretHashes cfg)) = None"
    and s: "s = new_store_state (normalize_config (cfg\<lparr>cfg_ControlPlaneAgents := cps\<rparr>)) cps (parse_allowlist allowlist) epoch"
    using assms by (auto simp: NewStore_def Let_def split: sum.splits option.splits)
  have "distinct cps \<and> (\<forall>a \<in> set cps. plain_name a)"
    using normalizeControlPlane_loop_props [OF n [unfolded NormalizeControlPlaneAgents_def]] by auto
  moreover have "s_controlPlaneAgents s = cps" by (simp add: s new_store_state_def)
  ultimately show ?thesis
    using that check_hashes_ok [OF h(1)] check_identities_ok [OF h(2)]
    by (auto simp: has_key_iff_mem s new_store_state_def)
qed

text \<open>
  C36. What \<^verbatim>\<open>NewStore\<close> accepts: whatever the operator configured, the running configuration has
  positive timeouts and sizes and one of the two namespace modes, and the control-plane identities
  are non-empty names without a prefix, each with a registration secret, and no secret belongs to
  anybody else.
\<close>

theorem new_store_config:
  assumes "NewStore rk allowlist epoch cfg = Inr s"
  shows "config_ok (s_cfg s) \<and> distinct (s_controlPlaneAgents s) \<and>
    (\<forall>a \<in> set (s_controlPlaneAgents s). plain_name a) \<and>
    (\<forall>a. has_key (cfg_ControlPlaneAgentSecretHashes (s_cfg s)) a \<longleftrightarrow> a \<in> set (s_controlPlaneAgents s))"
proof -
  have "cfg_ControlPlaneAgentSecretHashes (normalize_config c) = cfg_ControlPlaneAgentSecretHashes c" for c
    by (simp add: normalize_config_def)
  with assms show ?thesis by (rule_tac new_store_parts [OF assms]) (simp add: config_ok_normalize)
qed

theorem new_store_config_witness: "config_ok (s_cfg ex0) \<and> has_key (cfg_ControlPlaneAgentSecretHashes (s_cfg ex0)) ''router''"
  using new_store_config [OF ex0_new] by (simp add: ex0_fields)

text \<open>
  Only the holder of its secret can register a control-plane identity, in either namespace
  mode: a registration that succeeds presented a secret whose SHA-256 is the configured one.
\<close>

theorem control_plane_needs_secret:
  assumes "fst (RegisterAgent sha256 R now input s) = Inr ag"
    and "isConfiguredControlPlaneAgent s (ra_AgentID input)"
  shows "sha256 (ra_Secret input) =
    get_or (replicate 32 (CHR 0x00)) (cfg_ControlPlaneAgentSecretHashes (s_cfg s)) (TrimSpace (ra_AgentID input))"
proof -
  have "register_check sha256 input s = None"
    using assms(1) by (auto simp: RegisterAgent_def split: option.splits)
  moreover have "isConfiguredControlPlaneAgent s (TrimSpace (ra_AgentID input))"
    using assms(2) by (simp add: isConfiguredControlPlaneAgent_def)
  ultimately show ?thesis by (auto simp: register_check_def Let_def split: if_splits)
qed

definition ex_router :: register_agent_input where
  "ex_router = (ex_register ''router'')\<lparr>ra_Secret := ''secret''\<rparr>"

lemma same_policy_sweep: "same_policy (sweepLocked R now s) = same_policy s"
  by (simp add: same_policy_def)

lemma ex_router_registers: "\<exists>ag. fst (RegisterAgent id ex_orders ex_time ex_router ex0) = Inr ag"
proof -
  have pol: "same_policy ex0" by (simp add: same_policy_def ex_policy_def ex0_fields)
  have names: "TrimSpace ''router'' = ''router''" "normalizeScopes [] = Inr []" "normalizeSharedGrants [] = Inr []"
    "acceptsName ex_policy ''router''" "isConfiguredControlPlaneAgent ex_policy ''router''"
    "authorizeAgentForName ex_policy ''router'' ''router'' = None"
    by code_simp+
  have "cfg_ControlPlaneAgentSecretHashes (s_cfg ex0) = [(''router'', ''secret'')]"
    by (simp add: ex0_fields ex_config_def normalize_config_def)
  then have check: "register_check id ex_router ex0 = None"
    by (simp add: register_check_def register_mode_def ex_router_def ex_register_def Let_def names
        same_policy_eval [OF pol] get_or_def)
  have "same_policy (sweepLocked ex_orders ex_time ex0)" using pol by (simp add: same_policy_sweep)
  then show ?thesis
    by (simp add: RegisterAgent_def check Let_def registered_agent_def)
      (simp add: ex_router_def ex_register_def names same_policy_eval)
qed

theorem control_plane_needs_secret_witness:
  "(\<exists>ag. fst (RegisterAgent id ex_orders ex_time ex_router ex0) = Inr ag) \<and>
   id (ra_Secret ex_router) = ''secret''"
proof -
  obtain ag where ag: "fst (RegisterAgent id ex_orders ex_time ex_router ex0) = Inr ag"
    using ex_router_registers by blast
  have "same_policy ex0" by (simp add: same_policy_def ex_policy_def ex0_fields)
  moreover have "isConfiguredControlPlaneAgent ex_policy ''router''" "TrimSpace ''router'' = ''router''" by code_simp+
  ultimately have "isConfiguredControlPlaneAgent ex0 (ra_AgentID ex_router)" "TrimSpace (ra_AgentID ex_router) = ''router''"
    by (simp_all add: ex_router_def ex_register_def same_policy_eval)
  with control_plane_needs_secret [OF ag] show ?thesis
    using ag by (simp add: ex0_fields ex_config_def normalize_config_def get_or_def)
qed

text \<open>
  What a successful registration does: the agent is stored under its trimmed identifier and is
  active; its scopes and grants are those of the operator's configuration, whatever the request
  claimed; it expires the requested number of seconds from now (for every TTL a duration can hold);
  it has an inbox, and an inbox it had before keeps its events; no other agent is touched.
\<close>

theorem register_effect:
  assumes "RegisterAgent sha256 R now input s = (Inr ag, s')"
  defines "s1 \<equiv> sweepLocked R now s" and "k \<equiv> TrimSpace (ra_AgentID input)"
  shows "map_of (s_agents s') k = Some ag \<and> a_AgentID ag = k \<and> a_Status ag = AgentStatusActive \<and>
    a_AllowedScopes ag = agentAllowedScopes s1 k \<and> a_SharedGrants ag = agentSharedGrants s1 k \<and>
    (1 \<le> ra_TTLSeconds input \<and> ra_TTLSeconds input \<le> 9223372036 \<longrightarrow>
       a_ExpiresAt ag = now + ra_TTLSeconds input * Second) \<and>
    has_key (s_inboxes s') k \<and> (\<forall>b. has_key (s_inboxes s1) b \<longrightarrow> inbox_of s' b = inbox_of s1 b) \<and>
    (\<forall>b. b \<noteq> k \<longrightarrow> map_of (s_agents s') b = map_of (s_agents s1) b)"
proof -
  have ag: "ag = registered_agent now input s1"
    and s': "\<exists>d. s' = publishLocked ObserveAgentRegistered d [] [a_AgentID ag] now (install_agent k ag s1)"
    using assms(1) by (auto simp: RegisterAgent_def s1_def k_def Let_def split: option.splits)
  have dur: "seconds_dur n = n * Second" if "1 \<le> n" "n \<le> 9223372036" for n
    using that by (auto simp: seconds_dur_def intro: wrap64_id)
  show ?thesis
    using s' dur [of "ra_TTLSeconds input"]
    by (auto simp: ag install_agent_def registered_agent_def register_ttl_def Let_def k_def Add_def)
qed

theorem register_effect_witness:
  "map_of (s_agents ex2) ''ucla.b'' = Some (ex_agent ''ucla.b'') \<and> a_ExpiresAt (ex_agent ''ucla.b'') = ex_time + 60 * Second"
proof -
  have "\<exists>ag. RegisterAgent id ex_orders ex_time (ex_register ''ucla.b'') ex1 = (Inr ag, ex2)"
  proof -
    let ?s = "sweepLocked ex_orders ex_time ex1"
    have pol: "same_policy ex1" "same_policy ?s" using ex1_fields(1) by (simp_all add: same_policy_sweep)
    have "TrimSpace (ra_AgentID (ex_register ''ucla.b'')) = ''ucla.b''" by (simp add: ex_register_def ex_names)
    then have "isl (fst (RegisterAgent id ex_orders ex_time (ex_register ''ucla.b'') ex1)) = False"
      by (simp add: RegisterAgent_def ex_register_check(2) [OF pol(1)] Let_def registered_agent_def
          same_policy_eval [OF pol(2)] ex_policy_names)
    then show ?thesis unfolding ex2_def by (metis isl_def prod.collapse sum.exhaust_sel)
  qed
  then obtain ag where "RegisterAgent id ex_orders ex_time (ex_register ''ucla.b'') ex1 = (Inr ag, ex2)" by blast
  from register_effect [OF this] show ?thesis
    by (simp add: ex_register_def ex_names ex2_fields ex_agent_def)
qed

text \<open>
  The product \<^verbatim>\<open>time.Duration(ttl) * time.Second\<close> wraps: a registration that asks for a lifetime
  of more than 9223372036 seconds (and up to twice that) succeeds and has expired before it was
  made, so the next sweep marks the agent expired.
\<close>

theorem register_ttl_wraps:
  assumes "RegisterAgent sha256 R now input s = (Inr ag, s')"
    and "9223372036 < ra_TTLSeconds input" and "ra_TTLSeconds input \<le> 18446744073"
  shows "a_ExpiresAt ag < now \<and> a_Status (swept_agent now ag) = AgentStatusExpired"
proof -
  have "ag = registered_agent now input (sweepLocked R now s)"
    using assms(1) by (auto simp: RegisterAgent_def Let_def split: option.splits)
  moreover have "seconds_dur (ra_TTLSeconds input) < 0"
  proof -
    let ?x = "ra_TTLSeconds input * Second"
    have "(?x + 2 ^ 63 - 2 ^ 64 + 2 ^ 64) mod 2 ^ 64 = ?x + 2 ^ 63 - 2 ^ 64"
      using assms(2,3) by (subst mod_add_self2, intro mod_pos_pos_trivial) auto
    then have "(?x + 2 ^ 63) mod 2 ^ 64 = ?x + 2 ^ 63 - 2 ^ 64" by (simp add: add.commute)
    then show ?thesis using assms(2,3) by (simp add: seconds_dur_def wrap64_def)
  qed
  ultimately show ?thesis
    using assms(2) by (auto simp: registered_agent_def register_ttl_def Add_def Let_def swept_agent_def After_def)
qed

theorem register_ttl_wraps_witness:
  "\<exists>ag s'. RegisterAgent id ex_orders ex_time ((ex_register ''ucla.a'')\<lparr>ra_TTLSeconds := 9223372037\<rparr>) ex0 = (Inr ag, s') \<and>
     a_ExpiresAt ag < ex_time"
proof -
  let ?i = "(ex_register ''ucla.a'')\<lparr>ra_TTLSeconds := 9223372037\<rparr>" and ?s = "sweepLocked ex_orders ex_time ex0"
  have pol: "same_policy ex0" "same_policy ?s"
    by (simp_all add: same_policy_sweep) (simp_all add: same_policy_def ex_policy_def ex0_fields)
  have "normalizeScopes [] = Inr []" "normalizeSharedGrants [] = Inr []" by code_simp+
  then have check: "register_check id ?i ex0 = None"
    by (simp add: register_check_def register_mode_def ex_register_def Let_def ex_names same_policy_eval [OF pol(1)]
        ex_policy_names)
  have "TrimSpace (ra_AgentID ?i) = ''ucla.a''" by (simp add: ex_register_def ex_names)
  then have "isl (fst (RegisterAgent id ex_orders ex_time ?i ex0)) = False"
    by (simp add: RegisterAgent_def check Let_def registered_agent_def same_policy_eval [OF pol(2)] ex_policy_names)
  then obtain ag s' where r: "RegisterAgent id ex_orders ex_time ?i ex0 = (Inr ag, s')"
    by (metis isl_def prod.collapse sum.exhaust_sel)
  from register_ttl_wraps [OF r] r show ?thesis by simp
qed

section \<open>Sending and listing\<close>

lemma sendMessage_accepted:
  assumes "sendMessage R now commit input s d = (Inr (m, False), s', d')"
  obtains target acc acc' where
    "send_check input s = None"
    "send_authorize (TrimSpace (sm_From input)) (TrimSpace (sm_To input)) (sweepLocked R now s) = Inr target"
    "dedup_hit now (TrimSpace (sm_From input)) (TrimSpace (sm_To input)) (TrimSpace (sm_RequestID input))
       (sweepLocked R now s) = None"
    "send_plan now input target (sweepLocked R now s) = Inr acc"
    "run_barrier commit acc d = (Inr acc', d')"
    "m = sa_message acc'" "s' = accept_send now acc' (sweepLocked R now s)"
  using assms by (auto simp: sendMessage_def Let_def split: option.splits sum.splits prod.splits)

lemma send_conversation_existing:
  assumes "send_conversation now from to requested s = Inr (nextConv, conv)"
    and "map_of (s_conversations s) (c_ConversationID conv) = Some c" and "links_inv s"
  shows "authorizeActorForNames s from (c_Participants c) = None"
proof -
  define k where "k = (if TrimSpace requested = [] then conversation_id (s_nextConversationID s + 1) else TrimSpace requested)"
  show ?thesis
  proof (cases "map_of (s_conversations s) k")
    case None
    then have "c_ConversationID conv = k"
      using assms(1) by (auto simp: send_conversation_def Let_def k_def split: option.splits if_splits)
    with None assms(2) show ?thesis by simp
  next
    case (Some c')
    then have "c_ConversationID conv = c_ConversationID c'" "authorizeActorForNames s from (c_Participants c') = None"
      using assms(1) by (auto simp: send_conversation_def Let_def k_def split: option.splits if_splits)
    moreover have "c_ConversationID c' = k" using links_inv_conversation(1) [OF assms(3) Some] by simp
    ultimately show ?thesis using Some assms(2) by simp
  qed
qed

text \<open>
  C7. A message is accepted only from a registered, active sender to a registered recipient that the
  sender may address: a control-plane queue, or a name in a scope the sender can access. When the
  message joins an existing conversation, the sender can access every participant already in it.
\<close>

theorem send_respects_scopes:
  assumes "bus_inv s" and "sendMessage R now commit input s d = (Inr (m, False), s', d')"
  defines "s1 \<equiv> sweepLocked R now s"
  shows "(\<exists>sender. map_of (s_agents s1) (m_From m) = Some sender \<and> a_Status sender = AgentStatusActive) \<and>
    has_key (s_agents s1) (m_To m) \<and>
    (isControlPlaneAgent s1 (m_To m) \<or> agentCanAccessName s1 (m_From m) (m_To m)) \<and>
    (\<forall>c p. map_of (s_conversations s1) (m_ConversationID m) = Some c \<longrightarrow> p \<in> set (c_Participants c) \<longrightarrow>
       TrimSpace p \<noteq> [] \<longrightarrow> agentCanAccessName s1 (m_From m) p)"
proof -
  obtain target acc acc' where ok: "send_check input s = None"
    "send_authorize (TrimSpace (sm_From input)) (TrimSpace (sm_To input)) s1 = Inr target"
    "send_plan now input target s1 = Inr acc" "run_barrier commit acc d = (Inr acc', d')" "m = sa_message acc'"
    using assms(2) unfolding s1_def by (rule sendMessage_accepted)
  obtain r where "acc' = acc\<lparr>sa_pushReceipt := r\<rparr>" using ok(4) by (rule run_barrier_cases) auto
  with ok(5) have m: "m = sa_message acc" by simp
  obtain nextConv conv where conv:
    "send_conversation now (TrimSpace (sm_From input)) (TrimSpace (sm_To input)) (sm_ConversationID input) s1 =
       Inr (nextConv, conv)"
    "sa_message acc = route_message now target (new_message now input (c_ConversationID conv) (s_nextMessageID s1 + 1) s1) s1"
    using ok(3) by (rule send_plan_fields)
  have ids: "m_From m = TrimSpace (sm_From input)" "m_To m = TrimSpace (sm_To input)" "m_ConversationID m = c_ConversationID conv"
    using conv(2) by (simp_all add: m)
  have frm: "TrimSpace (m_From m) \<noteq> []" using ok(1) by (auto simp: ids send_check_def Let_def split: if_splits)
  have inv: "bus_inv s1" using assms(1) keeps_sweepLocked [of s R now] by (simp add: keeps_def s1_def)
  obtain sender where sender: "map_of (s_agents s1) (m_From m) = Some sender" "a_Status sender = AgentStatusActive"
    "authorizeSendTarget s1 (a_AgentID sender) (m_To m) = None" "has_key (s_agents s1) (m_To m)"
    using ok(2) by (auto simp: ids send_authorize_def has_key_def split: option.splits if_splits)
  have "a_AgentID sender = m_From m"
    using inv sender(1) by (auto simp: bus_inv_def agents_inv_def agent_ok_def)
  with sender(3) authorize_iff_can_access [OF frm] have
    "isControlPlaneAgent s1 (m_To m) \<or> agentCanAccessName s1 (m_From m) (m_To m)"
    by (auto simp: authorizeSendTarget_def split: if_splits)
  moreover have "agentCanAccessName s1 (m_From m) p"
    if "map_of (s_conversations s1) (m_ConversationID m) = Some c" "p \<in> set (c_Participants c)" "TrimSpace p \<noteq> []" for c p
  proof -
    have "authorizeActorForNames s1 (m_From m) (c_Participants c) = None"
    proof (rule send_conversation_existing)
      show "send_conversation now (m_From m) (m_To m) (sm_ConversationID input) s1 = Inr (nextConv, conv)"
        using conv(1) by (simp add: ids)
      show "map_of (s_conversations s1) (c_ConversationID conv) = Some c" using that(1) by (simp add: ids)
      show "links_inv s1" using inv by (simp add: bus_inv_def)
    qed
    with that(2,3) frm show ?thesis by (simp add: authorizeActorForNames_iff)
  qed
  ultimately show ?thesis using sender by blast
qed

theorem send_respects_scopes_witness:
  "has_key (s_agents (sweepLocked ex_orders ex_time ex2)) ''ucla.b'' \<and>
   (isControlPlaneAgent (sweepLocked ex_orders ex_time ex2) ''ucla.b'' \<or>
    agentCanAccessName (sweepLocked ex_orders ex_time ex2) ''ucla.a'' ''ucla.b'')"
proof -
  have "\<exists>s'. sendMessage ex_orders ex_time (None :: unit barrier) ex_send ex2 () = (Inr (ex_message, False), s', ())"
    by (simp add: ex_send_eval run_barrier_def Let_def ex_acceptance_def)
  then obtain s' where sent: "sendMessage ex_orders ex_time (None :: unit barrier) ex_send ex2 () =
      (Inr (ex_message, False), s', ())" by blast
  have "m_From ex_message = ''ucla.a''" "m_To ex_message = ''ucla.b''" by (simp_all add: ex_message_def)
  with send_respects_scopes [OF ex_inv(3) sent] show ?thesis by metis
qed

text \<open>
  C30. What an identity sees of conversations and of the observer stream is confined to names it can
  access: every conversation \<^verbatim>\<open>ListConversations\<close> returns to it, every conversation whose messages
  \<^verbatim>\<open>ListConversationMessages\<close> pages out to it, and every event \<^verbatim>\<open>ObserveSince\<close> selects for it involves only
  names the identity can access, and at least one name.
\<close>

theorem views_confined:
  assumes "TrimSpace actor \<noteq> []"
  defines "visible \<equiv> \<lambda>s names. (\<exists>x \<in> set names. TrimSpace x \<noteq> []) \<and>
    (\<forall>x \<in> set names. TrimSpace x \<noteq> [] \<longrightarrow> agentCanAccessName s actor x)"
  shows "(\<forall>c \<in> set (fst (ListConversations R now (flt\<lparr>lf_ActorAgentID := actor\<rparr>) s)).
        visible (sweepLocked R now s) (c_Participants c)) \<and>
    (\<forall>res. fst (ListConversationMessages R now (page\<lparr>lm_ActorAgentID := actor\<rparr>) s) = Inr res \<longrightarrow>
       (\<exists>c. map_of (s_conversations (sweepLocked R now s)) (lm_ConversationID page) = Some c \<and>
            visible (sweepLocked R now s) (c_Participants c))) \<and>
    (\<forall>e \<in> set (fst (observe_select s afterID (oflt\<lparr>of_ActorAgentID := actor\<rparr>))). visible s (o_AgentIDs e))"
proof (intro conjI)
  have all: "actorCanAccessAllNames s actor names \<longleftrightarrow> visible s names"
    "actorCanAccessAllNames s (TrimSpace actor) names \<longleftrightarrow> visible s names" for s :: store and names
    using actorCanAccessAllNames_iff [OF assms(1)] actorCanAccessAllNames_iff [of "TrimSpace actor"] assms(1)
    by (simp_all add: visible_def)
  show "\<forall>c \<in> set (fst (ListConversations R now (flt\<lparr>lf_ActorAgentID := actor\<rparr>) s)).
      visible (sweepLocked R now s) (c_Participants c)"
    by (auto simp: ListConversations_def Let_def listed_conversation_def actorCanAccessConversation_def all split: if_splits)
  show "\<forall>res. fst (ListConversationMessages R now (page\<lparr>lm_ActorAgentID := actor\<rparr>) s) = Inr res \<longrightarrow>
      (\<exists>c. map_of (s_conversations (sweepLocked R now s)) (lm_ConversationID page) = Some c \<and>
            visible (sweepLocked R now s) (c_Participants c))"
    by (auto simp: ListConversationMessages_def Let_def actorCanAccessConversation_def all split: if_splits option.splits)
  show "\<forall>e \<in> set (fst (observe_select s afterID (oflt\<lparr>of_ActorAgentID := actor\<rparr>))). visible s (o_AgentIDs e)"
    by (auto simp: observe_select_filter Let_def eventMatchesFilter_def all split: if_splits)
qed

theorem views_confined_witness:
  "set (fst (ListConversations ex_orders ex_time
      (\<lparr>lf_Participant = [], lf_Status = [], lf_ActorAgentID = []\<rparr>\<lparr>lf_ActorAgentID := ''ucla.a''\<rparr>) ex3)) \<subseteq>
     {c. \<exists>x \<in> set (c_Participants c). TrimSpace x \<noteq> []}"
proof -
  have "TrimSpace ''ucla.a'' \<noteq> []" by (simp add: ex_names)
  from views_confined [OF this, of ex_orders ex_time "\<lparr>lf_Participant = [], lf_Status = [], lf_ActorAgentID = []\<rparr>" ex3]
  show ?thesis by blast
qed

end
