(* ===== verification/Bus_Clock.thy ===== *)
theory Bus_Clock
  imports Bus_Steps
begin

text \<open>
  The steps of the bus with the clock they read, and what happens to the record of a request while the
  clock stays within the idempotency window.
\<close>

section \<open>Steps with their clock\<close>

inductive clocked :: "time \<Rightarrow> store \<times> 'd \<Rightarrow> store \<times> 'd \<Rightarrow> bool" where
  at_register: "clocked now (s, d) (snd (RegisterAgent sha256 R now reg s), d)"
| at_agents: "clocked now (s, d) (snd (ListAgents R now cap s), d)"
| at_counts: "clocked now (s, d) (snd (snapshotCounts R now s), d)"
| at_create: "clocked now (s, d) (snd (CreateConversation R now cc s), d)"
| at_conversations: "clocked now (s, d) (snd (ListConversations R now lf s), d)"
| at_messages: "clocked now (s, d) (snd (ListConversationMessages R now lm s), d)"
| at_send: "clocked now (s, d) (snd (sendMessage R now commit sm s d))"
| at_inject: "clocked now (s, d) (snd (inject R now commit ij s d))"
| at_poll: "clocked now (s, d) (snd (poll_turn R now later advance poll deadline wait s d))"
| at_ack: "clocked now (s, d) (snd (ack R now mcommit ak s d))"
| at_event: "clocked now (s, d) (snd (postEvent R now mcommit ev s d))"
| at_observe: "clocked now (s, d) (snd (observe_turn R now later afterID oflt deadline wait s), d)"
| at_take: "worker_take s = Some s' \<Longrightarrow> clocked now (s, d) (s', d)"
| at_finish: "worker_finish net i s = Some (r, s') \<Longrightarrow> clocked now (s, d) (s', d)"
| at_background: "background_finish i s = Some (r', s') \<Longrightarrow> clocked now (s, d) (s', d)"
| at_close: "close_begin s = Some s' \<Longrightarrow> clocked now (s, d) (s', d)"
| at_cancel: "clocked now (s, d) (close_timeout s, d)"
| at_closed: "close_end s = Some s' \<Longrightarrow> clocked now (s, d) (s', d)"
| at_durable: "clocked now (s, d) (s, d')"

text \<open>No step of the bus is left out.\<close>

lemma bus_step_clocked: "bus_step x y \<longleftrightarrow> (\<exists>now. clocked now x y)"
proof
  show "\<exists>now. clocked now x y" if "bus_step x y"
    using that by (cases rule: bus_step.cases) (auto intro: clocked.intros)
  show "bus_step x y" if "\<exists>now. clocked now x y"
    using that by (elim exE) (erule clocked.cases; auto intro: bus_step.intros)
qed

section \<open>The record of a request\<close>

definition idem_kept :: "time \<Rightarrow> store \<Rightarrow> store \<Rightarrow> bool" where
  "idem_kept now s s' \<longleftrightarrow>
     (\<forall>k e. map_of (s_idempotency s) k = Some e \<longrightarrow> keys_distinct (s_idempotency s) \<longrightarrow>
        Sub now (ie_CreatedAt e) \<le> cfg_IdempotencyWindow (s_cfg s) \<longrightarrow> map_of (s_idempotency s') k = Some e)"

lemma idem_kept_frame:
  assumes "s_idempotency s' = s_idempotency s \<or> s_idempotency s' = s_idempotency (sweepLocked R now s)"
  shows "idem_kept now s s'"
  using assms by (auto simp: idem_kept_def sweepLocked_idempotency map_of_filter_distinct)

lemma idempotency_frames [simp]:
  "s_idempotency (install_agent k a s) = s_idempotency s"
  "s_idempotency (snd (ensureConversationLocked cc now s)) = s_idempotency s"
  "s_idempotency (install_message acc s) = s_idempotency s"
  "s_idempotency (deliver_inbox to evt s) = s_idempotency s"
  "s_idempotency (push_and_finish acc s) = s_idempotency s"
  "s_idempotency (publish_event now ev st m s) = s_idempotency s"
  by (simp_all add: install_agent_def ensureConversationLocked_def install_message_def deliver_inbox_def
      push_and_finish_def publish_event_def publish_transition_def Let_def case_prod_unfold split: option.splits)

lemma idem_kept_agents:
  "idem_kept now s (snd (RegisterAgent sha256 R now reg s))"
  "idem_kept now s (snd (ListAgents R now cap s))"
  "idem_kept now s (snd (snapshotCounts R now s))"
  by (rule idem_kept_frame [of _ _ R];
      simp add: RegisterAgent_def ListAgents_def snapshotCounts_def Let_def split: option.splits)+

lemma idem_kept_conversations:
  "idem_kept now s (snd (CreateConversation R now cc s))"
  "idem_kept now s (snd (ListConversations R now lf s))"
  "idem_kept now s (snd (ListConversationMessages R now lm s))"
  by (rule idem_kept_frame [of _ _ R];
      simp add: CreateConversation_def ListConversations_def ListConversationMessages_def Let_def
        split: option.splits prod.splits sum.splits)+

lemma idem_kept_inbox:
  "idem_kept now s (fst (snd (poll_turn R now later advance poll deadline wait s d)))"
  "idem_kept now s (fst (snd (ack R now mcommit ak s d)))"
  "idem_kept now s (fst (snd (postEvent R now mcommit ev s d)))"
  "idem_kept now s (snd (observe_turn R now later afterID oflt deadline wait s))"
  by (rule idem_kept_frame [of _ _ R];
      simp add: poll_turn_def ack_def postEvent_def observe_turn_def publish_transition_def Let_def
        case_prod_unfold split: option.splits sum.splits)+

lemma idem_kept_inject: "idem_kept now s (fst (snd (inject R now commit ij s d)))"
  by (rule idem_kept_frame [of _ _ R])
    (simp add: inject_def accept_injection_def publish_message_def publish_injection_def Let_def
        split: option.splits prod.splits sum.splits)

lemma idem_kept_push:
  "worker_take s = Some s' \<Longrightarrow> idem_kept now s s'"
  "worker_finish net i s = Some (r, s') \<Longrightarrow> idem_kept now s s'"
  "background_finish i s = Some (r', s') \<Longrightarrow> idem_kept now s s'"
  "close_begin s = Some s' \<Longrightarrow> idem_kept now s s'"
  "idem_kept now s (close_timeout s)"
  "close_end s = Some s' \<Longrightarrow> idem_kept now s s'"
  by (rule idem_kept_frame;
      auto simp: worker_take_def worker_finish_def background_finish_def close_begin_def close_timeout_def close_end_def
        sendPushCallback_def Let_def split: list.splits if_splits push_end.splits)+

text \<open>A send writes a record only under a key that has none within the window.\<close>

lemma idem_kept_sendMessage: "idem_kept now s (fst (snd (sendMessage R now commit input s d)))"
proof -
  let ?s1 = "sweepLocked R now s"
  let ?k = "dedupeKey (TrimSpace (sm_From input)) (TrimSpace (sm_To input)) (TrimSpace (sm_RequestID input))"
  have swept: "idem_kept now s ?s1" by (rule idem_kept_frame) blast
  have "idem_kept now s (accept_send now acc' ?s1)"
    if miss: "dedup_hit now (TrimSpace (sm_From input)) (TrimSpace (sm_To input)) (TrimSpace (sm_RequestID input)) ?s1 = None"
      and plan: "send_plan now input target ?s1 = Inr acc" and bar: "run_barrier commit acc d = (Inr acc', d')"
    for target acc acc' d'
  proof -
    obtain r where r: "acc' = acc\<lparr>sa_pushReceipt := r\<rparr>" using bar by (rule run_barrier_cases) auto
    have key: "sa_idempotencyKey acc' = ?k" using plan by (rule send_plan_fields) (simp add: r)
    have "s_idempotency (accept_send now acc' ?s1) =
        AList.update (sa_idempotencyKey acc') (sa_idempotency acc') (s_idempotency ?s1)"
      by (simp add: accept_send_def publish_message_def Let_def)
    then have upd: "map_of (s_idempotency (accept_send now acc' ?s1)) j =
        (if j = ?k then Some (sa_idempotency acc') else map_of (s_idempotency ?s1) j)" for j
      by (simp add: key update_conv')
    have old: "\<not> Sub now (ie_CreatedAt e) \<le> cfg_IdempotencyWindow (s_cfg s)"
      if "map_of (s_idempotency ?s1) ?k = Some e" for e
      using that miss by (auto simp: dedup_hit_def split: if_splits option.splits)
    show ?thesis unfolding idem_kept_def
    proof (intro allI impI)
      fix j e
      assume e: "map_of (s_idempotency s) j = Some e" "keys_distinct (s_idempotency s)"
        "Sub now (ie_CreatedAt e) \<le> cfg_IdempotencyWindow (s_cfg s)"
      then have "map_of (s_idempotency ?s1) j = Some e" using swept by (simp add: idem_kept_def)
      with old e(3) show "map_of (s_idempotency (accept_send now acc' ?s1)) j = Some e"
        by (cases "j = ?k") (simp_all add: upd)
    qed
  qed
  with swept show ?thesis
    by (auto simp: sendMessage_def Let_def intro: idem_kept_frame [of _ _ R] split: option.splits sum.splits prod.splits)
qed

lemma idem_kept_clocked: "clocked now x y \<Longrightarrow> idem_kept now (fst x) (fst y)"
  by (induction rule: clocked.induct)
    (auto simp: idem_kept_agents idem_kept_conversations idem_kept_inbox idem_kept_inject idem_kept_sendMessage
      intro: idem_kept_push idem_kept_frame)

text \<open>A run whose clock stays within the window of a record keeps it.\<close>

definition within_window :: "time \<Rightarrow> store \<times> 'd \<Rightarrow> store \<times> 'd \<Rightarrow> bool" where
  "within_window start x y \<longleftrightarrow> (\<exists>now. clocked now x y \<and> Sub now start \<le> cfg_IdempotencyWindow (s_cfg (fst x)))"

lemma within_window_steps: "(within_window start)\<^sup>*\<^sup>* x y \<Longrightarrow> bus_step\<^sup>*\<^sup>* x y"
  by (rule mono_rtranclp [rule_format, of "within_window start"])
    (auto simp: within_window_def bus_step_clocked)

lemma record_kept:
  assumes "(within_window (ie_CreatedAt e))\<^sup>*\<^sup>* x y" and "bus_inv (fst x)" and "map_of (s_idempotency (fst x)) k = Some e"
  shows "map_of (s_idempotency (fst y)) k = Some e"
  using assms
proof (induction rule: rtranclp_induct)
  case (step y z)
  then obtain now where now: "clocked now y z" "Sub now (ie_CreatedAt e) \<le> cfg_IdempotencyWindow (s_cfg (fst y))"
    by (auto simp: within_window_def)
  have "bus_inv (fst y)" using bus_life.steps_inv within_window_steps [OF step(1)] step.prems(1) by blast
  then have "keys_distinct (s_idempotency (fst y))" by (simp add: bus_inv_def idempotency_inv_def)
  then show ?case using idem_kept_clocked [OF now(1)] now(2) step unfolding idem_kept_def by blast
qed simp

end
