(* ===== verification/Delivery.thy ===== *)
theory Delivery
  imports Access Bus_Clock
begin

text \<open>
  What happens to messages: acceptance and its atomicity with the durability barrier,
  deduplication, acknowledgements, progress and results, injections.
\<close>

section \<open>Accepting a message\<close>

lemma accept_send_tables:
  fixes now :: time and s :: store and acc :: send_acceptance
  defines "s' \<equiv> accept_send now acc s"
  shows "map_of (s_messages s') k = (if k = m_MessageID (sa_message acc) then Some (sa_message acc) else map_of (s_messages s) k)"
    and "map_of (s_idempotency s') k' = (if k' = sa_idempotencyKey acc then Some (sa_idempotency acc) else map_of (s_idempotency s) k')"
    and "s_agents s' = s_agents s" and "s_cfg s' = s_cfg s"
    and "get_or [] (s_conversationMessages s') c = (if c = c_ConversationID (sa_conversation acc)
      then get_or [] (s_conversationMessages s) c @ [m_MessageID (sa_message acc)] else get_or [] (s_conversationMessages s) c)"
    and "map_of (s_conversations s') c = (if c = c_ConversationID (sa_conversation acc)
      then Some (sa_conversation acc) else map_of (s_conversations s) c)"
    and "s_nextMessageID s' = sa_nextMessageID acc"
    and "s_nextObserveID s' = s_nextObserveID s + 1"
  by (simp_all add: s'_def accept_send_def install_message_def deliver_inbox_def publish_message_def Let_def
      push_and_finish_def enqueuePushJobLocked_def publishLocked_ring split: option.splits)




text \<open>
  What has to be true for a send to come to the durability barrier: its fields are valid, sender and
  recipient may talk to each other, it repeats no request, and its conversation can be used.
\<close>

definition send_ready :: "orders \<Rightarrow> time \<Rightarrow> send_message_input \<Rightarrow> store \<Rightarrow> send_acceptance \<Rightarrow> bool" where
  "send_ready R now input s acc \<longleftrightarrow> send_check input s = None \<and>
     dedup_hit now (TrimSpace (sm_From input)) (TrimSpace (sm_To input)) (TrimSpace (sm_RequestID input)) (sweepLocked R now s) = None \<and>
     (\<exists>target. send_authorize (TrimSpace (sm_From input)) (TrimSpace (sm_To input)) (sweepLocked R now s) = Inr target \<and>
        send_plan now input target (sweepLocked R now s) = Inr acc)"

lemma sendMessage_ready:
  assumes "send_ready R now input s acc"
  shows "sendMessage R now commit input s d = (case run_barrier commit acc d of
      (Inl err, d1) \<Rightarrow> (Inl err, sweepLocked R now s, d1)
    | (Inr acc', d1) \<Rightarrow> (Inr (sa_message acc', False), accept_send now acc' (sweepLocked R now s), d1))"
  using assms by (auto simp: sendMessage_def send_ready_def Let_def split: prod.splits sum.splits)

lemma sendMessage_not_ready:
  assumes "\<nexists>acc. send_ready R now input s acc" and "sendMessage R now commit input s d = (res, s', d')"
  shows "(\<nexists>m. res = Inr (m, False)) \<and> (s' = s \<or> s' = sweepLocked R now s) \<and> d' = d"
  using assms by (auto simp: send_ready_def sendMessage_def Let_def split: option.splits sum.splits prod.splits)

lemma send_ready_numbers:
  assumes "send_ready R now input s acc"
  shows "m_MessageID (sa_message acc) = message_id (s_nextMessageID s + 1)"
    and "sa_nextMessageID acc = s_nextMessageID s + 1"
proof -
  obtain target where "send_plan now input target (sweepLocked R now s) = Inr acc"
    using assms by (auto simp: send_ready_def)
  then obtain nextConv conv where
    "send_conversation now (TrimSpace (sm_From input)) (TrimSpace (sm_To input)) (sm_ConversationID input) (sweepLocked R now s) =
       Inr (nextConv, conv)"
    and "sa_message acc = route_message now target
      (new_message now input (c_ConversationID conv) (s_nextMessageID (sweepLocked R now s) + 1) (sweepLocked R now s)) (sweepLocked R now s)"
    and "sa_nextMessageID acc = s_nextMessageID (sweepLocked R now s) + 1"
    by (rule send_plan_fields)
  then show "m_MessageID (sa_message acc) = message_id (s_nextMessageID s + 1)"
    and "sa_nextMessageID acc = s_nextMessageID s + 1" by simp_all
qed

text \<open>
  C4. Acceptance is atomic with the durability barrier. When nothing stands against a send, the
  barrier of the backend is asked to commit exactly the acceptance that was planned, and its answer
  decides. If it fails, the caller gets the barrier's own error and the store is as the sweep at the start of
  the send left it: no number used, nothing stored, linked, delivered, published or queued for push. If
  it succeeds, or there is no barrier because the bus keeps its state in memory, the planned message is accepted under the next
  number. A send that is refused or repeats an earlier one never reaches the barrier: the state of
  the durable backend is untouched and the store changes by the sweep at most.
\<close>

theorem send_atomic:
  assumes "sendMessage R now commit input s d = (res, s', d')"
  defines "accepted \<equiv> \<lambda>acc. res = Inr (sa_message acc, False) \<and>
      map_of (s_messages s') (m_MessageID (sa_message acc)) = Some (sa_message acc) \<and>
      m_MessageID (sa_message acc) = message_id (s_nextMessageID s + 1) \<and> s_nextMessageID s' = s_nextMessageID s + 1"
  shows "(\<exists>acc. send_ready R now input s acc \<and>
      (case commit of
         None \<Rightarrow> accepted acc \<and> d' = d
       | Some barrier \<Rightarrow>
           (case barrier acc d of
              (Inl err, d1) \<Rightarrow> res = Inl err \<and> s' = sweepLocked R now s \<and> d' = d1
            | (Inr receipt, d1) \<Rightarrow> accepted acc \<and> d' = d1))) \<or>
    (\<nexists>acc. send_ready R now input s acc) \<and> (\<nexists>m. res = Inr (m, False)) \<and>
      (s' = s \<or> s' = sweepLocked R now s) \<and> d' = d"
proof (cases "\<exists>acc. send_ready R now input s acc")
  case True
  then obtain acc where ready: "send_ready R now input s acc" by blast
  note send = sendMessage_ready [OF ready, of commit d] and numbers = send_ready_numbers [OF ready]
  have stored: "accepted acc" if "res = Inr (sa_message acc, False)" "s' = accept_send now (acc\<lparr>sa_pushReceipt := r\<rparr>) (sweepLocked R now s)" for r
    using that numbers by (simp add: accepted_def accept_send_tables)
  show ?thesis
  proof (cases commit)
    case None
    with send assms(1) have out: "res = Inr (sa_message acc, False)" "d' = d"
      "s' = accept_send now (acc\<lparr>sa_pushReceipt := sa_pushReceipt acc\<rparr>) (sweepLocked R now s)"
      by (simp_all add: run_barrier_def)
    from stored [OF out(1,3)] out(2) ready None show ?thesis by (intro disjI1 exI [of _ acc]) simp
  next
    case (Some barrier)
    obtain b d1 where b: "barrier acc d = (b, d1)" by (cases "barrier acc d")
    show ?thesis
    proof (cases b)
      case (Inl err)
      with send Some b assms(1) have "res = Inl err" "s' = sweepLocked R now s" "d' = d1" by (simp_all add: run_barrier_def)
      with ready Some b Inl show ?thesis by (intro disjI1 exI [of _ acc]) simp
    next
      case (Inr r)
      with send Some b assms(1) have out: "res = Inr (sa_message acc, False)" "d' = d1"
        "s' = accept_send now (acc\<lparr>sa_pushReceipt := r\<rparr>) (sweepLocked R now s)" by (simp_all add: run_barrier_def)
      from stored [OF out(1,3)] out(2) ready Some b Inr show ?thesis by (intro disjI1 exI [of _ acc]) simp
    qed
  qed
next
  case False
  with sendMessage_not_ready [OF False assms(1)] show ?thesis by blast
qed

theorem send_atomic_witness:
  "sendMessage ex_orders ex_time (Some (\<lambda>acc d. (Inl (OtherError ''disk full''), d))) ex_send ex2 () =
     (Inl (OtherError ''disk full''), sweepLocked ex_orders ex_time ex2, ())"
proof -
  let ?s = "ex2\<lparr>s_sweepSkipped := Suc (s_sweepSkipped ex2)\<rparr>"
  have sent: "sendMessage ex_orders ex_time (Some (\<lambda>acc d. (Inl (OtherError ''disk full''), d))) ex_send ex2 () =
      (Inl (OtherError ''disk full''), ?s, ())"
    by (simp add: ex_send_eval run_barrier_def Let_def)
  have "s_sweepSkipped ?s \<noteq> s_sweepSkipped ex2" by simp
  then have "?s \<noteq> ex2" by metis
  moreover have "?s = ex2 \<or> ?s = sweepLocked ex_orders ex_time ex2"
    using send_atomic [OF sent] unfolding option.case prod.case sum.case by blast
  ultimately show ?thesis using sent by simp
qed

section \<open>Deduplication\<close>

lemma dedup_hit_entry:
  assumes "map_of (s_idempotency s) (dedupeKey from to rid) = Some e"
    and "Sub now (ie_CreatedAt e) \<le> cfg_IdempotencyWindow (s_cfg s)" and "messages_inv s"
  shows "\<exists>x. dedup_hit now from to rid s = Some x \<and> m_MessageID x = ie_MessageID e"
  using assms by (cases "map_of (s_messages s) (ie_MessageID e)") (auto simp: dedup_hit_def messages_inv_def)

lemma send_recorded:
  assumes "bus_inv s" and "sendMessage R now commit input s d = (Inr (m, False), s', d')"
  shows "bus_inv s'" and "s_cfg s' = s_cfg s"
    and "map_of (s_idempotency s') (dedupeKey (TrimSpace (sm_From input)) (TrimSpace (sm_To input)) (TrimSpace (sm_RequestID input))) =
      Some \<lparr>ie_MessageID = m_MessageID m, ie_CreatedAt = now\<rparr>"
    and "map_of (s_messages s') (m_MessageID m) = Some m"
proof -
  obtain target acc acc' where ok: "send_plan now input target (sweepLocked R now s) = Inr acc"
    "run_barrier commit acc d = (Inr acc', d')" "m = sa_message acc'" "s' = accept_send now acc' (sweepLocked R now s)"
    using assms(2) by (rule sendMessage_accepted)
  obtain r where r: "acc' = acc\<lparr>sa_pushReceipt := r\<rparr>" using ok(2) by (rule run_barrier_cases) auto
  have plan: "sa_idempotencyKey acc = dedupeKey (TrimSpace (sm_From input)) (TrimSpace (sm_To input)) (TrimSpace (sm_RequestID input))"
    "sa_idempotency acc = \<lparr>ie_MessageID = m_MessageID m, ie_CreatedAt = now\<rparr>"
    using ok(1) by (rule send_plan_fields, simp add: ok(3) r)+
  show "bus_inv s'" using send_op.op_inv [OF assms(1), of R now commit input d] assms(2) by simp
  show "s_cfg s' = s_cfg s" by (simp add: ok(4) accept_send_tables)
  show "map_of (s_idempotency s') (dedupeKey (TrimSpace (sm_From input)) (TrimSpace (sm_To input)) (TrimSpace (sm_RequestID input))) =
      Some \<lparr>ie_MessageID = m_MessageID m, ie_CreatedAt = now\<rparr>"
    by (simp add: ok(4) accept_send_tables r plan)
  show "map_of (s_messages s') (m_MessageID m) = Some m" by (simp add: ok(3,4) accept_send_tables)
qed

lemma sent_message_fields:
  assumes "sendMessage R now commit input s d = (Inr (m, False), s', d')"
  shows "m_From m = TrimSpace (sm_From input)" and "m_To m = TrimSpace (sm_To input)"
    and "m_RequestID m = TrimSpace (sm_RequestID input)"
proof -
  obtain target acc acc' where ok: "send_plan now input target (sweepLocked R now s) = Inr acc"
    "run_barrier commit acc d = (Inr acc', d')" "m = sa_message acc'"
    using assms by (rule sendMessage_accepted)
  obtain r where r: "acc' = acc\<lparr>sa_pushReceipt := r\<rparr>" using ok(2) by (rule run_barrier_cases) auto
  obtain nextConv conv where
    "send_conversation now (TrimSpace (sm_From input)) (TrimSpace (sm_To input)) (sm_ConversationID input) (sweepLocked R now s) =
       Inr (nextConv, conv)"
    and plan: "sa_message acc = route_message now target
      (new_message now input (c_ConversationID conv) (s_nextMessageID (sweepLocked R now s) + 1) (sweepLocked R now s)) (sweepLocked R now s)"
    using ok(1) by (rule send_plan_fields)
  show "m_From m = TrimSpace (sm_From input)" and "m_To m = TrimSpace (sm_To input)"
    and "m_RequestID m = TrimSpace (sm_RequestID input)"
    by (simp_all add: ok(3) r plan)
qed

lemma message_evolved:
  assumes "bus_inv s" and "evolves s t" and "map_of (s_messages s) k = Some m" and "map_of (s_messages t) k = Some m'"
  shows "message_step m m'"
proof -
  obtain i where "1 \<le> i" "i \<le> s_nextMessageID s" "k = message_id i"
    using assms(1,3) by (auto simp: bus_inv_def messages_inv_def issued_def)
  then show ?thesis using assms(2-4) unfolding evolves_def by fastforce
qed

lemma sendMessage_repeats:
  assumes "dedup_hit now (TrimSpace (sm_From input)) (TrimSpace (sm_To input)) (TrimSpace (sm_RequestID input)) (sweepLocked R now s) = Some x"
    and "sendMessage R now commit input s d = (Inr (m, dup), s', d')"
  shows "m = x \<and> dup \<and> s' = sweepLocked R now s \<and> d' = d"
  using assms by (auto simp: sendMessage_def Let_def split: option.splits sum.splits)

text \<open>What the caller of a repeated send is told when retention has reclaimed the message of the first.\<close>

definition reclaimed_answer :: "message \<Rightarrow> time \<Rightarrow> message" where
  "reclaimed_answer m sent = zero_message\<lparr>m_MessageID := m_MessageID m, m_From := m_From m, m_To := m_To m,
     m_RequestID := m_RequestID m, m_CreatedAt := sent\<rparr>"

text \<open>
  C3. Sending is idempotent within the window. After a send was accepted, let the bus take any number
  of steps of any kind (of any agent, of the push workers, of the durable backend), each reading a
  clock that is still within the idempotency window of that send. If the same sender then repeats the
  request identifier to the same recipient, in whatever spelling of the surrounding space and with
  whatever body, again within the window, and gets an answer, then the answer is marked as a duplicate
  and is the message of the first send as the store now has it: same identifier, fields and body, its
  state moved on at most as its lifecycle allows. Only when retention has reclaimed that message in the
  meantime is the answer a stub with its identifier, sender, recipient, request identifier and time of sending.
  The durable backend is not asked to commit anything, and the store changes only by the sweep.
\<close>

theorem send_idempotent:
  assumes "bus_inv s" and "sendMessage R now commit input s d = (Inr (m, False), s', d')"
    and "(within_window now)\<^sup>*\<^sup>* (s', d') (s2, d2)"
    and "sendMessage R' now' commit' input' s2 d2 = (Inr (m', dup), s3, d3)"
    and "TrimSpace (sm_From input') = TrimSpace (sm_From input)"
    and "TrimSpace (sm_To input') = TrimSpace (sm_To input)"
    and "TrimSpace (sm_RequestID input') = TrimSpace (sm_RequestID input)"
    and "Sub now' now \<le> cfg_IdempotencyWindow (s_cfg s)"
  shows "dup \<and> m_MessageID m' = m_MessageID m \<and> s3 = sweepLocked R' now' s2 \<and> d3 = d2 \<and>
    (case map_of (s_messages s3) (m_MessageID m) of
       Some stored \<Rightarrow> m' = stored \<and> message_step m stored
     | None \<Rightarrow> m' = reclaimed_answer m now)"
proof -
  let ?k = "dedupeKey (TrimSpace (sm_From input)) (TrimSpace (sm_To input)) (TrimSpace (sm_RequestID input))"
    and ?t = "sweepLocked R' now' s2" and ?e = "\<lparr>ie_MessageID = m_MessageID m, ie_CreatedAt = now\<rparr>"
  note first = send_recorded [OF assms(1,2)]
  have run: "bus_step\<^sup>*\<^sup>* (s', d') (s2, d2)" using assms(3) by (rule within_window_steps)
  have inv2: "bus_inv s2" and evo2: "evolves s' s2"
    using bus_life.steps_inv [OF run] bus_life.history [OF run] first(1) by simp_all
  have entry2: "map_of (s_idempotency s2) ?k = Some ?e"
    using record_kept [of ?e "(s', d')" "(s2, d2)" ?k] assms(3) first by simp
  have evo: "evolves s' ?t" and inv: "bus_inv ?t"
    using keeps_sweepLocked [of s2 R' now'] inv2 evolves_trans [OF evo2] by (auto simp: keeps_def)
  have cfg: "s_cfg s2 = s_cfg s" using evo2 first(2) by (simp add: evolves_def)
  have "keys_distinct (s_idempotency s2)" using inv2 by (simp add: bus_inv_def idempotency_inv_def)
  then have entry: "map_of (s_idempotency ?t) ?k = Some ?e"
    using entry2 assms(8) cfg by (simp add: sweepLocked_idempotency map_of_filter_distinct)
  define x where "x = (case map_of (s_messages ?t) (m_MessageID m) of Some stored \<Rightarrow> stored | None \<Rightarrow>
    zero_message\<lparr>m_MessageID := m_MessageID m, m_From := TrimSpace (sm_From input), m_To := TrimSpace (sm_To input),
      m_RequestID := TrimSpace (sm_RequestID input), m_CreatedAt := now\<rparr>)"
  have hit: "dedup_hit now' (TrimSpace (sm_From input')) (TrimSpace (sm_To input')) (TrimSpace (sm_RequestID input')) ?t = Some x"
    using entry assms(5-8) cfg by (simp add: dedup_hit_def x_def split: option.splits)
  note answer = sendMessage_repeats [OF hit assms(4)]
  have fields: "m_From m = TrimSpace (sm_From input)" "m_To m = TrimSpace (sm_To input)"
    "m_RequestID m = TrimSpace (sm_RequestID input)"
    using assms(2) by (rule sent_message_fields)+
  show ?thesis
  proof (cases "map_of (s_messages ?t) (m_MessageID m)")
    case None
    then show ?thesis using answer by (simp add: x_def reclaimed_answer_def fields)
  next
    case (Some stored)
    have "message_step m stored" by (rule message_evolved [OF first(1) evo first(4) Some])
    then show ?thesis using answer Some by (simp add: x_def message_step_def)
  qed
qed

lemma ex_send_again:
  assumes "same_policy s" and "s_lastSweepAt s = ex_time" and "s_agents s = s_agents ex2"
    and "s_messages s = [(''m-000001'', x)]" and "s_idempotency s = s_idempotency ex3"
  shows "sendMessage ex_orders ex_time (None :: unit barrier) ex_send s () =
     (Inr (x, True), s\<lparr>s_sweepSkipped := Suc (s_sweepSkipped s)\<rparr>, ())"
proof -
  let ?s = "sweepLocked ex_orders ex_time s"
  have sw: "?s = s\<lparr>s_sweepSkipped := Suc (s_sweepSkipped s)\<rparr>"
    using assms(1,2) by (intro ex_skip) (auto simp: same_policy_def ex_policy_def)
  have pol: "same_policy s" "same_policy ?s" using assms(1) by (simp_all add: same_policy_sweep)
  have trims: "TrimSpace (sm_From ex_send) = ''ucla.a''" "TrimSpace (sm_To ex_send) = ''ucla.b''"
    "TrimSpace (sm_RequestID ex_send) = ''r1''" "TrimSpace (sm_Body ex_send) = ''hi''"
    by (simp_all add: ex_send_def ex_names)
  have check: "send_check ex_send s = None"
    by (simp add: send_check_def Let_def trims send_type_def same_policy_eval [OF pol(1)] ex_policy_names)
      (simp add: ex_send_def)
  have auth: "send_authorize ''ucla.a'' ''ucla.b'' ?s = Inr (ex_agent ''ucla.b'')"
    using same_policy_eval [OF pol(2)]
    by (simp add: send_authorize_def sw assms(3) ex2_fields ex_agent_def ex_policy_names)
  have "s_cfg s = normalize_config ex_config" using pol(1) by (simp add: same_policy_def ex_policy_def)
  then have "dedup_hit ex_time ''ucla.a'' ''ucla.b'' ''r1'' ?s = Some x"
    by (simp add: dedup_hit_def sw assms(4,5) ex3_fields ex_config_fields)
  then show ?thesis
    by (simp add: sendMessage_def check trims auth Let_def) (simp add: sw)
qed

lemma ack_frame:
  assumes "ack_check i = None"
  shows "s_cfg (fst (snd (ack R now commit i s d))) = s_cfg s"
  "s_controlPlaneAgents (fst (snd (ack R now commit i s d))) = s_controlPlaneAgents s"
  "s_lastSweepAt (fst (snd (ack R now commit i s d))) = s_lastSweepAt (sweepLocked R now s)"
  "s_idempotency (fst (snd (ack R now commit i s d))) = s_idempotency (sweepLocked R now s)"
  by (simp_all add: ack_def assms publish_transition_def Let_def case_prod_unfold split: option.splits sum.splits)

text \<open>The witness repeats a request that its recipient has accepted since: the answer shows it executing.\<close>

theorem send_idempotent_witness:
  "\<exists>s'. sendMessage ex_orders ex_time (None :: unit barrier) ex_send ex4 () =
       (Inr (ex_message\<lparr>m_State := StateExecuting\<rparr>, True), s', ()) \<and>
     message_step ex_message (ex_message\<lparr>m_State := StateExecuting\<rparr>)"
proof -
  have sent: "sendMessage ex_orders ex_time (None :: unit barrier) ex_send ex2 () = (Inr (ex_message, False), ex3, ())"
    by (simp add: ex_send_eval run_barrier_def Let_def ex3_accepted) (simp add: ex_acceptance_def)
  have check: "ack_check ex_ack = None" by (simp add: ack_check_def ex_ack_def ex_names ex_ack_names Let_def)
  have window: "cfg_IdempotencyWindow (s_cfg ex2) = 24 * Hour" "cfg_IdempotencyWindow (s_cfg ex3) = 24 * Hour"
    using ex2_fields(1) ex3_fields(1) by (simp_all add: same_policy_def ex_policy_def ex_config_fields)
  have "snd (ack ex_orders ex_time (None :: unit message_barrier) ex_ack ex3 ()) = (ex4, ())"
    by (simp add: ex4_def prod_eq_iff)
  then have "clocked ex_time (ex3, ()) (ex4, ())" by (metis at_ack)
  then have run: "(within_window ex_time)\<^sup>*\<^sup>* (ex3, ()) (ex4, ())"
    using window by (intro r_into_rtranclp) (auto simp: within_window_def)
  have sw: "sweepLocked ex_orders ex_time ex3 = ex3\<lparr>s_sweepSkipped := Suc (s_sweepSkipped ex3)\<rparr>"
    using ex3_fields(1,2) by (intro ex_skip) (auto simp: same_policy_def ex_policy_def)
  have "same_policy ex4" "s_lastSweepAt ex4 = ex_time" "s_idempotency ex4 = s_idempotency ex3"
    using ex3_fields(1,2) by (simp_all add: ex4_def ack_frame [OF check] same_policy_def) (simp_all add: sw)
  then have again: "sendMessage ex_orders ex_time (None :: unit barrier) ex_send ex4 () =
      (Inr (ex_message\<lparr>m_State := StateExecuting\<rparr>, True), ex4\<lparr>s_sweepSkipped := Suc (s_sweepSkipped ex4)\<rparr>, ())"
    by (intro ex_send_again) (simp_all add: ex4_fields)
  have "m_MessageID ex_message = ''m-000001''" by (simp add: ex_message_def)
  then show ?thesis
    using send_idempotent [OF ex_inv(3) sent run again] window again by (auto simp: ex4_fields)
qed

text \<open>
  The idempotency key tells requests apart: for names without the separator byte, different
  senders, recipients or request identifiers give different keys. Without that condition they may
  not: the key of a sender whose name contains the byte can be the key of another sender.
\<close>

theorem dedupeKey_injective:
  "(CHR 0x1F \<notin> set from \<union> set to \<union> set from' \<union> set to' \<longrightarrow>
     dedupeKey from to rid = dedupeKey from' to' rid' \<longleftrightarrow> from = from' \<and> to = to' \<and> rid = rid') \<and>
   dedupeKey (a @ CHR 0x1F # b) c rid = dedupeKey a (b @ CHR 0x1F # c) rid"
proof -
  have cut: "x @ sep # y = x' @ sep # y' \<longleftrightarrow> x = x' \<and> y = y'"
    if "sep \<notin> set x" "sep \<notin> set x'" for x x' y y' :: string and sep
    using Cut_append [OF that(1)] Cut_append [OF that(2)] by (metis fst_conv snd_conv)
  show ?thesis by (auto simp: dedupeKey_def cut)
qed

theorem dedupeKey_injective_witness:
  "dedupeKey ''ucla.a'' ''ucla.b'' ''r1'' \<noteq> dedupeKey ''ucla.b'' ''ucla.a'' ''r1''"
  using dedupeKey_injective [of "''ucla.a''" "''ucla.b''" "''ucla.b''" "''ucla.a''" "''r1''" "''r1''"] by simp

text \<open>
  A conversation that already has the identifier the counter would give next blocks sends that
  do not name a conversation: if the sender may not access one of its participants, the send is
  refused as unauthorized, and since a refused send does not advance the counter, so is every
  retry. Conversation identifiers are chosen freely by whoever creates one.
\<close>

theorem squatted_conversation_blocks:
  assumes "send_check input s = None"
    and "send_authorize (TrimSpace (sm_From input)) (TrimSpace (sm_To input)) (sweepLocked R now s) = Inr target"
    and "dedup_hit now (TrimSpace (sm_From input)) (TrimSpace (sm_To input)) (TrimSpace (sm_RequestID input))
      (sweepLocked R now s) = None"
    and "TrimSpace (sm_ConversationID input) = []"
    and "map_of (s_conversations (sweepLocked R now s)) (conversation_id (s_nextConversationID s + 1)) = Some c"
    and "p \<in> set (c_Participants c)" and "TrimSpace p \<noteq> []"
    and "\<not> agentCanAccessName (sweepLocked R now s) (TrimSpace (sm_From input)) p"
  shows "\<exists>err s'. sendMessage R now commit input s d = (Inl err, s', d) \<and> error_is CodeUnauthorized err \<and>
    s_nextConversationID s' = s_nextConversationID s"
proof -
  let ?s1 = "sweepLocked R now s" and ?f = "TrimSpace (sm_From input)"
  have f: "TrimSpace ?f \<noteq> []" using assms(1) by (auto simp: send_check_def Let_def split: if_splits)
  have "authorizeActorForNames ?s1 ?f (c_Participants c) \<noteq> None"
    using assms(6-8) f by (auto simp: authorizeActorForNames_iff)
  moreover have "error_is CodeUnauthorized e" if "authorizeNames_loop s2 a ns = Some e" for s2 :: store and a ns e
    using that by (induction ns) (auto simp: Let_def split: if_splits)
  ultimately obtain err where err: "authorizeActorForNames ?s1 ?f (c_Participants c) = Some err"
    "error_is CodeUnauthorized err"
    by (auto simp: authorizeActorForNames_def Let_def split: if_splits)
  have "send_conversation now ?f (TrimSpace (sm_To input)) (sm_ConversationID input) ?s1 = Inl err"
    using assms(4,5) err(1) by (simp add: send_conversation_def Let_def)
  then have "send_plan now input target ?s1 = Inl err" by (simp add: send_plan_def Let_def)
  with assms(1-3) err(2) show ?thesis by (simp add: sendMessage_def Let_def)
qed

theorem squatted_conversation_blocks_witness:
  "\<exists>err s'. sendMessage ex_orders ex_time (None :: unit barrier) ex_send
       (ex2\<lparr>s_conversations := [(''c-000001'', ex_conversation\<lparr>c_Participants := [''personal.x'']\<rparr>)]\<rparr>) () = (Inl err, s', ()) \<and>
     error_is CodeUnauthorized err \<and> s_nextConversationID s' = 0"
proof -
  let ?c = "ex_conversation\<lparr>c_Participants := [''personal.x'']\<rparr>"
  let ?s = "ex2\<lparr>s_conversations := [(''c-000001'', ?c)]\<rparr>"
  let ?s1 = "sweepLocked ex_orders ex_time ?s"
  have sw: "?s1 = ?s\<lparr>s_sweepSkipped := Suc (s_sweepSkipped ?s)\<rparr>"
    using ex2_fields(1,2) by (intro ex_skip) (auto simp: same_policy_def ex_policy_def)
  have pol: "same_policy ?s" "same_policy ?s1"
    using ex2_fields(1) by (simp_all add: same_policy_sweep) (simp_all add: same_policy_def)
  have trims: "TrimSpace (sm_From ex_send) = ''ucla.a''" "TrimSpace (sm_To ex_send) = ''ucla.b''"
    "TrimSpace (sm_RequestID ex_send) = ''r1''" "TrimSpace (sm_Body ex_send) = ''hi''"
    "TrimSpace (sm_ConversationID ex_send) = []"
    by (simp_all add: ex_send_def ex_names)
  have check: "send_check ex_send ?s = None"
    by (simp add: send_check_def Let_def trims send_type_def same_policy_eval [OF pol(1)] ex_policy_names)
      (simp add: ex_send_def)
  have auth: "send_authorize ''ucla.a'' ''ucla.b'' ?s1 = Inr (ex_agent ''ucla.b'')"
    using same_policy_eval [OF pol(2)]
    by (simp add: send_authorize_def sw ex2_fields ex_agent_def ex_policy_names)
  have dedup: "dedup_hit ex_time ''ucla.a'' ''ucla.b'' ''r1'' ?s1 = None"
    by (simp add: dedup_hit_def sw ex2_fields)
  have id: "conversation_id 1 = ''c-000001''" "TrimSpace ''personal.x'' \<noteq> []"
    "\<not> agentCanAccessName ex_policy ''ucla.a'' ''personal.x''" by code_simp+
  have look: "map_of (s_conversations ?s1) (conversation_id (s_nextConversationID ?s + 1)) = Some ?c"
    by (simp add: ex2_fields id) (simp add: sw)
  have "''personal.x'' \<in> set (c_Participants ?c)" by simp
  from squatted_conversation_blocks [OF check auth [folded trims(1,2)] dedup [folded trims(1-3)] trims(5) look this id(2),
      where commit = "None :: unit barrier" and d = "()"]
  show ?thesis
    using id(3) same_policy_eval(7) [OF pol(2)] by (simp add: trims ex2_fields)
qed

section \<open>Acknowledging and reporting\<close>

text \<open>
  An acknowledgement is accepted only from the recipient of a request. If the request is
  already final the call succeeds and changes nothing. Otherwise, when the barrier commits, the
  request becomes executing or rejected, is no longer queued, counts as delivered, and two observer
  events report it; when the barrier fails, the store is as the sweep left it.
\<close>

theorem ack_effect:
  fixes R :: orders and now :: time and s :: store
  assumes "ack_check input = None"
  defines "s1 \<equiv> sweepLocked R now s" and "k \<equiv> TrimSpace (ak_MessageID input)"
  shows "case ack R now commit input s d of (res, s', d') \<Rightarrow>
    (case map_of (s_messages s1) k of
       None \<Rightarrow> (\<exists>e. res = Some e \<and> error_is CodeNotFound e) \<and> s' = s1 \<and> d' = d
     | Some m \<Rightarrow>
         if m_Type m \<noteq> MessageTypeRequest then (\<exists>e. res = Some e \<and> error_is CodeValidation e) \<and> s' = s1 \<and> d' = d
         else if m_To m \<noteq> TrimSpace (ak_AgentID input) then
           (\<exists>e. res = Some e \<and> error_is CodeUnauthorized e) \<and> s' = s1 \<and> d' = d
         else if isTerminal (m_State m) then res = None \<and> s' = s1 \<and> d' = d
         else if res \<noteq> None then s' = s1
         else (\<exists>m'. map_of (s_messages s') k = Some m' \<and> \<not> m_QueuedForAgent m' \<and>
                 m_State m' = (if TrimSpace (ak_Status input) = ''rejected'' then StateRejected else StateExecuting) \<and>
                 m_DeliveredAt m' = (if IsZero (m_DeliveredAt m) then now else m_DeliveredAt m)) \<and>
              s_nextObserveID s' = s_nextObserveID s1 + 2 \<and>
              (\<forall>j. j \<noteq> k \<longrightarrow> map_of (s_messages s') j = map_of (s_messages s1) j))"
  using assms(1)
  by (auto simp: ack_def Let_def s1_def [symmetric] k_def [symmetric] acked_def publish_transition_def publishLocked_ring
      split: option.splits prod.splits)

theorem ack_effect_witness:
  "\<exists>m'. map_of (s_messages ex4) ''m-000001'' = Some m' \<and> m_State m' = StateExecuting \<and> s_nextObserveID ex4 = 5"
proof -
  let ?s1 = "sweepLocked ex_orders ex_time ex3"
  have sw: "?s1 = ex3\<lparr>s_sweepSkipped := Suc (s_sweepSkipped ex3)\<rparr>"
    using ex3_fields(1,2) by (intro ex_skip) (auto simp: same_policy_def ex_policy_def)
  have check: "ack_check ex_ack = None" by (simp add: ack_check_def ex_ack_def ex_names ex_ack_names Let_def)
  have names: "TrimSpace (ak_AgentID ex_ack) = ''ucla.b''" "TrimSpace (ak_MessageID ex_ack) = ''m-000001''"
    "TrimSpace (ak_Status ex_ack) = ''accepted''"
    by (simp_all add: ex_ack_def ex_names ex_ack_names)
  have m: "m_Type ex_message = MessageTypeRequest" "m_To ex_message = ''ucla.b''" "m_State ex_message = StateWaitingAck"
    by (simp_all add: ex_message_def)
  have "s_nextObserveID ?s1 \<noteq> s_nextObserveID ex4" by (simp add: sw ex3_fields ex4_fields)
  then have ne: "ex4 \<noteq> ?s1" by metis
  obtain res where "ack ex_orders ex_time (None :: unit message_barrier) ex_ack ex3 () = (res, ex4, ())"
    by (metis ex4_def old.unit.exhaust prod.collapse)
  with ack_effect [OF check, where R = ex_orders and now = ex_time and s = ex3
      and commit = "None :: unit message_barrier" and d = "()"] ne show ?thesis
    by (auto simp: names m sw ex3_fields ex4_fields split: if_splits)
qed

text \<open>
  Progress and results come from the recipient of a request only, and only while it is open.
  Progress reports are rate limited: one that comes sooner after the last than the configured
  interval is refused as transient with the time to wait. Otherwise progress moves a waiting
  request to executing, and a result or an error closes it, stamped with the time.
\<close>

theorem event_transition_correct:
  assumes "message_ok m" and "m_Type m = MessageTypeRequest" and "\<not> isTerminal (m_State m)"
    and "ty \<in> {''progress'', ''final'', ''error''}"
  shows "case event_transition cfg now ty m of
      Inl e \<Rightarrow> ty = ''progress'' \<and> \<not> IsZero (m_LastProgressAt m) \<and>
        Sub now (m_LastProgressAt m) < cfg_ProgressMinInterval cfg \<and> error_is CodeRateLimited e
    | Inr m' \<Rightarrow> message_step m m' \<and> message_ok m' \<and>
        (ty = ''progress'' \<longrightarrow> m_LastProgressAt m' = now \<and> \<not> isTerminal (m_State m') \<and>
           (m_State m = StateWaitingAck \<longrightarrow> m_State m' = StateExecuting)) \<and>
        (ty = ''final'' \<longrightarrow> m_State m' = StateCompleted \<and> m_TerminalAt m' = now) \<and>
        (ty = ''error'' \<longrightarrow> m_State m' = StateError \<and> m_TerminalAt m' = now)"
proof (cases "event_transition cfg now ty m")
  case (Inl e)
  then show ?thesis using assms(4) by (auto simp: event_transition_def Let_def split: if_splits)
next
  case (Inr m')
  from message_step_event [OF assms(1-3) Inr] show ?thesis
    using Inr assms(3,4) by (auto simp: event_transition_def Let_def split: if_splits)
qed

theorem event_transition_correct_witness:
  "case event_transition ex_config ex_time ''final'' ex_message of
     Inl e \<Rightarrow> False | Inr m' \<Rightarrow> m_State m' = StateCompleted \<and> message_step ex_message m'"
  using event_transition_correct [where m = ex_message and ty = "''final''" and cfg = ex_config and now = ex_time]
  by (simp add: ex_message_def message_ok_def split: sum.splits)

section \<open>Injections\<close>

text \<open>
  A human injection is accepted only from an identity on the allow list, when there is one; it
  is an inform message from \<^verbatim>\<open>human:\<close> followed by that identity, complete at once unless it is queued for
  an agent in its grace period, in which case it is pending. An injection that is refused, or whose
  barrier fails, leaves the store as the sweep left it.
\<close>

theorem inject_effect:
  assumes "inject R now commit input s d = (res, s', d')"
  defines "who \<equiv> TrimSpace (ij_Identity input)"
  shows "case res of
      Inl e \<Rightarrow> s' = s \<or> s' = sweepLocked R now s
    | Inr m \<Rightarrow> who \<noteq> [] \<and> (s_humanAllowlist s = [] \<or> who \<in> set (s_humanAllowlist s)) \<and>
        m_From m = ''human:'' @ who \<and> m_Type m = MessageTypeInform \<and> m_Body m = TrimSpace (ij_Body input) \<and>
        m_MessageID m = message_id (s_nextMessageID s + 1) \<and> m_State m \<in> {StateCompleted, StatePending} \<and>
        (m_State m = StatePending \<longleftrightarrow> m_QueuedForAgent m) \<and>
        (m_To m \<noteq> [] \<longrightarrow> has_key (s_agents (sweepLocked R now s)) (m_To m))"
proof (cases "inject_check input s")
  case (Some err)
  then show ?thesis using assms(1) by (auto simp: inject_def)
next
  case None
  let ?s1 = "sweepLocked R now s"
  have allowed: "who \<noteq> []" "s_humanAllowlist s = [] \<or> who \<in> set (s_humanAllowlist s)"
    using None by (auto simp: inject_check_def who_def Let_def split: if_splits)
  have "m_From m = ''human:'' @ who \<and> m_Type m = MessageTypeInform \<and> m_Body m = TrimSpace (ij_Body input) \<and>
      m_MessageID m = message_id (s_nextMessageID s + 1) \<and> m_State m \<in> {StateCompleted, StatePending} \<and>
      (m_State m = StatePending \<longleftrightarrow> m_QueuedForAgent m) \<and> (m_To m \<noteq> [] \<longrightarrow> has_key (s_agents ?s1) (m_To m))"
    if plan: "inject_plan now input ?s1 = Inr acc" and bar: "run_barrier commit acc d = (Inr acc', d'')" and "m = sa_message acc'"
    for acc acc' d'' m
  proof -
    obtain r where "acc' = acc\<lparr>sa_pushReceipt := r\<rparr>" using bar by (rule run_barrier_cases) auto
    with that(3) have m: "m = sa_message acc" by simp
    from plan obtain nextConv conv m0 dest where p:
      "inject_conversation now (ij_ConversationID input) ?s1 = (nextConv, conv)"
      "inject_route now (injected_message now input (c_ConversationID conv) (s_nextMessageID ?s1 + 1) ?s1) ?s1 = Inr (m0, dest)"
      "sa_message acc = (if isTerminal (m_State m0) then m0\<lparr>m_TerminalAt := now\<rparr> else m0)"
      by (rule inject_plan_fields)
    have "m_State m0 = (if m_QueuedForAgent m0 then StatePending else StateCompleted)"
      using p(2) by (auto simp: inject_route_def injected_message_def split: if_splits option.splits)
    moreover have "has_key (s_agents ?s1) (m_To m0)" if "m_To m0 \<noteq> []"
      using p(2) inject_route_message(5) [OF p(2)] that
      by (cases "map_of (s_agents ?s1) (m_To m0)") (simp_all add: inject_route_def has_key_def)
    ultimately have "m_State m0 = (if m_QueuedForAgent m0 then StatePending else StateCompleted) \<and>
        (m_To m0 \<noteq> [] \<longrightarrow> has_key (s_agents ?s1) (m_To m0))" by blast
    with inject_route_message [OF p(2)] show ?thesis
      by (auto simp: m p(3) injected_message_def who_def)
  qed
  with None allowed assms(1) show ?thesis
    by (auto simp: inject_def Let_def split: sum.splits prod.splits)
qed

lemma register_allowlist: "s_humanAllowlist (snd (RegisterAgent sha256 R now input s)) = s_humanAllowlist s"
  by (simp add: RegisterAgent_def Let_def install_agent_def split: option.splits)

theorem inject_effect_witness:
  "\<exists>m s'. inject ex_orders ex_time (None :: unit barrier)
       \<lparr>ij_Identity = ''hi'', ij_ConversationID = [], ij_To = [], ij_Body = ''hi''\<rparr> ex2 () = (Inr m, s', ()) \<and>
     m_From m = ''human:hi''"
proof -
  let ?i = "\<lparr>ij_Identity = ''hi'', ij_ConversationID = [], ij_To = [], ij_Body = ''hi''\<rparr>"
  have "s_humanAllowlist ex2 = []"
    unfolding ex2_def ex1_def register_allowlist by (simp add: ex0_def new_store_state_def)
  then have "inject_check ?i ex2 = None" by (simp add: inject_check_def ex_names Let_def)
  then have "\<exists>m s'. inject ex_orders ex_time (None :: unit barrier) ?i ex2 () = (Inr m, s', ())"
    by (simp add: inject_def inject_plan_def inject_route_def injected_message_def run_barrier_def Let_def split: prod.splits)
  then obtain m s' where inj: "inject ex_orders ex_time (None :: unit barrier) ?i ex2 () = (Inr m, s', ())" by blast
  from inject_effect [OF inj] inj show ?thesis by (auto simp: ex_names)
qed

end
