(* ===== verification/Housekeeping.thy ===== *)
theory Housekeeping
  imports Bus_Examples
begin

text \<open>
  Deadlines, retention and push callbacks: what the sweep makes of the tables, in whatever order it
  ranges over them, and what the retry loop and the worker pool guarantee.
\<close>

section \<open>The sweep\<close>

text \<open>
  C31. A sweep that is due is a function of the tables alone. Each agent becomes what \<open>kept_agent\<close> and
  each message what \<open>kept_message\<close> makes of it (expired, timed out, delivered, or reclaimed), and the
  idempotency entries are those still in their window; the order in which Go ranges over the maps
  has no influence on any of them.
\<close>

theorem sweep_order_independent:
  assumes "bus_inv s" and "sweep_due now s"
  shows "map_of (s_agents (sweepLocked R now s)) =
      (\<lambda>k. Option.bind (map_of (s_agents s) k) (kept_agent (s_cfg s) now)) \<and>
    map_of (s_messages (sweepLocked R now s)) =
      (\<lambda>k. Option.bind (map_of (s_messages s) k) (kept_message (s_cfg s) (active_after now (s_agents s)) now)) \<and>
    s_idempotency (sweepLocked R now s) =
      filter (\<lambda>(k, v). Sub now (ie_CreatedAt v) \<le> cfg_IdempotencyWindow (s_cfg s)) (s_idempotency s)"
proof -
  have d: "keys_distinct (s_agents s)" "keys_distinct (s_messages s)"
    using assms(1) by (auto simp: bus_inv_def agents_inv_def messages_inv_def)
  show ?thesis
    using assms(2) sweepLocked_agents [OF d(1)] sweepLocked_messages [OF d]
    by (simp add: fun_eq_iff sweepLocked_idempotency not_less)
qed

lemma ex3_due: "sweep_due (ex_time + Hour) ex3"
  using ex3_fields(1,2)
  by (simp add: sweep_due_def same_policy_def ex_policy_def normalize_config_def or_default_def ex_config_def Sub_def IsZero_def)

theorem sweep_order_independent_witness:
  "map_of (s_agents (sweepLocked ex_orders (ex_time + Hour) ex3)) ''ucla.a'' =
     Some ((ex_agent ''ucla.a'')\<lparr>a_Status := AgentStatusExpired\<rparr>)"
proof -
  have "cfg_AgentRetention (s_cfg ex3) = 24 * Hour"
    using ex3_fields(1) by (simp add: same_policy_def ex_policy_def normalize_config_def or_disabled_def ex_config_def Let_def)
  with sweep_order_independent [OF ex_inv(4) ex3_due, of ex_orders] show ?thesis
    by (simp add: ex3_fields ex2_fields kept_agent_def swept_agent_def prunable_agent_def ex_agent_def After_def Sub_def)
qed

text \<open>
  C32. Deadlines are enforced. After a sweep that is due, no agent is active past its expiry, and no
  unfinished request is past its time to live, waits for an acknowledgement longer than the ack
  timeout, is still queued although its recipient is active, or is queued past its grace period.
\<close>

theorem sweep_enforces_deadlines:
  assumes "bus_inv s" and "sweep_due now s"
  shows "(\<forall>k a. map_of (s_agents (sweepLocked R now s)) k = Some a \<longrightarrow>
        a_Status a = AgentStatusActive \<longrightarrow> \<not> After now (a_ExpiresAt a)) \<and>
    (\<forall>k m. map_of (s_messages (sweepLocked R now s)) k = Some m \<longrightarrow>
        m_Type m = MessageTypeRequest \<longrightarrow> \<not> isTerminal (m_State m) \<longrightarrow>
        \<not> timed_out (s_cfg s) now m \<and>
        (m_QueuedForAgent m \<longrightarrow> \<not> active_after now (s_agents s) (m_To m) \<and>
           (IsZero (m_GraceUntil m) \<or> \<not> After now (m_GraceUntil m))))"
proof (intro conjI allI impI)
  have d: "keys_distinct (s_agents s)" "keys_distinct (s_messages s)"
    using assms(1) by (auto simp: bus_inv_def agents_inv_def messages_inv_def)
  have ack: "0 < cfg_AckTimeout (s_cfg s)" using assms(1) by (simp add: bus_inv_def config_ok_def)
  fix k
  show "\<not> After now (a_ExpiresAt a)" if "map_of (s_agents (sweepLocked R now s)) k = Some a" "a_Status a = AgentStatusActive" for a
    using that assms(2) sweepLocked_agents [OF d(1), of R now k]
    by (auto simp: kept_agent_def swept_agent_def Let_def bind_eq_Some_conv split: if_splits)
  fix m
  assume m: "map_of (s_messages (sweepLocked R now s)) k = Some m" "m_Type m = MessageTypeRequest" "\<not> isTerminal (m_State m)"
  obtain m0 where m0: "m = swept_message (s_cfg s) (active_after now (s_agents s)) now m0"
    using m(1) assms(2) sweepLocked_messages [OF d, of R now k]
    by (auto simp: kept_message_def Let_def bind_eq_Some_conv split: if_splits)
  show "\<not> timed_out (s_cfg s) now m"
    using m(2,3) ack unfolding m0 swept_message_def timed_out_def failed_at_def by (auto split: if_splits)
  assume "m_QueuedForAgent m"
  then show "\<not> active_after now (s_agents s) (m_To m)"
    "IsZero (m_GraceUntil m) \<or> \<not> After now (m_GraceUntil m)"
    using m(2,3) unfolding m0 swept_message_def failed_at_def by (auto split: if_splits)
qed

theorem sweep_enforces_deadlines_witness:
  "\<not> (\<exists>m. map_of (s_messages (sweepLocked ex_orders (ex_time + Hour) ex3)) ''m-000001'' = Some m \<and>
     m_Type m = MessageTypeRequest \<and> \<not> isTerminal (m_State m) \<and> timed_out (s_cfg ex3) (ex_time + Hour) m)"
  using sweep_enforces_deadlines [OF ex_inv(4) ex3_due, of ex_orders] by blast

lemma prunable_message_alt:
  "prunable_message cfg now m \<longleftrightarrow>
     cfg_MessageMaxAge cfg > 0 \<and> Sub now (m_CreatedAt m) > cfg_MessageMaxAge cfg \<or>
     cfg_MessageRetention cfg > 0 \<and> isTerminal (m_State m) \<and>
       Sub now (if IsZero (m_TerminalAt m) then m_CreatedAt m else m_TerminalAt m) > cfg_MessageRetention cfg"
  by (auto simp: prunable_message_def Let_def)

text \<open>
  Retention reclaims what it should and nothing else. A due sweep removes a message exactly when
  it is older than the maximum age, or finished for longer than the retention time; and whatever
  was removed, every message that remains still has its conversation, and is listed in it.
\<close>

theorem retention_exact:
  fixes R :: orders
  assumes "bus_inv s" and "sweep_due now s" and "map_of (s_messages s) k = Some m"
  defines "cfg \<equiv> s_cfg s" and "s' \<equiv> sweepLocked R now s"
  defines "m' \<equiv> swept_message cfg (active_after now (s_agents s)) now m"
  shows "(map_of (s_messages s') k = None \<longleftrightarrow>
      cfg_MessageMaxAge cfg > 0 \<and> Sub now (m_CreatedAt m) > cfg_MessageMaxAge cfg \<or>
      cfg_MessageRetention cfg > 0 \<and> isTerminal (m_State m') \<and>
        Sub now (if IsZero (m_TerminalAt m') then m_CreatedAt m else m_TerminalAt m') > cfg_MessageRetention cfg) \<and>
    (\<forall>j x. map_of (s_messages s') j = Some x \<longrightarrow>
       has_key (s_conversations s') (m_ConversationID x) \<and>
       j \<in> set (get_or [] (s_conversationMessages s') (m_ConversationID x)))"
proof
  have d: "keys_distinct (s_agents s)" "keys_distinct (s_messages s)"
    using assms(1) by (auto simp: bus_inv_def agents_inv_def messages_inv_def)
  have created: "m_CreatedAt m' = m_CreatedAt m" by (simp add: m'_def swept_message_def failed_at_def)
  show "map_of (s_messages s') k = None \<longleftrightarrow>
      cfg_MessageMaxAge cfg > 0 \<and> Sub now (m_CreatedAt m) > cfg_MessageMaxAge cfg \<or>
      cfg_MessageRetention cfg > 0 \<and> isTerminal (m_State m') \<and>
        Sub now (if IsZero (m_TerminalAt m') then m_CreatedAt m else m_TerminalAt m') > cfg_MessageRetention cfg"
    using assms(2,3) sweepLocked_messages [OF d, of R now k] created
    by (simp add: kept_message_def Let_def prunable_message_alt cfg_def s'_def m'_def)
  have "bus_inv s'" using assms(1) keeps_sweepLocked [of s R now] by (simp add: keeps_def s'_def)
  then have L: "links_inv s'" by (simp add: bus_inv_def)
  have "has_key (s_conversationMessages s') c" if "j \<in> set (get_or [] (s_conversationMessages s') c)" for j c
    using that by (cases "map_of (s_conversationMessages s') c") (simp_all add: get_or_def has_key_def)
  with L show "\<forall>j x. map_of (s_messages s') j = Some x \<longrightarrow>
       has_key (s_conversations s') (m_ConversationID x) \<and>
       j \<in> set (get_or [] (s_conversationMessages s') (m_ConversationID x))"
    unfolding links_inv_def by blast
qed

theorem retention_exact_witness:
  "map_of (s_messages (sweepLocked ex_orders (ex_time + 25 * Hour) ex3)) ''m-000001'' = None"
proof -
  have cfg: "cfg_MessageMaxAge (s_cfg ex3) = 24 * Hour" "cfg_SweepMinInterval (s_cfg ex3) = 250 * Millisecond"
    using ex3_fields(1)
    by (simp_all add: same_policy_def ex_policy_def normalize_config_def or_disabled_def or_default_def ex_config_def Let_def)
  have "sweep_due (ex_time + 25 * Hour) ex3"
    by (simp add: sweep_due_def ex3_fields cfg Sub_def)
  moreover have "map_of (s_messages ex3) ''m-000001'' = Some ex_message" by (simp add: ex3_fields)
  ultimately show ?thesis
    using retention_exact [OF ex_inv(4), of "ex_time + 25 * Hour" "''m-000001''" ex_message ex_orders]
    by (simp add: cfg ex_message_def Sub_def)
qed

text \<open>
  The sweep delivers queued requests only. A response, inform or injection that was accepted for
  an agent in its grace period stays queued as it is: no sweep touches it until retention reclaims
  it, although the agent is back.
\<close>

theorem queued_non_request_not_delivered:
  assumes "bus_inv s" and "map_of (s_messages s) k = Some m" and "m_Type m \<noteq> MessageTypeRequest"
  shows "map_of (s_messages (sweepLocked R now s)) k \<in> {None, Some m}"
proof -
  have d: "keys_distinct (s_agents s)" "keys_distinct (s_messages s)"
    using assms(1) by (auto simp: bus_inv_def agents_inv_def messages_inv_def)
  show ?thesis
    using assms(2,3) by (simp add: sweepLocked_messages [OF d] kept_message_def swept_message_def Let_def)
qed

theorem queued_non_request_not_delivered_witness:
  "map_of (s_messages (sweepLocked ex_orders (ex_time + Second)
     (ex3\<lparr>s_messages := [(''m-000001'', ex_message\<lparr>m_Type := MessageTypeInform, m_State := StateCompleted, m_QueuedForAgent := True\<rparr>)]\<rparr>)))
     ''m-000001'' \<in> {None, Some (ex_message\<lparr>m_Type := MessageTypeInform, m_State := StateCompleted, m_QueuedForAgent := True\<rparr>)}"
    (is "map_of (s_messages (sweepLocked _ _ ?s)) _ \<in> {None, Some ?m}")
proof -
  have i: "issued 1 ''m-000001''"
  proof -
    have "''m-000001'' = message_id 1" by code_simp
    then show ?thesis unfolding issued_def by (intro exI [of _ 1]) auto
  qed
  have "messages_inv ?s" using i by (simp add: messages_inv_def message_ok_def ex_message_def ex3_fields)
  moreover have "links_inv ?s"
    using ex_inv(4) by (auto simp: bus_inv_def links_inv_def ex3_fields get_or_def ex_message_def split: if_splits)
  moreover have "idempotency_inv ?s"
    using i by (auto simp: idempotency_inv_def ex3_fields ex_message_def split: if_splits)
  ultimately have "bus_inv ?s"
    using ex_inv(4) unfolding bus_inv_def by (auto elim: inv_frames)
  from queued_non_request_not_delivered [OF this, of "''m-000001''" ?m] show ?thesis by simp
qed

section \<open>Push callbacks\<close>

text \<open>
  C35. A push delivery ends, after at least one and at most the configured number of attempts, and it
  pauses only between attempts: each pause is twice the one before, starting from the base back-off,
  as long as the doubling fits a duration. The receipt carries the number of attempts made.
\<close>

theorem push_delivery_bounded:
  assumes "config_ok cfg" and "Marshal (pj_payload job) = Some blob"
  shows "1 \<le> fst (push_result (fst (push_run net cfg job))) \<and>
    fst (push_result (fst (push_run net cfg job))) \<le> cfg_PushMaxAttempts cfg \<and>
    int (length (snd (push_run net cfg job))) = fst (push_result (fst (push_run net cfg job))) - 1 \<and>
    (\<forall>k < length (snd (push_run net cfg job)). cfg_PushBaseBackoff cfg * 2 ^ k < 2 ^ 63 \<longrightarrow>
       snd (push_run net cfg job) ! k = cfg_PushBaseBackoff cfg * 2 ^ k)"
proof -
  have "1 \<le> cfg_PushMaxAttempts cfg" "0 \<le> cfg_PushBaseBackoff cfg"
    using assms(1) by (auto simp: config_ok_def)
  then show ?thesis
    using push_loop_attempts [of 1 "cfg_PushMaxAttempts cfg" net "cfg_PushBaseBackoff cfg"]
      push_loop_pauses [of 1 "cfg_PushMaxAttempts cfg" net "cfg_PushBaseBackoff cfg"] push_loop_backoff assms(2)
    by (simp add: push_run_def)
qed

theorem push_delivery_bounded_witness:
  "push_run (\<lambda>n. \<lparr>pa_built = True, pa_err = False, pa_status = Some 503, pa_cancelled = False, pa_cancelledInPause = False\<rparr>)
     (normalize_config ex_config) \<lparr>pj_url = ''u'', pj_payload = JNull, pj_receipt = None\<rparr> =
     (PushExhausted 3, [500 * Millisecond, 1000 * Millisecond]) \<and>
   fst (push_result (PushExhausted 3)) \<le> cfg_PushMaxAttempts (normalize_config ex_config)"
proof -
  let ?net = "\<lambda>n. \<lparr>pa_built = True, pa_err = False, pa_status = Some 503, pa_cancelled = False, pa_cancelledInPause = False\<rparr>"
    and ?job = "\<lparr>pj_url = ''u'', pj_payload = JNull, pj_receipt = None\<rparr>" and ?cfg = "normalize_config ex_config"
  have "cfg_PushMaxAttempts ?cfg = 3" "cfg_PushBaseBackoff ?cfg = 500 * Millisecond"
    by (simp_all add: normalize_config_def or_default_def ex_config_def)
  then have run: "push_run ?net ?cfg ?job = (PushExhausted 3, [500 * Millisecond, 1000 * Millisecond])"
    by (simp add: push_run_def push_loop.simps [of ?net 3 1] push_loop.simps [of ?net 3 2]
        push_loop.simps [of ?net 3 3] attempt_succeeded_def Let_def wrap64_def)
  have "Marshal (pj_payload ?job) = Some ''null''" by simp
  from push_delivery_bounded [OF config_ok_normalize this, of ?net ex_config] run show ?thesis by simp
qed

text \<open>
  Shutting the worker pool down is safe. When \<^verbatim>\<open>closePushWorkers\<close> gets past its wait, nothing is
  queued, in flight or in the background any more; from the moment it has begun nothing is added,
  so the channel it closes is never sent on.
\<close>

theorem push_shutdown_drains:
  assumes "bus_inv s"
  shows "(\<forall>s'. close_end s = Some s' \<longrightarrow> s_pushQueue s' = [] \<and> s_pushInflight s' = [] \<and> s_pushBackground s' = []) \<and>
    (s_pushClosed s \<longrightarrow> s_pushQueue (snd (enqueuePushJobLocked job s)) = s_pushQueue s \<and>
       fst (enqueuePushJobLocked job s) \<noteq> [] \<and> finishAcceptance (Some job) reason s = s)"
proof -
  have "length (s_pushQueue s) + length (s_pushInflight s) + length (s_pushBackground s) = 0" if "s_pushWG s = 0"
    using assms that unfolding bus_inv_def push_inv_def by linarith
  then show ?thesis
    by (auto simp: close_end_def enqueuePushJobLocked_def finishAcceptance_def
        split: if_splits option.splits)
qed

theorem push_shutdown_drains_witness:
  "s_pushQueue (snd (enqueuePushJobLocked \<lparr>pj_url = ''u'', pj_payload = JNull, pj_receipt = None\<rparr> (ex3\<lparr>s_pushClosed := True\<rparr>))) = s_pushQueue ex3"
proof -
  have "keeps ex3 (ex3\<lparr>s_pushClosed := True\<rparr>)"
    by (intro push_only) (simp_all add: bus_inv_def push_inv_def)
  then have "bus_inv (ex3\<lparr>s_pushClosed := True\<rparr>)" using ex_inv(4) by (simp add: keeps_def)
  then have "s_pushQueue (snd (enqueuePushJobLocked \<lparr>pj_url = ''u'', pj_payload = JNull, pj_receipt = None\<rparr>
      (ex3\<lparr>s_pushClosed := True\<rparr>))) = s_pushQueue (ex3\<lparr>s_pushClosed := True\<rparr>)"
    by (rule push_shutdown_drains [THEN conjunct2, THEN mp, THEN conjunct1]) simp
  also have "\<dots> = s_pushQueue ex3" by simp
  finally show ?thesis .
qed

end
