(* ===== verification/Go_Net.thy ===== *)
theory Go_Net
  imports Go_Json
begin

text \<open>
  More of Go's standard library: the parsers the HTTP layer and the configuration apply to text
  from outside. \<open>ParseInt\<close> and \<open>Atoi\<close> accept an optional sign and decimal digits and refuse what
  does not fit an \<open>int64\<close>; \<open>DecodeString\<close> is \<^verbatim>\<open>hex.DecodeString\<close>; \<open>ParseQuery\<close> is the lenient reading
  of a query string that \<^verbatim>\<open>URL.Query\<close> makes, where a pair that cannot be unescaped or that contains a
  semicolon is left out.
\<close>

section \<open>Affixes\<close>

definition HasPrefix :: "string \<Rightarrow> string \<Rightarrow> bool" where
  "HasPrefix s p = is_prefix p s"

definition HasSuffix :: "string \<Rightarrow> string \<Rightarrow> bool" where
  "HasSuffix s p = is_prefix (rev p) (rev s)"

definition TrimPrefix :: "string \<Rightarrow> string \<Rightarrow> string" where
  "TrimPrefix s p = (if HasPrefix s p then drop (length p) s else s)"

definition TrimSuffix :: "string \<Rightarrow> string \<Rightarrow> string" where
  "TrimSuffix s p = (if HasSuffix s p then take (length s - length p) s else s)"

lemma HasPrefix_iff: "HasPrefix s p \<longleftrightarrow> (\<exists>t. s = p @ t)"
  by (simp add: HasPrefix_def is_prefix_iff)

lemma HasSuffix_iff: "HasSuffix s p \<longleftrightarrow> (\<exists>t. s = t @ p)"
proof -
  have "rev s = rev p @ t \<longleftrightarrow> s = rev t @ p" for t by (metis rev_append rev_rev_ident)
  then show ?thesis by (metis HasSuffix_def is_prefix_iff rev_rev_ident)
qed

lemma TrimSuffix_append [simp]: "TrimSuffix (t @ p) p = t"
  by (simp add: TrimSuffix_def HasSuffix_iff)

section \<open>Numbers\<close>

definition is_digit :: "char \<Rightarrow> bool" where
  "is_digit c = (48 \<le> (of_char c :: int) \<and> (of_char c :: int) \<le> 57)"

definition parse_digits :: "string \<Rightarrow> int option" where
  "parse_digits s = (if s \<noteq> [] \<and> list_all is_digit s then Some (decimal_value s) else None)"

definition ParseInt :: "string \<Rightarrow> int option" where
  \<comment> \<open>\<^verbatim>\<open>strconv.ParseInt(s, 10, 64)\<close>; \<open>None\<close> is the error\<close>
  "ParseInt s =
     (let neg = (case s of c # _ \<Rightarrow> c = CHR ''-'' | [] \<Rightarrow> False);
          body = (case s of c # cs \<Rightarrow> if c = CHR ''-'' \<or> c = CHR ''+'' then cs else s | [] \<Rightarrow> [])
      in case parse_digits body of
           None \<Rightarrow> None
         | Some n \<Rightarrow>
             if neg then (if n \<le> 2 ^ 63 then Some (- n) else None)
             else (if n < 2 ^ 63 then Some n else None))"

definition Atoi :: "string \<Rightarrow> int option" where
  "Atoi s = ParseInt s"

definition Itoa :: "int \<Rightarrow> string" where
  "Itoa n = fmt_d n"

lemma ParseInt_range: "ParseInt s = Some n \<Longrightarrow> - (2 ^ 63) \<le> n \<and> n < 2 ^ 63"
  and parse_digits_nonneg: "parse_digits s = Some n \<Longrightarrow> 0 \<le> n"
proof -
  have pos: "0 \<le> decimal_value t" if "list_all is_digit t" for t
    using that
  proof (induction t rule: rev_induct)
    case Nil
    then show ?case by (simp add: decimal_value_def)
  next
    case (snoc c t)
    then show ?case by (simp add: decimal_value_def is_digit_def)
  qed
  show nonneg: "0 \<le> n" if "parse_digits s = Some n" for s n
    using that pos by (auto simp: parse_digits_def split: if_splits)
  show "- (2 ^ 63) \<le> n \<and> n < 2 ^ 63" if "ParseInt s = Some n"
    using that by (auto simp: ParseInt_def Let_def dest!: nonneg split: option.splits if_splits)
qed

lemma is_digit_decimal: "0 \<le> n \<Longrightarrow> list_all is_digit (decimal n) \<and> decimal n \<noteq> []"
proof (induction n rule: decimal.induct)
  case (1 n)
  have d: "is_digit (digit d)" if "0 \<le> d" "d < 10" for d
    using that by (simp add: is_digit_def of_char_digit)
  show ?case
  proof (cases "n < 10")
    case True
    with 1 d show ?thesis by (simp add: decimal.simps [of n])
  next
    case False
    with 1 d [of "n mod 10"] show ?thesis by (simp add: decimal.simps [of n])
  qed
qed

text \<open>Reading back what \<open>Itoa\<close> printed.\<close>

lemma Atoi_Itoa:
  assumes "- (2 ^ 63) \<le> n" and "n < 2 ^ 63"
  shows "Atoi (Itoa n) = Some n"
proof (cases "n < 0")
  case True
  then show ?thesis
    using assms is_digit_decimal [of "- n"]
    by (simp add: Atoi_def Itoa_def fmt_d_def ParseInt_def parse_digits_def decimal_value_decimal)
next
  case False
  obtain c cs where d: "decimal n = c # cs" using is_digit_decimal [of n] False by (cases "decimal n") auto
  then have "is_digit c" using is_digit_decimal [of n] False by simp
  then have "c \<noteq> CHR ''-''" "c \<noteq> CHR ''+''" by (auto simp: is_digit_def)
  with d show ?thesis
    using assms False is_digit_decimal [of n] decimal_value_decimal [of n]
    by (simp add: Atoi_def Itoa_def fmt_d_def ParseInt_def parse_digits_def)
qed

section \<open>Hexadecimal\<close>

definition hex_value :: "char \<Rightarrow> int option" where
  "hex_value c =
     (let n = (of_char c :: int) in
      if 48 \<le> n \<and> n \<le> 57 then Some (n - 48)
      else if 97 \<le> n \<and> n \<le> 102 then Some (n - 87)
      else if 65 \<le> n \<and> n \<le> 70 then Some (n - 55)
      else None)"

definition hex_byte :: "char \<Rightarrow> char \<Rightarrow> char option" where
  "hex_byte a b =
     (case (hex_value a, hex_value b) of
        (Some x, Some y) \<Rightarrow> Some (char_of (nat (16 * x + y)))
      | _ \<Rightarrow> None)"

fun DecodeString :: "string \<Rightarrow> string option" where
  "DecodeString [] = Some []"
| "DecodeString [c] = None"
| "DecodeString (a # b # cs) =
     (case hex_byte a b of
        None \<Rightarrow> None
      | Some x \<Rightarrow> map_option ((#) x) (DecodeString cs))"

lemma DecodeString_length: "DecodeString s = Some bs \<Longrightarrow> length s = 2 * length bs"
  by (induction s arbitrary: bs rule: DecodeString.induct) (auto split: option.splits)

section \<open>Query strings\<close>

fun QueryUnescape :: "string \<Rightarrow> string option" where
  "QueryUnescape [] = Some []"
| "QueryUnescape (c # cs) =
     (if c = CHR ''%'' then
        (case cs of
           a # b # rest \<Rightarrow>
             (case hex_byte a b of
                None \<Rightarrow> None
              | Some x \<Rightarrow> map_option ((#) x) (QueryUnescape rest))
         | _ \<Rightarrow> None)
      else if c = CHR ''+'' then map_option ((#) (CHR '' '')) (QueryUnescape cs)
      else map_option ((#) c) (QueryUnescape cs))"

definition query_pair :: "string \<Rightarrow> (string \<times> string) list" where
  "query_pair key =
     (if Contains key (CHR '';'') then []
      else if key = [] then []
      else (case Cut key (CHR ''='') of
              (k, v, _) \<Rightarrow>
                (case (QueryUnescape k, QueryUnescape v) of
                   (Some k', Some v') \<Rightarrow> [(k', v')]
                 | _ \<Rightarrow> [])))"

definition ParseQuery :: "string \<Rightarrow> (string \<times> string) list" where
  "ParseQuery raw = concat (map query_pair (Split raw (CHR ''&'')))"

definition query_get :: "string \<Rightarrow> string \<Rightarrow> string" where
  \<comment> \<open>\<^verbatim>\<open>r.URL.Query().Get(key)\<close>: the first value, or the empty string\<close>
  "query_get raw key = (case map_of (ParseQuery raw) key of None \<Rightarrow> [] | Some v \<Rightarrow> v)"

end
