(* ===== verification/Http_Auth.thy ===== *)
theory Http_Auth
  imports Go_Net Bus_Push
begin

text \<open>
  The HTTP layer (\<^verbatim>\<open>pkg/httpapi\<close>): requests and responses, the server's own state, what it reads from
  the environment and the allowlist file, and the authentication of \<^verbatim>\<open>auth.go\<close>.

  The server calls a store through the interface \<^verbatim>\<open>bus.API\<close>, which is the record \<open>bus_api\<close> here: one
  function per method on a backend state \<open>'s\<close>. Backends that implement \<^verbatim>\<open>AgentSecretStore\<close> or
  \<^verbatim>\<open>ObserveEpochProvider\<close> have the optional fields; the type assertions of the code are cases on them.
  HMAC-SHA256 and the decoding of a JSON body into a request struct are functions of the bytes, given
  in the record \<open>http_env\<close> and arbitrary; no theorem assumes anything of them.
\<close>

section \<open>The store interface\<close>

record 's bus_api =
  api_RegisterAgent :: "register_agent_input \<Rightarrow> 's \<Rightarrow> (bus_error + agent) \<times> 's"
  api_ListAgents :: "string \<Rightarrow> 's \<Rightarrow> agent list \<times> 's"
  api_CreateConversation :: "create_conversation_input \<Rightarrow> 's \<Rightarrow> (bus_error + conversation) \<times> 's"
  api_ListConversations :: "list_conversations_filter \<Rightarrow> 's \<Rightarrow> conversation list \<times> 's"
  api_SendMessage :: "send_message_input \<Rightarrow> 's \<Rightarrow> (bus_error + message \<times> bool) \<times> 's"
  api_PollInbox :: "poll_inbox_input \<Rightarrow> 's \<Rightarrow> (bus_error + inbox_event list \<times> int) option \<times> 's"
  api_Ack :: "ack_input \<Rightarrow> 's \<Rightarrow> bus_error option \<times> 's"
  api_PostEvent :: "event_input \<Rightarrow> 's \<Rightarrow> bus_error option \<times> 's"
  api_Inject :: "inject_input \<Rightarrow> 's \<Rightarrow> (bus_error + message) \<times> 's"
  api_ListConversationMessages ::
    "list_conversation_messages_input \<Rightarrow> 's \<Rightarrow> (bus_error + string \<times> message list \<times> int) \<times> 's"
  api_ObserveSince :: "int \<Rightarrow> observe_filter \<Rightarrow> duration \<Rightarrow> 's \<Rightarrow> (observe_event list \<times> int) option \<times> 's"
  api_Health :: "'s \<Rightarrow> json \<times> 's"
  api_Metrics :: "'s \<Rightarrow> string \<times> 's"
  api_SystemStatus :: "'s \<Rightarrow> json \<times> 's"
  api_AgentSecrets :: "('s \<Rightarrow> bus_error + string gomap) option"
  api_SetAgentSecret :: "(string \<Rightarrow> string \<Rightarrow> 's \<Rightarrow> bus_error option \<times> 's) option"
  api_ObserveEpoch :: "('s \<Rightarrow> string) option"

section \<open>Requests and responses\<close>

text \<open>
  A body is the bytes the connection delivers and the error that ends them, if any; \<open>None\<close> is a nil
  body. Header fields are listed under the names the code asks for.
\<close>

record http_request =
  rq_Method :: string
  rq_Path :: string
  rq_RawQuery :: string
  rq_Header :: "(string \<times> string) list"
  rq_Body :: "(string \<times> string option) option"

datatype response_body = EmptyBody | JsonBody json | TextBody string

record http_response =
  rs_Status :: int
  rs_Header :: "(string \<times> string) list"
  rs_Body :: response_body

definition header_get :: "http_request \<Rightarrow> string \<Rightarrow> string" where
  "header_get r k = (case map_of (rq_Header r) k of None \<Rightarrow> [] | Some v \<Rightarrow> v)"

abbreviation query_value :: "http_request \<Rightarrow> string \<Rightarrow> string" where
  "query_value r k \<equiv> query_get (rq_RawQuery r) k"

definition status_only :: "int \<Rightarrow> http_response" where
  "status_only st = \<lparr>rs_Status = st, rs_Header = [], rs_Body = EmptyBody\<rparr>"

definition writeJSON :: "int \<Rightarrow> json \<Rightarrow> http_response" where
  "writeJSON st payload =
     \<lparr>rs_Status = st, rs_Header = [(''Content-Type'', ''application/json'')], rs_Body = JsonBody payload\<rparr>"

text \<open>\<^verbatim>\<open>errors.As\<close> looks through \<^verbatim>\<open>fmt.Errorf("%w")\<close>, so wrapping matters only for other errors.\<close>

fun wrap_error :: "string \<Rightarrow> bus_error \<Rightarrow> bus_error" where
  "wrap_error pre (BusError e) = BusError e"
| "wrap_error pre (OtherError s) = OtherError (pre @ s)"

fun busErrorOrValidation :: "bus_error \<Rightarrow> bus_error" where
  "busErrorOrValidation (BusError e) = BusError e"
| "busErrorOrValidation (OtherError s) = NewValidationJSONError s"

fun writeBusError :: "bus_error \<Rightarrow> http_response" where
  "writeBusError (BusError e) =
     (let retry = e_RetryAfter e > 0;
          resp = writeJSON (e_Status e)
            (JMap [(''ok'', JBool False),
                   (''error'', JMap ([(''code'', JStr (code_str (e_Code e))),
                                      (''message'', JStr (e_Message e)),
                                      (''transient'', JBool (e_Transient e))]
                      @ (if retry then [(''retry_after'', JNum (fmt_d (e_RetryAfter e)))] else [])))])
      in if retry then resp\<lparr>rs_Header := rs_Header resp @ [(''Retry-After'', Itoa (e_RetryAfter e))]\<rparr>
         else resp)"
| "writeBusError (OtherError s) =
     writeJSON 500
       (JMap [(''ok'', JBool False),
              (''error'', JMap [(''code'', JStr (code_str CodeInternal)),
                                (''message'', JStr s),
                                (''transient'', JBool True)])])"

definition unauthorized :: "string \<Rightarrow> bus_error" where
  "unauthorized msg =
     BusError \<lparr>e_Code = CodeUnauthorized, e_Message = msg, e_Transient = False, e_RetryAfter = 0, e_Status = 401\<rparr>"

section \<open>The server\<close>

record 's server =
  sv_store :: 's
  sv_agentSecrets :: "string gomap"
  sv_agentAllowset :: "string list"
  sv_injectTokens :: "string list"
  sv_observeTokens :: "string list"
  sv_maxBodyBytes :: int

definition parseMaxBodyBytes :: "string \<Rightarrow> string + int" where
  "parseMaxBodyBytes raw =
     (let raw = TrimSpace raw in
      if raw = [] then Inr 2097152
      else (case ParseInt raw of
              None \<Rightarrow> Inl (''invalid MAX_BODY_BYTES '' @ raw)
            | Some v \<Rightarrow> Inr (if v < 0 then 0 else v)))"

definition trimmed_entries :: "string list \<Rightarrow> string list" where
  "trimmed_entries xs = remdups (filter (\<lambda>v. v \<noteq> []) (map TrimSpace xs))"

definition parseAllowlistEnv :: "string \<Rightarrow> string list" where
  "parseAllowlistEnv raw = trimmed_entries (Split raw (CHR '',''))"

definition parseTokenEnv :: "string \<Rightarrow> string list" where
  "parseTokenEnv raw = trimmed_entries (Split raw (CHR '',''))"

text \<open>
  The file's content, or the error of opening or reading it. The scanner's buffer holds one mebibyte,
  so a longer line is an error.
\<close>

definition loadAllowlistFile :: "string + string \<Rightarrow> string + string list" where
  "loadAllowlistFile file =
     (case file of
        Inl err \<Rightarrow> Inl err
      | Inr content \<Rightarrow>
          (let ls = Split content (CHR 0x0A) in
           if list_ex (\<lambda>l. 1048576 \<le> length l) ls then Inl ''bufio.Scanner: token too long''
           else Inr (filter (\<lambda>l. \<not> HasPrefix l ''#'') (trimmed_entries ls))))"

definition diffAllowsetKeys :: "string list \<Rightarrow> string list \<Rightarrow> string list" where
  "diffAllowsetKeys oldSet newSet = sort (filter (\<lambda>a. a \<notin> set oldSet) newSet)"

definition swapAgentAllowset ::
  "string list \<Rightarrow> 's server \<Rightarrow> (string list \<times> string list \<times> int) \<times> 's server" where
  "swapAgentAllowset newset sv =
     ((diffAllowsetKeys (sv_agentAllowset sv) newset, diffAllowsetKeys newset (sv_agentAllowset sv),
       int (length newset)), sv\<lparr>sv_agentAllowset := newset\<rparr>)"

definition reloadAllowlistFile :: "string + string \<Rightarrow> 's server \<Rightarrow> string option \<times> 's server" where
  "reloadAllowlistFile file sv =
     (case loadAllowlistFile file of
        Inl err \<Rightarrow> (Some err, sv)
      | Inr newset \<Rightarrow> (None, snd (swapAgentAllowset newset sv)))"

definition isAgentAllowed :: "'s server \<Rightarrow> string \<Rightarrow> bool" where
  "isAgentAllowed sv agentID =
     (if length (sv_agentAllowset sv) = 0 then True else agentID \<in> set (sv_agentAllowset sv))"

text \<open>\<open>rk\<close> is the order in which Go ranges over the secrets the store returned.\<close>

definition loadPersistedAgentSecrets ::
  "ranking \<Rightarrow> 's bus_api \<Rightarrow> 's server \<Rightarrow> bus_error + 's server" where
  "loadPersistedAgentSecrets rk api sv =
     (case api_AgentSecrets api of
        None \<Rightarrow> Inr sv
      | Some secrets_of \<Rightarrow>
          (case secrets_of (sv_store sv) of
             Inl err \<Rightarrow> Inl (wrap_error ''load agent secrets: '' err)
           | Inr secrets \<Rightarrow>
               Inr (fold (\<lambda>k v.
                   (let agentID = TrimSpace k; secret = get_or [] secrets k in
                    if agentID \<noteq> [] \<and> TrimSpace secret \<noteq> []
                    then v\<lparr>sv_agentSecrets := AList.update agentID secret (sv_agentSecrets v)\<rparr>
                    else v)) (range_keys rk secrets) sv)))"

text \<open>The arguments after the store interface are the environment variables; \<open>readFile\<close> is the file system.\<close>

definition NewServerFromEnv ::
  "ranking \<Rightarrow> 's bus_api \<Rightarrow> string \<Rightarrow> string \<Rightarrow> (string \<Rightarrow> string + string) \<Rightarrow> string \<Rightarrow> string \<Rightarrow> string \<Rightarrow>
     's \<Rightarrow> bus_error + 's server" where
  "NewServerFromEnv rk api allowlist allowlistFile readFile maxBody injectTokens observeTokens store =
     (let path = TrimSpace allowlistFile in
      case (if path \<noteq> [] then loadAllowlistFile (readFile path) else Inr (parseAllowlistEnv allowlist)) of
        Inl err \<Rightarrow> Inl (OtherError (''load allowlist file '' @ path @ '': '' @ err))
      | Inr allowset \<Rightarrow>
          (case parseMaxBodyBytes maxBody of
             Inl err \<Rightarrow> Inl (OtherError err)
           | Inr maxBodyBytes \<Rightarrow>
               loadPersistedAgentSecrets rk api
                 \<lparr>sv_store = store, sv_agentSecrets = [], sv_agentAllowset = allowset,
                  sv_injectTokens = parseTokenEnv injectTokens,
                  sv_observeTokens = parseTokenEnv observeTokens, sv_maxBodyBytes = maxBodyBytes\<rparr>))"

text \<open>\<^verbatim>\<open>http.MaxBytesReader\<close> fails as soon as more than the limit was read, before the source's own error.\<close>

definition readBody :: "'s server \<Rightarrow> http_request \<Rightarrow> bus_error + string" where
  "readBody sv r =
     (case rq_Body r of
        None \<Rightarrow> Inr ''{}''
      | Some (bytes, err) \<Rightarrow>
          if sv_maxBodyBytes sv > 0 \<and> int (length bytes) > sv_maxBodyBytes sv then
            Inl (BusError \<lparr>e_Code = CodePayloadTooLarge,
                           e_Message = ''request body exceeds '' @ fmt_d (sv_maxBodyBytes sv) @ '' bytes'',
                           e_Transient = False, e_RetryAfter = 0, e_Status = 413\<rparr>)
          else (case err of
                  Some e \<Rightarrow> Inl (OtherError e)
                | None \<Rightarrow> Inr (if length bytes = 0 then ''{}'' else bytes)))"

section \<open>Signatures\<close>

definition signature_bytes :: "string \<Rightarrow> string option" where
  "signature_bytes signature =
     (let s = TrimSpace signature;
          s' = (if HasPrefix (ToLower s) ''sha256='' then drop (length ''sha256='') s else s)
      in DecodeString (ToLower s'))"

definition verifySignature ::
  "(string \<Rightarrow> string \<Rightarrow> string) \<Rightarrow> 's server \<Rightarrow> string \<Rightarrow> string \<Rightarrow> string \<Rightarrow> bus_error option" where
  "verifySignature hmac sv agentID signature payload =
     (let agentID = TrimSpace agentID in
      if agentID = [] then Some (unauthorized ''agent id required'')
      else (case map_of (sv_agentSecrets sv) agentID of
              None \<Rightarrow> Some (unauthorized ''agent secret not registered'')
            | Some secret \<Rightarrow>
                if TrimSpace secret = [] then Some (unauthorized ''agent secret not registered'')
                else if TrimSpace signature = [] then Some (unauthorized ''X-Bus-Signature required'')
                else (case signature_bytes signature of
                        None \<Rightarrow> Some (unauthorized ''invalid signature encoding'')
                      | Some provided \<Rightarrow>
                          if hmac secret payload \<noteq> provided then Some (unauthorized ''invalid signature'')
                          else None)))"

definition currentAgentSecret :: "'s server \<Rightarrow> string \<Rightarrow> string option" where
  "currentAgentSecret sv agentID = map_of (sv_agentSecrets sv) (TrimSpace agentID)"

definition verifyReregistrationProof ::
  "(string \<Rightarrow> string \<Rightarrow> string) \<Rightarrow> 's server \<Rightarrow> string \<Rightarrow> string \<Rightarrow> string \<Rightarrow> string \<Rightarrow> bus_error option" where
  "verifyReregistrationProof hmac sv agentID offeredSecret payload signature =
     (case currentAgentSecret sv agentID of
        None \<Rightarrow> None
      | Some currentSecret \<Rightarrow>
          if TrimSpace currentSecret = [] \<or> currentSecret = offeredSecret then None
          else (case verifySignature hmac sv agentID signature payload of
                  Some _ \<Rightarrow>
                    Some (BusError \<lparr>e_Code = CodeRejected,
                            e_Message = ''re-registration requires proof of current secret'',
                            e_Transient = False, e_RetryAfter = 0, e_Status = 409\<rparr>)
                | None \<Rightarrow> None))"

definition setAgentSecret ::
  "'s bus_api \<Rightarrow> string \<Rightarrow> string \<Rightarrow> 's server \<Rightarrow> bus_error option \<times> 's server" where
  "setAgentSecret api agentID secret sv =
     (let agentID = TrimSpace agentID in
      if agentID = [] \<or> TrimSpace secret = [] then (None, sv)
      else (case (case api_SetAgentSecret api of
                    None \<Rightarrow> (None, sv_store sv)
                  | Some set_secret \<Rightarrow> set_secret agentID secret (sv_store sv)) of
              (Some err, st) \<Rightarrow> (Some (wrap_error ''persist agent secret: '' err), sv\<lparr>sv_store := st\<rparr>)
            | (None, st) \<Rightarrow>
                (None, sv\<lparr>sv_store := st, sv_agentSecrets := AList.update agentID secret (sv_agentSecrets sv)\<rparr>)))"

section \<open>Tokens\<close>

definition bearerToken :: "http_request \<Rightarrow> string" where
  "bearerToken r =
     (let auth = TrimSpace (header_get r ''Authorization'') in
      if auth = [] then []
      else (case Cut auth (CHR '' '') of
              (scheme, token, ok) \<Rightarrow>
                if \<not> ok \<or> ToLower (TrimSpace scheme) \<noteq> ''bearer'' then [] else TrimSpace token))"

definition tokenAllowed :: "string list \<Rightarrow> string \<Rightarrow> bool" where
  "tokenAllowed allowset token =
     (let token = TrimSpace token in
      if length allowset = 0 \<or> token = [] then False else list_ex (\<lambda>allowed. token = allowed) allowset)"

definition validInjectToken :: "'s server \<Rightarrow> http_request \<Rightarrow> bool" where
  "validInjectToken sv r = tokenAllowed (sv_injectTokens sv) (bearerToken r)"

definition validObserveToken :: "'s server \<Rightarrow> http_request \<Rightarrow> bool" where
  "validObserveToken sv r =
     (if tokenAllowed (sv_observeTokens sv) (bearerToken r) then True
      else tokenAllowed (sv_observeTokens sv) (query_value r ''token''))"

definition forbiddenError :: "string \<Rightarrow> bus_error" where
  "forbiddenError msg =
     BusError \<lparr>e_Code = CodeUnauthorized, e_Message = msg, e_Transient = False, e_RetryAfter = 0, e_Status = 403\<rparr>"

record scopedAuth =
  au_AgentID :: string
  au_Global :: bool

definition actor_of :: "scopedAuth \<Rightarrow> string" where
  "actor_of auth = (if \<not> au_Global auth then au_AgentID auth else [])"

definition verifyObserveAuth ::
  "(string \<Rightarrow> string \<Rightarrow> string) \<Rightarrow> 's server \<Rightarrow> http_request \<Rightarrow> bus_error + scopedAuth" where
  "verifyObserveAuth hmac sv r =
     (if validObserveToken sv r then Inr \<lparr>au_AgentID = [], au_Global = True\<rparr>
      else
        (let agentID = TrimSpace (header_get r ''X-Agent-ID'');
             signature = TrimSpace (header_get r ''X-Bus-Signature'') in
         if agentID = [] \<and> signature = [] then Inl (forbiddenError ''observe auth required'')
         else (case verifySignature hmac sv agentID signature (rq_RawQuery r) of
                 Some err \<Rightarrow> Inl err
               | None \<Rightarrow> Inr \<lparr>au_AgentID = agentID, au_Global = False\<rparr>)))"

definition verifyConversationCreateAuth ::
  "(string \<Rightarrow> string \<Rightarrow> string) \<Rightarrow> 's server \<Rightarrow> http_request \<Rightarrow> string \<Rightarrow> bus_error + scopedAuth" where
  "verifyConversationCreateAuth hmac sv r payload =
     (if validInjectToken sv r then Inr \<lparr>au_AgentID = [], au_Global = True\<rparr>
      else
        (let agentID = TrimSpace (header_get r ''X-Agent-ID'');
             signature = TrimSpace (header_get r ''X-Bus-Signature'') in
         if agentID = [] \<and> signature = [] then Inl (forbiddenError ''conversation create auth required'')
         else (case verifySignature hmac sv agentID signature payload of
                 Some err \<Rightarrow> Inl err
               | None \<Rightarrow> Inr \<lparr>au_AgentID = agentID, au_Global = False\<rparr>)))"

section \<open>Lemmas\<close>

text \<open>Whoever made this signature over this payload holds the agent's registered secret.\<close>

definition signed_by :: "(string \<Rightarrow> string \<Rightarrow> string) \<Rightarrow> 's server \<Rightarrow> string \<Rightarrow> string \<Rightarrow> string \<Rightarrow> bool" where
  "signed_by hmac sv agentID signature payload \<longleftrightarrow>
     (\<exists>secret. TrimSpace agentID \<noteq> [] \<and> map_of (sv_agentSecrets sv) (TrimSpace agentID) = Some secret \<and>
        TrimSpace secret \<noteq> [] \<and> signature_bytes signature = Some (hmac secret payload))"

lemma verifySignature_None:
  "verifySignature hmac sv agentID signature payload = None \<longleftrightarrow>
     signed_by hmac sv agentID signature payload \<and> TrimSpace signature \<noteq> []"
  by (auto simp: verifySignature_def signed_by_def Let_def split: option.splits)

lemma verifySignature_status:
  "verifySignature hmac sv agentID signature payload = Some err \<Longrightarrow> \<exists>msg. err = unauthorized msg"
  by (auto simp: verifySignature_def Let_def split: option.splits if_splits)

lemma signature_bytes_trim [simp]: "signature_bytes (TrimSpace s) = signature_bytes s"
  by (simp add: signature_bytes_def)

lemma signed_by_trim [simp]:
  "signed_by hmac sv agentID (TrimSpace sig) payload = signed_by hmac sv agentID sig payload"
  "signed_by hmac sv (TrimSpace agentID) sig payload = signed_by hmac sv agentID sig payload"
  by (simp_all add: signed_by_def)

lemma tokenAllowed_iff: "tokenAllowed ts t \<longleftrightarrow> TrimSpace t \<noteq> [] \<and> TrimSpace t \<in> set ts"
  by (auto simp: tokenAllowed_def Let_def list_ex_iff)

lemma verifyObserveAuth_Inr:
  assumes "verifyObserveAuth hmac sv r = Inr auth"
  shows "if au_Global auth then validObserveToken sv r
         else signed_by hmac sv (au_AgentID auth) (header_get r ''X-Bus-Signature'') (rq_RawQuery r) \<and>
              au_AgentID auth = TrimSpace (header_get r ''X-Agent-ID'')"
  using assms
  by (auto simp: verifyObserveAuth_def Let_def verifySignature_None split: if_splits option.splits)

lemma verifyConversationCreateAuth_Inr:
  assumes "verifyConversationCreateAuth hmac sv r payload = Inr auth"
  shows "if au_Global auth then validInjectToken sv r
         else signed_by hmac sv (au_AgentID auth) (header_get r ''X-Bus-Signature'') payload \<and>
              au_AgentID auth = TrimSpace (header_get r ''X-Agent-ID'')"
  using assms
  by (auto simp: verifyConversationCreateAuth_def Let_def verifySignature_None split: if_splits option.splits)

end
