(* ===== verification/Http_Handlers.thy ===== *)
theory Http_Handlers
  imports Http_Auth
begin

text \<open>
  The handlers of \<^verbatim>\<open>pkg/httpapi/server.go\<close>. Each takes the store interface \<open>api\<close>, the environment
  \<open>env\<close> (HMAC and the JSON decoders), the request and the server, and returns the response and the
  server after it. Request structs are records with the fields of the anonymous structs in the code.
  A long poll may still be blocked, so \<open>handleInbox\<close> and \<open>serve\<close> return an optional response.
  The JSON documents of agents, conversations, messages and inbox events follow the tags in
  \<^verbatim>\<open>pkg/bus/types.go\<close>.
\<close>

section \<open>JSON documents\<close>

fun agent_mode_str :: "agent_mode \<Rightarrow> string" where
  "agent_mode_str AgentModePull = ''pull''"
| "agent_mode_str AgentModePush = ''push''"
| "agent_mode_str (AgentModeOther s) = s"

definition agent_mode_of :: "string \<Rightarrow> agent_mode" where
  "agent_mode_of s =
     (if s = ''pull'' then AgentModePull else if s = ''push'' then AgentModePush else AgentModeOther s)"

definition message_type_of :: "string \<Rightarrow> message_type" where
  "message_type_of s =
     (if s = ''request'' then MessageTypeRequest else if s = ''response'' then MessageTypeResponse
      else if s = ''inform'' then MessageTypeInform else MessageTypeOther s)"

fun agent_status_str :: "agent_status \<Rightarrow> string" where
  "agent_status_str AgentStatusActive = ''active''"
| "agent_status_str AgentStatusExpired = ''expired''"
| "agent_status_str (AgentStatusOther s) = s"

fun event_type_str :: "event_type \<Rightarrow> string" where
  "event_type_str ObserveMessage = ''message''"
| "event_type_str ObserveAck = ''ack''"
| "event_type_str ObserveProgress = ''progress''"
| "event_type_str ObserveStateChange = ''state_change''"
| "event_type_str ObserveAgentRegistered = ''agent_registered''"
| "event_type_str ObserveAgentExpired = ''agent_expired''"
| "event_type_str ObserveHumanInjection = ''human_injection''"

definition omit_str :: "string \<Rightarrow> string \<Rightarrow> (string \<times> json) list" where
  "omit_str k v = (if v = [] then [] else [(k, JStr v)])"

definition omit_strs :: "string \<Rightarrow> string list \<Rightarrow> (string \<times> json) list" where
  "omit_strs k vs = (if vs = [] then [] else [(k, JArr (map JStr vs))])"

definition omit_any :: "string \<Rightarrow> json \<Rightarrow> (string \<times> json) list" where
  "omit_any k v = (if v = JNull then [] else [(k, v)])"

definition build_info_json :: "build_info \<Rightarrow> json" where
  "build_info_json b = JStruct (omit_str ''commit'' (bi_Commit b) @ [(''dirty'', JBool (bi_Dirty b))])"

definition agent_meta_json :: "agent_meta \<Rightarrow> json" where
  "agent_meta_json m =
     JStruct (omit_str ''owner'' (am_Owner m) @ omit_str ''repo'' (am_Repo m)
       @ omit_str ''health_url'' (am_HealthURL m) @ omit_strs ''dependencies'' (am_Dependencies m))"

definition agent_json :: "agent \<Rightarrow> json" where
  "agent_json a =
     JStruct ([(''agent_id'', JStr (a_AgentID a))]
       @ omit_strs ''allowed_scopes'' (a_AllowedScopes a)
       @ omit_strs ''shared_grants'' (a_SharedGrants a)
       @ [(''capabilities'', json_strings (a_Capabilities a))]
       @ omit_str ''version'' (a_Version a)
       @ omit_str ''description'' (a_Description a)
       @ omit_str ''agent_class'' (a_AgentClass a)
       @ omit_str ''mutation_class'' (a_MutationClass a)
       @ (case a_Build a of None \<Rightarrow> [] | Some b \<Rightarrow> [(''build'', build_info_json b)])
       @ (case a_Meta a of None \<Rightarrow> [] | Some m \<Rightarrow> [(''meta'', agent_meta_json m)])
       @ [(''mode'', JStr (agent_mode_str (a_Mode a)))]
       @ omit_str ''callback_url'' (a_CallbackURL a)
       @ [(''status'', JStr (agent_status_str (a_Status a))),
          (''registered_at'', JTime (a_RegisteredAt a)),
          (''expires_at'', JTime (a_ExpiresAt a))])"

definition conversation_json :: "conversation \<Rightarrow> json" where
  "conversation_json c =
     JStruct ([(''conversation_id'', JStr (c_ConversationID c))]
       @ omit_str ''title'' (c_Title c)
       @ omit_strs ''participants'' (c_Participants c)
       @ [(''status'', JStr (c_Status c)),
          (''message_count'', JNum (fmt_d (c_MessageCount c))),
          (''created_at'', JTime (c_CreatedAt c)),
          (''last_message_at'', JTime (c_LastMessageAt c))]
       @ omit_any ''meta'' (c_Meta c))"

definition message_json :: "message \<Rightarrow> json" where
  "message_json m =
     JStruct ([(''message_id'', JStr (m_MessageID m)),
               (''type'', JStr (message_type_str (m_Type m))),
               (''from'', JStr (m_From m))]
       @ omit_str ''to'' (m_To m)
       @ omit_str ''conversation_id'' (m_ConversationID m)
       @ [(''request_id'', JStr (m_RequestID m))]
       @ omit_str ''in_reply_to'' (m_InReplyTo m)
       @ [(''body'', JStr (m_Body m))]
       @ omit_any ''meta'' (m_Meta m)
       @ (if m_Attachments m = [] then [] else [(''attachments'', JArr (map attachment_json (m_Attachments m)))])
       @ omit_str ''state'' (message_state_str (m_State m))
       @ [(''created_at'', JTime (m_CreatedAt m)), (''terminal_at'', JTime (m_TerminalAt m))])"

definition inbox_event_json :: "inbox_event \<Rightarrow> json" where
  "inbox_event_json e =
     JStruct ([(''message_id'', JStr (i_MessageID e)),
               (''type'', JStr (message_type_str (i_Type e))),
               (''from'', JStr (i_From e))]
       @ omit_str ''conversation_id'' (i_ConversationID e)
       @ [(''body'', JStr (i_Body e))]
       @ omit_any ''meta'' (i_Meta e)
       @ (if i_Attachments e = [] then [] else [(''attachments'', JArr (map attachment_json (i_Attachments e)))])
       @ [(''created_at'', JTime (i_CreatedAt e))])"

section \<open>Requests\<close>

record register_request =
  rr_AgentID :: string
  rr_AllowedScopes :: "string list"
  rr_SharedGrants :: "string list"
  rr_Capabilities :: "string list"
  rr_Version :: string
  rr_Description :: string
  rr_AgentClass :: string
  rr_MutationClass :: string
  rr_Build :: "build_info option"
  rr_Meta :: "agent_meta option"
  rr_Mode :: string
  rr_CallbackURL :: string
  rr_TTL :: int
  rr_Secret :: string

record conversation_request =
  cr_ConversationID :: string
  cr_Title :: string
  cr_Participants :: "string list"
  cr_Meta :: json

record message_request =
  mr_To :: string
  mr_From :: string
  mr_ConversationID :: string
  mr_RequestID :: string
  mr_Type :: string
  mr_Body :: string
  mr_Meta :: json
  mr_Attachments :: "attachment list"
  mr_TTL :: int
  mr_InReplyTo :: string

record ack_request =
  kr_AgentID :: string
  kr_MessageID :: string
  kr_Status :: string
  kr_Reason :: string

record event_request =
  er_MessageID :: string
  er_Type :: string
  er_Body :: string
  er_Meta :: json

record inject_request =
  ir_Identity :: string
  ir_ConversationID :: string
  ir_To :: string
  ir_Body :: string

record http_env =
  he_hmac :: "string \<Rightarrow> string \<Rightarrow> string"
  he_register :: "string \<Rightarrow> string + register_request"
  he_conversation :: "string \<Rightarrow> string + conversation_request"
  he_message :: "string \<Rightarrow> string + message_request"
  he_ack :: "string \<Rightarrow> string + ack_request"
  he_event :: "string \<Rightarrow> string + event_request"
  he_inject :: "string \<Rightarrow> string + inject_request"

text \<open>
  Reading and decoding a body: the error response, or the bytes and the request. \<^verbatim>\<open>handleConversations\<close>
  checks the caller in between, so it does not use this.
\<close>

definition decode_body ::
  "'s server \<Rightarrow> http_request \<Rightarrow> (string \<Rightarrow> string + 'r) \<Rightarrow> http_response + string \<times> 'r" where
  "decode_body sv r decode =
     (case readBody sv r of
        Inl err \<Rightarrow> Inl (writeBusError (busErrorOrValidation err))
      | Inr blob \<Rightarrow>
          (case decode blob of
             Inl err \<Rightarrow> Inl (writeBusError (NewValidationJSONError err))
           | Inr req \<Rightarrow> Inr (blob, req)))"

definition parse_int :: "string \<Rightarrow> int \<Rightarrow> int" where
  "parse_int value def =
     (if TrimSpace value = [] then def
      else (case Atoi value of None \<Rightarrow> def | Some v \<Rightarrow> v))"

definition parseWaitSeconds :: "string \<Rightarrow> duration" where
  "parseWaitSeconds value =
     (if TrimSpace value = [] then 0
      else (case Atoi value of
              None \<Rightarrow> 0
            | Some v \<Rightarrow> seconds_dur (if v < 0 then 0 else v)))"

section \<open>Handlers\<close>

definition handleRegisterAgent ::
  "'s bus_api \<Rightarrow> http_env \<Rightarrow> http_request \<Rightarrow> 's server \<Rightarrow> http_response \<times> 's server" where
  "handleRegisterAgent api env r sv =
     (if rq_Method r \<noteq> ''POST'' then (status_only 405, sv)
      else (case decode_body sv r (he_register env) of
        Inl resp \<Rightarrow> (resp, sv)
      | Inr (blob, req) \<Rightarrow>
          (let agentID = TrimSpace (rr_AgentID req) in
           if \<not> isAgentAllowed sv agentID then
             (writeBusError (unauthorized ''agent_id not allowlisted''), sv)
           else if TrimSpace (rr_Secret req) = [] then
             (writeBusError (BusError \<lparr>e_Code = CodeValidation, e_Message = ''secret is required'',
                e_Transient = False, e_RetryAfter = 0, e_Status = 400\<rparr>), sv)
           else (case verifyReregistrationProof (he_hmac env) sv agentID (rr_Secret req) blob
                        (header_get r ''X-Bus-Signature'') of
             Some err \<Rightarrow> (writeBusError err, sv)
           | None \<Rightarrow>
               (case api_RegisterAgent api
                       \<lparr>ra_AgentID = agentID, ra_Secret = rr_Secret req,
                        ra_AllowedScopes = rr_AllowedScopes req, ra_SharedGrants = rr_SharedGrants req,
                        ra_Capabilities = rr_Capabilities req, ra_Version = rr_Version req,
                        ra_Description = rr_Description req, ra_AgentClass = rr_AgentClass req,
                        ra_MutationClass = rr_MutationClass req, ra_Build = rr_Build req,
                        ra_Meta = rr_Meta req, ra_Mode = agent_mode_of (rr_Mode req),
                        ra_CallbackURL = rr_CallbackURL req, ra_TTLSeconds = rr_TTL req\<rparr> (sv_store sv) of
                  (Inl err, st) \<Rightarrow> (writeBusError err, sv\<lparr>sv_store := st\<rparr>)
                | (Inr agent, st) \<Rightarrow>
                    (case setAgentSecret api (a_AgentID agent) (rr_Secret req) (sv\<lparr>sv_store := st\<rparr>) of
                       (Some err, sv') \<Rightarrow> (writeBusError err, sv')
                     | (None, sv') \<Rightarrow>
                         (writeJSON 200 (JMap [(''ok'', JBool True), (''agent_id'', JStr (a_AgentID agent)),
                                               (''expires_at'', JTime (a_ExpiresAt agent))]), sv')))))))"

definition handleListAgents ::
  "'s bus_api \<Rightarrow> http_request \<Rightarrow> 's server \<Rightarrow> http_response \<times> 's server" where
  "handleListAgents api r sv =
     (if rq_Method r \<noteq> ''GET'' then (status_only 405, sv)
      else (case api_ListAgents api (TrimSpace (query_value r ''capability'')) (sv_store sv) of
              (agents, st) \<Rightarrow>
                (writeJSON 200 (JMap [(''agents'', JArr (map agent_json agents))]), sv\<lparr>sv_store := st\<rparr>)))"

definition create_conversation ::
  "'s bus_api \<Rightarrow> http_env \<Rightarrow> http_request \<Rightarrow> 's server \<Rightarrow> http_response \<times> 's server" where
  "create_conversation api env r sv =
     (case readBody sv r of
        Inl err \<Rightarrow> (writeBusError (busErrorOrValidation err), sv)
      | Inr blob \<Rightarrow>
          (case verifyConversationCreateAuth (he_hmac env) sv r blob of
             Inl err \<Rightarrow> (writeBusError err, sv)
           | Inr auth \<Rightarrow>
               (case he_conversation env blob of
                  Inl err \<Rightarrow> (writeBusError (NewValidationJSONError err), sv)
                | Inr req \<Rightarrow>
                    (case api_CreateConversation api
                            \<lparr>cc_ConversationID = cr_ConversationID req, cc_Title = cr_Title req,
                             cc_Participants = cr_Participants req, cc_Meta = cr_Meta req,
                             cc_ActorAgentID = actor_of auth\<rparr> (sv_store sv) of
                       (Inl err, st) \<Rightarrow> (writeBusError err, sv\<lparr>sv_store := st\<rparr>)
                     | (Inr c, st) \<Rightarrow>
                         (writeJSON 200 (JMap [(''ok'', JBool True),
                            (''conversation_id'', JStr (c_ConversationID c))]), sv\<lparr>sv_store := st\<rparr>)))))"

definition list_conversations ::
  "'s bus_api \<Rightarrow> http_env \<Rightarrow> http_request \<Rightarrow> 's server \<Rightarrow> http_response \<times> 's server" where
  "list_conversations api env r sv =
     (case verifyObserveAuth (he_hmac env) sv r of
        Inl err \<Rightarrow> (writeBusError err, sv)
      | Inr auth \<Rightarrow>
          (case api_ListConversations api
                  \<lparr>lf_Participant = TrimSpace (query_value r ''participant''),
                   lf_Status = TrimSpace (query_value r ''status''),
                   lf_ActorAgentID = actor_of auth\<rparr> (sv_store sv) of
             (conversations, st) \<Rightarrow>
               (writeJSON 200 (JMap [(''conversations'', JArr (map conversation_json conversations))]),
                sv\<lparr>sv_store := st\<rparr>)))"

definition handleConversations ::
  "'s bus_api \<Rightarrow> http_env \<Rightarrow> http_request \<Rightarrow> 's server \<Rightarrow> http_response \<times> 's server" where
  "handleConversations api env r sv =
     (if rq_Method r = ''POST'' then create_conversation api env r sv
      else if rq_Method r = ''GET'' then list_conversations api env r sv
      else (status_only 405, sv))"

definition handleConversationMessages ::
  "'s bus_api \<Rightarrow> http_env \<Rightarrow> http_request \<Rightarrow> 's server \<Rightarrow> http_response \<times> 's server" where
  "handleConversationMessages api env r sv =
     (if rq_Method r \<noteq> ''GET'' then (status_only 405, sv)
      else
        (let path = TrimPrefix (rq_Path r) ''/v1/conversations/'' in
         if \<not> HasSuffix path ''/messages'' then (status_only 404, sv)
         else
           (let conversationID = TrimSuffix (TrimSuffix path ''/messages'') ''/'' in
            if conversationID = [] then (status_only 404, sv)
            else (case verifyObserveAuth (he_hmac env) sv r of
              Inl err \<Rightarrow> (writeBusError err, sv)
            | Inr auth \<Rightarrow>
                (case api_ListConversationMessages api
                        \<lparr>lm_ConversationID = conversationID,
                         lm_Cursor = parse_int (query_value r ''cursor'') 0,
                         lm_Limit = parse_int (query_value r ''limit'') 50,
                         lm_ActorAgentID = actor_of auth\<rparr> (sv_store sv) of
                   (Inl err, st) \<Rightarrow> (writeBusError err, sv\<lparr>sv_store := st\<rparr>)
                 | (Inr (cid, messages, stop), st) \<Rightarrow>
                     (writeJSON 200 (JMap [(''conversation_id'', JStr cid),
                                           (''messages'', JArr (map message_json messages)),
                                           (''cursor'', JStr (Itoa stop))]), sv\<lparr>sv_store := st\<rparr>))))))"

definition handleMessages ::
  "'s bus_api \<Rightarrow> http_env \<Rightarrow> http_request \<Rightarrow> 's server \<Rightarrow> http_response \<times> 's server" where
  "handleMessages api env r sv =
     (if rq_Method r \<noteq> ''POST'' then (status_only 405, sv)
      else (case decode_body sv r (he_message env) of
        Inl resp \<Rightarrow> (resp, sv)
      | Inr (blob, req) \<Rightarrow>
          (case verifySignature (he_hmac env) sv (mr_From req) (header_get r ''X-Bus-Signature'') blob of
             Some err \<Rightarrow> (writeBusError err, sv)
           | None \<Rightarrow>
               (case api_SendMessage api
                       \<lparr>sm_To = mr_To req, sm_From = mr_From req, sm_ConversationID = mr_ConversationID req,
                        sm_RequestID = mr_RequestID req, sm_Type = message_type_of (mr_Type req),
                        sm_Body = mr_Body req, sm_Meta = mr_Meta req, sm_Attachments = mr_Attachments req,
                        sm_TTLSeconds = mr_TTL req, sm_InReplyTo = mr_InReplyTo req\<rparr> (sv_store sv) of
                  (Inl err, st) \<Rightarrow> (writeBusError err, sv\<lparr>sv_store := st\<rparr>)
                | (Inr (m, duplicate), st) \<Rightarrow>
                    (writeJSON 200 (JMap [(''ok'', JBool True), (''message_id'', JStr (m_MessageID m)),
                                          (''duplicate'', JBool duplicate)]), sv\<lparr>sv_store := st\<rparr>)))))"

definition handleInbox ::
  "'s bus_api \<Rightarrow> http_env \<Rightarrow> http_request \<Rightarrow> 's server \<Rightarrow> http_response option \<times> 's server" where
  "handleInbox api env r sv =
     (if rq_Method r \<noteq> ''GET'' then (Some (status_only 405), sv)
      else
        (let agentID = TrimSpace (query_value r ''agent_id'') in
         case verifySignature (he_hmac env) sv agentID (header_get r ''X-Bus-Signature'') (rq_RawQuery r) of
           Some err \<Rightarrow> (Some (writeBusError err), sv)
         | None \<Rightarrow>
             (case api_PollInbox api
                     \<lparr>pi_AgentID = agentID, pi_Cursor = parse_int (query_value r ''cursor'') 0,
                      pi_Wait = parseWaitSeconds (query_value r ''wait''),
                      pi_Limit = parse_int (query_value r ''limit'') 0\<rparr> (sv_store sv) of
                (None, st) \<Rightarrow> (None, sv\<lparr>sv_store := st\<rparr>)
              | (Some (Inl err), st) \<Rightarrow> (Some (writeBusError err), sv\<lparr>sv_store := st\<rparr>)
              | (Some (Inr (events, cursor)), st) \<Rightarrow>
                  (Some (writeJSON 200 (JMap [(''events'', JArr (map inbox_event_json events)),
                                              (''cursor'', JStr (Itoa cursor))])), sv\<lparr>sv_store := st\<rparr>))))"

definition handleAcks ::
  "'s bus_api \<Rightarrow> http_env \<Rightarrow> http_request \<Rightarrow> 's server \<Rightarrow> http_response \<times> 's server" where
  "handleAcks api env r sv =
     (if rq_Method r \<noteq> ''POST'' then (status_only 405, sv)
      else (case decode_body sv r (he_ack env) of
        Inl resp \<Rightarrow> (resp, sv)
      | Inr (blob, req) \<Rightarrow>
          (case verifySignature (he_hmac env) sv (kr_AgentID req) (header_get r ''X-Bus-Signature'') blob of
             Some err \<Rightarrow> (writeBusError err, sv)
           | None \<Rightarrow>
               (case api_Ack api \<lparr>ak_AgentID = kr_AgentID req, ak_MessageID = kr_MessageID req,
                                  ak_Status = kr_Status req, ak_Reason = kr_Reason req\<rparr> (sv_store sv) of
                  (Some err, st) \<Rightarrow> (writeBusError err, sv\<lparr>sv_store := st\<rparr>)
                | (None, st) \<Rightarrow> (writeJSON 200 (JMap [(''ok'', JBool True)]), sv\<lparr>sv_store := st\<rparr>)))))"

definition handleEvents ::
  "'s bus_api \<Rightarrow> http_env \<Rightarrow> http_request \<Rightarrow> 's server \<Rightarrow> http_response \<times> 's server" where
  "handleEvents api env r sv =
     (if rq_Method r \<noteq> ''POST'' then (status_only 405, sv)
      else (case decode_body sv r (he_event env) of
        Inl resp \<Rightarrow> (resp, sv)
      | Inr (blob, req) \<Rightarrow>
          (let actor = TrimSpace (header_get r ''X-Agent-ID'') in
           case verifySignature (he_hmac env) sv actor (header_get r ''X-Bus-Signature'') blob of
             Some err \<Rightarrow> (writeBusError err, sv)
           | None \<Rightarrow>
               (case api_PostEvent api \<lparr>ev_ActorAgentID = actor, ev_MessageID = er_MessageID req,
                                        ev_Type = er_Type req, ev_Body = er_Body req,
                                        ev_Meta = er_Meta req\<rparr> (sv_store sv) of
                  (Some err, st) \<Rightarrow> (writeBusError err, sv\<lparr>sv_store := st\<rparr>)
                | (None, st) \<Rightarrow> (writeJSON 200 (JMap [(''ok'', JBool True)]), sv\<lparr>sv_store := st\<rparr>)))))"

definition handleInject ::
  "'s bus_api \<Rightarrow> http_env \<Rightarrow> http_request \<Rightarrow> 's server \<Rightarrow> http_response \<times> 's server" where
  "handleInject api env r sv =
     (if rq_Method r \<noteq> ''POST'' then (status_only 405, sv)
      else if \<not> validInjectToken sv r then (writeBusError (forbiddenError ''inject token required''), sv)
      else (case decode_body sv r (he_inject env) of
        Inl resp \<Rightarrow> (resp, sv)
      | Inr (blob, req) \<Rightarrow>
          (case api_Inject api \<lparr>ij_Identity = ir_Identity req, ij_ConversationID = ir_ConversationID req,
                                ij_To = ir_To req, ij_Body = ir_Body req\<rparr> (sv_store sv) of
             (Inl err, st) \<Rightarrow> (writeBusError err, sv\<lparr>sv_store := st\<rparr>)
           | (Inr m, st) \<Rightarrow>
               (writeJSON 200 (JMap [(''ok'', JBool True), (''message_id'', JStr (m_MessageID m))]),
                sv\<lparr>sv_store := st\<rparr>))))"

definition handleHealth :: "'s bus_api \<Rightarrow> http_request \<Rightarrow> 's server \<Rightarrow> http_response \<times> 's server" where
  "handleHealth api r sv =
     (if rq_Method r \<noteq> ''GET'' then (status_only 405, sv)
      else (case api_Health api (sv_store sv) of (doc, st) \<Rightarrow> (writeJSON 200 doc, sv\<lparr>sv_store := st\<rparr>)))"

definition handleTopLevelHealth :: "'s bus_api \<Rightarrow> http_request \<Rightarrow> 's server \<Rightarrow> http_response \<times> 's server" where
  "handleTopLevelHealth api r sv =
     (if rq_Method r \<noteq> ''GET'' then (status_only 405, sv)
      else (case api_Health api (sv_store sv) of (doc, st) \<Rightarrow> (writeJSON 200 doc, sv\<lparr>sv_store := st\<rparr>)))"

definition handleMetrics :: "'s bus_api \<Rightarrow> http_request \<Rightarrow> 's server \<Rightarrow> http_response \<times> 's server" where
  "handleMetrics api r sv =
     (if rq_Method r \<noteq> ''GET'' then (status_only 405, sv)
      else (case api_Metrics api (sv_store sv) of
              (txt, st) \<Rightarrow>
                (\<lparr>rs_Status = 200, rs_Header = [(''Content-Type'', ''text/plain; version=0.0.4; charset=utf-8'')],
                  rs_Body = TextBody txt\<rparr>, sv\<lparr>sv_store := st\<rparr>)))"

definition handleSystemStatus :: "'s bus_api \<Rightarrow> http_request \<Rightarrow> 's server \<Rightarrow> http_response \<times> 's server" where
  "handleSystemStatus api r sv =
     (if rq_Method r \<noteq> ''GET'' then (status_only 405, sv)
      else (case api_SystemStatus api (sv_store sv) of (doc, st) \<Rightarrow> (writeJSON 200 doc, sv\<lparr>sv_store := st\<rparr>)))"

section \<open>The observer stream\<close>

definition parseObserveCursor :: "http_request \<Rightarrow> int" where
  "parseObserveCursor r =
     (let cursor = TrimSpace (query_value r ''cursor'');
          cursor = (if cursor = [] then TrimSpace (header_get r ''Last-Event-ID'') else cursor)
      in if cursor = [] then 0
         else (case ParseInt cursor of None \<Rightarrow> 0 | Some v \<Rightarrow> if v < 0 then 0 else v))"

definition sse_event :: "observe_event \<Rightarrow> string" where
  "sse_event evt =
     (case Marshal (o_Data evt) of
        None \<Rightarrow> []
      | Some blob \<Rightarrow>
          ''id: '' @ fmt_d (o_ID evt) @ [CHR 0x0A] @ ''event: '' @ event_type_str (o_Type evt) @ [CHR 0x0A] @
          ''data: '' @ blob @ [CHR 0x0A, CHR 0x0A])"

definition sse_chunk :: "observe_event list \<Rightarrow> string" where
  "sse_chunk events =
     (if events = [] then '': keep-alive'' @ [CHR 0x0A, CHR 0x0A] else concat (map sse_event events))"

text \<open>
  One pass of the streaming loop asks the store for the events past the cursor and writes a chunk. The
  list gives the store interface of each pass (its clock readings and what other goroutines do while it
  waits); the stream ends when the list does, which is when the client goes away or a write fails.
\<close>

fun observe_stream ::
  "'s bus_api list \<Rightarrow> int \<Rightarrow> observe_filter \<Rightarrow> 's \<Rightarrow> (observe_event list \<times> string) list \<times> 's" where
  "observe_stream [] cursor flt st = ([], st)"
| "observe_stream (api # apis) cursor flt st =
     (case api_ObserveSince api cursor flt Second st of
        (None, st') \<Rightarrow> ([], st')
      | (Some (events, lastID), st') \<Rightarrow>
          (case observe_stream apis (if events = [] then cursor else lastID) flt st' of
             (rest, st'') \<Rightarrow> ((events, sse_chunk events) # rest, st'')))"

definition observe_filter_of :: "http_request \<Rightarrow> scopedAuth \<Rightarrow> observe_filter" where
  "observe_filter_of r auth =
     \<lparr>of_ConversationID = TrimSpace (query_value r ''conversation_id''),
      of_AgentID = TrimSpace (query_value r ''agent_id''), of_ActorAgentID = actor_of auth\<rparr>"

definition handleObserve ::
  "'s bus_api \<Rightarrow> http_env \<Rightarrow> bool \<Rightarrow> 's bus_api list \<Rightarrow> http_request \<Rightarrow> 's server \<Rightarrow> http_response \<times> 's server" where
  "handleObserve api env canFlush passes r sv =
     (if rq_Method r \<noteq> ''GET'' then (status_only 405, sv)
      else (case verifyObserveAuth (he_hmac env) sv r of
        Inl err \<Rightarrow> (writeBusError err, sv)
      | Inr auth \<Rightarrow>
          if \<not> canFlush then (writeBusError (NewInternalError ''streaming unsupported''), sv)
          else
            (case observe_stream passes (parseObserveCursor r) (observe_filter_of r auth) (sv_store sv) of
               (chunks, st) \<Rightarrow>
                 (\<lparr>rs_Status = 200,
                   rs_Header = [(''Content-Type'', ''text/event-stream''), (''Cache-Control'', ''no-cache''),
                                (''Connection'', ''keep-alive'')] @
                     (case api_ObserveEpoch api of
                        None \<Rightarrow> []
                      | Some epoch \<Rightarrow> [(''X-Pinakes-Observe-Epoch'', epoch (sv_store sv))]),
                   rs_Body = TextBody (concat (map snd chunks))\<rparr>, sv\<lparr>sv_store := st\<rparr>))))"

section \<open>Routing\<close>

datatype endpoint =
    RegisterAgentEndpoint | ListAgentsEndpoint | ConversationsEndpoint | ConversationMessagesEndpoint
  | MessagesEndpoint | InboxEndpoint | AcksEndpoint | EventsEndpoint | ObserveEndpoint | InjectEndpoint
  | TopLevelHealthEndpoint | MetricsEndpoint | HealthEndpoint | SystemStatusEndpoint

definition endpoints :: "(string \<times> endpoint) list" where
  "endpoints =
     [(''/v1/agents/register'', RegisterAgentEndpoint),
      (''/v1/agents'', ListAgentsEndpoint),
      (''/v1/conversations'', ConversationsEndpoint),
      (''/v1/messages'', MessagesEndpoint),
      (''/v1/inbox'', InboxEndpoint),
      (''/v1/acks'', AcksEndpoint),
      (''/v1/events'', EventsEndpoint),
      (''/v1/observe'', ObserveEndpoint),
      (''/v1/inject'', InjectEndpoint),
      (''/health'', TopLevelHealthEndpoint),
      (''/metrics'', MetricsEndpoint),
      (''/v1/health'', HealthEndpoint),
      (''/v1/system/status'', SystemStatusEndpoint)]"

text \<open>
  \<^verbatim>\<open>http.ServeMux\<close>: an exact match, or the one pattern that ends in a slash, as a prefix. A path that the
  multiplexer would clean first (one with \<^verbatim>\<open>//\<close>, \<^verbatim>\<open>.\<close> or \<^verbatim>\<open>..\<close> in it) is answered with a redirect by
  \<^verbatim>\<open>net/http\<close>, before any handler of the program; that is not modelled, and a path here is a clean one.
\<close>

definition route :: "string \<Rightarrow> endpoint option" where
  "route path =
     (case map_of endpoints path of
        Some e \<Rightarrow> Some e
      | None \<Rightarrow> if HasPrefix path ''/v1/conversations/'' then Some ConversationMessagesEndpoint else None)"

definition answered :: "http_response \<times> 's server \<Rightarrow> http_response option \<times> 's server" where
  "answered x = (Some (fst x), snd x)"

definition ServeHTTP ::
  "'s bus_api \<Rightarrow> http_env \<Rightarrow> bool \<Rightarrow> 's bus_api list \<Rightarrow> http_request \<Rightarrow> 's server \<Rightarrow>
     http_response option \<times> 's server" where
  "ServeHTTP api env canFlush passes r sv =
     (case route (rq_Path r) of
        None \<Rightarrow> (Some (status_only 404), sv)
      | Some RegisterAgentEndpoint \<Rightarrow> answered (handleRegisterAgent api env r sv)
      | Some ListAgentsEndpoint \<Rightarrow> answered (handleListAgents api r sv)
      | Some ConversationsEndpoint \<Rightarrow> answered (handleConversations api env r sv)
      | Some ConversationMessagesEndpoint \<Rightarrow> answered (handleConversationMessages api env r sv)
      | Some MessagesEndpoint \<Rightarrow> answered (handleMessages api env r sv)
      | Some InboxEndpoint \<Rightarrow> handleInbox api env r sv
      | Some AcksEndpoint \<Rightarrow> answered (handleAcks api env r sv)
      | Some EventsEndpoint \<Rightarrow> answered (handleEvents api env r sv)
      | Some ObserveEndpoint \<Rightarrow> answered (handleObserve api env canFlush passes r sv)
      | Some InjectEndpoint \<Rightarrow> answered (handleInject api env r sv)
      | Some TopLevelHealthEndpoint \<Rightarrow> answered (handleTopLevelHealth api r sv)
      | Some MetricsEndpoint \<Rightarrow> answered (handleMetrics api r sv)
      | Some HealthEndpoint \<Rightarrow> answered (handleHealth api r sv)
      | Some SystemStatusEndpoint \<Rightarrow> answered (handleSystemStatus api r sv))"

end
