(* ===== verification/Persistent.thy ===== *)
theory Persistent
  imports Http_Handlers Bus_Steps
begin

text \<open>
  The stores behind the HTTP layer: the in-memory store as it is, and the file-backed
  \<^verbatim>\<open>PersistentStore\<close> of \<^verbatim>\<open>pkg/bus/persistent.go\<close>, which runs an in-memory store and rewrites a state
  file after every mutation.

  The file holds what the JSON encoding of a \<open>persistent_state\<close> preserves (\<open>json_state\<close>): the fields
  tagged \<^verbatim>\<open>json:"-"\<close> are lost, the others survive. \<open>pst_file\<close> is the file at the store's path; the
  temporary file it is renamed from is never read. What the operating system and the encoder do is in
  the records \<open>persist_io\<close> and \<open>load_io\<close>: the error of each call, if it fails.

  A \<open>moment\<close> is what an operation takes from its surroundings: the hash function, the iteration orders,
  the clock and, for a long poll, the turns. \<open>memory_api\<close> and \<open>persistent_api\<close> are the two
  implementations of \<^verbatim>\<open>bus.API\<close> at a moment. The locale \<open>bus_backend\<close> is what the HTTP layer relies on;
  both satisfy it.
\<close>

section \<open>The in-memory store as a backend\<close>

record moment =
  mo_sha256 :: "string \<Rightarrow> string"
  mo_orders :: orders
  mo_now :: time
  mo_turns :: "unit turn list"

definition without_backend :: "'r \<times> store \<times> unit \<Rightarrow> 'r \<times> store" where
  "without_backend x = (fst x, fst (snd x))"

definition memory_api :: "moment \<Rightarrow> store bus_api" where
  "memory_api mo =
     \<lparr>api_RegisterAgent = RegisterAgent (mo_sha256 mo) (mo_orders mo) (mo_now mo),
      api_ListAgents = ListAgents (mo_orders mo) (mo_now mo),
      api_CreateConversation = CreateConversation (mo_orders mo) (mo_now mo),
      api_ListConversations = ListConversations (mo_orders mo) (mo_now mo),
      api_SendMessage = SendMessage (mo_orders mo) (mo_now mo),
      api_PollInbox = (\<lambda>input s. without_backend (pollInbox (mo_now mo) None input (mo_turns mo) s ())),
      api_Ack = (\<lambda>input s. without_backend (ack (mo_orders mo) (mo_now mo) None input s ())),
      api_PostEvent = (\<lambda>input s. without_backend (postEvent (mo_orders mo) (mo_now mo) None input s ())),
      api_Inject = Inject (mo_orders mo) (mo_now mo),
      api_ListConversationMessages = ListConversationMessages (mo_orders mo) (mo_now mo),
      api_ObserveSince = (\<lambda>afterID flt wait s. ObserveSince (mo_now mo) afterID flt wait (mo_turns mo) s),
      api_Health = Health (mo_orders mo) (mo_now mo),
      api_Metrics = Metrics (mo_orders mo) (mo_now mo),
      api_SystemStatus = SystemStatus (mo_orders mo) (mo_now mo),
      api_AgentSecrets = None,
      api_SetAgentSecret = None,
      api_ObserveEpoch = Some s_observeEpoch\<rparr>"

section \<open>The state file\<close>

record persisted_message =
  pm_Message :: message
  pm_DeliveredAt :: time
  pm_LastProgressAt :: time
  pm_TTLExpiresAt :: time
  pm_GraceUntil :: time
  pm_QueuedForAgent :: bool

definition toPersistedMessage :: "message \<Rightarrow> persisted_message" where
  "toPersistedMessage m =
     \<lparr>pm_Message = m, pm_DeliveredAt = m_DeliveredAt m, pm_LastProgressAt = m_LastProgressAt m,
      pm_TTLExpiresAt = m_TTLExpiresAt m, pm_GraceUntil = m_GraceUntil m,
      pm_QueuedForAgent = m_QueuedForAgent m\<rparr>"

definition toMessage :: "persisted_message \<Rightarrow> message" where
  "toMessage pm =
     (pm_Message pm)\<lparr>m_DeliveredAt := pm_DeliveredAt pm, m_LastProgressAt := pm_LastProgressAt pm,
        m_TTLExpiresAt := pm_TTLExpiresAt pm, m_GraceUntil := pm_GraceUntil pm,
        m_QueuedForAgent := pm_QueuedForAgent pm\<rparr>"

record persistent_state =
  ps_NextConversationID :: int
  ps_NextMessageID :: int
  ps_NextObserveID :: int
  ps_PushFailures :: int
  ps_PushSuccesses :: int
  ps_Agents :: "agent gomap"
  ps_AgentSecrets :: "string gomap"
  ps_Conversations :: "conversation gomap"
  ps_Messages :: "persisted_message gomap"
  ps_ConversationMessages :: "string list gomap"
  ps_Inboxes :: "inbox_event list gomap"
  ps_InboxBase :: "int gomap"
  ps_ObserveEvents :: "observe_event list"
  ps_Idempotency :: "idempotency_entry gomap"

definition map_values :: "('a \<Rightarrow> 'b) \<Rightarrow> 'a gomap \<Rightarrow> 'b gomap" where
  "map_values f m = map (\<lambda>(k, v). (k, f v)) m"

text \<open>Encoding to JSON and back: the fields tagged \<^verbatim>\<open>json:"-"\<close> come back as zero.\<close>

definition json_agent :: "agent \<Rightarrow> agent" where
  "json_agent a = a\<lparr>a_TTLSeconds := 0\<rparr>"

definition json_message :: "message \<Rightarrow> message" where
  "json_message m =
     m\<lparr>m_DeliveredAt := 0, m_LastProgressAt := 0, m_TTLExpiresAt := 0, m_GraceUntil := 0, m_QueuedForAgent := False\<rparr>"

definition json_observe_event :: "observe_event \<Rightarrow> observe_event" where
  "json_observe_event e = e\<lparr>o_ConversationID := [], o_AgentIDs := [], o_Size := 0\<rparr>"

definition json_state :: "persistent_state \<Rightarrow> persistent_state" where
  "json_state st =
     st\<lparr>ps_Agents := map_values json_agent (ps_Agents st),
        ps_Messages := map_values (\<lambda>pm. pm\<lparr>pm_Message := json_message (pm_Message pm)\<rparr>) (ps_Messages st),
        ps_ObserveEvents := map json_observe_event (ps_ObserveEvents st)\<rparr>"

record pstore =
  pst_inner :: store
  pst_path :: string
  pst_agentSecrets :: "string gomap"
  pst_lastPersistErr :: string
  pst_file :: "persistent_state option"

definition stateSnapshot :: "pstore \<Rightarrow> persistent_state" where
  "stateSnapshot p =
     (let s = pst_inner p in
      \<lparr>ps_NextConversationID = s_nextConversationID s, ps_NextMessageID = s_nextMessageID s,
       ps_NextObserveID = 0, ps_PushFailures = s_pushFailures s, ps_PushSuccesses = s_pushSuccesses s,
       ps_Agents = s_agents s, ps_AgentSecrets = pst_agentSecrets p, ps_Conversations = s_conversations s,
       ps_Messages = map_values toPersistedMessage (s_messages s),
       ps_ConversationMessages = s_conversationMessages s, ps_Inboxes = s_inboxes s,
       ps_InboxBase = s_inboxBase s, ps_ObserveEvents = [], ps_Idempotency = s_idempotency s\<rparr>)"

definition loaded_secrets :: "ranking \<Rightarrow> string gomap \<Rightarrow> string gomap" where
  "loaded_secrets rk secrets =
     fold (\<lambda>k out.
         (let agentID = TrimSpace k; v = get_or [] secrets k in
          if agentID \<noteq> [] \<and> TrimSpace v \<noteq> [] then AList.update agentID v out else out))
       (range_keys rk secrets) []"

definition applyState :: "ranking \<Rightarrow> persistent_state \<Rightarrow> pstore \<Rightarrow> pstore" where
  "applyState rk st p =
     p\<lparr>pst_agentSecrets := loaded_secrets rk (ps_AgentSecrets st),
       pst_inner := (pst_inner p)\<lparr>
         s_nextConversationID := ps_NextConversationID st,
         s_nextMessageID := ps_NextMessageID st,
         s_nextObserveID := 0,
         s_pushFailures := ps_PushFailures st,
         s_pushSuccesses := ps_PushSuccesses st,
         s_agents := ps_Agents st,
         s_conversations := ps_Conversations st,
         s_messages := map_values toMessage (ps_Messages st),
         s_conversationMessages := ps_ConversationMessages st,
         s_inboxes := ps_Inboxes st,
         s_inboxBytes := map_values (\<lambda>evts. sum_list (map inboxEventSize evts)) (ps_Inboxes st),
         s_inboxBase := ps_InboxBase st,
         s_observeEvents := [],
         s_observeBytes := 0,
         s_idempotency := ps_Idempotency st\<rparr>\<rparr>"

record persist_io =
  pio_marshal :: "string option"
  pio_mkdir :: "string option"
  pio_write :: "string option"
  pio_rename :: "string option"

definition persist :: "persist_io \<Rightarrow> pstore \<Rightarrow> bus_error option \<times> pstore" where
  "persist io p =
     (if pst_path p = [] then (None, p)
      else (case pio_marshal io of
        Some e \<Rightarrow> (Some (OtherError e), p\<lparr>pst_lastPersistErr := e\<rparr>)
      | None \<Rightarrow> (case pio_mkdir io of
        Some e \<Rightarrow> (Some (OtherError e), p\<lparr>pst_lastPersistErr := e\<rparr>)
      | None \<Rightarrow> (case pio_write io of
        Some e \<Rightarrow> (Some (OtherError e), p\<lparr>pst_lastPersistErr := e\<rparr>)
      | None \<Rightarrow> (case pio_rename io of
        Some e \<Rightarrow> (Some (OtherError e), p\<lparr>pst_lastPersistErr := e\<rparr>)
      | None \<Rightarrow> (None, p\<lparr>pst_lastPersistErr := [], pst_file := Some (json_state (stateSnapshot p))\<rparr>))))))"

record load_io =
  lio_read :: "string option"
  lio_chmod :: "string option"
  lio_unmarshal :: "string option"

text \<open>\<open>pst_file p = None\<close>: the file does not exist.\<close>

definition load_state :: "ranking \<Rightarrow> load_io \<Rightarrow> pstore \<Rightarrow> string + pstore" where
  "load_state rk io p =
     (if pst_path p = [] then Inr p
      else (case pst_file p of
        None \<Rightarrow> Inr p
      | Some st \<Rightarrow>
          (case lio_read io of
             Some e \<Rightarrow> Inl e
           | None \<Rightarrow> (case lio_chmod io of
             Some e \<Rightarrow> Inl e
           | None \<Rightarrow> (case lio_unmarshal io of
             Some e \<Rightarrow> Inl e
           | None \<Rightarrow> Inr (applyState rk st p))))))"

datatype persistent_error = InvalidConfig config_error | LoadFailed string

definition NewPersistentStore ::
  "ranking \<Rightarrow> string \<Rightarrow> string \<Rightarrow> load_io \<Rightarrow> persistent_state option \<Rightarrow> string \<Rightarrow> config \<Rightarrow> persistent_error + pstore" where
  "NewPersistentStore rk humanAllowlist epoch io file path cfg =
     (case NewStore rk humanAllowlist epoch cfg of
        Inl e \<Rightarrow> Inl (InvalidConfig e)
      | Inr inner \<Rightarrow>
          (case load_state rk io \<lparr>pst_inner = inner, pst_path = path, pst_agentSecrets = [],
                                  pst_lastPersistErr = [], pst_file = file\<rparr> of
             Inl e \<Rightarrow> Inl (LoadFailed e)
           | Inr p \<Rightarrow> Inr p))"

section \<open>The operations of PersistentStore\<close>

definition AgentSecrets :: "pstore \<Rightarrow> bus_error + string gomap" where
  "AgentSecrets p = Inr (pst_agentSecrets p)"

definition SetAgentSecret :: "persist_io \<Rightarrow> string \<Rightarrow> string \<Rightarrow> pstore \<Rightarrow> bus_error option \<times> pstore" where
  "SetAgentSecret io agentID secret p =
     (let agentID = TrimSpace agentID in
      if agentID = [] \<or> TrimSpace secret = [] then (None, p)
      else persist io (p\<lparr>pst_agentSecrets := AList.update agentID secret (pst_agentSecrets p)\<rparr>))"

text \<open>
  A mutation: run it on the inner store and, when it succeeded, persist; a persistence error takes the
  place of the result.
\<close>

definition mutate ::
  "persist_io \<Rightarrow> (store \<Rightarrow> (bus_error + 'r) \<times> store) \<Rightarrow> pstore \<Rightarrow> (bus_error + 'r) \<times> pstore" where
  "mutate io op p =
     (case op (pst_inner p) of
        (Inl err, s) \<Rightarrow> (Inl err, p\<lparr>pst_inner := s\<rparr>)
      | (Inr r, s) \<Rightarrow>
          (case persist io (p\<lparr>pst_inner := s\<rparr>) of
             (Some perr, p') \<Rightarrow> (Inl perr, p')
           | (None, p') \<Rightarrow> (Inr r, p')))"

definition as_result :: "bus_error option \<times> 's \<Rightarrow> (bus_error + unit) \<times> 's" where
  "as_result x = (case fst x of None \<Rightarrow> Inr () | Some err \<Rightarrow> Inl err, snd x)"

definition as_error :: "(bus_error + unit) \<times> 's \<Rightarrow> bus_error option \<times> 's" where
  "as_error x = (case fst x of Inr _ \<Rightarrow> None | Inl err \<Rightarrow> Some err, snd x)"

definition reading :: "(store \<Rightarrow> 'r \<times> store) \<Rightarrow> pstore \<Rightarrow> 'r \<times> pstore" where
  "reading op p = (case op (pst_inner p) of (r, s) \<Rightarrow> (r, p\<lparr>pst_inner := s\<rparr>))"

definition PersistentStore_RegisterAgent ::
  "persist_io \<Rightarrow> moment \<Rightarrow> register_agent_input \<Rightarrow> pstore \<Rightarrow> (bus_error + agent) \<times> pstore" where
  "PersistentStore_RegisterAgent io mo input p =
     mutate io (RegisterAgent (mo_sha256 mo) (mo_orders mo) (mo_now mo) input) p"

definition PersistentStore_CreateConversation ::
  "persist_io \<Rightarrow> moment \<Rightarrow> create_conversation_input \<Rightarrow> pstore \<Rightarrow> (bus_error + conversation) \<times> pstore" where
  "PersistentStore_CreateConversation io mo input p =
     mutate io (CreateConversation (mo_orders mo) (mo_now mo) input) p"

definition PersistentStore_SendMessage ::
  "persist_io \<Rightarrow> moment \<Rightarrow> send_message_input \<Rightarrow> pstore \<Rightarrow> (bus_error + message \<times> bool) \<times> pstore" where
  "PersistentStore_SendMessage io mo input p =
     mutate io (SendMessage (mo_orders mo) (mo_now mo) input) p"

definition PersistentStore_PollInbox ::
  "persist_io \<Rightarrow> moment \<Rightarrow> poll_inbox_input \<Rightarrow> pstore \<Rightarrow>
     (bus_error + inbox_event list \<times> int) option \<times> pstore" where
  "PersistentStore_PollInbox io mo input p =
     (let agentID = TrimSpace (pi_AgentID input); before = inbox_base (pst_inner p) agentID in
      case without_backend (pollInbox (mo_now mo) None input (mo_turns mo) (pst_inner p) ()) of
        (res, s) \<Rightarrow>
          (let after = inbox_base s agentID; p' = p\<lparr>pst_inner := s\<rparr> in
           case res of
             Some (Inr (events, cursor)) \<Rightarrow>
               (res, if length events > 0 \<or> after > before then snd (persist io p') else p')
           | _ \<Rightarrow> (res, p')))"

definition PersistentStore_Ack :: "persist_io \<Rightarrow> moment \<Rightarrow> ack_input \<Rightarrow> pstore \<Rightarrow> bus_error option \<times> pstore" where
  "PersistentStore_Ack io mo input p =
     as_error (mutate io (\<lambda>s. as_result (without_backend (ack (mo_orders mo) (mo_now mo) None input s ()))) p)"

definition PersistentStore_PostEvent :: "persist_io \<Rightarrow> moment \<Rightarrow> event_input \<Rightarrow> pstore \<Rightarrow> bus_error option \<times> pstore" where
  "PersistentStore_PostEvent io mo input p =
     as_error (mutate io (\<lambda>s. as_result (without_backend (postEvent (mo_orders mo) (mo_now mo) None input s ()))) p)"

definition PersistentStore_Inject ::
  "persist_io \<Rightarrow> moment \<Rightarrow> inject_input \<Rightarrow> pstore \<Rightarrow> (bus_error + message) \<times> pstore" where
  "PersistentStore_Inject io mo input p = mutate io (Inject (mo_orders mo) (mo_now mo) input) p"

fun with_persist_error :: "string \<Rightarrow> json \<Rightarrow> json" where
  "with_persist_error msg (JMap kvs) = JMap (if msg = [] then kvs else AList.update ''persist_error'' (JStr msg) kvs)"
| "with_persist_error msg j = j"

definition PersistentStore_Health :: "moment \<Rightarrow> pstore \<Rightarrow> json \<times> pstore" where
  "PersistentStore_Health mo p =
     (case reading (Health (mo_orders mo) (mo_now mo)) p of
        (out, p') \<Rightarrow> (with_persist_error (pst_lastPersistErr p') out, p'))"

definition PersistentStore_SystemStatus :: "moment \<Rightarrow> pstore \<Rightarrow> json \<times> pstore" where
  "PersistentStore_SystemStatus mo p =
     (case reading (SystemStatus (mo_orders mo) (mo_now mo)) p of
        (out, p') \<Rightarrow> (with_persist_error (pst_lastPersistErr p') out, p'))"

definition persistent_api :: "persist_io \<Rightarrow> moment \<Rightarrow> pstore bus_api" where
  "persistent_api io mo =
     \<lparr>api_RegisterAgent = PersistentStore_RegisterAgent io mo,
      api_ListAgents = (\<lambda>capability. reading (ListAgents (mo_orders mo) (mo_now mo) capability)),
      api_CreateConversation = PersistentStore_CreateConversation io mo,
      api_ListConversations = (\<lambda>flt. reading (ListConversations (mo_orders mo) (mo_now mo) flt)),
      api_SendMessage = PersistentStore_SendMessage io mo,
      api_PollInbox = PersistentStore_PollInbox io mo,
      api_Ack = PersistentStore_Ack io mo,
      api_PostEvent = PersistentStore_PostEvent io mo,
      api_Inject = PersistentStore_Inject io mo,
      api_ListConversationMessages = (\<lambda>input. reading (ListConversationMessages (mo_orders mo) (mo_now mo) input)),
      api_ObserveSince = (\<lambda>afterID flt wait. reading (ObserveSince (mo_now mo) afterID flt wait (mo_turns mo))),
      api_Health = PersistentStore_Health mo,
      api_Metrics = reading (Metrics (mo_orders mo) (mo_now mo)),
      api_SystemStatus = PersistentStore_SystemStatus mo,
      api_AgentSecrets = Some AgentSecrets,
      api_SetAgentSecret = Some (SetAgentSecret io),
      api_ObserveEpoch = Some (\<lambda>p. s_observeEpoch (pst_inner p))\<rparr>"

end
