(* ===== verification/Durability.thy ===== *)
theory Durability
  imports Persistent Delivery
begin

text \<open>
  The file-backed store across a crash: what the state file holds after a mutation that was
  acknowledged, and what a restart makes of it.
\<close>

section \<open>Reading the file back\<close>

lemma map_of_map_values [simp]: "map_of (map_values f m) k = map_option f (map_of m k)"
  by (induction m) (auto simp: map_values_def)

lemma keys_map_values [simp]: "map fst (map_values f m) = map fst m"
  by (auto simp: map_values_def)

lemma map_values_comp [simp]: "map_values f (map_values g m) = map_values (\<lambda>v. f (g v)) m"
  by (simp add: map_values_def comp_def case_prod_unfold)

lemma map_values_id [simp]: "map_values (\<lambda>v. v) m = m"
  by (simp add: map_values_def)

lemma get_or_map_values:
  "get_or d (map_values f m) k = (if has_key m k then f (get_or d' m k) else d)"
  by (auto simp: get_or_def has_key_def split: option.splits)

lemma has_key_map_values [simp]: "has_key (map_values f m) k = has_key m k"
  by (simp add: has_key_def)

text \<open>Every field of a message comes back, the ones hidden from the API included.\<close>

lemma toMessage_persisted [simp]:
  "toMessage ((toPersistedMessage m)\<lparr>pm_Message := json_message (pm_Message (toPersistedMessage m))\<rparr>) = m"
  by (simp add: toMessage_def toPersistedMessage_def json_message_def)

text \<open>The secrets a server hands over are stored under trimmed names and are not blank.\<close>

definition secrets_ok :: "string gomap \<Rightarrow> bool" where
  "secrets_ok m \<longleftrightarrow> keys_distinct m \<and>
     (\<forall>k v. map_of m k = Some v \<longrightarrow> k \<noteq> [] \<and> TrimSpace k = k \<and> TrimSpace v \<noteq> [])"

lemma loaded_secrets_ok:
  assumes "secrets_ok m"
  shows "map_of (loaded_secrets rk m) k = map_of m k"
proof -
  have "map_of (fold (\<lambda>k out.
         (let agentID = TrimSpace k; v = get_or [] m k in
          if agentID \<noteq> [] \<and> TrimSpace v \<noteq> [] then AList.update agentID v out else out)) ks acc) k =
      (if k \<in> set ks then map_of m k else map_of acc k)" if "set ks \<subseteq> fst ` set m" for ks acc
    using that
  proof (induction ks arbitrary: acc)
    case (Cons x ks)
    obtain v where v: "map_of m x = Some v"
      using Cons.prems by (metis list.set_intros(1) map_of_eq_None_iff not_Some_eq subsetD)
    then have "x \<noteq> []" "TrimSpace x = x" "TrimSpace v \<noteq> []" using assms by (auto simp: secrets_ok_def)
    with Cons v show ?case by (simp add: get_or_def)
  qed simp
  from this [of "range_keys rk m" "[]"] show ?thesis
    by (auto simp: loaded_secrets_def map_of_eq_None_iff split: if_splits)
       (metis map_of_eq_None_iff)
qed

section \<open>Writing the file\<close>

lemma persist_cases:
  assumes "persist io p = (r, p')"
  obtains (off) "pst_path p = []" "r = None" "p' = p"
  | (failed) e where "r = Some (OtherError e)" "p' = p\<lparr>pst_lastPersistErr := e\<rparr>"
  | (written) "pst_path p \<noteq> []" "r = None"
      "p' = p\<lparr>pst_lastPersistErr := [], pst_file := Some (json_state (stateSnapshot p))\<rparr>"
  using assms by (auto simp: persist_def split: if_splits option.splits)

lemma persist_inner [simp]:
  "pst_inner (snd (persist io p)) = pst_inner p" "pst_path (snd (persist io p)) = pst_path p"
  "pst_agentSecrets (snd (persist io p)) = pst_agentSecrets p"
  by (simp_all add: persist_def split: option.splits)

lemma stateSnapshot_written [simp]:
  "stateSnapshot (p\<lparr>pst_lastPersistErr := e, pst_file := f\<rparr>) = stateSnapshot p"
  by (simp add: stateSnapshot_def)

text \<open>A mutation that is acknowledged has left its effect in the file.\<close>

lemma mutate_durable:
  assumes "mutate io op p = (Inr r, p')" and "pst_path p \<noteq> []"
  shows "op (pst_inner p) = (Inr r, pst_inner p') \<and> pst_file p' = Some (json_state (stateSnapshot p')) \<and>
    pst_path p' = pst_path p \<and> pst_agentSecrets p' = pst_agentSecrets p"
proof -
  obtain s where op: "op (pst_inner p) = (Inr r, s)" "persist io (p\<lparr>pst_inner := s\<rparr>) = (None, p')"
    using assms(1) by (auto simp: mutate_def split: prod.splits sum.splits option.splits)
  from op(2) show ?thesis
    by (cases rule: persist_cases) (use op(1) assms(2) in auto)
qed

section \<open>Restarting\<close>

text \<open>
  What a restart brings back, and what starts afresh: the observer stream, the pushes that were queued,
  under way or waiting for the background sender, and the bookkeeping of the sweep.
\<close>

definition restored :: "pstore \<Rightarrow> pstore \<Rightarrow> bool" where
  "restored p q \<longleftrightarrow>
     s_nextMessageID (pst_inner q) = s_nextMessageID (pst_inner p) \<and>
     s_nextConversationID (pst_inner q) = s_nextConversationID (pst_inner p) \<and>
     s_agents (pst_inner q) = map_values json_agent (s_agents (pst_inner p)) \<and>
     s_conversations (pst_inner q) = s_conversations (pst_inner p) \<and>
     s_messages (pst_inner q) = s_messages (pst_inner p) \<and>
     s_conversationMessages (pst_inner q) = s_conversationMessages (pst_inner p) \<and>
     s_inboxes (pst_inner q) = s_inboxes (pst_inner p) \<and>
     s_inboxBase (pst_inner q) = s_inboxBase (pst_inner p) \<and>
     s_idempotency (pst_inner q) = s_idempotency (pst_inner p) \<and>
     s_pushSuccesses (pst_inner q) = s_pushSuccesses (pst_inner p) \<and>
     s_pushFailures (pst_inner q) = s_pushFailures (pst_inner p) \<and>
     s_observeEvents (pst_inner q) = [] \<and> s_nextObserveID (pst_inner q) = 0 \<and>
     s_pushQueue (pst_inner q) = [] \<and> s_pushInflight (pst_inner q) = [] \<and> s_pushBackground (pst_inner q) = [] \<and>
     s_sweepSkipped (pst_inner q) = 0 \<and> s_sweepRan (pst_inner q) = 0 \<and>
     (\<forall>k. map_of (pst_agentSecrets q) k = map_of (pst_agentSecrets p) k)"

lemma restart_restored:
  assumes "pst_file p = Some (json_state (stateSnapshot p))" and "pst_path p \<noteq> []"
    and "secrets_ok (pst_agentSecrets p)"
    and "NewStore rk allowlist epoch cfg = Inr s0"
    and "lio_read io = None" "lio_chmod io = None" "lio_unmarshal io = None"
  obtains q where "NewPersistentStore rk allowlist epoch io (pst_file p) (pst_path p) cfg = Inr q"
    and "restored p q" and "s_cfg (pst_inner q) = s_cfg s0"
    and "s_controlPlaneAgents (pst_inner q) = s_controlPlaneAgents s0"
    and "pst_inner q = (pst_inner (applyState rk (json_state (stateSnapshot p)) (p\<lparr>pst_inner := s0\<rparr>)))"
proof
  let ?p0 = "\<lparr>pst_inner = s0, pst_path = pst_path p, pst_agentSecrets = [], pst_lastPersistErr = [],
    pst_file = pst_file p\<rparr>"
  let ?q = "applyState rk (json_state (stateSnapshot p)) ?p0"
  show "NewPersistentStore rk allowlist epoch io (pst_file p) (pst_path p) cfg = Inr ?q"
    using assms by (simp add: NewPersistentStore_def load_state_def)
  have "s_pushQueue s0 = []" "s_pushInflight s0 = []" "s_pushBackground s0 = []" "s_sweepSkipped s0 = 0" "s_sweepRan s0 = 0"
    using assms(4) by (auto simp: NewStore_def new_store_state_def Let_def split: sum.splits option.splits)
  then show "restored p ?q"
    using loaded_secrets_ok [OF assms(3)]
    by (simp add: restored_def applyState_def json_state_def stateSnapshot_def Let_def)
  show "s_cfg (pst_inner ?q) = s_cfg s0" "s_controlPlaneAgents (pst_inner ?q) = s_controlPlaneAgents s0"
    "pst_inner ?q = (pst_inner (applyState rk (json_state (stateSnapshot p)) (p\<lparr>pst_inner := s0\<rparr>)))"
    by (simp_all add: applyState_def)
qed

lemma bus_inv_restart:
  assumes "bus_inv (pst_inner p)" and "NewStore rk allowlist epoch cfg = Inr s0"
    and "s_cfg s0 = s_cfg (pst_inner p)" and "s_controlPlaneAgents s0 = s_controlPlaneAgents (pst_inner p)"
  shows "bus_inv (pst_inner (applyState rk (json_state (stateSnapshot p)) (p\<lparr>pst_inner := s0\<rparr>)))" (is "bus_inv ?s")
proof -
  let ?t = "pst_inner p"
  have f: "s_nextConversationID ?s = s_nextConversationID ?t" "s_nextMessageID ?s = s_nextMessageID ?t"
    "s_nextObserveID ?s = 0" "s_agents ?s = map_values json_agent (s_agents ?t)"
    "s_conversations ?s = s_conversations ?t" "s_messages ?s = s_messages ?t"
    "s_conversationMessages ?s = s_conversationMessages ?t" "s_inboxes ?s = s_inboxes ?t"
    "s_inboxBytes ?s = map_values (\<lambda>evts. sum_list (map inboxEventSize evts)) (s_inboxes ?t)"
    "s_inboxBase ?s = s_inboxBase ?t" "s_observeEvents ?s = []" "s_observeBytes ?s = 0"
    "s_idempotency ?s = s_idempotency ?t" "s_cfg ?s = s_cfg ?t"
    "s_controlPlaneAgents ?s = s_controlPlaneAgents ?t"
    and fresh: "s_pushQueue ?s = s_pushQueue s0" "s_pushInflight ?s = s_pushInflight s0"
    "s_pushBackground ?s = s_pushBackground s0" "s_pushWG ?s = s_pushWG s0" "s_closedChans ?s = s_closedChans s0"
    "s_nextChan ?s = s_nextChan s0" "s_observeNotify ?s = s_observeNotify s0" "s_inboxNotify ?s = s_inboxNotify s0"
    using assms(3,4) by (simp_all add: applyState_def json_state_def stateSnapshot_def Let_def)
  have old: "config_ok (s_cfg ?t)" "inbox_inv ?t" "messages_inv ?t" "agents_inv ?t" "links_inv ?t" "idempotency_inv ?t"
    using assms(1) by (simp_all add: bus_inv_def)
  have new: "push_inv s0" "chan_inv s0" using bus_inv_new [OF assms(2)] by (simp_all add: bus_inv_def)
  have "ring_inv ?s" using old(1) by (simp add: ring_inv_def f observe_base_def config_ok_def)
  moreover have "inbox_inv ?s"
  proof -
    have "inbox_bytes ?s a = sum_list (map inboxEventSize (inbox_of ?t a))" for a
      unfolding f by (simp add: get_or_map_values [where d' = "[]"]) (simp add: has_key_def get_or_def)
    then have "inbox_ok ?s a \<longleftrightarrow> inbox_ok ?t a" if "inbox_ok ?t a" for a
      using that unfolding inbox_ok_def f(8,10,14) by simp
    with old(2) show ?thesis unfolding inbox_inv_def by blast
  qed
  moreover have "messages_inv ?s" using old(3) by (rule messages_inv_frame) (simp_all only: f)
  moreover have "agents_inv ?s"
  proof -
    have pol: "agent_ok ?s k (json_agent a) = agent_ok ?t k a" for k a
    proof -
      have "agent_ok ?s k (json_agent a) = agent_ok ?t k (json_agent a)" using f(14,15) by (rule agent_ok_frame)
      then show ?thesis by (simp add: agent_ok_def json_agent_def)
    qed
    from old(4) show ?thesis unfolding agents_inv_def f(4) using pol by auto
  qed
  moreover have "links_inv ?s" using old(5) by (rule links_inv_frame) (simp_all only: f)
  moreover have "idempotency_inv ?s" using old(6) by (rule idempotency_inv_frame) (simp_all only: f)
  moreover have "push_inv ?s" using new(1) by (rule push_inv_frame) (simp_all only: fresh f assms(3))
  moreover have "chan_inv ?s" using new(2) by (rule chan_inv_frame) (simp_all only: fresh)
  ultimately show ?thesis using old(1) unfolding bus_inv_def by (simp add: f(14))
qed

text \<open>
  C14. A state file that was written is a faithful image of what the store keeps across a restart. A
  process that starts from it with the same configuration has the same agents, conversations,
  messages with all their deadlines, conversation orders, inboxes with their positions, idempotency
  entries and secrets, goes on numbering messages and conversations where they stopped, and keeps
  the counts of pushes that succeeded and failed. What the file does not hold starts afresh: the observer stream
  is empty and numbers its events from the beginning, the pushes that were queued or under way are
  gone, the counts of sweeps restart, and the requested
  lifetime of a registration, which nothing reads again, is lost. The restarted store satisfies the
  invariant, so everything proved of running stores holds of it.
\<close>

theorem restart_roundtrip:
  assumes "bus_inv (pst_inner p)" and "secrets_ok (pst_agentSecrets p)" and "pst_path p \<noteq> []"
    and "persist io p = (None, p')"
    and "NewStore rk allowlist epoch cfg = Inr s0" and "s_cfg s0 = s_cfg (pst_inner p)"
    and "s_controlPlaneAgents s0 = s_controlPlaneAgents (pst_inner p)"
    and "lio_read lio = None" "lio_chmod lio = None" "lio_unmarshal lio = None"
  shows "\<exists>q. NewPersistentStore rk allowlist epoch lio (pst_file p') (pst_path p) cfg = Inr q \<and>
    restored p q \<and> bus_inv (pst_inner q)"
proof -
  have p': "p' = p\<lparr>pst_lastPersistErr := [], pst_file := Some (json_state (stateSnapshot p))\<rparr>"
    using assms(4) by (cases rule: persist_cases) (use assms(3) in auto)
  have "pst_file p' = Some (json_state (stateSnapshot p'))" "secrets_ok (pst_agentSecrets p')" "pst_path p' \<noteq> []"
    using assms(2,3) by (simp_all add: p')
  from restart_restored [OF this(1,3,2) assms(5,8,9,10)]
  obtain q where q: "NewPersistentStore rk allowlist epoch lio (pst_file p') (pst_path p') cfg = Inr q" "restored p' q"
    "pst_inner q = (pst_inner (applyState rk (json_state (stateSnapshot p')) (p'\<lparr>pst_inner := s0\<rparr>)))"
    by metis
  have "bus_inv (pst_inner q)"
    unfolding q(3) by (rule bus_inv_restart) (use assms(1,5,6,7) in \<open>simp_all add: p'\<close>)
  moreover have "restored p q" using q(2) by (simp add: restored_def p')
  ultimately show ?thesis using q(1) by (auto simp: p')
qed

definition ex_disk :: pstore where
  "ex_disk = \<lparr>pst_inner = ex3, pst_path = ''state.json'', pst_agentSecrets = [(''ucla.a'', ''s3cret'')],
     pst_lastPersistErr = [], pst_file = None\<rparr>"

definition io_fine :: persist_io where
  "io_fine = \<lparr>pio_marshal = None, pio_mkdir = None, pio_write = None, pio_rename = None\<rparr>"

definition load_fine :: load_io where
  "load_fine = \<lparr>lio_read = None, lio_chmod = None, lio_unmarshal = None\<rparr>"

lemma ex_policy_restart:
  "s_cfg ex0 = s_cfg ex3" "s_controlPlaneAgents ex0 = s_controlPlaneAgents ex3"
  "s_cfg ex0 = s_cfg ex2" "s_controlPlaneAgents ex0 = s_controlPlaneAgents ex2"
  using ex3_fields(1) ex2_fields(1) ex0_fields by (simp_all add: same_policy_def ex_policy_def)

lemma ex_secrets_ok: "secrets_ok [(''ucla.a'', ''s3cret'')]"
proof -
  have "TrimSpace ''s3cret'' \<noteq> []" by code_simp
  then show ?thesis by (simp add: secrets_ok_def ex_names)
qed

theorem restart_roundtrip_witness:
  "\<exists>q. NewPersistentStore (\<lambda>_. 0) [] ''e'' load_fine (pst_file (snd (persist io_fine ex_disk))) ''state.json'' ex_config = Inr q \<and>
     map_of (s_messages (pst_inner q)) ''m-000001'' = Some ex_message"
proof -
  obtain p' where p': "persist io_fine ex_disk = (None, p')"
    by (simp add: persist_def io_fine_def ex_disk_def)
  have f: "pst_inner ex_disk = ex3" "pst_path ex_disk = ''state.json''" "pst_agentSecrets ex_disk = [(''ucla.a'', ''s3cret'')]"
    by (simp_all add: ex_disk_def)
  have l: "lio_read load_fine = None" "lio_chmod load_fine = None" "lio_unmarshal load_fine = None"
    by (simp_all add: load_fine_def)
  have "\<exists>q. NewPersistentStore (\<lambda>_. 0) [] ''e'' load_fine (pst_file p') (pst_path ex_disk) ex_config = Inr q \<and>
      restored ex_disk q \<and> bus_inv (pst_inner q)"
    by (rule restart_roundtrip [OF _ _ _ p' ex0_new _ _ l])
      (simp_all only: f ex_inv ex_secrets_ok ex_policy_restart, simp)
  then obtain q where q: "NewPersistentStore (\<lambda>_. 0) [] ''e'' load_fine (pst_file p') (pst_path ex_disk) ex_config = Inr q"
    "restored ex_disk q" by blast
  have "map_of (s_messages (pst_inner q)) ''m-000001'' = Some ex_message"
    using q(2) by (simp add: restored_def f ex3_fields)
  with q(1) show ?thesis unfolding p' f snd_conv by blast
qed

end
