(* ===== verification/Http_Backends.thy ===== *)
theory Http_Backends
  imports Durability Reading
begin

text \<open>
  What the HTTP layer relies on in a store, as the locale \<open>bus_backend\<close>, and its two
  interpretations: the in-memory store and the file-backed one, each at an arbitrary moment.

  A backend has an invariant that every method keeps; a registration returns the agent under its
  trimmed identifier; a message that was accepted and is not a duplicate can be looked up and carries
  the trimmed sender; and what an observer gets past a cursor is in order and past that cursor. For the
  long polls, keeping the invariant needs that the other goroutines keep it meanwhile (\<open>moment_ok\<close>).
\<close>

section \<open>The contract\<close>

lemma sorted_map_last:
  fixes f :: "'a \<Rightarrow> int"
  assumes "sorted_wrt (<) (map f xs)" and "x \<in> set xs"
  shows "f x \<le> f (last xs)"
proof -
  obtain ys z where "xs = ys @ [z]" using assms(2) by (cases xs rule: rev_cases) auto
  with assms show ?thesis by (auto simp: sorted_wrt_append)
qed

locale bus_backend =
  fixes api :: "'s bus_api" and inv :: "'s \<Rightarrow> bool" and lookup :: "'s \<Rightarrow> string \<Rightarrow> message option"
  assumes register_name:
      "api_RegisterAgent api reg st = (Inr ag, st') \<Longrightarrow> a_AgentID ag = TrimSpace (ra_AgentID reg)"
    and sent_stored:
      "inv st \<Longrightarrow> api_SendMessage api send st = (Inr (m, False), st') \<Longrightarrow>
         m_From m = TrimSpace (sm_From send) \<and> lookup st' (m_MessageID m) = Some m"
    and observe_window:
      "inv st \<Longrightarrow> api_ObserveSince api c flt w st = (Some (evts, lastID), st') \<Longrightarrow>
         sorted_wrt (<) (map o_ID evts) \<and> (\<forall>e \<in> set evts. c < o_ID e) \<and> (evts \<noteq> [] \<longrightarrow> lastID = o_ID (last evts))"
    and keeps_register: "inv st \<Longrightarrow> inv (snd (api_RegisterAgent api reg st))"
    and keeps_agents: "inv st \<Longrightarrow> inv (snd (api_ListAgents api cap st))"
    and keeps_create: "inv st \<Longrightarrow> inv (snd (api_CreateConversation api cre st))"
    and keeps_conversations: "inv st \<Longrightarrow> inv (snd (api_ListConversations api lst st))"
    and keeps_send: "inv st \<Longrightarrow> inv (snd (api_SendMessage api send st))"
    and keeps_poll: "inv st \<Longrightarrow> inv (snd (api_PollInbox api poll st))"
    and keeps_ack: "inv st \<Longrightarrow> inv (snd (api_Ack api ak st))"
    and keeps_event: "inv st \<Longrightarrow> inv (snd (api_PostEvent api ev st))"
    and keeps_inject: "inv st \<Longrightarrow> inv (snd (api_Inject api injn st))"
    and keeps_page: "inv st \<Longrightarrow> inv (snd (api_ListConversationMessages api pg st))"
    and keeps_observe: "inv st \<Longrightarrow> inv (snd (api_ObserveSince api c flt w st))"
    and keeps_health: "inv st \<Longrightarrow> inv (snd (api_Health api st))"
    and keeps_metrics: "inv st \<Longrightarrow> inv (snd (api_Metrics api st))"
    and keeps_status: "inv st \<Longrightarrow> inv (snd (api_SystemStatus api st))"
    and keeps_secret: "api_SetAgentSecret api = Some f \<Longrightarrow> inv st \<Longrightarrow> inv (snd (f k v st))"
begin

lemmas api_keeps = keeps_register keeps_agents keeps_create keeps_conversations keeps_send keeps_poll
  keeps_ack keeps_event keeps_inject keeps_page keeps_observe keeps_health keeps_metrics keeps_status

lemma setAgentSecret_keeps:
  assumes "inv (sv_store sv)"
  shows "inv (sv_store (snd (setAgentSecret api a secret sv)))"
proof (cases "api_SetAgentSecret api")
  case None
  with assms show ?thesis by (simp add: setAgentSecret_def Let_def)
next
  case (Some f)
  from keeps_secret [OF Some assms] Some assms show ?thesis
    by (auto simp: setAgentSecret_def Let_def split: prod.splits option.splits) (metis snd_conv)+
qed

lemma handleRegisterAgent_keeps:
  assumes "inv (sv_store sv)"
  shows "inv (sv_store (snd (handleRegisterAgent api env r sv)))"
proof -
  have "inv st" if "api_RegisterAgent api i (sv_store sv) = (x, st)" for i x st
    using keeps_register [OF assms, of i] that by simp
  moreover have "inv (sv_store sv')" if "setAgentSecret api a k (sv\<lparr>sv_store := st\<rparr>) = (x, sv')" "inv st" for a k x st sv'
    using setAgentSecret_keeps [of "sv\<lparr>sv_store := st\<rparr>" a k] that by simp
  ultimately show ?thesis
    using assms
    by (auto simp: handleRegisterAgent_def Let_def split: sum.split option.split prod.split)
qed

lemma observe_stream_keeps:
  assumes "inv st" and "\<forall>a \<in> set apis. bus_backend a inv lookup"
  shows "inv (snd (observe_stream apis c flt st))"
  using assms
proof (induction apis arbitrary: c st)
  case (Cons a apis)
  have "inv st'" if "api_ObserveSince a c flt Second st = (x, st')" for x st'
    using bus_backend.keeps_observe [of a inv lookup st c flt Second] Cons.prems that by simp
  with Cons show ?case by (auto split: prod.splits option.splits) (metis snd_conv)+
qed simp

text \<open>An observer is given every event once and in order, over all the passes of its stream.\<close>

lemma observe_stream_sorted:
  assumes "inv st" and "\<forall>a \<in> set apis. bus_backend a inv lookup"
    and "observe_stream apis c flt st = (chunks, st')"
  shows "sorted_wrt (<) (map o_ID (concat (map fst chunks))) \<and> (\<forall>e \<in> set (concat (map fst chunks)). c < o_ID e)"
  using assms
proof (induction apis arbitrary: c st chunks st')
  case (Cons a apis)
  have backend: "bus_backend a inv lookup" using Cons.prems(2) by simp
  show ?case
  proof (cases "api_ObserveSince a c flt Second st")
    case (Pair r st1)
    show ?thesis
    proof (cases r)
      case (Some er)
      obtain evts lastID where er: "er = (evts, lastID)" by (cases er)
      let ?c = "if evts = [] then c else lastID"
      obtain rest st2 where rest: "observe_stream apis ?c flt st1 = (rest, st2)" by (cases "observe_stream apis ?c flt st1")
      have w: "sorted_wrt (<) (map o_ID evts)" "\<forall>e \<in> set evts. c < o_ID e" "evts \<noteq> [] \<Longrightarrow> lastID = o_ID (last evts)"
        using bus_backend.observe_window [OF backend Cons.prems(1), of c flt Second evts lastID st1]
        by (simp_all add: Pair Some er)
      have "inv st1" using bus_backend.keeps_observe [OF backend Cons.prems(1), of c flt Second] by (simp add: Pair)
      then have ih: "sorted_wrt (<) (map o_ID (concat (map fst rest)))" "\<forall>e \<in> set (concat (map fst rest)). ?c < o_ID e"
        using Cons.IH [OF _ _ rest] Cons.prems(2) by auto
      have up: "o_ID e \<le> ?c" if "e \<in> set evts" for e
        using that w(1,3) sorted_map_last [of o_ID evts] by auto
      have c: "c \<le> ?c" using w(2,3) by (cases "evts = []") (auto intro: less_imp_le)
      have out: "concat (map fst chunks) = evts @ concat (map fst rest)"
        using Cons.prems(3) by (auto simp: Pair Some er rest simp del: map_append)
      have sep: "o_ID e < o_ID e'" if "e \<in> set evts" "e' \<in> set (concat (map fst rest))" for e e'
        using up [OF that(1)] ih(2) that(2) by (meson le_less_trans)
      have past: "c < o_ID e'" if "e' \<in> set (concat (map fst rest))" for e'
        using c ih(2) that by (meson le_less_trans)
      show ?thesis
        unfolding out map_append sorted_wrt_append set_append
        using w(1,2) ih(1) sep past by (simp add: ball_Un del: set_concat)
    qed (use Cons.prems(3) Pair in auto)
  qed
qed simp

text \<open>Whatever the request, the server's store keeps its invariant.\<close>

lemma ServeHTTP_keeps:
  assumes "inv (sv_store sv)" and "\<forall>a \<in> set passes. bus_backend a inv lookup"
  shows "inv (sv_store (snd (ServeHTTP api env cf passes r sv)))"
proof -
  have "inv (sv_store (snd (handleListAgents api r sv)))" "inv (sv_store (snd (create_conversation api env r sv)))"
    "inv (sv_store (snd (list_conversations api env r sv)))" "inv (sv_store (snd (handleConversationMessages api env r sv)))"
    "inv (sv_store (snd (handleMessages api env r sv)))" "inv (sv_store (snd (handleInbox api env r sv)))"
    "inv (sv_store (snd (handleAcks api env r sv)))" "inv (sv_store (snd (handleEvents api env r sv)))"
    "inv (sv_store (snd (handleInject api env r sv)))" "inv (sv_store (snd (handleTopLevelHealth api r sv)))"
    "inv (sv_store (snd (handleMetrics api r sv)))" "inv (sv_store (snd (handleHealth api r sv)))"
    "inv (sv_store (snd (handleSystemStatus api r sv)))"
    using assms(1) api_keeps [OF assms(1)]
    by (auto simp: handleListAgents_def create_conversation_def list_conversations_def
        handleConversationMessages_def handleMessages_def handleInbox_def handleAcks_def handleEvents_def
        handleInject_def handleTopLevelHealth_def handleMetrics_def handleHealth_def handleSystemStatus_def Let_def
        split: sum.split option.split prod.split dest!: arg_cong [where f = snd])
  moreover have "inv (sv_store (snd (handleObserve api env cf passes r sv)))"
    using assms observe_stream_keeps [OF assms]
    by (auto simp: handleObserve_def split: sum.split prod.split) (metis snd_conv)
  ultimately show ?thesis
    using assms(1) handleRegisterAgent_keeps [OF assms(1)]
    by (simp add: ServeHTTP_def answered_def handleConversations_def split: option.split endpoint.split)
qed

end

section \<open>The long polls\<close>

definition turn_ok :: "unit turn \<Rightarrow> bool" where
  "turn_ok t \<longleftrightarrow> (\<forall>x. bus_inv (fst x) \<longrightarrow> bus_inv (fst (tn_others t x)))"

definition moment_ok :: "moment \<Rightarrow> bool" where
  "moment_ok mo \<longleftrightarrow> (\<forall>t \<in> set (mo_turns mo). turn_ok t)"

lemma keeps_inv: "keeps s s' \<Longrightarrow> bus_inv s \<Longrightarrow> bus_inv s'"
  by (simp add: keeps_def)

lemma poll_loop_inv:
  assumes "bus_inv s" and "\<forall>t \<in> set ts. turn_ok t"
  shows "bus_inv (fst (snd (poll_loop advance input deadline wait ts s ())))"
  using assms
proof (induction ts arbitrary: s)
  case (Cons t ts)
  let ?r = "poll_turn (tn_orders t) (tn_now t) (tn_later t) advance input deadline wait s ()"
  have i: "bus_inv (fst (snd ?r))" using keeps_poll_turn Cons.prems(1) by (rule keeps_inv)
  have ok: "turn_ok t" "\<forall>t \<in> set ts. turn_ok t" using Cons.prems(2) by simp_all
  have o: "bus_inv (fst (tn_others t (snd ?r)))" using i ok(1) unfolding turn_ok_def by blast
  show ?case
  proof -
    obtain r s' where r: "?r = (r, s', ())" by (cases ?r) auto
    obtain s'' where o': "tn_others t (s', ()) = (s'', ())" by (cases "tn_others t (s', ())") auto
    show ?thesis using i o Cons.IH [OF _ ok(2), of s''] by (cases r) (simp_all add: r o')
  qed
qed simp

lemma observe_select_window:
  assumes "bus_inv s" and "observe_select s c flt = (out, lastID)"
  shows "sorted_wrt (<) (map o_ID out) \<and> (\<forall>e \<in> set out. c < o_ID e) \<and> (out \<noteq> [] \<longrightarrow> lastID = o_ID (last out))"
proof -
  have r: "ring_inv s" using assms(1) by (simp add: bus_inv_def)
  have "sorted_wrt (\<lambda>a b. o_ID a < o_ID b) (s_observeEvents s)"
    using ring_ids [OF r] by (simp add: sorted_wrt_iff_nth_less)
  then have s: "sorted_wrt (<) (map o_ID (filter P (s_observeEvents s)))" for P
    by (simp add: sorted_wrt_map sorted_wrt_filter)
  have "out = filter (\<lambda>e. c < o_ID e \<and> eventMatchesFilter s e flt) (s_observeEvents s)"
    "out \<noteq> [] \<Longrightarrow> lastID = o_ID (last out)"
    using assms(2) observe_search [OF r, of c] by (auto simp: observe_select_filter Let_def)
  with s show ?thesis by auto
qed

lemma observe_loop_inv:
  assumes "bus_inv s" and "\<forall>t \<in> set ts. turn_ok t"
  shows "bus_inv (snd (observe_loop c flt deadline wait ts s))"
  using assms
proof (induction ts arbitrary: s)
  case (Cons t ts)
  let ?r = "observe_turn (tn_orders t) (tn_now t) (tn_later t) c flt deadline wait s"
  have i: "bus_inv (snd ?r)" using keeps_reads(5) Cons.prems(1) by (rule keeps_inv)
  have ok: "turn_ok t" "\<forall>t \<in> set ts. turn_ok t" using Cons.prems(2) by simp_all
  have o: "bus_inv (fst (tn_others t (snd ?r, ())))" using i ok(1) unfolding turn_ok_def by (metis fst_conv)
  show ?case
  proof -
    obtain r s' where r: "?r = (r, s')" by (cases ?r) auto
    show ?thesis using i o Cons.IH [OF _ ok(2)] by (cases r) (simp_all add: r Let_def)
  qed
qed simp

lemma observe_loop_window:
  assumes "bus_inv s" and "\<forall>t \<in> set ts. turn_ok t"
    and "observe_loop c flt deadline wait ts s = (Some (evts, lastID), s')"
  shows "sorted_wrt (<) (map o_ID evts) \<and> (\<forall>e \<in> set evts. c < o_ID e) \<and> (evts \<noteq> [] \<longrightarrow> lastID = o_ID (last evts))"
  using assms
proof (induction ts arbitrary: s)
  case (Cons t ts)
  let ?s1 = "sweepLocked (tn_orders t) (tn_now t) s"
  have i: "bus_inv ?s1" using keeps_sweepLocked Cons.prems(1) by (rule keeps_inv)
  obtain out l where sel: "observe_select ?s1 c flt = (out, l)" by (cases "observe_select ?s1 c flt")
  have ok: "turn_ok t" "\<forall>t \<in> set ts. turn_ok t" using Cons.prems(2) by simp_all
  have o: "bus_inv (fst (tn_others t (?s1, ())))" using i ok(1) unfolding turn_ok_def by (metis fst_conv)
  show ?case
    using Cons.IH [OF o ok(2)] Cons.prems(3) observe_select_window [OF i sel]
    by (auto simp: observe_turn_def Let_def sel split: if_splits)
qed simp

section \<open>The in-memory store\<close>

lemma register_returns:
  "RegisterAgent sha256 R now input s = (Inr ag, s') \<Longrightarrow> a_AgentID ag = TrimSpace (ra_AgentID input)"
  by (auto simp: RegisterAgent_def registered_agent_def Let_def split: option.splits)

lemma send_stored:
  assumes "SendMessage R now input s = (Inr (m, False), s')"
  shows "m_From m = TrimSpace (sm_From input) \<and> map_of (s_messages s') (m_MessageID m) = Some m"
proof -
  have "sendMessage R now (None :: unit barrier) input s () = (Inr (m, False), s', ())"
    using assms by (auto simp: SendMessage_def split: prod.splits)
  then obtain target acc acc' where ok: "send_plan now input target (sweepLocked R now s) = Inr acc"
    "run_barrier (None :: unit barrier) acc () = (Inr acc', ())" "m = sa_message acc'"
    "s' = accept_send now acc' (sweepLocked R now s)"
    by (rule sendMessage_accepted) auto
  have acc: "acc' = acc" using ok(2) by (simp add: run_barrier_def)
  obtain conv :: conversation where "sa_message acc = route_message now target
      (new_message now input (c_ConversationID conv) (s_nextMessageID (sweepLocked R now s) + 1) (sweepLocked R now s))
      (sweepLocked R now s)"
    using ok(1) by (rule send_plan_fields) blast
  then show ?thesis using ok(3,4) by (simp add: acc accept_send_tables)
qed

lemma memory_keeps:
  fixes mo :: moment
  assumes "bus_inv s"
  shows "bus_inv (snd (api_RegisterAgent (memory_api mo) reg s))" "bus_inv (snd (api_ListAgents (memory_api mo) cap s))"
    "bus_inv (snd (api_CreateConversation (memory_api mo) cre s))" "bus_inv (snd (api_ListConversations (memory_api mo) lst s))"
    "bus_inv (snd (api_SendMessage (memory_api mo) send s))" "bus_inv (snd (api_Ack (memory_api mo) ak s))"
    "bus_inv (snd (api_PostEvent (memory_api mo) ev s))" "bus_inv (snd (api_Inject (memory_api mo) ij s))"
    "bus_inv (snd (api_ListConversationMessages (memory_api mo) pg s))" "bus_inv (snd (api_Health (memory_api mo) s))"
    "bus_inv (snd (api_Metrics (memory_api mo) s))" "bus_inv (snd (api_SystemStatus (memory_api mo) s))"
    and "moment_ok mo \<Longrightarrow> bus_inv (snd (api_PollInbox (memory_api mo) poll s))"
    and "moment_ok mo \<Longrightarrow> bus_inv (snd (api_ObserveSince (memory_api mo) c flt w s))"
proof -
  note k = assms [THEN keeps_inv [rotated]]
  show "bus_inv (snd (api_RegisterAgent (memory_api mo) reg s))" "bus_inv (snd (api_CreateConversation (memory_api mo) cre s))"
    by (simp_all add: memory_api_def k keeps_RegisterAgent keeps_CreateConversation)
  show "bus_inv (snd (api_ListAgents (memory_api mo) cap s))" "bus_inv (snd (api_ListConversations (memory_api mo) lst s))"
    "bus_inv (snd (api_ListConversationMessages (memory_api mo) pg s))"
    by (simp_all add: memory_api_def k keeps_reads)
  show "bus_inv (snd (api_SendMessage (memory_api mo) send s))"
    using keeps_sendMessage [of s "mo_orders mo" "mo_now mo" "None :: unit barrier" send "()"]
    by (simp add: memory_api_def SendMessage_def case_prod_unfold k)
  show "bus_inv (snd (api_Inject (memory_api mo) ij s))"
    using keeps_inject [of s "mo_orders mo" "mo_now mo" "None :: unit barrier" ij "()"]
    by (simp add: memory_api_def Inject_def case_prod_unfold k)
  show "bus_inv (snd (api_Ack (memory_api mo) ak s))" "bus_inv (snd (api_PostEvent (memory_api mo) ev s))"
    by (simp_all add: memory_api_def without_backend_def k keeps_ack keeps_postEvent)
  have "bus_inv (snd (snapshotCounts (mo_orders mo) (mo_now mo) s))" by (simp add: k keeps_reads)
  then show "bus_inv (snd (api_Health (memory_api mo) s))" "bus_inv (snd (api_Metrics (memory_api mo) s))"
    "bus_inv (snd (api_SystemStatus (memory_api mo) s))"
    by (simp_all add: memory_api_def Health_def Metrics_def SystemStatus_def case_prod_unfold Let_def)
  show "bus_inv (snd (api_PollInbox (memory_api mo) poll s))" if "moment_ok mo"
    using that assms poll_loop_inv
    by (auto simp: memory_api_def pollInbox_def without_backend_def moment_ok_def Let_def split: option.split)
  show "bus_inv (snd (api_ObserveSince (memory_api mo) c flt w s))" if "moment_ok mo"
    using that assms observe_loop_inv by (auto simp: memory_api_def ObserveSince_def moment_ok_def Let_def)
qed

lemma memory_backend:
  assumes "moment_ok mo"
  shows "bus_backend (memory_api mo) bus_inv (\<lambda>s. map_of (s_messages s))"
proof (unfold_locales, goal_cases)
  case (1 reg st ag st')
  then show ?case by (auto simp: memory_api_def intro: register_returns)
next
  case (2 st send m st')
  then show ?case using send_stored by (auto simp: memory_api_def)
next
  case (3 st c flt w evts lastID st')
  then show ?case
    using assms observe_loop_window [of st "mo_turns mo"]
    by (simp add: memory_api_def ObserveSince_def moment_ok_def Let_def)
qed (simp_all add: memory_keeps assms, simp add: memory_api_def)

interpretation memory: bus_backend "memory_api mo" "\<lambda>s. moment_ok mo \<and> bus_inv s" "\<lambda>s. map_of (s_messages s)" for mo
proof (unfold_locales, goal_cases)
  case (1 reg st ag st')
  then show ?case by (auto simp: memory_api_def intro: register_returns)
next
  case (2 st send m st')
  then show ?case using send_stored by (auto simp: memory_api_def)
next
  case (3 st c flt w evts lastID st')
  then show ?case
    using observe_loop_window [of st "mo_turns mo"]
    by (simp add: memory_api_def ObserveSince_def moment_ok_def Let_def)
qed (simp_all add: memory_keeps, simp add: memory_api_def)

section \<open>The file-backed store\<close>

lemma mutate_inner:
  "fst (mutate io op p) = Inr x \<Longrightarrow> op (pst_inner p) = (Inr x, pst_inner (snd (mutate io op p)))"
  "pst_inner (snd (mutate io op p)) = snd (op (pst_inner p))"
proof -
  have "pst_inner p' = s" if "persist io (p\<lparr>pst_inner := s\<rparr>) = (r, p')" for s r p'
    using persist_inner(1) [of io "p\<lparr>pst_inner := s\<rparr>"] that by simp
  then show "fst (mutate io op p) = Inr x \<Longrightarrow> op (pst_inner p) = (Inr x, pst_inner (snd (mutate io op p)))"
    "pst_inner (snd (mutate io op p)) = snd (op (pst_inner p))"
    by (auto simp: mutate_def split: prod.splits sum.splits option.splits)
qed

lemma reading_inner [simp]:
  "fst (reading op p) = fst (op (pst_inner p))" "pst_inner (snd (reading op p)) = snd (op (pst_inner p))"
  by (simp_all add: reading_def split: prod.splits)

lemma persistent_poll_inner:
  "pst_inner (snd (PersistentStore_PollInbox io mo input p)) = snd (api_PollInbox (memory_api mo) input (pst_inner p))"
  by (simp add: PersistentStore_PollInbox_def memory_api_def Let_def split: prod.split option.split sum.split)

lemma persistent_inner:
  fixes io :: persist_io and mo :: moment
  defines "papi \<equiv> persistent_api io mo" and "mapi \<equiv> memory_api mo"
  shows "pst_inner (snd (api_RegisterAgent papi reg p)) = snd (api_RegisterAgent mapi reg (pst_inner p))"
    "pst_inner (snd (api_ListAgents papi cap p)) = snd (api_ListAgents mapi cap (pst_inner p))"
    "pst_inner (snd (api_CreateConversation papi cre p)) = snd (api_CreateConversation mapi cre (pst_inner p))"
    "pst_inner (snd (api_ListConversations papi lst p)) = snd (api_ListConversations mapi lst (pst_inner p))"
    "pst_inner (snd (api_SendMessage papi send p)) = snd (api_SendMessage mapi send (pst_inner p))"
    "pst_inner (snd (api_PollInbox papi poll p)) = snd (api_PollInbox mapi poll (pst_inner p))"
    "pst_inner (snd (api_Ack papi ak p)) = snd (api_Ack mapi ak (pst_inner p))"
    "pst_inner (snd (api_PostEvent papi ev p)) = snd (api_PostEvent mapi ev (pst_inner p))"
    "pst_inner (snd (api_Inject papi ij p)) = snd (api_Inject mapi ij (pst_inner p))"
    "pst_inner (snd (api_ListConversationMessages papi pg p)) = snd (api_ListConversationMessages mapi pg (pst_inner p))"
    "pst_inner (snd (api_ObserveSince papi c flt w p)) = snd (api_ObserveSince mapi c flt w (pst_inner p))"
    "pst_inner (snd (api_Health papi p)) = snd (api_Health mapi (pst_inner p))"
    "pst_inner (snd (api_Metrics papi p)) = snd (api_Metrics mapi (pst_inner p))"
    "pst_inner (snd (api_SystemStatus papi p)) = snd (api_SystemStatus mapi (pst_inner p))"
  unfolding papi_def mapi_def
  by (simp_all add: persistent_api_def PersistentStore_RegisterAgent_def PersistentStore_CreateConversation_def
      PersistentStore_SendMessage_def PersistentStore_Ack_def PersistentStore_PostEvent_def PersistentStore_Inject_def
      PersistentStore_Health_def PersistentStore_SystemStatus_def mutate_inner(2) persistent_poll_inner
      as_error_def as_result_def case_prod_unfold)
    (simp_all add: memory_api_def)

interpretation persistent: bus_backend "persistent_api io mo" "\<lambda>p. moment_ok mo \<and> bus_inv (pst_inner p)"
  "\<lambda>p. map_of (s_messages (pst_inner p))" for io mo
proof (unfold_locales, goal_cases)
  case (1 reg st ag st')
  then have "RegisterAgent (mo_sha256 mo) (mo_orders mo) (mo_now mo) reg (pst_inner st) = (Inr ag, pst_inner st')"
    using mutate_inner(1) [of io "RegisterAgent (mo_sha256 mo) (mo_orders mo) (mo_now mo) reg" st ag]
    by (simp add: persistent_api_def PersistentStore_RegisterAgent_def)
  then show ?case by (rule register_returns)
next
  case (2 st send m st')
  then have "SendMessage (mo_orders mo) (mo_now mo) send (pst_inner st) = (Inr (m, False), pst_inner st')"
    using mutate_inner(1) [of io "SendMessage (mo_orders mo) (mo_now mo) send" st "(m, False)"]
    by (simp add: persistent_api_def PersistentStore_SendMessage_def)
  then show ?case by (rule send_stored)
next
  case (3 st c flt w evts lastID st')
  then have "ObserveSince (mo_now mo) c flt w (mo_turns mo) (pst_inner st) = (Some (evts, lastID), pst_inner st')"
    by (auto simp: persistent_api_def reading_def split: prod.splits)
  with 3 show ?case
    using observe_loop_window [of "pst_inner st" "mo_turns mo"] by (simp add: ObserveSince_def moment_ok_def Let_def)
next
  case (18 f st k v)
  then show ?case by (auto simp: persistent_api_def SetAgentSecret_def Let_def)
qed (simp_all add: memory_keeps persistent_inner)

end
