(* ===== verification/Http_Safety.thy ===== *)
theory Http_Safety
  imports Http_Backends
begin

text \<open>
  The HTTP layer on top of a store: who may do what, how secrets are protected, what an answer
  promises, and what an observer's stream looks like.
\<close>

section \<open>Who may act\<close>

definition observer :: "http_env \<Rightarrow> 's server \<Rightarrow> http_request \<Rightarrow> bool" where
  "observer env sv r \<longleftrightarrow> validObserveToken sv r \<or>
     signed_by (he_hmac env) sv (header_get r ''X-Agent-ID'') (header_get r ''X-Bus-Signature'') (rq_RawQuery r)"

text \<open>
  The credential each endpoint asks for: a signature with the registered secret of the agent the request
  acts for, or an operator's token. Lists of agents, health and metrics are public.
\<close>

definition may_act :: "http_env \<Rightarrow> 's server \<Rightarrow> http_request \<Rightarrow> bool" where
  "may_act env sv r =
     (case route (rq_Path r) of
        None \<Rightarrow> False
      | Some RegisterAgentEndpoint \<Rightarrow>
          (\<exists>blob req. decode_body sv r (he_register env) = Inr (blob, req) \<and>
             isAgentAllowed sv (TrimSpace (rr_AgentID req)) \<and> TrimSpace (rr_Secret req) \<noteq> [] \<and>
             (\<forall>cur. map_of (sv_agentSecrets sv) (TrimSpace (rr_AgentID req)) = Some cur \<longrightarrow>
                TrimSpace cur = [] \<or> cur = rr_Secret req \<or>
                signed_by (he_hmac env) sv (rr_AgentID req) (header_get r ''X-Bus-Signature'') blob))
      | Some ConversationsEndpoint \<Rightarrow>
          (if rq_Method r = ''POST'' then
             (\<exists>blob. readBody sv r = Inr blob \<and>
                (validInjectToken sv r \<or>
                 signed_by (he_hmac env) sv (header_get r ''X-Agent-ID'') (header_get r ''X-Bus-Signature'') blob))
           else observer env sv r)
      | Some ConversationMessagesEndpoint \<Rightarrow> observer env sv r
      | Some MessagesEndpoint \<Rightarrow>
          (\<exists>blob req. decode_body sv r (he_message env) = Inr (blob, req) \<and>
             signed_by (he_hmac env) sv (mr_From req) (header_get r ''X-Bus-Signature'') blob)
      | Some InboxEndpoint \<Rightarrow>
          signed_by (he_hmac env) sv (query_value r ''agent_id'') (header_get r ''X-Bus-Signature'') (rq_RawQuery r)
      | Some AcksEndpoint \<Rightarrow>
          (\<exists>blob req. decode_body sv r (he_ack env) = Inr (blob, req) \<and>
             signed_by (he_hmac env) sv (kr_AgentID req) (header_get r ''X-Bus-Signature'') blob)
      | Some EventsEndpoint \<Rightarrow>
          (\<exists>blob req. decode_body sv r (he_event env) = Inr (blob, req) \<and>
             signed_by (he_hmac env) sv (header_get r ''X-Agent-ID'') (header_get r ''X-Bus-Signature'') blob)
      | Some ObserveEndpoint \<Rightarrow> observer env sv r
      | Some InjectEndpoint \<Rightarrow> validInjectToken sv r
      | Some _ \<Rightarrow> True)"

definition refusals :: "int set" where
  "refusals = {400, 401, 403, 404, 405, 409, 413}"

definition refused :: "http_response \<Rightarrow> bool" where
  "refused resp \<longleftrightarrow> rs_Status resp \<in> refusals"

lemma refused_writes [simp]:
  "refused (status_only 404)" "refused (status_only 405)"
  "refused (writeBusError (unauthorized msg))" "refused (writeBusError (forbiddenError msg))"
  "refused (writeBusError (NewValidationJSONError msg))"
  by (simp_all add: refused_def refusals_def status_only_def unauthorized_def forbiddenError_def
      NewValidationJSONError_def newError_def writeJSON_def Let_def)

lemma refused_body:
  "readBody sv r = Inl err \<Longrightarrow> refused (writeBusError (busErrorOrValidation err))"
  "decode_body sv r dec = Inl resp \<Longrightarrow> refused resp"
proof -
  show body: "refused (writeBusError (busErrorOrValidation err))" if "readBody sv r = Inl err" for err
    using that
    by (auto simp: readBody_def refused_def refusals_def NewValidationJSONError_def newError_def writeJSON_def Let_def
        split: option.splits if_splits)
  show "refused resp" if "decode_body sv r dec = Inl resp"
    using that body by (auto simp: decode_body_def split: sum.splits)
qed

lemma refused_signature:
  "verifySignature hmac sv a sig payload = Some err \<Longrightarrow> refused (writeBusError err)"
  by (auto dest!: verifySignature_status)

lemma verifyObserveAuth_refused:
  "\<not> observer env sv r \<Longrightarrow> \<exists>err. verifyObserveAuth (he_hmac env) sv r = Inl err \<and> refused (writeBusError err)"
  by (auto simp: observer_def verifyObserveAuth_def Let_def verifySignature_None refused_signature split: option.split)

lemma unsigned_refused:
  "\<not> signed_by hmac sv a sig payload \<Longrightarrow>
     \<exists>err. verifySignature hmac sv a sig payload = Some err \<and> refused (writeBusError err)"
  using verifySignature_None [of hmac sv a sig payload] refused_signature by fastforce

lemma handleInbox_refuses:
  assumes "\<not> may_act env sv r" and "route (rq_Path r) = Some InboxEndpoint"
  shows "snd (handleInbox api env r sv) = sv \<and> (\<exists>resp. fst (handleInbox api env r sv) = Some resp \<and> refused resp)"
proof -
  have "\<not> signed_by (he_hmac env) sv (TrimSpace (query_value r ''agent_id'')) (header_get r ''X-Bus-Signature'') (rq_RawQuery r)"
    using assms by (simp add: may_act_def)
  from unsigned_refused [OF this] show ?thesis by (auto simp: handleInbox_def Let_def)
qed

lemma handleMessages_refuses:
  assumes "\<not> may_act env sv r" and "route (rq_Path r) = Some MessagesEndpoint"
  shows "snd (handleMessages api env r sv) = sv \<and> refused (fst (handleMessages api env r sv))"
proof (cases "decode_body sv r (he_message env)")
  case (Inr x)
  then have "\<not> signed_by (he_hmac env) sv (mr_From (snd x)) (header_get r ''X-Bus-Signature'') (fst x)"
    using assms by (cases x) (simp add: may_act_def)
  from unsigned_refused [OF this] Inr show ?thesis by (cases x) (auto simp: handleMessages_def Let_def)
qed (simp add: handleMessages_def refused_body)

lemma handleAcks_refuses:
  assumes "\<not> may_act env sv r" and "route (rq_Path r) = Some AcksEndpoint"
  shows "snd (handleAcks api env r sv) = sv \<and> refused (fst (handleAcks api env r sv))"
proof (cases "decode_body sv r (he_ack env)")
  case (Inr x)
  then have "\<not> signed_by (he_hmac env) sv (kr_AgentID (snd x)) (header_get r ''X-Bus-Signature'') (fst x)"
    using assms by (cases x) (simp add: may_act_def)
  from unsigned_refused [OF this] Inr show ?thesis by (cases x) (auto simp: handleAcks_def Let_def)
qed (simp add: handleAcks_def refused_body)

lemma handleEvents_refuses:
  assumes "\<not> may_act env sv r" and "route (rq_Path r) = Some EventsEndpoint"
  shows "snd (handleEvents api env r sv) = sv \<and> refused (fst (handleEvents api env r sv))"
proof (cases "decode_body sv r (he_event env)")
  case (Inr x)
  then have "\<not> signed_by (he_hmac env) sv (TrimSpace (header_get r ''X-Agent-ID'')) (header_get r ''X-Bus-Signature'') (fst x)"
    using assms by (cases x) (simp add: may_act_def)
  from unsigned_refused [OF this] Inr show ?thesis by (cases x) (auto simp: handleEvents_def Let_def)
qed (simp add: handleEvents_def refused_body)

lemma observing_refused:
  assumes "\<not> may_act env sv r"
  shows "route (rq_Path r) = Some ObserveEndpoint \<Longrightarrow>
      snd (handleObserve api env cf passes r sv) = sv \<and> refused (fst (handleObserve api env cf passes r sv))"
    and "route (rq_Path r) = Some ConversationMessagesEndpoint \<Longrightarrow>
      snd (handleConversationMessages api env r sv) = sv \<and> refused (fst (handleConversationMessages api env r sv))"
  using assms verifyObserveAuth_refused [of env sv r]
  by (auto simp: may_act_def handleObserve_def handleConversationMessages_def Let_def)

lemma handleConversations_refuses:
  assumes "\<not> may_act env sv r" and "route (rq_Path r) = Some ConversationsEndpoint"
  shows "snd (handleConversations api env r sv) = sv \<and> refused (fst (handleConversations api env r sv))"
proof (cases "rq_Method r = ''POST''")
  case True
  have "\<exists>err. verifyConversationCreateAuth (he_hmac env) sv r blob = Inl err \<and> refused (writeBusError err)"
    if "readBody sv r = Inr blob" for blob
    using assms True that
    by (auto simp: may_act_def verifyConversationCreateAuth_def Let_def verifySignature_None refused_signature
        split: option.split)
  with True show ?thesis
    by (auto simp: handleConversations_def create_conversation_def refused_body split: sum.split)
next
  case False
  with assms verifyObserveAuth_refused [of env sv r] show ?thesis
    by (auto simp: may_act_def handleConversations_def list_conversations_def)
qed

lemma handleRegisterAgent_refuses:
  assumes "\<not> may_act env sv r" and "route (rq_Path r) = Some RegisterAgentEndpoint"
  shows "snd (handleRegisterAgent api env r sv) = sv \<and> refused (fst (handleRegisterAgent api env r sv))"
proof (cases "decode_body sv r (he_register env)")
  case (Inr x)
  obtain blob req where x: "x = (blob, req)" by (cases x)
  have "isAgentAllowed sv (TrimSpace (rr_AgentID req)) \<Longrightarrow> TrimSpace (rr_Secret req) \<noteq> [] \<Longrightarrow>
    \<exists>err. verifyReregistrationProof (he_hmac env) sv (TrimSpace (rr_AgentID req)) (rr_Secret req) blob
        (header_get r ''X-Bus-Signature'') = Some err \<and> refused (writeBusError err)"
    using assms Inr x
    by (auto simp: may_act_def verifyReregistrationProof_def currentAgentSecret_def verifySignature_None
        refused_def refusals_def writeJSON_def split: option.split)
  then show ?thesis
    by (auto simp: handleRegisterAgent_def Inr x Let_def) (auto simp: refused_def refusals_def writeJSON_def)
qed (simp add: handleRegisterAgent_def refused_body)

lemmas handlers_refuse = handleInbox_refuses handleMessages_refuses handleAcks_refuses handleEvents_refuses
  handleConversations_refuses handleRegisterAgent_refuses

text \<open>
  C22. Nobody acts without a credential. A request that is not backed by what its endpoint asks for (the
  secret of the agent it names, an operator token, for a registration the allowlist and the proof of the
  current secret) is answered with a client error and leaves the server as it was: the store is not even
  called. This holds for every store, every JSON decoder and every HMAC function.
\<close>

theorem http_needs_credential:
  assumes "\<not> may_act env sv r"
  shows "snd (ServeHTTP api env cf passes r sv) = sv \<and>
    (\<exists>resp. fst (ServeHTTP api env cf passes r sv) = Some resp \<and> refused resp)"
  using handlers_refuse [OF assms, of api] observing_refused [OF assms, of api] assms
  by (auto simp: ServeHTTP_def answered_def may_act_def handleInject_def split: option.split endpoint.split)

section \<open>A server for the examples\<close>

definition ex_env :: http_env where
  "ex_env = \<lparr>he_hmac = (\<lambda>key payload. key),
     he_register = (\<lambda>blob. Inr \<lparr>rr_AgentID = ''ucla.a'', rr_AllowedScopes = [], rr_SharedGrants = [],
        rr_Capabilities = [], rr_Version = [], rr_Description = [], rr_AgentClass = [], rr_MutationClass = [],
        rr_Build = None, rr_Meta = None, rr_Mode = [], rr_CallbackURL = [], rr_TTL = 60, rr_Secret = ''N''\<rparr>),
     he_conversation = (\<lambda>blob. Inl ''none''),
     he_message = (\<lambda>blob. Inr \<lparr>mr_To = ''ucla.b'', mr_From = ''ucla.a'', mr_ConversationID = [], mr_RequestID = ''r1'',
        mr_Type = [], mr_Body = ''hi'', mr_Meta = JNull, mr_Attachments = [], mr_TTL = 0, mr_InReplyTo = []\<rparr>),
     he_ack = (\<lambda>blob. Inl ''none''), he_event = (\<lambda>blob. Inl ''none''), he_inject = (\<lambda>blob. Inl ''none'')\<rparr>"

definition ex_server :: "'s \<Rightarrow> 's server" where
  "ex_server st = \<lparr>sv_store = st, sv_agentSecrets = [(''ucla.a'', ''Z'')], sv_agentAllowset = [],
     sv_injectTokens = [], sv_observeTokens = [], sv_maxBodyBytes = 0\<rparr>"

definition ex_post :: "string \<Rightarrow> http_request" where
  "ex_post sig = \<lparr>rq_Method = ''POST'', rq_Path = ''/v1/messages'', rq_RawQuery = [],
     rq_Header = [(''X-Bus-Signature'', sig)], rq_Body = Some (''x'', None)\<rparr>"

lemma ex_post_route: "route (rq_Path (ex_post sig)) = Some MessagesEndpoint"
  by (simp add: ex_post_def) code_simp

lemma ex_post_decode:
  "decode_body (ex_server st) (ex_post sig) (he_message ex_env) = Inr (''x'', \<lparr>mr_To = ''ucla.b'', mr_From = ''ucla.a'',
     mr_ConversationID = [], mr_RequestID = ''r1'', mr_Type = [], mr_Body = ''hi'', mr_Meta = JNull,
     mr_Attachments = [], mr_TTL = 0, mr_InReplyTo = []\<rparr>)"
  by (simp add: decode_body_def readBody_def ex_server_def ex_post_def ex_env_def)

lemma ex_post_signed:
  "signed_by (he_hmac ex_env) (ex_server st) ''ucla.a'' (header_get (ex_post sig) ''X-Bus-Signature'') ''x'' \<longleftrightarrow>
     signature_bytes sig = Some ''Z''"
proof -
  have "TrimSpace ''Z'' \<noteq> []" by code_simp
  then show ?thesis by (simp add: signed_by_def ex_names ex_server_def ex_env_def header_get_def ex_post_def)
qed

theorem http_needs_credential_witness:
  "snd (ServeHTTP (memory_api \<lparr>mo_sha256 = id, mo_orders = ex_orders, mo_now = ex_time, mo_turns = []\<rparr>) ex_env True []
     (ex_post ''5b'') (ex_server ex2)) = ex_server ex2"
proof -
  have "signature_bytes ''5b'' = Some ''[''" by code_simp
  then have "\<not> may_act ex_env (ex_server ex2) (ex_post ''5b'')"
    by (simp add: may_act_def ex_post_route ex_post_decode ex_post_signed)
  from http_needs_credential [OF this] show ?thesis by blast
qed

section \<open>Secrets\<close>

lemma secrets_elsewhere:
  "sv_agentSecrets (snd (handleListAgents api r sv)) = sv_agentSecrets sv"
  "sv_agentSecrets (snd (handleConversations api env r sv)) = sv_agentSecrets sv"
  "sv_agentSecrets (snd (handleConversationMessages api env r sv)) = sv_agentSecrets sv"
  "sv_agentSecrets (snd (handleMessages api env r sv)) = sv_agentSecrets sv"
  "sv_agentSecrets (snd (handleInbox api env r sv)) = sv_agentSecrets sv"
  "sv_agentSecrets (snd (handleAcks api env r sv)) = sv_agentSecrets sv"
  "sv_agentSecrets (snd (handleEvents api env r sv)) = sv_agentSecrets sv"
  "sv_agentSecrets (snd (handleObserve api env cf passes r sv)) = sv_agentSecrets sv"
  "sv_agentSecrets (snd (handleInject api env r sv)) = sv_agentSecrets sv"
  "sv_agentSecrets (snd (handleTopLevelHealth api r sv)) = sv_agentSecrets sv"
  "sv_agentSecrets (snd (handleMetrics api r sv)) = sv_agentSecrets sv"
  "sv_agentSecrets (snd (handleHealth api r sv)) = sv_agentSecrets sv"
  "sv_agentSecrets (snd (handleSystemStatus api r sv)) = sv_agentSecrets sv"
  by (auto simp: handleListAgents_def handleConversations_def create_conversation_def list_conversations_def
      handleConversationMessages_def handleMessages_def handleInbox_def handleAcks_def handleEvents_def
      handleObserve_def handleInject_def handleTopLevelHealth_def handleMetrics_def handleHealth_def
      handleSystemStatus_def Let_def split: sum.split option.split prod.split)

lemma setAgentSecret_secrets:
  "map_of (sv_agentSecrets (snd (setAgentSecret api a secret sv))) k \<in>
     {map_of (sv_agentSecrets sv) k, if k = TrimSpace a then Some secret else map_of (sv_agentSecrets sv) k}"
  by (auto simp: setAgentSecret_def Let_def split: prod.split option.split)

context bus_backend
begin

text \<open>Only a registration changes a secret, and only that of the agent it registers.\<close>

lemma register_changes_secret:
  assumes "map_of (sv_agentSecrets (snd (handleRegisterAgent api env r sv))) k \<noteq> map_of (sv_agentSecrets sv) k"
  obtains blob req where "decode_body sv r (he_register env) = Inr (blob, req)" and "k = TrimSpace (rr_AgentID req)"
    and "verifyReregistrationProof (he_hmac env) sv k (rr_Secret req) blob (header_get r ''X-Bus-Signature'') = None"
    and "map_of (sv_agentSecrets (snd (handleRegisterAgent api env r sv))) k = Some (rr_Secret req)"
proof -
  obtain blob req where d: "decode_body sv r (he_register env) = Inr (blob, req)"
    using assms by (cases "decode_body sv r (he_register env)") (auto simp: handleRegisterAgent_def split: if_splits)
  let ?k = "TrimSpace (rr_AgentID req)"
  have proof_ok: "verifyReregistrationProof (he_hmac env) sv ?k (rr_Secret req) blob (header_get r ''X-Bus-Signature'') = None"
    using assms by (auto simp: handleRegisterAgent_def d Let_def split: if_splits option.splits)
  obtain i ag st where reg: "api_RegisterAgent api i (sv_store sv) = (Inr ag, st)" "ra_AgentID i = ?k"
    and res: "map_of (sv_agentSecrets (snd (handleRegisterAgent api env r sv))) k =
      map_of (sv_agentSecrets (snd (setAgentSecret api (a_AgentID ag) (rr_Secret req) (sv\<lparr>sv_store := st\<rparr>)))) k"
    using assms
    by (auto simp: handleRegisterAgent_def d Let_def split: if_splits option.splits prod.splits sum.splits)
  have "TrimSpace (a_AgentID ag) = ?k" using register_name [OF reg(1)] reg(2) by simp
  then have "k = ?k \<and> map_of (sv_agentSecrets (snd (handleRegisterAgent api env r sv))) k = Some (rr_Secret req)"
    using assms res setAgentSecret_secrets [of api "a_AgentID ag" "rr_Secret req" "sv\<lparr>sv_store := st\<rparr>" k]
    by (auto split: if_splits)
  with d proof_ok that show thesis by metis
qed

lemma secret_change:
  assumes "map_of (sv_agentSecrets sv) a = Some cur" and "TrimSpace cur \<noteq> []"
    and "map_of (sv_agentSecrets (snd (ServeHTTP api env cf passes r sv))) a \<noteq> Some cur"
  shows "\<exists>blob req. route (rq_Path r) = Some RegisterAgentEndpoint \<and>
    decode_body sv r (he_register env) = Inr (blob, req) \<and> TrimSpace (rr_AgentID req) = a \<and>
    signed_by (he_hmac env) sv a (header_get r ''X-Bus-Signature'') blob"
proof -
  have ep: "route (rq_Path r) = Some RegisterAgentEndpoint"
    using assms(1,3)
    by (auto simp: ServeHTTP_def answered_def secrets_elsewhere split: option.splits endpoint.splits)
  then have reg: "map_of (sv_agentSecrets (snd (handleRegisterAgent api env r sv))) a \<noteq> map_of (sv_agentSecrets sv) a"
    using assms(1,3) by (simp add: ServeHTTP_def answered_def)
  from reg obtain blob req where c: "decode_body sv r (he_register env) = Inr (blob, req)" "a = TrimSpace (rr_AgentID req)"
    "verifyReregistrationProof (he_hmac env) sv a (rr_Secret req) blob (header_get r ''X-Bus-Signature'') = None"
    "map_of (sv_agentSecrets (snd (handleRegisterAgent api env r sv))) a = Some (rr_Secret req)"
    by (rule register_changes_secret)
  have "currentAgentSecret sv a = Some cur" using assms(1) c(2) by (simp add: currentAgentSecret_def)
  moreover have "cur \<noteq> rr_Secret req" using reg c(4) assms(1) by simp
  ultimately have "signed_by (he_hmac env) sv a (header_get r ''X-Bus-Signature'') blob"
    using c(3) assms(2) by (auto simp: verifyReregistrationProof_def verifySignature_None split: option.splits)
  with ep c(1,2) show ?thesis by blast
qed

end

definition ex_moment :: moment where
  "ex_moment = \<lparr>mo_sha256 = id, mo_orders = ex_orders, mo_now = ex_time, mo_turns = []\<rparr>"

lemma ex_http_register:
  assumes "i = (ex_register ''ucla.a'')\<lparr>ra_Secret := secret\<rparr>" and "same_policy s"
  shows "\<exists>ag s'. RegisterAgent id ex_orders ex_time i s = (Inr ag, s') \<and> same_policy s'"
proof -
  let ?s = "sweepLocked ex_orders ex_time s"
  have pol: "same_policy s" "same_policy ?s" using assms(2) by (simp_all add: same_policy_sweep)
  have "normalizeScopes [] = Inr []" "normalizeSharedGrants [] = Inr []" by code_simp+
  then have check: "register_check id i s = None"
    by (simp add: assms(1) register_check_def register_mode_def ex_register_def Let_def ex_names
        same_policy_eval [OF pol(1)] ex_policy_names)
  have "TrimSpace (ra_AgentID i) = ''ucla.a''" by (simp add: assms(1) ex_register_def ex_names)
  then have "isl (fst (RegisterAgent id ex_orders ex_time i s)) = False"
    by (simp add: RegisterAgent_def check Let_def registered_agent_def same_policy_eval [OF pol(2)] ex_policy_names)
  moreover have "same_policy (snd (RegisterAgent id ex_orders ex_time i s))"
    using assms(2) by (simp add: RegisterAgent_def same_policy_def Let_def install_agent_def split: option.split)
  ultimately show ?thesis by (metis isl_def prod.collapse sum.exhaust_sel snd_conv)
qed

section \<open>What an answer promises\<close>

abbreviation accepted_answer :: "string \<Rightarrow> http_response" where
  "accepted_answer mid \<equiv>
     writeJSON 200 (JMap [(''ok'', JBool True), (''message_id'', JStr mid), (''duplicate'', JBool False)])"

lemma writeBusError_not_ok: "writeBusError err \<noteq> writeJSON st (JMap ((''ok'', JBool True) # rest))"
  by (cases err) (auto simp: writeJSON_def Let_def)

lemma writeJSON_inj: "writeJSON st j = writeJSON st' j' \<longleftrightarrow> st = st' \<and> j = j'"
  by (simp add: writeJSON_def)

lemma handleMessages_accepted:
  assumes "handleMessages api env r sv = (accepted_answer mid, sv')"
  obtains blob req m st where "decode_body sv r (he_message env) = Inr (blob, req)"
    and "signed_by (he_hmac env) sv (mr_From req) (header_get r ''X-Bus-Signature'') blob"
    and "api_SendMessage api
       \<lparr>sm_To = mr_To req, sm_From = mr_From req, sm_ConversationID = mr_ConversationID req,
        sm_RequestID = mr_RequestID req, sm_Type = message_type_of (mr_Type req),
        sm_Body = mr_Body req, sm_Meta = mr_Meta req, sm_Attachments = mr_Attachments req,
        sm_TTLSeconds = mr_TTL req, sm_InReplyTo = mr_InReplyTo req\<rparr> (sv_store sv) = (Inr (m, False), st)"
    and "m_MessageID m = mid" and "sv' = sv\<lparr>sv_store := st\<rparr>"
proof -
  have verb: "rq_Method r = ''POST''"
    using assms by (auto simp: handleMessages_def status_only_def writeJSON_def split: if_splits)
  obtain blob req where d: "decode_body sv r (he_message env) = Inr (blob, req)"
  proof (cases "decode_body sv r (he_message env)")
    case (Inl resp)
    then have "refused resp" by (rule refused_body)
    with assms Inl show ?thesis by (auto simp: handleMessages_def verb refused_def refusals_def writeJSON_def)
  qed auto
  have sig: "verifySignature (he_hmac env) sv (mr_From req) (header_get r ''X-Bus-Signature'') blob = None"
    using assms by (auto simp: handleMessages_def verb d writeBusError_not_ok split: option.splits)
  then have sd: "signed_by (he_hmac env) sv (mr_From req) (header_get r ''X-Bus-Signature'') blob"
    by (simp add: verifySignature_None)
  from assms show thesis
    by (auto simp: handleMessages_def verb d sig writeBusError_not_ok writeJSON_inj split: prod.splits sum.splits
        intro!: that [OF d sd])
qed

text \<open>
  C24. What a success answer to a message means, from the wire to the disk. When the server runs on the
  file-backed store and answers that a message was accepted as new, then the sender named in the body
  signed that body with its registered secret, and a process that crashes right then and restarts from
  the state file has the message, from that sender, under the identifier in the answer.
\<close>

theorem http_send_survives_crash:
  assumes "bus_inv (pst_inner (sv_store sv))" and "secrets_ok (pst_agentSecrets (sv_store sv))"
    and "pst_path (sv_store sv) \<noteq> []" and "rq_Path r = ''/v1/messages''"
    and "ServeHTTP (persistent_api io mo) env cf passes r sv = (Some (accepted_answer mid), sv')"
    and "NewStore rk allowlist epoch cfg = Inr s0"
    and "lio_read lio = None" "lio_chmod lio = None" "lio_unmarshal lio = None"
  shows "\<exists>blob req m q. decode_body sv r (he_message env) = Inr (blob, req) \<and>
    signed_by (he_hmac env) sv (mr_From req) (header_get r ''X-Bus-Signature'') blob \<and>
    NewPersistentStore rk allowlist epoch lio (pst_file (sv_store sv')) (pst_path (sv_store sv)) cfg = Inr q \<and>
    map_of (s_messages (pst_inner q)) mid = Some m \<and> m_From m = TrimSpace (mr_From req)"
proof -
  have "route (rq_Path r) = Some MessagesEndpoint" unfolding assms(4) by code_simp
  then have "handleMessages (persistent_api io mo) env r sv = (accepted_answer mid, sv')"
    using assms(5) by (simp add: ServeHTTP_def answered_def prod_eq_iff)
  then obtain blob req m st where h: "decode_body sv r (he_message env) = Inr (blob, req)"
    "signed_by (he_hmac env) sv (mr_From req) (header_get r ''X-Bus-Signature'') blob"
    "PersistentStore_SendMessage io mo \<lparr>sm_To = mr_To req, sm_From = mr_From req, sm_ConversationID = mr_ConversationID req,
        sm_RequestID = mr_RequestID req, sm_Type = message_type_of (mr_Type req),
        sm_Body = mr_Body req, sm_Meta = mr_Meta req, sm_Attachments = mr_Attachments req,
        sm_TTLSeconds = mr_TTL req, sm_InReplyTo = mr_InReplyTo req\<rparr> (sv_store sv) = (Inr (m, False), st)"
    "m_MessageID m = mid" "sv' = sv\<lparr>sv_store := st\<rparr>"
    by (rule handleMessages_accepted) (simp add: persistent_api_def)
  note durable = mutate_durable [OF h(3) [unfolded PersistentStore_SendMessage_def] assms(3)]
  then have stored: "map_of (s_messages (pst_inner st)) mid = Some m" "m_From m = TrimSpace (mr_From req)"
    using send_stored h(4) by auto
  have "secrets_ok (pst_agentSecrets st)" "pst_path st \<noteq> []" using durable assms(2,3) by simp_all
  from restart_restored [OF _ this(2,1) assms(6-9)] durable
  obtain q where "NewPersistentStore rk allowlist epoch lio (pst_file st) (pst_path st) cfg = Inr q" "restored st q"
    by metis
  with stored h durable show ?thesis by (auto simp: restored_def)
qed

lemma ex_post_accepted:
  assumes "api_SendMessage api ex_send st = (Inr (ex_message, False), st')"
  shows "ServeHTTP api ex_env True [] (ex_post ''5a'') (ex_server st) =
    (Some (accepted_answer ''m-000001''), (ex_server st)\<lparr>sv_store := st'\<rparr>)"
proof -
  have sig: "signature_bytes ''5a'' = Some ''Z''" "TrimSpace ''5a'' = ''5a''" by code_simp+
  have vs: "verifySignature (he_hmac ex_env) (ex_server st) ''ucla.a'' (header_get (ex_post ''5a'') ''X-Bus-Signature'') ''x'' = None"
    by (simp add: verifySignature_None ex_post_signed sig) (simp add: ex_post_def header_get_def sig)
  have ty: "message_type_of [] = MessageTypeOther []" by (simp add: message_type_of_def)
  have "api_SendMessage api \<lparr>sm_To = ''ucla.b'', sm_From = ''ucla.a'', sm_ConversationID = [],
      sm_RequestID = ''r1'', sm_Type = message_type_of [], sm_Body = ''hi'', sm_Meta = JNull, sm_Attachments = [],
      sm_TTLSeconds = 0, sm_InReplyTo = []\<rparr> (sv_store (ex_server st)) = (Inr (ex_message, False), st')"
    using assms unfolding ty by (simp add: ex_send_def ex_server_def)
  then have "handleMessages api ex_env (ex_post ''5a'') (ex_server st) =
      (accepted_answer ''m-000001'', (ex_server st)\<lparr>sv_store := st'\<rparr>)"
    by (simp add: handleMessages_def ex_post_decode vs) (simp add: ex_post_def ex_message_def)
  then show ?thesis by (simp add: ServeHTTP_def ex_post_route answered_def)
qed

theorem http_send_survives_crash_witness:
  "\<exists>sv' q. ServeHTTP (persistent_api io_fine ex_moment) ex_env True [] (ex_post ''5a'') (ex_server (ex_disk\<lparr>pst_inner := ex2\<rparr>)) =
       (Some (accepted_answer ''m-000001''), sv') \<and>
     NewPersistentStore (\<lambda>_. 0) [] ''e'' load_fine (pst_file (sv_store sv')) ''state.json'' ex_config = Inr q \<and>
     (\<exists>m. map_of (s_messages (pst_inner q)) ''m-000001'' = Some m \<and> m_From m = ''ucla.a'')"
proof -
  let ?sv = "ex_server (ex_disk\<lparr>pst_inner := ex2\<rparr>)" and ?api = "persistent_api io_fine ex_moment"
  obtain s where s: "SendMessage ex_orders ex_time ex_send ex2 = (Inr (ex_message, False), s)"
    by (simp add: SendMessage_def ex_send_eval run_barrier_def Let_def ex_acceptance_def)
  obtain st where "api_SendMessage ?api ex_send (ex_disk\<lparr>pst_inner := ex2\<rparr>) = (Inr (ex_message, False), st)"
    by (simp add: persistent_api_def PersistentStore_SendMessage_def mutate_def ex_moment_def ex_disk_def
        s persist_def io_fine_def)
  then have served: "ServeHTTP ?api ex_env True [] (ex_post ''5a'') ?sv =
      (Some (accepted_answer ''m-000001''), ?sv\<lparr>sv_store := st\<rparr>)"
    by (rule ex_post_accepted)
  have pre: "bus_inv (pst_inner (sv_store ?sv))" "secrets_ok (pst_agentSecrets (sv_store ?sv))"
    "pst_path (sv_store ?sv) = ''state.json''" "rq_Path (ex_post ''5a'') = ''/v1/messages''"
    "lio_read load_fine = None" "lio_chmod load_fine = None" "lio_unmarshal load_fine = None"
    by (simp_all add: ex_server_def ex_disk_def ex_inv ex_secrets_ok ex_post_def load_fine_def)
  have "pst_path (sv_store ?sv) \<noteq> []" by (simp add: pre)
  from http_send_survives_crash [OF pre(1,2) this pre(4) served ex0_new pre(5-7)] served show ?thesis
    by (auto simp: ex_post_decode pre(3) ex_names)
qed

section \<open>Observation streams\<close>

text \<open>
  An observation stream over HTTP never repeats and never reorders an event: whatever the other
  goroutines do to the store while the handler waits, the identifiers of the events written over all
  its passes strictly increase, and all lie past the cursor the client resumed from. So a client that
  reconnects with the identifier of the last event it saw misses nothing it was sent and sees nothing
  twice.
\<close>

theorem observe_stream_once:
  assumes "bus_inv s" and "\<forall>mo \<in> set mos. moment_ok mo"
    and "observe_stream (map memory_api mos) c flt s = (chunks, s')"
  shows "sorted_wrt (<) (c # map o_ID (concat (map fst chunks)))"
proof (cases mos)
  case Nil
  with assms(3) show ?thesis by simp
next
  case (Cons mo rest)
  have "\<forall>a \<in> set (map memory_api mos). bus_backend a bus_inv (\<lambda>s. map_of (s_messages s))"
    using assms(2) by (auto intro: memory_backend)
  moreover have "moment_ok mo" using assms(2) Cons by simp
  ultimately show ?thesis
    using bus_backend.observe_stream_sorted [OF memory_backend assms(1) _ assms(3)] by auto
qed

definition ex_watch :: moment where
  "ex_watch = ex_moment\<lparr>mo_turns := [\<lparr>tn_orders = ex_orders, tn_now = ex_time, tn_later = ex_time,
     tn_others = id, tn_timer = True\<rparr>]\<rparr>"

theorem observe_stream_once_witness:
  "\<exists>events chunks s'. observe_stream (map memory_api [ex_watch, ex_watch]) 0
       \<lparr>of_ConversationID = [], of_AgentID = [], of_ActorAgentID = []\<rparr> ex2 = ((events, sse_chunk events) # chunks, s') \<and>
     events \<noteq> [] \<and> sorted_wrt (<) (0 # map o_ID (events @ concat (map fst chunks)))"
proof -
  let ?flt = "\<lparr>of_ConversationID = [], of_AgentID = [], of_ActorAgentID = []\<rparr>"
  have sw: "sweepLocked ex_orders ex_time ex2 = ex2\<lparr>s_sweepSkipped := Suc (s_sweepSkipped ex2)\<rparr>"
    using ex2_fields(1,2) by (intro ex_skip) (auto simp: same_policy_def ex_policy_def)
  let ?s = "ex2\<lparr>s_sweepSkipped := Suc (s_sweepSkipped ex2)\<rparr>"
  have "bus_inv ?s" using keeps_sweepLocked ex_inv(3) by (metis keeps_inv sw)
  then have ring: "ring_inv ?s" by (simp add: bus_inv_def)
  have ids: "0 < o_ID e" if "e \<in> set (s_observeEvents ?s)" for e
    using ring that by (auto simp: ring_inv_def in_set_conv_nth)
  obtain lastID where "observe_select ?s 0 ?flt = (s_observeEvents ex2, lastID)"
    using observe_search [OF ring, of 0] ids
    by (auto simp: observe_select_filter Let_def eventMatchesFilter_def actorCanAccessAllNames_def)
  then have first: "api_ObserveSince (memory_api ex_watch) 0 ?flt Second ex2 = (Some (s_observeEvents ex2, lastID), ?s)"
    by (simp add: memory_api_def ex_watch_def ex_moment_def ObserveSince_def Let_def observe_turn_def sw ex2_fields)
  obtain chunks s' where "observe_stream [memory_api ex_watch] lastID ?flt ?s = (chunks, s')"
    by (cases "observe_stream [memory_api ex_watch] lastID ?flt ?s")
  with first have st: "observe_stream (map memory_api [ex_watch, ex_watch]) 0 ?flt ex2 =
      ((s_observeEvents ex2, sse_chunk (s_observeEvents ex2)) # chunks, s')"
    using ex2_fields(15) by simp
  have "\<forall>mo \<in> set [ex_watch, ex_watch]. moment_ok mo" by (simp add: moment_ok_def ex_watch_def turn_ok_def)
  from observe_stream_once [OF ex_inv(3) this st] st show ?thesis
    using ex2_fields(15) by (intro exI [of _ "s_observeEvents ex2"] exI [of _ chunks] exI [of _ s']) simp
qed

end
