(* ===== verification/Http_Register.thy ===== *)
theory Http_Register
  imports Http_Safety
begin

text \<open>
  Registrations that run at the same time. The handler of \<^verbatim>\<open>POST /v1/agents/register\<close> takes and releases
  locks several times: to read the allowlist, to read the current secret, to read it again when a signature
  has to be verified, in the store's registration, when the store writes the secret, and when the server
  puts it into its own table. \<open>register_step\<close> is one such section, \<open>register_phase\<close> what the handler
  knows between two of them, and \<open>http_step\<close> the server with any number of registrations under way, other
  requests and changes of the store in between. Run without interruption the sections are the handler
  (\<open>phases_compose\<close>).
\<close>

section \<open>The sections of the handler\<close>

datatype register_phase =
    Reg_Arrived
  | Reg_Admitted string register_request
  | Reg_Disputed string register_request
  | Reg_Cleared register_request
  | Reg_Stored register_request agent
  | Reg_Persisted register_request agent
  | Reg_Answered http_response

definition register_input :: "register_request \<Rightarrow> register_agent_input" where
  "register_input req =
     \<lparr>ra_AgentID = TrimSpace (rr_AgentID req), ra_Secret = rr_Secret req,
      ra_AllowedScopes = rr_AllowedScopes req, ra_SharedGrants = rr_SharedGrants req,
      ra_Capabilities = rr_Capabilities req, ra_Version = rr_Version req,
      ra_Description = rr_Description req, ra_AgentClass = rr_AgentClass req,
      ra_MutationClass = rr_MutationClass req, ra_Build = rr_Build req,
      ra_Meta = rr_Meta req, ra_Mode = agent_mode_of (rr_Mode req),
      ra_CallbackURL = rr_CallbackURL req, ra_TTLSeconds = rr_TTL req\<rparr>"

definition registered_answer :: "agent \<Rightarrow> http_response" where
  "registered_answer agent =
     writeJSON 200 (JMap [(''ok'', JBool True), (''agent_id'', JStr (a_AgentID agent)),
                          (''expires_at'', JTime (a_ExpiresAt agent))])"

fun register_step ::
  "'s bus_api \<Rightarrow> http_env \<Rightarrow> http_request \<Rightarrow> register_phase \<Rightarrow> 's server \<Rightarrow> register_phase \<times> 's server" where
  "register_step api env r Reg_Arrived sv =
     (if rq_Method r \<noteq> ''POST'' then (Reg_Answered (status_only 405), sv)
      else (case decode_body sv r (he_register env) of
        Inl resp \<Rightarrow> (Reg_Answered resp, sv)
      | Inr (blob, req) \<Rightarrow>
          if \<not> isAgentAllowed sv (TrimSpace (rr_AgentID req)) then
            (Reg_Answered (writeBusError (unauthorized ''agent_id not allowlisted'')), sv)
          else if TrimSpace (rr_Secret req) = [] then
            (Reg_Answered (writeBusError (BusError \<lparr>e_Code = CodeValidation, e_Message = ''secret is required'',
               e_Transient = False, e_RetryAfter = 0, e_Status = 400\<rparr>)), sv)
          else (Reg_Admitted blob req, sv)))"
| "register_step api env r (Reg_Admitted blob req) sv =
     (case currentAgentSecret sv (TrimSpace (rr_AgentID req)) of
        None \<Rightarrow> (Reg_Cleared req, sv)
      | Some currentSecret \<Rightarrow>
          if TrimSpace currentSecret = [] \<or> currentSecret = rr_Secret req then (Reg_Cleared req, sv)
          else (Reg_Disputed blob req, sv))"
| "register_step api env r (Reg_Disputed blob req) sv =
     (case verifySignature (he_hmac env) sv (TrimSpace (rr_AgentID req)) (header_get r ''X-Bus-Signature'') blob of
        Some _ \<Rightarrow>
          (Reg_Answered (writeBusError (BusError \<lparr>e_Code = CodeRejected,
             e_Message = ''re-registration requires proof of current secret'',
             e_Transient = False, e_RetryAfter = 0, e_Status = 409\<rparr>)), sv)
      | None \<Rightarrow> (Reg_Cleared req, sv))"
| "register_step api env r (Reg_Cleared req) sv =
     (case api_RegisterAgent api (register_input req) (sv_store sv) of
        (Inl err, st) \<Rightarrow> (Reg_Answered (writeBusError err), sv\<lparr>sv_store := st\<rparr>)
      | (Inr agent, st) \<Rightarrow> (Reg_Stored req agent, sv\<lparr>sv_store := st\<rparr>))"
| "register_step api env r (Reg_Stored req agent) sv =
     (let agentID = TrimSpace (a_AgentID agent) in
      if agentID = [] \<or> TrimSpace (rr_Secret req) = [] then (Reg_Answered (registered_answer agent), sv)
      else (case (case api_SetAgentSecret api of
                    None \<Rightarrow> (None, sv_store sv)
                  | Some set_secret \<Rightarrow> set_secret agentID (rr_Secret req) (sv_store sv)) of
              (Some err, st) \<Rightarrow>
                (Reg_Answered (writeBusError (wrap_error ''persist agent secret: '' err)), sv\<lparr>sv_store := st\<rparr>)
            | (None, st) \<Rightarrow> (Reg_Persisted req agent, sv\<lparr>sv_store := st\<rparr>)))"
| "register_step api env r (Reg_Persisted req agent) sv =
     (Reg_Answered (registered_answer agent),
      sv\<lparr>sv_agentSecrets := AList.update (TrimSpace (a_AgentID agent)) (rr_Secret req) (sv_agentSecrets sv)\<rparr>)"
| "register_step api env r (Reg_Answered resp) sv = (Reg_Answered resp, sv)"

text \<open>Sections that run one after the other without interruption.\<close>

fun run_sections ::
  "'s bus_api \<Rightarrow> http_env \<Rightarrow> http_request \<Rightarrow> nat \<Rightarrow> register_phase \<Rightarrow> 's server \<Rightarrow> register_phase \<times> 's server" where
  "run_sections api env r 0 phase sv = (phase, sv)"
| "run_sections api env r (Suc n) phase sv =
     (case register_step api env r phase sv of (phase', sv') \<Rightarrow> run_sections api env r n phase' sv')"

lemma run_sections_answered [simp]: "run_sections api env r n (Reg_Answered resp) sv = (Reg_Answered resp, sv)"
  by (induction n) simp_all

lemma run_sections_cleared:
  "run_sections api env r (Suc (Suc (Suc n))) (Reg_Cleared req) sv =
     (case api_RegisterAgent api (register_input req) (sv_store sv) of
        (Inl err, st) \<Rightarrow> (Reg_Answered (writeBusError err), sv\<lparr>sv_store := st\<rparr>)
      | (Inr agent, st) \<Rightarrow>
          (case setAgentSecret api (a_AgentID agent) (rr_Secret req) (sv\<lparr>sv_store := st\<rparr>) of
             (Some err, sv') \<Rightarrow> (Reg_Answered (writeBusError err), sv')
           | (None, sv') \<Rightarrow> (Reg_Answered (registered_answer agent), sv')))"
  by (auto simp: setAgentSecret_def Let_def split: prod.splits sum.splits option.splits)

text \<open>Six sections without interruption are the handler.\<close>

lemma phases_compose:
  "run_sections api env r 6 Reg_Arrived sv =
     (Reg_Answered (fst (handleRegisterAgent api env r sv)), snd (handleRegisterAgent api env r sv))"
proof (cases "rq_Method r = ''POST''")
  case post: True
  show ?thesis
  proof (cases "decode_body sv r (he_register env)")
    case (Inl resp)
    then show ?thesis by (simp add: eval_nat_numeral handleRegisterAgent_def post)
  next
    case (Inr x)
    obtain blob req where x: "x = (blob, req)" by (cases x)
    let ?k = "TrimSpace (rr_AgentID req)"
    show ?thesis
    proof (cases "isAgentAllowed sv ?k \<and> TrimSpace (rr_Secret req) \<noteq> []")
      case False
      then show ?thesis by (auto simp: eval_nat_numeral handleRegisterAgent_def post Inr x Let_def)
    next
      case True
      let ?proof = "verifyReregistrationProof (he_hmac env) sv ?k (rr_Secret req) blob (header_get r ''X-Bus-Signature'')"
      have admitted: "run_sections api env r 6 Reg_Arrived sv = run_sections api env r (Suc (Suc (Suc (Suc (Suc 0))))) (Reg_Admitted blob req) sv"
        using True by (simp add: eval_nat_numeral post Inr x del: run_sections.simps(2)) (simp add: post Inr x)
      have checked: "run_sections api env r (Suc (Suc (Suc (Suc (Suc 0))))) (Reg_Admitted blob req) sv =
          (case ?proof of Some err \<Rightarrow> (Reg_Answered (writeBusError err), sv)
           | None \<Rightarrow> run_sections api env r (Suc (Suc (Suc 0))) (Reg_Cleared req) sv)"
      proof -
        have step: "run_sections api env r (Suc n) ph sv = (case register_step api env r ph sv of (ph', sv') \<Rightarrow> run_sections api env r n ph' sv')"
          for n ph by simp
        have longer: "run_sections api env r (Suc (Suc (Suc (Suc 0)))) (Reg_Cleared req) sv =
            run_sections api env r (Suc (Suc (Suc 0))) (Reg_Cleared req) sv"
          by (simp only: run_sections_cleared)
        show ?thesis unfolding verifyReregistrationProof_def
          by (simp add: step [of "Suc (Suc (Suc (Suc 0)))"] step [of "Suc (Suc (Suc 0))" "Reg_Disputed blob req"] longer
              del: run_sections.simps(2) split: option.split)
      qed
      show ?thesis unfolding admitted checked run_sections_cleared
        using True
        by (simp add: handleRegisterAgent_def post Inr x Let_def register_input_def registered_answer_def
            split: option.split prod.split sum.split)
    qed
  qed
qed (simp add: eval_nat_numeral handleRegisterAgent_def)

section \<open>The server\<close>

type_synonym 's http_config = "(nat \<Rightarrow> (http_request \<times> register_phase) option) \<times> 's server"

text \<open>
  \<open>apis\<close> are the interfaces of the store at its moments: its clock, its I/O and its map orders may differ
  from one call to the next. A request to another endpoint is served, and the store and the allowlist may
  change at any moment, by other goroutines.
\<close>

inductive http_step :: "('s bus_api \<Rightarrow> bool) \<Rightarrow> http_env \<Rightarrow> 's http_config \<Rightarrow> 's http_config \<Rightarrow> bool" for apis env where
  arrive: "ts i = None \<Longrightarrow> route (rq_Path r) = Some RegisterAgentEndpoint \<Longrightarrow>
     http_step apis env (ts, sv) (ts(i \<mapsto> (r, Reg_Arrived)), sv)"
| advance: "apis api \<Longrightarrow> ts i = Some (r, phase) \<Longrightarrow> register_step api env r phase sv = (phase', sv') \<Longrightarrow>
     http_step apis env (ts, sv) (ts(i \<mapsto> (r, phase')), sv')"
| serve: "apis api \<Longrightarrow> route (rq_Path r) \<noteq> Some RegisterAgentEndpoint \<Longrightarrow>
     http_step apis env (ts, sv) (ts, snd (ServeHTTP api env cf passes r sv))"
| others: "http_step apis env (ts, sv) (ts, sv\<lparr>sv_store := st, sv_agentAllowset := allowset\<rparr>)"

abbreviation secret_in :: "'s http_config \<Rightarrow> string \<Rightarrow> string option" where
  "secret_in c a \<equiv> map_of (sv_agentSecrets (snd c)) a"

text \<open>A server from its start, with no registration under way.\<close>

definition server_run :: "('s bus_api \<Rightarrow> bool) \<Rightarrow> http_env \<Rightarrow> (nat \<Rightarrow> 's http_config) \<Rightarrow> bool" where
  "server_run apis env run \<longleftrightarrow> (\<forall>i. fst (run 0) i = None) \<and> (\<forall>n. http_step apis env (run n) (run (Suc n)))"

text \<open>A goroutine finishes its registration of an agent by putting the secret into the server's table.\<close>

definition installs :: "'s http_config \<Rightarrow> 's http_config \<Rightarrow> nat \<Rightarrow> http_request \<Rightarrow> register_request \<Rightarrow> string \<Rightarrow> bool" where
  "installs c c' i r req a \<longleftrightarrow>
     (\<exists>agent resp. fst c i = Some (r, Reg_Persisted req agent) \<and> fst c' i = Some (r, Reg_Answered resp) \<and>
        TrimSpace (a_AgentID agent) = a) \<and> secret_in c' a = Some (rr_Secret req)"

text \<open>A goroutine passes the check of its registration: nothing to prove, or the proof.\<close>

definition passes_check :: "http_env \<Rightarrow> 's http_config \<Rightarrow> 's http_config \<Rightarrow> nat \<Rightarrow> http_request \<Rightarrow> string \<Rightarrow> register_request \<Rightarrow> bool" where
  "passes_check env c c' i r blob req \<longleftrightarrow>
     fst c i \<in> {Some (r, Reg_Admitted blob req), Some (r, Reg_Disputed blob req)} \<and> fst c' i = Some (r, Reg_Cleared req) \<and>
     (case secret_in c (TrimSpace (rr_AgentID req)) of
        None \<Rightarrow> True
      | Some seen \<Rightarrow> TrimSpace seen = [] \<or> seen = rr_Secret req \<or>
          signature_bytes (header_get r ''X-Bus-Signature'') = Some (he_hmac env seen blob))"


section \<open>What one step does to a registration\<close>

lemma other_requests_keep_secrets:
  "route (rq_Path r) \<noteq> Some RegisterAgentEndpoint \<Longrightarrow>
     sv_agentSecrets (snd (ServeHTTP api env cf passes r sv)) = sv_agentSecrets sv"
  by (auto simp: ServeHTTP_def answered_def secrets_elsewhere split: option.split endpoint.split)

lemma register_step_secrets:
  assumes "register_step api env r phase sv = (phase', sv')"
  shows "sv_agentSecrets sv' = (case phase of
      Reg_Persisted req agent \<Rightarrow> AList.update (TrimSpace (a_AgentID agent)) (rr_Secret req) (sv_agentSecrets sv)
    | _ \<Rightarrow> sv_agentSecrets sv)"
  using assms by (cases phase) (auto simp: Let_def split: if_splits option.splits sum.splits prod.splits)

lemma http_step_forward:
  assumes "http_step apis env c c'" and "fst c i = Some (r, phase)"
  shows "fst c' i = Some (r, phase) \<or>
    (\<exists>api. apis api \<and> fst c' i = Some (r, fst (register_step api env r phase (snd c))))"
  using assms(1)
proof (cases rule: http_step.cases)
  case (advance api ts j r' phase0 sv phase' sv')
  show ?thesis
  proof (cases "j = i")
    case True
    then have "r' = r" "phase0 = phase" using assms(2) advance by auto
    with True advance show ?thesis by auto
  qed (use assms(2) advance in auto)
qed (use assms(2) in auto)

lemma http_step_backward:
  assumes "http_step apis env c c'" and "fst c' i = Some (r, phase')"
  obtains "fst c i = Some (r, phase')"
  | "phase' = Reg_Arrived" and "route (rq_Path r) = Some RegisterAgentEndpoint"
  | api phase where "apis api" and "fst c i = Some (r, phase)" and "register_step api env r phase (snd c) = (phase', snd c')"
  using assms by (cases rule: http_step.cases) (auto split: if_splits)

lemma http_step_secrets:
  assumes "http_step apis env c c'" and "secret_in c' a \<noteq> secret_in c a"
  obtains i r req where "installs c c' i r req a"
  using assms(1)
proof (cases rule: http_step.cases)
  case (advance api ts i r phase sv phase' sv')
  have "sv_agentSecrets sv' \<noteq> sv_agentSecrets sv" using assms(2) advance by auto
  then obtain req agent where p: "phase = Reg_Persisted req agent"
    using register_step_secrets [OF advance(5)] by (cases phase) auto
  then have "phase' = Reg_Answered (registered_answer agent)"
    "sv_agentSecrets sv' = AList.update (TrimSpace (a_AgentID agent)) (rr_Secret req) (sv_agentSecrets sv)"
    using advance(5) by auto
  then have "installs c c' i r req a"
    using assms(2) advance p by (auto simp: installs_def update_conv' split: if_splits)
  then show thesis by (rule that)
qed (use assms(2) in \<open>auto simp: other_requests_keep_secrets\<close>)

section \<open>Registrations under way\<close>

text \<open>The law of the store that a registration relies on: the agent it returns is the one that was asked for.\<close>

locale registrations =
  fixes apis :: "'s bus_api \<Rightarrow> bool" and env :: http_env
  assumes registers: "apis api \<Longrightarrow> api_RegisterAgent api reg st = (Inr ag, st') \<Longrightarrow> a_AgentID ag = TrimSpace (ra_AgentID reg)"
begin

definition checked_before :: "(nat \<Rightarrow> 's http_config) \<Rightarrow> nat \<Rightarrow> nat \<Rightarrow> http_request \<Rightarrow> register_request \<Rightarrow> bool" where
  "checked_before run n i r req \<longleftrightarrow>
     (\<exists>m < n. \<exists>blob. passes_check env (run m) (run (Suc m)) i r blob req \<and> he_register env blob = Inr req)"

fun phase_ok :: "(nat \<Rightarrow> 's http_config) \<Rightarrow> nat \<Rightarrow> nat \<Rightarrow> http_request \<Rightarrow> register_phase \<Rightarrow> bool" where
  "phase_ok run n i r (Reg_Admitted blob req) = (he_register env blob = Inr req)"
| "phase_ok run n i r (Reg_Disputed blob req) = (he_register env blob = Inr req)"
| "phase_ok run n i r (Reg_Cleared req) = checked_before run n i r req"
| "phase_ok run n i r (Reg_Stored req agent) = (checked_before run n i r req \<and> a_AgentID agent = TrimSpace (rr_AgentID req))"
| "phase_ok run n i r (Reg_Persisted req agent) = (checked_before run n i r req \<and> a_AgentID agent = TrimSpace (rr_AgentID req))"
| "phase_ok run n i r _ = True"

lemma phase_ok_Suc: "phase_ok run n i r phase \<Longrightarrow> phase_ok run (Suc n) i r phase"
  by (cases phase) (auto simp: checked_before_def less_Suc_eq)

lemma checked_now:
  "passes_check env (run n) (run (Suc n)) i r blob req \<Longrightarrow> he_register env blob = Inr req \<Longrightarrow> checked_before run (Suc n) i r req"
  unfolding checked_before_def by blast

lemma phase_ok_step:
  assumes "apis api" and "fst (run n) i = Some (r, phase)" and "fst (run (Suc n)) i = Some (r, phase')"
    and "register_step api env r phase (snd (run n)) = (phase', sv')" and "phase_ok run n i r phase"
  shows "phase_ok run (Suc n) i r phase'"
proof (cases phase)
  case Reg_Arrived
  then show ?thesis using assms(4) by (auto simp: decode_body_def split: if_splits sum.splits)
next
  case (Reg_Admitted blob req)
  have "passes_check env (run n) (run (Suc n)) i r blob req" if "phase' = Reg_Cleared req"
    using assms(2-4) Reg_Admitted that
    by (auto simp: passes_check_def currentAgentSecret_def split: option.splits if_splits)
  then show ?thesis using assms(4,5) Reg_Admitted checked_now
    by (auto split: option.splits if_splits)
next
  case (Reg_Disputed blob req)
  have "passes_check env (run n) (run (Suc n)) i r blob req" if "phase' = Reg_Cleared req"
    using assms(2-4) Reg_Disputed that
    by (auto simp: passes_check_def verifySignature_None signed_by_def split: option.splits)
  then show ?thesis using assms(4,5) Reg_Disputed checked_now
    by (auto split: option.splits)
next
  case (Reg_Cleared req)
  have "a_AgentID ag = TrimSpace (rr_AgentID req)"
    if "api_RegisterAgent api (register_input req) st = (Inr ag, st')" for ag st st'
    using registers [OF assms(1) that] by (simp add: register_input_def)
  then show ?thesis using assms(4,5) Reg_Cleared phase_ok_Suc [OF assms(5)]
    by (auto split: prod.splits sum.splits)
next
  case (Reg_Stored req agent)
  then show ?thesis using assms(4) phase_ok_Suc [OF assms(5)]
    by (auto simp: Let_def split: prod.splits option.splits if_splits)
qed (use assms(4) in auto)

lemma phases_ok:
  assumes "server_run apis env run" and "fst (run n) i = Some (r, phase)"
  shows "phase_ok run n i r phase \<and> route (rq_Path r) = Some RegisterAgentEndpoint"
  using assms(2)
proof (induction n arbitrary: phase)
  case 0
  then show ?case using assms(1) by (simp add: server_run_def)
next
  case (Suc n)
  have step: "http_step apis env (run n) (run (Suc n))" using assms(1) by (simp add: server_run_def)
  from step Suc.prems show ?case
  proof (cases rule: http_step_backward)
    case 1
    then show ?thesis using Suc.IH phase_ok_Suc by blast
  next
    case 2
    then show ?thesis by simp
  next
    case (3 api phase0)
    then show ?thesis using Suc.IH phase_ok_step [OF 3(1,2) Suc.prems 3(3)] by blast
  qed
qed

lemma answered_stays:
  assumes "server_run apis env run" and "fst (run k) i = Some (r, Reg_Answered resp)" and "k \<le> n"
  shows "fst (run n) i = Some (r, Reg_Answered resp)"
  using assms(3)
proof (induction rule: dec_induct)
  case (step n)
  have "http_step apis env (run n) (run (Suc n))" using assms(1) by (simp add: server_run_def)
  from http_step_forward [OF this step.IH] show ?case by auto
qed (rule assms(2))

text \<open>A secret that was not there at one moment and is there at a later one was put there in between.\<close>

lemma installed_between:
  assumes "server_run apis env run" and "secret_in (run m) a \<noteq> Some cur" and "secret_in (run n) a = Some cur" and "m < n"
  obtains k j r req where "m \<le> k" and "k < n" and "installs (run k) (run (Suc k)) j r req a" and "rr_Secret req = cur"
proof -
  have "\<exists>k. m \<le> k \<and> k < n \<and> secret_in (run k) a \<noteq> Some cur \<and> secret_in (run (Suc k)) a = Some cur"
    using assms(4,2,3)
  proof (induction n rule: less_induct)
    case (less n)
    then obtain l where n: "n = Suc l" "m \<le> l" by (cases n) auto
    show ?case
    proof (cases "secret_in (run l) a = Some cur")
      case True
      then have "m < l" using n(2) less.prems(2) by (cases "m = l") auto
      with less.IH [of l] True less.prems n show ?thesis by (metis lessI less_SucI)
    next
      case False
      with n less.prems show ?thesis by blast
    qed
  qed
  then obtain k where k: "m \<le> k" "k < n" "secret_in (run k) a \<noteq> Some cur" "secret_in (run (Suc k)) a = Some cur" by blast
  have "http_step apis env (run k) (run (Suc k))" using assms(1) by (simp add: server_run_def)
  moreover have "secret_in (run (Suc k)) a \<noteq> secret_in (run k) a" using k(3,4) by simp
  ultimately obtain j r req where "installs (run k) (run (Suc k)) j r req a" by (rule http_step_secrets)
  moreover then have "rr_Secret req = cur" using k(4) by (simp add: installs_def)
  ultimately show thesis using that k(1,2) by blast
qed

lemma replaced_secret:
  assumes run: "server_run apis env run" and cur: "secret_in (run n) a = Some cur" "TrimSpace cur \<noteq> []"
    and change: "secret_in (run (Suc n)) a \<noteq> Some cur"
  shows "\<exists>i r blob req m. m < n \<and> passes_check env (run m) (run (Suc m)) i r blob req \<and>
    installs (run n) (run (Suc n)) i r req a \<and> route (rq_Path r) = Some RegisterAgentEndpoint \<and>
    he_register env blob = Inr req \<and> TrimSpace (rr_AgentID req) = a \<and>
    (if secret_in (run m) a = Some cur
     then signature_bytes (header_get r ''X-Bus-Signature'') = Some (he_hmac env cur blob)
     else \<exists>k j r' req'. m \<le> k \<and> k < n \<and> j \<noteq> i \<and> installs (run k) (run (Suc k)) j r' req' a \<and> rr_Secret req' = cur)"
proof -
  have step: "http_step apis env (run n) (run (Suc n))" using run by (simp add: server_run_def)
  obtain i r req where inst: "installs (run n) (run (Suc n)) i r req a"
    using http_step_secrets [OF step] cur(1) change by metis
  then obtain agent where ag: "fst (run n) i = Some (r, Reg_Persisted req agent)" "TrimSpace (a_AgentID agent) = a"
    by (auto simp: installs_def)
  from phases_ok [OF run ag(1)] have ok: "checked_before run n i r req" "a = TrimSpace (rr_AgentID req)"
    "route (rq_Path r) = Some RegisterAgentEndpoint"
    using ag(2) by auto
  then obtain m blob where m: "m < n" "passes_check env (run m) (run (Suc m)) i r blob req" "he_register env blob = Inr req"
    by (auto simp: checked_before_def)
  have new: "secret_in (run (Suc n)) a = Some (rr_Secret req)" using inst by (simp add: installs_def)
  have "if secret_in (run m) a = Some cur
     then signature_bytes (header_get r ''X-Bus-Signature'') = Some (he_hmac env cur blob)
     else \<exists>k j r' req'. m \<le> k \<and> k < n \<and> j \<noteq> i \<and> installs (run k) (run (Suc k)) j r' req' a \<and> rr_Secret req' = cur"
  proof (cases "secret_in (run m) a = Some cur")
    case True
    then show ?thesis using m(2) new change ok(2) cur(2) by (auto simp: passes_check_def)
  next
    case False
    from installed_between [OF run False cur(1) m(1)] obtain k j r' req' where
      k: "m \<le> k" "k < n" "installs (run k) (run (Suc k)) j r' req' a" "rr_Secret req' = cur" by metis
    have "j \<noteq> i"
    proof
      assume "j = i"
      then obtain resp where "fst (run (Suc k)) i = Some (r', Reg_Answered resp)" using k(3) by (auto simp: installs_def)
      from answered_stays [OF run this, of n] ag(1) k(2) show False by simp
    qed
    with k False show ?thesis by auto
  qed
  with m ok inst show ?thesis by blast
qed

end

text \<open>The law holds of the stores, whatever its clock, its I/O and its map orders are.\<close>

interpretation memory_regs: registrations "\<lambda>api. \<exists>mo. api = memory_api mo" env for env
  by unfold_locales (use memory.register_name in blast)

interpretation persistent_regs: registrations "\<lambda>api. \<exists>io mo. api = persistent_api io mo" env for env
  by unfold_locales (use persistent.register_name in blast)

text \<open>
  C23. Who can replace a registered secret. Take any run of the server on the file-backed store, with any
  number of registrations under way at once, each going through its critical sections one at a time, and
  other requests and changes of the store in between. When a step replaces the secret \<open>cur\<close> of an agent, it is
  the last section of a registration of that very agent, with the secret in its body, and at an
  earlier moment \<open>m\<close> this registration passed the check against the secret the agent had then. If that was
  \<open>cur\<close>, the body of the request is signed with \<open>cur\<close>. Otherwise some other registration of the agent
  put \<open>cur\<close> there after the check: the check and the change are not one critical section, so
  two registrations that run at the same time, say two first ones of a new agent, can both pass, and the
  second replaces the secret of the first without knowing it. The witness is such a run.
\<close>

theorem secret_change_needs_proof:
  assumes "server_run (\<lambda>api. \<exists>io mo. api = persistent_api io mo) env run"
    and "secret_in (run n) a = Some cur" and "TrimSpace cur \<noteq> []" and "secret_in (run (Suc n)) a \<noteq> Some cur"
  shows "\<exists>i r blob req m. m < n \<and> passes_check env (run m) (run (Suc m)) i r blob req \<and>
    installs (run n) (run (Suc n)) i r req a \<and> route (rq_Path r) = Some RegisterAgentEndpoint \<and>
    he_register env blob = Inr req \<and> TrimSpace (rr_AgentID req) = a \<and>
    (if secret_in (run m) a = Some cur
     then signature_bytes (header_get r ''X-Bus-Signature'') = Some (he_hmac env cur blob)
     else \<exists>k j r' req'. m \<le> k \<and> k < n \<and> j \<noteq> i \<and> installs (run k) (run (Suc k)) j r' req' a \<and> rr_Secret req' = cur)"
  by (rule persistent_regs.replaced_secret [OF assms])

section \<open>Two first registrations at once\<close>

definition ex_claim :: "string \<Rightarrow> register_request" where
  "ex_claim secret = \<lparr>rr_AgentID = ''ucla.a'', rr_AllowedScopes = [], rr_SharedGrants = [],
     rr_Capabilities = [], rr_Version = [], rr_Description = [], rr_AgentClass = [], rr_MutationClass = [],
     rr_Build = None, rr_Meta = None, rr_Mode = [], rr_CallbackURL = [], rr_TTL = 60, rr_Secret = secret\<rparr>"

definition ex_race_env :: http_env where
  "ex_race_env = ex_env\<lparr>he_register := \<lambda>blob. Inr (ex_claim blob)\<rparr>"

definition ex_claim_post :: "nat \<Rightarrow> http_request" where
  "ex_claim_post i = \<lparr>rq_Method = ''POST'', rq_Path = ''/v1/agents/register'', rq_RawQuery = [],
     rq_Header = [], rq_Body = Some (if i = 0 then ''N'' else ''M'', None)\<rparr>"

abbreviation ex_race_api :: "pstore bus_api" where
  "ex_race_api \<equiv> persistent_api io_fine ex_moment"

definition ex_move :: "nat \<Rightarrow> pstore http_config \<Rightarrow> pstore http_config" where
  "ex_move i c =
     (case fst c i of
        None \<Rightarrow> ((fst c)(i \<mapsto> (ex_claim_post i, Reg_Arrived)), snd c)
      | Some (r, phase) \<Rightarrow>
          (case register_step ex_race_api ex_race_env r phase (snd c) of
             (phase', sv') \<Rightarrow> ((fst c)(i \<mapsto> (r, phase')), sv')))"

primrec ex_race :: "nat \<Rightarrow> pstore http_config" where
  "ex_race 0 = (\<lambda>_. None, (ex_server (ex_disk\<lparr>pst_inner := ex0, pst_agentSecrets := []\<rparr>))\<lparr>sv_agentSecrets := []\<rparr>)"
| "ex_race (Suc n) = ex_move (n mod 2) (ex_race n)"

lemma ex_race_run: "server_run (\<lambda>api. \<exists>io mo. api = persistent_api io mo) ex_race_env ex_race"
proof -
  have r: "route (rq_Path (ex_claim_post i)) = Some RegisterAgentEndpoint" for i
    by (simp add: ex_claim_post_def) code_simp
  have "http_step (\<lambda>api. \<exists>io mo. api = persistent_api io mo) ex_race_env c (ex_move i c)" for i c
  proof (cases "fst c i")
    case None
    then show ?thesis using arrive [where ts = "fst c" and i = i and sv = "snd c", OF None r] by (simp add: ex_move_def)
  next
    case (Some x)
    obtain r phase where x: "x = (r, phase)" by (cases x)
    obtain phase' sv' where st: "register_step ex_race_api ex_race_env r phase (snd c) = (phase', sv')" by fastforce
    have "http_step (\<lambda>api. \<exists>io mo. api = persistent_api io mo) ex_race_env (fst c, snd c) ((fst c)(i \<mapsto> (r, phase')), sv')"
      by (rule advance [OF _ _ st]) (use Some x in auto)
    then show ?thesis using Some x st by (simp add: ex_move_def)
  qed
  then show ?thesis by (simp add: server_run_def)
qed

abbreviation ex_two :: "register_phase \<Rightarrow> register_phase \<Rightarrow> nat \<Rightarrow> (http_request \<times> register_phase) option" where
  "ex_two x y \<equiv> (\<lambda>_. None)(0 := Some (ex_claim_post 0, x), 1 := Some (ex_claim_post 1, y))"

lemma ex_move_two:
  "register_step ex_race_api ex_race_env (ex_claim_post 0) x sv = (x', sv') \<Longrightarrow> ex_move 0 (ex_two x y, sv) = (ex_two x' y, sv')"
  "register_step ex_race_api ex_race_env (ex_claim_post 1) y sv = (y', sv') \<Longrightarrow> ex_move 1 (ex_two x y, sv) = (ex_two x y', sv')"
  by (auto simp: ex_move_def)

lemma ex_race_two:
  assumes "ex_race n = (ex_two x y, sv)" and "even n" and "m = Suc n" and "l = Suc m"
    and "register_step ex_race_api ex_race_env (ex_claim_post 0) x sv = (x', sv1)"
    and "register_step ex_race_api ex_race_env (ex_claim_post 1) y sv1 = (y', sv2)"
  shows "ex_race m = (ex_two x' y, sv1)" and "ex_race l = (ex_two x' y', sv2)"
proof -
  have "n mod 2 = 0" "Suc n mod 2 = 1" using assms(2) by presburger+
  then show "ex_race m = (ex_two x' y, sv1)" "ex_race l = (ex_two x' y', sv2)"
    using ex_move_two(1) [OF assms(5), of y] ex_move_two(2) [OF assms(6), of x'] assms(1,3,4) by simp_all
qed

lemma ex_race_requests: "fst (ex_race n) i = Some (r, phase) \<Longrightarrow> r = ex_claim_post 0 \<or> r = ex_claim_post 1"
proof (induction n arbitrary: phase)
  case (Suc n)
  have two: "n mod 2 = 0 \<or> n mod 2 = 1" by presburger
  show ?case
  proof (cases "fst (ex_race n) (n mod 2)")
    case None
    then show ?thesis using Suc two by (auto simp: ex_move_def split: if_splits)
  next
    case (Some x)
    obtain r' ph where x: "x = (r', ph)" by (cases x)
    have "fst (ex_race (Suc n)) i = Some (r, phase) \<Longrightarrow> \<exists>ph'. fst (ex_race n) i = Some (r, ph')"
      using Some x by (auto simp: ex_move_def split: if_splits prod.splits)
    then show ?thesis using Suc by blast
  qed
qed simp

lemma ex_race_cleared:
  "\<exists>sv. ex_race 6 = (ex_two (Reg_Cleared (ex_claim ''N'')) (Reg_Cleared (ex_claim ''M'')), sv) \<and>
     sv_agentSecrets sv = [] \<and> same_policy (pst_inner (sv_store sv)) \<and> pst_path (sv_store sv) = ''state.json''"
proof -
  define sv :: "pstore server" where "sv = snd (ex_race 0)"
  have f: "sv_agentSecrets sv = []" "same_policy (pst_inner (sv_store sv))" "pst_path (sv_store sv) = ''state.json''"
    "sv_agentAllowset sv = []" "sv_maxBodyBytes sv = 0"
    by (simp_all add: sv_def ex_server_def ex_disk_def) (simp_all add: same_policy_def ex_policy_def ex0_fields)
  have c2: "ex_race 2 = (ex_two Reg_Arrived Reg_Arrived, sv)"
    by (simp add: eval_nat_numeral ex_move_def sv_def)
  have trims: "TrimSpace ''N'' \<noteq> []" "TrimSpace ''M'' \<noteq> []" by code_simp+
  have arrived: "register_step ex_race_api ex_race_env (ex_claim_post 0) Reg_Arrived sv = (Reg_Admitted ''N'' (ex_claim ''N''), sv)"
    "register_step ex_race_api ex_race_env (ex_claim_post 1) Reg_Arrived sv = (Reg_Admitted ''M'' (ex_claim ''M''), sv)"
    by (simp_all add: ex_claim_post_def decode_body_def readBody_def ex_race_env_def isAgentAllowed_def f trims)
      (simp_all add: ex_claim_def trims)
  have admitted: "register_step ex_race_api ex_race_env r (Reg_Admitted b (ex_claim k)) sv = (Reg_Cleared (ex_claim k), sv)" for r b k
    by (simp add: currentAgentSecret_def f)
  have "ex_race 4 = (ex_two (Reg_Admitted ''N'' (ex_claim ''N'')) (Reg_Admitted ''M'' (ex_claim ''M'')), sv)"
    by (rule ex_race_two(2) [OF c2 _ _ _ arrived, where m = 3]) simp_all
  then have "ex_race 6 = (ex_two (Reg_Cleared (ex_claim ''N'')) (Reg_Cleared (ex_claim ''M'')), sv)"
    by (rule ex_race_two(2) [OF _ _ _ _ admitted admitted, where m = 5]) simp_all
  with f show ?thesis by blast
qed

text \<open>Both registrations passed the check; now they go through the store and the table of the server, in turns.\<close>

lemma ex_claim_stored:
  assumes "same_policy (pst_inner (sv_store sv))" and "pst_path (sv_store sv) = ''state.json''"
  shows "\<exists>ag p. register_step ex_race_api ex_race_env r (Reg_Cleared (ex_claim secret)) sv =
      (Reg_Stored (ex_claim secret) ag, sv\<lparr>sv_store := p\<rparr>) \<and> a_AgentID ag = ''ucla.a'' \<and>
    same_policy (pst_inner p) \<and> pst_path p = ''state.json''"
proof -
  have "agent_mode_of [] = AgentModeOther []" by (simp add: agent_mode_of_def)
  then have i: "register_input (ex_claim secret) = (ex_register ''ucla.a'')\<lparr>ra_Secret := secret\<rparr>"
    by (simp add: register_input_def ex_claim_def ex_register_def ex_names)
  obtain ag s' where reg: "RegisterAgent id ex_orders ex_time (register_input (ex_claim secret)) (pst_inner (sv_store sv)) = (Inr ag, s')"
    "same_policy s'"
    using ex_http_register [OF i assms(1)] by blast
  have "a_AgentID ag = ''ucla.a''" using register_returns [OF reg(1)] by (simp add: i ex_register_def ex_names)
  with reg assms(2) show ?thesis
    by (simp add: persistent_api_def PersistentStore_RegisterAgent_def mutate_def ex_moment_def persist_def io_fine_def)
      (rule exI, rule conjI, rule refl, simp)
qed

lemma ex_claim_persisted:
  assumes "a_AgentID ag = ''ucla.a''" and "TrimSpace secret = secret" and "secret \<noteq> []" and "pst_path (sv_store sv) = ''state.json''"
  shows "\<exists>p. register_step ex_race_api ex_race_env r (Reg_Stored (ex_claim secret) ag) sv =
      (Reg_Persisted (ex_claim secret) ag, sv\<lparr>sv_store := p\<rparr>) \<and> pst_path p = ''state.json''"
proof -
  have s: "rr_Secret (ex_claim secret) = secret" by (simp add: ex_claim_def)
  have t: "TrimSpace (a_AgentID ag) = ''ucla.a''" "TrimSpace secret \<noteq> []" using assms(1-3) by (simp_all add: ex_names)
  have "\<exists>p. (case api_SetAgentSecret ex_race_api of None \<Rightarrow> (None, sv_store sv)
      | Some f \<Rightarrow> f ''ucla.a'' secret (sv_store sv)) = (None, p) \<and> pst_path p = ''state.json''"
    using assms by (simp add: persistent_api_def SetAgentSecret_def persist_def io_fine_def Let_def ex_names)
  then obtain p where "(case api_SetAgentSecret ex_race_api of None \<Rightarrow> (None, sv_store sv)
      | Some f \<Rightarrow> f ''ucla.a'' secret (sv_store sv)) = (None, p)" "pst_path p = ''state.json''" by blast
  then show ?thesis unfolding register_step.simps Let_def s t(1) using t(2) by (intro exI [of _ p]) simp
qed

lemma ex_race_secrets:
  "secret_in (ex_race 11) ''ucla.a'' = Some ''N''" "secret_in (ex_race 12) ''ucla.a'' = Some ''M''"
proof -
  have trims: "TrimSpace ''N'' = ''N''" "TrimSpace ''M'' = ''M''" by code_simp+
  obtain sv0 where sv0: "ex_race 6 = (ex_two (Reg_Cleared (ex_claim ''N'')) (Reg_Cleared (ex_claim ''M'')), sv0)"
    "sv_agentSecrets sv0 = []" "same_policy (pst_inner (sv_store sv0))" "pst_path (sv_store sv0) = ''state.json''"
    using ex_race_cleared by blast
  obtain ag p where p: "register_step ex_race_api ex_race_env (ex_claim_post 0) (Reg_Cleared (ex_claim ''N'')) sv0 =
      (Reg_Stored (ex_claim ''N'') ag, sv0\<lparr>sv_store := p\<rparr>)" "a_AgentID ag = ''ucla.a''" "same_policy (pst_inner p)" "pst_path p = ''state.json''"
    using ex_claim_stored [OF sv0(3,4)] by blast
  have p': "same_policy (pst_inner (sv_store (sv0\<lparr>sv_store := p\<rparr>)))" "pst_path (sv_store (sv0\<lparr>sv_store := p\<rparr>)) = ''state.json''"
    using p by simp_all
  obtain ag' q where q: "register_step ex_race_api ex_race_env (ex_claim_post 1) (Reg_Cleared (ex_claim ''M'')) (sv0\<lparr>sv_store := p\<rparr>) =
      (Reg_Stored (ex_claim ''M'') ag', sv0\<lparr>sv_store := q\<rparr>)" "a_AgentID ag' = ''ucla.a''" "pst_path q = ''state.json''"
    using ex_claim_stored [OF p', of "ex_claim_post 1" "''M''"] by auto
  have c8: "ex_race 8 = (ex_two (Reg_Stored (ex_claim ''N'') ag) (Reg_Stored (ex_claim ''M'') ag'), sv0\<lparr>sv_store := q\<rparr>)"
    by (rule ex_race_two(2) [OF sv0(1) _ _ _ p(1) q(1), where m = 7]) simp_all
  obtain u where u: "register_step ex_race_api ex_race_env (ex_claim_post 0) (Reg_Stored (ex_claim ''N'') ag) (sv0\<lparr>sv_store := q\<rparr>) =
      (Reg_Persisted (ex_claim ''N'') ag, sv0\<lparr>sv_store := u\<rparr>)" "pst_path u = ''state.json''"
    using ex_claim_persisted [OF p(2) trims(1), of "sv0\<lparr>sv_store := q\<rparr>" "ex_claim_post 0"] q(3) by auto
  obtain v where v: "register_step ex_race_api ex_race_env (ex_claim_post 1) (Reg_Stored (ex_claim ''M'') ag') (sv0\<lparr>sv_store := u\<rparr>) =
      (Reg_Persisted (ex_claim ''M'') ag', sv0\<lparr>sv_store := v\<rparr>)"
    using ex_claim_persisted [OF q(2) trims(2), of "sv0\<lparr>sv_store := u\<rparr>" "ex_claim_post 1"] u(2) by auto
  have c10: "ex_race 10 = (ex_two (Reg_Persisted (ex_claim ''N'') ag) (Reg_Persisted (ex_claim ''M'') ag'), sv0\<lparr>sv_store := v\<rparr>)"
    by (rule ex_race_two(2) [OF c8 _ _ _ u(1) v, where m = 9]) simp_all
  note last = ex_race_two [OF c10 _ _ _ register_step.simps(6) register_step.simps(6), where m = 11 and l = 12]
  show "secret_in (ex_race 11) ''ucla.a'' = Some ''N''"
    by (subst last(1)) (simp_all add: p(2) ex_names sv0(2) ex_claim_def)
  show "secret_in (ex_race 12) ''ucla.a'' = Some ''M''"
    by (subst last(2)) (simp_all add: p(2) q(2) ex_names sv0(2) ex_claim_def)
qed

theorem secret_change_needs_proof_witness:
  "secret_in (ex_race 11) ''ucla.a'' = Some ''N'' \<and> secret_in (ex_race 12) ''ucla.a'' = Some ''M'' \<and>
   (\<exists>i r req. installs (ex_race 11) (ex_race (Suc 11)) i r req ''ucla.a'' \<and> rr_Secret req = ''M'' \<and>
      signature_bytes (header_get r ''X-Bus-Signature'') \<noteq> Some (he_hmac ex_race_env ''N'' ''M''))"
proof -
  have n: "TrimSpace ''N'' \<noteq> []" by code_simp
  have twelve: "Suc 11 = (12 :: nat)" by simp
  have "secret_in (ex_race (Suc 11)) ''ucla.a'' \<noteq> Some ''N''" unfolding twelve ex_race_secrets(2) by simp
  from secret_change_needs_proof [OF ex_race_run ex_race_secrets(1) n this]
  obtain i r req where i: "installs (ex_race 11) (ex_race (Suc 11)) i r req ''ucla.a''" by blast
  then have secret: "rr_Secret req = ''M''" using ex_race_secrets(2) unfolding installs_def twelve by simp
  obtain ph where "fst (ex_race (Suc 11)) i = Some (r, ph)" using i by (auto simp: installs_def)
  then have "r = ex_claim_post 0 \<or> r = ex_claim_post 1" by (rule ex_race_requests)
  moreover have "signature_bytes [] \<noteq> Some ''N''" by code_simp
  ultimately have "signature_bytes (header_get r ''X-Bus-Signature'') \<noteq> Some (he_hmac ex_race_env ''N'' ''M'')"
    by (auto simp: ex_claim_post_def header_get_def ex_race_env_def ex_env_def)
  with i secret show ?thesis using ex_race_secrets by blast
qed

end
