(* ===== verification/Http_Watch.thy ===== *)
theory Http_Watch
  imports Http_Handlers
begin

text \<open>
  \<^verbatim>\<open>WatchAllowlistFile\<close> of \<^verbatim>\<open>pkg/httpapi/server.go\<close>, with the path functions of \<^verbatim>\<open>path/filepath\<close> it uses. The
  events of the watcher come from a third-party package: the loop is a function of the sequence of what
  its \<^verbatim>\<open>select\<close> receives, and of what the rest of the server does before each of them.
\<close>

section \<open>Paths\<close>

fun clean_components :: "bool \<Rightarrow> string list \<Rightarrow> string list \<Rightarrow> string list" where
  "clean_components rooted out [] = out"
| "clean_components rooted out (c # cs) =
     (if c = [] \<or> c = ''.'' then clean_components rooted out cs
      else if c = ''..'' then
        (if out \<noteq> [] \<and> last out \<noteq> ''..'' then clean_components rooted (butlast out) cs
         else if rooted then clean_components rooted out cs
         else clean_components rooted (out @ [c]) cs)
      else clean_components rooted (out @ [c]) cs)"

fun join_slash :: "string list \<Rightarrow> string" where
  "join_slash [] = []"
| "join_slash [c] = c"
| "join_slash (c # cs) = c @ CHR ''/'' # join_slash cs"

definition Clean :: "string \<Rightarrow> string" where
  "Clean path =
     (let rooted = HasPrefix path ''/'';
          cleaned = join_slash (clean_components rooted [] (Split path (CHR ''/''))) in
      if rooted then CHR ''/'' # cleaned else if cleaned = [] then ''.'' else cleaned)"

definition Base :: "string \<Rightarrow> string" where
  "Base path =
     (if path = [] then ''.''
      else (let stripped = rev (dropWhile (\<lambda>c. c = CHR ''/'') (rev path)) in
            if stripped = [] then ''/'' else rev (takeWhile (\<lambda>c. c \<noteq> CHR ''/'') (rev stripped))))"

definition Dir :: "string \<Rightarrow> string" where
  "Dir path = Clean (rev (dropWhile (\<lambda>c. c \<noteq> CHR ''/'') (rev path)))"

section \<open>The loop\<close>

datatype watch_op = OpCreate | OpWrite | OpRemove | OpRename | OpChmod

text \<open>What \<^verbatim>\<open>select\<close> receives; an event comes with what reading the file gives when it is handled.\<close>

datatype received =
    ContextDone
  | WatchErrorReceived string
  | ErrorsClosed
  | WatchEventReceived string "watch_op list" "string + string"
  | EventsClosed

definition reloads :: "string \<Rightarrow> string \<Rightarrow> watch_op list \<Rightarrow> bool" where
  "reloads targetName name ops \<longleftrightarrow>
     Base name = targetName \<and> list_ex (\<lambda>op. op \<in> {OpWrite, OpCreate, OpRename, OpChmod}) ops"

fun watch_loop :: "string \<Rightarrow> (('s server \<Rightarrow> 's server) \<times> received) list \<Rightarrow> 's server \<Rightarrow> 's server" where
  "watch_loop targetName [] sv = sv"
| "watch_loop targetName ((others, r) # rest) sv =
     (let sv = others sv in
      case r of
        ContextDone \<Rightarrow> sv
      | WatchErrorReceived err \<Rightarrow> watch_loop targetName rest sv
      | ErrorsClosed \<Rightarrow> sv
      | WatchEventReceived name ops file \<Rightarrow>
          if \<not> reloads targetName name ops then watch_loop targetName rest sv
          else watch_loop targetName rest (snd (reloadAllowlistFile file sv))
      | EventsClosed \<Rightarrow> sv)"

text \<open>\<open>create\<close> and \<open>add\<close> are the errors of making the watcher and of watching the directory.\<close>

definition WatchAllowlistFile ::
  "string option \<Rightarrow> (string \<Rightarrow> string option) \<Rightarrow> string \<Rightarrow> (('s server \<Rightarrow> 's server) \<times> received) list \<Rightarrow> 's server \<Rightarrow>
     string option \<times> 's server" where
  "WatchAllowlistFile create add path trace sv =
     (let cleanPath = Clean path; parentDir = Dir cleanPath; targetName = Base cleanPath in
      case create of
        Some err \<Rightarrow> (Some err, sv)
      | None \<Rightarrow>
          (case add parentDir of
             Some err \<Rightarrow> (Some err, sv)
           | None \<Rightarrow> (None, watch_loop targetName trace sv)))"

section \<open>The list in force\<close>

text \<open>
  The list in force is the last one that could be read: the reloads the loop makes are those of the events
  of the file, until the context ends or the watcher is closed, and a file that cannot be read keeps the
  list that is in force. The rest of the server does not write the list.
\<close>

fun handled :: "(('s server \<Rightarrow> 's server) \<times> received) list \<Rightarrow> received list" where
  "handled [] = []"
| "handled ((others, r) # rest) = (if r \<in> {ContextDone, ErrorsClosed, EventsClosed} then [] else r # handled rest)"

fun loaded_list :: "string \<Rightarrow> string list \<Rightarrow> received list \<Rightarrow> string list" where
  "loaded_list targetName current [] = current"
| "loaded_list targetName current (WatchEventReceived name ops file # rest) =
     (if reloads targetName name ops then
        (case loadAllowlistFile file of
           Inl err \<Rightarrow> loaded_list targetName current rest
         | Inr allowset \<Rightarrow> loaded_list targetName allowset rest)
      else loaded_list targetName current rest)"
| "loaded_list targetName current (r # rest) = loaded_list targetName current rest"

lemma watch_loop_list:
  assumes "\<forall>(others, r) \<in> set trace. \<forall>sv. sv_agentAllowset (others sv) = sv_agentAllowset sv"
  shows "sv_agentAllowset (watch_loop targetName trace sv) = loaded_list targetName (sv_agentAllowset sv) (handled trace)"
  using assms
  by (induction targetName trace sv rule: watch_loop.induct)
    (auto simp: Let_def reloadAllowlistFile_def swapAgentAllowset_def split: received.splits sum.splits)

text \<open>Only an existing entry of the directory of the file is watched, so the file may be replaced as a whole.\<close>

lemma path_examples:
  "Clean ''./data//allow.txt'' = ''data/allow.txt''" "Base ''data/allow.txt'' = ''allow.txt''"
  "Dir ''data/allow.txt'' = ''data''" "Dir ''allow.txt'' = ''.''" "Clean ''/a/../../b/'' = ''/b''"
  "Base ''/'' = ''/''" "Clean [] = ''.''" "Clean ''a/../..'' = ''..''"
  by code_simp+


section \<open>Requests keep the list\<close>

lemma setAgentSecret_allowset:
  "setAgentSecret api a secret sv = (r, sv') \<Longrightarrow> sv_agentAllowset sv' = sv_agentAllowset sv"
  by (auto simp: setAgentSecret_def Let_def split: option.splits prod.splits if_splits)

lemma request_keeps_allowset [simp]:
  "sv_agentAllowset (snd (ServeHTTP api env canFlush passes r sv)) = sv_agentAllowset sv"
proof -
  have "sv_agentAllowset (snd (handleRegisterAgent api env r sv)) = sv_agentAllowset sv"
    by (auto simp: handleRegisterAgent_def Let_def dest!: setAgentSecret_allowset
        split: sum.splits option.splits prod.splits)
  moreover have "sv_agentAllowset (snd (handleListAgents api r sv)) = sv_agentAllowset sv"
    by (simp add: handleListAgents_def split: prod.splits)
  moreover have "sv_agentAllowset (snd (handleConversations api env r sv)) = sv_agentAllowset sv"
    by (auto simp: handleConversations_def create_conversation_def list_conversations_def Let_def
        split: prod.splits sum.splits option.splits)
  moreover have "sv_agentAllowset (snd (handleConversationMessages api env r sv)) = sv_agentAllowset sv"
    by (auto simp: handleConversationMessages_def Let_def split: prod.splits sum.splits option.splits list.splits)
  moreover have "sv_agentAllowset (snd (handleMessages api env r sv)) = sv_agentAllowset sv"
    by (auto simp: handleMessages_def Let_def split: prod.splits sum.splits option.splits)
  moreover have "sv_agentAllowset (snd (handleInbox api env r sv)) = sv_agentAllowset sv"
    by (auto simp: handleInbox_def Let_def split: prod.splits sum.splits option.splits)
  moreover have "sv_agentAllowset (snd (handleAcks api env r sv)) = sv_agentAllowset sv"
    by (auto simp: handleAcks_def Let_def split: prod.splits sum.splits option.splits)
  moreover have "sv_agentAllowset (snd (handleEvents api env r sv)) = sv_agentAllowset sv"
    by (auto simp: handleEvents_def Let_def split: prod.splits sum.splits option.splits)
  moreover have "sv_agentAllowset (snd (handleInject api env r sv)) = sv_agentAllowset sv"
    by (auto simp: handleInject_def Let_def split: prod.splits sum.splits option.splits)
  moreover have "sv_agentAllowset (snd (handleObserve api env canFlush passes r sv)) = sv_agentAllowset sv"
    by (auto simp: handleObserve_def Let_def split: prod.splits sum.splits option.splits)
  moreover have "sv_agentAllowset (snd (handleHealth api r sv)) = sv_agentAllowset sv"
    "sv_agentAllowset (snd (handleTopLevelHealth api r sv)) = sv_agentAllowset sv"
    "sv_agentAllowset (snd (handleMetrics api r sv)) = sv_agentAllowset sv"
    "sv_agentAllowset (snd (handleSystemStatus api r sv)) = sv_agentAllowset sv"
    by (simp_all add: handleHealth_def handleTopLevelHealth_def handleMetrics_def handleSystemStatus_def Let_def
        split: prod.splits)
  ultimately show ?thesis by (simp add: ServeHTTP_def answered_def split: option.splits endpoint.splits)
qed

text \<open>
  With any requests handled between the events, the server enforces the last list that could be read.
\<close>

lemma watched_list:
  assumes "\<forall>(others, r) \<in> set trace. \<exists>reqs. others = fold (\<lambda>(api, env, canFlush, passes, rq) sv.
      snd (ServeHTTP api env canFlush passes rq sv)) reqs"
    and "create = None" and "add (Dir (Clean path)) = None"
  shows "isAgentAllowed (snd (WatchAllowlistFile create add path trace sv)) a \<longleftrightarrow>
    (let now = loaded_list (Base (Clean path)) (sv_agentAllowset sv) (handled trace) in now = [] \<or> a \<in> set now)"
proof -
  have kept: "sv_agentAllowset (fold (\<lambda>(api, env, canFlush, passes, rq) sv. snd (ServeHTTP api env canFlush passes rq sv)) reqs s) =
      sv_agentAllowset s" for reqs s
    by (induction reqs arbitrary: s) auto
  have "\<forall>(others, r) \<in> set trace. \<forall>sv. sv_agentAllowset (others sv) = sv_agentAllowset sv"
  proof (clarify)
    fix others r s
    assume "(others, r) \<in> set trace"
    then obtain reqs where "others = fold (\<lambda>(api, env, canFlush, passes, rq) sv.
      snd (ServeHTTP api env canFlush passes rq sv)) reqs" using assms(1) by blast
    then show "sv_agentAllowset (others s) = sv_agentAllowset s" using kept by simp
  qed
  from watch_loop_list [OF this] show ?thesis
    using assms(2,3) by (simp add: WatchAllowlistFile_def isAgentAllowed_def Let_def)
qed

end
