(* ===== verification/Sqlite_Db.thy ===== *)
theory Sqlite_Db
  imports Bus_Push
begin

text \<open>
  The database of \<^verbatim>\<open>pkg/bus/sqlite.go\<close> and \<^verbatim>\<open>pkg/bus/sqlite_delivery.go\<close>: its tables, and the
  statements the store runs on them.

  A table with a text primary key is a map from the key to the row; the other tables are lists of rows
  whose keys the statements check. A row holds, column by column, the value that was encoded into the
  column: a time column holds the time whose RFC 3339 text it contains (\<open>0\<close> is the empty text), a JSON
  column the value whose encoding it contains. Comparisons of time columns in SQL compare the texts
  (\<open>text_less\<close>), and reading a time column parses the text (\<open>time_Parse\<close>), which fails for years
  outside 0 to 9999.

  A statement that violates a constraint fails with an error; what the disk does is an argument of the
  operations that run the statements.
\<close>

section \<open>Time columns\<close>

definition timeToString :: "time \<Rightarrow> string" where
  "timeToString t = (if IsZero t then [] else rfc3339nano t)"

definition text_less :: "time \<Rightarrow> time \<Rightarrow> bool" where
  "text_less a b \<longleftrightarrow> timeToString a < timeToString b"

definition text_le :: "time \<Rightarrow> time \<Rightarrow> bool" where
  "text_le a b \<longleftrightarrow> timeToString a \<le> timeToString b"

text \<open>\<^verbatim>\<open>time.Parse\<close> on the text of a time.\<close>

definition time_Parse :: "time \<Rightarrow> time option" where
  "time_Parse t = (if 0 \<le> time_year t \<and> time_year t \<le> 9999 \<and> \<not> IsZero t then Some t else None)"

text \<open>The two ways the code reads a time column: dropping the error, and \<^verbatim>\<open>parseSQLiteTime\<close>.\<close>

definition parsed_or_zero :: "time \<Rightarrow> time" where
  "parsed_or_zero t = (case time_Parse t of Some u \<Rightarrow> u | None \<Rightarrow> 0)"

definition parseSQLiteTime :: "time \<Rightarrow> string + time" where
  "parseSQLiteTime raw =
     (if timeToString raw = [] then Inr 0
      else case time_Parse raw of Some t \<Rightarrow> Inr t | None \<Rightarrow> Inl ''parsing time'')"

definition nullableJSON :: "json \<Rightarrow> json" where
  "nullableJSON v = (case Marshal v of None \<Rightarrow> JNull | Some _ \<Rightarrow> v)"

section \<open>Tables\<close>

datatype delivery_status = DeliveryPending | DeliveryAttempting | DeliveryReceived | DeliveryFailed

record agent_row =
  ar_agent :: agent
  ar_secret :: string

record link_row =
  lk_conversation_id :: string
  lk_message_id :: string
  lk_position :: int

record cursor_row =
  dc_next_seq :: int
  dc_acknowledged_cursor :: int

record delivery_row =
  dl_target_agent_id :: string
  dl_delivery_seq :: int
  dl_message_id :: string
  dl_status :: delivery_status
  dl_next_attempt_at :: time
  dl_attempt_count :: int
  dl_received_at :: time
  dl_expires_at :: time
  dl_last_error :: string

record receipt_row =
  id_from_agent :: string
  id_to_agent :: string
  id_request_id :: string
  id_message_id :: string
  id_accepted_at :: time
  id_expires_at :: time

record sqldb =
  t_agents :: "agent_row gomap"
  t_conversations :: "conversation gomap"
  t_messages :: "message gomap"
  t_conversation_messages :: "link_row list"
  t_counters :: "int gomap"
  t_delivery_cursors :: "cursor_row gomap"
  t_deliveries :: "delivery_row list"
  t_idempotency :: "receipt_row list"
  t_schema_migrations :: "time gomap"

definition empty_db :: sqldb where
  "empty_db =
     \<lparr>t_agents = [], t_conversations = [], t_messages = [], t_conversation_messages = [], t_counters = [],
      t_delivery_cursors = [], t_deliveries = [], t_idempotency = [], t_schema_migrations = []\<rparr>"

section \<open>Writing rows\<close>

text \<open>The conflict clause keeps the secret of an agent that is registered again.\<close>

definition saveAgentTo :: "agent \<Rightarrow> sqldb \<Rightarrow> sqldb" where
  "saveAgentTo a db =
     db\<lparr>t_agents := AList.update (a_AgentID a)
          \<lparr>ar_agent = a,
           ar_secret = (case map_of (t_agents db) (a_AgentID a) of Some row \<Rightarrow> ar_secret row | None \<Rightarrow> [])\<rparr>
          (t_agents db)\<rparr>"

definition saveConversationTo :: "conversation \<Rightarrow> sqldb \<Rightarrow> sqldb" where
  "saveConversationTo c db =
     db\<lparr>t_conversations := AList.update (c_ConversationID c) (c\<lparr>c_Meta := nullableJSON (c_Meta c)\<rparr>)
          (t_conversations db)\<rparr>"

definition message_row :: "message \<Rightarrow> message" where
  "message_row m = m\<lparr>m_Meta := nullableJSON (m_Meta m)\<rparr>"

definition saveMessageTo :: "message \<Rightarrow> sqldb \<Rightarrow> sqldb" where
  "saveMessageTo m db = db\<lparr>t_messages := AList.update (m_MessageID m) (message_row m) (t_messages db)\<rparr>"

definition saveConversationMessageTo :: "string \<Rightarrow> string \<Rightarrow> int \<Rightarrow> sqldb \<Rightarrow> sqldb" where
  "saveConversationMessageTo cid mid position db =
     db\<lparr>t_conversation_messages :=
          filter (\<lambda>l. \<not> (lk_conversation_id l = cid \<and> lk_position l = position)) (t_conversation_messages db)
          @ [\<lparr>lk_conversation_id = cid, lk_message_id = mid, lk_position = position\<rparr>]\<rparr>"

definition saveCountersTo :: "int \<Rightarrow> int \<Rightarrow> sqldb \<Rightarrow> sqldb" where
  "saveCountersTo nextConv nextMsg db =
     db\<lparr>t_counters := AList.update ''next_message_id'' nextMsg
          (AList.update ''next_conversation_id'' nextConv (t_counters db))\<rparr>"

text \<open>\<^verbatim>\<open>INSERT INTO delivery_cursors ... ON CONFLICT DO NOTHING\<close>.\<close>

definition ensure_cursor :: "string \<Rightarrow> sqldb \<Rightarrow> sqldb" where
  "ensure_cursor agentID db =
     (if has_key (t_delivery_cursors db) agentID then db
      else db\<lparr>t_delivery_cursors :=
             AList.update agentID \<lparr>dc_next_seq = 0, dc_acknowledged_cursor = 0\<rparr> (t_delivery_cursors db)\<rparr>)"

definition cursor_of :: "string \<Rightarrow> sqldb \<Rightarrow> cursor_row" where
  "cursor_of agentID db = get_or \<lparr>dc_next_seq = 0, dc_acknowledged_cursor = 0\<rparr> (t_delivery_cursors db) agentID"

definition set_next_seq :: "string \<Rightarrow> int \<Rightarrow> sqldb \<Rightarrow> sqldb" where
  "set_next_seq agentID seq db =
     (case map_of (t_delivery_cursors db) agentID of
        None \<Rightarrow> db
      | Some row \<Rightarrow>
          db\<lparr>t_delivery_cursors := AList.update agentID (row\<lparr>dc_next_seq := seq\<rparr>) (t_delivery_cursors db)\<rparr>)"

definition set_acknowledged :: "string \<Rightarrow> int \<Rightarrow> sqldb \<Rightarrow> sqldb" where
  "set_acknowledged agentID cursor db =
     (case map_of (t_delivery_cursors db) agentID of
        None \<Rightarrow> db
      | Some row \<Rightarrow>
          db\<lparr>t_delivery_cursors :=
               AList.update agentID (row\<lparr>dc_acknowledged_cursor := cursor\<rparr>) (t_delivery_cursors db)\<rparr>)"

text \<open>The primary key, the unique message and the foreign key of the table \<^verbatim>\<open>deliveries\<close>.\<close>

definition insert_delivery :: "delivery_row \<Rightarrow> sqldb \<Rightarrow> string + sqldb" where
  "insert_delivery d db =
     (if list_ex (\<lambda>e. dl_message_id e = dl_message_id d \<or>
            (dl_target_agent_id e = dl_target_agent_id d \<and> dl_delivery_seq e = dl_delivery_seq d)) (t_deliveries db)
      then Inl ''UNIQUE constraint failed: deliveries''
      else if \<not> has_key (t_messages db) (dl_message_id d) then Inl ''FOREIGN KEY constraint failed''
      else Inr (db\<lparr>t_deliveries := t_deliveries db @ [d]\<rparr>))"

definition same_receipt :: "receipt_row \<Rightarrow> receipt_row \<Rightarrow> bool" where
  "same_receipt r r' \<longleftrightarrow>
     id_from_agent r = id_from_agent r' \<and> id_to_agent r = id_to_agent r' \<and> id_request_id r = id_request_id r'"

definition insert_receipt :: "receipt_row \<Rightarrow> sqldb \<Rightarrow> string + sqldb" where
  "insert_receipt r db =
     (if list_ex (same_receipt r) (t_idempotency db) then Inl ''UNIQUE constraint failed: idempotency''
      else Inr (db\<lparr>t_idempotency := t_idempotency db @ [r]\<rparr>))"

text \<open>An update of the deliveries that satisfy a condition.\<close>

definition update_deliveries ::
  "(delivery_row \<Rightarrow> bool) \<Rightarrow> (delivery_row \<Rightarrow> delivery_row) \<Rightarrow> sqldb \<Rightarrow> sqldb" where
  "update_deliveries P f db = db\<lparr>t_deliveries := map (\<lambda>d. if P d then f d else d) (t_deliveries db)\<rparr>"

definition open_delivery :: "delivery_row \<Rightarrow> bool" where
  "open_delivery d \<longleftrightarrow> dl_status d = DeliveryPending \<or> dl_status d = DeliveryAttempting"

definition expire_deliveries :: "time \<Rightarrow> sqldb \<Rightarrow> sqldb" where
  "expire_deliveries now =
     update_deliveries (\<lambda>d. open_delivery d \<and> text_le (dl_expires_at d) now)
       (\<lambda>d. d\<lparr>dl_status := DeliveryFailed, dl_next_attempt_at := 0,
              dl_last_error := ''transport deadline expired''\<rparr>)"

definition receive_deliveries :: "time \<Rightarrow> (delivery_row \<Rightarrow> bool) \<Rightarrow> sqldb \<Rightarrow> sqldb" where
  "receive_deliveries now P =
     update_deliveries (\<lambda>d. P d \<and> dl_status d \<noteq> DeliveryReceived \<and> dl_status d \<noteq> DeliveryFailed)
       (\<lambda>d. d\<lparr>dl_status := DeliveryReceived, dl_received_at := now, dl_last_error := []\<rparr>)"

text \<open>
  Offering a message to its receiver: the update both a poll and a push claim run. The in-memory copy
  follows the same rule (\<open>offered\<close> on the message).
\<close>

definition offered :: "time \<Rightarrow> message \<Rightarrow> message" where
  "offered now m =
     (let m1 = m\<lparr>m_QueuedForAgent := False\<rparr>;
          m2 = (if m_Type m1 = MessageTypeRequest \<and> m_State m1 = StatePending
                then m1\<lparr>m_State := StateWaitingAck\<rparr> else m1)
      in if IsZero (m_DeliveredAt m2) then m2\<lparr>m_DeliveredAt := now\<rparr> else m2)"

definition offer_message :: "time \<Rightarrow> string \<Rightarrow> sqldb \<Rightarrow> sqldb" where
  "offer_message now mid db =
     (case map_of (t_messages db) mid of
        None \<Rightarrow> db
      | Some m \<Rightarrow> db\<lparr>t_messages := AList.update mid (offered now m) (t_messages db)\<rparr>)"

text \<open>Deleting messages takes their deliveries along (\<^verbatim>\<open>ON DELETE CASCADE\<close>).\<close>

definition delete_messages :: "(message \<Rightarrow> bool) \<Rightarrow> sqldb \<Rightarrow> sqldb" where
  "delete_messages P db =
     (let gone = map fst (filter (\<lambda>(k, m). P m) (t_messages db)) in
      db\<lparr>t_messages := filter (\<lambda>(k, m). \<not> P m) (t_messages db),
         t_deliveries := filter (\<lambda>d. dl_message_id d \<notin> set gone) (t_deliveries db)\<rparr>)"

definition awaiting_delivery :: "sqldb \<Rightarrow> string \<Rightarrow> bool" where
  "awaiting_delivery db mid = list_ex (\<lambda>d. open_delivery d \<and> dl_message_id d = mid) (t_deliveries db)"

end
