(* ===== verification/Sqlite_Delivery.thy ===== *)
theory Sqlite_Delivery
  imports Sqlite_Db
begin

text \<open>
  Durable delivery: \<^verbatim>\<open>pkg/bus/sqlite_delivery.go\<close>.

  The state \<open>sqlite\<close> is what \<^verbatim>\<open>SQLiteStore\<close> keeps beside the in-memory store: the database and the
  receipt writes that failed. A transaction either commits or leaves the database as it was; the argument
  \<open>io\<close> of a transaction is the error of a statement or of the commit that the disk refuses, if any.
  Clock readings are arguments.
\<close>

section \<open>State\<close>

record sqlite =
  sq_db :: sqldb
  sq_deliveryPersistErrors :: "string gomap"

definition durableDeliveryBackfill :: string where
  "durableDeliveryBackfill = ''durable-delivery-v1''"

definition deliveryExpiry :: "message \<Rightarrow> time" where
  "deliveryExpiry m =
     (let expiresAt = m_TTLExpiresAt m in
      if \<not> IsZero (m_GraceUntil m) \<and> (IsZero expiresAt \<or> m_GraceUntil m < expiresAt)
      then m_GraceUntil m else expiresAt)"

section \<open>The barrier of sends and injections\<close>

definition new_delivery :: "string \<Rightarrow> int \<Rightarrow> string \<Rightarrow> delivery_status \<Rightarrow> time \<Rightarrow> time \<Rightarrow> delivery_row" where
  "new_delivery target seq mid status attemptAt expiresAt =
     \<lparr>dl_target_agent_id = target, dl_delivery_seq = seq, dl_message_id = mid, dl_status = status,
      dl_next_attempt_at = attemptAt, dl_attempt_count = 0, dl_received_at = 0, dl_expires_at = expiresAt,
      dl_last_error = []\<rparr>"

text \<open>The next delivery to an agent: its row gets the next sequence number, which advances.\<close>

definition append_delivery :: "string \<Rightarrow> string \<Rightarrow> delivery_status \<Rightarrow> time \<Rightarrow> time \<Rightarrow> sqldb \<Rightarrow> string + sqldb" where
  "append_delivery target mid status attemptAt expiresAt db =
     (let db1 = ensure_cursor target db; seq = dc_next_seq (cursor_of target db1) in
      case insert_delivery (new_delivery target seq mid status attemptAt expiresAt) db1 of
        Inl err \<Rightarrow> Inl err
      | Inr db2 \<Rightarrow> Inr (set_next_seq target (seq + 1) db2))"

definition accept_rows :: "send_acceptance \<Rightarrow> sqldb \<Rightarrow> sqldb" where
  "accept_rows a db =
     saveCountersTo (sa_nextConversationID a) (sa_nextMessageID a)
       (saveConversationMessageTo (c_ConversationID (sa_conversation a)) (m_MessageID (sa_message a))
          (sa_conversationPos a)
          (saveMessageTo (sa_message a) (saveConversationTo (sa_conversation a) db)))"

definition accept_delivery :: "send_acceptance \<Rightarrow> sqldb \<Rightarrow> string + sqldb" where
  "accept_delivery a db =
     (let m = sa_message a in
      if m_To m = [] then Inr db
      else append_delivery (m_To m) (m_MessageID m)
             (if sa_pushURL a \<noteq> [] then DeliveryAttempting else DeliveryPending) (m_CreatedAt m) (deliveryExpiry m) db)"

definition accept_receipt :: "duration \<Rightarrow> send_acceptance \<Rightarrow> sqldb \<Rightarrow> string + sqldb" where
  "accept_receipt window a db =
     (if sa_idempotencyKey a = [] then Inr db
      else insert_receipt
             \<lparr>id_from_agent = m_From (sa_message a), id_to_agent = m_To (sa_message a),
              id_request_id = m_RequestID (sa_message a), id_message_id = m_MessageID (sa_message a),
              id_accepted_at = ie_CreatedAt (sa_idempotency a),
              id_expires_at = Add (ie_CreatedAt (sa_idempotency a)) window\<rparr> db)"

definition persistAcceptance ::
  "string option \<Rightarrow> duration \<Rightarrow> send_acceptance \<Rightarrow> sqlite \<Rightarrow> (bus_error + string option) \<times> sqlite" where
  "persistAcceptance io window a q =
     (case accept_delivery a (accept_rows a (sq_db q)) of
        Inl err \<Rightarrow> (Inl (OtherError err), q)
      | Inr db1 \<Rightarrow>
          (case accept_receipt window a db1 of
             Inl err \<Rightarrow> (Inl (OtherError err), q)
           | Inr db2 \<Rightarrow>
               (case io of
                  Some err \<Rightarrow> (Inl (OtherError err), q)
                | None \<Rightarrow>
                    (Inr (if sa_pushURL a \<noteq> [] then Some (m_MessageID (sa_message a)) else None),
                     q\<lparr>sq_db := db2\<rparr>))))"

section \<open>Push receipts\<close>

definition recordDeliveryPersistenceResultLocked :: "string \<Rightarrow> string option \<Rightarrow> sqlite \<Rightarrow> sqlite" where
  "recordDeliveryPersistenceResultLocked mid err q =
     (case err of
        None \<Rightarrow> q\<lparr>sq_deliveryPersistErrors := AList.delete mid (sq_deliveryPersistErrors q)\<rparr>
      | Some e \<Rightarrow> q\<lparr>sq_deliveryPersistErrors := AList.update mid e (sq_deliveryPersistErrors q)\<rparr>)"

text \<open>A single statement outside a transaction: it has its effect unless it fails.\<close>

definition run_statement :: "string option \<Rightarrow> (sqldb \<Rightarrow> sqldb) \<Rightarrow> sqlite \<Rightarrow> sqlite" where
  "run_statement io f q = (if io = None then q\<lparr>sq_db := f (sq_db q)\<rparr> else q)"

definition recordPushSuccess :: "string option \<Rightarrow> time \<Rightarrow> string \<Rightarrow> int \<Rightarrow> sqlite \<Rightarrow> sqlite" where
  "recordPushSuccess io now mid attempts q =
     recordDeliveryPersistenceResultLocked mid io
       (run_statement io
          (update_deliveries (\<lambda>d. dl_message_id d = mid \<and> dl_status d = DeliveryAttempting)
             (\<lambda>d. d\<lparr>dl_status := DeliveryReceived, dl_received_at := now,
                    dl_attempt_count := dl_attempt_count d + attempts, dl_next_attempt_at := 0,
                    dl_last_error := []\<rparr>)) q)"

fun backoff_loop :: "nat \<Rightarrow> duration \<Rightarrow> duration" where
  "backoff_loop 0 backoff = backoff"
| "backoff_loop (Suc n) backoff =
     (let b = wrap64 (backoff * 2) in if b \<ge> 30 * Second then 30 * Second else backoff_loop n b)"

definition pushCycleBackoff :: "config \<Rightarrow> int \<Rightarrow> duration" where
  "pushCycleBackoff cfg attempts =
     (let backoff = (if cfg_PushBaseBackoff cfg \<le> 0 then 500 * Millisecond else cfg_PushBaseBackoff cfg) in
      backoff_loop (nat (attempts - 1)) backoff)"

definition recordPushFailure :: "string option \<Rightarrow> config \<Rightarrow> time \<Rightarrow> string \<Rightarrow> int \<Rightarrow> string \<Rightarrow> sqlite \<Rightarrow> sqlite" where
  "recordPushFailure io cfg now mid attempts failure q =
     (let nextAttempt = Add now (pushCycleBackoff cfg attempts) in
      recordDeliveryPersistenceResultLocked mid io
        (run_statement io
           (update_deliveries (\<lambda>d. dl_message_id d = mid \<and> dl_status d = DeliveryAttempting)
              (\<lambda>d. d\<lparr>dl_status := (if text_le (dl_expires_at d) now then DeliveryFailed else DeliveryPending),
                     dl_next_attempt_at := (if text_le (dl_expires_at d) now then 0 else nextAttempt),
                     dl_attempt_count := dl_attempt_count d + attempts, dl_last_error := take 200 failure\<rparr>)) q))"

text \<open>Writing the receipt a worker or \<^verbatim>\<open>finishAcceptance\<close> hands over: \<^verbatim>\<open>onSuccess\<close> or \<^verbatim>\<open>onFailure\<close>.\<close>

definition write_receipt :: "string option \<Rightarrow> config \<Rightarrow> time \<Rightarrow> push_receipt \<Rightarrow> sqlite \<Rightarrow> sqlite" where
  "write_receipt io cfg now r q =
     (if pr_failure r = [] then recordPushSuccess io now (pr_MessageID r) (pr_attempts r) q
      else recordPushFailure io cfg now (pr_MessageID r) (pr_attempts r) (pr_failure r) q)"

section \<open>Retrying push deliveries\<close>

text \<open>Which of the statements of a claim fail; all errors but that of the query are ignored.\<close>

record claim_io =
  ci_expire :: bool
  ci_query :: bool
  ci_claim :: "string \<Rightarrow> bool"
  ci_mark :: "string \<Rightarrow> bool"

definition claimable :: "time \<Rightarrow> sqldb \<Rightarrow> delivery_row \<Rightarrow> bool" where
  "claimable now db d \<longleftrightarrow>
     dl_status d = DeliveryPending \<and>
     (IsZero (dl_next_attempt_at d) \<or> text_le (dl_next_attempt_at d) now) \<and>
     text_less now (dl_expires_at d) \<and> has_key (t_messages db) (dl_message_id d) \<and>
     (case map_of (t_agents db) (dl_target_agent_id d) of
        None \<Rightarrow> False
      | Some row \<Rightarrow>
          a_Mode (ar_agent row) = AgentModePush \<and> a_Status (ar_agent row) = AgentStatusActive \<and>
          text_less now (a_ExpiresAt (ar_agent row)) \<and> a_CallbackURL (ar_agent row) \<noteq> [])"

definition callback_of :: "sqldb \<Rightarrow> delivery_row \<Rightarrow> string" where
  "callback_of db d =
     (case map_of (t_agents db) (dl_target_agent_id d) of Some row \<Rightarrow> a_CallbackURL (ar_agent row) | None \<Rightarrow> [])"

text \<open>The order is by the text of the next attempt, then by sequence number; at most 32 rows.\<close>

definition claim_candidates :: "time \<Rightarrow> sqldb \<Rightarrow> (string \<times> string) list" where
  "claim_candidates now db =
     map (\<lambda>d. (dl_message_id d, callback_of db d))
       (take 32 (sort_key (\<lambda>d. timeToString (dl_next_attempt_at d))
          (sort_key dl_delivery_seq (filter (claimable now db) (t_deliveries db)))))"

definition claim_one :: "claim_io \<Rightarrow> time \<Rightarrow> string \<times> string \<Rightarrow> sqldb \<Rightarrow> bool \<times> sqldb" where
  "claim_one io now c db =
     (let pending = (\<lambda>d. dl_message_id d = fst c \<and> dl_status d = DeliveryPending) in
      if ci_claim io (fst c) then (False, db)
      else
        (let n = length (filter pending (t_deliveries db));
             db1 = update_deliveries pending (\<lambda>d. d\<lparr>dl_status := DeliveryAttempting\<rparr>) db in
         if n = 1 then (True, if ci_mark io (fst c) then db1 else offer_message now (fst c) db1)
         else (False, db1)))"

fun claim_loop :: "claim_io \<Rightarrow> time \<Rightarrow> (string \<times> string) list \<Rightarrow> sqldb \<Rightarrow> (string \<times> string) list \<times> sqldb" where
  "claim_loop io now [] db = ([], db)"
| "claim_loop io now (c # cs) db =
     (case claim_one io now c db of
        (claimed, db1) \<Rightarrow>
          (case claim_loop io now cs db1 of
             (out, db2) \<Rightarrow> (if claimed then c # out else out, db2)))"

definition claimDuePushes :: "claim_io \<Rightarrow> time \<Rightarrow> sqlite \<Rightarrow> (string \<times> string) list \<times> sqlite" where
  "claimDuePushes io now q =
     (let db1 = (if ci_expire io then sq_db q else expire_deliveries now (sq_db q)) in
      if ci_query io then ([], q\<lparr>sq_db := db1\<rparr>)
      else (case claim_loop io now (claim_candidates now db1) db1 of
              (out, db2) \<Rightarrow> (out, q\<lparr>sq_db := db2\<rparr>)))"

text \<open>A message read from its row: the times are parsed, errors ignored.\<close>

definition scanSQLiteMessage :: "message \<Rightarrow> message" where
  "scanSQLiteMessage m =
     m\<lparr>m_CreatedAt := parsed_or_zero (m_CreatedAt m), m_TerminalAt := parsed_or_zero (m_TerminalAt m),
       m_DeliveredAt := parsed_or_zero (m_DeliveredAt m), m_LastProgressAt := parsed_or_zero (m_LastProgressAt m),
       m_TTLExpiresAt := parsed_or_zero (m_TTLExpiresAt m), m_GraceUntil := parsed_or_zero (m_GraceUntil m)\<rparr>"

text \<open>The in-memory copy of an offered message follows its row.\<close>

definition project_offer :: "string \<Rightarrow> time \<Rightarrow> store \<Rightarrow> store" where
  "project_offer mid deliveredAt s =
     (case map_of (s_messages s) mid of
        None \<Rightarrow> s
      | Some existing \<Rightarrow> s\<lparr>s_messages := AList.update mid (offered deliveredAt existing) (s_messages s)\<rparr>)"

text \<open>
  \<open>io\<close> is the error of the query, \<open>rio\<close> that of a receipt write; \<open>now\<close> is the reading of the clock for
  that write.
\<close>

definition enqueueClaimedPush ::
  "string option \<Rightarrow> string option \<Rightarrow> time \<Rightarrow> string \<times> string \<Rightarrow> store \<Rightarrow> sqlite \<Rightarrow> store \<times> sqlite" where
  "enqueueClaimedPush io rio now claimed s q =
     (case (if io = None then map_of (t_messages (sq_db q)) (fst claimed) else None) of
        None \<Rightarrow> (s, recordPushFailure rio (s_cfg s) now (fst claimed) 0 ''message unavailable'' q)
      | Some row \<Rightarrow>
          (let m = scanSQLiteMessage row;
               s1 = project_offer (m_MessageID m) (m_DeliveredAt m) s;
               job = \<lparr>pj_url = snd claimed, pj_payload = push_payload m True, pj_receipt = Some (m_MessageID m)\<rparr>;
               (failure, s2) = enqueuePushJobLocked job s1 in
           if failure \<noteq> [] then (s2, recordPushFailure rio (s_cfg s) now (m_MessageID m) 0 failure q)
           else (s2, q)))"

definition deliveryCounts :: "sqldb \<Rightarrow> int \<times> int" where
  "deliveryCounts db =
     (int (length (filter open_delivery (t_deliveries db))),
      int (length (filter (\<lambda>d. dl_status d = DeliveryFailed) (t_deliveries db))))"

end
