(* ===== verification/Sqlite_Inbox.thy ===== *)
theory Sqlite_Inbox
  imports Sqlite_Delivery
begin

text \<open>
  The durable inbox: \<^verbatim>\<open>pollDurableInbox\<close>, \<^verbatim>\<open>readDurableInbox\<close> and \<^verbatim>\<open>persistAck\<close> of
  \<^verbatim>\<open>pkg/bus/sqlite_delivery.go\<close>.

  A read is a transaction on the database (\<open>read_transaction\<close>) followed by a step that updates the
  in-memory copies (\<open>project_offers\<close>); the two take different locks, so other goroutines may run in
  between. A turn of the long poll is three atomic steps: sweep and authorize, the transaction, the
  projection. The record \<open>durable_turn\<close> has what happens between them and while the poll sleeps.
\<close>

definition durableInboxFallbackMaxEvents :: int where
  "durableInboxFallbackMaxEvents = 10000"

definition durableInboxMaxBatchBytes :: int where
  "durableInboxMaxBatchBytes = 33554432"

definition durableInboxBatchLimits :: "config \<Rightarrow> int \<times> int" where
  "durableInboxBatchLimits cfg =
     (let maxEvents = (if cfg_MaxInboxEventsPerAgent cfg \<le> 0 then durableInboxFallbackMaxEvents
                       else cfg_MaxInboxEventsPerAgent cfg);
          maxBytes = (if cfg_MaxInboxBytesPerAgent cfg \<le> 0 \<or> cfg_MaxInboxBytesPerAgent cfg > durableInboxMaxBatchBytes
                      then durableInboxMaxBatchBytes else cfg_MaxInboxBytesPerAgent cfg)
      in (maxEvents, maxBytes))"

definition messageInboxEvent :: "message \<Rightarrow> inbox_event" where
  "messageInboxEvent m =
     \<lparr>i_MessageID = m_MessageID m, i_Type = m_Type m, i_From = m_From m,
      i_ConversationID = m_ConversationID m, i_Body = m_Body m, i_Meta = m_Meta m,
      i_Attachments = [] @ m_Attachments m, i_CreatedAt = m_CreatedAt m\<rparr>"

text \<open>The deliveries a poll may return: open, not expired, at or past the cursor, in sequence order.\<close>

definition offerable :: "time \<Rightarrow> string \<Rightarrow> int \<Rightarrow> delivery_row \<Rightarrow> bool" where
  "offerable now agentID cursor d \<longleftrightarrow>
     dl_target_agent_id d = agentID \<and> dl_delivery_seq d \<ge> cursor \<and> open_delivery d \<and>
     text_less now (dl_expires_at d)"

definition inbox_rows :: "time \<Rightarrow> string \<Rightarrow> int \<Rightarrow> sqldb \<Rightarrow> (int \<times> message) list" where
  "inbox_rows now agentID cursor db =
     List.map_filter (\<lambda>d. map_option (\<lambda>m. (dl_delivery_seq d, m)) (map_of (t_messages db) (dl_message_id d)))
       (sort_key dl_delivery_seq (filter (offerable now agentID cursor) (t_deliveries db)))"

fun batch_loop :: "int \<Rightarrow> (int \<times> message) list \<Rightarrow> int \<Rightarrow> (int \<times> message) list \<Rightarrow> (int \<times> message) list" where
  "batch_loop maxBytes pending batchBytes [] = pending"
| "batch_loop maxBytes pending batchBytes ((seq, row) # rows) =
     (let message = scanSQLiteMessage row; eventBytes = inboxEventSize (messageInboxEvent message) in
      if pending \<noteq> [] \<and> batchBytes + eventBytes > maxBytes then pending
      else batch_loop maxBytes (pending @ [(seq, message)]) (batchBytes + eventBytes) rows)"

text \<open>The three clock readings of a read: for the receipts, for the query, and for the offer.\<close>

record read_clock =
  rc_ack :: time
  rc_query :: time
  rc_offer :: time

text \<open>What the client has read is acknowledged before anything is selected.\<close>

definition acknowledge :: "time \<Rightarrow> string \<Rightarrow> int \<Rightarrow> sqldb \<Rightarrow> int \<times> sqldb" where
  "acknowledge now agentID requested db =
     (let db1 = ensure_cursor agentID db;
          row = cursor_of agentID db1;
          cursor = (if requested < dc_acknowledged_cursor row then dc_acknowledged_cursor row else requested);
          cursor = (if cursor > dc_next_seq row then dc_next_seq row else cursor)
      in (cursor,
          if cursor > dc_acknowledged_cursor row then
            receive_deliveries now (\<lambda>d. dl_target_agent_id d = agentID \<and> dl_delivery_seq d < cursor)
              (set_acknowledged agentID cursor db1)
          else db1))"

definition read_transaction ::
  "string option \<Rightarrow> config \<Rightarrow> read_clock \<Rightarrow> string \<Rightarrow> int \<Rightarrow> int \<Rightarrow> sqlite \<Rightarrow>
     (string + (int \<times> message) list \<times> int) \<times> sqlite" where
  "read_transaction io cfg clk agentID requestedCursor requestedLimit q =
     (case io of
        Some err \<Rightarrow> (Inl err, q)
      | None \<Rightarrow>
          (let (cursor, db1) = acknowledge (rc_ack clk) agentID requestedCursor (sq_db q);
               (maxEvents, maxBytes) = durableInboxBatchLimits cfg;
               maxEvents = (if requestedLimit > 0 \<and> requestedLimit < maxEvents then requestedLimit else maxEvents);
               rows = take (nat maxEvents) (inbox_rows (rc_query clk) agentID cursor db1);
               pending = batch_loop maxBytes [] 0 rows;
               db2 = fold (\<lambda>(seq, m). offer_message (rc_offer clk) (m_MessageID m)) pending db1
           in (Inr (map (\<lambda>(seq, m). (seq, offered (rc_offer clk) m)) pending, cursor), q\<lparr>sq_db := db2\<rparr>)))"

definition project_offers :: "(int \<times> message) list \<Rightarrow> store \<Rightarrow> store" where
  "project_offers pending s = fold (\<lambda>(seq, m). project_offer (m_MessageID m) (m_DeliveredAt m)) pending s"

definition next_cursor :: "(int \<times> message) list \<Rightarrow> int \<Rightarrow> int" where
  "next_cursor pending cursor = (if pending = [] then cursor else fst (last pending) + 1)"

definition events_of :: "(int \<times> message) list \<Rightarrow> inbox_event list" where
  "events_of pending = map (\<lambda>(seq, m). messageInboxEvent m) pending"

definition readDurableInbox ::
  "string option \<Rightarrow> read_clock \<Rightarrow> (store \<times> sqlite \<Rightarrow> store \<times> sqlite) \<Rightarrow> string \<Rightarrow> int \<Rightarrow> int \<Rightarrow> store \<Rightarrow> sqlite \<Rightarrow>
     (bus_error + inbox_event list \<times> int) \<times> store \<times> sqlite" where
  "readDurableInbox io clk between agentID requestedCursor requestedLimit s q =
     (case read_transaction io (s_cfg s) clk agentID requestedCursor requestedLimit q of
        (Inl err, q1) \<Rightarrow> (Inl (OtherError err), s, q1)
      | (Inr (pending, cursor), q1) \<Rightarrow>
          (case between (s, q1) of
             (s2, q2) \<Rightarrow>
               (Inr (events_of pending, next_cursor pending cursor), project_offers pending s2, q2)))"

section \<open>The long poll\<close>

record durable_turn =
  dt_orders :: orders
  dt_now :: time
  dt_clock :: read_clock
  dt_later :: time
  dt_io :: "string option"
  dt_before_read :: "store \<times> sqlite \<Rightarrow> store \<times> sqlite"
  dt_before_project :: "store \<times> sqlite \<Rightarrow> store \<times> sqlite"
  dt_others :: "store \<times> sqlite \<Rightarrow> store \<times> sqlite"
  dt_timer :: bool

text \<open>Sweep, authorize and take the channel to sleep on: \<open>Inl\<close> is the error that ends the call.\<close>

definition poll_gate :: "orders \<Rightarrow> time \<Rightarrow> string \<Rightarrow> store \<Rightarrow> (bus_error + nat) \<times> store" where
  "poll_gate R now agentID s =
     (let s1 = sweepLocked R now s in
      case map_of (s_agents s1) agentID of
        None \<Rightarrow> (Inl (newError CodeUnauthorized ''agent is not registered/active'' False 0), s1)
      | Some agent \<Rightarrow>
          if a_Status agent \<noteq> AgentStatusActive then
            (Inl (newError CodeUnauthorized ''agent is not registered/active'' False 0), s1)
          else (case authorizeAgentForName s1 (a_AgentID agent) agentID of
                  Some err \<Rightarrow> (Inl err, s1)
                | None \<Rightarrow> (case inboxNotifyChanLocked agentID s1 of (ch, s2) \<Rightarrow> (Inr ch, s2))))"

definition durable_poll_turn ::
  "durable_turn \<Rightarrow> poll_inbox_input \<Rightarrow> time \<Rightarrow> duration \<Rightarrow> store \<Rightarrow> sqlite \<Rightarrow>
     (bus_error + inbox_event list \<times> int) turn_result \<times> store \<times> sqlite" where
  "durable_poll_turn t input deadline wait s q =
     (let agentID = TrimSpace (pi_AgentID input) in
      case poll_gate (dt_orders t) (dt_now t) agentID s of
        (Inl err, s1) \<Rightarrow> (Done (Inl err), s1, q)
      | (Inr notifier, s1) \<Rightarrow>
          (case dt_before_read t (s1, q) of
             (s2, q2) \<Rightarrow>
               (case readDurableInbox (dt_io t) (dt_clock t) (dt_before_project t) agentID
                       (pi_Cursor input) (pi_Limit input) s2 q2 of
                  (Inl err, s3, q3) \<Rightarrow> (Done (Inl err), s3, q3)
                | (Inr (events, cursor), s3, q3) \<Rightarrow>
                    if length events > 0 \<or> wait = 0 then (Done (Inr (events, cursor)), s3, q3)
                    else if Sub deadline (dt_later t) \<le> 0 then (Done (Inr ([], cursor)), s3, q3)
                    else (Blocked notifier cursor, s3, q3))))"

fun durable_poll_loop ::
  "poll_inbox_input \<Rightarrow> time \<Rightarrow> duration \<Rightarrow> durable_turn list \<Rightarrow> store \<Rightarrow> sqlite \<Rightarrow>
     (bus_error + inbox_event list \<times> int) option \<times> store \<times> sqlite" where
  "durable_poll_loop input deadline wait [] s q = (None, s, q)"
| "durable_poll_loop input deadline wait (t # ts) s q =
     (case durable_poll_turn t input deadline wait s q of
        (Done r, s1, q1) \<Rightarrow> (Some r, s1, q1)
      | (Blocked notifier cursor, s1, q1) \<Rightarrow>
          (case dt_others t (s1, q1) of
             (s2, q2) \<Rightarrow>
               if dt_timer t then (Some (Inr ([], cursor)), s2, q2)
               else if notifier \<in> set (s_closedChans s2) then durable_poll_loop input deadline wait ts s2 q2
               else (None, s2, q2)))"

definition pollDurableInbox ::
  "time \<Rightarrow> poll_inbox_input \<Rightarrow> durable_turn list \<Rightarrow> store \<Rightarrow> sqlite \<Rightarrow>
     (bus_error + inbox_event list \<times> int) option \<times> store \<times> sqlite" where
  "pollDurableInbox start input ts s q =
     (case poll_check input s of
        Some err \<Rightarrow> (Some (Inl err), s, q)
      | None \<Rightarrow>
          (let wait = clamp_wait (pi_Wait input) s in
           durable_poll_loop input (Add start wait) wait ts s q))"

section \<open>Acknowledgements and events\<close>

definition persistAck :: "string option \<Rightarrow> time \<Rightarrow> message \<Rightarrow> sqlite \<Rightarrow> bus_error option \<times> sqlite" where
  "persistAck io now m q =
     (case io of
        Some err \<Rightarrow> (Some (OtherError err), q)
      | None \<Rightarrow>
          (None, q\<lparr>sq_db := receive_deliveries now (\<lambda>d. dl_message_id d = m_MessageID m)
                     (saveMessageTo m (sq_db q))\<rparr>))"

end
