(* ===== verification/Sqlite_Store.thy ===== *)
theory Sqlite_Store
  imports Sqlite_Inbox Persistent
begin

text \<open>
  The SQLite backend, \<^verbatim>\<open>SQLiteStore\<close> of \<^verbatim>\<open>pkg/bus/sqlite.go\<close>: retention in the database, loading it at
  start-up, the upgrade of databases from before durable delivery (\<^verbatim>\<open>backfillLegacyDeliveryState\<close>),
  shutdown, and the methods of \<^verbatim>\<open>bus.API\<close>.

  The backend's state is the pair of the in-memory store and the record \<open>sqlite\<close>. The tables of the model
  have all the columns that \<^verbatim>\<open>ensureAgentColumns\<close> and \<^verbatim>\<open>ensureMessageColumns\<close> add to older files.
\<close>

section \<open>Retention in the database\<close>

text \<open>Statements run one by one, each committed on its own; the first that fails ends the sequence.\<close>

fun exec_all :: "string option list \<Rightarrow> (sqldb \<Rightarrow> sqldb) list \<Rightarrow> sqldb \<Rightarrow> string option \<times> sqldb" where
  "exec_all (Some err # ios) (f # fs) db = (Some err, db)"
| "exec_all (None # ios) (f # fs) db = exec_all ios fs (f db)"
| "exec_all [] (f # fs) db = exec_all [] fs (f db)"
| "exec_all ios [] db = (None, db)"

definition drop_receipts :: "time \<Rightarrow> sqldb \<Rightarrow> sqldb" where
  "drop_receipts now db = db\<lparr>t_idempotency := filter (\<lambda>r. \<not> text_less (id_expires_at r) now) (t_idempotency db)\<rparr>"

definition drop_old_messages :: "config \<Rightarrow> time \<Rightarrow> sqldb \<Rightarrow> sqldb" where
  "drop_old_messages cfg now db =
     (if cfg_MessageMaxAge cfg > 0 then
        (let cutoff = Add now (wrap64 (- cfg_MessageMaxAge cfg)) in
         delete_messages (\<lambda>m. timeToString (m_CreatedAt m) \<noteq> [] \<and> text_less (m_CreatedAt m) cutoff \<and>
             \<not> awaiting_delivery db (m_MessageID m)) db)
      else db)"

definition drop_finished_messages :: "config \<Rightarrow> time \<Rightarrow> sqldb \<Rightarrow> sqldb" where
  "drop_finished_messages cfg now db =
     (if cfg_MessageRetention cfg > 0 then
        (let cutoff = Add now (wrap64 (- cfg_MessageRetention cfg)) in
         delete_messages (\<lambda>m. isTerminal (m_State m) \<and>
             text_less (if timeToString (m_TerminalAt m) \<noteq> [] then m_TerminalAt m else m_CreatedAt m) cutoff \<and>
             \<not> awaiting_delivery db (m_MessageID m)) db)
      else db)"

definition drop_conversations :: "config \<Rightarrow> time \<Rightarrow> sqldb \<Rightarrow> sqldb" where
  "drop_conversations cfg now db =
     (if cfg_ConversationRetention cfg > 0 then
        (let cutoff = Add now (wrap64 (- cfg_ConversationRetention cfg)) in
         db\<lparr>t_conversations := filter (\<lambda>(cid, c).
              \<not> (timeToString (c_LastMessageAt c) \<noteq> [] \<and> text_less (c_LastMessageAt c) cutoff \<and>
                 cid \<notin> set (map (m_ConversationID \<circ> snd) (t_messages db)))) (t_conversations db)\<rparr>)
      else db)"

definition drop_links :: "sqldb \<Rightarrow> sqldb" where
  "drop_links db =
     db\<lparr>t_conversation_messages := filter (\<lambda>l. has_key (t_messages db) (lk_message_id l)) (t_conversation_messages db)\<rparr>"

text \<open>The last statement, the incremental vacuum, changes no table.\<close>

definition prune_statements :: "config \<Rightarrow> time \<Rightarrow> (sqldb \<Rightarrow> sqldb) list" where
  "prune_statements cfg now =
     [expire_deliveries now, drop_receipts now, drop_old_messages cfg now, drop_finished_messages cfg now,
      drop_conversations cfg now, drop_links, id]"

definition pruneDB :: "string option list \<Rightarrow> config \<Rightarrow> time \<Rightarrow> sqlite \<Rightarrow> string option \<times> sqlite" where
  "pruneDB ios cfg now q =
     (case exec_all ios (prune_statements cfg now) (sq_db q) of (err, db) \<Rightarrow> (err, q\<lparr>sq_db := db\<rparr>))"

section \<open>Loading\<close>

definition loadCounters :: "sqldb \<Rightarrow> store \<Rightarrow> store" where
  "loadCounters db s =
     s\<lparr>s_nextConversationID := get_or (s_nextConversationID s) (t_counters db) ''next_conversation_id'',
       s_nextMessageID := get_or (s_nextMessageID s) (t_counters db) ''next_message_id''\<rparr>"

text \<open>
  A nil \<^verbatim>\<open>*BuildInfo\<close> is a non-nil interface value to \<^verbatim>\<open>nullableJSON\<close>, so the column holds the text
  \<^verbatim>\<open>null\<close> and reading it leaves an empty struct behind.
\<close>

definition loaded_agent :: "agent \<Rightarrow> agent" where
  "loaded_agent a =
     a\<lparr>a_Build := Some (case a_Build a of Some b \<Rightarrow> b | None \<Rightarrow> \<lparr>bi_Commit = [], bi_Dirty = False\<rparr>),
       a_Meta := Some (case a_Meta a of Some m \<Rightarrow> m
                       | None \<Rightarrow> \<lparr>am_Owner = [], am_Repo = [], am_HealthURL = [], am_Dependencies = []\<rparr>),
       a_RegisteredAt := parsed_or_zero (a_RegisteredAt a), a_ExpiresAt := parsed_or_zero (a_ExpiresAt a)\<rparr>"

definition loadAgents :: "sqldb \<Rightarrow> store \<Rightarrow> store" where
  "loadAgents db s =
     fold (\<lambda>(k, row) s.
         (let a = loaded_agent (ar_agent row);
              s1 = s\<lparr>s_agents := AList.update (a_AgentID a) a (s_agents s)\<rparr> in
          if has_key (s_inboxes s1) (a_AgentID a) then s1
          else s1\<lparr>s_inboxes := AList.update (a_AgentID a) [] (s_inboxes s1),
                 s_inboxBase := AList.update (a_AgentID a) 0 (s_inboxBase s1)\<rparr>))
       (t_agents db) s"

definition loaded_conversation :: "conversation \<Rightarrow> conversation" where
  "loaded_conversation c =
     c\<lparr>c_CreatedAt := parsed_or_zero (c_CreatedAt c), c_LastMessageAt := parsed_or_zero (c_LastMessageAt c)\<rparr>"

definition loadConversations :: "sqldb \<Rightarrow> store \<Rightarrow> store" where
  "loadConversations db s =
     fold (\<lambda>(k, c) s. s\<lparr>s_conversations := AList.update (c_ConversationID c) (loaded_conversation c) (s_conversations s)\<rparr>)
       (t_conversations db) s"

definition loadMessages :: "sqldb \<Rightarrow> store \<Rightarrow> store" where
  "loadMessages db s =
     fold (\<lambda>(k, m) s. s\<lparr>s_messages := AList.update (m_MessageID m) (scanSQLiteMessage m) (s_messages s)\<rparr>)
       (t_messages db) s"

definition loadConversationMessages :: "sqldb \<Rightarrow> store \<Rightarrow> store" where
  "loadConversationMessages db s =
     fold (\<lambda>l s. s\<lparr>s_conversationMessages := AList.update (lk_conversation_id l)
              (get_or [] (s_conversationMessages s) (lk_conversation_id l) @ [lk_message_id l])
              (s_conversationMessages s)\<rparr>)
       (sort_key lk_conversation_id (sort_key lk_position (t_conversation_messages db))) s"

fun load_receipts :: "receipt_row list \<Rightarrow> store \<Rightarrow> string + store" where
  "load_receipts [] s = Inr s"
| "load_receipts (r # rs) s =
     (case parseSQLiteTime (id_accepted_at r) of
        Inl err \<Rightarrow> Inl (''parse idempotency accepted_at: '' @ err)
      | Inr accepted \<Rightarrow>
          load_receipts rs
            (s\<lparr>s_idempotency := AList.update (dedupeKey (id_from_agent r) (id_to_agent r) (id_request_id r))
                 \<lparr>ie_MessageID = id_message_id r, ie_CreatedAt = accepted\<rparr> (s_idempotency s)\<rparr>))"

definition loadIdempotency :: "time \<Rightarrow> sqldb \<Rightarrow> store \<Rightarrow> string + store" where
  "loadIdempotency now db s =
     load_receipts (filter (\<lambda>r. text_le now (id_expires_at r)) (t_idempotency db)) s"

text \<open>\<open>io\<close> is the error of a query that fails, if any: the start-up fails then.\<close>

definition loadAll :: "string option \<Rightarrow> time \<Rightarrow> sqldb \<Rightarrow> store \<Rightarrow> string + store" where
  "loadAll io now db s =
     (case io of
        Some err \<Rightarrow> Inl err
      | None \<Rightarrow>
          loadIdempotency now db
            (loadConversationMessages db (loadMessages db (loadConversations db (loadAgents db (loadCounters db s))))))"

section \<open>Databases from before durable delivery\<close>

definition legacy_deliverable :: "sqldb \<Rightarrow> message \<Rightarrow> bool" where
  "legacy_deliverable db m \<longleftrightarrow>
     m_To m \<noteq> [] \<and>
     (m_Type m = MessageTypeRequest \<and> (m_State m = StatePending \<or> m_State m = StateWaitingAck) \<or>
      m_Type m = MessageTypeResponse \<or> m_Type m = MessageTypeInform) \<and>
     m_MessageID m \<notin> set (map dl_message_id (t_deliveries db))"

text \<open>\<^verbatim>\<open>ORDER BY created_at, message_id\<close>.\<close>

definition by_creation :: "message list \<Rightarrow> message list" where
  "by_creation ms = sort_key (\<lambda>m. timeToString (m_CreatedAt m)) (sort_key m_MessageID ms)"

definition set_message_ttl :: "string \<Rightarrow> time \<Rightarrow> sqldb \<Rightarrow> sqldb" where
  "set_message_ttl mid expiresAt db =
     (case map_of (t_messages db) mid of
        None \<Rightarrow> db
      | Some m \<Rightarrow> db\<lparr>t_messages := AList.update mid (m\<lparr>m_TTLExpiresAt := expiresAt\<rparr>) (t_messages db)\<rparr>)"

definition backfill_delivery :: "config \<Rightarrow> time \<Rightarrow> message \<Rightarrow> sqldb \<Rightarrow> string + sqldb" where
  "backfill_delivery cfg now m db =
     (case parseSQLiteTime (m_CreatedAt m) of
        Inl err \<Rightarrow> Inl err
      | Inr createdAt \<Rightarrow>
          (case (if timeToString (m_TTLExpiresAt m) \<noteq> [] then
                   map_sum id (\<lambda>t. (t, db)) (parseSQLiteTime (m_TTLExpiresAt m))
                 else (let t = Add createdAt (cfg_DefaultMessageTTL cfg) in
                       Inr (t, set_message_ttl (m_MessageID m) t db))) of
             Inl err \<Rightarrow> Inl err
           | Inr (ttl, db1) \<Rightarrow>
               (case (if timeToString (m_GraceUntil m) \<noteq> [] then
                        map_sum id (\<lambda>graceUntil. if graceUntil < ttl then graceUntil else ttl)
                          (parseSQLiteTime (m_GraceUntil m))
                      else Inr ttl) of
                  Inl err \<Rightarrow> Inl err
                | Inr expiresAt \<Rightarrow>
                    if \<not> After expiresAt now then Inr db1
                    else append_delivery (m_To m) (m_MessageID m) DeliveryPending (m_CreatedAt m) expiresAt db1)))"

definition backfill_receipt :: "config \<Rightarrow> message \<Rightarrow> sqldb \<Rightarrow> string + sqldb" where
  "backfill_receipt cfg m db =
     (case parseSQLiteTime (m_CreatedAt m) of
        Inl err \<Rightarrow> Inl err
      | Inr acceptedAt \<Rightarrow>
          (let r = \<lparr>id_from_agent = m_From m, id_to_agent = m_To m, id_request_id = m_RequestID m,
                    id_message_id = m_MessageID m, id_accepted_at = m_CreatedAt m,
                    id_expires_at = Add acceptedAt (cfg_IdempotencyWindow cfg)\<rparr> in
           if list_ex (same_receipt r) (t_idempotency db) then Inr db else insert_receipt r db))"

fun each_row :: "('a \<Rightarrow> sqldb \<Rightarrow> string + sqldb) \<Rightarrow> 'a list \<Rightarrow> sqldb \<Rightarrow> string + sqldb" where
  "each_row f [] db = Inr db"
| "each_row f (x # xs) db = (case f x db of Inl err \<Rightarrow> Inl err | Inr db1 \<Rightarrow> each_row f xs db1)"

definition backfillLegacyDeliveryState ::
  "string option \<Rightarrow> config \<Rightarrow> time \<Rightarrow> sqldb \<Rightarrow> string option \<times> sqldb" where
  "backfillLegacyDeliveryState io cfg now db =
     (case io of
        Some err \<Rightarrow> (Some err, db)
      | None \<Rightarrow>
          if has_key (t_schema_migrations db) durableDeliveryBackfill then (None, db)
          else
            (case each_row (backfill_delivery cfg now)
                    (by_creation (filter (legacy_deliverable db) (map snd (t_messages db)))) db of
               Inl err \<Rightarrow> (Some err, db)
             | Inr db1 \<Rightarrow>
                 (let cutoff = Add now (wrap64 (- cfg_IdempotencyWindow cfg)) in
                  case each_row (backfill_receipt cfg)
                         (by_creation (filter (\<lambda>m. m_From m \<noteq> [] \<and> m_To m \<noteq> [] \<and> m_RequestID m \<noteq> [] \<and>
                            text_le cutoff (m_CreatedAt m)) (map snd (t_messages db1)))) db1 of
                    Inl err \<Rightarrow> (Some err, db)
                  | Inr db2 \<Rightarrow>
                      (None, db2\<lparr>t_schema_migrations :=
                               AList.update durableDeliveryBackfill now (t_schema_migrations db2)\<rparr>))))"

section \<open>Start and shutdown\<close>

definition recover_attempting :: "sqldb \<Rightarrow> sqldb" where
  "recover_attempting =
     update_deliveries (\<lambda>d. dl_status d = DeliveryAttempting) (\<lambda>d. d\<lparr>dl_status := DeliveryPending\<rparr>)"

text \<open>The errors of a start: opening the file and creating the tables, and the steps that follow.\<close>

record start_io =
  st_open :: "string option"
  st_backfill :: "string option"
  st_recover :: "string option"
  st_prune :: "string option list"
  st_load :: "string option"

definition NewSQLiteStore ::
  "ranking \<Rightarrow> string \<Rightarrow> string \<Rightarrow> start_io \<Rightarrow> time \<Rightarrow> config \<Rightarrow> sqldb \<Rightarrow> (persistent_error + store) \<times> sqlite" where
  "NewSQLiteStore rk humanAllowlist epoch io now cfg db =
     (let closed = (\<lambda>db. \<lparr>sq_db = db, sq_deliveryPersistErrors = []\<rparr>) in
      case NewStore rk humanAllowlist epoch cfg of
        Inl e \<Rightarrow> (Inl (InvalidConfig e), closed db)
      | Inr inner \<Rightarrow>
          (case st_open io of
             Some err \<Rightarrow> (Inl (LoadFailed err), closed db)
           | None \<Rightarrow>
               (case backfillLegacyDeliveryState (st_backfill io) (s_cfg inner) now db of
                  (Some err, db1) \<Rightarrow> (Inl (LoadFailed (''backfill durable delivery state: '' @ err)), closed db1)
                | (None, db1) \<Rightarrow>
                    (case st_recover io of
                       Some err \<Rightarrow> (Inl (LoadFailed (''recover push deliveries: '' @ err)), closed db1)
                     | None \<Rightarrow>
                         (case pruneDB (st_prune io) (s_cfg inner) now (closed (recover_attempting db1)) of
                            (Some err, q) \<Rightarrow> (Inl (LoadFailed (''prune state: '' @ err)), q)
                          | (None, q) \<Rightarrow>
                              (case loadAll (st_load io) now (sq_db q) inner of
                                 Inl err \<Rightarrow> (Inl (LoadFailed (''load state: '' @ err)), q)
                               | Inr s \<Rightarrow> (Inr s, q)))))))"

text \<open>
  What \<^verbatim>\<open>Close\<close> does to the database, after the background loops have ended and the push workers have
  stopped (\<open>close_begin\<close> to \<open>close_end\<close>).
\<close>

definition SQLiteStore_Close :: "string option \<Rightarrow> time \<Rightarrow> sqlite \<Rightarrow> sqlite" where
  "SQLiteStore_Close io now q =
     (if io = None then
        (run_statement io
           (update_deliveries (\<lambda>d. dl_status d = DeliveryAttempting)
              (\<lambda>d. d\<lparr>dl_status := DeliveryPending,
                     dl_next_attempt_at := (if IsZero (dl_next_attempt_at d) then now else dl_next_attempt_at d),
                     dl_last_error := (if dl_last_error d = [] then ''shutdown recovery'' else dl_last_error d)\<rparr>)) q)
          \<lparr>sq_deliveryPersistErrors := []\<rparr>
      else q)"

section \<open>The methods\<close>

type_synonym sqlite_store = "store \<times> sqlite"

text \<open>
  What a method takes from its surroundings: \<open>qm_turns\<close> and \<open>qm_meanwhile\<close> are what other goroutines do to
  the store and to the database while an observer waits, \<open>qm_polls\<close> the turns of a long poll, \<open>qm_io\<close> the
  error of the method's transaction and \<open>qm_receipt_now\<close> the clock when it writes a receipt.
\<close>

record sqlite_moment =
  qm_sha256 :: "string \<Rightarrow> string"
  qm_orders :: orders
  qm_now :: time
  qm_turns :: "unit turn list"
  qm_meanwhile :: "sqlite \<Rightarrow> sqlite"
  qm_polls :: "durable_turn list"
  qm_io :: "string option"
  qm_receipt_now :: time

definition SQLiteStore_RegisterAgent ::
  "sqlite_moment \<Rightarrow> register_agent_input \<Rightarrow> sqlite_store \<Rightarrow> (bus_error + agent) \<times> sqlite_store" where
  "SQLiteStore_RegisterAgent mo input sq =
     (case RegisterAgent (qm_sha256 mo) (qm_orders mo) (qm_now mo) input (fst sq) of
        (Inl err, s) \<Rightarrow> (Inl err, s, snd sq)
      | (Inr out, s) \<Rightarrow>
          (case qm_io mo of
             Some perr \<Rightarrow> (Inl (OtherError perr), s, snd sq)
           | None \<Rightarrow> (Inr out, s, (snd sq)\<lparr>sq_db := saveAgentTo out (sq_db (snd sq))\<rparr>)))"

definition SQLiteStore_AgentSecrets :: "string option \<Rightarrow> sqlite_store \<Rightarrow> bus_error + string gomap" where
  "SQLiteStore_AgentSecrets io sq =
     (case io of
        Some err \<Rightarrow> Inl (OtherError err)
      | None \<Rightarrow>
          Inr (fold (\<lambda>(k, row) out.
                 (let agentID = TrimSpace (a_AgentID (ar_agent row)) in
                  if agentID \<noteq> [] \<and> TrimSpace (ar_secret row) \<noteq> [] then AList.update agentID (ar_secret row) out
                  else out))
               (filter (\<lambda>(k, row). ar_secret row \<noteq> []) (t_agents (sq_db (snd sq)))) []))"

definition SQLiteStore_SetAgentSecret ::
  "string option \<Rightarrow> string \<Rightarrow> string \<Rightarrow> sqlite_store \<Rightarrow> bus_error option \<times> sqlite_store" where
  "SQLiteStore_SetAgentSecret io agentID secret sq =
     (let agentID = TrimSpace agentID; db = sq_db (snd sq) in
      if agentID = [] \<or> TrimSpace secret = [] then (None, sq)
      else (case io of
              Some err \<Rightarrow> (Some (OtherError err), sq)
            | None \<Rightarrow>
                (case map_of (t_agents db) agentID of
                   None \<Rightarrow> (Some (OtherError (''agent '' @ agentID @ '' not found'')), sq)
                 | Some row \<Rightarrow>
                     (None, fst sq, (snd sq)\<lparr>sq_db := db\<lparr>t_agents :=
                        AList.update agentID (row\<lparr>ar_secret := secret\<rparr>) (t_agents db)\<rparr>\<rparr>))))"

definition SQLiteStore_CreateConversation ::
  "sqlite_moment \<Rightarrow> create_conversation_input \<Rightarrow> sqlite_store \<Rightarrow> (bus_error + conversation) \<times> sqlite_store" where
  "SQLiteStore_CreateConversation mo input sq =
     (case CreateConversation (qm_orders mo) (qm_now mo) input (fst sq) of
        (Inl err, s) \<Rightarrow> (Inl err, s, snd sq)
      | (Inr out, s) \<Rightarrow>
          (case qm_io mo of
             Some perr \<Rightarrow> (Inl (OtherError perr), s, snd sq)
           | None \<Rightarrow>
               (Inr out, s, (snd sq)\<lparr>sq_db := saveCountersTo (s_nextConversationID s) (s_nextMessageID s)
                                     (saveConversationTo out (sq_db (snd sq)))\<rparr>)))"

definition SQLiteStore_SendMessage ::
  "sqlite_moment \<Rightarrow> send_message_input \<Rightarrow> sqlite_store \<Rightarrow> (bus_error + message \<times> bool) \<times> sqlite_store" where
  "SQLiteStore_SendMessage mo input sq =
     sendMessage (qm_orders mo) (qm_now mo)
       (Some (persistAcceptance (qm_io mo) (cfg_IdempotencyWindow (s_cfg (fst sq))))) input (fst sq) (snd sq)"

definition SQLiteStore_Inject ::
  "sqlite_moment \<Rightarrow> inject_input \<Rightarrow> sqlite_store \<Rightarrow> (bus_error + message) \<times> sqlite_store" where
  "SQLiteStore_Inject mo input sq =
     inject (qm_orders mo) (qm_now mo)
       (Some (persistAcceptance (qm_io mo) (cfg_IdempotencyWindow (s_cfg (fst sq))))) input (fst sq) (snd sq)"

definition SQLiteStore_PollInbox ::
  "sqlite_moment \<Rightarrow> poll_inbox_input \<Rightarrow> sqlite_store \<Rightarrow> (bus_error + inbox_event list \<times> int) option \<times> sqlite_store" where
  "SQLiteStore_PollInbox mo input sq = pollDurableInbox (qm_now mo) input (qm_polls mo) (fst sq) (snd sq)"

definition SQLiteStore_Ack :: "sqlite_moment \<Rightarrow> ack_input \<Rightarrow> sqlite_store \<Rightarrow> bus_error option \<times> sqlite_store" where
  "SQLiteStore_Ack mo input sq =
     ack (qm_orders mo) (qm_now mo) (Some (persistAck (qm_io mo) (qm_receipt_now mo))) input (fst sq) (snd sq)"

definition SQLiteStore_PostEvent :: "sqlite_moment \<Rightarrow> event_input \<Rightarrow> sqlite_store \<Rightarrow> bus_error option \<times> sqlite_store" where
  "SQLiteStore_PostEvent mo input sq =
     postEvent (qm_orders mo) (qm_now mo) (Some (persistAck (qm_io mo) (qm_receipt_now mo))) input (fst sq) (snd sq)"

fun set_field :: "string \<Rightarrow> json \<Rightarrow> json \<Rightarrow> json" where
  "set_field k v (JMap kvs) = JMap (AList.update k v kvs)"
| "set_field k v j = j"

text \<open>A count whose query fails is zero.\<close>

definition counts_or_zero :: "string option \<Rightarrow> sqlite \<Rightarrow> int \<times> int" where
  "counts_or_zero io q = (if io = None then deliveryCounts (sq_db q) else (0, 0))"

definition with_counts :: "int \<times> int \<Rightarrow> json \<Rightarrow> json" where
  "with_counts counts out =
     set_field ''failed_deliveries'' (JNum (fmt_d (snd counts)))
       (set_field ''pending_deliveries'' (JNum (fmt_d (fst counts))) out)"

definition on_store :: "(store \<Rightarrow> 'r \<times> store) \<Rightarrow> sqlite_store \<Rightarrow> 'r \<times> sqlite_store" where
  "on_store op sq = (case op (fst sq) of (r, s) \<Rightarrow> (r, s, snd sq))"

definition SQLiteStore_Health :: "sqlite_moment \<Rightarrow> sqlite_store \<Rightarrow> json \<times> sqlite_store" where
  "SQLiteStore_Health mo sq =
     (case on_store (Health (qm_orders mo) (qm_now mo)) sq of
        (out, sq1) \<Rightarrow>
          (let out1 = with_counts (counts_or_zero (qm_io mo) (snd sq1)) out in
           (if sq_deliveryPersistErrors (snd sq1) \<noteq> [] then
              set_field ''delivery_persistence_error'' (JBool True)
                (set_field ''status'' (JStr ''degraded'') (set_field ''ok'' (JBool False) out1))
            else out1, sq1)))"

definition metrics_lines :: "int \<times> int \<Rightarrow> string" where
  "metrics_lines counts =
     ''# HELP agent_bus_pending_deliveries Durable deliveries awaiting transport receipt.'' @ [CHR 0x0A] @
     ''# TYPE agent_bus_pending_deliveries gauge'' @ [CHR 0x0A] @
     ''agent_bus_pending_deliveries '' @ fmt_d (fst counts) @ [CHR 0x0A] @
     ''# HELP agent_bus_failed_deliveries Durable deliveries that reached their transport deadline.'' @ [CHR 0x0A] @
     ''# TYPE agent_bus_failed_deliveries gauge'' @ [CHR 0x0A] @
     ''agent_bus_failed_deliveries '' @ fmt_d (snd counts) @ [CHR 0x0A]"

definition SQLiteStore_Metrics :: "sqlite_moment \<Rightarrow> sqlite_store \<Rightarrow> string \<times> sqlite_store" where
  "SQLiteStore_Metrics mo sq =
     (case on_store (Metrics (qm_orders mo) (qm_now mo)) sq of
        (out, sq1) \<Rightarrow> (out @ metrics_lines (counts_or_zero (qm_io mo) (snd sq)), sq1))"

definition SQLiteStore_SystemStatus :: "sqlite_moment \<Rightarrow> sqlite_store \<Rightarrow> json \<times> sqlite_store" where
  "SQLiteStore_SystemStatus mo sq =
     (case on_store (SystemStatus (qm_orders mo) (qm_now mo)) sq of
        (out, sq1) \<Rightarrow> (with_counts (counts_or_zero (qm_io mo) (snd sq1)) out, sq1))"

definition sqlite_api :: "sqlite_moment \<Rightarrow> sqlite_store bus_api" where
  "sqlite_api mo =
     \<lparr>api_RegisterAgent = SQLiteStore_RegisterAgent mo,
      api_ListAgents = (\<lambda>capability. on_store (ListAgents (qm_orders mo) (qm_now mo) capability)),
      api_CreateConversation = SQLiteStore_CreateConversation mo,
      api_ListConversations = (\<lambda>flt. on_store (ListConversations (qm_orders mo) (qm_now mo) flt)),
      api_SendMessage = SQLiteStore_SendMessage mo,
      api_PollInbox = SQLiteStore_PollInbox mo,
      api_Ack = SQLiteStore_Ack mo,
      api_PostEvent = SQLiteStore_PostEvent mo,
      api_Inject = SQLiteStore_Inject mo,
      api_ListConversationMessages = (\<lambda>input. on_store (ListConversationMessages (qm_orders mo) (qm_now mo) input)),
      api_ObserveSince = (\<lambda>afterID flt wait sq.
         case ObserveSince (qm_now mo) afterID flt wait (qm_turns mo) (fst sq) of
           (r, s) \<Rightarrow> (r, s, qm_meanwhile mo (snd sq))),
      api_Health = SQLiteStore_Health mo,
      api_Metrics = SQLiteStore_Metrics mo,
      api_SystemStatus = SQLiteStore_SystemStatus mo,
      api_AgentSecrets = Some (SQLiteStore_AgentSecrets (qm_io mo)),
      api_SetAgentSecret = Some (SQLiteStore_SetAgentSecret (qm_io mo)),
      api_ObserveEpoch = Some (\<lambda>sq. s_observeEpoch (fst sq))\<rparr>"

end
