(* ===== verification/Sqlite_Inv.thy ===== *)
theory Sqlite_Inv
  imports Sqlite_Store
begin

text \<open>
  The invariant of the database (\<open>db_inv\<close>), the transactions that change it as a step relation
  (\<open>db_step\<close>, labelled with what the outside world told the bus), and what a step does to a delivery.

  The steps take arbitrary acceptances, messages and clock readings, so they cover whatever the in-memory
  half hands to the database and every order in which goroutines reach it.
\<close>

section \<open>The invariant\<close>

definition deliveries_ok :: "sqldb \<Rightarrow> bool" where
  "deliveries_ok db \<longleftrightarrow>
     distinct (map dl_message_id (t_deliveries db)) \<and>
     distinct (map (\<lambda>d. (dl_target_agent_id d, dl_delivery_seq d)) (t_deliveries db)) \<and>
     (\<forall>d \<in> set (t_deliveries db). has_key (t_messages db) (dl_message_id d) \<and> 0 \<le> dl_delivery_seq d \<and>
        dl_delivery_seq d < dc_next_seq (cursor_of (dl_target_agent_id d) db))"

definition cursors_ok :: "sqldb \<Rightarrow> bool" where
  "cursors_ok db \<longleftrightarrow>
     (\<forall>a. 0 \<le> dc_acknowledged_cursor (cursor_of a db) \<and>
          dc_acknowledged_cursor (cursor_of a db) \<le> dc_next_seq (cursor_of a db))"

definition rows_ok :: "sqldb \<Rightarrow> bool" where
  "rows_ok db \<longleftrightarrow>
     keys_distinct (t_messages db) \<and> (\<forall>k m. map_of (t_messages db) k = Some m \<longrightarrow> m_MessageID m = k) \<and>
     keys_distinct (t_conversations db) \<and>
     (\<forall>k c. map_of (t_conversations db) k = Some c \<longrightarrow> c_ConversationID c = k) \<and>
     keys_distinct (t_agents db) \<and> (\<forall>k r. map_of (t_agents db) k = Some r \<longrightarrow> a_AgentID (ar_agent r) = k)"

definition receipt_key :: "receipt_row \<Rightarrow> string \<times> string \<times> string" where
  "receipt_key r = (id_from_agent r, id_to_agent r, id_request_id r)"

definition link_key :: "link_row \<Rightarrow> string \<times> int" where
  "link_key l = (lk_conversation_id l, lk_position l)"

definition db_inv :: "sqldb \<Rightarrow> bool" where
  "db_inv db \<longleftrightarrow>
     deliveries_ok db \<and> cursors_ok db \<and> rows_ok db \<and>
     distinct (map receipt_key (t_idempotency db)) \<and> distinct (map link_key (t_conversation_messages db))"

lemma db_inv_empty: "db_inv empty_db"
  by (simp add: db_inv_def deliveries_ok_def cursors_ok_def rows_ok_def empty_db_def cursor_of_def get_or_def)

section \<open>Steps\<close>

text \<open>
  \<open>Polled a c\<close>: agent \<open>a\<close> polled with cursor \<open>c\<close>. \<open>Acked i\<close>: an acknowledgement or an event for message
  \<open>i\<close>. \<open>PushDone i\<close>: the callback for message \<open>i\<close> was answered with success. The others carry the reading
  of the clock, where the step depends on it.
\<close>

datatype db_event =
    Accepted | Polled string int | Acked string | PushDone string | PushMissed time | Claimed time
  | Pruned time | Recovered | Administered

inductive db_step :: "db_event \<Rightarrow> sqlite \<Rightarrow> sqlite \<Rightarrow> bool" where
  accept: "db_step Accepted q (snd (persistAcceptance io window a q))"
| poll: "db_step (Polled agent c) q (snd (read_transaction io cfg clk agent c limit q))"
| ack: "db_step (Acked (m_MessageID m)) q (snd (persistAck io now m q))"
| push_done: "db_step (PushDone mid) q (recordPushSuccess io now mid n q)"
| push_missed: "db_step (PushMissed now) q (recordPushFailure io cfg now mid n failure q)"
| claim: "db_step (Claimed now) q (snd (claimDuePushes cio now q))"
| prune: "db_step (Pruned now) q (snd (pruneDB ios cfg now q))"
| restart: "db_step Recovered q (q\<lparr>sq_db := recover_attempting (sq_db q), sq_deliveryPersistErrors := []\<rparr>)"
| shutdown: "db_step Recovered q (SQLiteStore_Close io now q)"
| register: "db_step Administered q (q\<lparr>sq_db := saveAgentTo ag (sq_db q)\<rparr>)"
| create: "db_step Administered q (q\<lparr>sq_db := saveCountersTo nc nm (saveConversationTo conv (sq_db q))\<rparr>)"
| secret: "db_step Administered q (snd (snd (SQLiteStore_SetAgentSecret io agent k (s, q))))"

inductive db_run :: "db_event list \<Rightarrow> sqlite \<Rightarrow> sqlite \<Rightarrow> bool" where
  run_refl: "db_run [] q q"
| run_step: "db_step ev q q1 \<Longrightarrow> db_run evs q1 q2 \<Longrightarrow> db_run (ev # evs) q q2"

section \<open>Statements keep the invariant\<close>

lemma cursor_of_simps [simp]:
  "cursor_of b (ensure_cursor a db) = cursor_of b db"
  "cursor_of b (db\<lparr>t_messages := x\<rparr>) = cursor_of b db" "cursor_of b (db\<lparr>t_deliveries := y\<rparr>) = cursor_of b db"
  "cursor_of b (db\<lparr>t_agents := z\<rparr>) = cursor_of b db" "cursor_of b (db\<lparr>t_conversations := u\<rparr>) = cursor_of b db"
  "cursor_of b (db\<lparr>t_conversation_messages := v\<rparr>) = cursor_of b db" "cursor_of b (db\<lparr>t_counters := w\<rparr>) = cursor_of b db"
  "cursor_of b (db\<lparr>t_idempotency := i\<rparr>) = cursor_of b db" "cursor_of b (db\<lparr>t_schema_migrations := j\<rparr>) = cursor_of b db"
  by (auto simp: cursor_of_def ensure_cursor_def get_or_def has_key_def split: option.splits)

lemma cursor_of_set:
  "has_key (t_delivery_cursors db) a \<Longrightarrow>
     cursor_of b (set_next_seq a n db) = (if b = a then (cursor_of a db)\<lparr>dc_next_seq := n\<rparr> else cursor_of b db)"
  "has_key (t_delivery_cursors db) a \<Longrightarrow>
     cursor_of b (set_acknowledged a n db) =
       (if b = a then (cursor_of a db)\<lparr>dc_acknowledged_cursor := n\<rparr> else cursor_of b db)"
  by (auto simp: cursor_of_def set_next_seq_def set_acknowledged_def get_or_def has_key_def split: option.splits)

lemma has_cursor_ensured [simp]: "has_key (t_delivery_cursors (ensure_cursor a db)) a"
  by (auto simp: ensure_cursor_def has_key_def)

section \<open>What a statement does to the deliveries\<close>

definition same_delivery :: "delivery_row \<Rightarrow> delivery_row \<Rightarrow> bool" where
  "same_delivery d d' \<longleftrightarrow>
     dl_target_agent_id d' = dl_target_agent_id d \<and> dl_delivery_seq d' = dl_delivery_seq d \<and>
     dl_message_id d' = dl_message_id d \<and> dl_expires_at d' = dl_expires_at d"

text \<open>The receiver has the message: it polled past it, answered it, or took the callback.\<close>

definition confirmed :: "db_event \<Rightarrow> delivery_row \<Rightarrow> bool" where
  "confirmed ev d \<longleftrightarrow>
     (\<exists>c. ev = Polled (dl_target_agent_id d) c \<and> dl_delivery_seq d < c) \<or>
     ev = Acked (dl_message_id d) \<or> ev = PushDone (dl_message_id d)"

text \<open>The deadline has passed, by the comparison the statements make.\<close>

definition expired :: "db_event \<Rightarrow> delivery_row \<Rightarrow> bool" where
  "expired ev d \<longleftrightarrow>
     (\<exists>now. (ev = PushMissed now \<or> ev = Claimed now \<or> ev = Pruned now) \<and> text_le (dl_expires_at d) now)"

definition stays_open :: "db_event \<Rightarrow> sqldb \<Rightarrow> sqldb \<Rightarrow> bool" where
  "stays_open ev db db' \<longleftrightarrow>
     (\<forall>d \<in> set (t_deliveries db). open_delivery d \<longrightarrow>
        confirmed ev d \<or> expired ev d \<or> (\<exists>d' \<in> set (t_deliveries db'). open_delivery d' \<and> same_delivery d d'))"

definition follows :: "db_event \<Rightarrow> sqldb \<Rightarrow> sqldb \<Rightarrow> bool" where
  "follows ev db db' \<longleftrightarrow> (db_inv db \<longrightarrow> db_inv db' \<and> stays_open ev db db')"

lemma same_delivery_refl [simp]: "same_delivery d d"
  by (simp add: same_delivery_def)

lemma same_delivery_cong:
  assumes "same_delivery d d'"
  shows "confirmed ev d' = confirmed ev d" "expired ev d' = expired ev d"
    "same_delivery d' d'' \<Longrightarrow> same_delivery d d''"
  using assms by (auto simp: same_delivery_def confirmed_def expired_def)

lemma stays_open_refl: "t_deliveries db' = t_deliveries db \<Longrightarrow> stays_open ev db db'"
  by (auto simp: stays_open_def)

lemma follows_refl [simp]: "follows ev db db"
  by (simp add: follows_def stays_open_refl)

lemma follows_trans [trans]:
  assumes "follows ev db db'" and "follows ev db' db''"
  shows "follows ev db db''"
proof -
  have "confirmed ev d \<or> expired ev d \<or> (\<exists>d'' \<in> set (t_deliveries db''). open_delivery d'' \<and> same_delivery d d'')"
    if so: "stays_open ev db db'" "stays_open ev db' db''" and d: "d \<in> set (t_deliveries db)" "open_delivery d" for d
  proof -
    from so(1) d consider "confirmed ev d \<or> expired ev d"
      | d' where "d' \<in> set (t_deliveries db')" "open_delivery d'" "same_delivery d d'"
      by (auto simp: stays_open_def)
    then show ?thesis
    proof cases
      case 2
      from so(2) 2(1,2) have "confirmed ev d' \<or> expired ev d' \<or>
          (\<exists>d'' \<in> set (t_deliveries db''). open_delivery d'' \<and> same_delivery d' d'')"
        by (auto simp: stays_open_def)
      then show ?thesis using same_delivery_cong [OF 2(3)] by metis
    qed auto
  qed
  with assms show ?thesis by (auto simp: follows_def stays_open_def)
qed

lemma follows_fold: "(\<And>x db. follows ev db (f x db)) \<Longrightarrow> follows ev db (fold f xs db)"
  by (induction xs arbitrary: db) (auto intro: follows_trans)

subsection \<open>Tables other than the deliveries\<close>

text \<open>Changes that leave deliveries and cursors alone and lose no message.\<close>

lemma follows_other_tables:
  assumes "t_deliveries db' = t_deliveries db" and "\<And>a. cursor_of a db' = cursor_of a db"
    and "\<And>k. has_key (t_messages db) k \<Longrightarrow> has_key (t_messages db') k"
    and "rows_ok db \<Longrightarrow> rows_ok db'"
    and "distinct (map receipt_key (t_idempotency db)) \<Longrightarrow> distinct (map receipt_key (t_idempotency db'))"
    and "distinct (map link_key (t_conversation_messages db)) \<Longrightarrow> distinct (map link_key (t_conversation_messages db'))"
  shows "follows ev db db'"
  using assms by (auto simp: follows_def db_inv_def deliveries_ok_def cursors_ok_def stays_open_refl)

lemma follows_saveAgentTo: "follows ev db (saveAgentTo a db)"
  by (rule follows_other_tables) (auto simp: saveAgentTo_def rows_ok_def distinct_update split: if_splits)

lemma follows_saveConversationTo: "follows ev db (saveConversationTo c db)"
  by (rule follows_other_tables) (auto simp: saveConversationTo_def rows_ok_def distinct_update split: if_splits)

lemma follows_saveMessageTo: "follows ev db (saveMessageTo m db)"
  by (rule follows_other_tables)
    (auto simp: saveMessageTo_def message_row_def rows_ok_def distinct_update split: if_splits)

lemma follows_saveConversationMessageTo: "follows ev db (saveConversationMessageTo cid mid pos db)"
proof (rule follows_other_tables)
  assume d: "distinct (map link_key (t_conversation_messages db))"
  let ?P = "\<lambda>l. \<not> (lk_conversation_id l = cid \<and> lk_position l = pos)"
  have "distinct (map link_key (filter ?P (t_conversation_messages db)))" using d by (rule distinct_map_filter)
  then show "distinct (map link_key (t_conversation_messages (saveConversationMessageTo cid mid pos db)))"
    by (auto simp: saveConversationMessageTo_def link_key_def)
qed (simp_all add: saveConversationMessageTo_def rows_ok_def)

lemma follows_saveCountersTo: "follows ev db (saveCountersTo nc nm db)"
  by (rule follows_other_tables) (simp_all add: saveCountersTo_def rows_ok_def)

lemma follows_offer_message: "follows ev db (offer_message now mid db)"
proof (cases "map_of (t_messages db) mid")
  case (Some m)
  then show ?thesis
    by (intro follows_other_tables)
      (auto simp: offer_message_def rows_ok_def offered_def Let_def distinct_update has_key_def split: if_splits)
qed (simp add: offer_message_def)

lemma follows_set_secret: "follows ev (sq_db q) (sq_db (snd (snd (SQLiteStore_SetAgentSecret io agent k (s, q)))))"
  by (rule follows_other_tables)
    (auto simp: SQLiteStore_SetAgentSecret_def Let_def rows_ok_def simp del: map_of_eq_Some_iff
      split: option.splits if_splits)

subsection \<open>Deliveries and cursors\<close>

lemma update_deliveries_simps [simp]:
  "t_messages (update_deliveries P f db) = t_messages db" "t_agents (update_deliveries P f db) = t_agents db"
  "t_conversations (update_deliveries P f db) = t_conversations db"
  "t_conversation_messages (update_deliveries P f db) = t_conversation_messages db"
  "t_idempotency (update_deliveries P f db) = t_idempotency db"
  "t_schema_migrations (update_deliveries P f db) = t_schema_migrations db"
  "t_delivery_cursors (update_deliveries P f db) = t_delivery_cursors db"
  "cursor_of a (update_deliveries P f db) = cursor_of a db"
  by (simp_all add: update_deliveries_def)

text \<open>An update that keeps the identity of the rows, and says why a row it changes is no longer open.\<close>

lemma follows_update_deliveries:
  assumes "\<And>d. P d \<Longrightarrow> same_delivery d (f d)"
    and "\<And>d. P d \<Longrightarrow> open_delivery d \<Longrightarrow> open_delivery (f d) \<or> confirmed ev d \<or> expired ev d"
  shows "follows ev db (update_deliveries P f db)"
proof -
  let ?g = "\<lambda>d. if P d then f d else d"
  have same: "same_delivery d (?g d)" for d using assms(1) by simp
  have ids: "dl_message_id \<circ> ?g = dl_message_id"
    "(\<lambda>d. (dl_target_agent_id d, dl_delivery_seq d)) \<circ> ?g = (\<lambda>d. (dl_target_agent_id d, dl_delivery_seq d))"
    using same by (auto simp: same_delivery_def fun_eq_iff)
  have fields: "dl_message_id (?g d) = dl_message_id d" "dl_delivery_seq (?g d) = dl_delivery_seq d"
    "dl_target_agent_id (?g d) = dl_target_agent_id d" for d
    using same [of d] by (auto simp: same_delivery_def)
  have "deliveries_ok (update_deliveries P f db)" if "deliveries_ok db"
  proof -
    have "t_deliveries (update_deliveries P f db) = map ?g (t_deliveries db)" by (simp add: update_deliveries_def)
    then show ?thesis
      using that unfolding deliveries_ok_def
      by (simp only: map_map ids list.set_map ball_simps fields update_deliveries_simps) simp
  qed
  moreover have "stays_open ev db (update_deliveries P f db)"
    unfolding stays_open_def
  proof (intro ballI impI)
    fix d assume d: "d \<in> set (t_deliveries db)" "open_delivery d"
    have "?g d \<in> set (t_deliveries (update_deliveries P f db))" using d(1) by (auto simp: update_deliveries_def)
    then show "confirmed ev d \<or> expired ev d \<or>
        (\<exists>d' \<in> set (t_deliveries (update_deliveries P f db)). open_delivery d' \<and> same_delivery d d')"
      using assms(2) [of d] same [of d] d(2) by (cases "P d") auto
  qed
  ultimately show ?thesis
    by (simp add: follows_def db_inv_def cursors_ok_def rows_ok_def)
qed

lemma follows_expire: "ev = Claimed now \<or> ev = Pruned now \<Longrightarrow> follows ev db (expire_deliveries now db)"
  unfolding expire_deliveries_def
  by (rule follows_update_deliveries) (auto simp: same_delivery_def expired_def)

lemma follows_receive:
  "(\<And>d. P d \<Longrightarrow> confirmed ev d) \<Longrightarrow> follows ev db (receive_deliveries now P db)"
  unfolding receive_deliveries_def by (rule follows_update_deliveries) (auto simp: same_delivery_def)

lemma follows_ensure_cursor: "follows ev db (ensure_cursor a db)"
  by (rule follows_other_tables) (simp_all, simp_all add: ensure_cursor_def rows_ok_def)

lemma set_cursor_simps [simp]:
  "t_messages (set_next_seq a n db) = t_messages db" "t_deliveries (set_next_seq a n db) = t_deliveries db"
  "t_messages (set_acknowledged a n db) = t_messages db" "t_deliveries (set_acknowledged a n db) = t_deliveries db"
  "t_conversation_messages (set_acknowledged a n db) = t_conversation_messages db"
  "t_conversation_messages (set_next_seq a n db) = t_conversation_messages db"
  "t_idempotency (set_acknowledged a n db) = t_idempotency db" "t_idempotency (set_next_seq a n db) = t_idempotency db"
  "t_schema_migrations (set_acknowledged a n db) = t_schema_migrations db"
  "t_schema_migrations (set_next_seq a n db) = t_schema_migrations db"
  "rows_ok (set_next_seq a n db) = rows_ok db" "rows_ok (set_acknowledged a n db) = rows_ok db"
  by (auto simp: set_next_seq_def set_acknowledged_def rows_ok_def split: option.split)

lemma follows_set_acknowledged:
  assumes "has_key (t_delivery_cursors db) a" and "0 \<le> n" and "n \<le> dc_next_seq (cursor_of a db)"
  shows "follows ev db (set_acknowledged a n db)"
  using assms(2,3)
  by (auto simp: follows_def db_inv_def deliveries_ok_def cursors_ok_def cursor_of_set [OF assms(1)] stays_open_refl)

text \<open>A new delivery takes the next sequence number of its receiver.\<close>

lemma append_delivery_rows:
  assumes "append_delivery a mid st at expiry db = Inr db'"
  defines "seq \<equiv> dc_next_seq (cursor_of a db)"
  shows "t_deliveries db' = t_deliveries db @ [new_delivery a seq mid st at expiry]"
    and "cursor_of b db' = (if b = a then (cursor_of a db)\<lparr>dc_next_seq := seq + 1\<rparr> else cursor_of b db)"
    and "mid \<notin> set (map dl_message_id (t_deliveries db))" and "has_key (t_messages db) mid"
    and "t_messages db' = t_messages db" and "t_conversation_messages db' = t_conversation_messages db"
    and "t_idempotency db' = t_idempotency db" and "t_schema_migrations db' = t_schema_migrations db"
    and "rows_ok db' = rows_ok db"
proof -
  let ?db1 = "ensure_cursor a db"
  have e: "t_deliveries ?db1 = t_deliveries db" "t_messages ?db1 = t_messages db" "rows_ok ?db1 = rows_ok db"
    "t_conversation_messages ?db1 = t_conversation_messages db" "t_idempotency ?db1 = t_idempotency db"
    "t_schema_migrations ?db1 = t_schema_migrations db"
    by (simp_all add: ensure_cursor_def rows_ok_def)
  have db': "db' = set_next_seq a (seq + 1) (?db1\<lparr>t_deliveries := t_deliveries db @ [new_delivery a seq mid st at expiry]\<rparr>)"
    and free: "mid \<notin> set (map dl_message_id (t_deliveries db))" "has_key (t_messages db) mid"
    using assms(1)
    by (auto simp: append_delivery_def insert_delivery_def Let_def e new_delivery_def seq_def list_ex_iff
        split: if_splits)
  show "mid \<notin> set (map dl_message_id (t_deliveries db))" "has_key (t_messages db) mid" by fact+
  show "t_deliveries db' = t_deliveries db @ [new_delivery a seq mid st at expiry]"
    "t_messages db' = t_messages db" "t_conversation_messages db' = t_conversation_messages db"
    "t_idempotency db' = t_idempotency db" "t_schema_migrations db' = t_schema_migrations db"
    by (simp_all add: db' e)
  show "rows_ok db' = rows_ok db" using e(3) by (simp add: db') (simp add: rows_ok_def)
  show "cursor_of b db' = (if b = a then (cursor_of a db)\<lparr>dc_next_seq := seq + 1\<rparr> else cursor_of b db)"
    by (simp add: db' cursor_of_set)
qed

lemma follows_append_delivery:
  assumes "append_delivery a mid st at expiry db = Inr db'"
  shows "follows ev db db'"
proof -
  note r = append_delivery_rows [OF assms]
  have pos: "0 \<le> dc_next_seq (cursor_of a db)" if "cursors_ok db"
    using that by (metis cursors_ok_def order_trans)
  have "deliveries_ok db'" if i: "deliveries_ok db" "cursors_ok db"
    using i pos [OF i(2)] r(3,4)
    by (auto simp: deliveries_ok_def r(1,2,5) new_delivery_def intro: less_trans)
  moreover have "cursors_ok db'" if "cursors_ok db"
    using that by (auto simp: cursors_ok_def r(2) intro: order_trans)
  ultimately show ?thesis
    by (auto simp: follows_def db_inv_def r(5-9) stays_open_def r(1))
qed

lemma follows_insert_receipt:
  assumes "insert_receipt r db = Inr db'"
  shows "follows ev db db'"
proof -
  have db': "db' = db\<lparr>t_idempotency := t_idempotency db @ [r]\<rparr>" "\<not> list_ex (same_receipt r) (t_idempotency db)"
    using assms by (auto simp: insert_receipt_def split: if_splits)
  have "receipt_key r \<notin> set (map receipt_key (t_idempotency db))"
    using db'(2) by (auto simp: list_ex_iff same_receipt_def receipt_key_def)
  then show ?thesis unfolding db'(1) by (intro follows_other_tables) (auto simp: rows_ok_def)
qed

subsection \<open>Deletions\<close>

text \<open>A deletion of messages that spares those with an open delivery.\<close>

lemma follows_delete_messages:
  assumes "\<And>m. P m \<Longrightarrow> \<not> awaiting_delivery db (m_MessageID m)"
  shows "follows ev db (delete_messages P db)"
proof (unfold follows_def, intro impI)
  assume inv: "db_inv db"
  let ?gone = "map fst (filter (\<lambda>(k, m). P m) (t_messages db))"
  let ?db = "delete_messages P db"
  have rows: "rows_ok db" and del: "deliveries_ok db" using inv by (simp_all add: db_inv_def)
  have dist: "keys_distinct (t_messages db)" using rows by (simp add: rows_ok_def)
  have gone: "k \<in> set ?gone \<longleftrightarrow> (\<exists>m. map_of (t_messages db) k = Some m \<and> P m)" for k
    using dist by (auto simp: image_iff)
  have kept: "map_of (t_messages ?db) k = Some m \<longleftrightarrow> map_of (t_messages db) k = Some m \<and> \<not> P m" for k m
    using dist by (auto simp: delete_messages_def Let_def keys_distinct_filter)
  have "rows_ok ?db"
    using rows kept dist by (auto simp: rows_ok_def delete_messages_def Let_def keys_distinct_filter)
  moreover have "deliveries_ok ?db"
    using del gone kept
    by (auto simp: deliveries_ok_def delete_messages_def Let_def has_key_def intro: distinct_map_filter)
  moreover have "open_delivery d \<Longrightarrow> d \<in> set (t_deliveries db) \<Longrightarrow> dl_message_id d \<notin> set ?gone" for d
    using assms rows unfolding gone by (force simp: awaiting_delivery_def list_ex_iff rows_ok_def)
  then have "stays_open ev db ?db" by (fastforce simp: stays_open_def delete_messages_def Let_def)
  ultimately show "db_inv ?db \<and> stays_open ev db ?db"
    using inv by (simp add: db_inv_def cursors_ok_def delete_messages_def Let_def)
qed

lemma follows_drops:
  "follows ev db (drop_receipts now db)" "follows ev db (drop_old_messages cfg now db)"
  "follows ev db (drop_finished_messages cfg now db)" "follows ev db (drop_conversations cfg now db)"
  "follows ev db (drop_links db)"
proof -
  show "follows ev db (drop_receipts now db)" "follows ev db (drop_links db)"
    by (rule follows_other_tables; simp add: drop_receipts_def drop_links_def rows_ok_def distinct_map_filter)+
  show "follows ev db (drop_old_messages cfg now db)" "follows ev db (drop_finished_messages cfg now db)"
    by (auto simp: drop_old_messages_def drop_finished_messages_def Let_def intro!: follows_delete_messages)
  show "follows ev db (drop_conversations cfg now db)"
  proof (rule follows_other_tables)
    assume "rows_ok db"
    then show "rows_ok (drop_conversations cfg now db)"
      by (auto simp: rows_ok_def drop_conversations_def Let_def keys_distinct_filter)
  qed (simp_all add: drop_conversations_def Let_def)
qed

lemma follows_exec_all:
  "(\<And>f db. f \<in> set fs \<Longrightarrow> follows ev db (f db)) \<Longrightarrow> follows ev db (snd (exec_all ios fs db))"
proof (induction ios fs db rule: exec_all.induct)
  case (2 ios f fs db)
  have "follows ev db (f db)" by (rule "2.prems") simp
  also have "follows ev (f db) (snd (exec_all ios fs (f db)))" by (rule "2.IH") (simp add: "2.prems")
  finally show ?case by simp
next
  case (3 f fs db)
  have "follows ev db (f db)" by (rule "3.prems") simp
  also have "follows ev (f db) (snd (exec_all [] fs (f db)))" by (rule "3.IH") (simp add: "3.prems")
  finally show ?case by simp
qed simp_all

section \<open>Every step keeps the invariant\<close>

lemma follows_persistAcceptance: "follows ev (sq_db q) (sq_db (snd (persistAcceptance io window a q)))"
proof -
  let ?db = "accept_rows a (sq_db q)"
  have rows: "follows ev (sq_db q) ?db"
    unfolding accept_rows_def
    by (meson follows_trans follows_saveCountersTo follows_saveConversationMessageTo follows_saveMessageTo
        follows_saveConversationTo)
  have "follows ev ?db db1" if "accept_delivery a ?db = Inr db1" for db1
    using that by (auto simp: accept_delivery_def Let_def follows_append_delivery split: if_splits)
  moreover have "follows ev db1 db2" if "accept_receipt window a db1 = Inr db2" for db1 db2
    using that by (auto simp: accept_receipt_def follows_insert_receipt split: if_splits)
  ultimately show ?thesis
    using rows by (auto simp: persistAcceptance_def split: sum.split option.split) (metis follows_trans)+
qed

lemma follows_acknowledge: "follows (Polled a c) db (snd (acknowledge now a c db))"
proof (unfold follows_def, intro impI)
  assume inv: "db_inv db"
  let ?row = "cursor_of a db"
  define cur where "cur = (let c1 = (if c < dc_acknowledged_cursor ?row then dc_acknowledged_cursor ?row else c)
     in if c1 > dc_next_seq ?row then dc_next_seq ?row else c1)"
  have b: "0 \<le> dc_acknowledged_cursor ?row" "dc_acknowledged_cursor ?row \<le> dc_next_seq ?row"
    using inv by (auto simp: db_inv_def cursors_ok_def)
  have cur: "0 \<le> cur" "cur \<le> dc_next_seq ?row" "cur > dc_acknowledged_cursor ?row \<Longrightarrow> cur \<le> c"
    using b by (auto simp: cur_def Let_def)
  let ?db1 = "ensure_cursor a db"
  have ack: "acknowledge now a c db = (cur, if cur > dc_acknowledged_cursor ?row
      then receive_deliveries now (\<lambda>d. dl_target_agent_id d = a \<and> dl_delivery_seq d < cur) (set_acknowledged a cur ?db1)
      else ?db1)"
    by (simp add: acknowledge_def cur_def Let_def)
  have "follows (Polled a c) ?db1 (snd (acknowledge now a c db))"
  proof (cases "cur > dc_acknowledged_cursor ?row")
    case True
    have "follows (Polled a c) ?db1 (set_acknowledged a cur ?db1)"
      using cur by (intro follows_set_acknowledged) simp_all
    also have "follows (Polled a c) (set_acknowledged a cur ?db1)
      (receive_deliveries now (\<lambda>d. dl_target_agent_id d = a \<and> dl_delivery_seq d < cur) (set_acknowledged a cur ?db1))"
      using cur(3) True by (intro follows_receive) (auto simp: confirmed_def)
    finally show ?thesis using True by (simp add: ack)
  qed (simp add: ack)
  with follows_ensure_cursor have "follows (Polled a c) db (snd (acknowledge now a c db))" by (rule follows_trans)
  then show "db_inv (snd (acknowledge now a c db)) \<and> stays_open (Polled a c) db (snd (acknowledge now a c db))"
    using inv by (simp add: follows_def)
qed

lemma follows_read_transaction:
  "follows (Polled a c) (sq_db q) (sq_db (snd (read_transaction io cfg clk a c limit q)))"
proof (cases io)
  case None
  obtain cursor db1 where ack: "acknowledge (rc_ack clk) a c (sq_db q) = (cursor, db1)"
    by (cases "acknowledge (rc_ack clk) a c (sq_db q)")
  have "follows (Polled a c) (sq_db q) db1" using follows_acknowledge [of a c "sq_db q" "rc_ack clk"] by (simp add: ack)
  moreover have "follows (Polled a c) db1 (fold (\<lambda>(seq, m). offer_message t (m_MessageID m)) pending db1)" for pending t
    by (rule follows_fold) (auto intro: follows_offer_message)
  ultimately show ?thesis
    by (auto simp: read_transaction_def None ack Let_def split: prod.split intro: follows_trans)
qed (simp add: read_transaction_def)

lemma follows_persistAck: "follows (Acked (m_MessageID m)) (sq_db q) (sq_db (snd (persistAck io now m q)))"
proof (cases io)
  case None
  have "follows (Acked (m_MessageID m)) (saveMessageTo m (sq_db q))
      (receive_deliveries now (\<lambda>d. dl_message_id d = m_MessageID m) (saveMessageTo m (sq_db q)))"
    by (rule follows_receive) (auto simp: confirmed_def)
  with follows_saveMessageTo show ?thesis by (simp add: persistAck_def None) (rule follows_trans)
qed (simp add: persistAck_def)

lemma follows_recordPushSuccess: "follows (PushDone mid) (sq_db q) (sq_db (recordPushSuccess io now mid n q))"
  by (auto simp: recordPushSuccess_def recordDeliveryPersistenceResultLocked_def run_statement_def same_delivery_def
      confirmed_def split: option.split intro!: follows_update_deliveries)

lemma follows_recordPushFailure:
  "follows (PushMissed now) (sq_db q) (sq_db (recordPushFailure io cfg now mid n failure q))"
  by (auto simp: recordPushFailure_def recordDeliveryPersistenceResultLocked_def run_statement_def same_delivery_def
      expired_def open_delivery_def Let_def split: option.split intro!: follows_update_deliveries)

lemma follows_claim_one: "follows (Claimed now) db (snd (claim_one io now c db))"
proof -
  let ?P = "\<lambda>d. dl_message_id d = fst c \<and> dl_status d = DeliveryPending"
  have "follows (Claimed now) db (update_deliveries ?P (\<lambda>d. d\<lparr>dl_status := DeliveryAttempting\<rparr>) db)"
    by (rule follows_update_deliveries) (auto simp: same_delivery_def open_delivery_def)
  then show ?thesis
    by (auto simp: claim_one_def Let_def intro: follows_trans follows_offer_message)
qed

lemma follows_claim_loop: "follows (Claimed now) db (snd (claim_loop io now cs db))"
proof (induction cs arbitrary: db)
  case (Cons c cs)
  have "follows (Claimed now) db (snd (claim_one io now c db))" by (rule follows_claim_one)
  with Cons.IH show ?case by (auto split: prod.splits) (metis follows_trans snd_conv)+
qed simp

lemma follows_claimDuePushes: "follows (Claimed now) (sq_db q) (sq_db (snd (claimDuePushes io now q)))"
proof -
  let ?db = "if ci_expire io then sq_db q else expire_deliveries now (sq_db q)"
  have "follows (Claimed now) (sq_db q) ?db" using follows_expire by auto
  moreover have "follows (Claimed now) ?db (snd (claim_loop io now cs ?db))" for cs by (rule follows_claim_loop)
  ultimately show ?thesis
    by (auto simp: claimDuePushes_def Let_def split: prod.split) (metis follows_trans snd_conv)+
qed

lemma follows_pruneDB: "follows (Pruned now) (sq_db q) (sq_db (snd (pruneDB ios cfg now q)))"
proof -
  have "follows (Pruned now) db (f db)" if "f \<in> set (prune_statements cfg now)" for f db
    using that by (auto simp: prune_statements_def follows_drops follows_expire)
  then have "follows (Pruned now) (sq_db q) (snd (exec_all ios (prune_statements cfg now) (sq_db q)))"
    by (rule follows_exec_all)
  then show ?thesis by (auto simp: pruneDB_def split: prod.split)
qed

lemma follows_recover: "follows ev db (recover_attempting db)"
  unfolding recover_attempting_def
  by (rule follows_update_deliveries) (auto simp: same_delivery_def open_delivery_def)

lemma follows_Close: "follows ev (sq_db q) (sq_db (SQLiteStore_Close io now q))"
  by (auto simp: SQLiteStore_Close_def run_statement_def same_delivery_def open_delivery_def
      intro!: follows_update_deliveries)

lemma db_step_follows: "db_step ev q q' \<Longrightarrow> follows ev (sq_db q) (sq_db q')"
  by (induction rule: db_step.induct)
    (auto simp: follows_persistAcceptance follows_read_transaction follows_persistAck follows_recordPushSuccess
      follows_recordPushFailure follows_claimDuePushes follows_pruneDB follows_recover follows_Close
      follows_saveAgentTo follows_set_secret
      intro: follows_trans follows_saveCountersTo follows_saveConversationTo)

lemma db_run_inv:
  assumes "db_run evs q q'" and "db_inv (sq_db q)"
  shows "db_inv (sq_db q')"
  using assms by (induction rule: db_run.induct) (auto dest: db_step_follows simp: follows_def)

text \<open>Over a run: a delivery stays open until an event confirms it or finds it past its deadline.\<close>

lemma db_run_open:
  assumes "db_run evs q q'" and "db_inv (sq_db q)" and "d \<in> set (t_deliveries (sq_db q))" and "open_delivery d"
  shows "(\<exists>ev \<in> set evs. confirmed ev d \<or> expired ev d) \<or>
    (\<exists>d' \<in> set (t_deliveries (sq_db q')). open_delivery d' \<and> same_delivery d d')"
  using assms
proof (induction arbitrary: d rule: db_run.induct)
  case (run_step ev q q1 evs q2)
  have f: "follows ev (sq_db q) (sq_db q1)" using run_step.hyps(1) by (rule db_step_follows)
  then have i: "db_inv (sq_db q1)" "stays_open ev (sq_db q) (sq_db q1)"
    using run_step.prems(1) by (simp_all add: follows_def)
  then consider "confirmed ev d \<or> expired ev d"
    | d1 where "d1 \<in> set (t_deliveries (sq_db q1))" "open_delivery d1" "same_delivery d d1"
    using run_step.prems(2,3) by (auto simp: stays_open_def)
  then show ?case
  proof cases
    case 2
    from run_step.IH [OF i(1) 2(1,2)] show ?thesis using same_delivery_cong [OF 2(3)] by fastforce
  qed auto
qed auto

end
