(* ===== verification/Durable_Inbox.thy ===== *)
theory Durable_Inbox
  imports Sqlite_Inv Delivery
begin

text \<open>
  Properties of the SQLite backend: what a durable poll returns, that an accepted delivery is not lost
  before it is confirmed or past its deadline, and the schedule of push retries.
\<close>

section \<open>Batches\<close>

lemma batch_loop_prefix:
  "\<exists>n. batch_loop maxBytes pending bytes rows = pending @ take n (map (\<lambda>(seq, row). (seq, scanSQLiteMessage row)) rows) \<and>
     (pending = [] \<longrightarrow> rows \<noteq> [] \<longrightarrow> 0 < n)"
proof (induction rows arbitrary: pending bytes)
  case (Cons r rows)
  obtain seq row where r: "r = (seq, row)" by (cases r)
  let ?m = "scanSQLiteMessage row"
  let ?size = "inboxEventSize (messageInboxEvent ?m)"
  show ?case
  proof (cases "pending \<noteq> [] \<and> bytes + ?size > maxBytes")
    case True
    then show ?thesis by (intro exI [of _ 0]) (simp add: r Let_def)
  next
    case False
    obtain n where "batch_loop maxBytes (pending @ [(seq, ?m)]) (bytes + ?size) rows =
        (pending @ [(seq, ?m)]) @ take n (map (\<lambda>(seq, row). (seq, scanSQLiteMessage row)) rows)"
      using Cons.IH by blast
    with False show ?thesis by (intro exI [of _ "Suc n"]) (auto simp: r Let_def)
  qed
qed simp

lemma scan_id [simp]: "m_MessageID (scanSQLiteMessage m) = m_MessageID m" "m_MessageID (offered now m) = m_MessageID m"
  by (simp_all add: scanSQLiteMessage_def offered_def Let_def)

lemma durable_limits: "1 \<le> fst (durableInboxBatchLimits cfg)"
  by (simp add: durableInboxBatchLimits_def durableInboxFallbackMaxEvents_def Let_def)

section \<open>Selecting the deliveries of a poll\<close>

lemma sorted_take:
  fixes f :: "'a \<Rightarrow> int"
  assumes "sorted_wrt (<) (map f xs)" and "take n xs \<noteq> []" and "x \<in> set xs"
  shows "x \<in> set (take n xs) \<longleftrightarrow> f x \<le> f (last (take n xs))"
proof -
  have app: "xs = take n xs @ drop n xs" by simp
  have s: "sorted_wrt (<) (map f (take n xs))" "\<forall>y \<in> set (take n xs). \<forall>z \<in> set (drop n xs). f y < f z"
    using assms(1) by (subst (asm) app, simp add: sorted_wrt_append del: append_take_drop_id)+
  obtain ys z where z: "take n xs = ys @ [z]" using assms(2) by (cases "take n xs" rule: rev_cases) auto
  have "f y \<le> f z" if "y \<in> set (take n xs)" for y using s(1) that by (auto simp: z sorted_wrt_append)
  moreover have "f z < f y" if "y \<in> set (drop n xs)" for y using s(2) that by (simp add: z)
  moreover have "x \<in> set (take n xs) \<or> x \<in> set (drop n xs)" using assms(3) by (metis Un_iff app set_append)
  ultimately show ?thesis by (metis last_snoc leD z)
qed

text \<open>The deliveries that can be offered, in sequence order, each with its message.\<close>

definition due_deliveries :: "time \<Rightarrow> string \<Rightarrow> int \<Rightarrow> sqldb \<Rightarrow> delivery_row list" where
  "due_deliveries now a cursor db = sort_key dl_delivery_seq (filter (offerable now a cursor) (t_deliveries db))"

lemma set_due [simp]: "set (due_deliveries now a cursor db) = {d \<in> set (t_deliveries db). offerable now a cursor d}"
  by (simp add: due_deliveries_def)

lemma due_sorted:
  assumes "deliveries_ok db"
  shows "sorted_wrt (<) (map dl_delivery_seq (due_deliveries now a cursor db))"
proof -
  let ?ds = "filter (offerable now a cursor) (t_deliveries db)"
  have "distinct (map (\<lambda>d. (dl_target_agent_id d, dl_delivery_seq d)) (t_deliveries db))"
    using assms by (simp add: deliveries_ok_def)
  then have "distinct (map (\<lambda>d. (dl_target_agent_id d, dl_delivery_seq d)) ?ds)" by (rule distinct_map_filter)
  then have "distinct (map dl_delivery_seq ?ds)"
    by (auto simp: distinct_map inj_on_def offerable_def)
  then have "distinct (map dl_delivery_seq (sort_key dl_delivery_seq ?ds))"
    by (simp add: distinct_map)
  then show ?thesis by (simp add: due_deliveries_def strict_sorted_iff)
qed

lemma inbox_rows_due:
  assumes "db_inv db"
  shows "map (\<lambda>(seq, m). (seq, m_MessageID m)) (inbox_rows now a cursor db) =
     map (\<lambda>d. (dl_delivery_seq d, dl_message_id d)) (due_deliveries now a cursor db)"
proof -
  have "\<exists>m. map_of (t_messages db) (dl_message_id d) = Some m \<and> m_MessageID m = dl_message_id d"
    if "d \<in> set (due_deliveries now a cursor db)" for d
    using that assms by (force simp: db_inv_def deliveries_ok_def rows_ok_def has_key_def)
  then have "map (\<lambda>(seq, m). (seq, m_MessageID m))
      (List.map_filter (\<lambda>d. map_option (\<lambda>m. (dl_delivery_seq d, m)) (map_of (t_messages db) (dl_message_id d))) ds) =
      map (\<lambda>d. (dl_delivery_seq d, dl_message_id d)) ds" if "set ds \<subseteq> set (due_deliveries now a cursor db)" for ds
    using that
    by (induction ds) (auto simp: map_filter_simps split: option.split simp del: set_due, metis option.inject)
  then show ?thesis by (simp add: inbox_rows_def due_deliveries_def)
qed

lemma receive_offerable:
  "filter (offerable t a cursor)
     (t_deliveries (receive_deliveries now (\<lambda>d. dl_target_agent_id d = a \<and> dl_delivery_seq d < cursor) db)) =
   filter (offerable t a cursor) (t_deliveries db)"
proof -
  have "filter (offerable t a cursor) (map (\<lambda>d. if (dl_target_agent_id d = a \<and> dl_delivery_seq d < cursor) \<and> P d
      then d\<lparr>dl_status := DeliveryReceived, dl_received_at := now, dl_last_error := []\<rparr> else d) ds) =
      filter (offerable t a cursor) ds" for P ds
    by (induction ds) (auto simp: offerable_def)
  then show ?thesis by (simp add: receive_deliveries_def update_deliveries_def del: filter_map)
qed

lemma acknowledge_result:
  fixes a :: string and db :: sqldb
  assumes "acknowledge now a c db = (cursor, db1)"
  shows "due_deliveries t a cursor db1 = due_deliveries t a cursor db"
    and "cursor = clamp_cursor c (dc_acknowledged_cursor (cursor_of a db)) (dc_next_seq (cursor_of a db))"
proof -
  have "t_deliveries (ensure_cursor a db) = t_deliveries db" by (simp add: ensure_cursor_def)
  then show "due_deliveries t a cursor db1 = due_deliveries t a cursor db"
    using assms by (auto simp: acknowledge_def Let_def due_deliveries_def receive_offerable split: if_splits)
  show "cursor = clamp_cursor c (dc_acknowledged_cursor (cursor_of a db)) (dc_next_seq (cursor_of a db))"
    using assms by (auto simp: acknowledge_def Let_def clamp_cursor_def split: if_splits)
qed

lemma acknowledge_inv: "db_inv db \<Longrightarrow> acknowledge now a c db = (cursor, db1) \<Longrightarrow> db_inv db1"
  using follows_acknowledge [of a c db now] by (simp add: follows_def)

section \<open>Durable polls\<close>

text \<open>The rows a read returns: a prefix of the deliveries that are due, not empty if there is one.\<close>

lemma read_transaction_pending:
  fixes q :: sqlite and a :: string
  assumes "db_inv (sq_db q)"
    and "read_transaction None cfg clk a c limit q = (Inr (pending, cursor), q')"
  obtains j where "map (\<lambda>(seq, m). (seq, m_MessageID m)) pending =
      map (\<lambda>d. (dl_delivery_seq d, dl_message_id d)) (take j (due_deliveries (rc_query clk) a cursor (sq_db q)))"
    and "due_deliveries (rc_query clk) a cursor (sq_db q) \<noteq> [] \<Longrightarrow> 0 < j"
    and "cursor = clamp_cursor c (dc_acknowledged_cursor (cursor_of a (sq_db q))) (dc_next_seq (cursor_of a (sq_db q)))"
proof -
  obtain cur db1 where ack: "acknowledge (rc_ack clk) a c (sq_db q) = (cur, db1)"
    by (cases "acknowledge (rc_ack clk) a c (sq_db q)")
  obtain maxE maxB where lim: "durableInboxBatchLimits cfg = (maxE, maxB)" by (cases "durableInboxBatchLimits cfg")
  define k where "k = nat (if limit > 0 \<and> limit < maxE then limit else maxE)"
  have k: "0 < k" using durable_limits [of cfg] by (simp add: lim k_def)
  let ?rows = "inbox_rows (rc_query clk) a cur db1" and ?ds = "due_deliveries (rc_query clk) a cur (sq_db q)"
  let ?key = "\<lambda>(seq, m). (seq, m_MessageID m)" and ?dkey = "\<lambda>d. (dl_delivery_seq d, dl_message_id d)"
  have p: "pending = map (\<lambda>(seq, m). (seq, offered (rc_offer clk) m)) (batch_loop maxB [] 0 (take k ?rows))"
    and cur: "cursor = cur"
    using assms(2) by (auto simp: read_transaction_def ack lim Let_def k_def)
  obtain n where n: "batch_loop maxB [] 0 (take k ?rows) =
      take n (map (\<lambda>(seq, row). (seq, scanSQLiteMessage row)) (take k ?rows))"
    "take k ?rows \<noteq> [] \<Longrightarrow> 0 < n"
    using batch_loop_prefix [of maxB "[]" 0 "take k ?rows"] by auto
  have keys: "map ?key ?rows = map ?dkey ?ds"
    using inbox_rows_due [OF acknowledge_inv [OF assms(1) ack]] acknowledge_result(1) [OF ack] by simp
  have "map ?key pending = take (min n k) (map ?key ?rows)"
    by (simp add: p n(1) take_map case_prod_unfold comp_def)
  then have "map ?key pending = map ?dkey (take (min n k) ?ds)" by (simp add: keys take_map)
  moreover have "0 < min n k" if "?ds \<noteq> []"
  proof -
    have "length ?rows = length ?ds" using arg_cong [OF keys, of length] by simp
    then have "?rows \<noteq> []" using that by (metis length_0_conv)
    then show ?thesis using k n(2) by simp
  qed
  ultimately show thesis using that acknowledge_result(2) [OF ack] unfolding cur by blast
qed

text \<open>
  C13. What a durable poll returns. The cursor the client sends is moved between what it has acknowledged
  before and what exists; from there on, the poll offers the agent's open deliveries that are not past their
  deadline, in sequence order. The batch may be cut by the limits, but it has no gap: the deliveries it
  offers are exactly the ones below the cursor it returns, so a client that polls again from there misses
  none. And a poll that has something to offer offers something.
\<close>

theorem durable_poll_page:
  fixes q :: sqlite and a :: string
  assumes "db_inv (sq_db q)"
    and "read_transaction None cfg clk a c limit q = (Inr (pending, cursor), q')"
  defines "due \<equiv> {d \<in> set (t_deliveries (sq_db q)). offerable (rc_query clk) a cursor d}"
  shows "cursor = clamp_cursor c (dc_acknowledged_cursor (cursor_of a (sq_db q))) (dc_next_seq (cursor_of a (sq_db q))) \<and>
    sorted_wrt (<) (map fst pending) \<and>
    (\<lambda>(seq, m). (seq, m_MessageID m)) ` set pending =
      (\<lambda>d. (dl_delivery_seq d, dl_message_id d)) ` {d \<in> due. dl_delivery_seq d < next_cursor pending cursor} \<and>
    (pending = [] \<longleftrightarrow> due = {})"
proof -
  define ds where "ds = due_deliveries (rc_query clk) a cursor (sq_db q)"
  obtain j where pk: "map (\<lambda>(seq, m). (seq, m_MessageID m)) pending =
      map (\<lambda>d. (dl_delivery_seq d, dl_message_id d)) (take j ds)"
    and j: "ds \<noteq> [] \<Longrightarrow> 0 < j"
    and cur: "cursor = clamp_cursor c (dc_acknowledged_cursor (cursor_of a (sq_db q))) (dc_next_seq (cursor_of a (sq_db q)))"
    using read_transaction_pending [OF assms(1,2)] unfolding ds_def by blast
  have due: "due = set ds" by (simp add: due_def ds_def)
  have sorted: "sorted_wrt (<) (map dl_delivery_seq ds)"
    unfolding ds_def using assms(1) by (intro due_sorted) (simp add: db_inv_def)
  have fst: "map fst pending = map dl_delivery_seq (take j ds)"
    using arg_cong [OF pk, of "map fst"] by (simp add: case_prod_unfold comp_def)
  have emp: "pending = [] \<longleftrightarrow> take j ds = []" using fst by (metis map_is_Nil_conv)
  have below: "dl_delivery_seq d < next_cursor pending cursor \<longleftrightarrow> d \<in> set (take j ds)" if d: "d \<in> set ds" for d
  proof -
    have "ds \<noteq> []" using d by auto
    then have ne: "take j ds \<noteq> []" "pending \<noteq> []" using j emp by simp_all
    have "fst (last pending) = dl_delivery_seq (last (take j ds))" using ne fst by (metis last_map)
    then have "next_cursor pending cursor = dl_delivery_seq (last (take j ds)) + 1"
      using ne by (simp add: next_cursor_def)
    with sorted_take [OF sorted ne(1) d] show ?thesis by auto
  qed
  have "set (take j ds) = {d \<in> due. dl_delivery_seq d < next_cursor pending cursor}"
    unfolding due using below by (auto dest: in_set_takeD)
  moreover have "sorted_wrt (<) (map fst pending)"
    unfolding fst take_map [symmetric] using sorted by (rule sorted_wrt_take)
  moreover have "pending = [] \<longleftrightarrow> due = {}" using emp j unfolding due by auto
  ultimately show ?thesis using cur arg_cong [OF pk, of set] by simp
qed

section \<open>Acceptance\<close>

lemma accept_rows_simps [simp]:
  "t_deliveries (accept_rows a db) = t_deliveries db" "t_idempotency (accept_rows a db) = t_idempotency db"
  "t_schema_migrations (accept_rows a db) = t_schema_migrations db" "cursor_of b (accept_rows a db) = cursor_of b db"
  "map_of (t_messages (accept_rows a db)) k =
     (if k = m_MessageID (sa_message a) then Some (message_row (sa_message a)) else map_of (t_messages db) k)"
  "get_or 0 (t_counters (accept_rows a db)) ''next_message_id'' = sa_nextMessageID a"
  by (simp_all add: accept_rows_def saveCountersTo_def saveConversationMessageTo_def saveMessageTo_def
      saveConversationTo_def)

lemma append_delivery_counters: "append_delivery b mid st at expiry db = Inr db' \<Longrightarrow> t_counters db' = t_counters db"
  by (auto simp: append_delivery_def insert_delivery_def ensure_cursor_def set_next_seq_def Let_def
      split: if_splits option.splits)

text \<open>What a committed acceptance has written.\<close>

lemma persistAcceptance_rows:
  assumes "persistAcceptance io window a q = (Inr receipt, q')"
  defines "m \<equiv> sa_message a" and "db \<equiv> sq_db q" and "db' \<equiv> sq_db q'"
  shows "map_of (t_messages db') k = (if k = m_MessageID m then Some (message_row m) else map_of (t_messages db) k)"
    and "t_deliveries db' = t_deliveries db @
      (if m_To m = [] then [] else [new_delivery (m_To m) (dc_next_seq (cursor_of (m_To m) db)) (m_MessageID m)
         (if sa_pushURL a \<noteq> [] then DeliveryAttempting else DeliveryPending) (m_CreatedAt m) (deliveryExpiry m)])"
    and "sa_idempotencyKey a \<noteq> [] \<Longrightarrow> (m_From m, m_To m, m_RequestID m) \<in> receipt_key ` set (t_idempotency db')"
    and "get_or 0 (t_counters db') ''next_message_id'' = sa_nextMessageID a"
    and "t_schema_migrations db' = t_schema_migrations db"
proof -
  obtain db1 db2 where d1: "accept_delivery a (accept_rows a db) = Inr db1"
    and d2: "accept_receipt window a db1 = Inr db2" and q': "db' = db2"
    using assms(1) by (auto simp: persistAcceptance_def db_def db'_def split: sum.splits option.splits)
  have t2: "t_messages db2 = t_messages db1" "t_deliveries db2 = t_deliveries db1" "t_counters db2 = t_counters db1"
    "t_schema_migrations db2 = t_schema_migrations db1"
    using d2 by (auto simp: accept_receipt_def insert_receipt_def split: if_splits)
  have app: "append_delivery (m_To m) (m_MessageID m) (if sa_pushURL a \<noteq> [] then DeliveryAttempting else DeliveryPending)
      (m_CreatedAt m) (deliveryExpiry m) (accept_rows a db) = Inr db1" if "m_To m \<noteq> []"
    using d1 that by (simp add: accept_delivery_def m_def Let_def)
  have none: "db1 = accept_rows a db" if "m_To m = []" using d1 that by (simp add: accept_delivery_def m_def)
  show "map_of (t_messages db') k = (if k = m_MessageID m then Some (message_row m) else map_of (t_messages db) k)"
    using none append_delivery_rows(5) [OF app] by (cases "m_To m = []") (simp_all add: q' t2 m_def)
  show "t_deliveries db' = t_deliveries db @
      (if m_To m = [] then [] else [new_delivery (m_To m) (dc_next_seq (cursor_of (m_To m) db)) (m_MessageID m)
         (if sa_pushURL a \<noteq> [] then DeliveryAttempting else DeliveryPending) (m_CreatedAt m) (deliveryExpiry m)])"
    using none append_delivery_rows(1) [OF app] by (cases "m_To m = []") (simp_all add: q' t2)
  show "get_or 0 (t_counters db') ''next_message_id'' = sa_nextMessageID a"
    using none append_delivery_counters [OF app] by (cases "m_To m = []") (simp_all add: q' t2)
  show "t_schema_migrations db' = t_schema_migrations db"
    using none append_delivery_rows(8) [OF app] by (cases "m_To m = []") (simp_all add: q' t2)
  show "(m_From m, m_To m, m_RequestID m) \<in> receipt_key ` set (t_idempotency db')" if "sa_idempotencyKey a \<noteq> []"
    using d2 that by (force simp: q' accept_receipt_def insert_receipt_def receipt_key_def m_def split: if_splits)
qed

text \<open>What an accepted send has stored.\<close>

lemma sqlite_send_accepted:
  assumes "SQLiteStore_SendMessage mo input (s, q) = (Inr (m, False), s', q')"
  shows "map_of (s_messages s') (m_MessageID m) = Some m"
    "map_of (t_messages (sq_db q')) (m_MessageID m) = Some (message_row m)"
    "\<exists>d \<in> set (t_deliveries (sq_db q')). open_delivery d \<and> dl_message_id d = m_MessageID m \<and>
       dl_target_agent_id d = m_To m \<and> dl_expires_at d = deliveryExpiry m"
    "(m_From m, m_To m, m_RequestID m) \<in> receipt_key ` set (t_idempotency (sq_db q'))"
    "get_or 0 (t_counters (sq_db q')) ''next_message_id'' = s_nextMessageID s'"
    "m_From m = TrimSpace (sm_From input)" "m_To m = TrimSpace (sm_To input)"
    "\<exists>acc receipt. persistAcceptance (qm_io mo) (cfg_IdempotencyWindow (s_cfg s)) acc q = (Inr receipt, q')"
proof -
  let ?commit = "Some (persistAcceptance (qm_io mo) (cfg_IdempotencyWindow (s_cfg s)))"
  obtain target acc acc' where ok: "send_check input s = None"
    "send_plan (qm_now mo) input target (sweepLocked (qm_orders mo) (qm_now mo) s) = Inr acc"
    "run_barrier ?commit acc q = (Inr acc', q')" "m = sa_message acc'"
    "s' = accept_send (qm_now mo) acc' (sweepLocked (qm_orders mo) (qm_now mo) s)"
    using assms unfolding SQLiteStore_SendMessage_def fst_conv snd_conv by (rule sendMessage_accepted) blast
  obtain receipt where p: "persistAcceptance (qm_io mo) (cfg_IdempotencyWindow (s_cfg s)) acc q = (Inr receipt, q')"
    and acc': "acc' = acc\<lparr>sa_pushReceipt := receipt\<rparr>"
    using ok(3) by (auto simp: run_barrier_def split: sum.splits prod.splits)
  obtain conv :: conversation where msg: "sa_message acc = route_message (qm_now mo) target (new_message (qm_now mo) input (c_ConversationID conv)
      (s_nextMessageID (sweepLocked (qm_orders mo) (qm_now mo) s) + 1) (sweepLocked (qm_orders mo) (qm_now mo) s))
      (sweepLocked (qm_orders mo) (qm_now mo) s)"
    and key: "sa_idempotencyKey acc \<noteq> []"
    using ok(2) by (rule send_plan_fields) (auto simp: dedupeKey_def)
  have "TrimSpace (sm_To input) \<noteq> []" using ok(1) by (auto simp: send_check_def Let_def split: if_splits)
  with key have to: "m_To m \<noteq> []" "sa_idempotencyKey acc \<noteq> []"
    "m_From m = TrimSpace (sm_From input)" "m_To m = TrimSpace (sm_To input)"
    by (simp_all add: ok(4) acc' msg new_message_def Let_def)
  then show "m_From m = TrimSpace (sm_From input)" "m_To m = TrimSpace (sm_To input)" by simp_all
  show "\<exists>acc receipt. persistAcceptance (qm_io mo) (cfg_IdempotencyWindow (s_cfg s)) acc q = (Inr receipt, q')"
    using p by blast
  note rows = persistAcceptance_rows [OF p]
  show "map_of (s_messages s') (m_MessageID m) = Some m"
    "map_of (t_messages (sq_db q')) (m_MessageID m) = Some (message_row m)"
    "(m_From m, m_To m, m_RequestID m) \<in> receipt_key ` set (t_idempotency (sq_db q'))"
    "get_or 0 (t_counters (sq_db q')) ''next_message_id'' = s_nextMessageID s'"
    using rows to ok(4) by (simp_all add: acc' ok(5) accept_send_tables)
  show "\<exists>d \<in> set (t_deliveries (sq_db q')). open_delivery d \<and> dl_message_id d = m_MessageID m \<and>
      dl_target_agent_id d = m_To m \<and> dl_expires_at d = deliveryExpiry m"
    using rows to ok(4) by (simp add: acc') (simp add: open_delivery_def new_delivery_def)
qed

lemma sqlite_send_otherwise:
  assumes "SQLiteStore_SendMessage mo input (s, q) = (r, s', q')" and "\<nexists>m. r = Inr (m, False)"
  shows "q' = q"
proof -
  have "d' = d" if "run_barrier (Some (persistAcceptance io window)) acc d = (Inl err, d')" for io window acc d d' err
    using that by (auto simp: run_barrier_def persistAcceptance_def split: sum.splits option.splits prod.splits)
  then show ?thesis
    using assms unfolding SQLiteStore_SendMessage_def sendMessage_def
    by (auto simp: Let_def split: option.splits sum.splits prod.splits)
qed

text \<open>
  A message is accepted in the database and in memory together, or in neither. After a send that is
  accepted as new, the transaction has stored the message, an open delivery for its receiver, the
  idempotency receipt and the counter of message identifiers, and the in-memory store has the message. After
  any other send, whether refused, repeated or failed in the database, the database is the one before.
\<close>

theorem sqlite_send_durable:
  "case SQLiteStore_SendMessage mo input (s, q) of
     (Inr (m, False), s', q') \<Rightarrow>
       map_of (s_messages s') (m_MessageID m) = Some m \<and>
       map_of (t_messages (sq_db q')) (m_MessageID m) = Some (message_row m) \<and>
       (\<exists>d \<in> set (t_deliveries (sq_db q')). open_delivery d \<and> dl_message_id d = m_MessageID m \<and>
          dl_target_agent_id d = m_To m \<and> dl_expires_at d = deliveryExpiry m) \<and>
       (m_From m, m_To m, m_RequestID m) \<in> receipt_key ` set (t_idempotency (sq_db q')) \<and>
       get_or 0 (t_counters (sq_db q')) ''next_message_id'' = s_nextMessageID s'
   | (_, s', q') \<Rightarrow> q' = q"
proof -
  obtain r s' q' where r: "SQLiteStore_SendMessage mo input (s, q) = (r, s', q')"
    by (cases "SQLiteStore_SendMessage mo input (s, q)")
  show ?thesis
  proof (cases "\<exists>m. r = Inr (m, False)")
    case True
    then obtain m where "r = Inr (m, False)" by blast
    with sqlite_send_accepted(1-5) [OF r [unfolded this]] r show ?thesis by simp
  next
    case False
    with sqlite_send_otherwise [OF r False] r show ?thesis by (auto split: sum.split prod.split bool.split)
  qed
qed

section \<open>The fate of a delivery\<close>

definition ex_sqlite :: sqlite where
  "ex_sqlite = \<lparr>sq_db = empty_db\<lparr>t_schema_migrations := [(durableDeliveryBackfill, ex_time)]\<rparr>,
     sq_deliveryPersistErrors = []\<rparr>"

definition ex_delivery :: delivery_row where
  "ex_delivery = new_delivery ''ucla.b'' 0 ''m-000001'' DeliveryPending ex_time (ex_time + 600 * Second)"

definition ex_accepted :: sqlite where
  "ex_accepted = snd (persistAcceptance None (24 * Hour) ex_acceptance ex_sqlite)"

lemma ex_sqlite_inv: "db_inv (sq_db ex_sqlite)"
  using db_inv_empty by (simp add: ex_sqlite_def db_inv_def deliveries_ok_def cursors_ok_def rows_ok_def)

lemma ex_accepted_eval: "persistAcceptance None (24 * Hour) ex_acceptance ex_sqlite = (Inr None, ex_accepted)"
proof -
  have "fst (persistAcceptance None (24 * Hour) ex_acceptance ex_sqlite) = Inr None"
    by (simp add: persistAcceptance_def accept_delivery_def append_delivery_def insert_delivery_def accept_receipt_def
        insert_receipt_def ex_acceptance_def ex_message_def ex_sqlite_def empty_db_def Let_def has_key_def
        accept_rows_def saveCountersTo_def saveConversationMessageTo_def saveMessageTo_def saveConversationTo_def
        ensure_cursor_def new_delivery_def dedupeKey_def)
  then show ?thesis by (simp add: ex_accepted_def prod_eq_iff)
qed

lemma ex_accepted_deliveries: "t_deliveries (sq_db ex_accepted) = [ex_delivery]"
  using persistAcceptance_rows(2) [OF ex_accepted_eval]
  by (simp add: ex_acceptance_def ex_message_def ex_sqlite_def empty_db_def ex_delivery_def cursor_of_def get_or_def
      deliveryExpiry_def IsZero_def)

lemma ex_accepted_inv: "db_inv (sq_db ex_accepted)"
  using follows_persistAcceptance [of Accepted ex_sqlite None "24 * Hour" ex_acceptance] ex_sqlite_inv
  by (simp add: follows_def ex_accepted_def)

text \<open>
  C8. Delivery is at least once. From the moment the transaction of a send or an injection commits, the
  delivery to its receiver stays open, over any sequence of polls, acknowledgements, callbacks, claims,
  retention runs, crashes and restarts, until the receiver confirms it (it polls past it, acknowledges the
  message or posts an event for it, or its callback succeeds) or a step finds it past its deadline.
\<close>

theorem durable_delivery_kept:
  assumes "db_inv (sq_db q)" and "persistAcceptance io window a q = (Inr receipt, q1)"
    and "m_To (sa_message a) \<noteq> []" and "db_run evs q1 q2"
  shows "\<exists>d \<in> set (t_deliveries (sq_db q1)). dl_message_id d = m_MessageID (sa_message a) \<and>
    dl_target_agent_id d = m_To (sa_message a) \<and> dl_expires_at d = deliveryExpiry (sa_message a) \<and>
    ((\<exists>ev \<in> set evs. confirmed ev d \<or> expired ev d) \<or>
     (\<exists>d' \<in> set (t_deliveries (sq_db q2)). open_delivery d' \<and> same_delivery d d'))"
proof -
  let ?d = "new_delivery (m_To (sa_message a)) (dc_next_seq (cursor_of (m_To (sa_message a)) (sq_db q)))
    (m_MessageID (sa_message a)) (if sa_pushURL a \<noteq> [] then DeliveryAttempting else DeliveryPending)
    (m_CreatedAt (sa_message a)) (deliveryExpiry (sa_message a))"
  have d: "?d \<in> set (t_deliveries (sq_db q1))" using persistAcceptance_rows(2) [OF assms(2)] assms(3) by simp
  have o: "open_delivery ?d" by (simp add: open_delivery_def new_delivery_def)
  have "db_inv (sq_db q1)"
    using follows_persistAcceptance [of Accepted q io window a] assms(1,2) by (simp add: follows_def)
  from db_run_open [OF assms(4) this d o] d show ?thesis
    by (intro bexI [of _ ?d]) (simp_all add: new_delivery_def)
qed

theorem durable_delivery_kept_witness:
  "\<exists>q2. db_run [Polled ''ucla.b'' 0, Recovered] ex_accepted q2 \<and>
     (\<exists>d \<in> set (t_deliveries (sq_db q2)). open_delivery d \<and> dl_message_id d = ''m-000001'')"
proof -
  obtain q2 where run: "db_run [Polled ''ucla.b'' 0, Recovered] ex_accepted q2"
    by (meson db_run.intros db_step.poll db_step.restart)
  have "m_To (sa_message ex_acceptance) \<noteq> []" by (simp add: ex_acceptance_def ex_message_def)
  from durable_delivery_kept [OF ex_sqlite_inv ex_accepted_eval this run]
  have "\<exists>d \<in> set (t_deliveries (sq_db q2)). open_delivery d \<and> dl_message_id d = dl_message_id ex_delivery"
    by (auto simp: ex_accepted_deliveries ex_delivery_def new_delivery_def confirmed_def expired_def same_delivery_def)
  with run show ?thesis by (auto simp: ex_delivery_def new_delivery_def)
qed

text \<open>
  Every database the bus can reach from an empty one is consistent: identifiers are unique, a delivery
  belongs to a stored message, has its own sequence number below the next one of its receiver, no receiver
  has acknowledged more than was sent to it, and no two receipts or conversation positions coincide.
\<close>

theorem sqlite_inv_reachable:
  assumes "db_run evs \<lparr>sq_db = empty_db, sq_deliveryPersistErrors = []\<rparr> q"
  shows "db_inv (sq_db q)"
  using assms db_inv_empty by (auto dest: db_run_inv)

theorem sqlite_inv_reachable_witness:
  "db_inv (sq_db (snd (persistAcceptance None (24 * Hour) ex_acceptance \<lparr>sq_db = empty_db, sq_deliveryPersistErrors = []\<rparr>)))"
  by (rule sqlite_inv_reachable, rule db_run.run_step, rule db_step.accept, rule db_run.run_refl)

theorem durable_poll_page_witness:
  "\<exists>m q'. read_transaction None (normalize_config ex_config) \<lparr>rc_ack = ex_time, rc_query = ex_time, rc_offer = ex_time\<rparr>
     ''ucla.b'' 0 0 ex_accepted = (Inr ([(0, m)], 0), q') \<and> m_MessageID m = ''m-000001''"
proof -
  let ?clk = "\<lparr>rc_ack = ex_time, rc_query = ex_time, rc_offer = ex_time\<rparr>"
  have late: "text_less ex_time (ex_time + 600 * Second)"
    unfolding text_less_def ex_time_def by code_simp
  have cur: "cursor_of ''ucla.b'' (sq_db ex_accepted) = \<lparr>dc_next_seq = 1, dc_acknowledged_cursor = 0\<rparr>"
    by (simp add: ex_accepted_def persistAcceptance_def accept_delivery_def append_delivery_def insert_delivery_def
        accept_receipt_def insert_receipt_def ex_acceptance_def ex_message_def ex_sqlite_def empty_db_def Let_def
        has_key_def accept_rows_def saveCountersTo_def saveConversationMessageTo_def saveMessageTo_def
        saveConversationTo_def ensure_cursor_def new_delivery_def dedupeKey_def set_next_seq_def cursor_of_def get_or_def)
  obtain pending cursor q2 where r: "read_transaction None (normalize_config ex_config) ?clk ''ucla.b'' 0 0 ex_accepted =
      (Inr (pending, cursor), q2)"
    by (auto simp: read_transaction_def Let_def case_prod_unfold)
  note pg = durable_poll_page [OF ex_accepted_inv r]
  have c: "cursor = 0" using pg by (simp add: cur clamp_cursor_def)
  have due: "{d \<in> set (t_deliveries (sq_db ex_accepted)). offerable ex_time ''ucla.b'' 0 d} = {ex_delivery}"
    using late by (auto simp: ex_accepted_deliveries offerable_def ex_delivery_def new_delivery_def open_delivery_def)
  have keys: "(seq, m_MessageID m) = (0, ''m-000001'')" if "(seq, m) \<in> set pending" for seq m
  proof -
    have "(seq, m_MessageID m) \<in> (\<lambda>(seq, m). (seq, m_MessageID m)) ` set pending" using that by force
    then show ?thesis using pg by (auto simp: c due ex_delivery_def new_delivery_def split: if_splits)
  qed
  have "pending \<noteq> []" using pg by (simp add: c due)
  then obtain seq m rest where p: "pending = (seq, m) # rest" by (cases pending) auto
  have id: "seq = 0" "m_MessageID m = ''m-000001''" using keys [of seq m] by (simp_all add: p)
  have "rest = []"
  proof (cases rest)
    case (Cons y ys)
    have "fst y = 0" using keys [of "fst y" "snd y"] by (simp add: p Cons)
    moreover have "seq < fst y" using pg by (simp add: p Cons)
    ultimately show ?thesis using id by simp
  qed
  with r c p id show ?thesis by blast
qed

end
