(* ===== verification/Durable_Restart.thy ===== *)
theory Durable_Restart
  imports Durable_Inbox
begin

text \<open>
  Restarting on a SQLite database: what is loaded, and what happens to open deliveries; the schedule and
  the claims of push retries; and two cases in which what is left in the database gets in the way.
\<close>

section \<open>What is loaded\<close>

lemma map_of_fold_update:
  assumes "distinct (map fst xs)" and "\<forall>(k, v) \<in> set xs. key v = k"
  shows "map_of (fold (\<lambda>(k, v). AList.update (key v) (g v)) xs acc) k =
    (case map_of xs k of Some v \<Rightarrow> Some (g v) | None \<Rightarrow> map_of acc k)"
  using assms
proof (induction xs arbitrary: acc)
  case (Cons x xs)
  obtain k0 v0 where x: "x = (k0, v0)" by (cases x)
  have "map_of xs k0 = None" using Cons.prems(1) by (simp add: x map_of_eq_None_iff)
  with Cons show ?case by (auto simp: x split: option.splits)
qed simp

lemma load_frames [simp]:
  "s_messages (loadCounters db s) = s_messages s" "s_agents (loadCounters db s) = s_agents s"
  "s_messages (loadAgents db s) = s_messages s"
  "s_messages (loadConversations db s) = s_messages s" "s_agents (loadConversations db s) = s_agents s"
  "s_messages (loadConversationMessages db s) = s_messages s" "s_agents (loadConversationMessages db s) = s_agents s"
  "s_agents (loadMessages db s) = s_agents s"
  "s_nextMessageID (loadAgents db s) = s_nextMessageID s" "s_nextMessageID (loadConversations db s) = s_nextMessageID s"
  "s_nextMessageID (loadMessages db s) = s_nextMessageID s"
  "s_nextMessageID (loadConversationMessages db s) = s_nextMessageID s"
  by (auto simp: loadCounters_def loadAgents_def loadConversations_def loadMessages_def loadConversationMessages_def
      Let_def case_prod_unfold intro!: fold_keeps_eq)

lemma load_receipts_frames:
  "load_receipts rs s = Inr s' \<Longrightarrow>
     s_messages s' = s_messages s \<and> s_agents s' = s_agents s \<and> s_nextMessageID s' = s_nextMessageID s"
  by (induction rs s rule: load_receipts.induct) (auto split: sum.splits)

lemma load_receipts_ok:
  "\<forall>r \<in> set rs. \<exists>t. parseSQLiteTime (id_accepted_at r) = Inr t \<Longrightarrow> \<exists>s'. load_receipts rs s = Inr s'"
  by (induction rs arbitrary: s) (auto split: sum.splits)

lemma loadMessages_rows:
  assumes "rows_ok db" and "s_messages s = []"
  shows "map_of (s_messages (loadMessages db s)) k = map_option scanSQLiteMessage (map_of (t_messages db) k)"
proof -
  have f: "s_messages (fold (\<lambda>(k, m) s. s\<lparr>s_messages := AList.update (m_MessageID m) (scanSQLiteMessage m) (s_messages s)\<rparr>) xs s) =
      fold (\<lambda>(k, m). AList.update (m_MessageID m) (scanSQLiteMessage m)) xs (s_messages s)" for xs and s :: store
    by (induction xs arbitrary: s) auto
  have "\<forall>(k, m) \<in> set (t_messages db). m_MessageID m = k" using assms(1) by (auto simp: rows_ok_def)
  then show ?thesis
    using assms by (simp add: loadMessages_def f map_of_fold_update rows_ok_def split: option.split)
qed

lemma loadAgents_rows:
  assumes "rows_ok db" and "s_agents s = []"
  shows "map_of (s_agents (loadAgents db s)) k = map_option (loaded_agent \<circ> ar_agent) (map_of (t_agents db) k)"
proof -
  have f: "s_agents (fold (\<lambda>(k, row) s. (let a = loaded_agent (ar_agent row);
        s1 = s\<lparr>s_agents := AList.update (a_AgentID a) a (s_agents s)\<rparr> in
      if has_key (s_inboxes s1) (a_AgentID a) then s1
      else s1\<lparr>s_inboxes := AList.update (a_AgentID a) [] (s_inboxes s1),
             s_inboxBase := AList.update (a_AgentID a) 0 (s_inboxBase s1)\<rparr>)) xs s) =
      fold (\<lambda>(k, row). AList.update (a_AgentID (ar_agent row)) (loaded_agent (ar_agent row))) xs (s_agents s)"
    for xs and s :: store
    by (induction xs arbitrary: s) (auto simp: Let_def loaded_agent_def)
  have "\<forall>(k, r) \<in> set (t_agents db). a_AgentID (ar_agent r) = k" using assms(1) by (auto simp: rows_ok_def)
  then show ?thesis
    using assms unfolding loadAgents_def f
    by (simp add: map_of_fold_update [where g = "loaded_agent \<circ> ar_agent", unfolded comp_def] rows_ok_def
        comp_def split: option.split)
qed

lemma loadAll_rows:
  assumes "rows_ok db" and "s_messages s = []" and "s_agents s = []" and "loadAll None now db s = Inr s'"
  shows "map_of (s_messages s') k = map_option scanSQLiteMessage (map_of (t_messages db) k)"
    and "map_of (s_agents s') k = map_option (loaded_agent \<circ> ar_agent) (map_of (t_agents db) k)"
    and "s_nextMessageID s' = get_or (s_nextMessageID s) (t_counters db) ''next_message_id''"
proof -
  let ?s = "loadConversationMessages db (loadMessages db (loadConversations db (loadAgents db (loadCounters db s))))"
  have "s_messages s' = s_messages ?s \<and> s_agents s' = s_agents ?s \<and> s_nextMessageID s' = s_nextMessageID ?s"
    using assms(4) load_receipts_frames by (simp add: loadAll_def loadIdempotency_def)
  then show "map_of (s_messages s') k = map_option scanSQLiteMessage (map_of (t_messages db) k)"
    "map_of (s_agents s') k = map_option (loaded_agent \<circ> ar_agent) (map_of (t_agents db) k)"
    "s_nextMessageID s' = get_or (s_nextMessageID s) (t_counters db) ''next_message_id''"
    using assms by (simp_all add: loadMessages_rows loadAgents_rows) (simp add: loadCounters_def)
qed

section \<open>Restart\<close>

definition start_fine :: "start_io \<Rightarrow> bool" where
  "start_fine io \<longleftrightarrow>
     st_open io = None \<and> st_backfill io = None \<and> st_recover io = None \<and> st_prune io = [] \<and> st_load io = None"

lemma exec_all_fine: "exec_all [] fs db = (None, fold (\<lambda>f. f) fs db)"
  by (induction fs arbitrary: db) simp_all

lemma filter_only_status: "t_idempotency (recover_attempting db) = t_idempotency db"
  by (simp add: recover_attempting_def)

lemma drop_subsets:
  "set (t_deliveries (drop_receipts now db)) \<subseteq> set (t_deliveries db)"
  "set (t_deliveries (drop_old_messages cfg now db)) \<subseteq> set (t_deliveries db)"
  "set (t_deliveries (drop_finished_messages cfg now db)) \<subseteq> set (t_deliveries db)"
  "set (t_deliveries (drop_conversations cfg now db)) \<subseteq> set (t_deliveries db)"
  "set (t_deliveries (drop_links db)) \<subseteq> set (t_deliveries db)"
  "set (t_idempotency (drop_receipts now db)) \<subseteq> set (t_idempotency db)"
  "t_idempotency (drop_old_messages cfg now db) = t_idempotency db"
  "t_idempotency (drop_finished_messages cfg now db) = t_idempotency db"
  "t_idempotency (drop_conversations cfg now db) = t_idempotency db"
  "t_idempotency (drop_links db) = t_idempotency db"
  by (auto simp: drop_receipts_def drop_old_messages_def drop_finished_messages_def drop_conversations_def
      drop_links_def delete_messages_def Let_def)

lemma prune_counters:
  "t_counters (fold (\<lambda>f. f) (prune_statements cfg now) db) = t_counters db"
proof -
  have "t_counters (expire_deliveries now db) = t_counters db" "t_counters (drop_receipts now db) = t_counters db"
    "t_counters (drop_old_messages cfg now db) = t_counters db" "t_counters (drop_links db) = t_counters db"
    "t_counters (drop_finished_messages cfg now db) = t_counters db" "t_counters (drop_conversations cfg now db) = t_counters db"
    for db
    by (simp_all add: expire_deliveries_def update_deliveries_def drop_receipts_def drop_old_messages_def
        drop_finished_messages_def drop_conversations_def drop_links_def delete_messages_def Let_def)
  then show ?thesis by (simp add: prune_statements_def)
qed

lemma prune_receipts: "set (t_idempotency (fold (\<lambda>f. f) (prune_statements cfg now) db)) \<subseteq> set (t_idempotency db)"
proof -
  have "t_idempotency (expire_deliveries now db) = t_idempotency db" by (simp add: expire_deliveries_def)
  then show ?thesis
    using drop_subsets(6) [of now "expire_deliveries now db"] by (simp add: prune_statements_def drop_subsets)
qed

lemma prune_settled:
  assumes "DeliveryAttempting \<notin> dl_status ` set (t_deliveries db)"
  shows "DeliveryAttempting \<notin> dl_status ` set (t_deliveries (fold (\<lambda>f. f) (prune_statements cfg now) db))"
proof -
  have "set (t_deliveries (fold (\<lambda>f. f) (prune_statements cfg now) db)) \<subseteq> set (t_deliveries (expire_deliveries now db))"
    unfolding prune_statements_def by simp (meson drop_subsets(1-5) subset_trans)
  moreover have "DeliveryAttempting \<notin> dl_status ` set (t_deliveries (expire_deliveries now db))"
    using assms by (auto simp: expire_deliveries_def update_deliveries_def)
  ultimately show ?thesis by blast
qed

lemma NewStore_empty: "NewStore rk al ep cfg = Inr s \<Longrightarrow> s_messages s = [] \<and> s_agents s = []"
  by (auto simp: NewStore_def new_store_state_def Let_def split: sum.splits option.splits)

text \<open>
  C12. A restart on the database loses nothing that is still owed. When the file can be read, the new
  process holds exactly the messages and agents of the retained rows and continues the counter of message
  identifiers; every delivery that was open and not past its deadline, including the ones a callback was
  being attempted for, is open again with its message in memory; and no delivery is left in the state of an
  attempt that no process makes.
\<close>

theorem sqlite_restart:
  assumes "db_inv db" and "has_key (t_schema_migrations db) durableDeliveryBackfill" and "start_fine io"
    and "NewStore rk allowlist epoch cfg = Inr inner"
    and "\<forall>r \<in> set (t_idempotency db). \<exists>t. parseSQLiteTime (id_accepted_at r) = Inr t"
  shows "\<exists>s q. NewSQLiteStore rk allowlist epoch io now cfg db = (Inr s, q) \<and> db_inv (sq_db q) \<and>
    (\<forall>k. map_of (s_messages s) k = map_option scanSQLiteMessage (map_of (t_messages (sq_db q)) k)) \<and>
    (\<forall>k. map_of (s_agents s) k = map_option (loaded_agent \<circ> ar_agent) (map_of (t_agents (sq_db q)) k)) \<and>
    s_nextMessageID s = get_or (s_nextMessageID inner) (t_counters (sq_db q)) ''next_message_id'' \<and>
    (\<forall>d \<in> set (t_deliveries db). open_delivery d \<and> \<not> text_le (dl_expires_at d) now \<longrightarrow>
       has_key (s_messages s) (dl_message_id d) \<and>
       (\<exists>d' \<in> set (t_deliveries (sq_db q)). dl_status d' = DeliveryPending \<and> same_delivery d d')) \<and>
    DeliveryAttempting \<notin> dl_status ` set (t_deliveries (sq_db q))"
proof -
  let ?db1 = "recover_attempting db"
  define db2 where "db2 = fold (\<lambda>f. f) (prune_statements (s_cfg inner) now) ?db1"
  let ?q = "\<lparr>sq_db = db2, sq_deliveryPersistErrors = []\<rparr>"
  have pr: "pruneDB [] (s_cfg inner) now \<lparr>sq_db = ?db1, sq_deliveryPersistErrors = []\<rparr> = (None, ?q)"
    by (simp add: pruneDB_def exec_all_fine db2_def)
  have "follows (Pruned now) db ?db1" by (rule follows_recover)
  also have "follows (Pruned now) ?db1 db2"
    using follows_pruneDB [of now "\<lparr>sq_db = ?db1, sq_deliveryPersistErrors = []\<rparr>" "[]" "s_cfg inner"] by (simp add: pr)
  finally have f: "db_inv db2" "stays_open (Pruned now) db db2" using assms(1) by (simp_all add: follows_def)
  have "\<forall>r \<in> set (t_idempotency db2). \<exists>t. parseSQLiteTime (id_accepted_at r) = Inr t"
    using assms(5) prune_receipts [of "s_cfg inner" now ?db1] by (auto simp: db2_def filter_only_status)
  then obtain s where s: "loadAll None now db2 inner = Inr s"
    using load_receipts_ok by (fastforce simp: loadAll_def loadIdempotency_def)
  have new: "NewSQLiteStore rk allowlist epoch io now cfg db = (Inr s, ?q)"
    using assms(2-4) by (simp add: NewSQLiteStore_def start_fine_def backfillLegacyDeliveryState_def pr s Let_def)
  note rows = loadAll_rows [OF _ _ _ s] NewStore_empty [OF assms(4)]
  have ok: "rows_ok db2" "deliveries_ok db2" using f(1) by (simp_all add: db_inv_def)
  have settled: "DeliveryAttempting \<notin> dl_status ` set (t_deliveries db2)"
    unfolding db2_def by (rule prune_settled) (auto simp: recover_attempting_def update_deliveries_def)
  have "has_key (s_messages s) (dl_message_id d) \<and>
      (\<exists>d' \<in> set (t_deliveries db2). dl_status d' = DeliveryPending \<and> same_delivery d d')"
    if d: "d \<in> set (t_deliveries db)" "open_delivery d" "\<not> text_le (dl_expires_at d) now" for d
  proof -
    obtain d' where d': "d' \<in> set (t_deliveries db2)" "open_delivery d'" "same_delivery d d'"
      using f(2) d by (auto simp: stays_open_def confirmed_def expired_def)
    then have "has_key (s_messages s) (dl_message_id d)"
      using ok rows by (auto simp: deliveries_ok_def same_delivery_def has_key_def)
    moreover have "dl_status d' = DeliveryPending" using d'(1,2) settled by (metis image_eqI open_delivery_def)
    ultimately show ?thesis using d' by blast
  qed
  then show ?thesis using new f(1) rows ok settled by (intro exI [of _ s] exI [of _ ?q]) auto
qed

theorem sqlite_restart_witness:
  "\<exists>s q. NewSQLiteStore (\<lambda>_. 0) [] ''e'' \<lparr>st_open = None, st_backfill = None, st_recover = None, st_prune = [], st_load = None\<rparr>
       ex_time ex_config (sq_db ex_accepted) = (Inr s, q) \<and>
     has_key (s_messages s) ''m-000001'' \<and> s_nextMessageID s = 1"
proof -
  let ?io = "\<lparr>st_open = None, st_backfill = None, st_recover = None, st_prune = [], st_load = None\<rparr>"
  have db: "t_schema_migrations (sq_db ex_accepted) = [(durableDeliveryBackfill, ex_time)]"
    using persistAcceptance_rows(5) [OF ex_accepted_eval] by (simp add: ex_sqlite_def)
  have rc: "map id_accepted_at (t_idempotency (sq_db ex_accepted)) = [ex_time]"
    and cn: "t_counters (sq_db ex_accepted) = [(''next_conversation_id'', 1), (''next_message_id'', 1)]"
    by (simp_all add: ex_accepted_def persistAcceptance_def accept_delivery_def append_delivery_def insert_delivery_def
        accept_receipt_def insert_receipt_def ex_acceptance_def ex_message_def ex_sqlite_def empty_db_def Let_def
        has_key_def accept_rows_def saveCountersTo_def saveConversationMessageTo_def saveMessageTo_def
        saveConversationTo_def ensure_cursor_def new_delivery_def dedupeKey_def set_next_seq_def cursor_of_def get_or_def)
  have "time_Parse ex_time = Some ex_time" unfolding ex_time_def by code_simp
  then have "parseSQLiteTime ex_time = Inr ex_time \<or> parseSQLiteTime ex_time = Inr 0"
    by (simp add: parseSQLiteTime_def)
  then have p: "\<forall>r \<in> set (t_idempotency (sq_db ex_accepted)). \<exists>t. parseSQLiteTime (id_accepted_at r) = Inr t"
    using rc by (auto simp: Cons_eq_map_conv map_eq_Cons_conv)
  have m: "has_key (t_schema_migrations (sq_db ex_accepted)) durableDeliveryBackfill" by (simp add: db has_key_def)
  have fine: "start_fine ?io" by (simp add: start_fine_def)
  from sqlite_restart [OF ex_accepted_inv m fine ex0_new p, of ex_time]
  obtain s q where sq: "NewSQLiteStore (\<lambda>_. 0) [] ''e'' ?io ex_time ex_config (sq_db ex_accepted) = (Inr s, q)"
    and id: "s_nextMessageID s = get_or (s_nextMessageID ex0) (t_counters (sq_db q)) ''next_message_id''"
    and k: "\<forall>d \<in> set (t_deliveries (sq_db ex_accepted)). open_delivery d \<and> \<not> text_le (dl_expires_at d) ex_time \<longrightarrow>
       has_key (s_messages s) (dl_message_id d)"
    by blast
  have "\<not> text_le (ex_time + 600 * Second) ex_time" unfolding text_le_def ex_time_def by code_simp
  then have key: "has_key (s_messages s) ''m-000001''"
    using k by (simp add: ex_accepted_deliveries ex_delivery_def new_delivery_def open_delivery_def)
  have "t_counters (sq_db q) = t_counters (sq_db ex_accepted)"
    using sq ex0_new m
    by (auto simp: NewSQLiteStore_def backfillLegacyDeliveryState_def Let_def pruneDB_def exec_all_fine prune_counters
        recover_attempting_def update_deliveries_def split: sum.splits)
  with sq key id cn show ?thesis by (auto simp: get_or_def)
qed

section \<open>Push retries\<close>

lemma backoff_loop_exact:
  assumes "0 < b" and "b \<le> 30 * Second"
  shows "backoff_loop n b = min (30 * Second) (b * 2 ^ n)"
  using assms
proof (induction n arbitrary: b)
  case (Suc n)
  have w: "wrap64 (b * 2) = b * 2" using Suc.prems by (intro wrap64_id) simp_all
  show ?case
  proof (cases "b * 2 \<ge> 30 * Second")
    case True
    have "1 \<le> (2 :: int) ^ n" by simp
    then have "b * 2 * 1 \<le> b * 2 * 2 ^ n" using Suc.prems(1) by (intro mult_left_mono) simp_all
    then have "b * 2 \<le> b * 2 ^ Suc n" by (simp only: mult.assoc mult_1_right power_Suc)
    with True have "min (30 * Second) (b * 2 ^ Suc n) = 30 * Second" by (intro min_absorb1) (rule order_trans)
    with True show ?thesis by (simp add: w Let_def)
  next
    case False
    with Suc.IH [of "b * 2"] Suc.prems(1) show ?thesis by (simp add: w Let_def mult.assoc)
  qed
qed simp

text \<open>
  The pause before a failed callback is tried again is the base pause (half a second when none is
  configured) doubled for every attempt after the first, and never more than thirty seconds; doubling does
  not overflow.
\<close>

theorem push_backoff_exact:
  assumes "cfg_PushBaseBackoff cfg \<le> 30 * Second"
  shows "pushCycleBackoff cfg attempts =
    min (30 * Second)
      ((if cfg_PushBaseBackoff cfg \<le> 0 then 500 * Millisecond else cfg_PushBaseBackoff cfg) * 2 ^ nat (attempts - 1))"
  unfolding pushCycleBackoff_def Let_def using assms by (intro backoff_loop_exact) auto

theorem push_backoff_exact_witness: "pushCycleBackoff (normalize_config ex_config) 4 = 4 * Second"
proof -
  have "cfg_PushBaseBackoff (normalize_config ex_config) = 500 * Millisecond"
    by (simp add: normalize_config_def or_default_def ex_config_def)
  with push_backoff_exact [of "normalize_config ex_config" 4] show ?thesis by simp
qed

text \<open>The claims.\<close>

lemma claim_one_status:
  assumes "distinct (map dl_message_id (t_deliveries db))" and "claim_one io now c db = (claimed, db')"
  shows "map dl_message_id (t_deliveries db') = map dl_message_id (t_deliveries db)"
    and "claimed \<Longrightarrow> \<exists>d \<in> set (t_deliveries db). dl_message_id d = fst c \<and> dl_status d = DeliveryPending"
    and "claimed \<Longrightarrow> d \<in> set (t_deliveries db') \<Longrightarrow> dl_message_id d = fst c \<Longrightarrow> dl_status d = DeliveryAttempting"
    and "d \<in> set (t_deliveries db') \<Longrightarrow> dl_status d = DeliveryPending \<Longrightarrow> d \<in> set (t_deliveries db)"
proof -
  let ?P = "\<lambda>d. dl_message_id d = fst c \<and> dl_status d = DeliveryPending"
  let ?ds = "map (\<lambda>d. if ?P d then d\<lparr>dl_status := DeliveryAttempting\<rparr> else d) (t_deliveries db)"
  have off: "t_deliveries (offer_message now k db1) = t_deliveries db1" for k db1
    by (simp add: offer_message_def split: option.split)
  have ds: "t_deliveries db' = (if ci_claim io (fst c) then t_deliveries db else ?ds)"
    and cl: "claimed \<longleftrightarrow> \<not> ci_claim io (fst c) \<and> length (filter ?P (t_deliveries db)) = 1"
    using assms(2) by (auto simp: claim_one_def Let_def update_deliveries_def off split: if_splits)
  show "map dl_message_id (t_deliveries db') = map dl_message_id (t_deliveries db)" by (auto simp: ds)
  show "\<exists>d \<in> set (t_deliveries db). ?P d" if claimed
    using that by (auto simp: cl length_Suc_conv filter_eq_Cons_iff)
  then show "dl_status d = DeliveryAttempting"
    if claimed "d \<in> set (t_deliveries db')" "dl_message_id d = fst c"
    using that assms(1) by (auto simp: ds cl distinct_map inj_on_def split: if_splits)
  show "d \<in> set (t_deliveries db)" if "d \<in> set (t_deliveries db')" "dl_status d = DeliveryPending"
    using that by (auto simp: ds split: if_splits)
qed

lemma claim_loop_status:
  assumes "distinct (map dl_message_id (t_deliveries db))" and "claim_loop io now cs db = (out, db')"
  shows "distinct (map fst out) \<and> set out \<subseteq> set cs \<and>
    (\<forall>d \<in> set (t_deliveries db'). dl_status d = DeliveryPending \<longrightarrow> d \<in> set (t_deliveries db) \<and> dl_message_id d \<notin> fst ` set out) \<and>
    (\<forall>c \<in> set out. \<exists>d \<in> set (t_deliveries db). dl_message_id d = fst c \<and> dl_status d = DeliveryPending)"
  using assms
proof (induction cs arbitrary: db db' out)
  case (Cons c cs)
  obtain claimed db1 where one: "claim_one io now c db = (claimed, db1)" by (cases "claim_one io now c db")
  obtain out1 db2 where loop: "claim_loop io now cs db1 = (out1, db2)" by (cases "claim_loop io now cs db1")
  have out: "out = (if claimed then c # out1 else out1)" "db' = db2" using Cons.prems(2) by (simp_all add: one loop)
  note st = claim_one_status [OF Cons.prems(1) one]
  have "distinct (map dl_message_id (t_deliveries db1))" using Cons.prems(1) st(1) by simp
  note ih = Cons.IH [OF this loop]
  have fresh: "fst c \<notin> fst ` set out1" if claimed
  proof
    assume "fst c \<in> fst ` set out1"
    then obtain d where d: "d \<in> set (t_deliveries db1)" "dl_message_id d = fst c" "dl_status d = DeliveryPending"
      using ih by fastforce
    with st(3) [OF that d(1,2)] show False by simp
  qed
  have gone: "dl_message_id d \<noteq> fst c" if claimed "d \<in> set (t_deliveries db1)" "dl_status d = DeliveryPending" for d
    using st(3) [OF that(1,2)] that(3) by auto
  show ?case
    unfolding out using ih st(2,4) fresh gone by (auto; fastforce)
qed simp

lemma claim_candidates_due:
  "c \<in> set (claim_candidates now db) \<Longrightarrow>
     \<exists>d \<in> set (t_deliveries db). dl_message_id d = fst c \<and> text_less now (dl_expires_at d)"
  by (auto simp: claim_candidates_def claimable_def dest!: in_set_takeD)

lemma expire_pending:
  "d \<in> set (t_deliveries (expire_deliveries now db)) \<Longrightarrow> dl_status d = DeliveryPending \<Longrightarrow> d \<in> set (t_deliveries db)"
  "map dl_message_id (t_deliveries (expire_deliveries now db)) = map dl_message_id (t_deliveries db)"
  by (auto simp: expire_deliveries_def update_deliveries_def split: if_splits)

lemma claim_pass:
  assumes "db_inv (sq_db q)" and "claimDuePushes io now q = (out, q1)"
  shows "distinct (map fst out)"
    and "c \<in> set out \<Longrightarrow> \<exists>d \<in> set (t_deliveries (sq_db q)). dl_message_id d = fst c \<and> dl_status d = DeliveryPending"
    and "d \<in> set (t_deliveries (sq_db q1)) \<Longrightarrow> dl_status d = DeliveryPending \<Longrightarrow> dl_message_id d \<notin> fst ` set out"
proof -
  have "distinct (map fst out) \<and>
      (\<forall>c \<in> set out. \<exists>d \<in> set (t_deliveries (sq_db q)). dl_message_id d = fst c \<and> dl_status d = DeliveryPending) \<and>
      (\<forall>d \<in> set (t_deliveries (sq_db q1)). dl_status d = DeliveryPending \<longrightarrow> dl_message_id d \<notin> fst ` set out)"
  proof (cases "ci_query io")
    case False
    define db where "db = (if ci_expire io then sq_db q else expire_deliveries now (sq_db q))"
    obtain db2 where l: "claim_loop io now (claim_candidates now db) db = (out, db2)" "sq_db q1 = db2"
      using assms(2) False unfolding db_def by (auto simp: claimDuePushes_def Let_def split: prod.splits)
    have dist: "distinct (map dl_message_id (t_deliveries db))"
      using assms(1) expire_pending(2) by (simp add: db_def db_inv_def deliveries_ok_def)
    have "d \<in> set (t_deliveries (sq_db q))" if "d \<in> set (t_deliveries db)" "dl_status d = DeliveryPending" for d
      using that expire_pending(1) by (auto simp: db_def split: if_splits)
    with claim_loop_status [OF dist l(1)] l(2) show ?thesis by blast
  qed (use assms(2) in \<open>auto simp: claimDuePushes_def\<close>)
  then show "distinct (map fst out)"
    "c \<in> set out \<Longrightarrow> \<exists>d \<in> set (t_deliveries (sq_db q)). dl_message_id d = fst c \<and> dl_status d = DeliveryPending"
    "d \<in> set (t_deliveries (sq_db q1)) \<Longrightarrow> dl_status d = DeliveryPending \<Longrightarrow> dl_message_id d \<notin> fst ` set out"
    by blast+
qed

text \<open>
  A callback that is due is claimed by one pass of the delivery loop only. A claim names each message
  once, claims only deliveries that were pending and, when the statements succeed, not past their deadline,
  and afterwards no pending delivery belongs to a claimed message: a later pass, whenever it runs, claims
  none of them again unless a failure is recorded or the process restarts in between.
\<close>

theorem push_claims_exclusive:
  assumes "db_inv (sq_db q)" and "claimDuePushes io now q = (out, q1)"
  shows "distinct (map fst out) \<and>
    fst ` set out \<subseteq> dl_message_id ` {d \<in> set (t_deliveries (sq_db q)). dl_status d = DeliveryPending} \<and>
    fst ` set out \<inter> dl_message_id ` {d \<in> set (t_deliveries (sq_db q1)). dl_status d = DeliveryPending} = {} \<and>
    fst ` set out \<inter> fst ` set (fst (claimDuePushes io' now' q1)) = {}"
proof -
  note first = claim_pass [OF assms]
  have inv: "db_inv (sq_db q1)" using follows_claimDuePushes [of now q io] assms by (simp add: follows_def)
  note second = claim_pass(2) [OF inv surjective_pairing [of "claimDuePushes io' now' q1"]]
  have "fst ` set out \<subseteq> dl_message_id ` {d \<in> set (t_deliveries (sq_db q)). dl_status d = DeliveryPending}"
    using first(2) by (intro image_subsetI) (metis (mono_tags, lifting) imageI mem_Collect_eq)
  moreover have "fst ` set out \<inter> dl_message_id ` {d \<in> set (t_deliveries (sq_db q1)). dl_status d = DeliveryPending} = {}"
  proof (rule equals0I)
    fix k assume k: "k \<in> fst ` set out \<inter> dl_message_id ` {d \<in> set (t_deliveries (sq_db q1)). dl_status d = DeliveryPending}"
    from k obtain d where d: "k = dl_message_id d" "d \<in> set (t_deliveries (sq_db q1))" "dl_status d = DeliveryPending"
      by blast
    have "dl_message_id d \<notin> fst ` set out" using d(2,3) by (rule first(3))
    with k d(1) show False by simp
  qed
  moreover have again: "fst c \<notin> fst ` set out" if c: "c \<in> set (fst (claimDuePushes io' now' q1))" for c
  proof -
    obtain d where d: "d \<in> set (t_deliveries (sq_db q1))" "dl_message_id d = fst c" "dl_status d = DeliveryPending"
      using second [OF c] by blast
    from first(3) [OF d(1,3)] show ?thesis by (simp add: d(2))
  qed
  have "fst ` set out \<inter> fst ` set (fst (claimDuePushes io' now' q1)) = {}"
  proof (rule equals0I)
    fix k assume k: "k \<in> fst ` set out \<inter> fst ` set (fst (claimDuePushes io' now' q1))"
    then obtain c where "c \<in> set (fst (claimDuePushes io' now' q1))" "k = fst c" by (metis IntD2 imageE)
    with again k show False by simp
  qed
  ultimately show ?thesis using first(1) by simp
qed

definition ex_push_sqlite :: sqlite where
  "ex_push_sqlite = ex_accepted\<lparr>sq_db := saveAgentTo
     ((ex_agent ''ucla.b'')\<lparr>a_Mode := AgentModePush, a_CallbackURL := ''http://b''\<rparr>) (sq_db ex_accepted)\<rparr>"

theorem push_claims_exclusive_witness:
  "\<exists>q1. claimDuePushes \<lparr>ci_expire = False, ci_query = False, ci_claim = \<lambda>_. False, ci_mark = \<lambda>_. False\<rparr> ex_time ex_push_sqlite =
       ([(''m-000001'', ''http://b'')], q1) \<and>
     ''m-000001'' \<notin> fst ` set (fst (claimDuePushes
        \<lparr>ci_expire = False, ci_query = False, ci_claim = \<lambda>_. False, ci_mark = \<lambda>_. False\<rparr> (ex_time + Second) q1))"
proof -
  let ?io = "\<lparr>ci_expire = False, ci_query = False, ci_claim = \<lambda>_. False, ci_mark = \<lambda>_. False\<rparr>"
  have times: "text_less ex_time (ex_time + 600 * Second)" "\<not> text_le (ex_time + 600 * Second) ex_time"
    "text_less ex_time (ex_time + Minute)" "text_le ex_time ex_time"
    unfolding text_less_def text_le_def ex_time_def by code_simp+
  have inv: "db_inv (sq_db ex_push_sqlite)"
    using follows_saveAgentTo ex_accepted_inv by (auto simp: ex_push_sqlite_def follows_def)
  have ds: "t_deliveries (sq_db ex_push_sqlite) = [ex_delivery]"
    by (simp add: ex_push_sqlite_def saveAgentTo_def ex_accepted_deliveries)
  obtain secret where ag: "map_of (t_agents (sq_db ex_push_sqlite)) ''ucla.b'' = Some \<lparr>ar_agent = (ex_agent ''ucla.b'')
      \<lparr>a_Mode := AgentModePush, a_CallbackURL := ''http://b''\<rparr>, ar_secret = secret\<rparr>"
    by (simp add: ex_push_sqlite_def saveAgentTo_def ex_agent_def)
  have ms: "has_key (t_messages (sq_db ex_push_sqlite)) ''m-000001''"
    using persistAcceptance_rows(1) [OF ex_accepted_eval, of "''m-000001''"]
    by (simp add: ex_push_sqlite_def saveAgentTo_def has_key_def ex_acceptance_def ex_message_def)
  have exp: "expire_deliveries ex_time (sq_db ex_push_sqlite) = sq_db ex_push_sqlite"
  proof -
    have "\<not> text_le (dl_expires_at ex_delivery) ex_time" using times(2) by (simp add: ex_delivery_def new_delivery_def)
    then show ?thesis by (simp add: expire_deliveries_def update_deliveries_def ds)
  qed
  have "claimable ex_time (sq_db ex_push_sqlite) ex_delivery"
  proof -
    have "text_less ex_time (dl_expires_at ex_delivery)" "text_le (dl_next_attempt_at ex_delivery) ex_time"
      "text_less ex_time (a_ExpiresAt (ex_agent ''ucla.b''))"
      using times by (simp_all add: ex_delivery_def new_delivery_def ex_agent_def)
    moreover have "dl_message_id ex_delivery = ''m-000001''" "dl_target_agent_id ex_delivery = ''ucla.b''"
      "dl_status ex_delivery = DeliveryPending" "a_Status (ex_agent ''ucla.b'') = AgentStatusActive"
      by (simp_all add: ex_delivery_def new_delivery_def ex_agent_def)
    ultimately show ?thesis using ms ag unfolding claimable_def by simp
  qed
  then have cands: "claim_candidates ex_time (sq_db ex_push_sqlite) = [(''m-000001'', ''http://b'')]"
    using ag by (simp add: claim_candidates_def ds callback_of_def ex_delivery_def new_delivery_def)
  obtain q1 where c: "claimDuePushes ?io ex_time ex_push_sqlite = ([(''m-000001'', ''http://b'')], q1)"
    by (simp add: claimDuePushes_def exp cands claim_one_def Let_def ds) (simp add: ex_delivery_def new_delivery_def)
  from push_claims_exclusive [OF inv c, of ?io "ex_time + Second"] c show ?thesis by auto
qed

section \<open>What the database keeps too long\<close>

definition without_receipt :: "string \<times> string \<times> string \<Rightarrow> sqldb \<Rightarrow> sqldb" where
  "without_receipt k db = db\<lparr>t_idempotency := filter (\<lambda>r. receipt_key r \<noteq> k) (t_idempotency db)\<rparr>"

text \<open>Up to the receipt itself, accepting a message neither reads nor writes the receipts.\<close>

lemma accept_ignores_receipts:
  "accept_delivery a (accept_rows a (db\<lparr>t_idempotency := rs\<rparr>)) =
     map_sum id (\<lambda>db1. db1\<lparr>t_idempotency := rs\<rparr>) (accept_delivery a (accept_rows a db))"
  by (simp add: accept_delivery_def accept_rows_def append_delivery_def ensure_cursor_def cursor_of_def insert_delivery_def
      set_next_seq_def saveCountersTo_def saveConversationMessageTo_def saveMessageTo_def saveConversationTo_def Let_def
      split: option.splits)

text \<open>
  C40. A receipt that is still in the database blocks its request. The in-memory store forgets a request when
  its idempotency window has passed, but the row is removed only by the next retention run, and the
  transaction inserts without a conflict clause. A send that would be accepted if the rows of its sender,
  recipient and request identifier were gone fails while one of them is there: the sender gets the
  database's error about the unique key of the receipts, nothing is accepted, the database is as it was and the store changes only
  by the sweep.
\<close>

theorem stale_receipt_blocks_send:
  fixes input :: send_message_input
  defines "k \<equiv> (TrimSpace (sm_From input), TrimSpace (sm_To input), TrimSpace (sm_RequestID input))"
  assumes "k \<in> receipt_key ` set (t_idempotency (sq_db q))"
    and "SQLiteStore_SendMessage mo input (s, q\<lparr>sq_db := without_receipt k (sq_db q)\<rparr>) = (Inr (m, False), s', q')"
  shows "SQLiteStore_SendMessage mo input (s, q) =
    (Inl (OtherError ''UNIQUE constraint failed: idempotency''), sweepLocked (qm_orders mo) (qm_now mo) s, q)"
proof -
  let ?s1 = "sweepLocked (qm_orders mo) (qm_now mo) s" and ?w = "cfg_IdempotencyWindow (s_cfg s)"
    and ?f = "TrimSpace (sm_From input)" and ?t = "TrimSpace (sm_To input)" and ?r = "TrimSpace (sm_RequestID input)"
  obtain target acc acc' where ok: "send_check input s = None" "send_authorize ?f ?t ?s1 = Inr target"
    "dedup_hit (qm_now mo) ?f ?t ?r ?s1 = None" "send_plan (qm_now mo) input target ?s1 = Inr acc"
    "run_barrier (Some (persistAcceptance (qm_io mo) ?w)) acc (q\<lparr>sq_db := without_receipt k (sq_db q)\<rparr>) = (Inr acc', q')"
    using assms(3) unfolding SQLiteStore_SendMessage_def fst_conv snd_conv by (rule sendMessage_accepted)
  obtain nextConv conv where
    "send_conversation (qm_now mo) ?f ?t (sm_ConversationID input) ?s1 = Inr (nextConv, conv)"
    and msg: "sa_message acc = route_message (qm_now mo) target
      (new_message (qm_now mo) input (c_ConversationID conv) (s_nextMessageID ?s1 + 1) ?s1) ?s1"
    and key: "sa_idempotencyKey acc = dedupeKey ?f ?t ?r"
    using ok(4) by (rule send_plan_fields)
  have m: "m_From (sa_message acc) = ?f" "m_To (sa_message acc) = ?t" "m_RequestID (sa_message acc) = ?r"
    by (simp_all add: msg)
  obtain db1 where db1: "accept_delivery acc (accept_rows acc (sq_db q)) = Inr db1"
    using ok(5) by (cases "accept_delivery acc (accept_rows acc (sq_db q))")
      (auto simp: run_barrier_def persistAcceptance_def without_receipt_def accept_ignores_receipts)
  have "t_idempotency db1 = t_idempotency (sq_db q)"
    using db1 append_delivery_rows(7) by (auto simp: accept_delivery_def Let_def split: if_splits)
  then have "accept_receipt ?w acc db1 = Inl ''UNIQUE constraint failed: idempotency''"
    using assms(2) by (auto simp: accept_receipt_def key dedupeKey_def insert_receipt_def list_ex_iff same_receipt_def
        receipt_key_def k_def m)
  then have "run_barrier (Some (persistAcceptance (qm_io mo) ?w)) acc q =
      (Inl (OtherError ''UNIQUE constraint failed: idempotency''), q)"
    by (simp add: run_barrier_def persistAcceptance_def db1)
  then show ?thesis
    by (simp add: SQLiteStore_SendMessage_def sendMessage_def ok(1-4))
qed

definition ex_stale :: sqlite where
  "ex_stale = ex_sqlite\<lparr>sq_db := (sq_db ex_sqlite)\<lparr>t_idempotency :=
     [\<lparr>id_from_agent = ''ucla.a'', id_to_agent = ''ucla.b'', id_request_id = ''r1'', id_message_id = ''m-000001'',
       id_accepted_at = ex_time - 25 * Hour, id_expires_at = ex_time - Hour\<rparr>]\<rparr>\<rparr>"

definition ex_sqlite_moment :: sqlite_moment where
  "ex_sqlite_moment = \<lparr>qm_sha256 = id, qm_orders = ex_orders, qm_now = ex_time, qm_turns = [], qm_meanwhile = id,
     qm_polls = [], qm_io = None, qm_receipt_now = ex_time\<rparr>"

theorem stale_receipt_blocks_send_witness:
  "SQLiteStore_SendMessage ex_sqlite_moment ex_send (ex2, ex_stale) =
     (Inl (OtherError ''UNIQUE constraint failed: idempotency''), sweepLocked ex_orders ex_time ex2, ex_stale)"
proof -
  have trims: "TrimSpace (sm_From ex_send) = ''ucla.a''" "TrimSpace (sm_To ex_send) = ''ucla.b''"
    "TrimSpace (sm_RequestID ex_send) = ''r1''"
    by (simp_all add: ex_send_def ex_names)
  have gone: "ex_stale\<lparr>sq_db := without_receipt (''ucla.a'', ''ucla.b'', ''r1'') (sq_db ex_stale)\<rparr> = ex_sqlite"
    by (simp add: ex_stale_def without_receipt_def receipt_key_def ex_sqlite_def empty_db_def)
  have cfg: "s_cfg ex2 = normalize_config ex_config" using ex2_fields(1) by (simp add: same_policy_def ex_policy_def)
  obtain s' q' where sent: "SQLiteStore_SendMessage ex_sqlite_moment ex_send (ex2, ex_sqlite) = (Inr (ex_message, False), s', q')"
    using ex_accepted_eval
    by (simp add: SQLiteStore_SendMessage_def ex_sqlite_moment_def cfg ex_config_fields ex_send_eval
        run_barrier_def Let_def) (simp add: ex_acceptance_def)
  have "SQLiteStore_SendMessage ex_sqlite_moment ex_send (ex2, ex_stale) =
      (Inl (OtherError ''UNIQUE constraint failed: idempotency''),
       sweepLocked (qm_orders ex_sqlite_moment) (qm_now ex_sqlite_moment) ex2, ex_stale)"
    by (rule stale_receipt_blocks_send) (simp add: ex_stale_def receipt_key_def trims, simp only: trims gone sent)
  then show ?thesis by (simp add: ex_sqlite_moment_def)
qed

end
