(* ===== verification/Sqlite_Backend.thy ===== *)
theory Sqlite_Backend
  imports Durable_Restart Http_Safety
begin

text \<open>
  The HTTP server on the SQLite store, the combination the program \<^verbatim>\<open>pinakes\<close> starts by default: the
  SQLite store satisfies the contract \<open>bus_backend\<close> of the HTTP layer, with the invariants of the
  in-memory half and of the database together.
\<close>

section \<open>Offering keeps the invariant of the in-memory half\<close>

text \<open>
  An offer may touch a message that is already finished (it sets the time of delivery), so it is not a step
  of \<open>message_step\<close>; the invariant of the store holds all the same.
\<close>

lemma update_message_inv:
  assumes "bus_inv s" and "map_of (s_messages s) k = Some m" and "message_ok m'"
    and "m_MessageID m' = m_MessageID m" "m_ConversationID m' = m_ConversationID m" "m_From m' = m_From m"
      "m_To m' = m_To m" "m_RequestID m' = m_RequestID m" "m_CreatedAt m' = m_CreatedAt m"
  shows "bus_inv (s\<lparr>s_messages := AList.update k m' (s_messages s)\<rparr>)"
proof -
  let ?s = "s\<lparr>s_messages := AList.update k m' (s_messages s)\<rparr>"
  have "messages_inv ?s" "links_inv ?s" "idempotency_inv ?s"
    using assms by (auto simp: bus_inv_def messages_inv_def links_inv_def idempotency_inv_def)
  then show ?thesis using assms(1) unfolding bus_inv_def by (auto elim: inv_frames)
qed

lemma offered_fields [simp]:
  "m_MessageID (offered t m) = m_MessageID m" "m_ConversationID (offered t m) = m_ConversationID m"
  "m_From (offered t m) = m_From m" "m_To (offered t m) = m_To m" "m_RequestID (offered t m) = m_RequestID m"
  "m_CreatedAt (offered t m) = m_CreatedAt m"
  by (simp_all add: offered_def Let_def)

lemma offered_ok: "message_ok m \<Longrightarrow> message_ok (offered t m)"
  by (auto simp: message_ok_def offered_def Let_def)

lemma project_offer_inv: "bus_inv s \<Longrightarrow> bus_inv (project_offer mid t s)"
  by (auto simp: project_offer_def bus_inv_def [of s] messages_inv_def split: option.split
      intro!: update_message_inv [of s] offered_ok)

lemma project_offers_inv: "bus_inv s \<Longrightarrow> bus_inv (project_offers pending s)"
  by (induction pending arbitrary: s) (auto simp: project_offers_def project_offer_inv)

section \<open>The long poll\<close>

definition sqlite_inv :: "sqlite_store \<Rightarrow> bool" where
  "sqlite_inv sq \<longleftrightarrow> bus_inv (fst sq) \<and> db_inv (sq_db (snd sq))"

text \<open>What the other goroutines do between the steps of an operation keeps the invariant.\<close>

definition harmless :: "(sqlite_store \<Rightarrow> sqlite_store) \<Rightarrow> bool" where
  "harmless f \<longleftrightarrow> (\<forall>sq. sqlite_inv sq \<longrightarrow> sqlite_inv (f sq))"

definition durable_turn_ok :: "durable_turn \<Rightarrow> bool" where
  "durable_turn_ok t \<longleftrightarrow> harmless (dt_before_read t) \<and> harmless (dt_before_project t) \<and> harmless (dt_others t)"

definition sqlite_moment_ok :: "sqlite_moment \<Rightarrow> bool" where
  "sqlite_moment_ok mo \<longleftrightarrow>
     (\<forall>t \<in> set (qm_turns mo). turn_ok t) \<and> (\<forall>t \<in> set (qm_polls mo). durable_turn_ok t) \<and>
     (\<forall>q. db_inv (sq_db q) \<longrightarrow> db_inv (sq_db (qm_meanwhile mo q)))"

lemma follows_inv: "follows ev db db' \<Longrightarrow> db_inv db \<Longrightarrow> db_inv db'"
  by (simp add: follows_def)

lemma harmless_inv: "harmless f \<Longrightarrow> sqlite_inv sq \<Longrightarrow> sqlite_inv (f sq)"
  unfolding harmless_def by blast

lemma readDurableInbox_inv:
  assumes "sqlite_inv (s, q)" and "harmless between"
  shows "sqlite_inv (snd (readDurableInbox io clk between agentID c limit s q))"
proof -
  obtain r q1 where r: "read_transaction io (s_cfg s) clk agentID c limit q = (r, q1)"
    by (cases "read_transaction io (s_cfg s) clk agentID c limit q")
  have "db_inv (sq_db q1)"
    using follows_inv [OF follows_read_transaction [of agentID c q io "s_cfg s" clk limit]] assms(1)
    by (simp add: sqlite_inv_def r)
  then have q1: "sqlite_inv (s, q1)" using assms(1) by (simp add: sqlite_inv_def)
  obtain s2 q2 where b: "between (s, q1) = (s2, q2)" by (cases "between (s, q1)")
  have "sqlite_inv (s2, q2)" using harmless_inv [OF assms(2) q1] by (simp add: b)
  then show ?thesis
    using q1 by (auto simp: readDurableInbox_def r b sqlite_inv_def project_offers_inv split: sum.split prod.split)
qed

lemma poll_gate_inv: "bus_inv s \<Longrightarrow> bus_inv (snd (poll_gate R now agentID s))"
proof -
  assume "bus_inv s"
  moreover have "keeps s (snd (poll_gate R now agentID s))"
    using keeps_trans [OF keeps_sweepLocked [of s R now] keeps_inboxNotifyChanLocked [of _ agentID]] keeps_sweepLocked [of s R now]
    by (auto simp: poll_gate_def Let_def split: option.split prod.split)
  ultimately show ?thesis by (rule keeps_inv [rotated])
qed

lemma durable_poll_turn_inv:
  assumes "sqlite_inv (s, q)" and "durable_turn_ok t"
  shows "sqlite_inv (snd (durable_poll_turn t input deadline wait s q))"
proof -
  let ?agent = "TrimSpace (pi_AgentID input)"
  obtain r s1 where g: "poll_gate (dt_orders t) (dt_now t) ?agent s = (r, s1)"
    by (cases "poll_gate (dt_orders t) (dt_now t) ?agent s")
  have s1: "sqlite_inv (s1, q)"
    using assms(1) poll_gate_inv [of s "dt_orders t" "dt_now t" ?agent] by (simp add: sqlite_inv_def g)
  obtain s2 q2 where b: "dt_before_read t (s1, q) = (s2, q2)" by (cases "dt_before_read t (s1, q)")
  have "sqlite_inv (s2, q2)" using assms(2) harmless_inv [OF _ s1] by (metis b durable_turn_ok_def)
  then have "sqlite_inv (snd (readDurableInbox (dt_io t) (dt_clock t) (dt_before_project t) ?agent
      (pi_Cursor input) (pi_Limit input) s2 q2))"
    using assms(2) by (intro readDurableInbox_inv) (simp_all add: durable_turn_ok_def)
  then show ?thesis using s1
    by (auto simp: durable_poll_turn_def Let_def g b split: sum.split prod.split)
qed

lemma durable_poll_loop_inv:
  assumes "sqlite_inv (s, q)" and "\<forall>t \<in> set ts. durable_turn_ok t"
  shows "sqlite_inv (snd (durable_poll_loop input deadline wait ts s q))"
  using assms
proof (induction ts arbitrary: s q)
  case (Cons t ts)
  obtain r s1 q1 where r: "durable_poll_turn t input deadline wait s q = (r, s1, q1)"
    by (cases "durable_poll_turn t input deadline wait s q")
  have s1: "sqlite_inv (s1, q1)" using durable_poll_turn_inv [of s q t input deadline wait] Cons.prems by (simp add: r)
  obtain s2 q2 where o: "dt_others t (s1, q1) = (s2, q2)" by (cases "dt_others t (s1, q1)")
  have "harmless (dt_others t)" using Cons.prems(2) by (simp add: durable_turn_ok_def)
  from harmless_inv [OF this s1] have s2: "sqlite_inv (s2, q2)" by (simp add: o)
  show ?case using s1 s2 Cons.IH [OF s2] Cons.prems(2) by (cases r) (simp_all add: r o)
qed simp

section \<open>The contract\<close>

text \<open>A message counts as stored when it is in memory and in the database.\<close>

definition sqlite_lookup :: "sqlite_store \<Rightarrow> string \<Rightarrow> message option" where
  "sqlite_lookup sq mid = (if has_key (t_messages (sq_db (snd sq))) mid then map_of (s_messages (fst sq)) mid else None)"

lemma persistAcceptance_inv:
  assumes "run_barrier (Some (persistAcceptance io window)) acc q = (r, q')" and "db_inv (sq_db q)"
  shows "db_inv (sq_db q')"
proof -
  have "q' = snd (persistAcceptance io window acc q)"
    using assms(1) by (auto simp: run_barrier_def split: prod.splits sum.splits)
  then show ?thesis using follows_inv [OF follows_persistAcceptance assms(2)] by simp
qed

lemma persistAck_inv:
  assumes "run_message_barrier (Some (persistAck io now)) m q = (r, q')" and "db_inv (sq_db q)"
  shows "db_inv (sq_db q')"
proof -
  have "q' = snd (persistAck io now m q)" using assms(1) by (simp add: run_message_barrier_def)
  then show ?thesis using follows_inv [OF follows_persistAck assms(2)] by simp
qed

lemma barrier_operations_db:
  assumes "db_inv (sq_db q)"
  shows "db_inv (sq_db (snd (snd (sendMessage R now (Some (persistAcceptance io window)) send s q))))"
    "db_inv (sq_db (snd (snd (inject R now (Some (persistAcceptance io window)) injn s q))))"
    "db_inv (sq_db (snd (snd (ack R now (Some (persistAck io now')) ak s q))))"
    "db_inv (sq_db (snd (snd (postEvent R now (Some (persistAck io now')) ev s q))))"
  using assms persistAcceptance_inv [OF _ assms] persistAck_inv [OF _ assms]
  by (auto simp: sendMessage_def inject_def ack_def postEvent_def Let_def split: option.split sum.split prod.split)

lemma barrier_operations_inv:
  assumes "sqlite_inv sq"
  shows "sqlite_inv (snd (SQLiteStore_SendMessage mo send sq))" "sqlite_inv (snd (SQLiteStore_Inject mo injn sq))"
    "sqlite_inv (snd (SQLiteStore_Ack mo ak sq))" "sqlite_inv (snd (SQLiteStore_PostEvent mo ev sq))"
  using assms keeps_inv [OF keeps_sendMessage, of "fst sq"] keeps_inv [OF keeps_inject, of "fst sq"]
    keeps_inv [OF keeps_ack, of "fst sq"] keeps_inv [OF keeps_postEvent, of "fst sq"]
  by (simp_all add: sqlite_inv_def barrier_operations_db SQLiteStore_SendMessage_def SQLiteStore_Inject_def
      SQLiteStore_Ack_def SQLiteStore_PostEvent_def)

lemma register_inv: "sqlite_inv sq \<Longrightarrow> sqlite_inv (snd (SQLiteStore_RegisterAgent mo reg sq))"
  using keeps_inv [OF keeps_RegisterAgent, of "fst sq" "qm_sha256 mo" "qm_orders mo" "qm_now mo" reg]
    follows_inv [OF follows_saveAgentTo]
  by (auto simp: sqlite_inv_def SQLiteStore_RegisterAgent_def split: prod.split sum.split option.split)

lemma create_inv: "sqlite_inv sq \<Longrightarrow> sqlite_inv (snd (SQLiteStore_CreateConversation mo cre sq))"
  using keeps_inv [OF keeps_CreateConversation, of "fst sq" "qm_orders mo" "qm_now mo" cre]
    follows_inv [OF follows_saveCountersTo] follows_inv [OF follows_saveConversationTo]
  by (auto simp: sqlite_inv_def SQLiteStore_CreateConversation_def split: prod.split sum.split option.split)

lemma secret_inv: "sqlite_inv sq \<Longrightarrow> sqlite_inv (snd (SQLiteStore_SetAgentSecret io agent k sq))"
  using follows_inv [OF follows_set_secret [of Administered "snd sq" io agent k "fst sq"]]
  by (auto simp: sqlite_inv_def) (auto simp: SQLiteStore_SetAgentSecret_def Let_def split: option.split)

lemma on_store_inv:
  "sqlite_inv sq \<Longrightarrow> bus_inv (snd (op (fst sq))) \<Longrightarrow> sqlite_inv (snd (on_store op sq))"
  by (auto simp: sqlite_inv_def on_store_def split: prod.split)

lemma reads_inv:
  assumes "sqlite_inv sq"
  shows "sqlite_inv (snd (on_store (ListAgents R now cap) sq))"
    "sqlite_inv (snd (on_store (ListConversations R now flt) sq))"
    "sqlite_inv (snd (on_store (ListConversationMessages R now pg) sq))"
  using assms by (auto intro!: on_store_inv keeps_inv [OF keeps_reads(1)] keeps_inv [OF keeps_reads(2)]
      keeps_inv [OF keeps_reads(3)] simp: sqlite_inv_def [of sq])

lemma status_inv:
  assumes "sqlite_inv sq"
  shows "sqlite_inv (snd (SQLiteStore_Health mo sq))" "sqlite_inv (snd (SQLiteStore_Metrics mo sq))"
    "sqlite_inv (snd (SQLiteStore_SystemStatus mo sq))"
proof -
  have s: "bus_inv (fst sq)" using assms by (simp add: sqlite_inv_def)
  have "bus_inv (snd (snapshotCounts (qm_orders mo) (qm_now mo) (fst sq)))"
    by (rule keeps_inv [OF keeps_reads(4) s])
  then have "bus_inv (snd (Health (qm_orders mo) (qm_now mo) (fst sq)))"
    "bus_inv (snd (Metrics (qm_orders mo) (qm_now mo) (fst sq)))"
    "bus_inv (snd (SystemStatus (qm_orders mo) (qm_now mo) (fst sq)))"
    by (simp_all add: Health_def Metrics_def SystemStatus_def case_prod_unfold Let_def)
  then have "sqlite_inv (snd (on_store (Health (qm_orders mo) (qm_now mo)) sq))"
    "sqlite_inv (snd (on_store (Metrics (qm_orders mo) (qm_now mo)) sq))"
    "sqlite_inv (snd (on_store (SystemStatus (qm_orders mo) (qm_now mo)) sq))"
    by (simp_all add: on_store_inv assms)
  then show "sqlite_inv (snd (SQLiteStore_Health mo sq))" "sqlite_inv (snd (SQLiteStore_Metrics mo sq))"
    "sqlite_inv (snd (SQLiteStore_SystemStatus mo sq))"
    by (auto simp: SQLiteStore_Health_def SQLiteStore_Metrics_def SQLiteStore_SystemStatus_def Let_def split: prod.split)
qed

lemma waiting_inv:
  assumes "sqlite_inv sq" and "sqlite_moment_ok mo"
  shows "sqlite_inv (snd (SQLiteStore_PollInbox mo poll sq))"
    "sqlite_inv (snd (api_ObserveSince (sqlite_api mo) c flt w sq))"
proof -
  have "sqlite_inv (fst sq, snd sq)" using assms(1) by simp
  from durable_poll_loop_inv [OF this, of "qm_polls mo"] assms
  show "sqlite_inv (snd (SQLiteStore_PollInbox mo poll sq))"
    by (simp add: SQLiteStore_PollInbox_def pollDurableInbox_def sqlite_moment_ok_def Let_def split: option.split)
  have "bus_inv (snd (ObserveSince (qm_now mo) c flt w (qm_turns mo) (fst sq)))"
    using assms observe_loop_inv by (auto simp: ObserveSince_def sqlite_inv_def sqlite_moment_ok_def Let_def)
  then show "sqlite_inv (snd (api_ObserveSince (sqlite_api mo) c flt w sq))"
    using assms by (auto simp: sqlite_api_def sqlite_inv_def sqlite_moment_ok_def split: prod.split)
qed

lemma sqlite_sent_stored:
  assumes "SQLiteStore_SendMessage mo send (s, q) = (Inr (m, False), s', q')"
  shows "m_From m = TrimSpace (sm_From send) \<and> map_of (s_messages s') (m_MessageID m) = Some m \<and>
    has_key (t_messages (sq_db q')) (m_MessageID m)"
  using sqlite_send_accepted [OF assms] by (simp add: has_key_def)

interpretation sqlite: bus_backend "sqlite_api mo" "\<lambda>sq. sqlite_moment_ok mo \<and> sqlite_inv sq" sqlite_lookup for mo
proof (unfold_locales, goal_cases)
  case (1 reg st ag st')
  then have "\<exists>s. RegisterAgent (qm_sha256 mo) (qm_orders mo) (qm_now mo) reg (fst st) = (Inr ag, s)"
    by (auto simp: sqlite_api_def SQLiteStore_RegisterAgent_def split: prod.splits sum.splits option.splits)
  then show ?case using register_returns by blast
next
  case (2 st send m st')
  then show ?case
    using sqlite_sent_stored [of mo send "fst st" "snd st" m "fst st'" "snd st'"] by (simp add: sqlite_api_def sqlite_lookup_def)
next
  case (3 st c flt w evts lastID st')
  then have "ObserveSince (qm_now mo) c flt w (qm_turns mo) (fst st) = (Some (evts, lastID), fst st')"
    by (auto simp: sqlite_api_def split: prod.splits)
  with 3 show ?case
    using observe_loop_window [of "fst st" "qm_turns mo"]
    by (simp add: ObserveSince_def sqlite_moment_ok_def sqlite_inv_def Let_def)
next
  case (18 f st k v)
  then show ?case using secret_inv [of st] by (auto simp: sqlite_api_def)
qed (simp_all add: waiting_inv,
    simp_all add: sqlite_api_def register_inv create_inv barrier_operations_inv status_inv reads_inv waiting_inv)

lemma sqlite_backend:
  assumes "sqlite_moment_ok mo"
  shows "bus_backend (sqlite_api mo) sqlite_inv sqlite_lookup"
  using sqlite.bus_backend_axioms [of mo] assms by simp

section \<open>The whole server\<close>

text \<open>
  The steps of a server on SQLite: a request, with whatever the other goroutines do while it waits; a
  transaction of a background loop, of a push receipt or of the shutdown; a claimed delivery handed to the
  worker pool; and a step of the in-memory half alone, such as one of a push worker.
\<close>

inductive system_step :: "sqlite_store server \<Rightarrow> sqlite_store server \<Rightarrow> bool" where
  request: "sqlite_moment_ok mo \<Longrightarrow> (\<forall>mo' \<in> set mos. sqlite_moment_ok mo') \<Longrightarrow>
    system_step sv (snd (ServeHTTP (sqlite_api mo) env cf (map sqlite_api mos) r sv))"
| transaction: "db_step ev q q' \<Longrightarrow> sv_store sv = (s, q) \<Longrightarrow> system_step sv (sv\<lparr>sv_store := (s, q')\<rparr>)"
| claimed: "sv_store sv = (s, q) \<Longrightarrow>
    system_step sv (sv\<lparr>sv_store := enqueueClaimedPush io rio now claim s q\<rparr>)"
| memory_half: "bus_step (s, ()) (s', ()) \<Longrightarrow> sv_store sv = (s, q) \<Longrightarrow> system_step sv (sv\<lparr>sv_store := (s', q)\<rparr>)"

lemma keeps_enqueue: "keeps s (snd (enqueuePushJobLocked job s))"
  by (intro push_only) (auto simp: enqueuePushJobLocked_def bus_inv_def push_inv_def)

lemma enqueueClaimedPush_inv:
  assumes "sqlite_inv (s, q)"
  shows "sqlite_inv (enqueueClaimedPush io rio now claim s q)"
proof -
  have q: "db_inv (sq_db (recordPushFailure rio cfg now mid n failure q))" for cfg mid n failure
    using follows_inv [OF follows_recordPushFailure] assms by (simp add: sqlite_inv_def)
  have s: "bus_inv s'" if "enqueuePushJobLocked job (project_offer mid t s) = (f, s')" for job mid t f s'
    using assms keeps_inv [OF keeps_enqueue project_offer_inv, of s job mid t] that by (simp add: sqlite_inv_def)
  show ?thesis
    using assms q s by (auto simp: enqueueClaimedPush_def sqlite_inv_def Let_def split: option.split prod.split)
qed

lemma system_step_inv:
  assumes "system_step sv sv'" and "sqlite_inv (sv_store sv)"
  shows "sqlite_inv (sv_store sv')"
  using assms
proof (induction rule: system_step.induct)
  case (request mo mos sv env cf r)
  have "\<forall>a \<in> set (map sqlite_api mos). bus_backend a sqlite_inv sqlite_lookup"
    using request.hyps(2) by (auto intro: sqlite_backend)
  then show ?case by (intro bus_backend.ServeHTTP_keeps [OF sqlite_backend [OF request.hyps(1)]] request.prems)
next
  case (transaction ev q q' sv s)
  then show ?case using follows_inv [OF db_step_follows] by (auto simp: sqlite_inv_def)
next
  case (claimed sv s q io rio now claim)
  then show ?case by (simp add: enqueueClaimedPush_inv)
next
  case (memory_half s s' sv q)
  then show ?case using keeps_bus_step keeps_inv by (fastforce simp: sqlite_inv_def)
qed

text \<open>A new database stays empty during the start.\<close>

lemma exec_all_fixed: "(\<forall>f \<in> set fs. f db = db) \<Longrightarrow> snd (exec_all ios fs db) = db"
  by (induction ios fs db rule: exec_all.induct) auto

lemma empty_db_steps:
  fixes now :: time
  defines "db \<equiv> empty_db\<lparr>t_schema_migrations := [(durableDeliveryBackfill, now)]\<rparr>"
  shows "backfillLegacyDeliveryState None c now empty_db = (None, db)" "recover_attempting db = db"
    "snd (exec_all ios (prune_statements c now) db) = db" "loadAll None now db s = Inr s" "db_inv db"
proof -
  show "backfillLegacyDeliveryState None c now empty_db = (None, db)"
    by (simp add: backfillLegacyDeliveryState_def empty_db_def db_def by_creation_def has_key_def Let_def)
  show "recover_attempting db = db"
    by (simp add: recover_attempting_def update_deliveries_def empty_db_def db_def)
  have "f db = db" if "f \<in> set (prune_statements c now)" for f
    using that by (auto simp: prune_statements_def expire_deliveries_def update_deliveries_def drop_receipts_def
        drop_old_messages_def drop_finished_messages_def drop_conversations_def drop_links_def delete_messages_def
        empty_db_def db_def Let_def)
  then show "snd (exec_all ios (prune_statements c now) db) = db" by (simp add: exec_all_fixed)
  show "loadAll None now db s = Inr s"
    by (simp add: loadAll_def loadCounters_def loadAgents_def loadConversations_def loadMessages_def
        loadConversationMessages_def loadIdempotency_def empty_db_def db_def get_or_def)
  show "db_inv db" using db_inv_empty by (simp add: db_def db_inv_def deliveries_ok_def cursors_ok_def rows_ok_def)
qed

lemma new_database_start:
  assumes "NewSQLiteStore rk allowlist epoch io now cfg empty_db = (Inr s, q)"
  shows "NewStore rk allowlist epoch cfg = Inr s" "db_inv (sq_db q)"
proof -
  let ?db = "empty_db\<lparr>t_schema_migrations := [(durableDeliveryBackfill, now)]\<rparr>"
  let ?q = "\<lparr>sq_db = ?db, sq_deliveryPersistErrors = []\<rparr>"
  obtain inner where inner: "NewStore rk allowlist epoch cfg = Inr inner"
    using assms by (auto simp: NewSQLiteStore_def Let_def split: sum.splits)
  have "\<exists>err. pruneDB (st_prune io) (s_cfg inner) now ?q = (err, ?q)"
    using empty_db_steps(3) [of "st_prune io" "s_cfg inner" now] by (auto simp: pruneDB_def split: prod.split)
  then obtain err where pr: "pruneDB (st_prune io) (s_cfg inner) now ?q = (err, ?q)" by blast
  have io: "st_open io = None" "st_backfill io = None" "st_recover io = None"
    using assms by (auto simp: NewSQLiteStore_def Let_def inner backfillLegacyDeliveryState_def split: option.splits prod.splits)
  have "st_load io = None \<and> err = None"
    using assms by (auto simp: NewSQLiteStore_def Let_def inner io empty_db_steps pr loadAll_def split: option.splits)
  then have "s = inner \<and> sq_db q = ?db"
    using assms by (auto simp: NewSQLiteStore_def Let_def inner io empty_db_steps pr)
  then show "NewStore rk allowlist epoch cfg = Inr s" "db_inv (sq_db q)" using inner empty_db_steps(5) by simp_all
qed

lemma new_database_starts:
  assumes "NewStore rk allowlist epoch cfg = Inr s" and "start_fine io"
  shows "\<exists>q. NewSQLiteStore rk allowlist epoch io now cfg empty_db = (Inr s, q)"
proof -
  let ?db = "empty_db\<lparr>t_schema_migrations := [(durableDeliveryBackfill, now)]\<rparr>"
  have "pruneDB [] (s_cfg s) now \<lparr>sq_db = ?db, sq_deliveryPersistErrors = []\<rparr> =
      (None, \<lparr>sq_db = ?db, sq_deliveryPersistErrors = []\<rparr>)"
    using empty_db_steps(3) [of "[]" "s_cfg s" now] by (simp add: pruneDB_def exec_all_fine)
  then show ?thesis using assms by (simp add: NewSQLiteStore_def start_fine_def empty_db_steps Let_def)
qed

text \<open>
  C10. A server on SQLite keeps both halves of its state consistent. From a start on a new database, after any
  sequence of HTTP requests (with whatever happens while one of them waits), background transactions, push
  claims and receipts, in any order, the in-memory store satisfies its invariant and the tables satisfy
  theirs.
\<close>

theorem http_sqlite_invariant:
  assumes "NewSQLiteStore rk allowlist epoch io now cfg empty_db = (Inr s, q)" and "sv_store sv = (s, q)"
    and "system_step\<^sup>*\<^sup>* sv sv'"
  shows "bus_inv (fst (sv_store sv')) \<and> db_inv (sq_db (snd (sv_store sv')))"
proof -
  have "sqlite_inv (sv_store sv)"
    using new_database_start [OF assms(1)] bus_inv_new assms(2) by (simp add: sqlite_inv_def)
  with assms(3) have "sqlite_inv (sv_store sv')"
    by (induction rule: rtranclp_induct) (simp_all add: system_step_inv)
  then show ?thesis by (simp add: sqlite_inv_def)
qed

theorem http_sqlite_invariant_witness:
  "\<exists>s q sv'. NewSQLiteStore (\<lambda>_. 0) [] ''e'' \<lparr>st_open = None, st_backfill = None, st_recover = None, st_prune = [], st_load = None\<rparr>
       ex_time ex_config empty_db = (Inr s, q) \<and>
     system_step (ex_server (s, q)) sv' \<and> bus_inv (fst (sv_store sv')) \<and> db_inv (sq_db (snd (sv_store sv')))"
proof -
  let ?io = "\<lparr>st_open = None, st_backfill = None, st_recover = None, st_prune = [], st_load = None\<rparr>"
  have fine: "start_fine ?io" by (simp add: start_fine_def)
  obtain s q where start: "NewSQLiteStore (\<lambda>_. 0) [] ''e'' ?io ex_time ex_config empty_db = (Inr s, q)"
    using new_database_starts [OF ex0_new fine] by blast
  have "sqlite_moment_ok ex_sqlite_moment" by (simp add: sqlite_moment_ok_def ex_sqlite_moment_def)
  then have step: "system_step (ex_server (s, q))
      (snd (ServeHTTP (sqlite_api ex_sqlite_moment) ex_env True (map sqlite_api []) (ex_post ''5a'') (ex_server (s, q))))"
    (is "system_step _ ?sv") by (rule system_step.request) simp
  have "sv_store (ex_server (s, q)) = (s, q)" by (simp add: ex_server_def)
  moreover have "system_step\<^sup>*\<^sup>* (ex_server (s, q)) ?sv" using step by blast
  ultimately show ?thesis using http_sqlite_invariant [OF start, of "ex_server (s, q)" ?sv] start step by blast
qed

text \<open>
  C9. What a success answer to a message means on SQLite, from the wire to the receiver. When the server
  answers that a message was accepted as new, the sender named in the body signed that body, and there is
  a delivery of the message to the receiver named in the body that stays in the database, open, with its
  message, through every later sequence of transactions, crashes and restarts, until the receiver has
  confirmed it (a poll past it, an acknowledgement or event, a callback answered with success) or a
  transaction finds it past its deadline.
\<close>

theorem http_sqlite_send_kept:
  assumes "db_inv (sq_db (snd (sv_store sv)))" and "rq_Path r = ''/v1/messages''"
    and "ServeHTTP (sqlite_api mo) env cf passes r sv = (Some (accepted_answer mid), sv')"
    and "db_run evs (snd (sv_store sv')) q2"
  shows "\<exists>blob req d. decode_body sv r (he_message env) = Inr (blob, req) \<and>
    signed_by (he_hmac env) sv (mr_From req) (header_get r ''X-Bus-Signature'') blob \<and>
    d \<in> set (t_deliveries (sq_db (snd (sv_store sv')))) \<and> open_delivery d \<and>
    dl_message_id d = mid \<and> dl_target_agent_id d = TrimSpace (mr_To req) \<and>
    ((\<exists>ev \<in> set evs. confirmed ev d \<or> expired ev d) \<or>
     (\<exists>d' \<in> set (t_deliveries (sq_db q2)). open_delivery d' \<and> same_delivery d d' \<and> has_key (t_messages (sq_db q2)) mid))"
proof -
  have "route (rq_Path r) = Some MessagesEndpoint" unfolding assms(2) by code_simp
  then have "handleMessages (sqlite_api mo) env r sv = (accepted_answer mid, sv')"
    using assms(3) by (simp add: ServeHTTP_def answered_def prod_eq_iff)
  then obtain blob req m st where h: "decode_body sv r (he_message env) = Inr (blob, req)"
    "signed_by (he_hmac env) sv (mr_From req) (header_get r ''X-Bus-Signature'') blob"
    "SQLiteStore_SendMessage mo \<lparr>sm_To = mr_To req, sm_From = mr_From req, sm_ConversationID = mr_ConversationID req,
        sm_RequestID = mr_RequestID req, sm_Type = message_type_of (mr_Type req),
        sm_Body = mr_Body req, sm_Meta = mr_Meta req, sm_Attachments = mr_Attachments req,
        sm_TTLSeconds = mr_TTL req, sm_InReplyTo = mr_InReplyTo req\<rparr> (sv_store sv) = (Inr (m, False), st)"
    "m_MessageID m = mid" "sv' = sv\<lparr>sv_store := st\<rparr>"
    by (rule handleMessages_accepted) (simp add: sqlite_api_def)
  obtain s q s' q' where sq: "sv_store sv = (s, q)" "st = (s', q')" by (cases "sv_store sv", cases st)
  note sent = sqlite_send_accepted [OF h(3) [unfolded sq]]
  obtain d where d: "d \<in> set (t_deliveries (sq_db q'))" "open_delivery d" "dl_message_id d = mid"
    "dl_target_agent_id d = TrimSpace (mr_To req)"
    using sent(3,7) h(4) by auto
  obtain acc receipt where "persistAcceptance (qm_io mo) (cfg_IdempotencyWindow (s_cfg s)) acc q = (Inr receipt, q')"
    using sent(8) by blast
  then have i: "db_inv (sq_db q')"
    using follows_inv [OF follows_persistAcceptance, of q] assms(1) sq by (metis snd_conv)
  have run: "db_run evs q' q2" using assms(4) h(5) sq(2) by simp
  have "has_key (t_messages (sq_db q2)) mid" if "d' \<in> set (t_deliveries (sq_db q2))" "same_delivery d d'" for d'
    using db_run_inv [OF run i] that d(3) by (auto simp: db_inv_def deliveries_ok_def same_delivery_def)
  moreover have "d \<in> set (t_deliveries (sq_db (snd (sv_store sv'))))" using d(1) by (simp add: h(5) sq(2))
  ultimately show ?thesis using db_run_open [OF run i d(1,2)] h(1,2) d(2-4) by blast
qed

theorem http_sqlite_send_kept_witness:
  "\<exists>sv' q2 d. ServeHTTP (sqlite_api ex_sqlite_moment) ex_env True [] (ex_post ''5a'') (ex_server (ex2, ex_sqlite)) =
       (Some (accepted_answer ''m-000001''), sv') \<and>
     db_run [Polled ''ucla.b'' 0, Recovered] (snd (sv_store sv')) q2 \<and>
     d \<in> set (t_deliveries (sq_db q2)) \<and> open_delivery d \<and> dl_target_agent_id d = ''ucla.b'' \<and>
     dl_message_id d = ''m-000001'' \<and> has_key (t_messages (sq_db q2)) ''m-000001''"
proof -
  have cfg: "s_cfg ex2 = normalize_config ex_config" using ex2_fields(1) by (simp add: same_policy_def ex_policy_def)
  obtain s where "api_SendMessage (sqlite_api ex_sqlite_moment) ex_send (ex2, ex_sqlite) =
      (Inr (ex_message, False), s, ex_accepted)"
    using ex_accepted_eval
    by (simp add: sqlite_api_def SQLiteStore_SendMessage_def ex_sqlite_moment_def cfg ex_config_fields ex_send_eval
        run_barrier_def Let_def) (simp add: ex_acceptance_def)
  then have served: "ServeHTTP (sqlite_api ex_sqlite_moment) ex_env True [] (ex_post ''5a'') (ex_server (ex2, ex_sqlite)) =
      (Some (accepted_answer ''m-000001''), (ex_server (ex2, ex_sqlite))\<lparr>sv_store := (s, ex_accepted)\<rparr>)"
    by (rule ex_post_accepted)
  obtain q2 where run: "db_run [Polled ''ucla.b'' 0, Recovered] ex_accepted q2"
    by (meson db_run.intros db_step.poll db_step.restart)
  have inv: "db_inv (sq_db (snd (sv_store (ex_server (ex2, ex_sqlite)))))" using ex_sqlite_inv by (simp add: ex_server_def)
  have "rq_Path (ex_post ''5a'') = ''/v1/messages''" by (simp add: ex_post_def)
  from http_sqlite_send_kept [OF inv this served, of "[Polled ''ucla.b'' 0, Recovered]" q2] run
  obtain d where d: "d \<in> set (t_deliveries (sq_db ex_accepted))" "dl_message_id d = ''m-000001''" "dl_target_agent_id d = ''ucla.b''"
    "(\<exists>ev \<in> set [Polled ''ucla.b'' 0, Recovered]. confirmed ev d \<or> expired ev d) \<or>
     (\<exists>d' \<in> set (t_deliveries (sq_db q2)). open_delivery d' \<and> same_delivery d d' \<and> has_key (t_messages (sq_db q2)) ''m-000001'')"
    by (auto simp: ex_post_decode ex_names)
  then have "dl_delivery_seq d = 0" by (simp add: ex_accepted_deliveries ex_delivery_def new_delivery_def)
  with d(2-4) served run show ?thesis by (fastforce simp: confirmed_def expired_def same_delivery_def)
qed

end
