(* ===== verification/Sqlite_Import.thy ===== *)
theory Sqlite_Import
  imports Durable_Restart Durability
begin

text \<open>
  The one-time import of a state file into a new database, \<^verbatim>\<open>pkg/bus/migrate.go\<close>: agents, secrets,
  conversations, messages, conversation positions, counters, the buffered inbox events as deliveries with
  their cursors, and the idempotency receipts, in one transaction on a temporary file that is then renamed
  into place.

  The loops over maps visit the entries in any order (\<open>range_items\<close> with a ranking for each loop). The
  tally of imported rows feeds a log line only and is left out.
\<close>

section \<open>The rows\<close>

definition range_items :: "ranking \<Rightarrow> 'v gomap \<Rightarrow> (string \<times> 'v) list" where
  "range_items rk m = sort_key (\<lambda>(k, v). rk k) m"

definition import_secret :: "string \<times> string \<Rightarrow> sqldb \<Rightarrow> sqldb" where
  "import_secret entry db =
     (case map_of (t_agents db) (fst entry) of
        None \<Rightarrow> db
      | Some row \<Rightarrow> db\<lparr>t_agents := AList.update (fst entry) (row\<lparr>ar_secret := snd entry\<rparr>) (t_agents db)\<rparr>)"

definition import_links :: "string \<times> string list \<Rightarrow> sqldb \<Rightarrow> sqldb" where
  "import_links entry db =
     fold (\<lambda>(position, mid). saveConversationMessageTo (fst entry) mid (int position)) (enumerate 0 (snd entry)) db"

text \<open>The tables that are written without a constraint that could fail.\<close>

definition import_tables :: "orders \<Rightarrow> persistent_state \<Rightarrow> sqldb \<Rightarrow> sqldb" where
  "import_tables R state db =
     saveCountersTo (ps_NextConversationID state) (ps_NextMessageID state)
       (fold import_links (range_items (R 4) (ps_ConversationMessages state))
         (fold (\<lambda>(k, pm). saveMessageTo (toMessage pm)) (range_items (R 3) (ps_Messages state))
           (fold (\<lambda>(k, c). saveConversationTo c) (range_items (R 2) (ps_Conversations state))
             (fold import_secret (range_items (R 1) (ps_AgentSecrets state))
               (fold (\<lambda>(k, a). saveAgentTo a) (range_items (R 0) (ps_Agents state)) db)))))"

section \<open>Deliveries\<close>

text \<open>An event is dropped when its message is unknown or its request is executing or finished.\<close>

definition deliverable :: "persistent_state \<Rightarrow> inbox_event \<Rightarrow> bool" where
  "deliverable state event \<longleftrightarrow>
     (case map_of (ps_Messages state) (i_MessageID event) of
        None \<Rightarrow> False
      | Some pm \<Rightarrow>
          (let message = toMessage pm in
           \<not> (m_Type message = MessageTypeRequest \<and>
              (m_State message = StateExecuting \<or> isTerminal (m_State message)))))"

definition import_expiry :: "config \<Rightarrow> message \<Rightarrow> time" where
  "import_expiry cfg message =
     (let defaultTTL = (if cfg_DefaultMessageTTL cfg \<le> 0 then 10 * Minute else cfg_DefaultMessageTTL cfg);
          expiresAt = (if IsZero (m_TTLExpiresAt message) then Add (m_CreatedAt message) defaultTTL
                       else m_TTLExpiresAt message) in
      if \<not> IsZero (m_GraceUntil message) \<and> m_GraceUntil message < expiresAt then m_GraceUntil message else expiresAt)"

definition insert_cursor :: "string \<Rightarrow> int \<Rightarrow> int \<Rightarrow> sqldb \<Rightarrow> string + sqldb" where
  "insert_cursor agentID nextSeq acknowledged db =
     (if has_key (t_delivery_cursors db) agentID then Inl ''UNIQUE constraint failed: delivery_cursors''
      else Inr (db\<lparr>t_delivery_cursors :=
             AList.update agentID \<lparr>dc_next_seq = nextSeq, dc_acknowledged_cursor = acknowledged\<rparr> (t_delivery_cursors db)\<rparr>))"

definition import_delivery :: "config \<Rightarrow> persistent_state \<Rightarrow> string \<Rightarrow> int \<Rightarrow> nat \<times> inbox_event \<Rightarrow> sqldb \<Rightarrow> string + sqldb" where
  "import_delivery cfg state agentID base entry db =
     (case map_of (ps_Messages state) (i_MessageID (snd entry)) of
        None \<Rightarrow> Inr db
      | Some pm \<Rightarrow>
          (let message = toMessage pm in
           case insert_delivery (new_delivery agentID (base + int (fst entry)) (i_MessageID (snd entry)) DeliveryPending
                  (m_CreatedAt message) (import_expiry cfg message)) db of
             Inl err \<Rightarrow> Inl (''import delivery '' @ agentID @ ''/'' @ i_MessageID (snd entry) @ '': '' @ err)
           | Inr db1 \<Rightarrow> Inr db1))"

definition import_inbox :: "config \<Rightarrow> persistent_state \<Rightarrow> string \<times> inbox_event list \<Rightarrow> sqldb \<Rightarrow> string + sqldb" where
  "import_inbox cfg state entry db =
     (let base = get_or 0 (ps_InboxBase state) (fst entry); events = filter (deliverable state) (snd entry) in
      case insert_cursor (fst entry) (base + int (length events)) base db of
        Inl err \<Rightarrow> Inl (''import delivery cursor '' @ fst entry @ '': '' @ err)
      | Inr db1 \<Rightarrow> each_row (import_delivery cfg state (fst entry) base) (enumerate 0 events) db1)"

definition import_base :: "persistent_state \<Rightarrow> string \<times> int \<Rightarrow> sqldb \<Rightarrow> string + sqldb" where
  "import_base state entry db =
     (if has_key (ps_Inboxes state) (fst entry) then Inr db
      else (case insert_cursor (fst entry) (snd entry) (snd entry) db of
              Inl err \<Rightarrow> Inl (''import empty delivery cursor '' @ fst entry @ '': '' @ err)
            | Inr db1 \<Rightarrow> Inr db1))"

section \<open>Receipts\<close>

definition import_receipt :: "config \<Rightarrow> string \<times> idempotency_entry \<Rightarrow> sqldb \<Rightarrow> string + sqldb" where
  "import_receipt cfg item db =
     (let window = (if cfg_IdempotencyWindow cfg \<le> 0 then 24 * Hour else cfg_IdempotencyWindow cfg) in
      case Split (fst item) (CHR 0x1F) of
        [from, to, requestID] \<Rightarrow>
          (case insert_receipt \<lparr>id_from_agent = from, id_to_agent = to, id_request_id = requestID,
                  id_message_id = ie_MessageID (snd item), id_accepted_at = ie_CreatedAt (snd item),
                  id_expires_at = Add (ie_CreatedAt (snd item)) window\<rparr> db of
             Inl err \<Rightarrow> Inl (''import idempotency receipt for '' @ ie_MessageID (snd item) @ '': '' @ err)
           | Inr db1 \<Rightarrow> Inr db1)
      | _ \<Rightarrow> Inr db)"

definition mark_backfilled :: "time \<Rightarrow> sqldb \<Rightarrow> string + sqldb" where
  "mark_backfilled now db =
     (if has_key (t_schema_migrations db) durableDeliveryBackfill then
        Inl ''mark durable delivery migration complete: UNIQUE constraint failed: schema_migrations''
      else Inr (db\<lparr>t_schema_migrations := AList.update durableDeliveryBackfill now (t_schema_migrations db)\<rparr>))"

section \<open>The import\<close>

text \<open>
  \<open>io\<close> is the error of opening the file, of a statement or of the commit, if there is one: the transaction
  has no effect then. \<open>db\<close> is what the temporary file holds before.
\<close>

definition importStateToSQLite ::
  "string option \<Rightarrow> orders \<Rightarrow> config \<Rightarrow> time \<Rightarrow> persistent_state \<Rightarrow> sqldb \<Rightarrow> string + sqldb" where
  "importStateToSQLite io R cfg now state db =
     (case io of
        Some err \<Rightarrow> Inl err
      | None \<Rightarrow>
          (case each_row (import_inbox cfg state) (range_items (R 5) (ps_Inboxes state)) (import_tables R state db) of
             Inl err \<Rightarrow> Inl err
           | Inr db1 \<Rightarrow>
               (case each_row (import_base state) (range_items (R 6) (ps_InboxBase state)) db1 of
                  Inl err \<Rightarrow> Inl err
                | Inr db2 \<Rightarrow>
                    (case each_row (import_receipt cfg) (range_items (R 7) (ps_Idempotency state)) db2 of
                       Inl err \<Rightarrow> Inl err
                     | Inr db3 \<Rightarrow> mark_backfilled now db3))))"

text \<open>
  The files the migration works on, and the errors of the calls. A temporary file that is left from a crash
  and cannot be removed is imported into as it is.
\<close>

record migration_files =
  mf_state :: "persistent_state option"
  mf_migrated :: "persistent_state option"
  mf_db :: "sqldb option"
  mf_tmp :: "sqldb option"

record migration_io =
  mi_stat :: "string option"
  mi_read :: "string option"
  mi_remove :: bool
  mi_unmarshal :: "string option"
  mi_mkdir :: "string option"
  mi_import :: "string option"
  mi_clean :: bool
  mi_rename_db :: "string option"
  mi_rename_state :: "string option"

definition remove_tmp :: "bool \<Rightarrow> migration_files \<Rightarrow> migration_files" where
  "remove_tmp removed fs = (if removed then fs\<lparr>mf_tmp := None\<rparr> else fs)"

definition MigrateJSONStateToSQLite ::
  "migration_io \<Rightarrow> orders \<Rightarrow> string \<Rightarrow> string \<Rightarrow> config \<Rightarrow> time \<Rightarrow> migration_files \<Rightarrow> (string + bool) \<times> migration_files" where
  "MigrateJSONStateToSQLite io R statePath dbPath cfg now fs =
     (if statePath = [] \<or> dbPath = [] then (Inr False, fs)
      else case mi_stat io of
        Some err \<Rightarrow> (Inl (''stat sqlite db '' @ dbPath @ '': '' @ err), fs)
      | None \<Rightarrow>
          if mf_db fs \<noteq> None then (Inr False, fs)
          else (case mf_state fs of
             None \<Rightarrow> (Inr False, fs)
           | Some state \<Rightarrow>
               (case mi_read io of
                  Some err \<Rightarrow> (Inl (''read legacy state '' @ statePath @ '': '' @ err), fs)
                | None \<Rightarrow>
                    (let fs1 = remove_tmp (mi_remove io) fs in
                     case mi_unmarshal io of
                       Some err \<Rightarrow> (Inl (''parse legacy state '' @ statePath @ '': '' @ err), fs1)
                     | None \<Rightarrow>
                         (case mi_mkdir io of
                            Some err \<Rightarrow> (Inl (''create sqlite db dir: '' @ err), fs1)
                          | None \<Rightarrow>
                              (let before = (case mf_tmp fs1 of Some db \<Rightarrow> db | None \<Rightarrow> empty_db) in
                               case importStateToSQLite (mi_import io) R cfg now state before of
                                 Inl err \<Rightarrow>
                                   (Inl (''import legacy state '' @ statePath @ '' into sqlite '' @ dbPath @ '': '' @ err),
                                    remove_tmp (mi_clean io) (fs1\<lparr>mf_tmp := Some before\<rparr>))
                               | Inr db \<Rightarrow>
                                   (case mi_rename_db io of
                                      Some err \<Rightarrow>
                                        (Inl (''rename migrated sqlite db '' @ dbPath @ ''.tmp to '' @ dbPath @ '': '' @ err),
                                         remove_tmp (mi_clean io) (fs1\<lparr>mf_tmp := Some db\<rparr>))
                                    | None \<Rightarrow>
                                        (let fs2 = fs1\<lparr>mf_tmp := None, mf_db := Some db\<rparr> in
                                         case mi_rename_state io of
                                           Some err \<Rightarrow> (Inl (''rename migrated state file '' @ statePath @ '': '' @ err), fs2)
                                         | None \<Rightarrow> (Inr True, fs2\<lparr>mf_state := None, mf_migrated := Some state\<rparr>)))))))))"

section \<open>What the import of the tables leaves\<close>

lemma range_items_simps [simp]:
  "set (range_items rk m) = set m" "keys_distinct (range_items rk m) = keys_distinct m"
proof -
  show "set (range_items rk m) = set m" by (simp add: range_items_def)
  have "mset (map fst (range_items rk m)) = mset (map fst m)" by (simp add: range_items_def)
  then show "keys_distinct (range_items rk m) = keys_distinct m" by (rule mset_eq_imp_distinct_iff)
qed

lemma map_of_range_items: "keys_distinct m \<Longrightarrow> map_of (range_items rk m) = map_of m"
  by (subst map_of_inject_set) simp_all

lemma follows_import_secret: "follows ev db (import_secret entry db)"
  by (rule follows_other_tables)
    (auto simp: import_secret_def rows_ok_def simp del: map_of_eq_Some_iff split: option.splits if_splits)

lemma follows_import_links: "follows ev db (import_links entry db)"
  unfolding import_links_def by (rule follows_fold) (auto intro: follows_saveConversationMessageTo)

lemma follows_import_tables: "follows ev db (import_tables R state db)"
  unfolding import_tables_def
  by (intro follows_trans [OF _ follows_saveCountersTo] follows_trans [OF _ follows_fold]
      follows_fold follows_import_secret follows_import_links)
    (auto intro: follows_saveAgentTo follows_saveConversationTo follows_saveMessageTo)

lemma table_frames [simp]:
  "t_messages (saveAgentTo a db) = t_messages db" "t_messages (import_secret e db) = t_messages db"
  "t_messages (saveConversationTo c db) = t_messages db" "t_messages (import_links l db) = t_messages db"
  "t_messages (saveCountersTo nc nm db) = t_messages db"
  "t_agents (saveConversationTo c db) = t_agents db" "t_agents (saveMessageTo m db) = t_agents db"
  "t_agents (import_links l db) = t_agents db" "t_agents (saveCountersTo nc nm db) = t_agents db"
  by (auto simp: saveAgentTo_def import_secret_def saveConversationTo_def saveMessageTo_def saveCountersTo_def
      import_links_def saveConversationMessageTo_def split: option.split intro!: fold_keeps_eq)

lemma delivery_frames [simp]:
  "t_deliveries (import_tables R state db) = t_deliveries db"
  "t_delivery_cursors (import_tables R state db) = t_delivery_cursors db"
  "t_idempotency (import_tables R state db) = t_idempotency db"
  "t_schema_migrations (import_tables R state db) = t_schema_migrations db"
proof -
  have links: "g (import_links e db) = g db" if "\<And>c m p db. g (saveConversationMessageTo c m p db) = g db"
    for g :: "sqldb \<Rightarrow> 'a" and e db
    unfolding import_links_def using that by (auto intro!: fold_keeps_eq)
  have tables: "g (import_tables R state db) = g db"
    if "\<And>x db. g (saveAgentTo x db) = g db" "\<And>x db. g (import_secret x db) = g db"
      "\<And>x db. g (saveConversationTo x db) = g db" "\<And>x db. g (saveMessageTo x db) = g db"
      "\<And>c m p db. g (saveConversationMessageTo c m p db) = g db" "\<And>x y db. g (saveCountersTo x y db) = g db"
    for g :: "sqldb \<Rightarrow> 'a"
    unfolding import_tables_def that(6)
    by (subst fold_keeps_eq, rule links [OF that(5)])
      (subst fold_keeps_eq, simp add: that(4) case_prod_unfold, subst fold_keeps_eq, simp add: that(3) case_prod_unfold,
        subst fold_keeps_eq, rule that(2), subst fold_keeps_eq, simp add: that(1) case_prod_unfold, rule refl)
  note defs = saveAgentTo_def import_secret_def saveConversationTo_def saveMessageTo_def saveCountersTo_def
    saveConversationMessageTo_def
  show "t_deliveries (import_tables R state db) = t_deliveries db"
    by (rule tables) (simp_all add: defs split: option.split)
  show "t_delivery_cursors (import_tables R state db) = t_delivery_cursors db"
    by (rule tables) (simp_all add: defs split: option.split)
  show "t_idempotency (import_tables R state db) = t_idempotency db"
    by (rule tables) (simp_all add: defs split: option.split)
  show "t_schema_migrations (import_tables R state db) = t_schema_migrations db"
    by (rule tables) (simp_all add: defs split: option.split)
qed

lemma import_messages:
  assumes "keys_distinct xs" and "\<forall>(k, pm) \<in> set xs. m_MessageID (toMessage pm) = k"
  shows "map_of (t_messages (fold (\<lambda>(k, pm). saveMessageTo (toMessage pm)) xs db)) k =
    (case map_of xs k of Some pm \<Rightarrow> Some (message_row (toMessage pm)) | None \<Rightarrow> map_of (t_messages db) k)"
proof -
  have "t_messages (fold (\<lambda>(k, pm). saveMessageTo (toMessage pm)) xs db) =
      fold (\<lambda>(k, pm). AList.update (m_MessageID (toMessage pm)) (message_row (toMessage pm))) xs (t_messages db)"
    by (induction xs arbitrary: db) (auto simp: saveMessageTo_def)
  then show ?thesis using map_of_fold_update [OF assms] by simp
qed

lemma import_agents:
  assumes "keys_distinct xs" and "\<forall>(k, a) \<in> set xs. a_AgentID a = k"
  shows "map_of (t_agents (fold (\<lambda>(k, a). saveAgentTo a) xs db)) k =
    (case map_of xs k of
       Some a \<Rightarrow> Some \<lparr>ar_agent = a, ar_secret = (case map_of (t_agents db) k of Some row \<Rightarrow> ar_secret row | None \<Rightarrow> [])\<rparr>
     | None \<Rightarrow> map_of (t_agents db) k)"
  using assms
proof (induction xs arbitrary: db)
  case (Cons x xs)
  obtain k0 a0 where x: "x = (k0, a0)" by (cases x)
  have "map_of xs k0 = None" using Cons.prems(1) by (simp add: x map_of_eq_None_iff)
  with Cons show ?case by (auto simp: x saveAgentTo_def split: option.splits)
qed simp

lemma import_secrets:
  "keys_distinct xs \<Longrightarrow> map_of (t_agents (fold import_secret xs db)) k =
    (case map_of (t_agents db) k of
       None \<Rightarrow> None
     | Some row \<Rightarrow> Some (case map_of xs k of None \<Rightarrow> row | Some secret \<Rightarrow> row\<lparr>ar_secret := secret\<rparr>))"
proof (induction xs arbitrary: db)
  case (Cons x xs)
  obtain k0 v0 where x: "x = (k0, v0)" by (cases x)
  have "map_of xs k0 = None" using Cons.prems by (simp add: x map_of_eq_None_iff)
  with Cons show ?case by (auto simp: x import_secret_def simp del: map_of_eq_Some_iff split: option.splits)
qed (simp split: option.split)

section \<open>What the import of the inboxes leaves\<close>

definition import_row :: "config \<Rightarrow> persistent_state \<Rightarrow> string \<Rightarrow> int \<Rightarrow> nat \<times> inbox_event \<Rightarrow> delivery_row" where
  "import_row cfg state agentID base entry =
     (let message = (case map_of (ps_Messages state) (i_MessageID (snd entry)) of Some pm \<Rightarrow> toMessage pm) in
      new_delivery agentID (base + int (fst entry)) (i_MessageID (snd entry)) DeliveryPending
        (m_CreatedAt message) (import_expiry cfg message))"

definition inbox_deliveries :: "config \<Rightarrow> persistent_state \<Rightarrow> string \<times> inbox_event list \<Rightarrow> delivery_row list" where
  "inbox_deliveries cfg state entry =
     map (import_row cfg state (fst entry) (get_or 0 (ps_InboxBase state) (fst entry)))
       (enumerate 0 (filter (deliverable state) (snd entry)))"

lemma import_row_fields [simp]:
  "dl_message_id (import_row cfg state a base e) = i_MessageID (snd e)"
  "dl_target_agent_id (import_row cfg state a base e) = a"
  "dl_delivery_seq (import_row cfg state a base e) = base + int (fst e)"
  "dl_status (import_row cfg state a base e) = DeliveryPending"
  by (simp_all add: import_row_def new_delivery_def Let_def)

lemma import_deliveries:
  assumes "\<forall>e \<in> set events. has_key (ps_Messages state) (i_MessageID e) \<and> has_key (t_messages db) (i_MessageID e)"
    and "distinct (map i_MessageID events)"
    and "dl_message_id ` set (t_deliveries db) \<inter> i_MessageID ` set events = {}"
    and "\<forall>d \<in> set (t_deliveries db). dl_target_agent_id d = a \<longrightarrow> dl_delivery_seq d < base + int n"
  shows "each_row (import_delivery cfg state a base) (enumerate n events) db =
    Inr (db\<lparr>t_deliveries := t_deliveries db @ map (import_row cfg state a base) (enumerate n events)\<rparr>)"
  using assms
proof (induction events arbitrary: n db)
  case (Cons e events)
  let ?row = "import_row cfg state a base (n, e)"
  let ?db = "db\<lparr>t_deliveries := t_deliveries db @ [?row]\<rparr>"
  obtain pm where pm: "map_of (ps_Messages state) (i_MessageID e) = Some pm"
    using Cons.prems(1) by (auto simp: has_key_def)
  have "dl_message_id d \<noteq> i_MessageID e" "dl_target_agent_id d \<noteq> a \<or> dl_delivery_seq d \<noteq> base + int n"
    if "d \<in> set (t_deliveries db)" for d
  proof -
    have "i_MessageID e \<notin> dl_message_id ` set (t_deliveries db)" using Cons.prems(3) by simp
    then show "dl_message_id d \<noteq> i_MessageID e" using that by force
    show "dl_target_agent_id d \<noteq> a \<or> dl_delivery_seq d \<noteq> base + int n" using Cons.prems(4) that by auto
  qed
  then have "insert_delivery ?row db = Inr ?db"
    using Cons.prems(1) by (auto simp: insert_delivery_def list_ex_iff)
  then have "import_delivery cfg state a base (n, e) db = Inr ?db"
    by (simp add: import_delivery_def pm Let_def import_row_def)
  moreover have "each_row (import_delivery cfg state a base) (enumerate (Suc n) events) ?db =
      Inr (?db\<lparr>t_deliveries := t_deliveries ?db @ map (import_row cfg state a base) (enumerate (Suc n) events)\<rparr>)"
  proof (rule Cons.IH)
    have "dl_delivery_seq d < base + int (Suc n)" if "d \<in> set (t_deliveries db)" "dl_target_agent_id d = a" for d
    proof -
      have "dl_delivery_seq d < base + int n" using Cons.prems(4) that by blast
      then show ?thesis by simp
    qed
    then show "\<forall>d \<in> set (t_deliveries ?db). dl_target_agent_id d = a \<longrightarrow> dl_delivery_seq d < base + int (Suc n)" by auto
    show "dl_message_id ` set (t_deliveries ?db) \<inter> i_MessageID ` set events = {}"
      using Cons.prems(2,3) by auto
  qed (use Cons.prems(1,2) in auto)
  ultimately show ?case by simp
qed simp

lemma deliverable_known: "deliverable state e \<Longrightarrow> has_key (ps_Messages state) (i_MessageID e)"
  by (auto simp: deliverable_def has_key_def split: option.splits)

lemma import_inbox_rows:
  assumes "\<not> has_key (t_delivery_cursors db) a" and "a \<notin> dl_target_agent_id ` set (t_deliveries db)"
    and "\<forall>k. has_key (ps_Messages state) k \<longrightarrow> has_key (t_messages db) k"
    and "distinct (map dl_message_id (inbox_deliveries cfg state (a, inbox)))"
    and "dl_message_id ` set (t_deliveries db) \<inter> dl_message_id ` set (inbox_deliveries cfg state (a, inbox)) = {}"
  shows "import_inbox cfg state (a, inbox) db =
    Inr (db\<lparr>t_delivery_cursors := AList.update a
              \<lparr>dc_next_seq = get_or 0 (ps_InboxBase state) a + int (length (filter (deliverable state) inbox)),
               dc_acknowledged_cursor = get_or 0 (ps_InboxBase state) a\<rparr> (t_delivery_cursors db),
            t_deliveries := t_deliveries db @ inbox_deliveries cfg state (a, inbox)\<rparr>)"
proof -
  let ?events = "filter (deliverable state) inbox" and ?base = "get_or 0 (ps_InboxBase state) a"
  let ?db = "db\<lparr>t_delivery_cursors := AList.update a \<lparr>dc_next_seq = ?base + int (length ?events),
    dc_acknowledged_cursor = ?base\<rparr> (t_delivery_cursors db)\<rparr>"
  have ids: "map dl_message_id (inbox_deliveries cfg state (a, inbox)) = map i_MessageID ?events"
    by (simp add: inbox_deliveries_def comp_def flip: map_map [of i_MessageID snd, unfolded comp_def])
  have "insert_cursor a (?base + int (length ?events)) ?base db = Inr ?db"
    using assms(1) by (simp add: insert_cursor_def)
  moreover have "each_row (import_delivery cfg state a ?base) (enumerate 0 ?events) ?db =
      Inr (?db\<lparr>t_deliveries := t_deliveries ?db @ map (import_row cfg state a ?base) (enumerate 0 ?events)\<rparr>)"
  proof (rule import_deliveries)
    show "dl_message_id ` set (t_deliveries ?db) \<inter> i_MessageID ` set ?events = {}"
      using assms(5) arg_cong [OF ids, of set] by simp
  qed (use assms ids deliverable_known in auto)
  ultimately show ?thesis by (simp add: import_inbox_def inbox_deliveries_def Let_def)
qed

lemma dom_update_keys: "fst ` set (AList.update k v xs) = insert k (fst ` set xs)"
  by (simp add: dom_update flip: dom_map_of_conv_image_fst) (simp add: update_conv')

lemma import_inboxes:
  assumes "keys_distinct xs" and "fst ` set xs \<inter> fst ` set (t_delivery_cursors db) = {}"
    and "fst ` set xs \<inter> dl_target_agent_id ` set (t_deliveries db) = {}"
    and "\<forall>k. has_key (ps_Messages state) k \<longrightarrow> has_key (t_messages db) k"
    and "distinct (map dl_message_id (t_deliveries db @ concat (map (inbox_deliveries cfg state) xs)))"
  shows "each_row (import_inbox cfg state) xs db =
    Inr (db\<lparr>t_delivery_cursors := fold (\<lambda>(a, inbox). AList.update a
              \<lparr>dc_next_seq = get_or 0 (ps_InboxBase state) a + int (length (filter (deliverable state) inbox)),
               dc_acknowledged_cursor = get_or 0 (ps_InboxBase state) a\<rparr>) xs (t_delivery_cursors db),
            t_deliveries := t_deliveries db @ concat (map (inbox_deliveries cfg state) xs)\<rparr>)"
  using assms
proof (induction xs arbitrary: db)
  case (Cons x xs)
  obtain a inbox where x: "x = (a, inbox)" by (cases x)
  let ?rows = "inbox_deliveries cfg state (a, inbox)"
  let ?db = "db\<lparr>t_delivery_cursors := AList.update a
      \<lparr>dc_next_seq = get_or 0 (ps_InboxBase state) a + int (length (filter (deliverable state) inbox)),
       dc_acknowledged_cursor = get_or 0 (ps_InboxBase state) a\<rparr> (t_delivery_cursors db),
      t_deliveries := t_deliveries db @ ?rows\<rparr>"
  have "import_inbox cfg state (a, inbox) db = Inr ?db"
    using Cons.prems by (intro import_inbox_rows) (auto simp: x has_key_def map_of_eq_None_iff)
  moreover have "each_row (import_inbox cfg state) xs ?db =
    Inr (?db\<lparr>t_delivery_cursors := fold (\<lambda>(a, inbox). AList.update a
              \<lparr>dc_next_seq = get_or 0 (ps_InboxBase state) a + int (length (filter (deliverable state) inbox)),
               dc_acknowledged_cursor = get_or 0 (ps_InboxBase state) a\<rparr>) xs (t_delivery_cursors ?db),
            t_deliveries := t_deliveries ?db @ concat (map (inbox_deliveries cfg state) xs)\<rparr>)"
  proof (rule Cons.IH)
    show "fst ` set xs \<inter> dl_target_agent_id ` set (t_deliveries ?db) = {}"
      using Cons.prems(1,3) by (force simp: x inbox_deliveries_def)
    show "fst ` set xs \<inter> fst ` set (t_delivery_cursors ?db) = {}"
      using Cons.prems(1,2) by (auto simp: x dom_update_keys)
  qed (use Cons.prems in \<open>auto simp: x\<close>)
  ultimately show ?case by (simp add: x)
qed simp

text \<open>The cursors of agents without an inbox.\<close>

lemma import_bases:
  assumes "keys_distinct xs" and "\<forall>a \<in> fst ` set xs. \<not> has_key (ps_Inboxes state) a \<longrightarrow> \<not> has_key (t_delivery_cursors db) a"
  shows "each_row (import_base state) xs db =
    Inr (db\<lparr>t_delivery_cursors := fold (\<lambda>(a, base). AList.update a \<lparr>dc_next_seq = base, dc_acknowledged_cursor = base\<rparr>)
              (filter (\<lambda>(a, base). \<not> has_key (ps_Inboxes state) a) xs) (t_delivery_cursors db)\<rparr>)"
  using assms
proof (induction xs arbitrary: db)
  case (Cons x xs)
  obtain a base where x: "x = (a, base)" by (cases x)
  let ?db = "db\<lparr>t_delivery_cursors := AList.update a \<lparr>dc_next_seq = base, dc_acknowledged_cursor = base\<rparr> (t_delivery_cursors db)\<rparr>"
  have "each_row (import_base state) xs ?db =
    Inr (?db\<lparr>t_delivery_cursors := fold (\<lambda>(a, base). AList.update a \<lparr>dc_next_seq = base, dc_acknowledged_cursor = base\<rparr>)
              (filter (\<lambda>(a, base). \<not> has_key (ps_Inboxes state) a) xs) (t_delivery_cursors ?db)\<rparr>)"
    using Cons.prems by (intro Cons.IH) (auto simp: x has_key_def)
  moreover have "import_base state (a, base) db = Inr (if has_key (ps_Inboxes state) a then db else ?db)"
    using Cons.prems(2) by (simp add: x import_base_def insert_cursor_def)
  ultimately show ?case using Cons by (simp add: x)
qed simp

section \<open>What the import of the receipts leaves\<close>

fun join :: "char \<Rightarrow> string list \<Rightarrow> string" where
  "join sep [] = []"
| "join sep [w] = w"
| "join sep (w # ws) = w @ sep # join sep ws"

lemma join_Split: "join sep (Split s sep) = s"
proof (induction s sep rule: Split.induct)
  case (2 c cs sep)
  then show ?case using Split_nonempty [of cs sep]
    by (cases "Split cs sep") (auto simp: neq_Nil_conv, (metis join.simps(2,3) append_Cons list.exhaust)+)
qed simp

definition receipt_of :: "config \<Rightarrow> string \<times> idempotency_entry \<Rightarrow> receipt_row option" where
  "receipt_of cfg item =
     (let window = (if cfg_IdempotencyWindow cfg \<le> 0 then 24 * Hour else cfg_IdempotencyWindow cfg) in
      case Split (fst item) (CHR 0x1F) of
        [from, to, requestID] \<Rightarrow>
          Some \<lparr>id_from_agent = from, id_to_agent = to, id_request_id = requestID,
                id_message_id = ie_MessageID (snd item), id_accepted_at = ie_CreatedAt (snd item),
                id_expires_at = Add (ie_CreatedAt (snd item)) window\<rparr>
      | _ \<Rightarrow> None)"

lemma import_receipt_of:
  "import_receipt cfg item db =
     (case receipt_of cfg item of
        None \<Rightarrow> Inr db
      | Some r \<Rightarrow>
          (case insert_receipt r db of
             Inl err \<Rightarrow> Inl (''import idempotency receipt for '' @ ie_MessageID (snd item) @ '': '' @ err)
           | Inr db1 \<Rightarrow> Inr db1))"
  by (simp add: import_receipt_def receipt_of_def Let_def split: list.split)

text \<open>A key with two separators is read back from its receipt.\<close>

lemma receipt_of_key:
  "receipt_of cfg item = Some r \<Longrightarrow> dedupeKey (id_from_agent r) (id_to_agent r) (id_request_id r) = fst item"
  using join_Split [of "CHR 0x1F" "fst item"]
  by (auto simp: receipt_of_def dedupeKey_def Let_def split: list.splits)

lemma import_receipts:
  assumes "keys_distinct xs"
    and "\<forall>r \<in> set (t_idempotency db). dedupeKey (id_from_agent r) (id_to_agent r) (id_request_id r) \<notin> fst ` set xs"
  shows "each_row (import_receipt cfg) xs db =
    Inr (db\<lparr>t_idempotency := t_idempotency db @ List.map_filter (receipt_of cfg) xs\<rparr>)"
  using assms
proof (induction xs arbitrary: db)
  case (Cons x xs)
  show ?case
  proof (cases "receipt_of cfg x")
    case None
    with Cons show ?thesis by (simp add: import_receipt_of [of cfg x] map_filter_simps)
  next
    case (Some r)
    have key: "dedupeKey (id_from_agent r) (id_to_agent r) (id_request_id r) = fst x" by (rule receipt_of_key [OF Some])
    let ?db = "db\<lparr>t_idempotency := t_idempotency db @ [r]\<rparr>"
    have "insert_receipt r db = Inr ?db"
      using Cons.prems(2) key by (auto simp: insert_receipt_def list_ex_iff same_receipt_def)
    moreover have "each_row (import_receipt cfg) xs ?db =
        Inr (?db\<lparr>t_idempotency := t_idempotency ?db @ List.map_filter (receipt_of cfg) xs\<rparr>)"
      using Cons.prems key by (intro Cons.IH) auto
    ultimately show ?thesis by (simp add: import_receipt_of [of cfg x] Some map_filter_simps)
  qed
qed (simp add: map_filter_simps)

lemma receipts_distinct:
  assumes "keys_distinct xs"
  shows "distinct (map receipt_key (List.map_filter (receipt_of cfg) xs))"
  using assms
proof (induction xs)
  case (Cons x xs)
  have keys: "dedupeKey (id_from_agent r) (id_to_agent r) (id_request_id r) \<in> fst ` set xs"
    if "r \<in> set (List.map_filter (receipt_of cfg) xs)" for r
    using that receipt_of_key by (force simp: List.map_filter_def)
  show ?case
  proof (cases "receipt_of cfg x")
    case (Some r)
    have "receipt_key r \<noteq> receipt_key r'" if "r' \<in> set (List.map_filter (receipt_of cfg) xs)" for r'
    proof
      assume "receipt_key r = receipt_key r'"
      then have "fst x \<in> fst ` set xs" using keys [OF that] receipt_of_key [OF Some] by (simp add: receipt_key_def)
      then show False using Cons.prems by simp
    qed
    with Cons show ?thesis by (auto simp: Some map_filter_simps)
  qed (use Cons in \<open>simp add: map_filter_simps\<close>)
qed (simp add: map_filter_simps)

section \<open>The imported database\<close>

text \<open>
  A state file that a consistent store wrote: the keys of each map are distinct, rows are stored under their
  identifiers, and no inbox starts below zero.
\<close>

definition state_ok :: "persistent_state \<Rightarrow> bool" where
  "state_ok state \<longleftrightarrow>
     keys_distinct (ps_Agents state) \<and> keys_distinct (ps_AgentSecrets state) \<and> keys_distinct (ps_Messages state) \<and>
     keys_distinct (ps_Inboxes state) \<and> keys_distinct (ps_InboxBase state) \<and> keys_distinct (ps_Idempotency state) \<and>
     keys_distinct (ps_Conversations state) \<and> keys_distinct (ps_ConversationMessages state) \<and>
     (\<forall>(k, c) \<in> set (ps_Conversations state). c_ConversationID c = k) \<and>
     (\<forall>(k, a) \<in> set (ps_Agents state). a_AgentID a = k) \<and>
     (\<forall>(k, pm) \<in> set (ps_Messages state). m_MessageID (toMessage pm) = k) \<and>
     (\<forall>(k, base) \<in> set (ps_InboxBase state). 0 \<le> base)"

definition inbox_events :: "persistent_state \<Rightarrow> string \<Rightarrow> inbox_event list" where
  "inbox_events state a = filter (deliverable state) (get_or [] (ps_Inboxes state) a)"

lemma map_of_fold_keys:
  assumes "keys_distinct xs"
  shows "map_of (fold (\<lambda>(k, v). AList.update k (f k v)) xs acc) k =
    (case map_of xs k of Some v \<Rightarrow> Some (f k v) | None \<Rightarrow> map_of acc k)"
  using assms
proof (induction xs arbitrary: acc)
  case (Cons x xs)
  obtain k0 v0 where x: "x = (k0, v0)" by (cases x)
  have "map_of xs k0 = None" using Cons.prems by (simp add: x map_of_eq_None_iff)
  with Cons show ?case by (auto simp: x split: option.splits)
qed simp

lemma deliveries_of_target:
  assumes "keys_distinct xs"
  shows "filter (\<lambda>d. dl_target_agent_id d = a) (concat (map (inbox_deliveries cfg state) xs)) =
    (case map_of xs a of Some inbox \<Rightarrow> inbox_deliveries cfg state (a, inbox) | None \<Rightarrow> [])"
  using assms
proof (induction xs)
  case (Cons x xs)
  obtain b inbox where x: "x = (b, inbox)" by (cases x)
  have "filter (\<lambda>d. dl_target_agent_id d = a) (inbox_deliveries cfg state (b, inbox)) =
      (if b = a then inbox_deliveries cfg state (b, inbox) else [])"
    by (simp add: inbox_deliveries_def filter_map comp_def)
  moreover have "map_of xs b = None" using Cons.prems by (simp add: x map_of_eq_None_iff)
  ultimately show ?case using Cons by (auto simp: x)
qed simp

lemma distinct_delivery_keys:
  assumes "keys_distinct xs"
  shows "distinct (map (\<lambda>d. (dl_target_agent_id d, dl_delivery_seq d)) (concat (map (inbox_deliveries cfg state) xs)))"
  using assms
proof (induction xs)
  case (Cons x xs)
  let ?key = "\<lambda>d. (dl_target_agent_id d, dl_delivery_seq d)"
  have "distinct (map fst (enumerate 0 ys))" for ys :: "inbox_event list" by simp
  then have "inj_on fst (set (enumerate 0 ys))" "distinct (enumerate 0 ys)" for ys :: "inbox_event list"
    by (simp_all only: distinct_map)
  then have own: "distinct (map ?key (inbox_deliveries cfg state x))"
    by (auto simp: inbox_deliveries_def comp_def distinct_map inj_on_def)
  have target: "dl_target_agent_id d = fst y" if "d \<in> set (inbox_deliveries cfg state y)" for d y
    using that by (auto simp: inbox_deliveries_def)
  have "dl_target_agent_id d \<noteq> fst x" if "d \<in> set (concat (map (inbox_deliveries cfg state) xs))" for d
  proof -
    from that obtain y where "y \<in> set xs" "d \<in> set (inbox_deliveries cfg state y)" by auto
    then show ?thesis using target [of d y] Cons.prems by force
  qed
  then show ?case using Cons own target [of _ x] by (auto simp del: set_concat) blast
qed simp

lemma delivery_ids:
  "map dl_message_id (concat (map (inbox_deliveries cfg state) xs)) =
     map i_MessageID (concat (map (\<lambda>(a, inbox). filter (deliverable state) inbox) xs))"
proof -
  have "map dl_message_id (inbox_deliveries cfg state x) = map i_MessageID (filter (deliverable state) (snd x))" for x
    by (simp add: inbox_deliveries_def comp_def flip: map_map [of i_MessageID snd, unfolded comp_def])
  then show ?thesis by (induction xs) auto
qed

text \<open>The conversations, and the links of their messages.\<close>

lemma conversation_frames [simp]:
  "t_conversations (saveAgentTo a db) = t_conversations db" "t_conversations (import_secret e db) = t_conversations db"
  "t_conversations (saveMessageTo m db) = t_conversations db" "t_conversations (import_links l db) = t_conversations db"
  "t_conversations (saveCountersTo nc nm db) = t_conversations db"
  "t_conversation_messages (saveAgentTo a db) = t_conversation_messages db"
  "t_conversation_messages (import_secret e db) = t_conversation_messages db"
  "t_conversation_messages (saveConversationTo c db) = t_conversation_messages db"
  "t_conversation_messages (saveMessageTo m db) = t_conversation_messages db"
  "t_conversation_messages (saveCountersTo nc nm db) = t_conversation_messages db"
  by (auto simp: saveAgentTo_def import_secret_def saveConversationTo_def saveMessageTo_def saveCountersTo_def
      import_links_def saveConversationMessageTo_def split: option.split intro!: fold_keeps_eq)

lemma import_conversations:
  assumes "keys_distinct xs" and "\<forall>(k, c) \<in> set xs. c_ConversationID c = k"
  shows "map_of (t_conversations (fold (\<lambda>(k, c). saveConversationTo c) xs db)) k =
    (case map_of xs k of Some c \<Rightarrow> Some (c\<lparr>c_Meta := nullableJSON (c_Meta c)\<rparr>) | None \<Rightarrow> map_of (t_conversations db) k)"
proof -
  have "t_conversations (fold (\<lambda>(k, c). saveConversationTo c) xs db) =
      fold (\<lambda>(k, c). AList.update (c_ConversationID c) (c\<lparr>c_Meta := nullableJSON (c_Meta c)\<rparr>)) xs (t_conversations db)"
    by (induction xs arbitrary: db) (auto simp: saveConversationTo_def)
  then show ?thesis using map_of_fold_update [OF assms] by simp
qed

definition link_rows :: "string \<times> string list \<Rightarrow> link_row list" where
  "link_rows entry = map (\<lambda>(position, mid).
     \<lparr>lk_conversation_id = fst entry, lk_message_id = mid, lk_position = int position\<rparr>) (enumerate 0 (snd entry))"

lemma import_links_rows:
  assumes "\<forall>l \<in> set (t_conversation_messages db). lk_conversation_id l \<noteq> fst entry"
  shows "t_conversation_messages (import_links entry db) = t_conversation_messages db @ link_rows entry"
proof -
  have "t_conversation_messages (fold (\<lambda>(position, mid). saveConversationMessageTo c mid (int position)) (enumerate n mids) db) =
      t_conversation_messages db @ map (\<lambda>(position, mid).
        \<lparr>lk_conversation_id = c, lk_message_id = mid, lk_position = int position\<rparr>) (enumerate n mids)"
    if "\<forall>l \<in> set (t_conversation_messages db). lk_conversation_id l = c \<longrightarrow> lk_position l < int n" for c n mids
    using that
  proof (induction mids arbitrary: n db)
    case (Cons mid mids)
    let ?db = "saveConversationMessageTo c mid (int n) db"
    have "filter (\<lambda>l. \<not> (lk_conversation_id l = c \<and> lk_position l = int n)) (t_conversation_messages db) =
        t_conversation_messages db"
      using Cons.prems by (intro filter_True) auto
    then have new: "t_conversation_messages ?db = t_conversation_messages db @
        [\<lparr>lk_conversation_id = c, lk_message_id = mid, lk_position = int n\<rparr>]"
      by (simp add: saveConversationMessageTo_def)
    have "\<forall>l \<in> set (t_conversation_messages ?db). lk_conversation_id l = c \<longrightarrow> lk_position l < int (Suc n)"
      using Cons.prems unfolding new by auto
    from Cons.IH [OF this] show ?case by (simp add: new)
  qed simp
  from this [of "fst entry" 0 "snd entry"] show ?thesis using assms by (simp add: import_links_def link_rows_def)
qed

lemma import_all_links:
  assumes "keys_distinct xs" and "\<forall>l \<in> set (t_conversation_messages db). lk_conversation_id l \<notin> fst ` set xs"
  shows "t_conversation_messages (fold import_links xs db) = t_conversation_messages db @ concat (map link_rows xs)"
  using assms
proof (induction xs arbitrary: db)
  case (Cons x xs)
  have x: "t_conversation_messages (import_links x db) = t_conversation_messages db @ link_rows x"
    using Cons.prems(2) by (intro import_links_rows) auto
  have fresh: "fst x \<notin> fst ` set xs" using Cons.prems(1) by simp
  have "\<forall>l \<in> set (t_conversation_messages (import_links x db)). lk_conversation_id l \<notin> fst ` set xs"
  proof
    fix l assume "l \<in> set (t_conversation_messages (import_links x db))"
    then have "l \<in> set (t_conversation_messages db) \<or> lk_conversation_id l = fst x"
      unfolding x by (auto simp: link_rows_def)
    then show "lk_conversation_id l \<notin> fst ` set xs"
    proof
      assume "l \<in> set (t_conversation_messages db)"
      with Cons.prems(2) show ?thesis by simp
    next
      assume "lk_conversation_id l = fst x"
      with fresh show ?thesis by (simp only: simp_thms)
    qed
  qed
  from Cons.IH [OF _ this] Cons.prems(1) show ?case by (simp add: x)
qed simp

lemma link_rows_iff:
  assumes "keys_distinct xs"
  shows "l \<in> set (concat (map link_rows xs)) \<longleftrightarrow>
    (\<exists>i < length (get_or [] xs (lk_conversation_id l)). lk_position l = int i \<and>
       get_or [] xs (lk_conversation_id l) ! i = lk_message_id l)" (is "?l \<longleftrightarrow> ?r")
proof
  assume ?l
  then obtain c mids i where "(c, mids) \<in> set xs" "i < length mids"
    "l = \<lparr>lk_conversation_id = c, lk_message_id = mids ! i, lk_position = int i\<rparr>"
    by (auto simp: link_rows_def in_set_enumerate_eq)
  with assms show ?r by (auto simp: get_or_def)
next
  assume ?r
  then obtain i where i: "i < length (get_or [] xs (lk_conversation_id l))" "lk_position l = int i"
    "get_or [] xs (lk_conversation_id l) ! i = lk_message_id l" by blast
  then obtain mids where m: "map_of xs (lk_conversation_id l) = Some mids" "get_or [] xs (lk_conversation_id l) = mids"
    by (cases "map_of xs (lk_conversation_id l)") (auto simp: get_or_def)
  have "l \<in> set (link_rows (lk_conversation_id l, mids))"
    using i unfolding m(2) by (auto simp: link_rows_def in_set_enumerate_eq intro!: image_eqI [of _ _ "(i, lk_message_id l)"])
  then show ?l using map_of_SomeD [OF m(1)] by force
qed

lemma import_tables_conversations:
  assumes "state_ok state"
  shows "map_of (t_conversations (import_tables R state empty_db)) k =
      map_option (\<lambda>c. c\<lparr>c_Meta := nullableJSON (c_Meta c)\<rparr>) (map_of (ps_Conversations state) k)"
    "l \<in> set (t_conversation_messages (import_tables R state empty_db)) \<longleftrightarrow>
      (\<exists>i < length (get_or [] (ps_ConversationMessages state) (lk_conversation_id l)). lk_position l = int i \<and>
         get_or [] (ps_ConversationMessages state) (lk_conversation_id l) ! i = lk_message_id l)"
    "get_or 0 (t_counters (import_tables R state empty_db)) ''next_conversation_id'' = ps_NextConversationID state"
proof -
  note ok = assms [unfolded state_ok_def]
  have keep: "t_conversations (fold f xs db) = t_conversations db" if "\<And>x db. t_conversations (f x db) = t_conversations db"
    for f :: "'x \<Rightarrow> sqldb \<Rightarrow> sqldb" and xs db
    by (rule fold_keeps_eq) (rule that)
  have keep_l: "t_conversation_messages (fold f xs db) = t_conversation_messages db"
    if "\<And>x db. t_conversation_messages (f x db) = t_conversation_messages db"
    for f :: "'x \<Rightarrow> sqldb \<Rightarrow> sqldb" and xs db
    by (rule fold_keeps_eq) (rule that)
  show "map_of (t_conversations (import_tables R state empty_db)) k =
      map_option (\<lambda>c. c\<lparr>c_Meta := nullableJSON (c_Meta c)\<rparr>) (map_of (ps_Conversations state) k)"
    unfolding import_tables_def conversation_frames
    by (subst keep, simp, subst keep, simp add: case_prod_unfold, subst import_conversations)
      (use ok in \<open>auto simp: map_of_range_items keep case_prod_unfold empty_db_def split: option.split\<close>)
  let ?db = "fold (\<lambda>(k, pm). saveMessageTo (toMessage pm)) (range_items (R 3) (ps_Messages state))
    (fold (\<lambda>(k, c). saveConversationTo c) (range_items (R 2) (ps_Conversations state))
      (fold import_secret (range_items (R 1) (ps_AgentSecrets state))
        (fold (\<lambda>(k, a). saveAgentTo a) (range_items (R 0) (ps_Agents state)) empty_db)))"
  have "t_conversation_messages ?db = []"
    by (simp add: keep_l case_prod_unfold empty_db_def)
  then have links: "t_conversation_messages (import_tables R state empty_db) =
      concat (map link_rows (range_items (R 4) (ps_ConversationMessages state)))"
    unfolding import_tables_def conversation_frames by (subst import_all_links) (use ok in simp_all)
  show "l \<in> set (t_conversation_messages (import_tables R state empty_db)) \<longleftrightarrow>
      (\<exists>i < length (get_or [] (ps_ConversationMessages state) (lk_conversation_id l)). lk_position l = int i \<and>
         get_or [] (ps_ConversationMessages state) (lk_conversation_id l) ! i = lk_message_id l)"
    unfolding links by (subst link_rows_iff) (use ok in \<open>simp_all add: get_or_def map_of_range_items\<close>)
  show "get_or 0 (t_counters (import_tables R state empty_db)) ''next_conversation_id'' = ps_NextConversationID state"
    by (simp add: import_tables_def saveCountersTo_def get_or_def)
qed

text \<open>The receipts: one for each request whose names do not contain the separator.\<close>

definition imported_receipt :: "config \<Rightarrow> string \<Rightarrow> string \<Rightarrow> string \<Rightarrow> idempotency_entry \<Rightarrow> receipt_row" where
  "imported_receipt cfg from to rid e =
     \<lparr>id_from_agent = from, id_to_agent = to, id_request_id = rid, id_message_id = ie_MessageID e,
      id_accepted_at = ie_CreatedAt e,
      id_expires_at = Add (ie_CreatedAt e) (if cfg_IdempotencyWindow cfg \<le> 0 then 24 * Hour else cfg_IdempotencyWindow cfg)\<rparr>"

lemma receipt_of_imported:
  assumes "CHR 0x1F \<notin> set from \<union> set to \<union> set rid"
  shows "receipt_of cfg (dedupeKey from to rid, e) = Some (imported_receipt cfg from to rid e)"
  using assms by (simp add: receipt_of_def imported_receipt_def dedupeKey_def Split_append Split_no_sep)

lemma imported_receipts_iff:
  assumes "keys_distinct xs" and sep: "CHR 0x1F \<notin> set from \<union> set to \<union> set rid"
  shows "imported_receipt cfg from to rid e \<in> set (List.map_filter (receipt_of cfg) xs) \<longleftrightarrow>
    map_of xs (dedupeKey from to rid) = Some e"
proof
  assume "imported_receipt cfg from to rid e \<in> set (List.map_filter (receipt_of cfg) xs)"
  then obtain k e' where ke: "(k, e') \<in> set xs" "receipt_of cfg (k, e') = Some (imported_receipt cfg from to rid e)"
    by (auto simp: List.map_filter_def)
  have k: "k = dedupeKey from to rid" using receipt_of_key [OF ke(2)] by (simp add: imported_receipt_def)
  then have "imported_receipt cfg from to rid e' = imported_receipt cfg from to rid e"
    using ke(2) receipt_of_imported [OF sep, of cfg e'] by simp
  then have "e' = e" by (simp add: imported_receipt_def)
  with ke(1) k assms(1) show "map_of xs (dedupeKey from to rid) = Some e" by simp
next
  assume "map_of xs (dedupeKey from to rid) = Some e"
  then have "(dedupeKey from to rid, e) \<in> set xs" by (rule map_of_SomeD)
  then show "imported_receipt cfg from to rid e \<in> set (List.map_filter (receipt_of cfg) xs)"
    using receipt_of_imported [OF sep, of cfg e] by (force simp: List.map_filter_def)
qed

text \<open>The tables after the loops over inboxes, bases and receipts, and what they hold for an agent.\<close>

lemma import_tables_rows:
  assumes "state_ok state"
  shows "map_of (t_messages (import_tables R state empty_db)) k =
      map_option (\<lambda>pm. message_row (toMessage pm)) (map_of (ps_Messages state) k)"
    "map_of (t_agents (import_tables R state empty_db)) k =
      map_option (\<lambda>a. \<lparr>ar_agent = a, ar_secret = get_or [] (ps_AgentSecrets state) k\<rparr>) (map_of (ps_Agents state) k)"
    "get_or 0 (t_counters (import_tables R state empty_db)) ''next_message_id'' = ps_NextMessageID state"
    "db_inv (import_tables R state empty_db)"
proof -
  note ok = assms [unfolded state_ok_def]
  let ?agents = "fold (\<lambda>(k, a). saveAgentTo a) (range_items (R 0) (ps_Agents state)) empty_db"
  have ag: "map_of (t_agents ?agents) k = map_option (\<lambda>a. \<lparr>ar_agent = a, ar_secret = []\<rparr>) (map_of (ps_Agents state) k)"
    using ok by (subst import_agents) (auto simp: map_of_range_items empty_db_def split: option.split)
  have keep: "t_messages (fold f xs db) = t_messages db" if "\<And>x db. t_messages (f x db) = t_messages db"
    for f :: "'x \<Rightarrow> sqldb \<Rightarrow> sqldb" and xs db
    by (rule fold_keeps_eq) (rule that)
  have keep_a: "t_agents (fold f xs db) = t_agents db" if "\<And>x db. t_agents (f x db) = t_agents db"
    for f :: "'x \<Rightarrow> sqldb \<Rightarrow> sqldb" and xs db
    by (rule fold_keeps_eq) (rule that)
  show "map_of (t_messages (import_tables R state empty_db)) k =
      map_option (\<lambda>pm. message_row (toMessage pm)) (map_of (ps_Messages state) k)"
    unfolding import_tables_def table_frames
    by (subst keep, simp, subst import_messages)
      (use ok in \<open>auto simp: map_of_range_items keep case_prod_unfold empty_db_def split: option.split\<close>)
  show "map_of (t_agents (import_tables R state empty_db)) k =
      map_option (\<lambda>a. \<lparr>ar_agent = a, ar_secret = get_or [] (ps_AgentSecrets state) k\<rparr>) (map_of (ps_Agents state) k)"
    unfolding import_tables_def table_frames
    using ok ag by (subst keep_a, simp, subst keep_a, simp add: case_prod_unfold, subst keep_a, simp add: case_prod_unfold)
      (auto simp: import_secrets map_of_range_items get_or_def split: option.split)
  show "get_or 0 (t_counters (import_tables R state empty_db)) ''next_message_id'' = ps_NextMessageID state"
    by (simp add: import_tables_def saveCountersTo_def get_or_def)
  show "db_inv (import_tables R state empty_db)"
    using follows_import_tables [of Administered] db_inv_empty by (simp add: follows_def)
qed

definition import_cursors :: "orders \<Rightarrow> persistent_state \<Rightarrow> cursor_row gomap" where
  "import_cursors R state =
     fold (\<lambda>(a, base). AList.update a \<lparr>dc_next_seq = base, dc_acknowledged_cursor = base\<rparr>)
       (filter (\<lambda>(a, base). \<not> has_key (ps_Inboxes state) a) (range_items (R 6) (ps_InboxBase state)))
       (fold (\<lambda>(a, inbox). AList.update a
            \<lparr>dc_next_seq = get_or 0 (ps_InboxBase state) a + int (length (filter (deliverable state) inbox)),
             dc_acknowledged_cursor = get_or 0 (ps_InboxBase state) a\<rparr>) (range_items (R 5) (ps_Inboxes state)) [])"

definition import_result :: "orders \<Rightarrow> config \<Rightarrow> time \<Rightarrow> persistent_state \<Rightarrow> sqldb" where
  "import_result R cfg now state =
     (import_tables R state empty_db)
       \<lparr>t_delivery_cursors := import_cursors R state,
        t_deliveries := concat (map (inbox_deliveries cfg state) (range_items (R 5) (ps_Inboxes state))),
        t_idempotency := List.map_filter (receipt_of cfg) (range_items (R 7) (ps_Idempotency state)),
        t_schema_migrations := [(durableDeliveryBackfill, now)]\<rparr>"

lemma cursor_of_import:
  assumes "state_ok state"
  shows "cursor_of a (import_result R cfg now state) =
    \<lparr>dc_next_seq = get_or 0 (ps_InboxBase state) a + int (length (inbox_events state a)),
     dc_acknowledged_cursor = get_or 0 (ps_InboxBase state) a\<rparr>"
proof -
  note ok = assms [unfolded state_ok_def]
  have f: "map_of (filter (\<lambda>(a, base). \<not> has_key (ps_Inboxes state) a) (range_items (R 6) (ps_InboxBase state))) a =
      (if has_key (ps_Inboxes state) a then None else map_of (ps_InboxBase state) a)"
    using ok by (simp add: map_of_filter_distinct map_of_range_items split: option.split)
  have "keys_distinct (filter (\<lambda>(a, base). \<not> has_key (ps_Inboxes state) a) (range_items (R 6) (ps_InboxBase state)))"
    using ok by (intro keys_distinct_filter) simp
  with ok have "map_of (import_cursors R state) a =
      (case map_of (ps_Inboxes state) a of
         Some inbox \<Rightarrow> Some \<lparr>dc_next_seq = get_or 0 (ps_InboxBase state) a + int (length (filter (deliverable state) inbox)),
                            dc_acknowledged_cursor = get_or 0 (ps_InboxBase state) a\<rparr>
       | None \<Rightarrow> map_option (\<lambda>b. \<lparr>dc_next_seq = b, dc_acknowledged_cursor = b\<rparr>) (map_of (ps_InboxBase state) a))"
    unfolding import_cursors_def
    by (simp add: map_of_fold_keys f map_of_range_items del: map_of_eq_Some_iff split: option.split) (simp add: has_key_def)
  then show ?thesis
    by (simp add: import_result_def cursor_of_def get_or_def inbox_events_def del: map_of_eq_Some_iff split: option.split)
qed

lemma empty_db_tables [simp]:
  "t_deliveries empty_db = []" "t_delivery_cursors empty_db = []" "t_idempotency empty_db = []"
  "t_schema_migrations empty_db = []"
  by (simp_all add: empty_db_def)

lemma import_fits:
  assumes "state_ok state"
    and "distinct (map i_MessageID (concat (map (\<lambda>(a, inbox). filter (deliverable state) inbox) (ps_Inboxes state))))"
  shows "distinct (map dl_message_id (t_deliveries (import_result R cfg now state)))"
    "importStateToSQLite None R cfg now state empty_db = Inr (import_result R cfg now state)"
proof -
  note ok = assms(1) [unfolded state_ok_def]
  let ?in = "range_items (R 5) (ps_Inboxes state)" and ?ids = "\<lambda>(a, inbox). filter (deliverable state) inbox"
  let ?db = "import_tables R state empty_db"
  have "mset (concat (map ?ids ?in)) = mset (concat (map ?ids (ps_Inboxes state)))"
    by (simp add: range_items_def mset_concat sum_mset_sum_list [symmetric])
  then have "distinct (map i_MessageID (concat (map ?ids ?in)))"
    using assms(2) by (metis mset_eq_imp_distinct_iff mset_map)
  then have d: "distinct (map dl_message_id (concat (map (inbox_deliveries cfg state) ?in)))"
    by (simp only: delivery_ids)
  then show "distinct (map dl_message_id (t_deliveries (import_result R cfg now state)))" by (simp add: import_result_def)
  have e: "t_deliveries ?db = []" "t_delivery_cursors ?db = []" "t_idempotency ?db = []" "t_schema_migrations ?db = []"
    by simp_all
  have known: "\<forall>k. has_key (ps_Messages state) k \<longrightarrow> has_key (t_messages ?db) k"
    using import_tables_rows(1) [OF assms(1)] by (simp add: has_key_def)
  let ?cur = "fold (\<lambda>(a, inbox). AList.update a
      \<lparr>dc_next_seq = get_or 0 (ps_InboxBase state) a + int (length (filter (deliverable state) inbox)),
       dc_acknowledged_cursor = get_or 0 (ps_InboxBase state) a\<rparr>) ?in []"
  let ?db1 = "?db\<lparr>t_delivery_cursors := ?cur, t_deliveries := concat (map (inbox_deliveries cfg state) ?in)\<rparr>"
  have keys: "keys_distinct ?in" using ok by simp
  have fresh: "fst ` set ?in \<inter> fst ` set (t_delivery_cursors ?db) = {}"
    "fst ` set ?in \<inter> dl_target_agent_id ` set (t_deliveries ?db) = {}" unfolding e by simp_all
  have "distinct (map dl_message_id (t_deliveries ?db @ concat (map (inbox_deliveries cfg state) ?in)))"
    unfolding e append_Nil by (rule d)
  from import_inboxes [OF keys fresh known this] have "each_row (import_inbox cfg state) ?in ?db = Inr ?db1"
    unfolding e append_Nil .
  moreover have "\<not> has_key ?cur a" if "\<not> has_key (ps_Inboxes state) a" for a
    using ok that by (auto simp: has_key_def map_of_fold_keys map_of_range_items split: option.split)
  then have "each_row (import_base state) (range_items (R 6) (ps_InboxBase state)) ?db1 =
      Inr (?db1\<lparr>t_delivery_cursors := import_cursors R state\<rparr>)" (is "_ = Inr ?db2")
    using ok by (subst import_bases) (auto simp: import_cursors_def)
  moreover have "each_row (import_receipt cfg) (range_items (R 7) (ps_Idempotency state)) ?db2 =
      Inr (?db2\<lparr>t_idempotency := List.map_filter (receipt_of cfg) (range_items (R 7) (ps_Idempotency state))\<rparr>)"
    using ok by (subst import_receipts) (simp_all add: e)
  ultimately show "importStateToSQLite None R cfg now state empty_db = Inr (import_result R cfg now state)"
    by (simp add: importStateToSQLite_def mark_backfilled_def e has_key_def import_result_def)
qed

lemma import_result_inv:
  assumes "state_ok state" and "distinct (map dl_message_id (t_deliveries (import_result R cfg now state)))"
  shows "db_inv (import_result R cfg now state)"
proof -
  note ok = assms(1) [unfolded state_ok_def]
  let ?db = "import_result R cfg now state"
  have base: "0 \<le> get_or 0 (ps_InboxBase state) a" for a
    using ok by (auto simp: get_or_def dest: map_of_SomeD split: option.split)
  have tables: "db_inv (import_tables R state empty_db)" by (rule import_tables_rows(4) [OF assms(1)])
  have d: "has_key (t_messages ?db) (dl_message_id d) \<and> 0 \<le> dl_delivery_seq d \<and>
      dl_delivery_seq d < dc_next_seq (cursor_of (dl_target_agent_id d) ?db)" if "d \<in> set (t_deliveries ?db)" for d
  proof -
    from that obtain a inbox i e where x: "(a, inbox) \<in> set (ps_Inboxes state)"
      "(i, e) \<in> set (enumerate 0 (filter (deliverable state) inbox))"
      "d = import_row cfg state a (get_or 0 (ps_InboxBase state) a) (i, e)"
      by (auto simp: import_result_def inbox_deliveries_def)
    have "get_or [] (ps_Inboxes state) a = inbox" using ok x(1) by (simp add: get_or_def)
    then have "(i, e) \<in> set (enumerate 0 (inbox_events state a))" using x(2) by (simp add: inbox_events_def)
    then have e: "e \<in> set (inbox_events state a)" "i < length (inbox_events state a)"
      by (auto simp: in_set_enumerate_eq)
    then have "deliverable state e" by (simp add: inbox_events_def)
    from deliverable_known [OF this] have "has_key (t_messages ?db) (i_MessageID e)"
      using import_tables_rows(1) [OF assms(1), of R] by (simp add: import_result_def has_key_def)
    then show ?thesis using e(2) base [of a] by (simp add: x(3) cursor_of_import [OF assms(1)])
  qed
  have "distinct (map (\<lambda>d. (dl_target_agent_id d, dl_delivery_seq d)) (t_deliveries ?db))"
    using distinct_delivery_keys [of "range_items (R 5) (ps_Inboxes state)" cfg state] ok
    by (simp add: import_result_def del: set_concat map_concat)
  with assms(2) d have "deliveries_ok ?db" by (simp add: deliveries_ok_def)
  moreover have "cursors_ok ?db" using base by (simp add: cursors_ok_def cursor_of_import [OF assms(1)])
  moreover have "rows_ok ?db" "distinct (map link_key (t_conversation_messages ?db))"
    using tables by (simp_all add: db_inv_def rows_ok_def import_result_def)
  moreover have "distinct (map receipt_key (t_idempotency ?db))"
    using ok receipts_distinct [of "range_items (R 7) (ps_Idempotency state)" cfg] by (simp add: import_result_def)
  ultimately show ?thesis by (simp add: db_inv_def)
qed

text \<open>
  C11. What the import of a state file keeps, and what it changes. For a consistent file in which no message is buffered twice,
  the import succeeds, whatever order the maps are visited in; the new database is consistent and marked as
  complete. It holds every message with its lifecycle fields, every agent with its secret, every
  conversation, every message of a conversation at its place in it, both identifier counters,
  and for each sender, recipient and request identifier without the separator byte a
  receipt exactly when the file has an entry for them. Each agent's deliveries are
  exactly the buffered events that are still owed to it, pending, in the order of its inbox; their sequence numbers
  are counted from the base of the inbox over these events only. So when an event before them was dropped
  because its request is executing or finished, they move down to smaller positions than they had in the
  inbox: the cursor a client has from before the import is not preserved.
\<close>

theorem import_faithful:
  assumes "state_ok state"
    and "distinct (map i_MessageID (concat (map (\<lambda>(a, inbox). filter (deliverable state) inbox) (ps_Inboxes state))))"
  shows "\<exists>db. importStateToSQLite None R cfg now state empty_db = Inr db \<and> db_inv db \<and>
    has_key (t_schema_migrations db) durableDeliveryBackfill \<and>
    (\<forall>k. map_of (t_messages db) k = map_option (\<lambda>pm. message_row (toMessage pm)) (map_of (ps_Messages state) k)) \<and>
    (\<forall>k. map_of (t_agents db) k =
       map_option (\<lambda>a. \<lparr>ar_agent = a, ar_secret = get_or [] (ps_AgentSecrets state) k\<rparr>) (map_of (ps_Agents state) k)) \<and>
    (\<forall>k. map_of (t_conversations db) k =
       map_option (\<lambda>c. c\<lparr>c_Meta := nullableJSON (c_Meta c)\<rparr>) (map_of (ps_Conversations state) k)) \<and>
    (\<forall>cid position mid.
       \<lparr>lk_conversation_id = cid, lk_message_id = mid, lk_position = position\<rparr> \<in> set (t_conversation_messages db) \<longleftrightarrow>
       (\<exists>i < length (get_or [] (ps_ConversationMessages state) cid).
          position = int i \<and> get_or [] (ps_ConversationMessages state) cid ! i = mid)) \<and>
    get_or 0 (t_counters db) ''next_message_id'' = ps_NextMessageID state \<and>
    get_or 0 (t_counters db) ''next_conversation_id'' = ps_NextConversationID state \<and>
    (\<forall>from to rid e. CHR 0x1F \<notin> set from \<union> set to \<union> set rid \<longrightarrow>
       (map_of (ps_Idempotency state) (dedupeKey from to rid) = Some e \<longleftrightarrow>
          imported_receipt cfg from to rid e \<in> set (t_idempotency db))) \<and>
    (\<forall>a. let base = get_or 0 (ps_InboxBase state) a;
             events = filter (deliverable state) (get_or [] (ps_Inboxes state) a) in
       cursor_of a db = \<lparr>dc_next_seq = base + int (length events), dc_acknowledged_cursor = base\<rparr> \<and>
       map (\<lambda>d. (dl_message_id d, dl_delivery_seq d, dl_status d))
           (filter (\<lambda>d. dl_target_agent_id d = a) (t_deliveries db)) =
         map (\<lambda>(i, e). (i_MessageID e, base + int i, DeliveryPending)) (enumerate 0 events))"
proof -
  let ?db = "import_result R cfg now state"
  have keys: "keys_distinct (range_items (R 5) (ps_Inboxes state))" using assms(1) by (simp add: state_ok_def)
  have dl: "filter (\<lambda>d. dl_target_agent_id d = a) (t_deliveries ?db) =
      inbox_deliveries cfg state (a, get_or [] (ps_Inboxes state) a)" for a
    using deliveries_of_target [OF keys, of a cfg state] keys
    by (auto simp: import_result_def map_of_range_items get_or_def inbox_deliveries_def split: option.splits)
  show ?thesis
  proof (intro exI [of _ ?db] conjI)
    show "importStateToSQLite None R cfg now state empty_db = Inr ?db" by (rule import_fits(2) [OF assms])
    show "db_inv ?db" by (rule import_result_inv [OF assms(1) import_fits(1) [OF assms]])
    show "\<forall>a. let base = get_or 0 (ps_InboxBase state) a;
             events = filter (deliverable state) (get_or [] (ps_Inboxes state) a) in
       cursor_of a ?db = \<lparr>dc_next_seq = base + int (length events), dc_acknowledged_cursor = base\<rparr> \<and>
       map (\<lambda>d. (dl_message_id d, dl_delivery_seq d, dl_status d))
           (filter (\<lambda>d. dl_target_agent_id d = a) (t_deliveries ?db)) =
         map (\<lambda>(i, e). (i_MessageID e, base + int i, DeliveryPending)) (enumerate 0 events)"
      by (simp add: dl cursor_of_import [OF assms(1)] inbox_events_def inbox_deliveries_def Let_def comp_def case_prod_unfold)
    have "keys_distinct (range_items (R 7) (ps_Idempotency state))" "keys_distinct (ps_Idempotency state)"
      using assms(1) by (simp_all add: state_ok_def)
    then show "\<forall>from to rid e. CHR 0x1F \<notin> set from \<union> set to \<union> set rid \<longrightarrow>
       (map_of (ps_Idempotency state) (dedupeKey from to rid) = Some e \<longleftrightarrow>
          imported_receipt cfg from to rid e \<in> set (t_idempotency ?db))"
      by (simp add: import_result_def imported_receipts_iff map_of_range_items del: map_of_eq_Some_iff)
  qed (simp_all add: import_result_def has_key_def import_tables_rows [OF assms(1)] import_tables_conversations [OF assms(1)])
qed

text \<open>A file that a consistent store wrote is consistent.\<close>

lemma snapshot_state_ok:
  assumes "bus_inv (pst_inner p)" and "secrets_ok (pst_agentSecrets p)"
    and "keys_distinct (s_inboxes (pst_inner p))" and "keys_distinct (s_inboxBase (pst_inner p))"
    and "keys_distinct (s_conversations (pst_inner p))" and "keys_distinct (s_conversationMessages (pst_inner p))"
  shows "state_ok (json_state (stateSnapshot p))"
proof -
  let ?s = "pst_inner p"
  have "\<forall>(k, a) \<in> set (s_agents ?s). a_AgentID a = k" "\<forall>(k, m) \<in> set (s_messages ?s). m_MessageID m = k"
    using assms(1) by (auto simp: bus_inv_def agents_inv_def agent_ok_def messages_inv_def)
  moreover have "\<forall>(k, base) \<in> set (s_inboxBase ?s). 0 \<le> base"
  proof clarify
    fix k base assume "(k, base) \<in> set (s_inboxBase ?s)"
    with assms(4) have "inbox_base ?s k = base" by (simp add: get_or_def)
    then show "0 \<le> base" using assms(1) by (auto simp: bus_inv_def inbox_inv_def inbox_ok_def)
  qed
  moreover have "\<forall>(k, c) \<in> set (s_conversations ?s). c_ConversationID c = k"
    using assms(1,5) links_inv_conversation(1) [of ?s] by (auto simp: bus_inv_def)
  ultimately show ?thesis
    using assms by (auto simp: state_ok_def json_state_def stateSnapshot_def Let_def map_values_def json_agent_def
        bus_inv_def agents_inv_def messages_inv_def idempotency_inv_def secrets_ok_def comp_def case_prod_unfold)
qed

lemma ex3_inboxes:
  "s_inboxes ex3 = [(''ucla.a'', []), (''ucla.b'', [inbox_event_of ex_message])]"
  "s_inboxBase ex3 = [(''ucla.a'', 0), (''ucla.b'', 0)]"
proof -
  have "evict_count inboxEventSize 10000 0 bytes [e] = 0" for bytes e by (simp add: evict_count_def)
  moreover have "s_cfg ex2 = normalize_config ex_config" using ex2_fields(1) by (simp add: same_policy_def ex_policy_def)
  ultimately show "s_inboxes ex3 = [(''ucla.a'', []), (''ucla.b'', [inbox_event_of ex_message])]"
    "s_inboxBase ex3 = [(''ucla.a'', 0), (''ucla.b'', 0)]"
    by (simp_all add: ex3_accepted accept_send_def install_message_def deliver_inbox_def publish_message_def
        push_and_finish_def ex_acceptance_def finishAcceptance_def Let_def appendInboxLocked_def ex_config_fields
        ex2_fields get_or_def) (simp_all add: ex_message_def)
qed

theorem import_faithful_witness:
  "\<exists>db. importStateToSQLite None (\<lambda>_ _. 0) ex_config ex_time (json_state (stateSnapshot ex_disk)) empty_db = Inr db \<and>
     map (\<lambda>d. (dl_message_id d, dl_delivery_seq d, dl_status d))
       (filter (\<lambda>d. dl_target_agent_id d = ''ucla.b'') (t_deliveries db)) = [(''m-000001'', 0, DeliveryPending)]"
proof -
  let ?st = "json_state (stateSnapshot ex_disk)"
  have ok: "state_ok ?st"
    by (rule snapshot_state_ok) (simp_all add: ex_disk_def ex_inv ex_secrets_ok ex3_inboxes ex3_fields)
  have ib: "ps_Inboxes ?st = [(''ucla.a'', []), (''ucla.b'', [inbox_event_of ex_message])]"
    "ps_InboxBase ?st = [(''ucla.a'', 0), (''ucla.b'', 0)]"
    by (simp_all add: json_state_def stateSnapshot_def ex_disk_def ex3_inboxes Let_def)
  have "map_option toMessage (map_of (ps_Messages ?st) ''m-000001'') = Some ex_message"
    by (simp add: json_state_def stateSnapshot_def ex_disk_def ex3_fields Let_def)
  then have dl: "deliverable ?st (inbox_event_of ex_message)"
    by (auto simp: deliverable_def inbox_event_of_def ex_message_def split: option.split)
  then have "distinct (map i_MessageID (concat (map (\<lambda>(a, inbox). filter (deliverable ?st) inbox) (ps_Inboxes ?st))))"
    by (simp add: ib)
  from import_faithful [OF ok this, of "\<lambda>_ _. 0" ex_config ex_time]
  obtain db where db: "importStateToSQLite None (\<lambda>_ _. 0) ex_config ex_time ?st empty_db = Inr db"
    and d: "\<forall>a. let base = get_or 0 (ps_InboxBase ?st) a; events = filter (deliverable ?st) (get_or [] (ps_Inboxes ?st) a) in
       cursor_of a db = \<lparr>dc_next_seq = base + int (length events), dc_acknowledged_cursor = base\<rparr> \<and>
       map (\<lambda>d. (dl_message_id d, dl_delivery_seq d, dl_status d)) (filter (\<lambda>d. dl_target_agent_id d = a) (t_deliveries db)) =
         map (\<lambda>(i, e). (i_MessageID e, base + int i, DeliveryPending)) (enumerate 0 events)"
    by (elim exE conjE) (rule that)
  have "map (\<lambda>d. (dl_message_id d, dl_delivery_seq d, dl_status d))
      (filter (\<lambda>d. dl_target_agent_id d = ''ucla.b'') (t_deliveries db)) = [(''m-000001'', 0, DeliveryPending)]"
    using spec [OF d, of "''ucla.b''"] dl by (simp add: ib get_or_def Let_def) (simp add: inbox_event_of_def ex_message_def)
  with db show ?thesis by (intro exI [of _ db] conjI)
qed

lemma remove_tmp_frames [simp]:
  "mf_db (remove_tmp removed fs) = mf_db fs" "mf_state (remove_tmp removed fs) = mf_state fs"
  "mf_migrated (remove_tmp removed fs) = mf_migrated fs"
  by (simp_all add: remove_tmp_def)

text \<open>
  C15. The migration happens once and completely. Whatever call fails and whatever an earlier attempt left
  behind, afterwards either there is still no database and the state file is untouched, so that the next start
  tries again, or there is a database with the whole state imported into it; the state file is renamed only
  in the second case, and a database that already exists is never touched.
\<close>

theorem migration_atomic:
  "case MigrateJSONStateToSQLite io R statePath dbPath cfg now fs of
     (res, fs') \<Rightarrow>
       (mf_db fs' = mf_db fs \<and> mf_state fs' = mf_state fs \<and> mf_migrated fs' = mf_migrated fs \<and> res \<noteq> Inr True) \<or>
       (mf_db fs = None \<and>
        (\<exists>state before db. mf_state fs = Some state \<and> importStateToSQLite None R cfg now state before = Inr db \<and>
           before \<in> insert empty_db (if mi_remove io then {} else set_option (mf_tmp fs)) \<and> mf_db fs' = Some db \<and>
           ((mf_state fs' = None \<and> mf_migrated fs' = Some state \<and> res = Inr True) \<or>
            (mf_state fs' = Some state \<and> (\<exists>err. res = Inl err)))))"
proof -
  let ?before = "case mf_tmp (remove_tmp (mi_remove io) fs) of Some db \<Rightarrow> db | None \<Rightarrow> empty_db"
  have b: "?before \<in> insert empty_db (if mi_remove io then {} else set_option (mf_tmp fs))"
    by (simp add: remove_tmp_def split: option.split)
  have none: "importStateToSQLite None R cfg now state before = Inr db"
    if "importStateToSQLite (mi_import io) R cfg now state before = Inr db" for state before db
    using that by (cases "mi_import io") (simp_all add: importStateToSQLite_def)
  show ?thesis
  proof (cases "mf_state fs")
    case None
    then show ?thesis by (auto simp: MigrateJSONStateToSQLite_def split: option.split)
  next
    case (Some state)
    show ?thesis
    proof (cases "importStateToSQLite (mi_import io) R cfg now state ?before")
      case (Inl err)
      then show ?thesis
        using Some by (auto simp: MigrateJSONStateToSQLite_def Let_def split: option.split)
    next
      case (Inr db)
      let ?go = "statePath \<noteq> [] \<and> dbPath \<noteq> [] \<and> mi_stat io = None \<and> mf_db fs = None \<and> mi_read io = None \<and>
        mi_unmarshal io = None \<and> mi_mkdir io = None \<and> mi_rename_db io = None"
      show ?thesis
      proof (cases ?go)
        case True
        let ?fs = "(remove_tmp (mi_remove io) fs)\<lparr>mf_tmp := None, mf_db := Some db\<rparr>"
        have res: "MigrateJSONStateToSQLite io R statePath dbPath cfg now fs =
            (case mi_rename_state io of
               Some err \<Rightarrow> (Inl (''rename migrated state file '' @ statePath @ '': '' @ err), ?fs)
             | None \<Rightarrow> (Inr True, ?fs\<lparr>mf_state := None, mf_migrated := Some state\<rparr>))"
          using True Some Inr by (simp add: MigrateJSONStateToSQLite_def Let_def)
        have fs: "mf_db ?fs = Some db" "mf_state ?fs = Some state" using Some by simp_all
        from b none [OF Inr] True Some show ?thesis
          unfolding res by (cases "mi_rename_state io") (auto simp: fs simp del: insert_iff)
      next
        case False
        have "mf_db fs' = mf_db fs \<and> mf_state fs' = mf_state fs \<and> mf_migrated fs' = mf_migrated fs \<and> res \<noteq> Inr True"
          if "MigrateJSONStateToSQLite io R statePath dbPath cfg now fs = (res, fs')" for res fs'
          using that False Some Inr unfolding MigrateJSONStateToSQLite_def Let_def
          by (cases "mi_stat io"; cases "mf_db fs"; cases "mi_read io"; cases "mi_unmarshal io"; cases "mi_mkdir io";
              cases "mi_rename_db io") (auto split: if_splits)
        then show ?thesis by (cases "MigrateJSONStateToSQLite io R statePath dbPath cfg now fs") simp
      qed
    qed
  qed
qed

end
