(* ===== verification/Sqlite_Maintenance.thy ===== *)
theory Sqlite_Maintenance
  imports Sqlite_Store
begin

text \<open>
  Maintenance of a database file: the columns that newer versions added (\<^verbatim>\<open>ensureAgentColumns\<close> and
  \<^verbatim>\<open>ensureMessageColumns\<close> in \<^verbatim>\<open>sqlite.go\<close>), and compaction (\<^verbatim>\<open>compact.go\<close> and \<^verbatim>\<open>cmd/pinakes-db-compact\<close>).
  The tables of \<open>Sqlite_Db\<close> have all columns; here a table is its list of columns and its rows, each a map
  from columns to values, where \<open>None\<close> is NULL.
\<close>

section \<open>Columns\<close>

record layout =
  ly_columns :: "string list"
  ly_rows :: "string option gomap list"

definition add_column :: "string \<Rightarrow> string option \<Rightarrow> layout \<Rightarrow> layout" where
  "add_column name dflt t =
     t\<lparr>ly_columns := ly_columns t @ [name], ly_rows := map (AList.update name dflt) (ly_rows t)\<rparr>"

text \<open>The columns to add with their defaults; \<open>alter\<close> is the error of a statement.\<close>

fun add_columns ::
  "(string \<Rightarrow> string option) \<Rightarrow> string list \<Rightarrow> (string \<times> string option) list \<Rightarrow> layout \<Rightarrow> string option \<times> layout" where
  "add_columns alter cols [] t = (None, t)"
| "add_columns alter cols ((name, dflt) # migrations) t =
     (if name \<in> set cols then add_columns alter cols migrations t
      else (case alter name of
              Some err \<Rightarrow> (Some err, t)
            | None \<Rightarrow> add_columns alter cols migrations (add_column name dflt t)))"

definition agent_migrations :: "(string \<times> string option) list" where
  "agent_migrations =
     [(''secret'', Some ''''), (''allowed_scopes'', Some ''[]''), (''shared_grants'', Some ''[]''),
      (''version'', Some ''''), (''agent_class'', Some ''''), (''mutation_class'', Some ''''),
      (''build'', None), (''meta'', None)]"

definition ensureAgentColumns ::
  "string option \<Rightarrow> (string \<Rightarrow> string option) \<Rightarrow> layout \<Rightarrow> string option \<times> layout" where
  "ensureAgentColumns query alter t =
     (case query of Some err \<Rightarrow> (Some err, t) | None \<Rightarrow> add_columns alter (ly_columns t) agent_migrations t)"

definition message_migrations :: "(string \<times> string option) list" where
  "message_migrations = [(''terminal_at'', Some '''')]"

definition ensureMessageColumns ::
  "string option \<Rightarrow> (string \<Rightarrow> string option) \<Rightarrow> layout \<Rightarrow> string option \<times> layout" where
  "ensureMessageColumns query alter t =
     (case query of Some err \<Rightarrow> (Some err, t) | None \<Rightarrow> add_columns alter (ly_columns t) message_migrations t)"

section \<open>Compaction\<close>

record sqlite_error =
  se_Code :: "int option"
  se_Text :: string

definition isSQLiteBusy :: "sqlite_error \<Rightarrow> bool" where
  "isSQLiteBusy err = (case se_Code err of None \<Rightarrow> False | Some code \<Rightarrow> code mod 256 = 5)"

record CompactReport =
  cr_DBPath :: string
  cr_PageSize :: int
  cr_PageCountBefore :: int
  cr_FreePagesBefore :: int
  cr_PageCountAfter :: int
  cr_FreePagesAfter :: int
  cr_AutoVacuumMode :: string

definition BytesBefore :: "CompactReport \<Rightarrow> int" where
  "BytesBefore r = wrap64 (cr_PageSize r * cr_PageCountBefore r)"

definition BytesAfter :: "CompactReport \<Rightarrow> int" where
  "BytesAfter r = wrap64 (cr_PageSize r * cr_PageCountAfter r)"

text \<open>
  A file as SQLite counts it: the pages, the free ones, and the \<^verbatim>\<open>auto_vacuum\<close> mode in the file and the mode
  that was asked for. \<open>vacuum\<close> is SQLite's rewriting of the file. \<open>ci_Exec\<close> and \<open>ci_Get\<close> are the errors of
  the statements; the readings after the vacuum have \<open>True\<close>.
\<close>

record db_pages =
  pg_size :: int
  pg_count :: int
  pg_free :: int
  pg_mode :: int
  pg_asked :: int

datatype file_kind = SymbolicLink | RegularFile | SpecialFile

record compact_io =
  ci_Lstat :: "string + file_kind"
  ci_Abs :: "string option"
  ci_Open :: "string option"
  ci_Exec :: "string \<Rightarrow> sqlite_error option"
  ci_Get :: "bool \<Rightarrow> string \<Rightarrow> string option"

definition auto_vacuum_name :: "int \<Rightarrow> string" where
  "auto_vacuum_name mode =
     (if mode = 0 then ''none'' else if mode = 1 then ''full'' else if mode = 2 then ''incremental''
      else ''unknown('' @ fmt_d mode @ '')'')"

definition CompactSQLiteDB ::
  "(db_pages \<Rightarrow> db_pages) \<Rightarrow> compact_io \<Rightarrow> string \<Rightarrow> db_pages \<Rightarrow> (CompactReport \<times> string option) \<times> db_pages" where
  "CompactSQLiteDB vacuum io dbPath pages =
     (let report = \<lparr>cr_DBPath = dbPath, cr_PageSize = 0, cr_PageCountBefore = 0, cr_FreePagesBefore = 0,
                    cr_PageCountAfter = 0, cr_FreePagesAfter = 0, cr_AutoVacuumMode = []\<rparr>;
          failed = (\<lambda>r text err p. ((r, Some (text @ '': '' @ err)), p)) in
      case ci_Lstat io of
        Inl err \<Rightarrow> failed report ''stat database'' err pages
      | Inr SymbolicLink \<Rightarrow> ((report, Some ''database path must not be a symlink''), pages)
      | Inr SpecialFile \<Rightarrow> ((report, Some ''database path must be a regular file''), pages)
      | Inr RegularFile \<Rightarrow>
     (case ci_Abs io of Some err \<Rightarrow> failed report ''resolve database path'' err pages | None \<Rightarrow>
     (case ci_Open io of Some err \<Rightarrow> failed report ''open database'' err pages | None \<Rightarrow>
     (case ci_Exec io ''BEGIN IMMEDIATE'' of
        Some err \<Rightarrow>
          failed report (if isSQLiteBusy err
             then ''database is locked by another process '' @ [CHR 0xE2, CHR 0x80, CHR 0x94] @ '' stop the bus before compacting''
             else ''acquire write lock'') (se_Text err) pages
      | None \<Rightarrow>
     (case ci_Exec io ''COMMIT'' of Some err \<Rightarrow> failed report ''release write-lock probe'' (se_Text err) pages | None \<Rightarrow>
     (case ci_Get io False ''page_size'' of Some err \<Rightarrow> failed report ''read page_size'' err pages | None \<Rightarrow>
     (let report = report\<lparr>cr_PageSize := pg_size pages\<rparr> in
      case ci_Get io False ''page_count'' of Some err \<Rightarrow> failed report ''read page_count'' err pages | None \<Rightarrow>
     (let report = report\<lparr>cr_PageCountBefore := pg_count pages\<rparr> in
      case ci_Get io False ''freelist_count'' of Some err \<Rightarrow> failed report ''read freelist_count'' err pages | None \<Rightarrow>
     (let report = report\<lparr>cr_FreePagesBefore := pg_free pages\<rparr> in
      case ci_Exec io ''PRAGMA auto_vacuum = INCREMENTAL'' of
        Some err \<Rightarrow> failed report ''set auto_vacuum'' (se_Text err) pages | None \<Rightarrow>
     (let asked = pages\<lparr>pg_asked := 2\<rparr> in
      case ci_Exec io ''VACUUM'' of Some err \<Rightarrow> failed report ''vacuum'' (se_Text err) asked | None \<Rightarrow>
     (let after = vacuum asked in
      case ci_Get io True ''page_count'' of Some err \<Rightarrow> failed report ''read page_count after vacuum'' err after | None \<Rightarrow>
     (let report = report\<lparr>cr_PageCountAfter := pg_count after\<rparr> in
      case ci_Get io True ''freelist_count'' of Some err \<Rightarrow> failed report ''read freelist_count after vacuum'' err after | None \<Rightarrow>
     (let report = report\<lparr>cr_FreePagesAfter := pg_free after\<rparr> in
      case ci_Get io True ''auto_vacuum'' of Some err \<Rightarrow> failed report ''read auto_vacuum'' err after | None \<Rightarrow>
        ((report\<lparr>cr_AutoVacuumMode := auto_vacuum_name (pg_mode after)\<rparr>, None), after))))))))))))))"

text \<open>The program: its exit code, the report it prints and the file.\<close>

record compact_flags =
  fk_db :: string
  fk_acknowledgeStopped :: bool
  fk_NArg :: nat

definition compact_run ::
  "(db_pages \<Rightarrow> db_pages) \<Rightarrow> compact_io \<Rightarrow> compact_flags option \<Rightarrow> db_pages \<Rightarrow>
     int \<times> CompactReport option \<times> db_pages" where
  "compact_run vacuum io flags pages =
     (case flags of
        None \<Rightarrow> (2, None, pages)
      | Some fl \<Rightarrow>
          if fk_NArg fl \<noteq> 0 then (2, None, pages)
          else if fk_db fl = [] then (2, None, pages)
          else if \<not> fk_acknowledgeStopped fl then (2, None, pages)
          else (case CompactSQLiteDB vacuum io (fk_db fl) pages of
            ((report, Some err), pages') \<Rightarrow> (1, None, pages')
          | ((report, None), pages') \<Rightarrow> (0, Some report, pages')))"


section \<open>What an upgrade does\<close>

lemma add_column_simps [simp]:
  "ly_columns (add_column name dflt t) = ly_columns t @ [name]"
  "ly_rows (add_column name dflt t) = map (AList.update name dflt) (ly_rows t)"
  by (simp_all add: add_column_def)

definition fill :: "(string \<times> string option) list \<Rightarrow> string option gomap \<Rightarrow> string option gomap" where
  "fill migrations row = fold (\<lambda>(name, dflt). AList.update name dflt) migrations row"

lemma add_columns_done:
  assumes "add_columns alter cols migrations t = (None, t')"
  shows "ly_columns t' = ly_columns t @ map fst (filter (\<lambda>(name, dflt). name \<notin> set cols) migrations) \<and>
    ly_rows t' = map (fill (filter (\<lambda>(name, dflt). name \<notin> set cols) migrations)) (ly_rows t)"
  using assms
proof (induction alter cols migrations t rule: add_columns.induct)
  case (1 alter cols t)
  then show ?case by (simp add: fill_def)
next
  case (2 alter cols name dflt migrations t)
  then show ?case by (auto simp: fill_def split: if_splits option.splits)
qed

text \<open>
  An upgrade that ends without an error has added the missing columns with their defaults and kept every
  value that was there; it changes nothing when it is run again, and an upgrade that was interrupted is
  completed by the next one.
\<close>

lemma fill_value:
  assumes "distinct (map fst migrations)"
  shows "map_of (fill migrations row) c = (case map_of migrations c of Some d \<Rightarrow> Some d | None \<Rightarrow> map_of row c)"
  using assms
  by (induction migrations arbitrary: row) (auto simp: fill_def update_conv' split: option.splits dest: map_of_SomeD
      intro: rev_image_eqI)

lemma map_of_missing:
  "map_of (filter (\<lambda>(name, dflt). name \<notin> set cols) migrations) c = (if c \<in> set cols then None else map_of migrations c)"
  by (induction migrations) auto

lemma upgrade_done:
  assumes "add_columns alter (ly_columns t) migrations t = (None, t')" and "distinct (map fst migrations)"
  shows "set (ly_columns t') = set (ly_columns t) \<union> fst ` set migrations" and "length (ly_rows t') = length (ly_rows t)"
    and "i < length (ly_rows t) \<Longrightarrow> map_of (ly_rows t' ! i) c =
      (if c \<in> set (ly_columns t) then map_of (ly_rows t ! i) c
       else case map_of migrations c of Some d \<Rightarrow> Some d | None \<Rightarrow> map_of (ly_rows t ! i) c)"
proof -
  note upd = add_columns_done [OF assms(1)]
  show "set (ly_columns t') = set (ly_columns t) \<union> fst ` set migrations" using upd by force
  show "length (ly_rows t') = length (ly_rows t)" using upd by simp
  assume "i < length (ly_rows t)"
  then show "map_of (ly_rows t' ! i) c = (if c \<in> set (ly_columns t) then map_of (ly_rows t ! i) c
       else case map_of migrations c of Some d \<Rightarrow> Some d | None \<Rightarrow> map_of (ly_rows t ! i) c)"
    using upd fill_value [of "filter (\<lambda>(name, dflt). name \<notin> set (ly_columns t)) migrations"] assms(2)
    by (simp add: map_of_missing distinct_map_filter split: option.splits)
qed

lemma add_columns_present: "fst ` set migrations \<subseteq> set cols \<Longrightarrow> add_columns alter cols migrations t = (None, t)"
  by (induction migrations) auto

lemma upgrade_again:
  assumes "add_columns alter (ly_columns t) migrations t = (None, t')" and "distinct (map fst migrations)"
  shows "add_columns alter' (ly_columns t') migrations t' = (None, t')"
  using upgrade_done(1) [OF assms] by (intro add_columns_present) auto

lemma add_columns_cong:
  "\<forall>(name, dflt) \<in> set migrations. name \<in> set cols \<longleftrightarrow> name \<in> set cols' \<Longrightarrow>
   add_columns alter cols migrations t = add_columns alter cols' migrations t"
  by (induction alter cols migrations t rule: add_columns.induct) (auto split: option.splits)

lemma add_columns_append:
  "add_columns alter cols (ms1 @ ms2) t =
     (case add_columns alter cols ms1 t of (None, t1) \<Rightarrow> add_columns alter cols ms2 t1 | r \<Rightarrow> r)"
  by (induction alter cols ms1 t rule: add_columns.induct) (auto split: option.splits)

lemma add_columns_stopped:
  assumes "add_columns alter cols migrations t = (Some err, t1)"
  shows "\<exists>ms1 ms2. migrations = ms1 @ ms2 \<and> add_columns (\<lambda>_. None) cols ms1 t = (None, t1)"
  using assms
proof (induction alter cols migrations t rule: add_columns.induct)
  case (2 alter cols name dflt migrations t)
  show ?case
  proof (cases "name \<notin> set cols \<and> alter name \<noteq> None")
    case True
    then have "t1 = t" using 2(3) by auto
    then show ?thesis by (intro exI [of _ "[]"] exI [of _ "(name, dflt) # migrations"]) simp
  next
    case False
    then obtain ms1 ms2 where "migrations = ms1 @ ms2"
      "add_columns (\<lambda>_. None) cols ms1 (if name \<in> set cols then t else add_column name dflt t) = (None, t1)"
      using 2 by (auto split: if_splits)
    then show ?thesis by (intro exI [of _ "(name, dflt) # ms1"] exI [of _ ms2]) (simp split: if_splits)
  qed
qed simp

lemma upgrade_resumed:
  assumes "add_columns alter (ly_columns t) migrations t = (Some err, t1)" and "distinct (map fst migrations)"
  shows "add_columns (\<lambda>_. None) (ly_columns t1) migrations t1 = add_columns (\<lambda>_. None) (ly_columns t) migrations t"
proof -
  obtain ms1 ms2 where m: "migrations = ms1 @ ms2" and run: "add_columns (\<lambda>_. None) (ly_columns t) ms1 t = (None, t1)"
    using add_columns_stopped [OF assms(1)] by blast
  have cols: "set (ly_columns t1) = set (ly_columns t) \<union> fst ` set ms1"
    using upgrade_done(1) [OF run] assms(2) by (simp add: m)
  have "add_columns (\<lambda>_. None) (ly_columns t1) ms1 t1 = (None, t1)"
    using cols by (intro add_columns_present) blast
  moreover have "add_columns (\<lambda>_. None) (ly_columns t1) ms2 t1 = add_columns (\<lambda>_. None) (ly_columns t) ms2 t1"
    using assms(2) cols by (intro add_columns_cong) (force simp: m)
  ultimately show ?thesis by (simp add: m add_columns_append run)
qed

section \<open>What a compaction does\<close>

text \<open>SQLite's documentation of VACUUM: no free pages are left, and the mode that was asked for takes effect.\<close>

definition vacuums :: "(db_pages \<Rightarrow> db_pages) \<Rightarrow> bool" where
  "vacuums vacuum \<longleftrightarrow>
     (\<forall>p. pg_size (vacuum p) = pg_size p \<and> pg_count (vacuum p) \<le> pg_count p - pg_free p \<and> pg_free (vacuum p) = 0 \<and>
        pg_mode (vacuum p) = pg_asked p)"

text \<open>
  A report means that the file was a regular file no other process was writing, that its free pages are
  gone and that it is in incremental mode; before the vacuum, no error changes the pages of the file.
\<close>

lemma compaction_reported:
  assumes "CompactSQLiteDB vacuum io path pages = ((r, None), pages')" and "vacuums vacuum"
  shows "ci_Lstat io = Inr RegularFile" and "ci_Exec io ''BEGIN IMMEDIATE'' = None"
    and "pages' = vacuum (pages\<lparr>pg_asked := 2\<rparr>)" and "cr_AutoVacuumMode r = ''incremental''" and "cr_FreePagesAfter r = 0"
    and "cr_FreePagesBefore r = pg_free pages" and "cr_PageCountAfter r \<le> cr_PageCountBefore r - cr_FreePagesBefore r"
  using assms(1) assms(2) [unfolded vacuums_def, rule_format, of "pages\<lparr>pg_asked := 2\<rparr>"]
  by (auto simp: CompactSQLiteDB_def Let_def auto_vacuum_name_def split: sum.splits file_kind.splits option.splits)

lemma compaction_refused:
  assumes "CompactSQLiteDB vacuum io path pages = ((r, Some err), pages')"
    and "ci_Lstat io \<noteq> Inr RegularFile \<or> (\<exists>s \<in> {''BEGIN IMMEDIATE'', ''VACUUM''}. ci_Exec io s \<noteq> None)"
  shows "pages' = pages \<or> pages' = pages\<lparr>pg_asked := 2\<rparr>"
  using assms by (auto simp: CompactSQLiteDB_def Let_def split: sum.splits file_kind.splits option.splits)

end
