(* ===== verification/Ns_Csv.thy ===== *)
theory Ns_Csv
  imports Go_Json
begin

text \<open>
  What \<^verbatim>\<open>internal/nsmigrate\<close> uses of \<^verbatim>\<open>encoding/csv\<close> and \<^verbatim>\<open>unicode/utf8\<close>: a \<^verbatim>\<open>csv.Reader\<close> with
  \<^verbatim>\<open>FieldsPerRecord = -1\<close> over a text that is there in full, a \<^verbatim>\<open>csv.Writer\<close> with its defaults, validity of
  UTF-8 and control characters.

  A reader is what is left of the text with the number of lines read. The reader ends a line at a line
  feed, turns CR LF at the end of a line into LF, drops a CR at the end of the text, and skips empty lines.
  The main result, \<open>csv_Read_written\<close>, is that a record is read back as it was written unless a field
  contains CR LF.
\<close>

abbreviation (input) NL :: char where "NL \<equiv> CHR 0x0A"
abbreviation (input) CR :: char where "CR \<equiv> CHR 0x0D"
abbreviation (input) QUOTE :: char where "QUOTE \<equiv> CHR 0x22"
abbreviation (input) COMMA :: char where "COMMA \<equiv> CHR 0x2C"

section \<open>Lines\<close>

fun cut_line :: "string \<Rightarrow> string \<times> string" where
  "cut_line [] = ([], [])"
| "cut_line (c # cs) = (if c = NL then ([c], cs) else (let (l, r) = cut_line cs in (c # l, r)))"

text \<open>CR before the line feed, or at the end of a text without a line feed, is dropped.\<close>

fun drop_CR :: "string \<Rightarrow> string" where
  "drop_CR [] = []"
| "drop_CR (c # cs) = (if c = CR \<and> (cs = [] \<or> cs = [NL]) then cs else c # drop_CR cs)"

definition readLine :: "string \<Rightarrow> (string \<times> string) option" where
  "readLine s = (if s = [] then None else (let (l, r) = cut_line s in Some (drop_CR l, r)))"

lemma length_cut_line: "length (fst (cut_line s)) + length (snd (cut_line s)) = length s"
  by (induction s) (auto simp: case_prod_unfold Let_def)

lemma cut_line_nonempty: "fst (cut_line s) = [] \<longleftrightarrow> s = []"
  by (cases s) (auto simp: case_prod_unfold Let_def)

lemma length_drop_CR: "length (drop_CR l) \<le> length l"
  by (induction l) auto

lemma readLine_length:
  assumes "readLine s = Some (l, r)"
  shows "length l + length r \<le> length s" and "length r < length s"
proof -
  have s: "s \<noteq> []" and lr: "l = drop_CR (fst (cut_line s))" "r = snd (cut_line s)"
    using assms by (auto simp: readLine_def case_prod_unfold Let_def split: if_splits)
  show "length l + length r \<le> length s"
    using length_cut_line [of s] length_drop_CR [of "fst (cut_line s)"] lr by simp
  have "fst (cut_line s) \<noteq> []" using s by (simp add: cut_line_nonempty)
  then show "length r < length s" using length_cut_line [of s] lr by (cases "fst (cut_line s)") auto
qed

section \<open>The reader\<close>

record csv_error =
  ce_StartLine :: nat
  ce_Line :: nat
  ce_Column :: nat
  ce_Err :: string

definition ErrBareQuote :: string where
  "ErrBareQuote = ''bare '' @ [QUOTE] @ '' in non-quoted field''"

definition ErrQuote :: string where
  "ErrQuote = ''extraneous or missing '' @ [QUOTE] @ '' in quoted-field''"

definition csv_error_text :: "csv_error \<Rightarrow> string" where
  "csv_error_text e =
     (let pos = ''parse error on line '' @ fmt_d (int (ce_Line e)) @ '', column '' @ fmt_d (int (ce_Column e)) @ '': '' @
            ce_Err e in
      if ce_StartLine e \<noteq> ce_Line e then ''record on line '' @ fmt_d (int (ce_StartLine e)) @ ''; '' @ pos else pos)"

text \<open>
  A quoted field, from behind its opening quote: the text of the field, and what follows its comma, or
  \<open>None\<close> at the end of the record. \<open>start\<close> is the line the record starts in, \<open>n\<close> the current line and
  \<open>col\<close> the column of the next byte.
\<close>

function csv_quoted :: "nat \<Rightarrow> nat \<Rightarrow> nat \<Rightarrow> string \<Rightarrow> string \<Rightarrow> string \<Rightarrow>
    csv_error + string \<times> (string \<times> nat) option \<times> string \<times> nat" where
  "csv_quoted start n col acc [] rest =
     Inl \<lparr>ce_StartLine = start, ce_Line = n, ce_Column = col, ce_Err = ErrQuote\<rparr>"
| "csv_quoted start n col acc (c # cs) rest =
     (if c = QUOTE then
        (if cs = [] \<or> cs = [NL] then Inr (acc, None, rest, n)
         else if hd cs = QUOTE then csv_quoted start n (col + 2) (acc @ [QUOTE]) (tl cs) rest
         else if hd cs = COMMA then Inr (acc, Some (tl cs, col + 2), rest, n)
         else Inl \<lparr>ce_StartLine = start, ce_Line = n, ce_Column = col, ce_Err = ErrQuote\<rparr>)
      else if cs \<noteq> [] then csv_quoted start n (col + 1) (acc @ [c]) cs rest
      else (case readLine rest of
              None \<Rightarrow> Inl \<lparr>ce_StartLine = start, ce_Line = n, ce_Column = col + 1, ce_Err = ErrQuote\<rparr>
            | Some (l, r) \<Rightarrow>
                if l = [] then Inl \<lparr>ce_StartLine = start, ce_Line = n, ce_Column = col + 1, ce_Err = ErrQuote\<rparr>
                else csv_quoted start (n + 1) 1 (acc @ [c]) l r))"
  by pat_completeness auto

termination
  by (relation "measure (\<lambda>(start, n, col, acc, line, rest). length line + length rest)")
    (auto dest: readLine_length)

lemma csv_quoted_length:
  "csv_quoted start n col acc line rest = Inr (f, Some (line', col'), rest', n') \<Longrightarrow>
     length line' + length rest' < length line + length rest"
proof (induction start n col acc line rest rule: csv_quoted.induct)
  case (2 start n col acc c cs rest)
  then show ?case
    by (fastforce split: if_splits option.splits dest: readLine_length(1))
qed simp

lemma Cut_length: "Cut s sep = (b, a, True) \<Longrightarrow> length a < length s"
  by (induction s arbitrary: b) (auto split: if_splits prod.splits)

text \<open>The fields of a record, from the start of a field.\<close>

function csv_fields :: "nat \<Rightarrow> nat \<Rightarrow> nat \<Rightarrow> string \<Rightarrow> string \<Rightarrow> csv_error + string list \<times> string \<times> nat" where
  "csv_fields start n col line rest =
     (if line = [] \<or> hd line \<noteq> QUOTE then
        (let (before, after, found) = Cut line COMMA;
             field = (if found then before else if line \<noteq> [] \<and> last line = NL then butlast line else line) in
         if QUOTE \<in> set field then
           Inl \<lparr>ce_StartLine = start, ce_Line = n, ce_Column = col + length (takeWhile (\<lambda>c. c \<noteq> QUOTE) field),
                ce_Err = ErrBareQuote\<rparr>
         else if found then
           (case csv_fields start n (col + length before + 1) after rest of
              Inl e \<Rightarrow> Inl e
            | Inr (others, left) \<Rightarrow> Inr (field # others, left))
         else Inr ([field], rest, n))
      else
        (case csv_quoted start n (col + 1) [] (tl line) rest of
           Inl e \<Rightarrow> Inl e
         | Inr (field, None, rest1, n1) \<Rightarrow> Inr ([field], rest1, n1)
         | Inr (field, Some (line1, col1), rest1, n1) \<Rightarrow>
             (case csv_fields start n1 col1 line1 rest1 of
                Inl e \<Rightarrow> Inl e
              | Inr (others, left) \<Rightarrow> Inr (field # others, left))))"
  by pat_completeness auto

termination
proof (relation "measure (\<lambda>(start, n, col, line, rest). length line + length rest)", goal_cases)
  case (2 start n col line rest x before y after found field)
  then show ?case using Cut_length [of line COMMA before after] by auto
next
  case (3 start n col line rest)
  then show ?case using csv_quoted_length [of start n "col + 1" "[]" "tl line" rest] by (cases line) auto
qed auto

declare csv_fields.simps [simp del]

text \<open>One record, or \<open>None\<close> at the end of the text. The number of lines read so far is \<open>n\<close>.\<close>

function csv_Read :: "nat \<Rightarrow> string \<Rightarrow> csv_error + (string list \<times> string \<times> nat) option" where
  "csv_Read n s =
     (case readLine s of
        None \<Rightarrow> Inr None
      | Some (line, rest) \<Rightarrow>
          if line = [] \<or> line = [NL] then csv_Read (n + 1) rest
          else (case csv_fields (n + 1) (n + 1) 1 line rest of
                  Inl e \<Rightarrow> Inl e
                | Inr entry \<Rightarrow> Inr (Some entry)))"
  by pat_completeness auto

termination
  by (relation "measure (\<lambda>(n, s). length s)") (auto dest: readLine_length)

declare csv_Read.simps [simp del]

lemma csv_quoted_rest:
  "csv_quoted start n col acc line rest = Inr (f, cont, rest', n') \<Longrightarrow> length rest' \<le> length rest"
proof (induction start n col acc line rest rule: csv_quoted.induct)
  case (2 start n col acc c cs rest)
  then show ?case by (fastforce split: if_splits option.splits dest: readLine_length(1))
qed simp

lemma csv_fields_rest:
  "csv_fields start n col line rest = Inr (fs, rest', n') \<Longrightarrow> length rest' \<le> length rest"
proof (induction start n col line rest arbitrary: fs rule: csv_fields.induct)
  case (1 start n col line rest)
  obtain before after found where cut: "Cut line COMMA = (before, after, found)" by (cases "Cut line COMMA") auto
  note eq = 1(3) [unfolded csv_fields.simps [of start n col line rest]]
  show ?case
  proof (cases "line = [] \<or> hd line \<noteq> QUOTE")
    case True
    have "length rest' \<le> length rest"
      if "found" "QUOTE \<notin> set before" "csv_fields start n (col + length before + 1) after rest = Inr (others, rest', n')"
      for others
      using that by (intro 1(1) [OF True refl, of before "(after, found)" after found before others]) (simp_all add: cut)
    then show ?thesis using eq True by (auto simp: cut Let_def split: if_splits sum.splits)
  next
    case False
    then consider field where "csv_quoted start n (col + 1) [] (tl line) rest = Inr (field, None, rest', n')"
      | field line1 col1 rest1 n1 others
      where "csv_quoted start n (col + 1) [] (tl line) rest = Inr (field, Some (line1, col1), rest1, n1)"
        and "csv_fields start n1 col1 line1 rest1 = Inr (others, rest', n')"
      using eq by (auto split: sum.splits option.splits)
    then show ?thesis
    proof cases
      case 2
      have "length rest' \<le> length rest1" using 2(2) by (rule 1(2) [OF False 2(1) refl refl refl refl refl])
      then show ?thesis using csv_quoted_rest [OF 2(1)] by simp
    qed (rule csv_quoted_rest)
  qed
qed

lemma csv_Read_rest: "csv_Read n s = Inr (Some (fs, rest, n')) \<Longrightarrow> length rest < length s"
proof (induction n s rule: csv_Read.induct)
  case (1 n s)
  then show ?case
    by (subst (asm) (2) csv_Read.simps)
      (fastforce split: option.splits if_splits sum.splits dest: readLine_length(2) csv_fields_rest)
qed

section \<open>The writer\<close>

definition fieldNeedsQuotes :: "string \<Rightarrow> bool" where
  "fieldNeedsQuotes field \<longleftrightarrow>
     field \<noteq> [] \<and>
     (field = [CHR 0x5C, CHR ''.''] \<or> list_ex (\<lambda>c. c = NL \<or> c = CR \<or> c = QUOTE \<or> c = COMMA) field \<or>
      starts_with_any space_runes field \<noteq> None)"

definition escape_quotes :: "string \<Rightarrow> string" where
  "escape_quotes field = concat (map (\<lambda>c. if c = QUOTE then [QUOTE, QUOTE] else [c]) field)"

definition csv_field :: "string \<Rightarrow> string" where
  "csv_field field = (if fieldNeedsQuotes field then QUOTE # escape_quotes field @ [QUOTE] else field)"

fun csv_record :: "string list \<Rightarrow> string" where
  "csv_record [] = [NL]"
| "csv_record [f] = csv_field f @ [NL]"
| "csv_record (f # g # fs) = csv_field f @ COMMA # csv_record (g # fs)"

section \<open>Reading back what was written\<close>

text \<open>The fields that survive: those without CR LF, which the reader takes for the end of a line.\<close>

fun no_CRLF :: "string \<Rightarrow> bool" where
  "no_CRLF (c # d # cs) = (\<not> (c = CR \<and> d = NL) \<and> no_CRLF (d # cs))"
| "no_CRLF _ = True"

lemma readLine_Some: "s \<noteq> [] \<Longrightarrow> \<exists>l r. readLine s = Some (l, r)"
  by (simp add: readLine_def case_prod_unfold Let_def)

lemma readLine_nonempty:
  assumes "readLine s = Some (l, r)" and "s \<noteq> [CR]"
  shows "l \<noteq> []"
proof
  assume "l = []"
  then have "drop_CR (fst (cut_line s)) = []" "s \<noteq> []"
    using assms(1) by (auto simp: readLine_def case_prod_unfold Let_def split: if_splits)
  moreover have "drop_CR u = [] \<Longrightarrow> u = [] \<or> u = [CR]" for u by (cases u) (auto split: if_splits)
  ultimately have "fst (cut_line s) = [CR]" using cut_line_nonempty by blast
  then show False using assms(2)
    by (cases s) (auto simp: case_prod_unfold Let_def cut_line_nonempty split: if_splits)
qed

lemma readLine_Cons:
  assumes "c \<noteq> NL" and "t \<noteq> []" and "c = CR \<longrightarrow> hd t \<noteq> NL"
    and "readLine t = Some (l, r)"
  shows "readLine (c # t) = Some (c # l, r)"
proof -
  have "fst (cut_line t) \<noteq> []" "hd t \<noteq> NL \<longrightarrow> fst (cut_line t) \<noteq> [NL]" using assms(2)
    by (cases t; auto simp: case_prod_unfold Let_def)+
  then show ?thesis using assms by (auto simp: readLine_def case_prod_unfold Let_def)
qed

lemma readLine_NL [simp]: "readLine (NL # t) = Some ([NL], t)"
  by (simp add: readLine_def)

lemma readLine_append:
  assumes "NL \<notin> set f" and "CR \<notin> set f" and "readLine t = Some (l, r)"
  shows "readLine (f @ t) = Some (f @ l, r)"
  using assms(1,2)
proof (induction f)
  case (Cons c f)
  have "t \<noteq> []" using assms(3) by (auto simp: readLine_def)
  then show ?case using Cons readLine_Cons [of c "f @ t" "f @ l" r] by auto
qed (use assms(3) in simp)

lemma csv_quoted_escaped:
  assumes "no_CRLF f" and "readLine (QUOTE # t) = Some (QUOTE # l, r)"
    and "readLine (escape_quotes f @ QUOTE # t) = Some (l0, r0)"
  shows "\<exists>n' col'. csv_quoted start n col acc l0 r0 = csv_quoted start n' col' (acc @ f) (QUOTE # l) r"
  using assms(1,3)
proof (induction f arbitrary: n col acc l0 r0)
  case Nil
  then show ?case using assms(2) by (auto simp: escape_quotes_def)
next
  case (Cons c f)
  let ?t = "escape_quotes f @ QUOTE # t"
  obtain l1 r1 where one: "readLine ?t = Some (l1, r1)" using readLine_Some [of ?t] by auto
  have f: "no_CRLF f" using Cons.prems(1) by (cases f) auto
  have l1: "l1 \<noteq> []" using readLine_nonempty [OF one] by (cases f) (auto simp: escape_quotes_def)
  note IH = Cons.IH [OF f one]
  show ?case
  proof (cases "c = NL")
    case True
    then have "l0 = [NL]" "r0 = ?t" using Cons.prems(2) by (auto simp: escape_quotes_def)
    then show ?thesis using IH [of "n + 1" 1 "acc @ [NL]"] one l1 True by simp
  next
    case nl: False
    have hd: "c = CR \<longrightarrow> hd ?t \<noteq> NL" using Cons.prems(1) by (cases f) (auto simp: escape_quotes_def)
    show ?thesis
    proof (cases "c = QUOTE")
      case True
      have "readLine (QUOTE # QUOTE # ?t) = Some (QUOTE # QUOTE # l1, r1)"
        by (intro readLine_Cons one) auto
      then have "l0 = QUOTE # QUOTE # l1" "r0 = r1" using Cons.prems(2) True by (auto simp: escape_quotes_def)
      then show ?thesis using IH [of n "col + 2" "acc @ [QUOTE]"] True by simp
    next
      case False
      have "readLine (c # ?t) = Some (c # l1, r1)" by (intro readLine_Cons one nl hd) simp
      then have "l0 = c # l1" "r0 = r1" using Cons.prems(2) False by (auto simp: escape_quotes_def)
      then show ?thesis using IH [of n "col + 1" "acc @ [c]"] False l1 by simp
    qed
  qed
qed

lemma csv_quoted_field:
  assumes "no_CRLF f" and "readLine (escape_quotes f @ QUOTE # t) = Some (l0, r0)"
  shows "t = NL # rest \<Longrightarrow> \<exists>n'. csv_quoted start n col [] l0 r0 = Inr (f, None, rest, n')"
    and "t = COMMA # t' \<Longrightarrow> readLine t' = Some (l, r) \<Longrightarrow>
      \<exists>n' col'. csv_quoted start n col [] l0 r0 = Inr (f, Some (l, col'), r, n')"
proof -
  show "\<exists>n'. csv_quoted start n col [] l0 r0 = Inr (f, None, rest, n')" if t: "t = NL # rest"
  proof -
    have "readLine (QUOTE # t) = Some (QUOTE # [NL], rest)" using t by (intro readLine_Cons) auto
    from csv_quoted_escaped [OF assms(1) this assms(2), of start n col "[]"] show ?thesis by auto
  qed
  show "\<exists>n' col'. csv_quoted start n col [] l0 r0 = Inr (f, Some (l, col'), r, n')"
    if t: "t = COMMA # t'" and l: "readLine t' = Some (l, r)"
  proof -
    have "t' \<noteq> []" using l by (auto simp: readLine_def)
    then have "readLine (QUOTE # t) = Some (QUOTE # COMMA # l, r)" unfolding t by (intro readLine_Cons l) auto
    from csv_quoted_escaped [OF assms(1) this assms(2), of start n col "[]"] show ?thesis by auto
  qed
qed

lemma Cut_no_sep: "sep \<notin> set s \<Longrightarrow> Cut s sep = (s, [], False)"
  by (induction s) auto

lemma unquoted_field:
  assumes "\<not> fieldNeedsQuotes f"
  shows "NL \<notin> set f" "CR \<notin> set f" "QUOTE \<notin> set f" "COMMA \<notin> set f"
  using assms by (auto simp: fieldNeedsQuotes_def list_ex_iff)

lemma csv_record_last: "csv_record fs \<noteq> []" "last (csv_record fs) = NL"
  by (induction fs rule: csv_record.induct) auto

lemma csv_fields_written:
  assumes "fs \<noteq> []" and "\<forall>f \<in> set fs. no_CRLF f" and "readLine (csv_record fs @ rest) = Some (l, r)"
  shows "\<exists>n'. csv_fields start n col l r = Inr (fs, rest, n')"
  using assms
proof (induction fs arbitrary: n col l r rule: csv_record.induct)
  case (2 f)
  show ?case
  proof (cases "fieldNeedsQuotes f")
    case True
    let ?t = "escape_quotes f @ QUOTE # NL # rest"
    obtain l0 r0 where body: "readLine ?t = Some (l0, r0)" using readLine_Some [of ?t] by auto
    then have "readLine (QUOTE # ?t) = Some (QUOTE # l0, r0)" by (intro readLine_Cons) auto
    with 2 True have l: "l = QUOTE # l0" "r = r0" by (auto simp: csv_field_def)
    obtain n' where "csv_quoted start n (col + 1) [] l0 r0 = Inr (f, None, rest, n')"
      using csv_quoted_field(1) [OF _ body refl] 2 by fastforce
    then show ?thesis by (subst csv_fields.simps) (simp add: l)
  next
    case False
    note u = unquoted_field [OF False]
    have "readLine (f @ NL # rest) = Some (f @ [NL], rest)" using u by (intro readLine_append) auto
    with 2 False have l: "l = f @ [NL]" "r = rest" by (auto simp: csv_field_def)
    then have "hd l \<noteq> QUOTE" using u by (cases f) auto
    moreover have "Cut l COMMA = (l, [], False)" using u l by (intro Cut_no_sep) simp
    ultimately show ?thesis using u by (subst csv_fields.simps) (simp add: l)
  qed
next
  case (3 f g fs)
  let ?more = "csv_record (g # fs) @ rest"
  have "?more \<noteq> []" by (simp add: csv_record_last)
  then obtain l1 r1 where more: "readLine ?more = Some (l1, r1)" using readLine_Some by blast
  have IH: "\<exists>n'. csv_fields start n col l1 r1 = Inr (g # fs, rest, n')" for n col
    using 3 more by simp
  show ?case
  proof (cases "fieldNeedsQuotes f")
    case True
    let ?t = "escape_quotes f @ QUOTE # COMMA # ?more"
    obtain l0 r0 where body: "readLine ?t = Some (l0, r0)" using readLine_Some [of ?t] by auto
    then have "readLine (QUOTE # ?t) = Some (QUOTE # l0, r0)" by (intro readLine_Cons) auto
    with 3 True have l: "l = QUOTE # l0" "r = r0" by (auto simp: csv_field_def)
    obtain n1 col1 where "csv_quoted start n (col + 1) [] l0 r0 = Inr (f, Some (l1, col1), r1, n1)"
      using csv_quoted_field(2) [OF _ body refl more] 3 by fastforce
    moreover obtain n2 where "csv_fields start n1 col1 l1 r1 = Inr (g # fs, rest, n2)" using IH by blast
    ultimately show ?thesis by (subst csv_fields.simps) (simp add: l)
  next
    case False
    note u = unquoted_field [OF False]
    have "readLine (COMMA # ?more) = Some (COMMA # l1, r1)" using \<open>?more \<noteq> []\<close> more by (intro readLine_Cons) auto
    then have "readLine (f @ COMMA # ?more) = Some (f @ COMMA # l1, r1)" using u by (intro readLine_append) auto
    with 3 False have l: "l = f @ COMMA # l1" "r = r1" by (auto simp: csv_field_def)
    then have "hd l \<noteq> QUOTE" using u by (cases f) auto
    moreover have "Cut l COMMA = (f, l1, True)" using u l by (simp add: Cut_append)
    moreover obtain n2 where "csv_fields start n (col + length f + 1) l1 r1 = Inr (g # fs, rest, n2)" using IH by blast
    ultimately show ?thesis using u by (subst csv_fields.simps) (simp add: l)
  qed
qed simp

theorem csv_Read_written:
  assumes "fs \<noteq> []" and "fs \<noteq> [[]]" and "\<forall>f \<in> set fs. no_CRLF f"
  shows "\<exists>n'. csv_Read n (csv_record fs @ rest) = Inr (Some (fs, rest, n'))"
proof -
  obtain l r where l: "readLine (csv_record fs @ rest) = Some (l, r)"
    using readLine_Some [of "csv_record fs @ rest"] csv_record_last(1) by auto
  obtain c cs where cs: "csv_record fs = c # cs" "c \<noteq> NL" "c \<noteq> CR"
  proof (cases fs rule: csv_record.cases)
    case (2 f)
    then show ?thesis using that assms unquoted_field [of f]
      by (cases f; cases "fieldNeedsQuotes f") (auto simp: csv_field_def)
  next
    case (3 f g gs)
    then show ?thesis using that unquoted_field [of f]
      by (cases f; cases "fieldNeedsQuotes f") (auto simp: csv_field_def)
  qed (use assms in simp)
  then have "cs @ rest \<noteq> []" using csv_record_last(2) [of fs] by auto
  then obtain l1 r1 where "readLine (cs @ rest) = Some (l1, r1)" using readLine_Some by blast
  then have "l = c # l1" using l cs readLine_Cons [of c "cs @ rest"] \<open>cs @ rest \<noteq> []\<close> by auto
  then have "l \<noteq> []" "l \<noteq> [NL]" using cs by auto
  moreover obtain n' where "csv_fields (n + 1) (n + 1) 1 l r = Inr (fs, rest, n')"
    using csv_fields_written [OF assms(1,3) l] by blast
  ultimately show ?thesis using l by (subst csv_Read.simps) simp
qed

section \<open>UTF-8\<close>

primrec valid_fuel :: "nat \<Rightarrow> string \<Rightarrow> bool" where
  "valid_fuel 0 s = (s = [])"
| "valid_fuel (Suc n) s = (s = [] \<or> (0 < rune_len s \<and> valid_fuel n (drop (rune_len s) s)))"

definition ValidString :: "string \<Rightarrow> bool" where
  "ValidString s = valid_fuel (length s) s"

text \<open>
  \<^verbatim>\<open>strings.IndexFunc(s, unicode.IsControl) >= 0\<close> on a valid string. The control characters are U+0000 to
  U+001F, U+007F, and U+0080 to U+009F, whose encodings are the byte 0xC2 and the same byte.
\<close>

fun has_control :: "string \<Rightarrow> bool" where
  "has_control [] = False"
| "has_control (c # cs) =
     (byte_in 0 0x1F c \<or> byte_in 0x7F 0x7F c \<or>
      (byte_in 0xC2 0xC2 c \<and> (case cs of d # _ \<Rightarrow> byte_in 0x80 0x9F d | [] \<Rightarrow> False)) \<or> has_control cs)"

declare has_control.simps [simp del]

text \<open>The fuel of \<open>ValidString\<close>, the length of the string, is enough: each round consumes a byte.\<close>

lemma valid_fuel_enough: "length s \<le> n \<Longrightarrow> valid_fuel n s = valid_fuel (length s) s"
proof (induction n arbitrary: s rule: less_induct)
  case (less n)
  show ?case
  proof (cases s)
    case (Cons c cs)
    then obtain m where n: "n = Suc m" using less.prems by (cases n) auto
    have "valid_fuel m (drop (rune_len s) s) = valid_fuel (length cs) (drop (rune_len s) s)" if "0 < rune_len s"
    proof -
      let ?d = "drop (rune_len s) s"
      have d: "length ?d \<le> length cs" using that Cons by simp
      have "length cs < n" "m < n" using less.prems Cons n by auto
      then show ?thesis using less.IH [of m ?d] less.IH [of "length cs" ?d] d less.prems Cons n by simp
    qed
    then show ?thesis by (auto simp: n Cons)
  qed (cases n; simp)
qed

end
