(* ===== verification/Ns_Manifest.thy ===== *)
theory Ns_Manifest
  imports Ns_Csv
begin

text \<open>
  The identity manifest of a namespace migration, \<^verbatim>\<open>internal/nsmigrate/manifest.go\<close>: a CSV file with a row for
  each identity of a bus, saying under which authority it lives and how it is renamed. The parser refuses
  every file that does not describe a safe renaming; \<^verbatim>\<open>InvertManifest\<close> makes the undo plan and sends it
  through the same parser.

  \<^verbatim>\<open>Authority\<close> and \<^verbatim>\<open>Disposition\<close> are strings with named values, as in the source. \<open>Quote\<close> is the argument for
  the verb \<^verbatim>\<open>%q\<close> in error texts, and a ranking gives the order in which \<^verbatim>\<open>validateSplitPairs\<close> ranges over its map.
  The text of the manifest is there in full: a read error of the file is not modelled.
\<close>

type_synonym authority = string
type_synonym disposition = string

abbreviation (input) AuthorityJK :: authority where "AuthorityJK \<equiv> ''jk''"
abbreviation (input) AuthorityUCLA :: authority where "AuthorityUCLA \<equiv> ''ucla''"

abbreviation (input) DispositionMigrate :: disposition where "DispositionMigrate \<equiv> ''migrate''"
abbreviation (input) DispositionRetire :: disposition where "DispositionRetire \<equiv> ''retire''"
abbreviation (input) DispositionSplit :: disposition where "DispositionSplit \<equiv> ''split''"
abbreviation (input) DispositionUnchanged :: disposition where "DispositionUnchanged \<equiv> ''unchanged''"

definition manifestHeader :: "string list" where
  "manifestHeader =
     [''source_authority'', ''source_id'', ''target_id'', ''disposition'', ''owner_repo'', ''evidence'', ''control_plane'']"

record ManifestRow =
  mr_SourceAuthority :: authority
  mr_SourceID :: string
  mr_TargetID :: string
  mr_Disposition :: disposition
  mr_OwnerRepo :: string
  mr_Evidence :: string
  mr_ControlPlane :: bool
  mr_Line :: int

type_synonym manifest = "ManifestRow list"

record refusal =
  rf_Code :: string
  rf_Location :: string
  rf_Detail :: string

definition refuse :: "string \<Rightarrow> string \<Rightarrow> string \<Rightarrow> refusal list" where
  "refuse code location detail = [\<lparr>rf_Code = code, rf_Location = location, rf_Detail = detail\<rparr>]"

definition RefusalError_Error :: "refusal list \<Rightarrow> string" where
  "RefusalError_Error refusals =
     (case refusals of [] \<Rightarrow> ''migration refused'' | r # _ \<Rightarrow> ''migration refused: '' @ rf_Detail r)"

definition manifest_line :: "int \<Rightarrow> string" where
  "manifest_line line = ''manifest:'' @ fmt_d line"

section \<open>Scopes of identities\<close>

definition explicitScope :: "string \<Rightarrow> string option" where
  "explicitScope ident =
     (case Cut ident (CHR ''.'') of
        (prefix, rest, ok) \<Rightarrow>
          if \<not> ok then None
          else if prefix = ''personal'' \<or> prefix = ''ucla'' \<or> prefix = ''shared'' then Some prefix
          else None)"

definition hasExplicitScope :: "string \<Rightarrow> bool" where
  "hasExplicitScope ident \<longleftrightarrow> explicitScope ident \<noteq> None"

definition foreignAuthorityScope :: "authority \<Rightarrow> string \<Rightarrow> bool" where
  "foreignAuthorityScope authority ident \<longleftrightarrow>
     (case explicitScope ident of
        None \<Rightarrow> False
      | Some scope \<Rightarrow>
          authority = AuthorityJK \<and> scope = ''ucla'' \<or> authority = AuthorityUCLA \<and> scope = ''personal'')"

section \<open>Rows\<close>

definition ParseAuthority :: "(string \<Rightarrow> string) \<Rightarrow> string \<Rightarrow> string + authority" where
  "ParseAuthority Quote raw =
     (if raw = AuthorityJK \<or> raw = AuthorityUCLA then Inr raw
      else Inl (''authority must be jk or ucla, got '' @ Quote raw))"

definition authority_prefix :: "authority \<Rightarrow> string" where
  "authority_prefix authority = (if authority = AuthorityJK then ''personal.'' else ''ucla.'')"

definition validateMapping :: "(string \<Rightarrow> string) \<Rightarrow> ManifestRow \<Rightarrow> refusal list option" where
  "validateMapping Quote row =
     (let location = manifest_line (mr_Line row);
          source = mr_SourceID row; target = mr_TargetID row;
          renamed = (mr_Disposition row \<noteq> DispositionUnchanged \<or> source \<noteq> target);
          prefix = authority_prefix (mr_SourceAuthority row);
          forward = (\<not> hasExplicitScope source \<and> target = prefix @ source);
          inverse = (\<not> hasExplicitScope target \<and> source = prefix @ target) in
      if mr_ControlPlane row \<and> renamed then
        Some (refuse ''manifest_schema'' location ''control_plane requires an unchanged row'')
      else if mr_ControlPlane row \<and> Contains source (CHR ''.'') then
        Some (refuse ''manifest_schema'' location ''control_plane identity must be unprefixed'')
      else if (foreignAuthorityScope (mr_SourceAuthority row) source \<or>
               foreignAuthorityScope (mr_SourceAuthority row) target) \<and> renamed then
        Some (refuse ''foreign_authority_mutation'' location
          ''foreign-authority identities may only be declared unchanged with target_id equal to source_id'')
      else if mr_Disposition row = DispositionUnchanged then
        (if source \<noteq> target then
           Some (refuse ''manifest_schema'' location ''unchanged requires source_id == target_id'')
         else if \<not> hasExplicitScope source \<and> \<not> mr_ControlPlane row then
           Some (refuse ''manifest_schema'' location ''unchanged identity must already have an explicit namespace'')
         else None)
      else if source = target then
        Some (refuse ''manifest_schema'' location ''rename dispositions require source_id != target_id'')
      else if \<not> forward \<and> \<not> inverse then
        Some (refuse ''manifest_schema'' location
          (''mapping must preserve the complete legacy ID with the '' @ Quote prefix @
           '' authority prefix, in either direction''))
      else None)"

fun check_fields :: "int \<Rightarrow> (string \<times> string) list \<Rightarrow> refusal list option" where
  "check_fields line [] = None"
| "check_fields line ((name, value) # rest) =
     (if \<not> ValidString value then
        Some (refuse ''manifest_schema'' (manifest_line line) ''field is not valid UTF-8'')
      else if TrimSpace value \<noteq> value then
        Some (refuse ''manifest_schema'' (manifest_line line) (name @ '' must not have surrounding whitespace''))
      else if value = [] then
        Some (refuse ''manifest_schema'' (manifest_line line) (name @ '' must be non-empty''))
      else check_fields line rest)"

definition valid_disposition :: "disposition \<Rightarrow> bool" where
  "valid_disposition d \<longleftrightarrow>
     d = DispositionMigrate \<or> d = DispositionRetire \<or> d = DispositionSplit \<or> d = DispositionUnchanged"

text \<open>The record has seven fields: its caller has counted them.\<close>

definition parseManifestRow :: "(string \<Rightarrow> string) \<Rightarrow> string list \<Rightarrow> int \<Rightarrow> refusal list + ManifestRow" where
  "parseManifestRow Quote record line =
     (case check_fields line (zip manifestHeader record) of
        Some err \<Rightarrow> Inl err
      | None \<Rightarrow>
          if list_ex has_control (take 3 record) then
            Inl (refuse ''manifest_schema'' (manifest_line line) ''identity fields must not contain control characters'')
          else (case ParseAuthority Quote (record ! 0) of
             Inl err \<Rightarrow> Inl (refuse ''manifest_schema'' (manifest_line line) err)
           | Inr authority \<Rightarrow>
               (let disposition = record ! 3 in
                if \<not> valid_disposition disposition then
                  Inl (refuse ''invalid_disposition'' (manifest_line line)
                    ''disposition must be migrate, retire, split, or unchanged'')
                else
                  (let row = \<lparr>mr_SourceAuthority = authority, mr_SourceID = record ! 1, mr_TargetID = record ! 2,
                              mr_Disposition = disposition, mr_OwnerRepo = record ! 4, mr_Evidence = record ! 5,
                              mr_ControlPlane = (record ! 6 = ''true''), mr_Line = line\<rparr> in
                   if record ! 6 \<noteq> ''true'' \<and> record ! 6 \<noteq> ''false'' then
                     Inl (refuse ''manifest_schema'' (manifest_line line) ''control_plane must be true or false'')
                   else (case validateMapping Quote row of
                           Some err \<Rightarrow> Inl err
                         | None \<Rightarrow> Inr row)))))"

section \<open>Split identities\<close>

definition legacy_id :: "ManifestRow \<Rightarrow> string" where
  "legacy_id row = (if hasExplicitScope (mr_SourceID row) then mr_TargetID row else mr_SourceID row)"

text \<open>The lines of the \<^verbatim>\<open>jk\<close> and of the \<^verbatim>\<open>ucla\<close> row of each split identity, zero where there is none.\<close>

definition add_split :: "ManifestRow \<Rightarrow> (int \<times> int) gomap \<Rightarrow> (int \<times> int) gomap" where
  "add_split row pairs =
     (if mr_Disposition row \<noteq> DispositionSplit then pairs
      else (let current = get_or (0, 0) pairs (legacy_id row) in
            AList.update (legacy_id row)
              (if mr_SourceAuthority row = AuthorityJK then (mr_Line row, snd current)
               else if mr_SourceAuthority row = AuthorityUCLA then (fst current, mr_Line row)
               else current) pairs))"

definition split_refusal :: "(string \<Rightarrow> string) \<Rightarrow> (int \<times> int) gomap \<Rightarrow> string \<Rightarrow> refusal list option" where
  "split_refusal Quote pairs legacyID =
     (let (jkLine, uclaLine) = get_or (0, 0) pairs legacyID in
      if jkLine = 0 \<or> uclaLine = 0 then
        Some (refuse ''manifest_schema'' (manifest_line (if jkLine = 0 then uclaLine else jkLine))
          (''split identity '' @ Quote legacyID @ '' requires one jk row and one ucla row''))
      else None)"

fun first_some :: "('a \<Rightarrow> 'b option) \<Rightarrow> 'a list \<Rightarrow> 'b option" where
  "first_some f [] = None"
| "first_some f (x # xs) = (case f x of Some y \<Rightarrow> Some y | None \<Rightarrow> first_some f xs)"

definition validateSplitPairs :: "(string \<Rightarrow> string) \<Rightarrow> ranking \<Rightarrow> ManifestRow list \<Rightarrow> refusal list option" where
  "validateSplitPairs Quote rk rows =
     (let pairs = fold add_split rows [] in first_some (split_refusal Quote pairs) (range_keys rk pairs))"

section \<open>The file\<close>

definition validateHeader :: "(string \<Rightarrow> string) \<Rightarrow> string list \<Rightarrow> refusal list option" where
  "validateHeader Quote header =
     (if length manifestHeader < length header then
        Some (refuse ''outside_rewrite_surface'' ''manifest:1'' ''manifest contains columns outside the seven-column contract'')
      else if length header \<noteq> length manifestHeader then
        Some (refuse ''manifest_schema'' ''manifest:1''
          (''header must contain exactly '' @ fmt_d (int (length manifestHeader)) @ '' columns''))
      else first_some (\<lambda>i. if header ! i \<noteq> manifestHeader ! i then
             Some (refuse ''manifest_schema'' ''manifest:1''
               (''column '' @ fmt_d (int i + 1) @ '' must be '' @ Quote (manifestHeader ! i))) else None)
           [0..<length manifestHeader])"

definition source_key :: "ManifestRow \<Rightarrow> string" where
  "source_key row = mr_SourceAuthority row @ CHR 0x00 # mr_SourceID row"

definition target_key :: "ManifestRow \<Rightarrow> string" where
  "target_key row = mr_SourceAuthority row @ CHR 0x00 # mr_TargetID row"

definition check_duplicates :: "int gomap \<Rightarrow> ManifestRow gomap \<Rightarrow> int \<Rightarrow> ManifestRow \<Rightarrow> refusal list option" where
  "check_duplicates seenSources targetOwners line row =
     (case map_of seenSources (source_key row) of
        Some previous \<Rightarrow>
          Some (refuse ''duplicate_source'' (manifest_line line)
            (''duplicate (source_authority, source_id); first declared on line '' @ fmt_d previous))
      | None \<Rightarrow>
          (case map_of targetOwners (target_key row) of
             Some previous \<Rightarrow>
               if mr_SourceID previous \<noteq> mr_SourceID row then
                 Some (refuse ''duplicate_target'' (manifest_line line)
                   (''target_id is already mapped from a different source on line '' @ fmt_d (mr_Line previous)))
               else None
           | None \<Rightarrow> None))"

text \<open>The loop over the records. \<open>line\<close> counts records, \<open>n\<close> the lines the reader has read.\<close>

function parse_rows :: "(string \<Rightarrow> string) \<Rightarrow> int \<Rightarrow> nat \<Rightarrow> string \<Rightarrow> int gomap \<Rightarrow> ManifestRow gomap \<Rightarrow>
    ManifestRow list \<Rightarrow> refusal list + ManifestRow list" where
  "parse_rows Quote line n s seenSources targetOwners rows =
     (case csv_Read n s of
        Inl err \<Rightarrow> Inl (refuse ''manifest_schema'' (manifest_line line) (''read CSV row: '' @ csv_error_text err))
      | Inr None \<Rightarrow> Inr rows
      | Inr (Some (record, rest, n1)) \<Rightarrow>
          if length record \<noteq> length manifestHeader then
            Inl (refuse ''manifest_schema'' (manifest_line line)
              (''expected '' @ fmt_d (int (length manifestHeader)) @ '' fields, got '' @ fmt_d (int (length record))))
          else (case parseManifestRow Quote record line of
             Inl err \<Rightarrow> Inl err
           | Inr row \<Rightarrow>
               (case check_duplicates seenSources targetOwners line row of
                  Some err \<Rightarrow> Inl err
                | None \<Rightarrow>
                    parse_rows Quote (line + 1) n1 rest (AList.update (source_key row) line seenSources)
                      (AList.update (target_key row) row targetOwners) (rows @ [row]))))"
  by pat_completeness auto

termination
  by (relation "measure (\<lambda>(Quote, line, n, s, seenSources, targetOwners, rows). length s)")
    (auto dest: csv_Read_rest)

declare parse_rows.simps [simp del]

definition ParseManifest :: "(string \<Rightarrow> string) \<Rightarrow> ranking \<Rightarrow> string \<Rightarrow> refusal list + manifest" where
  "ParseManifest Quote rk s =
     (case csv_Read 0 s of
        Inl err \<Rightarrow> Inl (refuse ''manifest_schema'' ''manifest'' (''read CSV header: '' @ csv_error_text err))
      | Inr None \<Rightarrow> Inl (refuse ''manifest_schema'' ''manifest'' ''manifest is empty'')
      | Inr (Some (header, rest, n)) \<Rightarrow>
          (case validateHeader Quote header of
             Some err \<Rightarrow> Inl err
           | None \<Rightarrow>
               (case parse_rows Quote 2 n rest [] [] [] of
                  Inl err \<Rightarrow> Inl err
                | Inr rows \<Rightarrow>
                    if rows = [] then Inl (refuse ''manifest_schema'' ''manifest'' ''manifest has no data rows'')
                    else (case validateSplitPairs Quote rk rows of
                            Some err \<Rightarrow> Inl err
                          | None \<Rightarrow> Inr rows))))"

definition manifest_record :: "ManifestRow \<Rightarrow> string list" where
  "manifest_record row =
     [mr_SourceAuthority row, mr_SourceID row, mr_TargetID row, mr_Disposition row, mr_OwnerRepo row, mr_Evidence row,
      if mr_ControlPlane row then ''true'' else ''false'']"

text \<open>Writing to a buffer does not fail.\<close>

definition WriteManifest :: "manifest \<Rightarrow> string" where
  "WriteManifest manifest = csv_record manifestHeader @ concat (map (\<lambda>row. csv_record (manifest_record row)) manifest)"

definition swap_ids :: "ManifestRow \<Rightarrow> ManifestRow" where
  "swap_ids row = row\<lparr>mr_SourceID := mr_TargetID row, mr_TargetID := mr_SourceID row\<rparr>"

definition InvertManifest :: "(string \<Rightarrow> string) \<Rightarrow> ranking \<Rightarrow> manifest \<Rightarrow> refusal list + manifest" where
  "InvertManifest Quote rk manifest = ParseManifest Quote rk (WriteManifest (map swap_ids manifest))"

section \<open>What a parsed manifest is\<close>

definition field_ok :: "string \<Rightarrow> bool" where
  "field_ok value \<longleftrightarrow> ValidString value \<and> TrimSpace value = value \<and> value \<noteq> []"

text \<open>The rules for a row: what it renames, and in which direction.\<close>

definition renames :: "ManifestRow \<Rightarrow> bool" where
  "renames row \<longleftrightarrow> mr_Disposition row \<in> {DispositionMigrate, DispositionRetire, DispositionSplit}"

definition mapping_ok :: "ManifestRow \<Rightarrow> bool" where
  "mapping_ok row \<longleftrightarrow>
     (let a = mr_SourceAuthority row; s = mr_SourceID row; t = mr_TargetID row in
      if renames row then
        \<not> mr_ControlPlane row \<and>
        (\<not> hasExplicitScope s \<and> t = authority_prefix a @ s \<or> \<not> hasExplicitScope t \<and> s = authority_prefix a @ t)
      else mr_Disposition row = DispositionUnchanged \<and> s = t \<and>
        (if mr_ControlPlane row then CHR ''.'' \<notin> set s else hasExplicitScope s))"

definition row_ok :: "ManifestRow \<Rightarrow> bool" where
  "row_ok row \<longleftrightarrow>
     mr_SourceAuthority row \<in> {AuthorityJK, AuthorityUCLA} \<and> mapping_ok row \<and>
     (\<forall>value \<in> {mr_SourceID row, mr_TargetID row, mr_OwnerRepo row, mr_Evidence row}. field_ok value) \<and>
     \<not> has_control (mr_SourceID row) \<and> \<not> has_control (mr_TargetID row)"

definition source_of :: "ManifestRow \<Rightarrow> authority \<times> string" where
  "source_of row = (mr_SourceAuthority row, mr_SourceID row)"

definition target_of :: "ManifestRow \<Rightarrow> authority \<times> string" where
  "target_of row = (mr_SourceAuthority row, mr_TargetID row)"

definition entries_ok :: "ManifestRow list \<Rightarrow> bool" where
  "entries_ok rows \<longleftrightarrow>
     (\<forall>row \<in> set rows. row_ok row) \<and> map mr_Line rows = map (\<lambda>i. int i + 2) [0..<length rows] \<and>
     distinct (map source_of rows) \<and> distinct (map target_of rows)"

text \<open>A split identity has a row under both authorities.\<close>

definition splits_ok :: "ManifestRow list \<Rightarrow> bool" where
  "splits_ok rows \<longleftrightarrow>
     (\<forall>row \<in> set rows. mr_Disposition row = DispositionSplit \<longrightarrow>
        (\<forall>a \<in> {AuthorityJK, AuthorityUCLA}.
           \<exists>row' \<in> set rows. mr_Disposition row' = DispositionSplit \<and> mr_SourceAuthority row' = a \<and>
             legacy_id row' = legacy_id row))"

definition manifest_ok :: "manifest \<Rightarrow> bool" where
  "manifest_ok rows \<longleftrightarrow> rows \<noteq> [] \<and> entries_ok rows \<and> splits_ok rows"

subsection \<open>Scopes\<close>

lemma authority_prefix_scope:
  "explicitScope (authority_prefix a @ s) = Some (if a = AuthorityJK then ''personal'' else ''ucla'')"
proof -
  have "Cut (''personal'' @ CHR ''.'' # s) (CHR ''.'') = (''personal'', s, True)"
    "Cut (''ucla'' @ CHR ''.'' # s) (CHR ''.'') = (''ucla'', s, True)" by (intro Cut_append, simp)+
  then show ?thesis by (simp add: explicitScope_def authority_prefix_def)
qed

lemma explicitScope_unprefixed: "CHR ''.'' \<notin> set s \<Longrightarrow> explicitScope s = None"
  by (simp add: explicitScope_def Cut_no_sep)

lemma prefixed_not_foreign:
  "a \<in> {AuthorityJK, AuthorityUCLA} \<Longrightarrow> \<not> foreignAuthorityScope a (authority_prefix a @ s)"
  by (auto simp: foreignAuthorityScope_def authority_prefix_scope)

lemma unscoped_not_foreign: "\<not> hasExplicitScope s \<Longrightarrow> \<not> foreignAuthorityScope a s"
  by (simp add: foreignAuthorityScope_def hasExplicitScope_def)

lemma validateMapping_iff:
  assumes "mr_SourceAuthority row \<in> {AuthorityJK, AuthorityUCLA}"
    and "valid_disposition (mr_Disposition row)"
  shows "validateMapping Quote row = None \<longleftrightarrow> mapping_ok row"
proof -
  let ?s = "mr_SourceID row" and ?t = "mr_TargetID row" and ?p = "authority_prefix (mr_SourceAuthority row)"
  have ne: "?s \<noteq> ?p @ ?s" "?p @ ?t \<noteq> ?t" by (auto simp: authority_prefix_def)
  have dot: "Contains ?s (CHR ''.'') \<longleftrightarrow> CHR ''.'' \<in> set ?s" by (simp add: Contains_def)
  note free = prefixed_not_foreign [OF assms(1)] unscoped_not_foreign
  show ?thesis
  proof (cases "renames row")
    case True
    then have d: "mr_Disposition row \<noteq> DispositionUnchanged" by (auto simp: renames_def)
    show ?thesis
    proof (cases "\<not> hasExplicitScope ?s \<and> ?t = ?p @ ?s \<or> \<not> hasExplicitScope ?t \<and> ?s = ?p @ ?t")
      case dir: True
      then have "?s \<noteq> ?t" "\<not> foreignAuthorityScope (mr_SourceAuthority row) ?s"
        "\<not> foreignAuthorityScope (mr_SourceAuthority row) ?t" using ne free by (metis)+
      then show ?thesis using True d dir by (auto simp: validateMapping_def mapping_ok_def Let_def)
    next
      case False
      then show ?thesis using True d by (simp add: validateMapping_def mapping_ok_def Let_def authority_prefix_def)
    qed
  next
    case False
    then have d: "mr_Disposition row = DispositionUnchanged" using assms(2) by (auto simp: renames_def valid_disposition_def)
    then show ?thesis using False dot
      by (auto simp: validateMapping_def mapping_ok_def Let_def)
  qed
qed

lemma check_fields_iff: "check_fields line xs = None \<longleftrightarrow> (\<forall>(name, value) \<in> set xs. field_ok value)"
  by (induction xs rule: check_fields.induct) (auto simp: field_ok_def)

subsection \<open>Rows\<close>

lemma constant_fields [simp]:
  "field_ok ''jk''" "field_ok ''ucla''" "field_ok ''true''" "field_ok ''false''"
  "\<not> has_control ''jk''" "\<not> has_control ''ucla''"
  by code_simp+

lemma field_ok_disposition:
  assumes "valid_disposition d"
  shows "field_ok d" and "\<not> has_control d"
proof -
  have "field_ok ''migrate''" "field_ok ''retire''" "field_ok ''split''" "field_ok ''unchanged''"
    "\<not> has_control ''migrate''" "\<not> has_control ''retire''" "\<not> has_control ''split''" "\<not> has_control ''unchanged''"
    by code_simp+
  then show "field_ok d" "\<not> has_control d" using assms unfolding valid_disposition_def by blast+
qed

lemma mapping_ok_disposition: "mapping_ok row \<Longrightarrow> valid_disposition (mr_Disposition row)"
  by (auto simp: mapping_ok_def renames_def valid_disposition_def Let_def split: if_splits)

lemma length_seven: "length xs = 7 \<longleftrightarrow> (\<exists>a b c d e f g. xs = [a, b, c, d, e, f, g])"
  by (auto simp: numeral_eq_Suc length_Suc_conv)

lemma length_manifestHeader [simp]: "length manifestHeader = 7"
  by (simp add: manifestHeader_def)

lemma parseManifestRow_iff:
  assumes "length record = 7"
  shows "parseManifestRow Quote record line = Inr row \<longleftrightarrow>
    row_ok row \<and> record = manifest_record row \<and> mr_Line row = line"
proof -
  obtain a s t d owner e c where rec: "record = [a, s, t, d, owner, e, c]" using assms by (auto simp: length_seven)
  let ?row = "\<lparr>mr_SourceAuthority = a, mr_SourceID = s, mr_TargetID = t, mr_Disposition = d, mr_OwnerRepo = owner,
    mr_Evidence = e, mr_ControlPlane = (c = ''true''), mr_Line = line\<rparr>"
  have fields: "check_fields line (zip manifestHeader record) = None \<longleftrightarrow> (\<forall>value \<in> set record. field_ok value)"
    unfolding check_fields_iff rec by (simp add: manifestHeader_def)
  have auth: "ParseAuthority Quote a = (if a \<in> {AuthorityJK, AuthorityUCLA} then Inr a else Inl (''authority must be jk or ucla, got '' @ Quote a))"
    by (simp add: ParseAuthority_def)
  let ?ok = "(\<forall>value \<in> set record. field_ok value) \<and> \<not> list_ex has_control (take 3 record) \<and>
    a \<in> {AuthorityJK, AuthorityUCLA} \<and> valid_disposition d \<and> c \<in> {''true'', ''false''}"
  have "parseManifestRow Quote record line = Inr row \<longleftrightarrow> ?ok \<and> validateMapping Quote ?row = None \<and> row = ?row"
  proof (cases ?ok)
    case True
    have checked: "check_fields line (zip manifestHeader record) = None" "(c \<noteq> ''true'' \<and> c \<noteq> ''false'') = False"
      using True fields by auto
    then have "parseManifestRow Quote record line =
        (case validateMapping Quote ?row of Some err \<Rightarrow> Inl err | None \<Rightarrow> Inr ?row)"
      using True by (simp only: parseManifestRow_def checked) (simp add: auth rec checked(2) Let_def del: de_Morgan_conj)
    then show ?thesis using True by (cases "validateMapping Quote ?row") auto
  next
    case False
    have "parseManifestRow Quote record line \<noteq> Inr row"
    proof (cases "check_fields line (zip manifestHeader record)")
      case None
      then have "list_ex has_control (take 3 record) \<or> a \<notin> {AuthorityJK, AuthorityUCLA} \<or> \<not> valid_disposition d \<or>
          (c \<noteq> ''true'' \<and> c \<noteq> ''false'')" using False fields by auto
      then show ?thesis
        by (elim disjE) (simp_all add: parseManifestRow_def None [unfolded rec] rec auth Let_def del: insert_iff)
    qed (simp add: parseManifestRow_def)
    then show ?thesis using False by blast
  qed
  also have "\<dots> \<longleftrightarrow> ?ok \<and> mapping_ok ?row \<and> row = ?row"
    using validateMapping_iff [of ?row Quote] by auto
  also have "\<dots> \<longleftrightarrow> row_ok row \<and> record = manifest_record row \<and> mr_Line row = line"
    using mapping_ok_disposition [of ?row] field_ok_disposition [of d]
    by (cases row) (auto simp: row_ok_def rec manifest_record_def)
  finally show ?thesis .
qed

lemma no_control_no_CRLF: "\<not> has_control s \<Longrightarrow> no_CRLF s"
  by (induction s rule: no_CRLF.induct) (auto simp: has_control.simps byte_in_def)

definition free_text_ok :: "ManifestRow \<Rightarrow> bool" where
  "free_text_ok row \<longleftrightarrow> no_CRLF (mr_OwnerRepo row) \<and> no_CRLF (mr_Evidence row)"

lemma csv_Read_row:
  assumes "row_ok row" and "free_text_ok row"
  shows "\<exists>n'. csv_Read n (csv_record (manifest_record row) @ rest) = Inr (Some (manifest_record row, rest, n'))"
proof (rule csv_Read_written)
  have "no_CRLF (mr_Disposition row)" using assms(1)
    by (intro no_control_no_CRLF field_ok_disposition(2) mapping_ok_disposition) (simp add: row_ok_def)
  then show "\<forall>f \<in> set (manifest_record row). no_CRLF f"
    using assms by (auto simp: manifest_record_def row_ok_def free_text_ok_def intro: no_control_no_CRLF)
qed (simp_all add: manifest_record_def)

subsection \<open>Duplicates\<close>

definition tracks :: "int gomap \<Rightarrow> ManifestRow gomap \<Rightarrow> ManifestRow list \<Rightarrow> bool" where
  "tracks seen owners rows \<longleftrightarrow>
     (\<forall>k. has_key seen k \<longleftrightarrow> k \<in> source_key ` set rows) \<and>
     (\<forall>k. has_key owners k \<longleftrightarrow> k \<in> target_key ` set rows) \<and>
     (\<forall>k r. map_of owners k = Some r \<longrightarrow> r \<in> set rows \<and> target_key r = k)"

lemma key_inj:
  assumes "a \<in> {AuthorityJK, AuthorityUCLA}" "b \<in> {AuthorityJK, AuthorityUCLA}"
  shows "a @ CHR 0x00 # s = b @ CHR 0x00 # t \<longleftrightarrow> a = b \<and> s = t"
  using assms by auto

lemma tracks_snoc:
  assumes "tracks seen owners rows"
  shows "tracks (AList.update (source_key row) line seen) (AList.update (target_key row) row owners) (rows @ [row])"
  using assms by (auto simp: tracks_def simp del: map_of_eq_Some_iff split: if_splits)

lemma entries_ok_snoc:
  "entries_ok (rows @ [row]) \<longleftrightarrow>
     entries_ok rows \<and> row_ok row \<and> mr_Line row = int (length rows) + 2 \<and>
     source_of row \<notin> source_of ` set rows \<and> target_of row \<notin> target_of ` set rows"
  by (auto simp: entries_ok_def)

lemma entries_ok_prefix: "entries_ok (xs @ ys) \<Longrightarrow> entries_ok xs"
  by (induction ys rule: rev_induct) (auto simp: entries_ok_snoc simp flip: append_assoc)

lemma check_duplicates_iff:
  assumes "tracks seen owners rows" and "entries_ok rows" and "row_ok row"
  shows "check_duplicates seen owners line row = None \<longleftrightarrow>
    source_of row \<notin> source_of ` set rows \<and> target_of row \<notin> target_of ` set rows"
proof -
  have auth: "mr_SourceAuthority r \<in> {AuthorityJK, AuthorityUCLA}" if "r \<in> set rows \<or> r = row" for r
    using that assms by (auto simp: entries_ok_def row_ok_def)
  have same: "source_key row = source_key r \<longleftrightarrow> source_of row = source_of r"
    "target_key row = target_key r \<longleftrightarrow> target_of row = target_of r" if "r \<in> set rows" for r
    using key_inj [OF auth auth, of row r] that
    by (simp_all add: source_key_def target_key_def source_of_def target_of_def)
  have "map_of seen (source_key row) = None \<longleftrightarrow> source_key row \<notin> source_key ` set rows"
    using assms(1) unfolding tracks_def has_key_def by blast
  also have "\<dots> \<longleftrightarrow> source_of row \<notin> source_of ` set rows"
    unfolding image_iff using same(1) by (simp cong: bex_cong)
  finally have seen: "map_of seen (source_key row) = None \<longleftrightarrow> source_of row \<notin> source_of ` set rows" .
  have "map_of owners (target_key row) = None \<longleftrightarrow> target_key row \<notin> target_key ` set rows"
    using assms(1) unfolding tracks_def has_key_def by blast
  also have "\<dots> \<longleftrightarrow> target_of row \<notin> target_of ` set rows"
    unfolding image_iff using same(2) by (simp cong: bex_cong)
  finally have owner: "map_of owners (target_key row) = None \<longleftrightarrow> target_of row \<notin> target_of ` set rows" .
  have "source_of row \<in> source_of ` set rows"
    if "map_of owners (target_key row) = Some r" "mr_SourceID r = mr_SourceID row" for r
  proof -
    have "r \<in> set rows" "target_key r = target_key row" using that(1) assms(1) by (auto simp: tracks_def)
    then show ?thesis using same(2) [of r] that(2) by (auto simp: source_of_def target_of_def image_iff)
  qed
  then show ?thesis using seen owner
    by (auto simp: check_duplicates_def simp del: map_of_eq_Some_iff split: option.splits)
qed

subsection \<open>The loop\<close>

lemma parse_rows_sound:
  "parse_rows Quote (int (length rows) + 2) n s seen owners rows = Inr rows' \<Longrightarrow> tracks seen owners rows \<Longrightarrow>
     entries_ok rows \<Longrightarrow> entries_ok rows'"
proof (induction s arbitrary: n seen owners rows rule: measure_induct_rule [of length])
  case (less s)
  let ?line = "int (length rows) + 2"
  note eq = less.prems(1) [unfolded parse_rows.simps [of Quote ?line n s seen owners rows]]
  show ?case
  proof (cases "\<exists>record rest n1. csv_Read n s = Inr (Some (record, rest, n1))")
    case True
    then obtain entry rest n1 where got: "csv_Read n s = Inr (Some (entry, rest, n1))" by blast
    obtain row where row: "length entry = 7" "parseManifestRow Quote entry ?line = Inr row"
      "check_duplicates seen owners ?line row = None"
      and next_row: "parse_rows Quote (?line + 1) n1 rest (AList.update (source_key row) ?line seen)
          (AList.update (target_key row) row owners) (rows @ [row]) = Inr rows'"
      using eq by (auto simp: got split: if_splits sum.splits option.splits)
    have "entries_ok (rows @ [row])"
      using row less.prems(3) check_duplicates_iff [OF less.prems(2,3)] parseManifestRow_iff [OF row(1)]
      by (auto simp: entries_ok_snoc)
    moreover have "?line + 1 = int (length (rows @ [row])) + 2" by simp
    ultimately show ?thesis
      using less.IH [OF csv_Read_rest [OF got]] next_row tracks_snoc [OF less.prems(2)] by metis
  next
    case False
    then have "rows' = rows" using eq by (auto split: sum.splits option.splits)
    then show ?thesis using less.prems(3) by simp
  qed
qed

lemma parse_rows_written:
  assumes "\<forall>row \<in> set rows. free_text_ok row" and "entries_ok (acc @ rows)" and "tracks seen owners acc"
  shows "parse_rows Quote (int (length acc) + 2) n (concat (map (\<lambda>row. csv_record (manifest_record row)) rows))
    seen owners acc = Inr (acc @ rows)"
  using assms
proof (induction rows arbitrary: n acc seen owners)
  case Nil
  then show ?case by (simp add: parse_rows.simps csv_Read.simps readLine_def)
next
  case (Cons row rows)
  let ?line = "int (length acc) + 2" and ?rest = "concat (map (\<lambda>row. csv_record (manifest_record row)) rows)"
  have acc: "entries_ok (acc @ [row])" using Cons.prems(2) entries_ok_prefix [of "acc @ [row]" rows] by simp
  then have row: "row_ok row" "mr_Line row = ?line" "source_of row \<notin> source_of ` set acc" "target_of row \<notin> target_of ` set acc"
    and acc0: "entries_ok acc" by (auto simp: entries_ok_snoc)
  obtain n1 where "csv_Read n (csv_record (manifest_record row) @ ?rest) = Inr (Some (manifest_record row, ?rest, n1))"
    using csv_Read_row [OF row(1), of n ?rest] Cons.prems(1) by auto
  moreover have len: "length (manifest_record row) = 7" by (simp add: manifest_record_def)
  moreover have "parseManifestRow Quote (manifest_record row) ?line = Inr row"
    using parseManifestRow_iff [OF len] row by simp
  moreover have "check_duplicates seen owners ?line row = None"
    using check_duplicates_iff [OF Cons.prems(3) acc0 row(1)] row by simp
  moreover have "parse_rows Quote (int (length (acc @ [row])) + 2) n1 ?rest (AList.update (source_key row) ?line seen)
      (AList.update (target_key row) row owners) (acc @ [row]) = Inr ((acc @ [row]) @ rows)"
    using Cons by (intro Cons.IH tracks_snoc) simp_all
  ultimately show ?case by (subst parse_rows.simps) simp
qed

subsection \<open>Split pairs\<close>

definition split_row :: "string \<Rightarrow> authority \<Rightarrow> ManifestRow \<Rightarrow> bool" where
  "split_row k a row \<longleftrightarrow> mr_Disposition row = DispositionSplit \<and> mr_SourceAuthority row = a \<and> legacy_id row = k"

lemma first_some_None: "first_some f xs = None \<longleftrightarrow> (\<forall>x \<in> set xs. f x = None)"
  by (induction xs) (auto split: option.split)

lemma fold_add_split:
  assumes "\<forall>row \<in> set rows. mr_Line row \<noteq> 0 \<and> mr_SourceAuthority row \<in> {AuthorityJK, AuthorityUCLA}"
  shows "has_key (fold add_split rows pairs) k \<longleftrightarrow>
      has_key pairs k \<or> (\<exists>row \<in> set rows. mr_Disposition row = DispositionSplit \<and> legacy_id row = k)"
    and "fst (get_or (0, 0) (fold add_split rows pairs) k) \<noteq> 0 \<longleftrightarrow>
      fst (get_or (0, 0) pairs k) \<noteq> 0 \<or> (\<exists>row \<in> set rows. split_row k AuthorityJK row)"
    and "snd (get_or (0, 0) (fold add_split rows pairs) k) \<noteq> 0 \<longleftrightarrow>
      snd (get_or (0, 0) pairs k) \<noteq> 0 \<or> (\<exists>row \<in> set rows. split_row k AuthorityUCLA row)"
  using assms by (induction rows arbitrary: pairs) (auto simp: add_split_def split_row_def Let_def)

lemma validateSplitPairs_iff:
  assumes "entries_ok rows"
  shows "validateSplitPairs Quote rk rows = None \<longleftrightarrow> splits_ok rows"
proof -
  have rows: "\<forall>row \<in> set rows. mr_Line row \<noteq> 0 \<and> mr_SourceAuthority row \<in> {AuthorityJK, AuthorityUCLA}"
  proof
    fix row assume row: "row \<in> set rows"
    have "map mr_Line rows = map (\<lambda>i. int i + 2) [0..<length rows]" using assms by (simp add: entries_ok_def)
    from arg_cong [OF this, of set] have "mr_Line ` set rows = (\<lambda>i. int i + 2) ` {0..<length rows}" by simp
    then have "mr_Line row \<in> (\<lambda>i. int i + 2) ` {0..<length rows}" using row by blast
    then have "mr_Line row \<noteq> 0" by auto
    then show "mr_Line row \<noteq> 0 \<and> mr_SourceAuthority row \<in> {AuthorityJK, AuthorityUCLA}"
      using assms row by (auto simp: entries_ok_def row_ok_def)
  qed
  let ?pairs = "fold add_split rows []"
  have keys: "k \<in> set (range_keys rk ?pairs) \<longleftrightarrow> (\<exists>row \<in> set rows. mr_Disposition row = DispositionSplit \<and> legacy_id row = k)" for k
    using fold_add_split(1) [OF rows, of "[]" k] by (simp add: has_key_iff_mem)
  have none: "split_refusal Quote ?pairs k = None \<longleftrightarrow>
      (\<exists>row \<in> set rows. split_row k AuthorityJK row) \<and> (\<exists>row \<in> set rows. split_row k AuthorityUCLA row)" for k
    using fold_add_split(2,3) [OF rows, of "[]" k]
    by (auto simp: split_refusal_def get_or_def Let_def case_prod_unfold)
  have "validateSplitPairs Quote rk rows = None \<longleftrightarrow>
      (\<forall>k. k \<in> set (range_keys rk ?pairs) \<longrightarrow> split_refusal Quote ?pairs k = None)"
    by (simp only: validateSplitPairs_def first_some_None Let_def Ball_def)
  also have "\<dots> \<longleftrightarrow> splits_ok rows" unfolding keys none splits_ok_def split_row_def by blast
  finally show ?thesis .
qed

subsection \<open>Parsing and inverting\<close>

lemma validateHeader_ok: "validateHeader Quote manifestHeader = None"
  by (simp add: validateHeader_def first_some_None)

lemma ParseManifest_ok:
  assumes "ParseManifest Quote rk s = Inr rows"
  shows "manifest_ok rows"
proof -
  obtain header rest n where "csv_Read 0 s = Inr (Some (header, rest, n))"
    and loop: "parse_rows Quote 2 n rest [] [] [] = Inr rows"
    and rest: "rows \<noteq> []" "validateSplitPairs Quote rk rows = None"
    using assms by (auto simp: ParseManifest_def split: sum.splits option.splits if_splits)
  have "entries_ok rows"
    by (rule parse_rows_sound [where rows = "[]"]) (use loop in \<open>auto simp: tracks_def entries_ok_def has_key_def\<close>)
  then show ?thesis using rest validateSplitPairs_iff by (simp add: manifest_ok_def)
qed

lemma ParseManifest_written:
  assumes "manifest_ok rows" and "\<forall>row \<in> set rows. free_text_ok row"
  shows "ParseManifest Quote rk (WriteManifest rows) = Inr rows"
proof -
  let ?rest = "concat (map (\<lambda>row. csv_record (manifest_record row)) rows)"
  have "\<forall>f \<in> set manifestHeader. no_CRLF f" by code_simp
  then obtain n where "csv_Read 0 (WriteManifest rows) = Inr (Some (manifestHeader, ?rest, n))"
    using csv_Read_written [of manifestHeader 0 ?rest] by (auto simp: WriteManifest_def manifestHeader_def)
  moreover have "parse_rows Quote 2 n ?rest [] [] [] = Inr rows"
    using parse_rows_written [of rows "[]" "[]" "[]" Quote n] assms
    by (simp add: manifest_ok_def tracks_def has_key_def)
  ultimately show ?thesis
    using assms(1) validateSplitPairs_iff [of rows Quote rk] by (simp add: ParseManifest_def validateHeader_ok manifest_ok_def)
qed

lemma swap_fields [simp]:
  "mr_SourceAuthority (swap_ids row) = mr_SourceAuthority row" "mr_SourceID (swap_ids row) = mr_TargetID row"
  "mr_TargetID (swap_ids row) = mr_SourceID row" "mr_Disposition (swap_ids row) = mr_Disposition row"
  "mr_OwnerRepo (swap_ids row) = mr_OwnerRepo row" "mr_Evidence (swap_ids row) = mr_Evidence row"
  "mr_ControlPlane (swap_ids row) = mr_ControlPlane row" "mr_Line (swap_ids row) = mr_Line row"
  "source_of (swap_ids row) = target_of row" "target_of (swap_ids row) = source_of row"
  "swap_ids (swap_ids row) = row" "free_text_ok (swap_ids row) = free_text_ok row"
  by (simp_all add: swap_ids_def source_of_def target_of_def free_text_ok_def)

lemma row_ok_swap: "row_ok row \<Longrightarrow> row_ok (swap_ids row)"
  by (auto simp: row_ok_def mapping_ok_def renames_def Let_def)

lemma legacy_id_swap:
  assumes "row_ok row" and "mr_Disposition row = DispositionSplit"
  shows "legacy_id (swap_ids row) = legacy_id row"
  using assms authority_prefix_scope
  by (auto simp: row_ok_def mapping_ok_def renames_def legacy_id_def hasExplicitScope_def Let_def)

lemma manifest_ok_swap:
  assumes "manifest_ok rows"
  shows "manifest_ok (map swap_ids rows)"
proof -
  have ok: "\<forall>row \<in> set rows. row_ok row" using assms by (simp add: manifest_ok_def entries_ok_def)
  have "entries_ok (map swap_ids rows)" using assms by (auto simp: manifest_ok_def entries_ok_def comp_def row_ok_swap)
  moreover have "splits_ok (map swap_ids rows)"
    unfolding splits_ok_def
  proof (intro ballI impI)
    fix row a assume "row \<in> set (map swap_ids rows)" "mr_Disposition row = DispositionSplit"
      and a: "a \<in> {AuthorityJK, AuthorityUCLA}"
    then obtain r where r: "r \<in> set rows" "row = swap_ids r" "mr_Disposition r = DispositionSplit" by auto
    obtain r' where r': "r' \<in> set rows" "mr_Disposition r' = DispositionSplit" "mr_SourceAuthority r' = a"
      "legacy_id r' = legacy_id r"
      using assms r(1,3) a unfolding manifest_ok_def splits_ok_def by blast
    have "legacy_id (swap_ids r') = legacy_id row" using r r' ok legacy_id_swap by simp
    then show "\<exists>row' \<in> set (map swap_ids rows). mr_Disposition row' = DispositionSplit \<and> mr_SourceAuthority row' = a \<and>
        legacy_id row' = legacy_id row"
      using r' by (intro bexI [of _ "swap_ids r'"]) auto
  qed
  ultimately show ?thesis using assms by (simp add: manifest_ok_def)
qed

lemma row_ok_meaning:
  assumes "row_ok row"
  shows "let a = mr_SourceAuthority row; p = (if a = AuthorityJK then ''personal.'' else ''ucla.'') in
     (a = AuthorityJK \<or> a = AuthorityUCLA) \<and> mr_SourceID row \<noteq> [] \<and> mr_TargetID row \<noteq> [] \<and>
     (if mr_Disposition row = DispositionUnchanged then
        mr_TargetID row = mr_SourceID row \<and>
        (if mr_ControlPlane row then CHR ''.'' \<notin> set (mr_SourceID row) else explicitScope (mr_SourceID row) \<noteq> None)
      else
        \<not> mr_ControlPlane row \<and>
        (explicitScope (mr_SourceID row) = None \<and> mr_TargetID row = p @ mr_SourceID row \<or>
         explicitScope (mr_TargetID row) = None \<and> mr_SourceID row = p @ mr_TargetID row))"
proof (cases "mr_Disposition row = DispositionUnchanged")
  case True
  then have "\<not> renames row" by (simp add: renames_def)
  then show ?thesis using assms True
    by (auto simp: row_ok_def mapping_ok_def field_ok_def hasExplicitScope_def Let_def)
next
  case False
  then have "renames row" using assms by (auto simp: row_ok_def mapping_ok_def Let_def split: if_splits)
  then show ?thesis using assms False
    by (simp add: row_ok_def mapping_ok_def field_ok_def hasExplicitScope_def authority_prefix_def Let_def)
qed

text \<open>A small manifest: a migrated identity, a split one with both rows, and the control plane.\<close>

definition ex_row :: "authority \<Rightarrow> string \<Rightarrow> string \<Rightarrow> disposition \<Rightarrow> bool \<Rightarrow> int \<Rightarrow> ManifestRow" where
  "ex_row a s t d cp line =
     \<lparr>mr_SourceAuthority = a, mr_SourceID = s, mr_TargetID = t, mr_Disposition = d, mr_OwnerRepo = ''ops'',
      mr_Evidence = ''kept, since '' @ [QUOTE] @ ''2024'' @ [QUOTE, NL] @ ''reviewed'', mr_ControlPlane = cp, mr_Line = line\<rparr>"

definition ex_manifest :: manifest where
  "ex_manifest =
     [ex_row AuthorityJK ''writer'' ''personal.writer'' DispositionMigrate False 2,
      ex_row AuthorityJK ''mail'' ''personal.mail'' DispositionSplit False 3,
      ex_row AuthorityUCLA ''mail'' ''ucla.mail'' DispositionSplit False 4,
      ex_row AuthorityJK ''router'' ''router'' DispositionUnchanged True 5]"

definition ex_manifest_text :: string where
  "ex_manifest_text = WriteManifest ex_manifest"

lemma ex_manifest_parsed: "ParseManifest (\<lambda>s. s) (\<lambda>_. 0) ex_manifest_text = Inr ex_manifest"
  by code_simp

text \<open>
  C21. What the parser guarantees of a manifest it accepts: every row renames an identity by putting the
  prefix of its authority in front of an unscoped name or by taking it off again, or leaves a scoped or
  control-plane identity alone; no identity of an authority is the source or the target of two rows; an
  identity that is split has a row under both authorities.
\<close>

theorem parsed_manifest:
  assumes "ParseManifest Quote rk s = Inr rows"
  shows "(\<forall>row \<in> set rows.
      (let a = mr_SourceAuthority row; p = (if a = AuthorityJK then ''personal.'' else ''ucla.'') in
       (a = AuthorityJK \<or> a = AuthorityUCLA) \<and> mr_SourceID row \<noteq> [] \<and> mr_TargetID row \<noteq> [] \<and>
       (if mr_Disposition row = DispositionUnchanged then
          mr_TargetID row = mr_SourceID row \<and>
          (if mr_ControlPlane row then CHR ''.'' \<notin> set (mr_SourceID row) else explicitScope (mr_SourceID row) \<noteq> None)
        else
          \<not> mr_ControlPlane row \<and>
          (explicitScope (mr_SourceID row) = None \<and> mr_TargetID row = p @ mr_SourceID row \<or>
           explicitScope (mr_TargetID row) = None \<and> mr_SourceID row = p @ mr_TargetID row)))) \<and>
    (\<forall>i < length rows. \<forall>j < length rows. i \<noteq> j \<and> mr_SourceAuthority (rows ! i) = mr_SourceAuthority (rows ! j) \<longrightarrow>
      mr_SourceID (rows ! i) \<noteq> mr_SourceID (rows ! j) \<and> mr_TargetID (rows ! i) \<noteq> mr_TargetID (rows ! j)) \<and>
    (\<forall>row \<in> set rows. mr_Disposition row = DispositionSplit \<longrightarrow>
      (\<forall>a \<in> {AuthorityJK, AuthorityUCLA}. \<exists>row' \<in> set rows. mr_Disposition row' = DispositionSplit \<and>
         mr_SourceAuthority row' = a \<and> legacy_id row' = legacy_id row))"
proof (intro conjI impI)
  have ok: "manifest_ok rows" by (rule ParseManifest_ok [OF assms])
  have "row_ok row" if "row \<in> set rows" for row using ok that by (simp add: manifest_ok_def entries_ok_def)
  then show "\<forall>row \<in> set rows.
      (let a = mr_SourceAuthority row; p = (if a = AuthorityJK then ''personal.'' else ''ucla.'') in
       (a = AuthorityJK \<or> a = AuthorityUCLA) \<and> mr_SourceID row \<noteq> [] \<and> mr_TargetID row \<noteq> [] \<and>
       (if mr_Disposition row = DispositionUnchanged then
          mr_TargetID row = mr_SourceID row \<and>
          (if mr_ControlPlane row then CHR ''.'' \<notin> set (mr_SourceID row) else explicitScope (mr_SourceID row) \<noteq> None)
        else
          \<not> mr_ControlPlane row \<and>
          (explicitScope (mr_SourceID row) = None \<and> mr_TargetID row = p @ mr_SourceID row \<or>
           explicitScope (mr_TargetID row) = None \<and> mr_SourceID row = p @ mr_TargetID row)))"
    using row_ok_meaning by blast
  show "\<forall>i < length rows. \<forall>j < length rows. i \<noteq> j \<and> mr_SourceAuthority (rows ! i) = mr_SourceAuthority (rows ! j) \<longrightarrow>
      mr_SourceID (rows ! i) \<noteq> mr_SourceID (rows ! j) \<and> mr_TargetID (rows ! i) \<noteq> mr_TargetID (rows ! j)"
    using ok by (auto simp: manifest_ok_def entries_ok_def distinct_conv_nth source_of_def target_of_def)
  show "\<forall>row \<in> set rows. mr_Disposition row = DispositionSplit \<longrightarrow>
      (\<forall>a \<in> {AuthorityJK, AuthorityUCLA}. \<exists>row' \<in> set rows. mr_Disposition row' = DispositionSplit \<and>
         mr_SourceAuthority row' = a \<and> legacy_id row' = legacy_id row)"
    using ok by (simp add: manifest_ok_def splits_ok_def)
qed

theorem parsed_manifest_witness:
  "ParseManifest (\<lambda>s. s) (\<lambda>_. 0) ex_manifest_text = Inr ex_manifest \<and>
   (\<exists>row' \<in> set ex_manifest. mr_SourceAuthority row' = AuthorityUCLA \<and> legacy_id row' = ''mail'') \<and>
   mr_TargetID (ex_manifest ! 0) \<noteq> mr_TargetID (ex_manifest ! 1)"
proof (intro conjI)
  show parsed: "ParseManifest (\<lambda>s. s) (\<lambda>_. 0) ex_manifest_text = Inr ex_manifest" by (rule ex_manifest_parsed)
  have "ex_manifest ! 1 \<in> set ex_manifest" "mr_Disposition (ex_manifest ! 1) = DispositionSplit"
    "legacy_id (ex_manifest ! 1) = ''mail''" by code_simp+
  then show "\<exists>row' \<in> set ex_manifest. mr_SourceAuthority row' = AuthorityUCLA \<and> legacy_id row' = ''mail''"
    using bspec [OF parsed_manifest [OF parsed, THEN conjunct2, THEN conjunct2], of "ex_manifest ! 1"] by auto
  have "0 < length ex_manifest" "1 < length ex_manifest"
    "mr_SourceAuthority (ex_manifest ! 0) = mr_SourceAuthority (ex_manifest ! 1)" by code_simp+
  then show "mr_TargetID (ex_manifest ! 0) \<noteq> mr_TargetID (ex_manifest ! 1)"
    using parsed_manifest [OF parsed, THEN conjunct2, THEN conjunct1] by (metis zero_neq_one)
qed

text \<open>
  C20. Writing and inverting a manifest. An accepted manifest whose free-text columns contain no CR LF is
  written and parsed back as it is; \<^verbatim>\<open>InvertManifest\<close> accepts it, exchanges source and target in every row
  and keeps the rest, and inverting the result gives the manifest back.
\<close>

theorem manifest_inverse:
  assumes "ParseManifest Quote rk s = Inr rows"
    and "\<forall>row \<in> set rows. no_CRLF (mr_OwnerRepo row) \<and> no_CRLF (mr_Evidence row)"
  shows "ParseManifest Quote rk' (WriteManifest rows) = Inr rows \<and>
    InvertManifest Quote rk' rows =
      Inr (map (\<lambda>row. row\<lparr>mr_SourceID := mr_TargetID row, mr_TargetID := mr_SourceID row\<rparr>) rows) \<and>
    (InvertManifest Quote rk' rows = Inr rows' \<longrightarrow> InvertManifest Quote rk' rows' = Inr rows)"
proof (intro conjI impI)
  have ok: "manifest_ok rows" and free: "\<forall>row \<in> set rows. free_text_ok row"
    using ParseManifest_ok [OF assms(1)] assms(2) by (simp_all add: free_text_ok_def)
  show "ParseManifest Quote rk' (WriteManifest rows) = Inr rows" by (rule ParseManifest_written [OF ok free])
  have inv: "InvertManifest Quote rk' rows = Inr (map swap_ids rows)"
    unfolding InvertManifest_def using free by (intro ParseManifest_written manifest_ok_swap ok) simp
  then show "InvertManifest Quote rk' rows =
      Inr (map (\<lambda>row. row\<lparr>mr_SourceID := mr_TargetID row, mr_TargetID := mr_SourceID row\<rparr>) rows)"
    by (simp add: swap_ids_def [abs_def])
  show "InvertManifest Quote rk' rows' = Inr rows" if "InvertManifest Quote rk' rows = Inr rows'"
    using that inv ParseManifest_written [OF ok free] by (auto simp: InvertManifest_def comp_def)
qed

theorem manifest_inverse_witness:
  "InvertManifest (\<lambda>s. s) (\<lambda>_. 0) ex_manifest =
     Inr (map (\<lambda>row. row\<lparr>mr_SourceID := mr_TargetID row, mr_TargetID := mr_SourceID row\<rparr>) ex_manifest) \<and>
   ParseManifest (\<lambda>s. s) (\<lambda>_. 0) (WriteManifest ex_manifest) = Inr ex_manifest"
proof -
  have "\<forall>row \<in> set ex_manifest. no_CRLF (mr_OwnerRepo row) \<and> no_CRLF (mr_Evidence row)" by code_simp
  note inv = manifest_inverse [OF ex_manifest_parsed this, of "\<lambda>_. 0"]
  show ?thesis using inv by simp
qed

end
