(* ===== verification/Ns_Migrate.thy ===== *)
theory Ns_Migrate
  imports Ns_Manifest Sqlite_Inv
begin

text \<open>
  The namespace migration, \<^verbatim>\<open>internal/nsmigrate/migrate.go\<close> and \<^verbatim>\<open>report.go\<close>: it renames identities in a copy of
  the database according to a manifest. \<open>Run\<close> checks its options and the manifest, inspects every column that
  holds identities in one transaction, refuses what it cannot rename safely, and rewrites the columns.

  The tables are those of \<open>Sqlite_Db\<close>. What the file system and SQLite answer is the argument \<open>io\<close>. A
  statement \<^verbatim>\<open>UPDATE ... SET agent_id = ? WHERE agent_id = ?\<close> is a map over the rows that fails when the result
  violates the primary key of the table.
\<close>

section \<open>Options, reports and plans\<close>

record options =
  op_DBPath :: string
  op_Authority :: authority
  op_Apply :: bool
  op_AcknowledgeCopy :: bool
  op_ControlPlaneAgents :: "string list"

record collision =
  cl_Code :: string
  cl_SourceID :: string
  cl_TargetID :: string
  cl_ManifestLine :: int

record report =
  rp_Version :: int
  rp_Mode :: string
  rp_Authority :: authority
  rp_Status :: string
  rp_ManifestRows :: int
  rp_ManifestByDisposition :: "int gomap"
  rp_PlannedByDisposition :: "int gomap"
  rp_RewritesBySurface :: "int gomap"
  rp_TotalRewrites :: int
  rp_AlreadyAppliedMappings :: int
  rp_Collisions :: "collision list"
  rp_Refusals :: "refusal list"

definition ReportVersion :: int where
  "ReportVersion = 1"

definition dispositions :: "disposition list" where
  "dispositions = [DispositionMigrate, DispositionRetire, DispositionSplit, DispositionUnchanged]"

definition surfaces :: "string list" where
  "surfaces =
     [''agents.agent_id'', ''messages.from_agent'', ''messages.to_agent'', ''conversations.participants'',
      ''deliveries.target_agent_id'', ''delivery_cursors.target_agent_id'', ''idempotency.from_agent'',
      ''idempotency.to_agent'']"

definition newReport :: "options \<Rightarrow> report" where
  "newReport opts =
     \<lparr>rp_Version = ReportVersion, rp_Mode = (if op_Apply opts then ''apply'' else ''dry-run''),
      rp_Authority = op_Authority opts, rp_Status = ''refused'', rp_ManifestRows = 0,
      rp_ManifestByDisposition = map (\<lambda>d. (d, 0)) dispositions,
      rp_PlannedByDisposition = map (\<lambda>d. (d, 0)) dispositions,
      rp_RewritesBySurface = map (\<lambda>s. (s, 0)) surfaces,
      rp_TotalRewrites = 0, rp_AlreadyAppliedMappings = 0, rp_Collisions = [], rp_Refusals = []\<rparr>"

definition RefusedReport :: "authority \<Rightarrow> bool \<Rightarrow> refusal list \<Rightarrow> report" where
  "RefusedReport authority apply refusals =
     (let report = newReport \<lparr>op_DBPath = [], op_Authority = authority, op_Apply = apply,
                              op_AcknowledgeCopy = False, op_ControlPlaneAgents = []\<rparr> in
      report\<lparr>rp_Refusals := rp_Refusals report @ refusals\<rparr>)"

definition reject :: "report \<Rightarrow> string \<Rightarrow> string \<Rightarrow> string \<Rightarrow> report \<times> refusal list option" where
  "reject report code location detail =
     (let refusals = refuse code location detail in
      (report\<lparr>rp_Status := ''refused'', rp_Refusals := rp_Refusals report @ refusals\<rparr>, Some refusals))"

definition rejectFromError :: "report \<Rightarrow> refusal list \<Rightarrow> report \<times> refusal list option" where
  "rejectFromError report err =
     (report\<lparr>rp_Status := ''refused'', rp_Refusals := rp_Refusals report @ err\<rparr>, Some err)"

definition bump :: "string \<Rightarrow> int \<Rightarrow> int gomap \<Rightarrow> int gomap" where
  "bump k n m = AList.update k (get_or 0 m k + n) m"

record mapping =
  mp_row :: ManifestRow
  mp_active :: bool
  mp_alreadyApplied :: bool

abbreviation mp_SourceID :: "mapping \<Rightarrow> string" where "mp_SourceID item \<equiv> mr_SourceID (mp_row item)"
abbreviation mp_TargetID :: "mapping \<Rightarrow> string" where "mp_TargetID item \<equiv> mr_TargetID (mp_row item)"

record conversation_plan =
  cp_id :: string
  cp_participants :: "string list"
  cp_changed :: bool

record inspection =
  in_present :: "bool gomap"
  in_occurrences :: "int gomap gomap"
  in_conversations :: "conversation_plan list"

section \<open>Checks before the database is opened\<close>

datatype file_mode = Symlink | Regular | OtherFile

definition validateDBPath :: "string + file_mode \<Rightarrow> string \<Rightarrow> string option" where
  "validateDBPath lstat path =
     (if path = [] then Some ''--db is required''
      else case lstat of
        Inl err \<Rightarrow> Some (''stat database: '' @ err)
      | Inr Symlink \<Rightarrow> Some ''database path must not be a symlink''
      | Inr OtherFile \<Rightarrow> Some ''database path must be a regular file''
      | Inr Regular \<Rightarrow> None)"

definition select_row :: "authority \<Rightarrow> ManifestRow \<Rightarrow> mapping list \<times> report \<Rightarrow> mapping list \<times> report" where
  "select_row authority row state =
     (if mr_SourceAuthority row \<noteq> authority then state
      else (fst state @ [\<lparr>mp_row = row, mp_active = False, mp_alreadyApplied = False\<rparr>],
            (snd state)\<lparr>rp_ManifestRows := rp_ManifestRows (snd state) + 1,
              rp_ManifestByDisposition := bump (mr_Disposition row) 1 (rp_ManifestByDisposition (snd state))\<rparr>))"

definition selectMappings :: "manifest \<Rightarrow> authority \<Rightarrow> report \<Rightarrow> mapping list \<times> report" where
  "selectMappings manifest authority report = fold (select_row authority) manifest ([], report)"

definition control_plane_ids :: "mapping list \<Rightarrow> unit gomap" where
  "control_plane_ids mappings =
     fold (\<lambda>item ids. if mr_ControlPlane (mp_row item) then AList.update (mp_SourceID item) () ids else ids) mappings []"

definition config_error_text :: "(string \<Rightarrow> string) \<Rightarrow> config_error \<Rightarrow> string" where
  "config_error_text Quote err =
     (case err of ControlPlanePrefixed agentID \<Rightarrow> ''control-plane identity '' @ Quote agentID @ '' must be unprefixed'' | _ \<Rightarrow> [])"

definition validateControlPlaneAgreement ::
  "(string \<Rightarrow> string) \<Rightarrow> ranking \<Rightarrow> mapping list \<Rightarrow> string list \<Rightarrow> refusal list option" where
  "validateControlPlaneAgreement Quote rk mappings configured =
     (case NormalizeControlPlaneAgents configured of
        Inl err \<Rightarrow> Some (refuse ''control_plane_config'' ''CONTROL_PLANE_AGENTS'' (config_error_text Quote err))
      | Inr normalized \<Rightarrow>
          first_some (\<lambda>agentID. if agentID \<in> set normalized then None
                else Some (refuse ''control_plane_mismatch'' ''manifest''
                  (''control-plane identity '' @ Quote agentID @ '' is absent from CONTROL_PLANE_AGENTS'')))
            (range_keys rk (control_plane_ids mappings)))"

section \<open>Inspection\<close>

datatype query_error = QueryFailed | ScanFailed string | RowsFailed string
datatype participants_error = ParticipantsScan string | ParticipantsJSON
datatype exec_error = ExecFailed string | CountFailed string

text \<open>
  \<open>mg_Query\<close> is the error of the query on a surface, \<open>mg_Participants\<close> that of a row of \<^verbatim>\<open>conversations\<close>:
  reading it, or a text in the column that is not a JSON array of strings. \<open>mg_Exec\<close> is the error of the
  update of a surface for a source identity or a conversation.
\<close>

record migrate_io =
  mg_Lstat :: "string + file_mode"
  mg_Open :: "string option"
  mg_Begin :: "(bool \<times> string) option"
  mg_Query :: "string \<Rightarrow> query_error option"
  mg_Participants :: "string \<Rightarrow> participants_error option"
  mg_Rollback :: "string option"
  mg_Exec :: "string \<Rightarrow> string \<Rightarrow> exec_error option"
  mg_Commit :: "string option"

definition nonempty :: "string list \<Rightarrow> string list" where
  "nonempty ids = filter (\<lambda>identity. identity \<noteq> []) ids"

definition queries :: "(string \<times> (sqldb \<Rightarrow> string list)) list" where
  "queries =
     [(''agents.agent_id'', \<lambda>db. map fst (t_agents db)),
      (''messages.from_agent'', \<lambda>db. map (\<lambda>(k, m). m_From m) (t_messages db)),
      (''messages.to_agent'', \<lambda>db. nonempty (map (\<lambda>(k, m). m_To m) (t_messages db))),
      (''deliveries.target_agent_id'', \<lambda>db. map dl_target_agent_id (t_deliveries db)),
      (''delivery_cursors.target_agent_id'', \<lambda>db. map fst (t_delivery_cursors db)),
      (''idempotency.from_agent'', \<lambda>db. map id_from_agent (t_idempotency db)),
      (''idempotency.to_agent'', \<lambda>db. nonempty (map id_to_agent (t_idempotency db)))]"

definition addOccurrence :: "string \<Rightarrow> string \<Rightarrow> inspection \<Rightarrow> inspection" where
  "addOccurrence surface identity result =
     (if identity = [] then result
      else result\<lparr>in_present := AList.update identity True (in_present result),
             in_occurrences := AList.update surface (bump identity 1 (get_or [] (in_occurrences result) surface))
               (in_occurrences result)\<rparr>)"

fun inspect_queries :: "migrate_io \<Rightarrow> sqldb \<Rightarrow> (string \<times> (sqldb \<Rightarrow> string list)) list \<Rightarrow> inspection \<Rightarrow> refusal list + inspection" where
  "inspect_queries io db [] result = Inr result"
| "inspect_queries io db ((surface, column) # items) result =
     (case mg_Query io surface of
        Some QueryFailed \<Rightarrow> Inl (refuse ''database_schema'' surface ''required identity column is unavailable'')
      | Some (ScanFailed err) \<Rightarrow> Inl (refuse ''database_error'' surface (''scan identity value: '' @ err))
      | Some (RowsFailed err) \<Rightarrow> Inl (refuse ''database_error'' surface (''read identity values: '' @ err))
      | None \<Rightarrow> inspect_queries io db items (fold (addOccurrence surface) (column db) result))"

definition participants_surface :: string where
  "participants_surface = ''conversations.participants''"

fun inspect_rows :: "migrate_io \<Rightarrow> (string \<times> conversation) list \<Rightarrow> inspection \<Rightarrow> refusal list + inspection" where
  "inspect_rows io [] result = Inr result"
| "inspect_rows io ((cid, c) # rows) result =
     (case mg_Participants io cid of
        Some (ParticipantsScan err) \<Rightarrow> Inl (refuse ''database_error'' participants_surface (''scan participants: '' @ err))
      | Some ParticipantsJSON \<Rightarrow>
          Inl (refuse ''invalid_participants_json'' participants_surface
            ''conversation participants must be a JSON array of strings'')
      | None \<Rightarrow>
        (let result1 = fold (addOccurrence participants_surface) (c_Participants c) result in
         inspect_rows io rows (result1\<lparr>in_conversations := in_conversations result1 @
           [\<lparr>cp_id = cid, cp_participants = c_Participants c, cp_changed = False\<rparr>]\<rparr>)))"

definition inspectConversations :: "migrate_io \<Rightarrow> sqldb \<Rightarrow> inspection \<Rightarrow> refusal list + inspection" where
  "inspectConversations io db result =
     (case mg_Query io participants_surface of
        Some QueryFailed \<Rightarrow> Inl (refuse ''database_schema'' participants_surface ''required identity column is unavailable'')
      | query \<Rightarrow>
          (case inspect_rows io (sort_key fst (t_conversations db)) result of
             Inl err \<Rightarrow> Inl err
           | Inr result1 \<Rightarrow>
               (case query of
                  Some (RowsFailed err) \<Rightarrow> Inl (refuse ''database_error'' participants_surface (''read participants: '' @ err))
                | _ \<Rightarrow> Inr result1)))"

definition inspect :: "migrate_io \<Rightarrow> sqldb \<Rightarrow> refusal list + inspection" where
  "inspect io db =
     (case inspect_queries io db queries \<lparr>in_present = [], in_occurrences = [], in_conversations = []\<rparr> of
        Inl err \<Rightarrow> Inl err
      | Inr result \<Rightarrow> inspectConversations io db result)"

section \<open>Preflight\<close>

definition occurrences_of :: "inspection \<Rightarrow> string \<Rightarrow> string \<Rightarrow> int" where
  "occurrences_of inspected surface identity = get_or 0 (get_or [] (in_occurrences inspected) surface) identity"

definition plan_item :: "inspection \<Rightarrow> mapping \<Rightarrow> report \<Rightarrow> mapping \<times> report" where
  "plan_item inspected item report =
     (let sourcePresent = get_or False (in_present inspected) (mp_SourceID item);
          targetPresent = get_or False (in_present inspected) (mp_TargetID item);
          item1 = item\<lparr>mp_active := sourcePresent, mp_alreadyApplied := \<not> sourcePresent \<and> targetPresent\<rparr>;
          report1 =
            (if mp_active item1 then
               fold (\<lambda>surface r. let count = occurrences_of inspected surface (mp_SourceID item) in
                   r\<lparr>rp_RewritesBySurface := bump surface count (rp_RewritesBySurface r),
                     rp_TotalRewrites := rp_TotalRewrites r + count\<rparr>) surfaces
                 (report\<lparr>rp_PlannedByDisposition :=
                    bump (mr_Disposition (mp_row item)) 1 (rp_PlannedByDisposition report)\<rparr>)
             else report);
          report2 =
            (if mp_alreadyApplied item1 then report1\<lparr>rp_AlreadyAppliedMappings := rp_AlreadyAppliedMappings report1 + 1\<rparr>
             else report1) in
      (item1, report2))"

fun preflight_rows :: "inspection \<Rightarrow> mapping list \<Rightarrow> report \<Rightarrow> refusal list option \<times> mapping list \<times> report" where
  "preflight_rows inspected [] report = (None, [], report)"
| "preflight_rows inspected (item # items) report =
     (if mp_SourceID item = mp_TargetID item then
        (let (err, items1, report1) = preflight_rows inspected items report in (err, item # items1, report1))
      else if get_or False (in_present inspected) (mp_SourceID item) \<and>
              get_or False (in_present inspected) (mp_TargetID item) then
        (Some (refuse ''target_occupied'' (manifest_line (mr_Line (mp_row item)))
           ''target_id is already occupied while its source identity is still present''),
         item # items,
         report\<lparr>rp_Collisions := rp_Collisions report @
           [\<lparr>cl_Code = ''target_occupied'', cl_SourceID = mp_SourceID item, cl_TargetID = mp_TargetID item,
             cl_ManifestLine = mr_Line (mp_row item)\<rparr>]\<rparr>)
      else
        (let (item1, report1) = plan_item inspected item report;
             (err, items1, report2) = preflight_rows inspected items report1 in
         (err, item1 # items1, report2)))"

definition add_replacement :: "mapping \<Rightarrow> string gomap \<Rightarrow> string gomap" where
  "add_replacement item m = (if mp_active item then AList.update (mp_SourceID item) (mp_TargetID item) m else m)"

definition replacements :: "mapping list \<Rightarrow> string gomap" where
  "replacements mappings = fold add_replacement mappings []"

definition plan_conversation :: "string gomap \<Rightarrow> conversation_plan \<Rightarrow> conversation_plan" where
  "plan_conversation repl c =
     c\<lparr>cp_participants := map (\<lambda>p. get_or p repl p) (cp_participants c),
       cp_changed := (cp_changed c \<or> list_ex (has_key repl) (cp_participants c))\<rparr>"

definition mixed_scopes :: "string list \<Rightarrow> bool" where
  "mixed_scopes participants \<longleftrightarrow>
     list_ex (\<lambda>p. explicitScope p = Some ''personal'') participants \<and>
     list_ex (\<lambda>p. explicitScope p = Some ''ucla'') participants"

fun plan_conversations :: "string gomap \<Rightarrow> conversation_plan list \<Rightarrow> refusal list option \<times> conversation_plan list" where
  "plan_conversations repl [] = (None, [])"
| "plan_conversations repl (c # cs) =
     (let c1 = plan_conversation repl c in
      if mixed_scopes (cp_participants c1) then
        (Some (refuse ''mixed_scope_participants'' participants_surface
           ''conversation would contain both personal.* and ucla.* participants''), c1 # cs)
      else (let (err, cs1) = plan_conversations repl cs in (err, c1 # cs1)))"

definition planConversations :: "mapping list \<Rightarrow> conversation_plan list \<Rightarrow> refusal list option \<times> conversation_plan list" where
  "planConversations mappings conversations = plan_conversations (replacements mappings) conversations"

text \<open>An identity that no row names is refused, whichever the loop over the map meets first.\<close>

definition preflight ::
  "mapping list \<Rightarrow> inspection \<Rightarrow> report \<Rightarrow> refusal list option \<times> mapping list \<times> inspection \<times> report" where
  "preflight mappings inspected report =
     (if list_ex (\<lambda>(identity, _). identity \<notin> set (map mp_SourceID mappings) \<and> identity \<notin> set (map mp_TargetID mappings))
           (in_present inspected) then
        (Some (refuse ''unknown_identity'' ''database'' ''identity is not named by the manifest under the declared authority''),
         mappings, inspected, report)
      else
        (let (err, mappings1, report1) = preflight_rows inspected mappings report in
         case err of
           Some e \<Rightarrow> (Some e, mappings1, inspected, report1)
         | None \<Rightarrow>
             (let (err1, conversations) = planConversations mappings1 (in_conversations inspected) in
              (err1, mappings1, inspected\<lparr>in_conversations := conversations\<rparr>, report1))))"

section \<open>Applying the plan\<close>

type_synonym update = "string \<Rightarrow> string \<Rightarrow> sqldb \<Rightarrow> string + nat \<times> sqldb"

text \<open>An update of a column: the rows it changes, and the constraint the table has to satisfy afterwards.\<close>

definition rename1 :: "string \<Rightarrow> string \<Rightarrow> string \<Rightarrow> string" where
  "rename1 target source identity = (if identity = source then target else identity)"

definition update_agents :: update where
  "update_agents target source db =
     (let rows = map (\<lambda>(k, r). if k = source then (target, r\<lparr>ar_agent := (ar_agent r)\<lparr>a_AgentID := target\<rparr>\<rparr>) else (k, r))
                   (t_agents db) in
      if \<not> keys_distinct rows then Inl ''UNIQUE constraint failed: agents.agent_id''
      else Inr (count_list (map fst (t_agents db)) source, db\<lparr>t_agents := rows\<rparr>))"

definition update_from :: update where
  "update_from target source db =
     Inr (count_list (map (\<lambda>(k, m). m_From m) (t_messages db)) source,
          db\<lparr>t_messages := map (\<lambda>(k, m). if m_From m = source then (k, m\<lparr>m_From := target\<rparr>) else (k, m)) (t_messages db)\<rparr>)"

definition update_to :: update where
  "update_to target source db =
     Inr (count_list (nonempty (map (\<lambda>(k, m). m_To m) (t_messages db))) source,
          db\<lparr>t_messages := map (\<lambda>(k, m). if m_To m = source \<and> m_To m \<noteq> [] then (k, m\<lparr>m_To := target\<rparr>) else (k, m))
               (t_messages db)\<rparr>)"

definition delivery_key :: "delivery_row \<Rightarrow> string \<times> int" where
  "delivery_key d = (dl_target_agent_id d, dl_delivery_seq d)"

definition update_targets :: update where
  "update_targets target source db =
     (let rows = map (\<lambda>d. if dl_target_agent_id d = source then d\<lparr>dl_target_agent_id := target\<rparr> else d) (t_deliveries db) in
      if \<not> distinct (map delivery_key rows) then Inl ''UNIQUE constraint failed: deliveries.target_agent_id''
      else Inr (count_list (map dl_target_agent_id (t_deliveries db)) source, db\<lparr>t_deliveries := rows\<rparr>))"

definition update_cursors :: update where
  "update_cursors target source db =
     (let rows = map (\<lambda>(k, r). if k = source then (target, r) else (k, r)) (t_delivery_cursors db) in
      if \<not> keys_distinct rows then Inl ''UNIQUE constraint failed: delivery_cursors.target_agent_id''
      else Inr (count_list (map fst (t_delivery_cursors db)) source, db\<lparr>t_delivery_cursors := rows\<rparr>))"

definition update_receipts_from :: update where
  "update_receipts_from target source db =
     (let rows = map (\<lambda>r. if id_from_agent r = source then r\<lparr>id_from_agent := target\<rparr> else r) (t_idempotency db) in
      if \<not> distinct (map receipt_key rows) then Inl ''UNIQUE constraint failed: idempotency.from_agent''
      else Inr (count_list (map id_from_agent (t_idempotency db)) source, db\<lparr>t_idempotency := rows\<rparr>))"

definition update_receipts_to :: update where
  "update_receipts_to target source db =
     (let rows = map (\<lambda>r. if id_to_agent r = source \<and> id_to_agent r \<noteq> [] then r\<lparr>id_to_agent := target\<rparr> else r)
                   (t_idempotency db) in
      if \<not> distinct (map receipt_key rows) then Inl ''UNIQUE constraint failed: idempotency.to_agent''
      else Inr (count_list (nonempty (map id_to_agent (t_idempotency db))) source, db\<lparr>t_idempotency := rows\<rparr>))"

definition updates :: "(string \<times> update) list" where
  "updates =
     [(''agents.agent_id'', update_agents), (''messages.from_agent'', update_from), (''messages.to_agent'', update_to),
      (''deliveries.target_agent_id'', update_targets), (''delivery_cursors.target_agent_id'', update_cursors),
      (''idempotency.from_agent'', update_receipts_from), (''idempotency.to_agent'', update_receipts_to)]"

definition run_update :: "migrate_io \<Rightarrow> inspection \<Rightarrow> mapping \<Rightarrow> string \<times> update \<Rightarrow> sqldb \<Rightarrow> string + sqldb" where
  "run_update io inspected item entry db =
     (let surface = fst entry; expected = occurrences_of inspected surface (mp_SourceID item) in
      case mg_Exec io surface (mp_SourceID item) of
        Some (ExecFailed err) \<Rightarrow> Inl (''rewrite '' @ surface @ '': '' @ err)
      | failed \<Rightarrow>
          (case snd entry (mp_TargetID item) (mp_SourceID item) db of
             Inl err \<Rightarrow> Inl (''rewrite '' @ surface @ '': '' @ err)
           | Inr (affected, db1) \<Rightarrow>
               (case failed of
                  Some (CountFailed err) \<Rightarrow> Inl (''count rewritten '' @ surface @ '' rows: '' @ err)
                | _ \<Rightarrow>
                    if int affected \<noteq> expected then
                      Inl (''rewrite '' @ surface @ '' changed '' @ fmt_d (int affected) @ '' rows; preflight planned '' @
                           fmt_d expected)
                    else Inr db1)))"

fun each_step :: "('a \<Rightarrow> 'b \<Rightarrow> 'e + 'b) \<Rightarrow> 'a list \<Rightarrow> 'b \<Rightarrow> 'e + 'b" where
  "each_step f [] x = Inr x"
| "each_step f (a # rest) x = (case f a x of Inl err \<Rightarrow> Inl err | Inr y \<Rightarrow> each_step f rest y)"

definition rewrite_item :: "migrate_io \<Rightarrow> inspection \<Rightarrow> mapping \<Rightarrow> sqldb \<Rightarrow> string + sqldb" where
  "rewrite_item io inspected item db =
     (if \<not> mp_active item then Inr db else each_step (run_update io inspected item) updates db)"

definition rewrite_conversation :: "migrate_io \<Rightarrow> conversation_plan \<Rightarrow> sqldb \<Rightarrow> string + sqldb" where
  "rewrite_conversation io c db =
     (if \<not> cp_changed c then Inr db
      else
        (let affected = count_list (map fst (t_conversations db)) (cp_id c) in
         case mg_Exec io participants_surface (cp_id c) of
           Some (ExecFailed err) \<Rightarrow> Inl (''rewrite conversations.participants: '' @ err)
         | Some (CountFailed err) \<Rightarrow> Inl (''count rewritten conversations.participants rows: '' @ err)
         | None \<Rightarrow>
             if affected \<noteq> 1 then
               Inl (''rewrite conversations.participants changed '' @ fmt_d (int affected) @ '' rows; preflight planned 1'')
             else Inr (db\<lparr>t_conversations :=
                    map (\<lambda>(k, row). if k = cp_id c then (k, row\<lparr>c_Participants := cp_participants c\<rparr>) else (k, row))
                      (t_conversations db)\<rparr>)))"

definition applyPlan :: "migrate_io \<Rightarrow> mapping list \<Rightarrow> inspection \<Rightarrow> sqldb \<Rightarrow> string + sqldb" where
  "applyPlan io mappings inspected db =
     (case each_step (rewrite_item io inspected) mappings db of
        Inl err \<Rightarrow> Inl err
      | Inr db1 \<Rightarrow> each_step (rewrite_conversation io) (sort_key cp_id (in_conversations inspected)) db1)"

section \<open>The run\<close>

text \<open>The transaction: what happens once it has begun. Without a commit the database stays as it is.\<close>

definition migrate_transaction ::
  "migrate_io \<Rightarrow> options \<Rightarrow> mapping list \<Rightarrow> report \<Rightarrow> sqldb \<Rightarrow> (report \<times> refusal list option) \<times> sqldb" where
  "migrate_transaction io opts selected report db =
     (case inspect io db of
        Inl err \<Rightarrow> (rejectFromError report err, db)
      | Inr inspected \<Rightarrow>
          (let (err, planned, inspected1, report1) = preflight selected inspected report in
           case err of
             Some e \<Rightarrow> (rejectFromError report1 e, db)
           | None \<Rightarrow>
               if rp_TotalRewrites report1 = 0 then
                 (let report2 = report1\<lparr>rp_Status := ''no-op''\<rparr> in
                  case mg_Rollback io of
                    Some e \<Rightarrow> (reject report2 ''database_error'' ''database'' (''close read transaction: '' @ e), db)
                  | None \<Rightarrow> ((report2, None), db))
               else if \<not> op_Apply opts then
                 (let report2 = report1\<lparr>rp_Status := ''ready''\<rparr> in
                  case mg_Rollback io of
                    Some e \<Rightarrow> (reject report2 ''database_error'' ''database'' (''close dry-run transaction: '' @ e), db)
                  | None \<Rightarrow> ((report2, None), db))
               else
                 (case applyPlan io planned inspected1 db of
                    Inl e \<Rightarrow> (reject report1 ''apply_failed'' ''database'' e, db)
                  | Inr db1 \<Rightarrow>
                      (case mg_Commit io of
                         Some e \<Rightarrow> (reject report1 ''apply_failed'' ''database'' (''commit transaction: '' @ e), db)
                       | None \<Rightarrow> ((report1\<lparr>rp_Status := ''applied''\<rparr>, None), db1)))))"

definition Run ::
  "(string \<Rightarrow> string) \<Rightarrow> ranking \<Rightarrow> migrate_io \<Rightarrow> manifest \<Rightarrow> options \<Rightarrow> sqldb \<Rightarrow> (report \<times> refusal list option) \<times> sqldb" where
  "Run Quote rk io manifest opts db =
     (let report = newReport opts in
      if \<not> op_AcknowledgeCopy opts then
        (reject report ''copy_acknowledgment_required'' ''database'' ''refusing to operate without --acknowledge-copy'', db)
      else case ParseAuthority Quote (op_Authority opts) of
        Inl err \<Rightarrow> (reject report ''invalid_authority'' ''authority'' err, db)
      | Inr _ \<Rightarrow>
          (case validateDBPath (mg_Lstat io) (op_DBPath opts) of
             Some err \<Rightarrow> (reject report ''database_refused'' ''database'' err, db)
           | None \<Rightarrow>
               (let (selected, report1) = selectMappings manifest (op_Authority opts) report in
                if selected = [] then
                  (reject report1 ''manifest_authority'' ''manifest'' ''manifest has no rows for the declared authority'', db)
                else case validateControlPlaneAgreement Quote rk selected (op_ControlPlaneAgents opts) of
                  Some err \<Rightarrow> (rejectFromError report1 err, db)
                | None \<Rightarrow>
                    (case mg_Open io of
                       Some err \<Rightarrow> (reject report1 ''database_refused'' ''database'' err, db)
                     | None \<Rightarrow>
                         (case mg_Begin io of
                            Some (busy, err) \<Rightarrow>
                              if op_Apply opts \<and> busy then
                                (reject report1 ''database_busy'' ''database''
                                   ''another process held a write lock when the apply transaction started'', db)
                              else (reject report1 ''database_error'' ''database'' (''begin transaction: '' @ err), db)
                          | None \<Rightarrow> migrate_transaction io opts selected report1 db)))))"

section \<open>All or nothing\<close>

lemma reject_simps [simp]:
  "rp_Status (fst (reject r c l d)) = ''refused''" "snd (reject r c l d) = Some (refuse c l d)"
  "rp_Status (fst (rejectFromError r e)) = ''refused''" "snd (rejectFromError r e) = Some e"
  by (simp_all add: reject_def rejectFromError_def Let_def)

definition outcome_ok :: "options \<Rightarrow> sqldb \<Rightarrow> (report \<times> refusal list option) \<times> sqldb \<Rightarrow> bool" where
  "outcome_ok opts db result \<longleftrightarrow>
     (case result of ((report, err), db') \<Rightarrow>
        (case err of
           Some refusals \<Rightarrow> rp_Status report = ''refused'' \<and> db' = db
         | None \<Rightarrow>
             if rp_Status report = ''applied'' then op_Apply opts \<and> op_AcknowledgeCopy opts
             else (rp_Status report = ''no-op'' \<or> rp_Status report = ''ready'' \<and> \<not> op_Apply opts) \<and> db' = db))"

lemma outcome_reject [simp]:
  "outcome_ok opts db (reject r c l d, db)" "outcome_ok opts db (rejectFromError r e, db)"
  by (simp_all add: outcome_ok_def reject_def rejectFromError_def Let_def)

lemma migrate_transaction_outcome:
  "op_AcknowledgeCopy opts \<Longrightarrow> outcome_ok opts db (migrate_transaction io opts selected report db)"
  unfolding migrate_transaction_def
  by (auto simp: outcome_ok_def [of opts db "((r, None), db')" for r db'] Let_def
      split: sum.splits option.splits prod.splits)

lemma Run_outcome: "outcome_ok opts db (Run Quote rk io manifest opts db)"
  unfolding Run_def
  by (auto simp: Let_def migrate_transaction_outcome split: sum.splits option.splits prod.splits)

end
