(* ===== verification/Ns_Rename.thy ===== *)
theory Ns_Rename
  imports Ns_Migrate
begin

text \<open>
  Lemmas on the namespace migration. The locale \<open>identity_column\<close> is the contract of a column that holds
  identities, and each of the seven columns the tool rewrites satisfies it. From it follow what one mapping
  and what a whole plan do to the tables (\<open>rename_db\<close>), and which databases the preflight lets through
  (\<open>migratable\<close>).
\<close>

section \<open>What the inspection sees\<close>

definition participants_of :: "sqldb \<Rightarrow> string list" where
  "participants_of db = concat (map (\<lambda>(k, c). c_Participants c) (t_conversations db))"

definition column_ids :: "sqldb \<Rightarrow> string list" where
  "column_ids db = concat (map (\<lambda>(surface, column). column db) queries)"

text \<open>The identities of a database: the non-empty values of the eight surfaces.\<close>

definition identities :: "sqldb \<Rightarrow> string list" where
  "identities db = nonempty (column_ids db @ participants_of db)"

lemma in_nonempty [simp]: "x \<in> set (nonempty xs) \<longleftrightarrow> x \<in> set xs \<and> x \<noteq> []"
  by (auto simp: nonempty_def)

definition seen :: "inspection \<Rightarrow> string \<Rightarrow> bool" where
  "seen i x = get_or False (in_present i) x"

lemma get_or_bump: "get_or 0 (bump k n m) x = get_or 0 m x + (if x = k then n else 0)"
  by (simp add: bump_def)

lemma addOccurrence_simps:
  "seen (addOccurrence s x i) y \<longleftrightarrow> seen i y \<or> (y = x \<and> x \<noteq> [])"
  "occurrences_of (addOccurrence s x i) s' y = occurrences_of i s' y + (if s' = s \<and> y = x \<and> x \<noteq> [] then 1 else 0)"
  "in_conversations (addOccurrence s x i) = in_conversations i"
  "set (map fst (in_present (addOccurrence s x i))) = set (map fst (in_present i)) \<union> ({x} - {[]})"
  by (auto simp: addOccurrence_def seen_def occurrences_of_def get_or_bump dom_update)

lemma fold_addOccurrence:
  "seen (fold (addOccurrence s) xs i) y \<longleftrightarrow> seen i y \<or> (y \<in> set xs \<and> y \<noteq> [])"
  "occurrences_of (fold (addOccurrence s) xs i) s' y =
     occurrences_of i s' y + (if s' = s \<and> y \<noteq> [] then int (count_list xs y) else 0)"
  "in_conversations (fold (addOccurrence s) xs i) = in_conversations i"
  "fst ` set (in_present (fold (addOccurrence s) xs i)) = fst ` set (in_present i) \<union> (set xs - {[]})"
proof -
  show "fst ` set (in_present (fold (addOccurrence s) xs i)) = fst ` set (in_present i) \<union> (set xs - {[]})"
    using addOccurrence_simps(4) by (induction xs arbitrary: i) auto
qed (induction xs arbitrary: i; auto simp: addOccurrence_simps)+

lemma seen_conversations [simp]:
  "seen (i\<lparr>in_conversations := cs\<rparr>) y = seen i y" "occurrences_of (i\<lparr>in_conversations := cs\<rparr>) s y = occurrences_of i s y"
  by (simp_all add: seen_def occurrences_of_def)

lemma inspect_queries_Inr:
  "inspect_queries io db qs i = Inr r \<Longrightarrow> r = fold (\<lambda>(surface, column). fold (addOccurrence surface) (column db)) qs i"
  by (induction io db qs i rule: inspect_queries.induct) (auto split: option.splits query_error.splits)

lemma inspect_rows_Inr:
  assumes "inspect_rows io rows i = Inr r"
  shows "seen r y \<longleftrightarrow> seen i y \<or> (y \<noteq> [] \<and> y \<in> set (concat (map (\<lambda>(k, c). c_Participants c) rows)))"
    and "fst ` set (in_present r) = fst ` set (in_present i) \<union> (set (concat (map (\<lambda>(k, c). c_Participants c) rows)) - {[]})"
    and "y \<noteq> [] \<Longrightarrow> occurrences_of r s y = occurrences_of i s y +
      (if s = participants_surface then int (count_list (concat (map (\<lambda>(k, c). c_Participants c) rows)) y) else 0)"
    and "in_conversations r = in_conversations i @
      map (\<lambda>(k, c). \<lparr>cp_id = k, cp_participants = c_Participants c, cp_changed = False\<rparr>) rows"
  using assms
  by (induction io rows i rule: inspect_rows.induct)
    (auto simp: fold_addOccurrence Let_def split: option.splits participants_error.splits)

lemma queries_fold:
  "seen (fold (\<lambda>(surface, column). fold (addOccurrence surface) (column db)) qs i) y \<longleftrightarrow>
     seen i y \<or> (y \<noteq> [] \<and> y \<in> set (concat (map (\<lambda>(surface, column). column db) qs)))"
  "fst ` set (in_present (fold (\<lambda>(surface, column). fold (addOccurrence surface) (column db)) qs i)) =
     fst ` set (in_present i) \<union> (set (concat (map (\<lambda>(surface, column). column db) qs)) - {[]})"
  "in_conversations (fold (\<lambda>(surface, column). fold (addOccurrence surface) (column db)) qs i) = in_conversations i"
  by (induction qs arbitrary: i) (simp_all add: fold_addOccurrence case_prod_unfold Un_Diff Un_assoc conj_disj_distribL
      disj_ac conj_ac)

lemma column_occurrences:
  assumes "fold (\<lambda>(surface, column). fold (addOccurrence surface) (column db)) queries i = r" and "y \<noteq> []"
  shows "(surface, column) \<in> set queries \<Longrightarrow> occurrences_of r surface y = occurrences_of i surface y + int (count_list (column db) y)"
    and "occurrences_of r participants_surface y = occurrences_of i participants_surface y"
  using assms by (auto simp: queries_def fold_addOccurrence participants_surface_def)

lemma count_list_sort_concat:
  "count_list (concat (map f (sort_key g xs))) y = count_list (concat (map f xs)) y"
proof -
  have "count_list (concat (map f zs)) y = (\<Sum>x \<in># mset zs. count_list (f x) y)" for zs
    by (induction zs) auto
  then show ?thesis by simp
qed

lemma inspect_Inr:
  assumes "inspect io db = Inr r"
  shows "seen r y \<longleftrightarrow> y \<in> set (identities db)"
    and "fst ` set (in_present r) = set (identities db)"
    and "y \<noteq> [] \<Longrightarrow> (surface, column) \<in> set queries \<Longrightarrow> occurrences_of r surface y = int (count_list (column db) y)"
    and "y \<noteq> [] \<Longrightarrow> occurrences_of r participants_surface y = int (count_list (participants_of db) y)"
    and "in_conversations r = map (\<lambda>(k, c). \<lparr>cp_id = k, cp_participants = c_Participants c, cp_changed = False\<rparr>)
      (sort_key fst (t_conversations db))"
proof -
  let ?e = "\<lparr>in_present = [], in_occurrences = [], in_conversations = []\<rparr> :: inspection"
  obtain r0 where q: "inspect_queries io db queries ?e = Inr r0"
    and rows: "inspect_rows io (sort_key fst (t_conversations db)) r0 = Inr r"
    using assms by (auto simp: inspect_def inspectConversations_def split: sum.splits option.splits query_error.splits)
  note fold = inspect_queries_Inr [OF q, symmetric]
  have e: "\<not> seen ?e y" "occurrences_of ?e s x = 0" for s x y by (simp_all add: seen_def occurrences_of_def get_or_def)
  note Q = queries_fold [of db queries ?e, unfolded fold] and O = column_occurrences [OF fold] and R = inspect_rows_Inr [OF rows]
  show "seen r y \<longleftrightarrow> y \<in> set (identities db)"
    using R(1) [of y] Q(1) [of y] e by (auto simp: identities_def participants_of_def column_ids_def case_prod_unfold)
  show "fst ` set (in_present r) = set (identities db)"
    unfolding R(2) Q(2) by (simp add: identities_def participants_of_def column_ids_def nonempty_def) blast
  show "in_conversations r = map (\<lambda>(k, c). \<lparr>cp_id = k, cp_participants = c_Participants c, cp_changed = False\<rparr>)
      (sort_key fst (t_conversations db))" using R(4) Q by simp
  show "occurrences_of r participants_surface y = int (count_list (participants_of db) y)" if "y \<noteq> []"
    using R(3) [OF that] O(2) [OF that] e by (simp add: participants_of_def count_list_sort_concat)
  show "occurrences_of r surface y = int (count_list (column db) y)" if "y \<noteq> []" "(surface, column) \<in> set queries"
  proof -
    have "surface \<noteq> participants_surface" using that(2) by (auto simp: queries_def participants_surface_def)
    then show ?thesis using R(3) [OF that(1)] O(1) [OF that] e by simp
  qed
qed

section \<open>Renaming the columns\<close>

text \<open>The constraints of the tables that hold identities.\<close>

definition keys_ok :: "sqldb \<Rightarrow> bool" where
  "keys_ok db \<longleftrightarrow>
     keys_distinct (t_agents db) \<and> (\<forall>(k, r) \<in> set (t_agents db). a_AgentID (ar_agent r) = k) \<and>
     keys_distinct (t_conversations db) \<and> keys_distinct (t_delivery_cursors db) \<and>
     distinct (map delivery_key (t_deliveries db)) \<and> distinct (map receipt_key (t_idempotency db))"

definition rename_agents :: "(string \<Rightarrow> string) \<Rightarrow> sqldb \<Rightarrow> sqldb" where
  "rename_agents f db = db\<lparr>t_agents :=
     map (\<lambda>(k, r). (f k, r\<lparr>ar_agent := (ar_agent r)\<lparr>a_AgentID := f (a_AgentID (ar_agent r))\<rparr>\<rparr>)) (t_agents db)\<rparr>"

definition rename_from :: "(string \<Rightarrow> string) \<Rightarrow> sqldb \<Rightarrow> sqldb" where
  "rename_from f db = db\<lparr>t_messages := map (\<lambda>(k, m). (k, m\<lparr>m_From := f (m_From m)\<rparr>)) (t_messages db)\<rparr>"

definition rename_to :: "(string \<Rightarrow> string) \<Rightarrow> sqldb \<Rightarrow> sqldb" where
  "rename_to f db = db\<lparr>t_messages := map (\<lambda>(k, m). (k, m\<lparr>m_To := f (m_To m)\<rparr>)) (t_messages db)\<rparr>"

definition rename_targets :: "(string \<Rightarrow> string) \<Rightarrow> sqldb \<Rightarrow> sqldb" where
  "rename_targets f db =
     db\<lparr>t_deliveries := map (\<lambda>d. d\<lparr>dl_target_agent_id := f (dl_target_agent_id d)\<rparr>) (t_deliveries db)\<rparr>"

definition rename_cursors :: "(string \<Rightarrow> string) \<Rightarrow> sqldb \<Rightarrow> sqldb" where
  "rename_cursors f db = db\<lparr>t_delivery_cursors := map (\<lambda>(k, r). (f k, r)) (t_delivery_cursors db)\<rparr>"

definition rename_receipts_from :: "(string \<Rightarrow> string) \<Rightarrow> sqldb \<Rightarrow> sqldb" where
  "rename_receipts_from f db =
     db\<lparr>t_idempotency := map (\<lambda>r. r\<lparr>id_from_agent := f (id_from_agent r)\<rparr>) (t_idempotency db)\<rparr>"

definition rename_receipts_to :: "(string \<Rightarrow> string) \<Rightarrow> sqldb \<Rightarrow> sqldb" where
  "rename_receipts_to f db =
     db\<lparr>t_idempotency := map (\<lambda>r. r\<lparr>id_to_agent := f (id_to_agent r)\<rparr>) (t_idempotency db)\<rparr>"

lemmas rename_defs = rename_agents_def rename_from_def rename_to_def rename_targets_def rename_cursors_def
  rename_receipts_from_def rename_receipts_to_def

text \<open>
  The contract of a column that holds identities: an update to a value that the column does not have
  renames the source everywhere in it, reports how often it occurred, and keeps the constraints.
\<close>

locale identity_column =
  fixes surface :: string
    and column :: "sqldb \<Rightarrow> string list"
    and upd :: "string \<Rightarrow> string \<Rightarrow> sqldb \<Rightarrow> string + nat \<times> sqldb"
    and ren :: "(string \<Rightarrow> string) \<Rightarrow> sqldb \<Rightarrow> sqldb"
  assumes update_renames: "keys_ok db \<Longrightarrow> target \<notin> set (column db) \<Longrightarrow> source \<noteq> [] \<Longrightarrow> target \<noteq> [] \<Longrightarrow>
      upd target source db = Inr (count_list (column db) source, ren (rename1 target source) db)"
    and renamed_keys: "keys_ok db \<Longrightarrow> target \<notin> set (column db) \<Longrightarrow> source \<noteq> [] \<Longrightarrow> target \<noteq> [] \<Longrightarrow>
      keys_ok (ren (rename1 target source) db)"
    and queried: "(surface, column) \<in> set queries"
begin

lemma run_update_planned:
  assumes "keys_ok db" and "column db = column db0" and "mp_TargetID item \<notin> set (column db0)"
    and "mp_SourceID item \<noteq> []" and "mp_TargetID item \<noteq> []"
    and "occurrences_of inspected surface (mp_SourceID item) = int (count_list (column db0) (mp_SourceID item))"
    and "mg_Exec io surface (mp_SourceID item) = None"
  shows "run_update io inspected item (surface, upd) db = Inr (ren (rename1 (mp_TargetID item) (mp_SourceID item)) db)"
    and "keys_ok (ren (rename1 (mp_TargetID item) (mp_SourceID item)) db)"
  using assms update_renames renamed_keys by (simp_all add: run_update_def Let_def)

end

lemma inj_on_rename1: "target \<notin> S \<Longrightarrow> inj_on (rename1 target source) S"
  by (auto simp: inj_on_def rename1_def split: if_splits)

lemma distinct_renamed:
  assumes "distinct (map key rows)" and "map key' (map g rows) = map (\<lambda>x. h (key x)) rows"
    and "inj_on h (key ` set rows)"
  shows "distinct (map key' (map g rows))"
  using assms by (simp add: distinct_map comp_inj_on o_def) (auto simp: inj_on_def)

lemma update_agents_renames:
  assumes "keys_ok db" and "target \<notin> fst ` set (t_agents db)"
  shows "update_agents target source db = Inr (count_list (map fst (t_agents db)) source, rename_agents (rename1 target source) db)"
    and "keys_ok (rename_agents (rename1 target source) db)"
proof -
  let ?g = "\<lambda>(k, r). (rename1 target source k, r\<lparr>ar_agent := (ar_agent r)\<lparr>a_AgentID := rename1 target source (a_AgentID (ar_agent r))\<rparr>\<rparr>)"
  have rows: "map (\<lambda>(k, r). if k = source then (target, r\<lparr>ar_agent := (ar_agent r)\<lparr>a_AgentID := target\<rparr>\<rparr>) else (k, r)) (t_agents db)
      = map ?g (t_agents db)"
    using assms(1) by (auto simp: keys_ok_def rename1_def)
  have "keys_distinct (map ?g (t_agents db))"
    using assms by (intro distinct_renamed [where key = fst and h = "rename1 target source"] inj_on_rename1)
      (auto simp: keys_ok_def)
  then show "update_agents target source db =
      Inr (count_list (map fst (t_agents db)) source, rename_agents (rename1 target source) db)"
    "keys_ok (rename_agents (rename1 target source) db)"
    using assms(1) unfolding update_agents_def rows
    by (auto simp: rename_agents_def keys_ok_def Let_def)
qed

interpretation agent_column: identity_column "''agents.agent_id''" "\<lambda>db. map fst (t_agents db)" update_agents rename_agents
  by unfold_locales (simp_all add: update_agents_renames queries_def)

interpretation from_column: identity_column "''messages.from_agent''" "\<lambda>db. map (\<lambda>(k, m). m_From m) (t_messages db)"
  update_from rename_from
  by unfold_locales (auto simp: update_from_def rename_from_def rename1_def queries_def keys_ok_def intro!: sqldb.equality)

interpretation to_column: identity_column "''messages.to_agent''" "\<lambda>db. nonempty (map (\<lambda>(k, m). m_To m) (t_messages db))"
  update_to rename_to
  by unfold_locales (auto simp: update_to_def rename_to_def rename1_def queries_def keys_ok_def intro!: sqldb.equality)

lemma update_targets_renames:
  assumes "keys_ok db" and "target \<notin> dl_target_agent_id ` set (t_deliveries db)"
  shows "update_targets target source db =
      Inr (count_list (map dl_target_agent_id (t_deliveries db)) source, rename_targets (rename1 target source) db)"
    and "keys_ok (rename_targets (rename1 target source) db)"
proof -
  let ?g = "\<lambda>d. d\<lparr>dl_target_agent_id := rename1 target source (dl_target_agent_id d)\<rparr>"
  have rows: "map (\<lambda>d. if dl_target_agent_id d = source then d\<lparr>dl_target_agent_id := target\<rparr> else d) (t_deliveries db)
      = map ?g (t_deliveries db)" by (simp add: rename1_def)
  have "distinct (map delivery_key (map ?g (t_deliveries db)))"
  proof (rule distinct_renamed [where key = delivery_key and h = "apfst (rename1 target source)"])
    show "inj_on (apfst (rename1 target source)) (delivery_key ` set (t_deliveries db))"
      using assms(2) by (auto simp: inj_on_def delivery_key_def rename1_def split: if_splits)
  qed (use assms(1) in \<open>simp_all add: keys_ok_def delivery_key_def\<close>)
  then show "update_targets target source db =
      Inr (count_list (map dl_target_agent_id (t_deliveries db)) source, rename_targets (rename1 target source) db)"
    "keys_ok (rename_targets (rename1 target source) db)"
    using assms(1) unfolding update_targets_def rows by (simp_all add: rename_targets_def keys_ok_def Let_def)
qed

lemma update_cursors_renames:
  assumes "keys_ok db" and "target \<notin> fst ` set (t_delivery_cursors db)"
  shows "update_cursors target source db =
      Inr (count_list (map fst (t_delivery_cursors db)) source, rename_cursors (rename1 target source) db)"
    and "keys_ok (rename_cursors (rename1 target source) db)"
proof -
  let ?g = "\<lambda>(k, r). (rename1 target source k, r)"
  have rows: "map (\<lambda>(k, r). if k = source then (target, r) else (k, r)) (t_delivery_cursors db) = map ?g (t_delivery_cursors db)"
    by (auto simp: rename1_def)
  have "keys_distinct (map ?g (t_delivery_cursors db))"
    using assms by (intro distinct_renamed [where key = fst and h = "rename1 target source"] inj_on_rename1)
      (auto simp: keys_ok_def)
  then show "update_cursors target source db =
      Inr (count_list (map fst (t_delivery_cursors db)) source, rename_cursors (rename1 target source) db)"
    "keys_ok (rename_cursors (rename1 target source) db)"
    using assms(1) unfolding update_cursors_def rows by (simp_all add: rename_cursors_def keys_ok_def Let_def)
qed

lemma update_receipts_from_renames:
  assumes "keys_ok db" and "target \<notin> id_from_agent ` set (t_idempotency db)"
  shows "update_receipts_from target source db =
      Inr (count_list (map id_from_agent (t_idempotency db)) source, rename_receipts_from (rename1 target source) db)"
    and "keys_ok (rename_receipts_from (rename1 target source) db)"
proof -
  let ?g = "\<lambda>r. r\<lparr>id_from_agent := rename1 target source (id_from_agent r)\<rparr>"
  have rows: "map (\<lambda>r. if id_from_agent r = source then r\<lparr>id_from_agent := target\<rparr> else r) (t_idempotency db)
      = map ?g (t_idempotency db)" by (simp add: rename1_def)
  have "distinct (map receipt_key (map ?g (t_idempotency db)))"
  proof (rule distinct_renamed [where key = receipt_key and h = "apfst (rename1 target source)"])
    show "inj_on (apfst (rename1 target source)) (receipt_key ` set (t_idempotency db))"
      using assms(2) by (auto simp: inj_on_def receipt_key_def rename1_def split: if_splits)
  qed (use assms(1) in \<open>simp_all add: keys_ok_def receipt_key_def\<close>)
  then show "update_receipts_from target source db =
      Inr (count_list (map id_from_agent (t_idempotency db)) source, rename_receipts_from (rename1 target source) db)"
    "keys_ok (rename_receipts_from (rename1 target source) db)"
    using assms(1) unfolding update_receipts_from_def rows by (simp_all add: rename_receipts_from_def keys_ok_def Let_def)
qed

lemma update_receipts_to_renames:
  assumes "keys_ok db" and "target \<notin> id_to_agent ` set (t_idempotency db)" and "source \<noteq> []"
  shows "update_receipts_to target source db =
      Inr (count_list (nonempty (map id_to_agent (t_idempotency db))) source, rename_receipts_to (rename1 target source) db)"
    and "keys_ok (rename_receipts_to (rename1 target source) db)"
proof -
  let ?g = "\<lambda>r. r\<lparr>id_to_agent := rename1 target source (id_to_agent r)\<rparr>"
  have rows: "map (\<lambda>r. if id_to_agent r = source \<and> id_to_agent r \<noteq> [] then r\<lparr>id_to_agent := target\<rparr> else r) (t_idempotency db)
      = map ?g (t_idempotency db)" using assms(3) by (simp add: rename1_def)
  have "distinct (map receipt_key (map ?g (t_idempotency db)))"
  proof (rule distinct_renamed [where key = receipt_key and h = "apsnd (apfst (rename1 target source))"])
    show "inj_on (apsnd (apfst (rename1 target source))) (receipt_key ` set (t_idempotency db))"
      using assms(2) by (auto simp: inj_on_def receipt_key_def rename1_def split: if_splits)
  qed (use assms(1) in \<open>simp_all add: keys_ok_def receipt_key_def\<close>)
  then show "update_receipts_to target source db =
      Inr (count_list (nonempty (map id_to_agent (t_idempotency db))) source, rename_receipts_to (rename1 target source) db)"
    "keys_ok (rename_receipts_to (rename1 target source) db)"
    using assms(1) unfolding update_receipts_to_def rows by (simp_all add: rename_receipts_to_def keys_ok_def Let_def)
qed

interpretation target_column: identity_column "''deliveries.target_agent_id''" "\<lambda>db. map dl_target_agent_id (t_deliveries db)"
  update_targets rename_targets
  by unfold_locales (simp_all add: update_targets_renames queries_def)

interpretation cursor_column: identity_column "''delivery_cursors.target_agent_id''" "\<lambda>db. map fst (t_delivery_cursors db)"
  update_cursors rename_cursors
  by unfold_locales (simp_all add: update_cursors_renames queries_def)

interpretation receipt_from_column: identity_column "''idempotency.from_agent''" "\<lambda>db. map id_from_agent (t_idempotency db)"
  update_receipts_from rename_receipts_from
  by unfold_locales (simp_all add: update_receipts_from_renames queries_def)

interpretation receipt_to_column: identity_column "''idempotency.to_agent''"
  "\<lambda>db. nonempty (map id_to_agent (t_idempotency db))" update_receipts_to rename_receipts_to
  by unfold_locales (auto simp: update_receipts_to_renames queries_def)

section \<open>One mapping\<close>

text \<open>The seven columns, one after the other.\<close>

definition rename_ids :: "(string \<Rightarrow> string) \<Rightarrow> sqldb \<Rightarrow> sqldb" where
  "rename_ids f db =
     rename_receipts_to f (rename_receipts_from f (rename_cursors f (rename_targets f (rename_to f (rename_from f (rename_agents f db))))))"

definition planned :: "inspection \<Rightarrow> mapping \<Rightarrow> sqldb \<Rightarrow> bool" where
  "planned inspected item db \<longleftrightarrow>
     mp_SourceID item \<noteq> [] \<and> mp_TargetID item \<noteq> [] \<and> mp_TargetID item \<notin> set (column_ids db) \<and>
     (\<forall>(surface, column) \<in> set queries.
        occurrences_of inspected surface (mp_SourceID item) = int (count_list (column db) (mp_SourceID item)))"

lemma column_frames [simp]:
  "t_messages (rename_agents f db) = t_messages db" "t_deliveries (rename_agents f db) = t_deliveries db"
  "t_delivery_cursors (rename_agents f db) = t_delivery_cursors db" "t_idempotency (rename_agents f db) = t_idempotency db"
  "t_deliveries (rename_from f db) = t_deliveries db" "t_deliveries (rename_to f db) = t_deliveries db"
  "t_delivery_cursors (rename_from f db) = t_delivery_cursors db" "t_delivery_cursors (rename_to f db) = t_delivery_cursors db"
  "t_idempotency (rename_from f db) = t_idempotency db" "t_idempotency (rename_to f db) = t_idempotency db"
  "t_delivery_cursors (rename_targets f db) = t_delivery_cursors db" "t_idempotency (rename_targets f db) = t_idempotency db"
  "t_idempotency (rename_cursors f db) = t_idempotency db"
  "map (\<lambda>(k, m). m_To m) (t_messages (rename_from f db)) = map (\<lambda>(k, m). m_To m) (t_messages db)"
  "map id_to_agent (t_idempotency (rename_receipts_from f db)) = map id_to_agent (t_idempotency db)"
  by (simp_all add: rename_defs case_prod_unfold)

lemma rewrite_item_planned:
  assumes "keys_ok db" and "planned inspected item db" and "mp_active item"
    and io: "\<And>surface. mg_Exec io surface (mp_SourceID item) = None"
  shows "rewrite_item io inspected item db = Inr (rename_ids (rename1 (mp_TargetID item) (mp_SourceID item)) db)"
    and "keys_ok (rename_ids (rename1 (mp_TargetID item) (mp_SourceID item)) db)"
proof -
  let ?f = "rename1 (mp_TargetID item) (mp_SourceID item)"
  have ne: "mp_SourceID item \<noteq> []" "mp_TargetID item \<noteq> []" using assms(2) by (simp_all add: planned_def)
  have col: "mp_TargetID item \<notin> set (column db)"
    "occurrences_of inspected surface (mp_SourceID item) = int (count_list (column db) (mp_SourceID item))"
    if "(surface, column) \<in> set queries" for surface column
    using assms(2) that by (auto simp: planned_def column_ids_def)
  note a = agent_column.run_update_planned [OF assms(1) _ col(1) [OF agent_column.queried] ne
      col(2) [OF agent_column.queried] io, simplified column_frames, OF refl]
  note f = from_column.run_update_planned [OF a(2) _ col(1) [OF from_column.queried] ne
      col(2) [OF from_column.queried] io, simplified column_frames, OF refl]
  note t = to_column.run_update_planned [OF f(2) _ col(1) [OF to_column.queried] ne
      col(2) [OF to_column.queried] io, simplified column_frames, OF refl]
  note d = target_column.run_update_planned [OF t(2) _ col(1) [OF target_column.queried] ne
      col(2) [OF target_column.queried] io, simplified column_frames, OF refl]
  note c = cursor_column.run_update_planned [OF d(2) _ col(1) [OF cursor_column.queried] ne
      col(2) [OF cursor_column.queried] io, simplified column_frames, OF refl]
  note rf = receipt_from_column.run_update_planned [OF c(2) _ col(1) [OF receipt_from_column.queried] ne
      col(2) [OF receipt_from_column.queried] io, simplified column_frames, OF refl]
  note rt = receipt_to_column.run_update_planned [OF rf(2) _ col(1) [OF receipt_to_column.queried] ne
      col(2) [OF receipt_to_column.queried] io, simplified column_frames, OF refl]
  show "rewrite_item io inspected item db = Inr (rename_ids ?f db)"
    using assms(3) by (simp add: rewrite_item_def updates_def a f t d c rf rt rename_ids_def)
  show "keys_ok (rename_ids ?f db)" using rt(2) by (simp add: rename_ids_def)
qed

section \<open>All mappings\<close>

lemma rename_ids_tables [simp]:
  "t_agents (rename_ids f db) =
     map (\<lambda>(k, r). (f k, r\<lparr>ar_agent := (ar_agent r)\<lparr>a_AgentID := f (a_AgentID (ar_agent r))\<rparr>\<rparr>)) (t_agents db)"
  "t_messages (rename_ids f db) = map (\<lambda>(k, m). (k, m\<lparr>m_From := f (m_From m), m_To := f (m_To m)\<rparr>)) (t_messages db)"
  "t_deliveries (rename_ids f db) = map (\<lambda>d. d\<lparr>dl_target_agent_id := f (dl_target_agent_id d)\<rparr>) (t_deliveries db)"
  "t_delivery_cursors (rename_ids f db) = map (\<lambda>(k, r). (f k, r)) (t_delivery_cursors db)"
  "t_idempotency (rename_ids f db) =
     map (\<lambda>r. r\<lparr>id_from_agent := f (id_from_agent r), id_to_agent := f (id_to_agent r)\<rparr>) (t_idempotency db)"
  "t_conversations (rename_ids f db) = t_conversations db"
  "t_conversation_messages (rename_ids f db) = t_conversation_messages db"
  "t_counters (rename_ids f db) = t_counters db"
  "t_schema_migrations (rename_ids f db) = t_schema_migrations db"
  by (simp_all add: rename_ids_def rename_defs case_prod_unfold)

lemma rename_ids_comp: "rename_ids f (rename_ids g db) = rename_ids (f \<circ> g) db"
  by (rule sqldb.equality) (auto simp: case_prod_unfold)

lemma rename_ids_id: "rename_ids (\<lambda>x. x) db = db"
  by (rule sqldb.equality) (simp_all add: case_prod_unfold)

definition keeps_empty :: "(string \<Rightarrow> string) \<Rightarrow> bool" where
  "keeps_empty f \<longleftrightarrow> (\<forall>x. f x = [] \<longleftrightarrow> x = [])"

lemma nonempty_map: "keeps_empty f \<Longrightarrow> nonempty (map f xs) = map f (nonempty xs)"
  by (simp add: nonempty_def filter_map comp_def keeps_empty_def)

lemma renamed_column:
  assumes "keeps_empty f" and "(surface, column) \<in> set queries"
  shows "column (rename_ids f db) = map f (column db)"
  using assms(2) nonempty_map [OF assms(1), symmetric] by (auto simp: queries_def case_prod_unfold comp_def)

lemma renamed_column_ids:
  assumes "keeps_empty f"
  shows "set (column_ids (rename_ids f db)) = f ` set (column_ids db)"
proof -
  have "map (\<lambda>(surface, column). column (rename_ids f db)) queries = map (\<lambda>(surface, column). map f (column db)) queries"
    using renamed_column [OF assms] by auto
  then show ?thesis by (auto simp: column_ids_def)
qed

lemma count_rename1:
  "x \<noteq> target \<Longrightarrow> x \<noteq> source \<Longrightarrow> count_list (map (rename1 target source) xs) x = count_list xs x"
  by (induction xs) (auto simp: rename1_def)

definition renaming :: "mapping list \<Rightarrow> string \<Rightarrow> string" where
  "renaming mappings x = get_or x (replacements mappings) x"

abbreviation active_sources :: "mapping list \<Rightarrow> string list" where
  "active_sources items \<equiv> map mp_SourceID (filter mp_active items)"

abbreviation active_targets :: "mapping list \<Rightarrow> string list" where
  "active_targets items \<equiv> map mp_TargetID (filter mp_active items)"

lemma map_of_replacements:
  "distinct (active_sources items) \<Longrightarrow> map_of (fold add_replacement items m) x =
     (case List.find (\<lambda>item. mp_active item \<and> mp_SourceID item = x) items of
        Some item \<Rightarrow> Some (mp_TargetID item) | None \<Rightarrow> map_of m x)"
proof (induction items arbitrary: m)
  case (Cons item items)
  have "List.find (\<lambda>i. mp_active i \<and> mp_SourceID i = x) items = None" if "mp_active item" "mp_SourceID item = x"
    using Cons.prems that by (auto simp: find_None_iff image_iff)
  moreover have "distinct (active_sources items)" using Cons.prems by (auto split: if_splits)
  ultimately show ?case using Cons.IH by (auto simp: add_replacement_def split: option.split)
qed simp

lemma renaming_eq:
  assumes "distinct (active_sources items)"
  shows "renaming items x =
    (case List.find (\<lambda>item. mp_active item \<and> mp_SourceID item = x) items of Some item \<Rightarrow> mp_TargetID item | None \<Rightarrow> x)"
  using map_of_replacements [OF assms, of "[]"] by (simp add: renaming_def replacements_def get_or_def split: option.splits)

lemma renaming_Cons:
  assumes "distinct (active_sources (item # items))" and "mp_active item \<Longrightarrow> mp_TargetID item \<notin> set (active_sources items)"
  shows "renaming (item # items) =
    (if mp_active item then renaming items \<circ> rename1 (mp_TargetID item) (mp_SourceID item) else renaming items)"
proof
  fix x
  have d: "distinct (active_sources items)" using assms(1) by (auto split: if_splits)
  have "List.find (\<lambda>i. mp_active i \<and> mp_SourceID i = mp_TargetID item) items = None" if "mp_active item"
    using assms(2) [OF that] by (auto simp: find_None_iff image_iff)
  then show "renaming (item # items) x =
      (if mp_active item then renaming items \<circ> rename1 (mp_TargetID item) (mp_SourceID item) else renaming items) x"
    by (auto simp: renaming_eq [OF assms(1)] renaming_eq [OF d] rename1_def)
qed

text \<open>A list of mappings that can be applied to a database.\<close>

definition applicable :: "inspection \<Rightarrow> mapping list \<Rightarrow> sqldb \<Rightarrow> bool" where
  "applicable inspected items db \<longleftrightarrow>
     distinct (active_sources items) \<and> distinct (active_targets items) \<and>
     set (active_sources items) \<inter> set (active_targets items) = {} \<and>
     (\<forall>item \<in> set items. mp_active item \<longrightarrow> planned inspected item db)"

lemma keeps_empty_rename1: "target \<noteq> [] \<Longrightarrow> source \<noteq> [] \<Longrightarrow> keeps_empty (rename1 target source)"
  by (auto simp: keeps_empty_def rename1_def)

lemma planned_after:
  assumes "planned inspected item db" and "planned inspected item' db"
    and "mp_SourceID item' \<notin> {mp_SourceID item, mp_TargetID item}" and "mp_TargetID item' \<noteq> mp_TargetID item"
  shows "planned inspected item' (rename_ids (rename1 (mp_TargetID item) (mp_SourceID item)) db)"
proof -
  let ?f = "rename1 (mp_TargetID item) (mp_SourceID item)"
  have f: "keeps_empty ?f" using assms(1) by (intro keeps_empty_rename1) (simp_all add: planned_def)
  have "mp_TargetID item' \<notin> ?f ` set (column_ids db)"
    using assms(2,4) by (auto simp: planned_def rename1_def)
  moreover have "count_list (column (rename_ids ?f db)) (mp_SourceID item') = count_list (column db) (mp_SourceID item')"
    if "(surface, column) \<in> set queries" for surface column
    using assms(3) by (simp add: renamed_column [OF f that] count_rename1)
  ultimately show ?thesis using assms(2) by (auto simp: planned_def renamed_column_ids [OF f])
qed

lemma rewrite_items_applicable:
  assumes "keys_ok db" and "applicable inspected items db" and io: "\<And>surface source. mg_Exec io surface source = None"
  shows "each_step (rewrite_item io inspected) items db = Inr (rename_ids (renaming items) db)"
    and "keys_ok (rename_ids (renaming items) db)"
  using assms(1,2)
proof (induction items arbitrary: db)
  case Nil
  {
    case 1
    then show ?case by (simp add: renaming_def [abs_def] replacements_def get_or_def rename_ids_id)
  next
    case 2
    then show ?case by (simp add: renaming_def [abs_def] replacements_def get_or_def rename_ids_id)
  }
next
  case (Cons item items)
  let ?f = "rename1 (mp_TargetID item) (mp_SourceID item)"
  have comp: "rename_ids (renaming items) (rename_ids ?f db) = rename_ids (renaming (item # items)) db" "mp_active item"
    if "mp_active item" "applicable inspected (item # items) db" for db
    using that by (simp_all add: rename_ids_comp renaming_Cons applicable_def)
  have rest: "applicable inspected items (rename_ids ?f db)" if "mp_active item" "applicable inspected (item # items) db" for db
    using that by (auto simp: applicable_def image_iff intro!: planned_after)
  have skip: "renaming (item # items) = renaming items" "applicable inspected items db"
    if "\<not> mp_active item" "applicable inspected (item # items) db" for db
    using that renaming_Cons [of item items] by (simp_all add: applicable_def)
  {
    case 1
    show ?case
    proof (cases "mp_active item")
      case True
      have "planned inspected item db" using 1 True by (simp add: applicable_def)
      note one = rewrite_item_planned [OF 1(1) this True io]
      show ?thesis using Cons.IH(1) [OF one(2) rest [OF True 1(2)]] comp [OF True 1(2)] by (simp add: one(1))
    next
      case False
      then show ?thesis using Cons.IH(1) [OF 1(1) skip(2) [OF False 1(2)]] skip(1) [OF False 1(2)] by (simp add: rewrite_item_def)
    qed
  next
    case 2
    show ?case
    proof (cases "mp_active item")
      case True
      have "planned inspected item db" using 2 True by (simp add: applicable_def)
      note one = rewrite_item_planned [OF 2(1) this True io]
      show ?thesis using Cons.IH(2) [OF one(2) rest [OF True 2(2)]] comp [OF True 2(2)] by simp
    next
      case False
      then show ?thesis using Cons.IH(2) [OF 2(1) skip(2) [OF False 2(2)]] skip(1) [OF False 2(2)] by simp
    qed
  }
qed

section \<open>Conversations\<close>

definition rename_db :: "(string \<Rightarrow> string) \<Rightarrow> sqldb \<Rightarrow> sqldb" where
  "rename_db f db = (rename_ids f db)\<lparr>t_conversations :=
     map (\<lambda>(k, c). (k, c\<lparr>c_Participants := map f (c_Participants c)\<rparr>)) (t_conversations db)\<rparr>"

definition put_participants :: "string \<Rightarrow> conversation_plan \<Rightarrow> conversation \<Rightarrow> conversation" where
  "put_participants k c row = (if cp_changed c \<and> k = cp_id c then row\<lparr>c_Participants := cp_participants c\<rparr> else row)"

lemma count_list_distinct: "distinct xs \<Longrightarrow> x \<in> set xs \<Longrightarrow> count_list xs x = 1"
  by (induction xs) auto

lemma rewrite_conversations:
  assumes "keys_distinct (t_conversations db)" and "set (map cp_id plans) \<subseteq> fst ` set (t_conversations db)"
    and io: "\<And>surface source. mg_Exec io surface source = None"
  shows "each_step (rewrite_conversation io) plans db =
    Inr (db\<lparr>t_conversations := map (\<lambda>(k, row). (k, fold (put_participants k) plans row)) (t_conversations db)\<rparr>)"
  using assms(1,2)
proof (induction plans arbitrary: db)
  case (Cons c plans)
  let ?rows = "map (\<lambda>(k, row). (k, put_participants k c row)) (t_conversations db)"
  have "rewrite_conversation io c db = Inr (db\<lparr>t_conversations := ?rows\<rparr>)"
    using Cons.prems by (auto simp: rewrite_conversation_def io count_list_distinct put_participants_def case_prod_unfold
        split: prod.splits intro!: sqldb.equality)
  moreover have "map fst ?rows = map fst (t_conversations db)" by (simp add: case_prod_unfold comp_def)
  moreover have "set (map cp_id plans) \<subseteq> fst ` set ?rows" using Cons.prems(2) by force
  ultimately show ?case
    using Cons.IH [of "db\<lparr>t_conversations := ?rows\<rparr>"] Cons.prems(1) by (simp add: case_prod_unfold comp_def)
qed (simp add: case_prod_unfold)

lemma fold_put_participants:
  assumes "distinct (map cp_id plans)" and "p \<in> set plans"
  shows "fold (put_participants (cp_id p)) plans row = put_participants (cp_id p) p row"
proof -
  have other: "fold (put_participants k) plans row = row" if "k \<notin> set (map cp_id plans)" for k plans row
    using that by (induction plans arbitrary: row) (auto simp: put_participants_def)
  show ?thesis using assms
  proof (induction plans arbitrary: row)
    case (Cons c plans)
    then show ?case
    proof (cases "p = c")
      case True
      then show ?thesis using Cons.prems other [of "cp_id c" plans] by simp
    next
      case False
      then have "p \<in> set plans" "cp_id p \<noteq> cp_id c" using Cons.prems by (auto simp: image_iff)
      then show ?thesis using Cons by (simp add: put_participants_def)
    qed
  qed simp
qed

lemma put_planned:
  "put_participants k (plan_conversation (replacements items) \<lparr>cp_id = k, cp_participants = c_Participants c, cp_changed = False\<rparr>) c
     = c\<lparr>c_Participants := map (renaming items) (c_Participants c)\<rparr>"
proof -
  have "map (renaming items) (c_Participants c) = c_Participants c"
    if "\<not> list_ex (has_key (replacements items)) (c_Participants c)"
    using that by (intro map_idI) (auto simp: list_ex_iff renaming_def has_key_def get_or_def)
  then show ?thesis by (auto simp: put_participants_def plan_conversation_def renaming_def [abs_def])
qed

lemma sort_key_keys: "distinct (map g xs) \<Longrightarrow> distinct (map g (sort_key h xs))"
  by (simp add: distinct_map inj_on_def)

lemma plan_conversations_None:
  "plan_conversations repl cs = (err, cs') \<Longrightarrow>
     (err = None \<longleftrightarrow> (\<forall>c \<in> set cs. \<not> mixed_scopes (cp_participants (plan_conversation repl c)))) \<and>
     (err = None \<longrightarrow> cs' = map (plan_conversation repl) cs)"
  by (induction cs arbitrary: err cs') (auto simp: Let_def split: if_splits prod.splits)

lemma applyPlan_applicable:
  assumes keys: "keys_ok db" and app: "applicable inspected items db"
    and io: "\<And>surface source. mg_Exec io surface source = None"
    and convs: "in_conversations inspected = map (plan_conversation (replacements items))
      (map (\<lambda>(k, c). \<lparr>cp_id = k, cp_participants = c_Participants c, cp_changed = False\<rparr>) (sort_key fst (t_conversations db)))"
  shows "applyPlan io items inspected db = Inr (rename_db (renaming items) db)"
proof -
  let ?plan = "\<lambda>(k, c). plan_conversation (replacements items) \<lparr>cp_id = k, cp_participants = c_Participants c, cp_changed = False\<rparr>"
  let ?plans = "sort_key cp_id (in_conversations inspected)" and ?db = "rename_ids (renaming items) db"
  have convs': "in_conversations inspected = map ?plan (sort_key fst (t_conversations db))"
    by (simp add: convs case_prod_unfold)
  have ids: "map cp_id (in_conversations inspected) = map fst (sort_key fst (t_conversations db))"
    by (simp add: convs' case_prod_unfold plan_conversation_def)
  have d: "distinct (map cp_id ?plans)"
    by (intro sort_key_keys) (use keys in \<open>simp add: ids sort_key_keys keys_ok_def\<close>)
  have sub: "set (map cp_id ?plans) \<subseteq> fst ` set (t_conversations ?db)"
    using arg_cong [OF ids, of set] by simp
  have row: "fold (put_participants k) ?plans c = c\<lparr>c_Participants := map (renaming items) (c_Participants c)\<rparr>"
    if "(k, c) \<in> set (t_conversations db)" for k c
  proof -
    have "?plan (k, c) \<in> set ?plans" using that by (force simp: convs')
    moreover have "cp_id (?plan (k, c)) = k" by (simp add: plan_conversation_def)
    ultimately show ?thesis using fold_put_participants [OF d, of "?plan (k, c)" c] put_planned [of k items c] by simp
  qed
  have "each_step (rewrite_conversation io) ?plans ?db = Inr (rename_db (renaming items) db)"
    using rewrite_conversations [OF _ sub io] keys row
    by (auto simp: keys_ok_def rename_db_def intro!: sqldb.equality)
  then show ?thesis using rewrite_items_applicable [OF keys app io] by (simp add: applyPlan_def)
qed

section \<open>What the preflight decides\<close>

abbreviation fresh_mapping :: "ManifestRow \<Rightarrow> mapping" where
  "fresh_mapping row \<equiv> \<lparr>mp_row = row, mp_active = False, mp_alreadyApplied = False\<rparr>"

definition select :: "manifest \<Rightarrow> authority \<Rightarrow> ManifestRow list" where
  "select manifest authority = filter (\<lambda>row. mr_SourceAuthority row = authority) manifest"

lemma selectMappings_fields:
  "fst (selectMappings manifest authority report) = map fresh_mapping (select manifest authority)"
  "rp_TotalRewrites (snd (selectMappings manifest authority report)) = rp_TotalRewrites report"
  "rp_AlreadyAppliedMappings (snd (selectMappings manifest authority report)) = rp_AlreadyAppliedMappings report"
proof -
  have "fst (fold (select_row authority) manifest st) = fst st @ map fresh_mapping (select manifest authority) \<and>
      rp_TotalRewrites (snd (fold (select_row authority) manifest st)) = rp_TotalRewrites (snd st) \<and>
      rp_AlreadyAppliedMappings (snd (fold (select_row authority) manifest st)) = rp_AlreadyAppliedMappings (snd st)" for st
    by (induction manifest arbitrary: st) (auto simp: select_row_def select_def)
  from this [of "([], report)"] show
    "fst (selectMappings manifest authority report) = map fresh_mapping (select manifest authority)"
    "rp_TotalRewrites (snd (selectMappings manifest authority report)) = rp_TotalRewrites report"
    "rp_AlreadyAppliedMappings (snd (selectMappings manifest authority report)) = rp_AlreadyAppliedMappings report"
    by (simp_all add: selectMappings_def)
qed

text \<open>The mapping of a row for a database with the identities \<open>ids\<close>.\<close>

definition mark :: "string list \<Rightarrow> ManifestRow \<Rightarrow> mapping" where
  "mark ids row =
     (if mr_SourceID row = mr_TargetID row then fresh_mapping row
      else \<lparr>mp_row = row, mp_active = (mr_SourceID row \<in> set ids),
            mp_alreadyApplied = (mr_SourceID row \<notin> set ids \<and> mr_TargetID row \<in> set ids)\<rparr>)"

definition rewrites_of :: "inspection \<Rightarrow> string \<Rightarrow> int" where
  "rewrites_of inspected identity = (\<Sum>surface \<leftarrow> surfaces. occurrences_of inspected surface identity)"

lemma fold_rewrites:
  "rp_TotalRewrites (fold (\<lambda>surface r.
      r\<lparr>rp_RewritesBySurface := g surface r, rp_TotalRewrites := rp_TotalRewrites r + f surface\<rparr>) ss r) =
     rp_TotalRewrites r + sum_list (map f ss)"
  "rp_AlreadyAppliedMappings (fold (\<lambda>surface r.
      r\<lparr>rp_RewritesBySurface := g surface r, rp_TotalRewrites := rp_TotalRewrites r + f surface\<rparr>) ss r) =
     rp_AlreadyAppliedMappings r"
  by (induction ss arbitrary: r) simp_all

lemma plan_item_fields:
  assumes "\<And>x. seen inspected x \<longleftrightarrow> x \<in> set ids" and "mr_SourceID row \<noteq> mr_TargetID row"
  shows "fst (plan_item inspected (fresh_mapping row) report) = mark ids row"
    and "rp_TotalRewrites (snd (plan_item inspected (fresh_mapping row) report)) = rp_TotalRewrites report +
      (if mp_active (mark ids row) then rewrites_of inspected (mr_SourceID row) else 0)"
    and "rp_AlreadyAppliedMappings (snd (plan_item inspected (fresh_mapping row) report)) = rp_AlreadyAppliedMappings report +
      (if mp_alreadyApplied (mark ids row) then 1 else 0)"
  using assms
  by (auto simp: plan_item_def mark_def rewrites_of_def fold_rewrites seen_def [symmetric] Let_def)

lemma preflight_rows_fields:
  assumes ids: "\<And>x. seen inspected x \<longleftrightarrow> x \<in> set ids"
  shows "preflight_rows inspected (map fresh_mapping rows) report = (err, items, report') \<Longrightarrow>
    (err = None \<longleftrightarrow>
      (\<forall>row \<in> set rows. mr_SourceID row \<noteq> mr_TargetID row \<longrightarrow> \<not> (mr_SourceID row \<in> set ids \<and> mr_TargetID row \<in> set ids))) \<and>
    (err = None \<longrightarrow> items = map (mark ids) rows \<and>
      rp_TotalRewrites report' = rp_TotalRewrites report +
        (\<Sum>row \<leftarrow> filter (\<lambda>row. mp_active (mark ids row)) rows. rewrites_of inspected (mr_SourceID row)) \<and>
      rp_AlreadyAppliedMappings report' = rp_AlreadyAppliedMappings report +
        int (length (filter (\<lambda>row. mp_alreadyApplied (mark ids row)) rows)))"
proof (induction rows arbitrary: err items report report')
  case (Cons row rows)
  note seen = ids [unfolded seen_def]
  consider "mr_SourceID row = mr_TargetID row"
    | "mr_SourceID row \<noteq> mr_TargetID row" "mr_SourceID row \<in> set ids \<and> mr_TargetID row \<in> set ids"
    | "mr_SourceID row \<noteq> mr_TargetID row" "\<not> (mr_SourceID row \<in> set ids \<and> mr_TargetID row \<in> set ids)" by blast
  then show ?case
  proof cases
    case 1
    then obtain items0 where "preflight_rows inspected (map fresh_mapping rows) report = (err, items0, report')"
      "items = fresh_mapping row # items0" using Cons.prems by (auto split: prod.splits)
    then show ?thesis using Cons.IH 1 by (fastforce simp: mark_def)
  next
    case 2
    then show ?thesis using Cons.prems by (auto simp: seen)
  next
    case 3
    let ?p = "plan_item inspected (fresh_mapping row) report"
    obtain e0 items0 r0 where rest: "preflight_rows inspected (map fresh_mapping rows) (snd ?p) = (e0, items0, r0)"
      by (metis prod_cases3)
    then have "e0 = err" "items = fst ?p # items0" "r0 = report'"
      using Cons.prems 3 by (auto simp: seen Let_def case_prod_unfold)
    with rest show ?thesis using Cons.IH 3 plan_item_fields [OF ids 3(1), of report] by fastforce
  qed
qed simp

definition plan_of :: "manifest \<Rightarrow> authority \<Rightarrow> sqldb \<Rightarrow> mapping list" where
  "plan_of manifest authority db = map (mark (identities db)) (select manifest authority)"

text \<open>
  What can be migrated: every identity is named, no source and target are both present, and no conversation
  ends up with participants of both authorities.
\<close>

definition no_collision :: "manifest \<Rightarrow> authority \<Rightarrow> sqldb \<Rightarrow> bool" where
  "no_collision manifest authority db \<longleftrightarrow>
     (\<forall>row \<in> set (select manifest authority). mr_SourceID row \<noteq> mr_TargetID row \<longrightarrow>
        \<not> (mr_SourceID row \<in> set (identities db) \<and> mr_TargetID row \<in> set (identities db)))"

definition migratable :: "manifest \<Rightarrow> authority \<Rightarrow> sqldb \<Rightarrow> bool" where
  "migratable manifest authority db \<longleftrightarrow>
     (\<forall>x \<in> set (identities db). \<exists>row \<in> set (select manifest authority). x = mr_SourceID row \<or> x = mr_TargetID row) \<and>
     no_collision manifest authority db \<and>
     (\<forall>(k, c) \<in> set (t_conversations db). \<not> mixed_scopes (map (renaming (plan_of manifest authority db)) (c_Participants c)))"

lemma rewrites_of_count:
  assumes "inspect io db = Inr r" and "x \<noteq> []"
  shows "rewrites_of r x = int (count_list (column_ids db @ participants_of db) x)"
  using inspect_Inr(3) [OF assms] inspect_Inr(4) [OF assms]
  by (simp add: rewrites_of_def surfaces_def column_ids_def queries_def participants_surface_def)

lemma rewrites_of_positive:
  assumes "inspect io db = Inr r" and "x \<in> set (identities db)"
  shows "0 < rewrites_of r x"
proof -
  have "x \<noteq> []" "x \<in> set (column_ids db @ participants_of db)" using assms(2) by (auto simp: identities_def)
  moreover have "0 < count_list xs x" if "x \<in> set xs" for xs using that count_list_0_iff [of xs x] by simp
  ultimately show ?thesis using rewrites_of_count [OF assms(1)] by (simp del: set_append count_list_append)
qed

lemma sum_list_zero_iff:
  assumes "\<forall>x \<in> set xs. (0::int) < f x"
  shows "sum_list (map f xs) = 0 \<longleftrightarrow> xs = []"
proof -
  have "0 < sum_list (map f xs)" if "xs \<noteq> []" using that assms by (induction xs rule: list_nonempty_induct) auto
  then show ?thesis by (cases "xs = []") simp_all
qed

lemma preflight_fields:
  assumes ins: "inspect io db = Inr inspected"
    and pre: "preflight (map fresh_mapping (select manifest authority)) inspected report = (err, items, inspected1, report1)"
  shows "err = None \<longleftrightarrow> migratable manifest authority db"
    and "err = None \<Longrightarrow> items = plan_of manifest authority db"
    and "err = None \<Longrightarrow> in_conversations inspected1 = map (plan_conversation (replacements items))
      (map (\<lambda>(k, c). \<lparr>cp_id = k, cp_participants = c_Participants c, cp_changed = False\<rparr>) (sort_key fst (t_conversations db)))"
    and "err = None \<Longrightarrow> occurrences_of inspected1 = occurrences_of inspected"
    and "err = None \<Longrightarrow> rp_TotalRewrites report = 0 \<Longrightarrow>
      rp_TotalRewrites report1 = 0 \<longleftrightarrow> (\<forall>item \<in> set items. \<not> mp_active item)"
    and "err = None \<Longrightarrow> rp_AlreadyAppliedMappings report1 = rp_AlreadyAppliedMappings report +
      int (length (filter mp_alreadyApplied items))"
proof -
  let ?rows = "select manifest authority" and ?ids = "identities db"
  obtain err0 items0 report0 where rows:
    "preflight_rows inspected (map fresh_mapping ?rows) report = (err0, items0, report0)" by (metis prod_cases3)
  obtain err2 convs where plan: "planConversations items0 (in_conversations inspected) = (err2, convs)" by fastforce
  note P = preflight_rows_fields [OF inspect_Inr(1) [OF ins] rows]
  note C = plan_conversations_None [OF plan [unfolded planConversations_def]]
  let ?unknown = "list_ex (\<lambda>(identity, _). identity \<notin> set (map mp_SourceID (map fresh_mapping ?rows)) \<and>
      identity \<notin> set (map mp_TargetID (map fresh_mapping ?rows))) (in_present inspected)"
  have unknown: "\<not> ?unknown \<longleftrightarrow> (\<forall>x \<in> set ?ids. \<exists>row \<in> set ?rows. x = mr_SourceID row \<or> x = mr_TargetID row)"
    unfolding inspect_Inr(2) [OF ins, symmetric] by (auto simp: list_ex_iff; blast)
  have err: "err = (if ?unknown then Some (refuse ''unknown_identity'' ''database''
        ''identity is not named by the manifest under the declared authority'') else if err0 \<noteq> None then err0 else err2)"
    and rest: "\<not> ?unknown \<Longrightarrow> err0 = None \<Longrightarrow> items = items0 \<and> inspected1 = inspected\<lparr>in_conversations := convs\<rparr> \<and> report1 = report0"
    using pre by (auto simp: preflight_def rows plan Let_def split: if_splits option.splits)
  have err0: "err0 = None \<longleftrightarrow> no_collision manifest authority db" using P by (simp add: no_collision_def)
  have plan0: "items0 = plan_of manifest authority db" if "err0 = None" using P that by (simp add: plan_of_def)
  have err2: "err2 = None \<longleftrightarrow> (\<forall>(k, c) \<in> set (t_conversations db). \<not> mixed_scopes (map (renaming items0) (c_Participants c)))"
    using C by (simp add: inspect_Inr(5) [OF ins] plan_conversation_def renaming_def [abs_def] case_prod_unfold)
  show main: "err = None \<longleftrightarrow> migratable manifest authority db"
    using err unknown err0 err2 plan0 by (auto simp: migratable_def)
  show "items = plan_of manifest authority db" if "err = None"
    using that err rest plan0 by (auto split: if_splits)
  show "in_conversations inspected1 = map (plan_conversation (replacements items))
      (map (\<lambda>(k, c). \<lparr>cp_id = k, cp_participants = c_Participants c, cp_changed = False\<rparr>) (sort_key fst (t_conversations db)))"
    if "err = None" using that err rest C by (auto simp: inspect_Inr(5) [OF ins] split: if_splits)
  show "occurrences_of inspected1 = occurrences_of inspected" if "err = None"
    using that err rest by (auto simp: fun_eq_iff split: if_splits)
  show "rp_AlreadyAppliedMappings report1 = rp_AlreadyAppliedMappings report + int (length (filter mp_alreadyApplied items))"
    if "err = None" using that err rest P by (auto simp: filter_map comp_def split: if_splits)
  show "rp_TotalRewrites report1 = 0 \<longleftrightarrow> (\<forall>item \<in> set items. \<not> mp_active item)"
    if "err = None" "rp_TotalRewrites report = 0"
  proof -
    let ?active = "filter (\<lambda>row. mp_active (mark ?ids row)) ?rows"
    have "rp_TotalRewrites report1 = (\<Sum>row \<leftarrow> ?active. rewrites_of inspected (mr_SourceID row))"
      and items: "items = map (mark ?ids) ?rows" using that err rest P by (auto split: if_splits)
    moreover have "\<forall>row \<in> set ?active. 0 < rewrites_of inspected (mr_SourceID row)"
      using rewrites_of_positive [OF ins] by (auto simp: mark_def split: if_splits)
    then have "(\<Sum>row \<leftarrow> ?active. rewrites_of inspected (mr_SourceID row)) = 0 \<longleftrightarrow> ?active = []"
      by (rule sum_list_zero_iff)
    ultimately show ?thesis by (auto simp: filter_empty_conv)
  qed
qed

section \<open>The transaction\<close>

lemma select_ok:
  assumes "manifest_ok manifest"
  shows "\<forall>row \<in> set (select manifest authority). row_ok row \<and> mr_SourceID row \<noteq> [] \<and> mr_TargetID row \<noteq> []"
    and "distinct (map mr_SourceID (select manifest authority))"
    and "distinct (map mr_TargetID (select manifest authority))"
proof -
  have ok: "\<forall>row \<in> set manifest. row_ok row" "distinct (map source_of manifest)" "distinct (map target_of manifest)"
    using assms by (simp_all add: manifest_ok_def entries_ok_def)
  show "\<forall>row \<in> set (select manifest authority). row_ok row \<and> mr_SourceID row \<noteq> [] \<and> mr_TargetID row \<noteq> []"
    using ok(1) by (auto simp: select_def row_ok_def field_ok_def)
  show "distinct (map mr_SourceID (select manifest authority))" "distinct (map mr_TargetID (select manifest authority))"
    using ok(2,3) by (auto simp: select_def distinct_map inj_on_def source_of_def target_of_def)
qed

lemma active_plan:
  "filter mp_active (plan_of manifest authority db) =
     map (mark (identities db)) (filter (\<lambda>row. mr_SourceID row \<noteq> mr_TargetID row \<and> mr_SourceID row \<in> set (identities db))
       (select manifest authority))"
  by (auto simp: plan_of_def filter_map mark_def comp_def intro!: arg_cong [where f = "map _"] filter_cong)

lemma mark_row [simp]: "mp_row (mark ids row) = row"
  by (simp add: mark_def)

lemma plan_applicable:
  assumes "manifest_ok manifest" and "no_collision manifest authority db" and "inspect io db = Inr inspected"
    and "occurrences_of inspected1 = occurrences_of inspected"
  shows "applicable inspected1 (plan_of manifest authority db) db"
proof -
  let ?rows = "filter (\<lambda>row. mr_SourceID row \<noteq> mr_TargetID row \<and> mr_SourceID row \<in> set (identities db))
       (select manifest authority)"
  have sources: "active_sources (plan_of manifest authority db) = map mr_SourceID ?rows"
    and targets: "active_targets (plan_of manifest authority db) = map mr_TargetID ?rows"
    by (simp_all add: active_plan comp_def)
  note ok = select_ok [OF assms(1), of authority]
  have "distinct (map mr_SourceID ?rows)" "distinct (map mr_TargetID ?rows)"
    using ok(2,3) by (simp_all add: distinct_map_filter)
  moreover have "set (map mr_SourceID ?rows) \<inter> set (map mr_TargetID ?rows) = {}"
    using assms(2) by (auto simp: no_collision_def)
  moreover have "planned inspected1 item db" if "item \<in> set (plan_of manifest authority db)" "mp_active item" for item
  proof -
    have "item \<in> set (filter mp_active (plan_of manifest authority db))" using that by simp
    then obtain row where row: "row \<in> set ?rows" "item = mark (identities db) row" unfolding active_plan by auto
    then have "mr_TargetID row \<notin> set (identities db)" "mr_SourceID row \<noteq> []" "mr_TargetID row \<noteq> []"
      using assms(2) ok(1) by (auto simp: no_collision_def)
    then show ?thesis
      using row(2) inspect_Inr(3) [OF assms(3)] by (auto simp: planned_def assms(4) identities_def)
  qed
  ultimately show ?thesis by (simp add: applicable_def sources targets)
qed

lemma plan_sources_distinct:
  assumes "manifest_ok manifest"
  shows "distinct (active_sources (plan_of manifest authority db))"
  using select_ok(2) [OF assms] by (simp add: active_plan comp_def distinct_map_filter)

text \<open>Statements that succeed do not depend on the errors of the others.\<close>

definition no_errors :: "migrate_io \<Rightarrow> migrate_io" where
  "no_errors io = io\<lparr>mg_Exec := \<lambda>_ _. None\<rparr>"

lemma each_step_mono:
  "(\<And>a x y. f a x = Inr y \<Longrightarrow> g a x = Inr y) \<Longrightarrow> each_step f xs x = Inr y \<Longrightarrow> each_step g xs x = Inr y"
  by (induction xs arbitrary: x) (auto split: sum.splits)

lemma applyPlan_no_errors:
  assumes "applyPlan io items inspected db = Inr db'"
  shows "applyPlan (no_errors io) items inspected db = Inr db'"
proof -
  have u: "run_update (no_errors io) inspected item entry x = Inr y" if "run_update io inspected item entry x = Inr y" for item entry x y
    using that by (auto simp: run_update_def no_errors_def Let_def split: option.splits exec_error.splits sum.splits)
  have i: "rewrite_item (no_errors io) inspected item x = Inr y" if "rewrite_item io inspected item x = Inr y" for item x y
    using that each_step_mono [of "run_update io inspected item" "run_update (no_errors io) inspected item", OF u] by (auto simp: rewrite_item_def split: if_splits)
  have c: "rewrite_conversation (no_errors io) c x = Inr y" if "rewrite_conversation io c x = Inr y" for c x y
    using that by (auto simp: rewrite_conversation_def no_errors_def Let_def split: option.splits exec_error.splits if_splits)
  obtain db1 where "each_step (rewrite_item io inspected) items db = Inr db1"
    "each_step (rewrite_conversation io) (sort_key cp_id (in_conversations inspected)) db1 = Inr db'"
    using assms by (auto simp: applyPlan_def split: sum.splits)
  then have "each_step (rewrite_item (no_errors io) inspected) items db = Inr db1"
    "each_step (rewrite_conversation (no_errors io)) (sort_key cp_id (in_conversations inspected)) db1 = Inr db'"
    using each_step_mono [of "rewrite_item io inspected" "rewrite_item (no_errors io) inspected", OF i] 
      each_step_mono [of "rewrite_conversation io" "rewrite_conversation (no_errors io)", OF c] by blast+
  then show ?thesis by (simp add: applyPlan_def)
qed

section \<open>Renaming a whole database\<close>

definition manifest_renaming :: "manifest \<Rightarrow> authority \<Rightarrow> sqldb \<Rightarrow> string \<Rightarrow> string" where
  "manifest_renaming manifest authority db x =
     (case List.find (\<lambda>row. mr_SourceAuthority row = authority \<and> mr_SourceID row = x \<and> mr_TargetID row \<noteq> x) manifest of
        Some row \<Rightarrow> if x \<in> set (identities db) then mr_TargetID row else x
      | None \<Rightarrow> x)"

lemma find_map_fst: "List.find P (map f xs) = map_option f (List.find (P \<circ> f) xs)"
  by (induction xs) auto

lemma find_Some_member: "List.find P xs = Some x \<Longrightarrow> x \<in> set xs \<and> P x"
  by (induction xs) (auto split: if_splits)

lemma find_filter: "List.find P (filter Q xs) = List.find (\<lambda>x. Q x \<and> P x) xs"
  by (induction xs) auto

lemma renaming_plan:
  assumes "manifest_ok manifest"
  shows "renaming (plan_of manifest authority db) = manifest_renaming manifest authority db"
proof
  fix x
  let ?ids = "identities db"
  have "(\<lambda>item. mp_active item \<and> mp_SourceID item = x) \<circ> mark ?ids =
      (\<lambda>row. mr_SourceID row \<noteq> mr_TargetID row \<and> mr_SourceID row \<in> set ?ids \<and> mr_SourceID row = x)"
    by (auto simp: mark_def fun_eq_iff)
  then have "renaming (plan_of manifest authority db) x =
    (case List.find (\<lambda>row. mr_SourceAuthority row = authority \<and> mr_SourceID row \<noteq> mr_TargetID row \<and>
        mr_SourceID row \<in> set ?ids \<and> mr_SourceID row = x) manifest of Some row \<Rightarrow> mr_TargetID row | None \<Rightarrow> x)"
    unfolding renaming_eq [OF plan_sources_distinct [OF assms]]
    by (simp add: plan_of_def find_map_fst select_def find_filter split: option.split)
  also have "\<dots> = manifest_renaming manifest authority db x"
  proof (cases "x \<in> set ?ids")
    case True
    then have eq: "(\<lambda>row. mr_SourceAuthority row = authority \<and> mr_SourceID row \<noteq> mr_TargetID row \<and>
        mr_SourceID row \<in> set ?ids \<and> mr_SourceID row = x) =
      (\<lambda>row. mr_SourceAuthority row = authority \<and> mr_SourceID row = x \<and> mr_TargetID row \<noteq> x)" by auto
    then show ?thesis unfolding eq manifest_renaming_def using True by (simp cong: option.case_cong)
  next
    case False
    then have "List.find (\<lambda>row. mr_SourceAuthority row = authority \<and> mr_SourceID row \<noteq> mr_TargetID row \<and>
        mr_SourceID row \<in> set ?ids \<and> mr_SourceID row = x) manifest = None" by (auto simp: find_None_iff)
    then show ?thesis using False by (simp add: manifest_renaming_def split: option.split)
  qed
  finally show "renaming (plan_of manifest authority db) x = manifest_renaming manifest authority db x" .
qed

lemma manifest_renaming_cases:
  obtains (same) "manifest_renaming manifest authority db x = x"
  | (renamed) row where "row \<in> set (select manifest authority)" "mr_SourceID row = x" "mr_TargetID row \<noteq> x"
      "x \<in> set (identities db)" "manifest_renaming manifest authority db x = mr_TargetID row"
proof (cases "List.find (\<lambda>row. mr_SourceAuthority row = authority \<and> mr_SourceID row = x \<and> mr_TargetID row \<noteq> x) manifest")
  case None
  then show ?thesis by (intro same) (simp add: manifest_renaming_def)
next
  case (Some row)
  show ?thesis
  proof (cases "x \<in> set (identities db)")
    case True
    then show ?thesis using find_Some_member [OF Some] by (intro renamed [of row]) (auto simp: manifest_renaming_def Some select_def)
  qed (intro same, simp add: manifest_renaming_def Some)
qed

lemma manifest_renaming_row:
  assumes "manifest_ok manifest" and "row \<in> set (select manifest authority)" and "mr_TargetID row \<noteq> mr_SourceID row"
    and "mr_SourceID row \<in> set (identities db)"
  shows "manifest_renaming manifest authority db (mr_SourceID row) = mr_TargetID row"
proof -
  let ?P = "\<lambda>r. mr_SourceAuthority r = authority \<and> mr_SourceID r = mr_SourceID row \<and> mr_TargetID r \<noteq> mr_SourceID row"
  have "?P row" "row \<in> set manifest" using assms by (auto simp: select_def)
  then obtain r where r: "List.find ?P manifest = Some r" by (cases "List.find ?P manifest") (auto simp: find_None_iff)
  then have "r \<in> set (select manifest authority)" "mr_SourceID r = mr_SourceID row"
    using find_Some_member [OF r] by (auto simp: select_def)
  then have "r = row" using select_ok(2) [OF assms(1)] assms(2) by (auto simp: distinct_map inj_on_def)
  then show ?thesis using r assms(4) by (simp add: manifest_renaming_def)
qed

lemma identities_column: "x \<in> set (identities db) \<longleftrightarrow> x \<noteq> [] \<and> (x \<in> set (column_ids db) \<or> x \<in> set (participants_of db))"
  by (auto simp: identities_def)

lemma column_ids_set:
  "set (column_ids db) =
     fst ` set (t_agents db) \<union> (\<lambda>m. m_From (snd m)) ` set (t_messages db) \<union> ((\<lambda>m. m_To (snd m)) ` set (t_messages db) - {[]}) \<union>
     dl_target_agent_id ` set (t_deliveries db) \<union> fst ` set (t_delivery_cursors db) \<union> id_from_agent ` set (t_idempotency db) \<union>
     (id_to_agent ` set (t_idempotency db) - {[]})"
  by (simp add: column_ids_def queries_def case_prod_unfold nonempty_def) blast

lemma identities_rename_db:
  assumes "keeps_empty f"
  shows "set (identities (rename_db f db)) = f ` set (identities db)"
proof -
  have "column_ids (rename_db f db) = column_ids (rename_ids f db)" by (simp add: column_ids_def queries_def rename_db_def)
  then have "set (column_ids (rename_db f db)) = f ` set (column_ids db)" using renamed_column_ids [OF assms] by simp
  moreover have "set (participants_of (rename_db f db)) = f ` set (participants_of db)"
    by (force simp: participants_of_def rename_db_def)
  ultimately show ?thesis using assms by (auto simp: identities_def keeps_empty_def)
qed

lemma rename_db_comp: "rename_db f (rename_db g db) = rename_db (f \<circ> g) db"
  by (rule sqldb.equality) (auto simp: rename_db_def case_prod_unfold)

lemma rename_db_same:
  assumes "keys_ok db" and "f [] = []" and "\<And>x. x \<in> set (identities db) \<Longrightarrow> f x = x"
  shows "rename_db f db = db"
proof -
  have f: "f x = x" if "x \<in> set (column_ids db) \<or> x \<in> set (participants_of db) \<or> x = []" for x
    using that assms(2,3) identities_column [of x db] by (cases "x = []") auto
  have col: "a \<in> set (t_agents db) \<Longrightarrow> f (fst a) = fst a" "m \<in> set (t_messages db) \<Longrightarrow> f (m_From (snd m)) = m_From (snd m)"
    "m \<in> set (t_messages db) \<Longrightarrow> f (m_To (snd m)) = m_To (snd m)"
    "d \<in> set (t_deliveries db) \<Longrightarrow> f (dl_target_agent_id d) = dl_target_agent_id d"
    "c \<in> set (t_delivery_cursors db) \<Longrightarrow> f (fst c) = fst c" "r \<in> set (t_idempotency db) \<Longrightarrow> f (id_from_agent r) = id_from_agent r"
    "r \<in> set (t_idempotency db) \<Longrightarrow> f (id_to_agent r) = id_to_agent r" for a m d c r
  proof -
    have fix_id: "x \<in> set (column_ids db) \<or> x = [] \<Longrightarrow> f x = x" for x using f by blast
    show "a \<in> set (t_agents db) \<Longrightarrow> f (fst a) = fst a" by (rule fix_id) (simp add: column_ids_set)
    show "m \<in> set (t_messages db) \<Longrightarrow> f (m_From (snd m)) = m_From (snd m)" by (rule fix_id) (auto simp: column_ids_set)
    show "m \<in> set (t_messages db) \<Longrightarrow> f (m_To (snd m)) = m_To (snd m)" by (rule fix_id) (auto simp: column_ids_set)
    show "d \<in> set (t_deliveries db) \<Longrightarrow> f (dl_target_agent_id d) = dl_target_agent_id d"
      by (rule fix_id) (simp add: column_ids_set)
    show "c \<in> set (t_delivery_cursors db) \<Longrightarrow> f (fst c) = fst c" by (rule fix_id) (simp add: column_ids_set)
    show "r \<in> set (t_idempotency db) \<Longrightarrow> f (id_from_agent r) = id_from_agent r" by (rule fix_id) (simp add: column_ids_set)
    show "r \<in> set (t_idempotency db) \<Longrightarrow> f (id_to_agent r) = id_to_agent r" by (rule fix_id) (auto simp: column_ids_set)
  qed
  have part: "map f (c_Participants c) = c_Participants c" if "(k, c) \<in> set (t_conversations db)" for k c
  proof (rule map_idI)
    fix x assume "x \<in> set (c_Participants c)"
    then have "x \<in> set (participants_of db)" using that by (auto simp: participants_of_def)
    then show "f x = x" using f by blast
  qed
  have agents: "a_AgentID (ar_agent r) = k" if "(k, r) \<in> set (t_agents db)" for k r
    using assms(1) that by (auto simp: keys_ok_def)
  show ?thesis
  proof (rule sqldb.equality)
    show "t_agents (rename_db f db) = t_agents db"
      using col(1) agents by (auto simp: rename_db_def intro!: map_idI)
    show "t_messages (rename_db f db) = t_messages db"
      using col(2,3) by (auto simp: rename_db_def intro!: map_idI)
    show "t_conversations (rename_db f db) = t_conversations db"
      using part by (auto simp: rename_db_def intro!: map_idI)
    show "t_deliveries (rename_db f db) = t_deliveries db"
      using col(4) by (auto simp: rename_db_def intro!: map_idI)
    show "t_delivery_cursors (rename_db f db) = t_delivery_cursors db"
      using col(5) by (auto simp: rename_db_def intro!: map_idI)
    show "t_idempotency (rename_db f db) = t_idempotency db"
      using col(6,7) by (auto simp: rename_db_def intro!: map_idI)
  qed (simp_all add: rename_db_def)
qed

section \<open>A renamed database is well formed\<close>

lemma rename_db_tables [simp]:
  "t_agents (rename_db f db) = t_agents (rename_ids f db)" "t_messages (rename_db f db) = t_messages (rename_ids f db)"
  "t_deliveries (rename_db f db) = t_deliveries (rename_ids f db)"
  "t_delivery_cursors (rename_db f db) = t_delivery_cursors (rename_ids f db)"
  "t_idempotency (rename_db f db) = t_idempotency (rename_ids f db)"
  "t_conversation_messages (rename_db f db) = t_conversation_messages db"
  "t_conversations (rename_db f db) =
     map (\<lambda>(k, c). (k, c\<lparr>c_Participants := map f (c_Participants c)\<rparr>)) (t_conversations db)"
  by (simp_all add: rename_db_def)

lemma map_of_rename:
  "inj_on f (insert a (fst ` set xs)) \<Longrightarrow> map_of (map (\<lambda>(k, r). (f k, g k r)) xs) (f a) = map_option (g a) (map_of xs a)"
proof (induction xs)
  case (Cons x xs)
  obtain k r where x: "x = (k, r)" by (cases x)
  have "f a = f k \<longleftrightarrow> a = k" using Cons.prems by (auto simp: x inj_on_def)
  moreover have "inj_on f (insert a (fst ` set xs))" using Cons.prems by (auto simp: inj_on_def)
  ultimately show ?case using Cons.IH by (auto simp: x)
qed simp

lemma map_of_rename_None:
  "x \<notin> f ` fst ` set xs \<Longrightarrow> map_of (map (\<lambda>(k, r). (f k, g k r)) xs) x = None"
  by (induction xs) (auto simp: case_prod_unfold)

lemma cursor_of_rename:
  assumes "inj_on f (insert a (fst ` set (t_delivery_cursors db)))"
  shows "cursor_of (f a) (rename_db f db) = cursor_of a db"
  using map_of_rename [OF assms, of "\<lambda>_ r. r"] by (simp add: cursor_of_def get_or_def option.map_ident split: option.split)

lemma keys_ok_rename:
  assumes "keys_ok db" and inj: "inj_on f (insert [] (set (column_ids db)))"
  shows "keys_ok (rename_db f db)"
proof -
  have sub: "inj_on f S" if "S \<subseteq> insert [] (set (column_ids db))" for S using inj that by (rule inj_on_subset)
  have into: "id_to_agent ` set (t_idempotency db) \<subseteq> insert [] (set (column_ids db))" by (auto simp: column_ids_set)
  have out_of: "id_from_agent ` set (t_idempotency db) \<subseteq> insert [] (set (column_ids db))" by (auto simp: column_ids_set)
  have target: "dl_target_agent_id ` set (t_deliveries db) \<subseteq> insert [] (set (column_ids db))" by (auto simp: column_ids_set)
  have "keys_distinct (t_agents (rename_db f db))"
    using assms(1) unfolding rename_db_tables rename_ids_tables
    by (intro distinct_renamed [where key = fst and h = f] sub) (auto simp: keys_ok_def column_ids_set)
  moreover have "keys_distinct (t_delivery_cursors (rename_db f db))"
    using assms(1) unfolding rename_db_tables rename_ids_tables
    by (intro distinct_renamed [where key = fst and h = f] sub) (auto simp: keys_ok_def column_ids_set)
  moreover have "distinct (map delivery_key (t_deliveries (rename_db f db)))"
    unfolding rename_db_tables rename_ids_tables
  proof (rule distinct_renamed [where key = delivery_key and h = "apfst f"])
    show "inj_on (apfst f) (delivery_key ` set (t_deliveries db))"
      using sub [OF target] by (auto simp: inj_on_def delivery_key_def)
  qed (use assms(1) in \<open>simp_all add: keys_ok_def delivery_key_def\<close>)
  moreover have "distinct (map receipt_key (t_idempotency (rename_db f db)))"
    unfolding rename_db_tables rename_ids_tables
  proof (rule distinct_renamed [where key = receipt_key and h = "\<lambda>(a, b, c). (f a, f b, c)"])
    show "inj_on (\<lambda>(a, b, c). (f a, f b, c)) (receipt_key ` set (t_idempotency db))"
      using sub [OF out_of] sub [OF into] by (auto simp: inj_on_def receipt_key_def)
  qed (use assms(1) in \<open>simp_all add: keys_ok_def receipt_key_def\<close>)
  moreover have "map fst (t_conversations (rename_db f db)) = map fst (t_conversations db)"
    by (simp add: case_prod_unfold comp_def)
  then have "keys_distinct (t_conversations (rename_db f db))" using assms(1) by (simp only: keys_ok_def)
  moreover have "\<forall>(k, r) \<in> set (t_agents (rename_db f db)). a_AgentID (ar_agent r) = k" using assms(1) by (auto simp: keys_ok_def)
  ultimately show ?thesis unfolding keys_ok_def by blast
qed

lemma db_inv_keys_ok: "db_inv db \<Longrightarrow> keys_distinct (t_delivery_cursors db) \<Longrightarrow> keys_ok db"
  by (auto simp: db_inv_def keys_ok_def rows_ok_def deliveries_ok_def delivery_key_def [abs_def] map_of_eq_Some_iff)

lemma db_inv_rename:
  assumes "db_inv db" and "keys_distinct (t_delivery_cursors db)" and inj: "inj_on f (insert [] (set (column_ids db)))"
  shows "db_inv (rename_db f db)"
proof -
  note k = keys_ok_rename [OF db_inv_keys_ok [OF assms(1,2)] inj, unfolded keys_ok_def]
  have keys: "map fst (t_messages (rename_db f db)) = map fst (t_messages db)"
    "map fst (t_conversations (rename_db f db)) = map fst (t_conversations db)" by (simp_all add: case_prod_unfold comp_def)
  have cursor: "cursor_of (f a) (rename_db f db) = cursor_of a db" if "a \<in> insert [] (set (column_ids db))" for a
    using that inj by (intro cursor_of_rename inj_on_subset [OF inj]) (auto simp: column_ids_set)
  have "deliveries_ok (rename_db f db)"
  proof -
    have "has_key (t_messages (rename_db f db)) m = has_key (t_messages db) m" for m
      unfolding has_key_iff_mem set_map [symmetric] keys(1) by (rule refl)
    moreover have "cursor_of (f (dl_target_agent_id d)) (rename_db f db) = cursor_of (dl_target_agent_id d) db"
      if "d \<in> set (t_deliveries db)" for d using that by (intro cursor) (simp add: column_ids_set)
    ultimately show ?thesis using assms(1) k
      by (auto simp: db_inv_def deliveries_ok_def delivery_key_def [abs_def] comp_def simp del: rename_db_tables(2))
  qed
  moreover have "cursors_ok (rename_db f db)"
    unfolding cursors_ok_def
  proof
    fix a
    show "0 \<le> dc_acknowledged_cursor (cursor_of a (rename_db f db)) \<and>
        dc_acknowledged_cursor (cursor_of a (rename_db f db)) \<le> dc_next_seq (cursor_of a (rename_db f db))"
    proof (cases "a \<in> f ` fst ` set (t_delivery_cursors db)")
      case True
      then obtain b where "a = f b" "b \<in> fst ` set (t_delivery_cursors db)" by auto
      then show ?thesis using cursor [of b] assms(1) by (simp add: column_ids_set db_inv_def cursors_ok_def)
    next
      case False
      then show ?thesis using map_of_rename_None [OF False, of "\<lambda>_ r. r"] by (simp add: cursor_of_def get_or_def)
    qed
  qed
  moreover have "rows_ok (rename_db f db)"
  proof -
    have "keys_distinct (t_messages (rename_db f db))" "keys_distinct (t_conversations (rename_db f db))"
      using assms(1) by (simp_all only: keys db_inv_def rows_ok_def)
    moreover have "\<forall>k m. map_of (t_messages (rename_db f db)) k = Some m \<longrightarrow> m_MessageID m = k"
      "\<forall>k c. map_of (t_conversations (rename_db f db)) k = Some c \<longrightarrow> c_ConversationID c = k"
      using assms(1) by (auto simp: db_inv_def rows_ok_def map_of_map)
    moreover have "\<forall>k r. map_of (t_agents (rename_db f db)) k = Some r \<longrightarrow> a_AgentID (ar_agent r) = k"
      using k by (auto dest!: map_of_SomeD simp del: rename_db_tables map_of_eq_Some_iff)
    ultimately show ?thesis using k unfolding rows_ok_def by blast
  qed
  moreover have "distinct (map receipt_key (t_idempotency (rename_db f db)))" using k by blast
  ultimately show ?thesis using assms(1) by (simp add: db_inv_def)
qed

end
