(* ===== verification/Namespace.thy ===== *)
theory Namespace
  imports Ns_Rename Bus_Examples
begin

text \<open>
  The properties of the namespace migration: it is all or nothing, renames exactly what the manifest says in
  every column, can be repeated, and is undone by the inverse manifest.
\<close>

section \<open>Runs\<close>

definition statements_fine :: "migrate_io \<Rightarrow> bool" where
  "statements_fine io \<longleftrightarrow>
     (\<forall>surface. mg_Query io surface = None) \<and> (\<forall>cid. mg_Participants io cid = None) \<and> mg_Rollback io = None \<and>
     (\<forall>surface source. mg_Exec io surface source = None) \<and> mg_Commit io = None"

text \<open>The run reaches the transaction.\<close>

definition admitted :: "(string \<Rightarrow> string) \<Rightarrow> ranking \<Rightarrow> migrate_io \<Rightarrow> manifest \<Rightarrow> options \<Rightarrow> bool" where
  "admitted Quote rk io manifest opts \<longleftrightarrow>
     op_AcknowledgeCopy opts \<and> (op_Authority opts = AuthorityJK \<or> op_Authority opts = AuthorityUCLA) \<and>
     validateDBPath (mg_Lstat io) (op_DBPath opts) = None \<and> select manifest (op_Authority opts) \<noteq> [] \<and>
     validateControlPlaneAgreement Quote rk (map fresh_mapping (select manifest (op_Authority opts)))
       (op_ControlPlaneAgents opts) = None \<and>
     mg_Open io = None \<and> mg_Begin io = None"

lemma Run_admitted:
  assumes "admitted Quote rk io manifest opts"
  obtains report where "Run Quote rk io manifest opts db =
      migrate_transaction io opts (map fresh_mapping (select manifest (op_Authority opts))) report db"
    and "rp_TotalRewrites report = 0" and "rp_AlreadyAppliedMappings report = 0"
proof -
  let ?r = "snd (selectMappings manifest (op_Authority opts) (newReport opts))"
  have "Run Quote rk io manifest opts db =
      migrate_transaction io opts (map fresh_mapping (select manifest (op_Authority opts))) ?r db"
    using assms by (auto simp: Run_def admitted_def ParseAuthority_def selectMappings_fields(1) case_prod_unfold Let_def)
  moreover have "rp_TotalRewrites ?r = 0" "rp_AlreadyAppliedMappings ?r = 0"
    by (simp_all add: selectMappings_fields newReport_def)
  ultimately show ?thesis using that by blast
qed

lemma Run_refused:
  assumes "\<not> admitted Quote rk io manifest opts"
  shows "rp_Status (fst (fst (Run Quote rk io manifest opts db))) = ''refused''"
  using assms unfolding Run_def admitted_def
  by (auto simp: ParseAuthority_def selectMappings_fields(1) case_prod_unfold Let_def split: option.splits prod.splits)

lemma inspect_fine: "statements_fine io \<Longrightarrow> \<exists>r. inspect io db = Inr r"
proof -
  assume io: "statements_fine io"
  then have "\<exists>r. inspect_queries io db qs i = Inr r" for qs i
    by (induction io db qs i rule: inspect_queries.induct) (auto simp: statements_fine_def)
  moreover have "\<exists>r. inspect_rows io rows i = Inr r" for rows i
    using io by (induction io rows i rule: inspect_rows.induct) (auto simp: statements_fine_def Let_def)
  ultimately show ?thesis using io
    by (auto simp: inspect_def inspectConversations_def statements_fine_def split: sum.split) (metis Inl_Inr_False)+
qed

lemma transaction_applied:
  assumes "manifest_ok manifest" and "keys_ok db" and "rp_TotalRewrites report = 0"
    and tx: "migrate_transaction io opts (map fresh_mapping (select manifest authority)) report db = ((report', err), db')"
    and "rp_Status report' = ''applied''"
  shows "migratable manifest authority db"
    and "db' = rename_db (renaming (plan_of manifest authority db)) db"
    and "\<exists>item \<in> set (plan_of manifest authority db). mp_active item"
    and "rp_AlreadyAppliedMappings report' =
      rp_AlreadyAppliedMappings report + int (length (filter mp_alreadyApplied (plan_of manifest authority db)))"
proof -
  obtain inspected where ins: "inspect io db = Inr inspected"
    using tx assms(5) by (auto simp: migrate_transaction_def rejectFromError_def split: sum.splits)
  obtain err0 items inspected1 report1 where pre:
    "preflight (map fresh_mapping (select manifest authority)) inspected report = (err0, items, inspected1, report1)"
    by (metis prod_cases4)
  have none: "err0 = None" and total: "rp_TotalRewrites report1 \<noteq> 0" and report: "report' = report1\<lparr>rp_Status := ''applied''\<rparr>"
    and applied: "applyPlan io items inspected1 db = Inr db'"
    using tx assms(5) by (auto simp: migrate_transaction_def ins pre reject_def rejectFromError_def Let_def
        split: option.splits sum.splits if_splits)
  note P = preflight_fields [OF ins pre]
  show m: "migratable manifest authority db" using P(1) none by simp
  show "\<exists>item \<in> set (plan_of manifest authority db). mp_active item"
    using P(2,5) none total assms(3) by auto
  show "rp_AlreadyAppliedMappings report' =
      rp_AlreadyAppliedMappings report + int (length (filter mp_alreadyApplied (plan_of manifest authority db)))"
    using P(2,6) none report by simp
  have app: "applicable inspected1 items db"
    using plan_applicable [OF assms(1) _ ins P(4) [OF none]] m P(2) [OF none] by (simp add: migratable_def)
  have "applyPlan (no_errors io) items inspected1 db = Inr (rename_db (renaming items) db)"
    by (rule applyPlan_applicable [OF assms(2) app _ P(3) [OF none]]) (simp add: no_errors_def)
  then show "db' = rename_db (renaming (plan_of manifest authority db)) db"
    using applyPlan_no_errors [OF applied] P(2) none by simp
qed

lemma transaction_succeeds:
  assumes "manifest_ok manifest" and "keys_ok db" and "rp_TotalRewrites report = 0" and "statements_fine io"
    and "migratable manifest authority db" and "op_Apply opts"
    and tx: "migrate_transaction io opts (map fresh_mapping (select manifest authority)) report db = ((report', err), db')"
  shows "err = None"
    and "\<exists>item \<in> set (plan_of manifest authority db). mp_active item \<Longrightarrow> rp_Status report' = ''applied''"
    and "\<forall>item \<in> set (plan_of manifest authority db). \<not> mp_active item \<Longrightarrow> rp_Status report' = ''no-op'' \<and> db' = db"
    and "rp_AlreadyAppliedMappings report' =
      rp_AlreadyAppliedMappings report + int (length (filter mp_alreadyApplied (plan_of manifest authority db)))"
proof -
  obtain inspected where ins: "inspect io db = Inr inspected" using inspect_fine [OF assms(4)] by blast
  obtain err0 items inspected1 report1 where pre:
    "preflight (map fresh_mapping (select manifest authority)) inspected report = (err0, items, inspected1, report1)"
    by (metis prod_cases4)
  note P = preflight_fields [OF ins pre]
  have none: "err0 = None" using P(1) assms(5) by simp
  have app: "applicable inspected1 items db"
    using plan_applicable [OF assms(1) _ ins P(4) [OF none]] assms(5) P(2) [OF none] by (simp add: migratable_def)
  have io: "mg_Exec io surface source = None" for surface source using assms(4) by (simp add: statements_fine_def)
  note plan_done = applyPlan_applicable [OF assms(2) app io P(3) [OF none]]
  have result: "((report', err), db') =
      (if \<forall>item \<in> set (plan_of manifest authority db). \<not> mp_active item then ((report1\<lparr>rp_Status := ''no-op''\<rparr>, None), db)
       else ((report1\<lparr>rp_Status := ''applied''\<rparr>, None), rename_db (renaming items) db))"
    using tx assms(4,6) plan_done P(2,5) none assms(3)
    by (auto simp: migrate_transaction_def ins pre statements_fine_def Let_def split: if_splits)
  then show "err = None"
    "\<exists>item \<in> set (plan_of manifest authority db). mp_active item \<Longrightarrow> rp_Status report' = ''applied''"
    "\<forall>item \<in> set (plan_of manifest authority db). \<not> mp_active item \<Longrightarrow> rp_Status report' = ''no-op'' \<and> db' = db"
    by (auto split: if_splits)
  show "rp_AlreadyAppliedMappings report' =
      rp_AlreadyAppliedMappings report + int (length (filter mp_alreadyApplied (plan_of manifest authority db)))"
    using result P(2,6) none by (auto split: if_splits)
qed

section \<open>The renaming of a manifest\<close>

lemma manifest_renaming_keeps_empty:
  assumes "manifest_ok manifest"
  shows "keeps_empty (manifest_renaming manifest authority db)"
proof -
  have "manifest_renaming manifest authority db x = [] \<longleftrightarrow> x = []" for x
  proof (cases rule: manifest_renaming_cases [of manifest authority db x])
    case (renamed row)
    then show ?thesis using select_ok(1) [OF assms] by auto
  qed simp
  then show ?thesis by (simp add: keeps_empty_def)
qed

lemma manifest_renaming_inj:
  assumes "manifest_ok manifest" and "no_collision manifest authority db"
  shows "inj_on (manifest_renaming manifest authority db) (insert [] (set (identities db)))"
proof (rule inj_onI)
  let ?f = "manifest_renaming manifest authority db"
  fix x y assume x: "x \<in> insert [] (set (identities db))" and y: "y \<in> insert [] (set (identities db))" and eq: "?f x = ?f y"
  have fresh: "mr_TargetID row \<notin> insert [] (set (identities db))"
    if "row \<in> set (select manifest authority)" "mr_TargetID row \<noteq> mr_SourceID row" "mr_SourceID row \<in> set (identities db)" for row
    using assms(2) that select_ok(1) [OF assms(1)] by (auto simp: no_collision_def)
  have one: "r = r'" if "r \<in> set (select manifest authority)" "r' \<in> set (select manifest authority)" "mr_TargetID r = mr_TargetID r'" for r r'
    using select_ok(3) [OF assms(1)] that by (auto simp: distinct_map inj_on_def)
  have mixed: False if "?f u = u" "?f v = mr_TargetID row" "u \<in> insert [] (set (identities db))" "?f u = ?f v"
      "row \<in> set (select manifest authority)" "mr_TargetID row \<noteq> v" "mr_SourceID row = v" "v \<in> set (identities db)" for u v row
    using fresh [of row] that by auto
  show "x = y"
  proof (cases rule: manifest_renaming_cases [of manifest authority db x])
    case x_same: same
    show ?thesis
    proof (cases rule: manifest_renaming_cases [of manifest authority db y])
      case (renamed row)
      then show ?thesis using mixed [OF x_same renamed(5) x eq renamed(1,3,2,4)] by simp
    qed (use x_same eq in simp)
  next
    case x_renamed: (renamed r)
    show ?thesis
    proof (cases rule: manifest_renaming_cases [of manifest authority db y])
      case same
      then show ?thesis using mixed [OF same x_renamed(5) y eq [symmetric] x_renamed(1,3,2,4)] by simp
    next
      case (renamed r')
      have "mr_TargetID r = mr_TargetID r'" unfolding x_renamed(5) [symmetric] renamed(5) [symmetric] by (rule eq)
      then show ?thesis using one [OF x_renamed(1) renamed(1)] x_renamed(2) renamed(2) by blast
    qed
  qed
qed

lemma column_ids_identities: "insert [] (set (column_ids db)) \<subseteq> insert [] (set (identities db))"
  by (auto simp: identities_column)

lemma applied_run:
  assumes "ParseManifest Quote rk0 s = Inr manifest" and "db_inv db" and "keys_distinct (t_delivery_cursors db)"
    and run: "Run Quote rk io manifest opts db = ((report, err), db')" and applied: "rp_Status report = ''applied''"
  shows "manifest_ok manifest" and "keys_ok db" and "admitted Quote rk io manifest opts"
    and "migratable manifest (op_Authority opts) db"
    and "db' = rename_db (manifest_renaming manifest (op_Authority opts) db) db"
    and "\<exists>item \<in> set (plan_of manifest (op_Authority opts) db). mp_active item"
    and "rp_AlreadyAppliedMappings report = int (length (filter mp_alreadyApplied (plan_of manifest (op_Authority opts) db)))"
proof -
  show ok: "manifest_ok manifest" by (rule ParseManifest_ok [OF assms(1)])
  show keys: "keys_ok db" by (rule db_inv_keys_ok [OF assms(2,3)])
  show adm: "admitted Quote rk io manifest opts" using Run_refused [of Quote rk io manifest opts db] run applied by auto
  obtain r where tx: "Run Quote rk io manifest opts db =
      migrate_transaction io opts (map fresh_mapping (select manifest (op_Authority opts))) r db"
    and r: "rp_TotalRewrites r = 0" "rp_AlreadyAppliedMappings r = 0" by (rule Run_admitted [OF adm])
  note T = transaction_applied [OF ok keys r(1) tx [symmetric, unfolded run] applied]
  show "migratable manifest (op_Authority opts) db" by (rule T(1))
  show "db' = rename_db (manifest_renaming manifest (op_Authority opts) db) db" using T(2) renaming_plan [OF ok] by simp
  show "\<exists>item \<in> set (plan_of manifest (op_Authority opts) db). mp_active item" by (rule T(3))
  show "rp_AlreadyAppliedMappings report = int (length (filter mp_alreadyApplied (plan_of manifest (op_Authority opts) db)))"
    using T(4) r(2) by simp
qed

section \<open>Properties\<close>

text \<open>
  C19. The migration is all or nothing. Whatever its options, the manifest, the database and the errors of the
  file system and of SQLite are: a refused run, a dry run and a run with nothing to do leave the database as it
  was; a run changes it only when it was told to apply on an acknowledged copy, and then reports \<^verbatim>\<open>applied\<close>; an
  error and the status \<^verbatim>\<open>refused\<close> come together.
\<close>

theorem migration_all_or_nothing:
  "case Run Quote rk io manifest opts db of ((report, err), db') \<Rightarrow>
     (case err of
        Some refusals \<Rightarrow> rp_Status report = ''refused'' \<and> db' = db
      | None \<Rightarrow>
          if rp_Status report = ''applied'' then op_Apply opts \<and> op_AcknowledgeCopy opts
          else (rp_Status report = ''no-op'' \<or> rp_Status report = ''ready'' \<and> \<not> op_Apply opts) \<and> db' = db)"
  using Run_outcome [of opts db Quote rk io manifest] unfolding outcome_ok_def by simp

text \<open>
  C16. What an applied migration does. With the renaming that sends each identity present in the database and
  named as a source under the declared authority to its target, and fixes every other string: the new
  database is the old one with the renaming applied to every column that holds identities and to the
  participants of every conversation, and with nothing else changed; different identities stay different;
  no conversation has participants of both authorities; and the invariant of the database still holds, so
  that a bus can be started on it.
\<close>

theorem migration_renames:
  assumes "ParseManifest Quote rk0 s = Inr manifest" and "db_inv db" and "keys_distinct (t_delivery_cursors db)"
    and "Run Quote rk io manifest opts db = ((report, err), db')" and "rp_Status report = ''applied''"
  shows "db' = rename_db (manifest_renaming manifest (op_Authority opts) db) db \<and>
    inj_on (manifest_renaming manifest (op_Authority opts) db) (set (identities db)) \<and>
    set (identities db') = manifest_renaming manifest (op_Authority opts) db ` set (identities db) \<and>
    (\<forall>(k, c) \<in> set (t_conversations db'). \<not> mixed_scopes (c_Participants c)) \<and>
    db_inv db'"
proof (intro conjI impI)
  note A = applied_run [OF assms]
  note inj = manifest_renaming_inj [OF A(1)] and ke = manifest_renaming_keeps_empty [OF A(1)]
  have col: "no_collision manifest (op_Authority opts) db" using A(4) by (simp add: migratable_def)
  show db': "db' = rename_db (manifest_renaming manifest (op_Authority opts) db) db" by (rule A(5))
  show "inj_on (manifest_renaming manifest (op_Authority opts) db) (set (identities db))"
    using inj [OF col] by (rule inj_on_subset) auto
  show "set (identities db') = manifest_renaming manifest (op_Authority opts) db ` set (identities db)"
    using identities_rename_db [OF ke] db' by simp
  show "\<forall>(k, c) \<in> set (t_conversations db'). \<not> mixed_scopes (c_Participants c)"
    using A(4) renaming_plan [OF A(1)] by (auto simp: db' migratable_def)
  show "db_inv db'" unfolding db'
    by (rule db_inv_rename [OF assms(2,3) inj_on_subset [OF inj [OF col] column_ids_identities]])
qed

section \<open>Running again and undoing\<close>

definition file_fine :: "migrate_io \<Rightarrow> bool" where
  "file_fine io \<longleftrightarrow> mg_Lstat io = Inr Regular \<and> mg_Open io = None \<and> mg_Begin io = None"

lemma admitted_file_fine:
  assumes "admitted Quote rk io manifest opts" and "file_fine io'"
  shows "admitted Quote rk io' manifest opts"
  using assms by (auto simp: admitted_def file_fine_def validateDBPath_def split: if_splits)

lemma fine_run:
  assumes "manifest_ok manifest" and "keys_ok db" and "admitted Quote rk io manifest opts" and "statements_fine io"
    and "op_Apply opts" and "migratable manifest (op_Authority opts) db"
    and run: "Run Quote rk io manifest opts db = ((report, err), db')"
  shows "err = None"
    and "\<exists>item \<in> set (plan_of manifest (op_Authority opts) db). mp_active item \<Longrightarrow>
      rp_Status report = ''applied'' \<and> db' = rename_db (manifest_renaming manifest (op_Authority opts) db) db"
    and "\<forall>item \<in> set (plan_of manifest (op_Authority opts) db). \<not> mp_active item \<Longrightarrow> rp_Status report = ''no-op'' \<and> db' = db"
proof -
  obtain r where tx: "Run Quote rk io manifest opts db =
      migrate_transaction io opts (map fresh_mapping (select manifest (op_Authority opts))) r db"
    and r: "rp_TotalRewrites r = 0" by (rule Run_admitted [OF assms(3)])
  note tx' = tx [symmetric, unfolded run]
  note T = transaction_succeeds [OF assms(1,2) r assms(4,6,5) tx']
  show "err = None" by (rule T(1))
  show "rp_Status report = ''no-op'' \<and> db' = db"
    if "\<forall>item \<in> set (plan_of manifest (op_Authority opts) db). \<not> mp_active item" by (rule T(3) [OF that])
  show "rp_Status report = ''applied'' \<and> db' = rename_db (manifest_renaming manifest (op_Authority opts) db) db"
    if "\<exists>item \<in> set (plan_of manifest (op_Authority opts) db). mp_active item"
    using T(2) [OF that] transaction_applied(2) [OF assms(1,2) r tx'] renaming_plan [OF assms(1)] by simp
qed

lemma select_swap: "select (map swap_ids manifest) authority = map swap_ids (select manifest authority)"
  by (simp add: select_def filter_map comp_def)

lemma migration_keys:
  assumes "manifest_ok manifest" and "keys_ok db" and "migratable manifest authority db"
  shows "keys_ok (rename_db (manifest_renaming manifest authority db) db)"
  using assms(3)
  by (intro keys_ok_rename assms inj_on_subset [OF manifest_renaming_inj column_ids_identities])
    (simp_all add: assms migratable_def)

lemma control_plane_swap:
  assumes "\<forall>row \<in> set rows. row_ok row"
  shows "control_plane_ids (map fresh_mapping (map swap_ids rows)) = control_plane_ids (map fresh_mapping rows)"
proof -
  have "mr_TargetID row = mr_SourceID row" if "row \<in> set rows" "mr_ControlPlane row" for row
    using assms that by (auto simp: row_ok_def mapping_ok_def Let_def split: if_splits)
  then show ?thesis unfolding control_plane_ids_def fold_map by (intro fold_cong) auto
qed

lemma admitted_swap:
  assumes "manifest_ok manifest" and "admitted Quote rk io manifest opts"
  shows "admitted Quote rk io (map swap_ids manifest) opts"
proof -
  have "\<forall>row \<in> set (select manifest (op_Authority opts)). row_ok row" using select_ok(1) [OF assms(1)] by blast
  note same = control_plane_swap [OF this]
  show ?thesis unfolding admitted_def validateControlPlaneAgreement_def select_swap same
    using assms(2) by (simp add: admitted_def validateControlPlaneAgreement_def)
qed

lemma active_iff:
  "(\<exists>item \<in> set (plan_of manifest authority db). mp_active item) \<longleftrightarrow>
     (\<exists>row \<in> set (select manifest authority). mr_SourceID row \<noteq> mr_TargetID row \<and> mr_SourceID row \<in> set (identities db))"
proof -
  have "mp_active (mark ids row) \<longleftrightarrow> mr_SourceID row \<noteq> mr_TargetID row \<and> mr_SourceID row \<in> set ids" for ids row
    by (simp add: mark_def)
  then show ?thesis by (simp add: plan_of_def)
qed

text \<open>After a renaming, an identity is what its row says, or it is one that no row renames.\<close>

lemma renamed_identity:
  assumes "y \<in> manifest_renaming manifest authority db ` set (identities db)" and "manifest_ok manifest"
  obtains (kept) "y \<in> set (identities db)" "manifest_renaming manifest authority db y = y"
      "\<And>row. row \<in> set (select manifest authority) \<Longrightarrow> mr_SourceID row = y \<Longrightarrow> mr_TargetID row = y"
  | (moved) row where "row \<in> set (select manifest authority)" "mr_TargetID row = y" "mr_SourceID row \<noteq> y"
      "mr_SourceID row \<in> set (identities db)"
proof -
  obtain x where x: "x \<in> set (identities db)" "y = manifest_renaming manifest authority db x" using assms(1) by auto
  show ?thesis
  proof (cases rule: manifest_renaming_cases [of manifest authority db x])
    case same
    then have y: "y = x" using x(2) by simp
    have "mr_TargetID row = y" if "row \<in> set (select manifest authority)" "mr_SourceID row = y" for row
      using manifest_renaming_row [OF assms(2) that(1), of db] that(2) same x(1) y by metis
    then show ?thesis using kept x(1) same y by blast
  next
    case (renamed row)
    then show ?thesis using moved [of row] x(2) by simp
  qed
qed

lemma rerun_quiet:
  assumes ok: "manifest_ok manifest"
    and one_way: "\<forall>r \<in> set (select manifest authority). \<forall>r' \<in> set (select manifest authority).
      mr_SourceID r = mr_TargetID r' \<longrightarrow> mr_SourceID r = mr_TargetID r \<or> mr_SourceID r' = mr_TargetID r'"
    and m: "migratable manifest authority db" and db': "db' = rename_db (manifest_renaming manifest authority db) db"
  shows "migratable manifest authority db'" and "\<forall>item \<in> set (plan_of manifest authority db'). \<not> mp_active item"
proof -
  let ?f = "manifest_renaming manifest authority db"
  have ids: "set (identities db') = ?f ` set (identities db)"
    unfolding db' by (rule identities_rename_db [OF manifest_renaming_keeps_empty [OF ok]])
  have gone: "mr_SourceID row \<notin> set (identities db')"
    if row: "row \<in> set (select manifest authority)" "mr_SourceID row \<noteq> mr_TargetID row" for row
  proof
    assume "mr_SourceID row \<in> set (identities db')"
    then have "mr_SourceID row \<in> ?f ` set (identities db)" by (simp add: ids)
    from renamed_identity [OF this ok] show False using row one_way by metis
  qed
  then show quiet: "\<forall>item \<in> set (plan_of manifest authority db'). \<not> mp_active item" using active_iff by blast
  have named: "\<exists>row \<in> set (select manifest authority). y = mr_SourceID row \<or> y = mr_TargetID row"
    if "y \<in> set (identities db')" for y
    using that unfolding ids
    by (rule renamed_identity [OF _ ok]) (use m in \<open>auto simp: migratable_def\<close>)
  have same: "manifest_renaming manifest authority db' x = x" for x
    by (cases rule: manifest_renaming_cases [of manifest authority db' x]) (use gone in auto)
  have "renaming (plan_of manifest authority db') = (\<lambda>x. x)" using renaming_plan [OF ok] same by auto
  moreover have "\<forall>(k, c) \<in> set (t_conversations db'). \<not> mixed_scopes (c_Participants c)"
    using m renaming_plan [OF ok] by (auto simp: db' migratable_def)
  ultimately show "migratable manifest authority db'"
    using gone named by (auto simp: migratable_def no_collision_def)
qed

text \<open>
  The inverse manifest on the migrated database. \<open>fresh\<close> says that no target was there before.
\<close>

lemma undo_renaming:
  assumes ok: "manifest_ok manifest" and m: "migratable manifest authority db"
    and fresh: "\<forall>row \<in> set (select manifest authority). mr_SourceID row \<noteq> mr_TargetID row \<longrightarrow>
      mr_TargetID row \<notin> set (identities db)"
    and db': "db' = rename_db (manifest_renaming manifest authority db) db"
    and x: "x \<in> set (identities db)"
  shows "manifest_renaming (map swap_ids manifest) authority db' (manifest_renaming manifest authority db x) = x"
proof -
  let ?f = "manifest_renaming manifest authority db" and ?g = "manifest_renaming (map swap_ids manifest) authority db'"
  have ids: "set (identities db') = ?f ` set (identities db)"
    unfolding db' by (rule identities_rename_db [OF manifest_renaming_keeps_empty [OF ok]])
  show ?thesis
  proof (cases rule: manifest_renaming_cases [of manifest authority db x])
    case (renamed row)
    have "swap_ids row \<in> set (select (map swap_ids manifest) authority)" using renamed(1) by (simp add: select_swap)
    moreover have "mr_SourceID (swap_ids row) \<in> set (identities db')" using imageI [OF x, of ?f] renamed(5) by (simp add: ids)
    ultimately have "?g (mr_SourceID (swap_ids row)) = mr_TargetID (swap_ids row)"
      using renamed(2,3) by (intro manifest_renaming_row manifest_ok_swap ok) auto
    then show ?thesis using renamed(2,5) by simp
  next
    case same
    have "?g x = x"
    proof (cases rule: manifest_renaming_cases [of "map swap_ids manifest" authority db' x])
      case (renamed row)
      then obtain r where "r \<in> set (select manifest authority)" "mr_TargetID r = x" "mr_SourceID r \<noteq> x"
        by (auto simp: select_swap)
      then show ?thesis using fresh x by auto
    qed
    then show ?thesis using same by simp
  qed
qed

lemma undo_migratable:
  assumes ok: "manifest_ok manifest" and m: "migratable manifest authority db"
    and fresh: "\<forall>row \<in> set (select manifest authority). mr_SourceID row \<noteq> mr_TargetID row \<longrightarrow>
      mr_TargetID row \<notin> set (identities db)"
    and db': "db' = rename_db (manifest_renaming manifest authority db) db"
    and unmixed: "\<forall>(k, c) \<in> set (t_conversations db). \<not> mixed_scopes (c_Participants c)"
  shows "migratable (map swap_ids manifest) authority db'"
proof -
  let ?f = "manifest_renaming manifest authority db" and ?g = "manifest_renaming (map swap_ids manifest) authority db'"
  have ok': "manifest_ok (map swap_ids manifest)" by (rule manifest_ok_swap [OF ok])
  have ids: "set (identities db') = ?f ` set (identities db)"
    unfolding db' by (rule identities_rename_db [OF manifest_renaming_keeps_empty [OF ok]])
  have undo: "?g (?f x) = x" if "x \<in> set (participants_of db)" for x
  proof (cases "x = []")
    case True
    then show ?thesis
      using manifest_renaming_keeps_empty [OF ok, of authority db] manifest_renaming_keeps_empty [OF ok', of authority db']
      unfolding keeps_empty_def by metis
  next
    case False
    then show ?thesis using that by (intro undo_renaming [OF ok m fresh db']) (simp add: identities_column)
  qed
  have "\<exists>row \<in> set (select (map swap_ids manifest) authority). y = mr_SourceID row \<or> y = mr_TargetID row"
    if "y \<in> set (identities db')" for y
    using that unfolding ids
    by (rule renamed_identity [OF _ ok]) (use m in \<open>auto simp: migratable_def select_swap\<close>)
  moreover have "no_collision (map swap_ids manifest) authority db'"
  proof -
    have False if r: "r \<in> set (select manifest authority)" "mr_SourceID r \<noteq> mr_TargetID r"
      and s: "mr_SourceID r \<in> ?f ` set (identities db)" and t: "mr_TargetID r \<in> ?f ` set (identities db)" for r
    proof -
      from renamed_identity [OF t ok] obtain r2 where "r2 \<in> set (select manifest authority)"
        "mr_TargetID r2 = mr_TargetID r" "mr_SourceID r2 \<in> set (identities db)"
        using fresh r by metis
      moreover from this have "r2 = r" using select_ok(3) [OF ok, of authority] r(1) by (auto simp: distinct_map inj_on_def)
      ultimately have src: "mr_SourceID r \<in> set (identities db)" by simp
      from renamed_identity [OF s ok] show False using fresh r src by metis
    qed
    then show ?thesis unfolding no_collision_def select_swap ids set_map by (metis imageE swap_fields(2,3))
  qed
  moreover have "map ?g (map ?f (c_Participants c)) = c_Participants c" if "(k, c) \<in> set (t_conversations db)" for k c
    unfolding map_map by (rule map_idI) (use that undo in \<open>force simp: participants_of_def\<close>)
  then have "\<forall>(k, c) \<in> set (t_conversations db'). \<not> mixed_scopes (map ?g (c_Participants c))"
    using unmixed by (force simp: db')
  ultimately show ?thesis using renaming_plan [OF ok'] by (auto simp: migratable_def)
qed

text \<open>
  A second run is quiet. When a manifest does not rename one identity to another's old name, running it
  again on the migrated database succeeds, has nothing to do, reports the applied mappings and leaves the
  database as it is.
\<close>

theorem migration_rerun:
  assumes "ParseManifest Quote rk0 s = Inr manifest" and "db_inv db" and "keys_distinct (t_delivery_cursors db)"
    and "Run Quote rk io manifest opts db = ((report, err), db')" and "rp_Status report = ''applied''"
    and "\<forall>r \<in> set manifest. \<forall>r' \<in> set manifest. mr_SourceAuthority r = mr_SourceAuthority r' \<and> mr_SourceID r = mr_TargetID r' \<longrightarrow>
      mr_SourceID r = mr_TargetID r \<or> mr_SourceID r' = mr_TargetID r'"
    and "file_fine io'" and "statements_fine io'"
    and "Run Quote rk io' manifest opts db' = ((report', err'), db'')"
  shows "err' = None \<and>
    rp_Status report' = ''no-op'' \<and>
    db'' = db'"
proof (intro conjI impI)
  note A = applied_run [OF assms(1-5)]
  have do_apply: "op_Apply opts" using Run_outcome [of opts db Quote rk io manifest] assms(4,5) by (auto simp: outcome_ok_def split: option.splits)
  have keys: "keys_ok db'"
    using migration_keys [OF A(1,2,4)] A(5) by simp
  have "\<forall>r \<in> set (select manifest (op_Authority opts)). \<forall>r' \<in> set (select manifest (op_Authority opts)).
      mr_SourceID r = mr_TargetID r' \<longrightarrow> mr_SourceID r = mr_TargetID r \<or> mr_SourceID r' = mr_TargetID r'"
    using assms(6) by (simp add: select_def)
  note Q = rerun_quiet [OF A(1) this A(4,5)]
  note F = fine_run [OF A(1) keys admitted_file_fine [OF A(3) assms(7)] assms(8) do_apply Q(1) assms(9)]
  show "err' = None" by (rule F(1))
  show "rp_Status report' = ''no-op''" "db'' = db'" using F(3) [OF Q(2)] by auto
qed

text \<open>
  C17. The inverse manifest undoes a migration. When none of its renamings had been applied before and no
  conversation of the database mixed the two authorities, running the inverse of the manifest on the migrated
  database succeeds and gives back exactly the database there was.
\<close>

theorem migration_undone:
  assumes "ParseManifest Quote rk0 s = Inr manifest" and "db_inv db" and "keys_distinct (t_delivery_cursors db)"
    and "Run Quote rk io manifest opts db = ((report, err), db')" and "rp_Status report = ''applied''"
    and "rp_AlreadyAppliedMappings report = 0"
    and "\<forall>(k, c) \<in> set (t_conversations db). \<not> mixed_scopes (c_Participants c)"
    and "\<forall>row \<in> set manifest. no_CRLF (mr_OwnerRepo row) \<and> no_CRLF (mr_Evidence row)"
    and "InvertManifest Quote rk1 manifest = Inr undo_plan"
    and "file_fine io'" and "statements_fine io'"
    and "Run Quote rk io' undo_plan opts db' = ((report', err'), db'')"
  shows "err' = None \<and>
    rp_Status report' = ''applied'' \<and>
    db'' = db"
proof (intro conjI impI)
  note A = applied_run [OF assms(1-5)]
  let ?a = "op_Authority opts" and ?f = "manifest_renaming manifest (op_Authority opts) db"
  have do_apply: "op_Apply opts" using Run_outcome [of opts db Quote rk io manifest] assms(4,5) by (auto simp: outcome_ok_def split: option.splits)
  have inv: "undo_plan = map swap_ids manifest"
    using ParseManifest_written [OF manifest_ok_swap [OF A(1)], of Quote rk1] assms(8,9)
    by (simp add: InvertManifest_def free_text_ok_def)
  have ok': "manifest_ok undo_plan" unfolding inv by (rule manifest_ok_swap [OF A(1)])
  have keys: "keys_ok db'" using migration_keys [OF A(1,2,4)] A(5) by simp
  have "\<forall>item \<in> set (plan_of manifest ?a db). \<not> mp_alreadyApplied item"
    using A(7) assms(6) by (simp add: filter_empty_conv)
  then have "\<forall>row \<in> set (select manifest ?a). \<not> mp_alreadyApplied (mark (identities db) row)" by (simp add: plan_of_def)
  then have fresh: "\<forall>row \<in> set (select manifest ?a). mr_SourceID row \<noteq> mr_TargetID row \<longrightarrow> mr_TargetID row \<notin> set (identities db)"
    using A(4) by (auto simp: mark_def migratable_def no_collision_def)
  have adm: "admitted Quote rk io' undo_plan opts"
    unfolding inv by (rule admitted_swap [OF A(1) admitted_file_fine [OF A(3) assms(10)]])
  have m: "migratable undo_plan ?a db'" unfolding inv by (rule undo_migratable [OF A(1,4) fresh A(5) assms(7)])
  have ids: "set (identities db') = ?f ` set (identities db)"
    unfolding A(5) by (rule identities_rename_db [OF manifest_renaming_keeps_empty [OF A(1)]])
  obtain row where row: "row \<in> set (select manifest ?a)" "mr_SourceID row \<noteq> mr_TargetID row" "mr_SourceID row \<in> set (identities db)"
    using A(6) active_iff by blast
  then have "mr_TargetID row \<in> set (identities db')"
    using imageI [OF row(3), of ?f] manifest_renaming_row [OF A(1) row(1) _ row(3)] by (simp add: ids)
  then have act: "\<exists>item \<in> set (plan_of undo_plan ?a db'). mp_active item"
    unfolding active_iff inv select_swap using row by force
  note F = fine_run [OF ok' keys adm assms(11) do_apply m assms(12)]
  show "err' = None" by (rule F(1))
  show "rp_Status report' = ''applied''" using F(2) [OF act] by simp
  have "db'' = rename_db (manifest_renaming undo_plan ?a db' \<circ> ?f) db" using F(2) [OF act] A(5) by (simp add: rename_db_comp)
  also have "\<dots> = db"
  proof (rule rename_db_same [OF A(2)])
    show "(manifest_renaming undo_plan ?a db' \<circ> ?f) [] = []"
      using manifest_renaming_keeps_empty [OF A(1), of ?a db] manifest_renaming_keeps_empty [OF ok', of ?a db']
      by (auto simp: keeps_empty_def)
    show "(manifest_renaming undo_plan ?a db' \<circ> ?f) x = x" if "x \<in> set (identities db)" for x
      using undo_renaming [OF A(1,4) fresh A(5) that] by (simp add: inv)
  qed
  finally show "db'' = db" .
qed

section \<open>Which runs are refused\<close>

lemma transaction_decides:
  assumes "manifest_ok manifest" and "keys_ok db" and "rp_TotalRewrites report = 0" and "statements_fine io"
    and tx: "migrate_transaction io opts (map fresh_mapping (select manifest authority)) report db = ((report', err), db')"
  shows "err = None \<longleftrightarrow> migratable manifest authority db"
proof (cases "migratable manifest authority db \<and> op_Apply opts")
  case True
  then show ?thesis using transaction_succeeds(1) [OF assms(1-4) _ _ tx] by simp
next
  case False
  obtain inspected where ins: "inspect io db = Inr inspected" using inspect_fine [OF assms(4)] by blast
  obtain err0 items inspected1 report1 where pre:
    "preflight (map fresh_mapping (select manifest authority)) inspected report = (err0, items, inspected1, report1)"
    by (metis prod_cases4)
  have err0: "err0 = None \<longleftrightarrow> migratable manifest authority db" by (rule preflight_fields(1) [OF ins pre])
  show ?thesis
  proof (cases err0)
    case None
    then have "\<not> op_Apply opts" "mg_Rollback io = None" using False err0 assms(4) by (auto simp: statements_fine_def)
    then show ?thesis using tx None err0 by (auto simp: migrate_transaction_def ins pre Let_def split: if_splits)
  next
    case (Some e)
    then show ?thesis using tx err0 by (auto simp: migrate_transaction_def ins pre rejectFromError_def)
  qed
qed

text \<open>
  Every call succeeds; what the column \<open>participants\<close> of a conversation holds is another matter. A row whose
  text there is not a JSON array of strings (\<open>null\<close> counts as one that is not) has the error
  \<open>ParticipantsJSON\<close>: the table of the model holds the decoded list, so the text is an argument.
\<close>

definition calls_fine :: "migrate_io \<Rightarrow> bool" where
  "calls_fine io \<longleftrightarrow>
     (\<forall>surface. mg_Query io surface = None) \<and> (\<forall>cid. mg_Participants io cid \<in> {None, Some ParticipantsJSON}) \<and>
     mg_Rollback io = None \<and> (\<forall>surface source. mg_Exec io surface source = None) \<and> mg_Commit io = None"

definition invalid_participants :: "migrate_io \<Rightarrow> sqldb \<Rightarrow> bool" where
  "invalid_participants io db \<longleftrightarrow> (\<exists>(k, c) \<in> set (t_conversations db). mg_Participants io k = Some ParticipantsJSON)"

abbreviation texts_fine :: "migrate_io \<Rightarrow> migrate_io" where
  "texts_fine io \<equiv> io\<lparr>mg_Participants := \<lambda>_. None\<rparr>"

lemma inspect_queries_texts: "inspect_queries (texts_fine io) db qs i = inspect_queries io db qs i"
  by (induction io db qs i rule: inspect_queries.induct) (simp_all split: option.split)

lemma inspect_rows_texts:
  assumes "calls_fine io"
  shows "inspect_rows io rows i =
    (if \<exists>(k, c) \<in> set rows. mg_Participants io k = Some ParticipantsJSON
     then Inl (refuse ''invalid_participants_json'' participants_surface
       ''conversation participants must be a JSON array of strings'')
     else inspect_rows (texts_fine io) rows i)"
  using assms
proof (induction io rows i rule: inspect_rows.induct)
  case (2 io cid c rows i)
  have "mg_Participants io cid = None \<or> mg_Participants io cid = Some ParticipantsJSON"
    using 2(2) by (auto simp: calls_fine_def)
  then show ?case using 2 by (auto simp: Let_def)
qed simp

lemma inspect_texts:
  assumes "calls_fine io"
  shows "inspect io db =
    (if invalid_participants io db
     then Inl (refuse ''invalid_participants_json'' participants_surface
       ''conversation participants must be a JSON array of strings'')
     else inspect (texts_fine io) db)"
proof -
  have q: "\<forall>surface. mg_Query io surface = None" using assms by (simp add: calls_fine_def)
  then have "\<exists>r. inspect_queries io db qs i = Inr r" for qs i
    by (induction io db qs i rule: inspect_queries.induct) auto
  then obtain r where "inspect_queries io db queries \<lparr>in_present = [], in_occurrences = [], in_conversations = []\<rparr> = Inr r"
    by blast
  then show ?thesis
    by (auto simp: inspect_def inspectConversations_def inspect_queries_texts q inspect_rows_texts [OF assms]
        invalid_participants_def split: sum.split)
qed

lemma applyPlan_texts: "applyPlan (texts_fine io) items inspected db = applyPlan io items inspected db"
proof -
  have "run_update (texts_fine io) = run_update io" by (intro ext) (simp add: run_update_def)
  then have item: "rewrite_item (texts_fine io) = rewrite_item io" by (intro ext) (simp add: rewrite_item_def)
  have conversation: "rewrite_conversation (texts_fine io) = rewrite_conversation io"
    by (intro ext) (simp add: rewrite_conversation_def)
  show ?thesis unfolding applyPlan_def item conversation by (rule refl)
qed

text \<open>
  C18. Which migrations are refused. On an acknowledged copy that can be opened, with a manifest that has rows
  for the authority and agrees with the configured control plane, and when no statement fails, a run, dry or
  not, is refused exactly when some conversation's participants column does not hold a JSON array of strings,
  or some identity of the database is not named by the manifest, or the source and
  the target of a row are both in use, or a conversation would have participants of both authorities. A
  column that does not hold such an array is reported as that and as nothing else. In
  particular no constraint of a table and no row count stops a run that passed the preflight.
\<close>

theorem migration_decides:
  assumes "ParseManifest Quote rk0 s = Inr manifest" and "db_inv db" and "keys_distinct (t_delivery_cursors db)"
    and "admitted Quote rk io manifest opts" and "calls_fine io"
    and "Run Quote rk io manifest opts db = ((report, err), db')"
  shows "(err = None \<longleftrightarrow>
    (\<forall>(k, c) \<in> set (t_conversations db). mg_Participants io k \<noteq> Some ParticipantsJSON) \<and>
    (\<forall>x \<in> set (identities db). \<exists>row \<in> set manifest. mr_SourceAuthority row = op_Authority opts \<and>
       (x = mr_SourceID row \<or> x = mr_TargetID row)) \<and>
    (\<forall>row \<in> set manifest. mr_SourceAuthority row = op_Authority opts \<and> mr_SourceID row \<noteq> mr_TargetID row \<longrightarrow>
       mr_SourceID row \<notin> set (identities db) \<or> mr_TargetID row \<notin> set (identities db)) \<and>
    (\<forall>(k, c) \<in> set (t_conversations db).
       \<not> mixed_scopes (map (manifest_renaming manifest (op_Authority opts) db) (c_Participants c)))) \<and>
   (\<forall>(k, c) \<in> set (t_conversations db). mg_Participants io k = Some ParticipantsJSON \<longrightarrow>
      err = Some (refuse ''invalid_participants_json'' participants_surface
        ''conversation participants must be a JSON array of strings''))"
proof -
  have ok: "manifest_ok manifest" by (rule ParseManifest_ok [OF assms(1)])
  let ?sel = "map fresh_mapping (select manifest (op_Authority opts))"
  obtain r where "Run Quote rk io manifest opts db = migrate_transaction io opts ?sel r db"
    and r: "rp_TotalRewrites r = 0" by (rule Run_admitted [OF assms(4)])
  then have tx: "migrate_transaction io opts ?sel r db = ((report, err), db')"
    using assms(6) by simp
  show ?thesis
  proof (cases "invalid_participants io db")
    case True
    then have "err = Some (refuse ''invalid_participants_json'' participants_surface
        ''conversation participants must be a JSON array of strings'')"
      using tx by (simp add: migrate_transaction_def inspect_texts [OF assms(5)] rejectFromError_def)
    with True show ?thesis by (auto simp: invalid_participants_def)
  next
    case False
    then have same: "inspect io db = inspect (texts_fine io) db" by (simp add: inspect_texts [OF assms(5)])
    have io: "mg_Rollback (texts_fine io) = mg_Rollback io" "mg_Commit (texts_fine io) = mg_Commit io" by simp_all
    have "migrate_transaction (texts_fine io) opts ?sel r db = migrate_transaction io opts ?sel r db"
      unfolding migrate_transaction_def applyPlan_texts io same by (rule refl)
    with tx have "migrate_transaction (texts_fine io) opts ?sel r db = ((report, err), db')" by simp
    moreover have fine: "statements_fine (texts_fine io)" using assms(5) by (simp add: calls_fine_def statements_fine_def)
    ultimately have "err = None \<longleftrightarrow> migratable manifest (op_Authority opts) db"
      using transaction_decides [OF ok db_inv_keys_ok [OF assms(2,3)] r] by blast
    moreover have "\<forall>(k, c) \<in> set (t_conversations db). mg_Participants io k \<noteq> Some ParticipantsJSON"
      using False by (auto simp: invalid_participants_def)
    ultimately show ?thesis
      by (auto simp: migratable_def no_collision_def renaming_plan [OF ok] select_def)
  qed
qed

section \<open>An example\<close>

definition ex_ns_db :: sqldb where
  "ex_ns_db = empty_db\<lparr>
     t_agents := [(''writer'', \<lparr>ar_agent = ex_agent ''writer'', ar_secret = ''s''\<rparr>)],
     t_conversations := [(''c-000001'', ex_conversation\<lparr>c_Participants := [''writer'', ''router'']\<rparr>)],
     t_messages := [(''m-000001'', ex_message\<lparr>m_From := ''writer'', m_To := ''router''\<rparr>)],
     t_delivery_cursors := [(''router'', \<lparr>dc_next_seq = 1, dc_acknowledged_cursor = 0\<rparr>)],
     t_deliveries := [new_delivery ''router'' 0 ''m-000001'' DeliveryPending ex_time (ex_time + 600 * Second)],
     t_idempotency := [\<lparr>id_from_agent = ''writer'', id_to_agent = ''router'', id_request_id = ''r1'',
       id_message_id = ''m-000001'', id_accepted_at = ex_time, id_expires_at = ex_time + Hour\<rparr>]\<rparr>"

definition ex_ns_io :: migrate_io where
  "ex_ns_io = \<lparr>mg_Lstat = Inr Regular, mg_Open = None, mg_Begin = None, mg_Query = (\<lambda>_. None), mg_Participants = (\<lambda>_. None),
     mg_Rollback = None, mg_Exec = (\<lambda>_ _. None), mg_Commit = None\<rparr>"

definition ex_ns_options :: options where
  "ex_ns_options = \<lparr>op_DBPath = ''copy.db'', op_Authority = AuthorityJK, op_Apply = True, op_AcknowledgeCopy = True,
     op_ControlPlaneAgents = [''router'']\<rparr>"

abbreviation ex_run :: "manifest \<Rightarrow> sqldb \<Rightarrow> (report \<times> refusal list option) \<times> sqldb" where
  "ex_run manifest db \<equiv> Run (\<lambda>s. s) (\<lambda>_. 0) ex_ns_io manifest ex_ns_options db"

lemma ex_ns_db_inv: "db_inv ex_ns_db" "keys_distinct (t_delivery_cursors ex_ns_db)"
  by (simp_all add: db_inv_def deliveries_ok_def cursors_ok_def rows_ok_def ex_ns_db_def empty_db_def cursor_of_def get_or_def
      new_delivery_def has_key_def ex_message_def ex_conversation_def ex_agent_def)

lemma ex_ns_io_fine: "file_fine ex_ns_io" "statements_fine ex_ns_io"
  by (simp_all add: file_fine_def statements_fine_def ex_ns_io_def)

lemma surjective_run: "r = ((fst (fst r), snd (fst r)), snd r)"
  by simp

lemma ex_admitted: "admitted (\<lambda>s. s) (\<lambda>_. 0) ex_ns_io ex_manifest ex_ns_options"
  by code_simp

lemma ex_run_applied:
  "rp_Status (fst (fst (ex_run ex_manifest ex_ns_db))) = ''applied''"
  "rp_AlreadyAppliedMappings (fst (fst (ex_run ex_manifest ex_ns_db))) = 0"
  "snd (fst (ex_run ex_manifest ex_ns_db)) = None"
proof -
  have m: "migratable ex_manifest (op_Authority ex_ns_options) ex_ns_db" by code_simp
  have act: "\<exists>item \<in> set (plan_of ex_manifest (op_Authority ex_ns_options) ex_ns_db). mp_active item" by code_simp
  have ap: "op_Apply ex_ns_options" by code_simp
  note F = fine_run [OF ParseManifest_ok [OF ex_manifest_parsed] db_inv_keys_ok [OF ex_ns_db_inv] ex_admitted ex_ns_io_fine(2) ap m
      surjective_run]
  show applied: "rp_Status (fst (fst (ex_run ex_manifest ex_ns_db))) = ''applied''" using F(2) [OF act] by blast
  show "snd (fst (ex_run ex_manifest ex_ns_db)) = None" by (rule F(1))
  have "filter mp_alreadyApplied (plan_of ex_manifest (op_Authority ex_ns_options) ex_ns_db) = []" by code_simp
  then show "rp_AlreadyAppliedMappings (fst (fst (ex_run ex_manifest ex_ns_db))) = 0"
    using applied_run(7) [OF ex_manifest_parsed ex_ns_db_inv surjective_run applied] by simp
qed

theorem migration_renames_witness:
  "snd (ex_run ex_manifest ex_ns_db) = rename_db (manifest_renaming ex_manifest AuthorityJK ex_ns_db) ex_ns_db \<and>
   db_inv (snd (ex_run ex_manifest ex_ns_db)) \<and>
   manifest_renaming ex_manifest AuthorityJK ex_ns_db ''writer'' = ''personal.writer''"
proof -
  note M = migration_renames [OF ex_manifest_parsed ex_ns_db_inv surjective_run ex_run_applied(1)]
  have "op_Authority ex_ns_options = AuthorityJK" by (simp add: ex_ns_options_def)
  moreover have "manifest_renaming ex_manifest AuthorityJK ex_ns_db ''writer'' = ''personal.writer''" by code_simp
  ultimately show ?thesis using M by metis
qed

theorem migration_rerun_witness:
  "rp_Status (fst (fst (ex_run ex_manifest (snd (ex_run ex_manifest ex_ns_db))))) = ''no-op'' \<and>
   snd (ex_run ex_manifest (snd (ex_run ex_manifest ex_ns_db))) = snd (ex_run ex_manifest ex_ns_db)"
proof -
  have "\<forall>r \<in> set ex_manifest. \<forall>r' \<in> set ex_manifest. mr_SourceAuthority r = mr_SourceAuthority r' \<and> mr_SourceID r = mr_TargetID r' \<longrightarrow>
      mr_SourceID r = mr_TargetID r \<or> mr_SourceID r' = mr_TargetID r'" by code_simp
  from migration_rerun [OF ex_manifest_parsed ex_ns_db_inv surjective_run ex_run_applied(1) this ex_ns_io_fine surjective_run]
  show ?thesis by blast
qed

theorem migration_undone_witness:
  "snd (ex_run (map swap_ids ex_manifest) (snd (ex_run ex_manifest ex_ns_db))) = ex_ns_db"
proof -
  have unmixed: "\<forall>(k, c) \<in> set (t_conversations ex_ns_db). \<not> mixed_scopes (c_Participants c)" by code_simp
  have free: "\<forall>row \<in> set ex_manifest. no_CRLF (mr_OwnerRepo row) \<and> no_CRLF (mr_Evidence row)" by code_simp
  have inv: "InvertManifest (\<lambda>s. s) (\<lambda>_. 0) ex_manifest = Inr (map swap_ids ex_manifest)" by code_simp
  show ?thesis
    using migration_undone [OF ex_manifest_parsed ex_ns_db_inv surjective_run ex_run_applied(1,2) unmixed free inv
          ex_ns_io_fine surjective_run] by blast
qed

definition ex_null_io :: migrate_io where
  "ex_null_io = ex_ns_io\<lparr>mg_Participants := \<lambda>cid. if cid = ''c-000001'' then Some ParticipantsJSON else None\<rparr>"

text \<open>The witness: a run that succeeds, one that meets an unknown identity, and one with an invalid column.\<close>

theorem migration_decides_witness:
  "snd (fst (ex_run ex_manifest ex_ns_db)) = None \<and>
   snd (fst (ex_run ex_manifest (ex_ns_db\<lparr>t_delivery_cursors := [(''stranger'', \<lparr>dc_next_seq = 1, dc_acknowledged_cursor = 0\<rparr>)],
     t_deliveries := []\<rparr>))) \<noteq> None \<and>
   snd (fst (Run (\<lambda>s. s) (\<lambda>_. 0) ex_null_io ex_manifest ex_ns_options ex_ns_db)) =
     Some (refuse ''invalid_participants_json'' participants_surface ''conversation participants must be a JSON array of strings'')"
proof -
  let ?db = "ex_ns_db\<lparr>t_delivery_cursors := [(''stranger'', \<lparr>dc_next_seq = 1, dc_acknowledged_cursor = 0\<rparr>)], t_deliveries := []\<rparr>"
  have inv: "db_inv ?db" "keys_distinct (t_delivery_cursors ?db)"
    by (simp_all add: db_inv_def deliveries_ok_def cursors_ok_def rows_ok_def ex_ns_db_def empty_db_def cursor_of_def get_or_def
        has_key_def ex_message_def ex_conversation_def ex_agent_def)
  have fine: "calls_fine ex_ns_io" "calls_fine ex_null_io" by (simp_all add: calls_fine_def ex_ns_io_def ex_null_io_def)
  have "''stranger'' \<in> set (identities ?db)" by code_simp
  moreover have "\<not> (\<exists>row \<in> set ex_manifest. mr_SourceAuthority row = op_Authority ex_ns_options \<and>
      (''stranger'' = mr_SourceID row \<or> ''stranger'' = mr_TargetID row))" by code_simp
  ultimately have unknown: "snd (fst (ex_run ex_manifest ?db)) \<noteq> None"
    using migration_decides [OF ex_manifest_parsed inv ex_admitted fine(1) surjective_run] by blast
  have adm: "admitted (\<lambda>s. s) (\<lambda>_. 0) ex_null_io ex_manifest ex_ns_options"
    by (rule admitted_file_fine [OF ex_admitted]) (simp add: file_fine_def ex_null_io_def ex_ns_io_def)
  have "(''c-000001'', ex_conversation\<lparr>c_Participants := [''writer'', ''router'']\<rparr>) \<in> set (t_conversations ex_ns_db)"
    "mg_Participants ex_null_io ''c-000001'' = Some ParticipantsJSON"
    by (simp_all add: ex_ns_db_def ex_null_io_def)
  then have "snd (fst (Run (\<lambda>s. s) (\<lambda>_. 0) ex_null_io ex_manifest ex_ns_options ex_ns_db)) =
     Some (refuse ''invalid_participants_json'' participants_surface ''conversation participants must be a JSON array of strings'')"
    using conjunct2 [OF migration_decides [OF ex_manifest_parsed ex_ns_db_inv adm fine(2) surjective_run]] by blast
  with unknown show ?thesis using ex_run_applied(3) by blast
qed

text \<open>
  The condition of \<open>migration_rerun\<close> is needed. The parser accepts a manifest with both directions of a
  renaming, and on the database that it migrated its second row is active: the next run renames back.
\<close>

definition ex_two_way :: manifest where
  "ex_two_way =
     [ex_row AuthorityJK ''writer'' ''personal.writer'' DispositionMigrate False 2,
      ex_row AuthorityJK ''personal.writer'' ''writer'' DispositionMigrate False 3,
      ex_row AuthorityJK ''router'' ''router'' DispositionUnchanged True 4]"

lemma two_way_manifest_toggles:
  "ParseManifest (\<lambda>s. s) (\<lambda>_. 0) (WriteManifest ex_two_way) = Inr ex_two_way"
  "active_sources (plan_of ex_two_way AuthorityJK ex_ns_db) = [''writer'']"
  "active_sources (plan_of ex_two_way AuthorityJK (rename_db (manifest_renaming ex_two_way AuthorityJK ex_ns_db) ex_ns_db)) =
     [''personal.writer'']"
  by code_simp+

end
