(* ===== verification/Go_Encode.thy ===== *)
theory Go_Encode
  imports Go_Net
begin

text \<open>
  The encoders of Go's standard library a client of the bus applies before it sends: \<^verbatim>\<open>hex.EncodeToString\<close>
  on a signature, \<^verbatim>\<open>url.QueryEscape\<close> and \<^verbatim>\<open>url.Values.Encode\<close> on a query, \<^verbatim>\<open>strings.TrimRight\<close> on the base
  address. The lemmas say that the parsers of \<open>Go_Net\<close>, which the server applies, read back what they wrote.
\<close>

section \<open>Hexadecimal\<close>

definition EncodeToString :: "string \<Rightarrow> string" where
  "EncodeToString bs =
     concat (map (\<lambda>c. let n = (of_char c :: int) in [hex_digit (n div 16), hex_digit (n mod 16)]) bs)"

lemma nibbles:
  obtains "(of_char c :: int) div 16 \<in> {0..15}" and "(of_char c :: int) mod 16 \<in> {0..15}"
proof -
  have "(of_char c :: int) < 256" "0 \<le> (of_char c :: int)" by (simp_all add: of_char_def)
  then have "0 \<le> (of_char c :: int) div 16" "(of_char c :: int) div 16 \<le> 15"
    "0 \<le> (of_char c :: int) mod 16" "(of_char c :: int) mod 16 \<le> 15" by presburger+
  then show ?thesis using that by simp
qed

lemma char_of_nibbles: "char_of (nat (16 * ((of_char c :: int) div 16) + (of_char c :: int) mod 16)) = c"
proof -
  have "16 * ((of_char c :: int) div 16) + (of_char c :: int) mod 16 = of_char c"
    by (simp add: mult_div_mod_eq)
  moreover have "nat (of_char c :: int) = (of_char c :: nat)"
    by (metis nat_int of_nat_of_char)
  ultimately show ?thesis by simp
qed

lemma hex_value_hex_digit: "d \<in> {0..15} \<Longrightarrow> hex_value (hex_digit d) = Some d"
proof -
  assume "d \<in> {0..15}"
  then have "d \<in> set [0..15]" by simp
  moreover have "\<forall>d \<in> set [0..15]. hex_value (hex_digit d) = Some d"
    by (simp add: upto.simps hex_digit_def hex_value_def)
  ultimately show ?thesis by blast
qed

text \<open>The characters of an encoding: lower-case digits, which no white space starts or ends with.\<close>

definition hex_chars :: "string" where
  "hex_chars = ''0123456789abcdef''"

lemma hex_digit_in: "d \<in> {0..15} \<Longrightarrow> hex_digit d \<in> set hex_chars"
  unfolding hex_digit_def hex_chars_def by (rule nth_mem) auto

lemma set_EncodeToString: "set (EncodeToString bs) \<subseteq> set hex_chars"
proof (induction bs)
  case Nil
  then show ?case by (simp add: EncodeToString_def)
next
  case (Cons c bs)
  then show ?case
    by (cases rule: nibbles [of c]) (simp add: EncodeToString_def Let_def hex_digit_in del: atLeastAtMost_iff)
qed

lemma DecodeString_EncodeToString: "DecodeString (EncodeToString bs) = Some bs"
proof (induction bs)
  case Nil
  then show ?case by (simp add: EncodeToString_def)
next
  case (Cons c bs)
  then show ?case
    by (cases rule: nibbles [of c])
      (simp add: EncodeToString_def Let_def hex_byte_def hex_value_hex_digit char_of_nibbles
        del: atLeastAtMost_iff)
qed

lemma EncodeToString_Nil_iff: "EncodeToString bs = [] \<longleftrightarrow> bs = []"
  by (cases bs) (simp_all add: EncodeToString_def Let_def)

section \<open>Text no white space begins or ends\<close>

text \<open>No encoding of a white-space rune begins or ends with a printable ASCII character.\<close>

definition printable :: "char \<Rightarrow> bool" where
  "printable c = byte_in 33 126 c"

lemma space_runes_ends: "\<forall>e \<in> set space_runes. \<not> printable (hd e) \<and> \<not> printable (last e)"
  by (simp add: space_runes_def printable_def byte_in_def)

lemma not_space_start:
  assumes "printable c" shows "starts_with_any space_runes (c # cs) = None"
  using assms space_runes_ends space_runes_nonempty(1)
  by (fastforce simp: starts_with_any_None is_prefix_iff append_eq_Cons_conv Cons_eq_append_conv)

lemma not_space_stop:
  assumes "printable c" shows "starts_with_any (map rev space_runes) (c # cs) = None"
proof -
  have "\<not> is_prefix (rev e) (c # cs)" if "e \<in> set space_runes" for e
    using that assms space_runes_ends space_runes_nonempty(1)
    by (cases e rule: rev_cases) (auto simp: is_prefix_iff)
  then show ?thesis by (simp add: starts_with_any_None)
qed

lemma TrimSpace_printable:
  assumes "list_all printable s" shows "TrimSpace s = s"
proof (cases "s = []")
  case False
  then have "strip space_runes s = s"
    using assms by (cases s) (auto intro!: strip_id not_space_start)
  moreover have "strip (map rev space_runes) (rev s) = rev s"
    using assms False by (cases s rule: rev_cases) (auto intro!: strip_id not_space_stop)
  ultimately show ?thesis by (simp add: TrimSpace_def)
qed simp

lemma hex_chars_printable: "\<forall>c \<in> set hex_chars. printable c \<and> ascii_lower c = c"
  by (simp add: hex_chars_def printable_def byte_in_def ascii_lower_def)

lemma EncodeToString_plain:
  "TrimSpace (EncodeToString bs) = EncodeToString bs" "ToLower (EncodeToString bs) = EncodeToString bs"
proof -
  have "\<forall>c \<in> set (EncodeToString bs). printable c \<and> ascii_lower c = c"
    using set_EncodeToString hex_chars_printable by blast
  then show "TrimSpace (EncodeToString bs) = EncodeToString bs" "ToLower (EncodeToString bs) = EncodeToString bs"
    by (auto intro!: TrimSpace_printable map_idI simp: list_all_iff ToLower_def)
qed

section \<open>Query strings\<close>

definition unreserved :: "char \<Rightarrow> bool" where
  "unreserved c =
     (byte_in 48 57 c \<or> byte_in 65 90 c \<or> byte_in 97 122 c \<or> c \<in> {CHR ''-'', CHR ''_'', CHR ''.'', CHR ''~''})"

definition upper_hex :: "int \<Rightarrow> char" where
  "upper_hex d = ''0123456789ABCDEF'' ! nat d"

definition escape_char :: "char \<Rightarrow> string" where
  "escape_char c =
     (if unreserved c then [c]
      else if c = CHR '' '' then ''+''
      else (let n = (of_char c :: int) in [CHR ''%'', upper_hex (n div 16), upper_hex (n mod 16)]))"

definition QueryEscape :: "string \<Rightarrow> string" where
  "QueryEscape s = concat (map escape_char s)"

text \<open>\<^verbatim>\<open>url.Values\<close> with one value per key; \<open>Encode\<close> writes the pairs in the order of their keys.\<close>

definition encode_pair :: "string \<times> string \<Rightarrow> string" where
  "encode_pair kv = QueryEscape (fst kv) @ ''='' @ QueryEscape (snd kv)"

fun join_amp :: "string list \<Rightarrow> string" where
  "join_amp [] = []"
| "join_amp [p] = p"
| "join_amp (p # q # ps) = p @ CHR ''&'' # join_amp (q # ps)"

definition Values_Encode :: "string gomap \<Rightarrow> string" where
  "Values_Encode v = join_amp (map encode_pair (sort_key fst v))"

text \<open>What escaping keeps out of a name or a value: the characters that give a query its structure.\<close>

definition escaped_char :: "char \<Rightarrow> bool" where
  "escaped_char c = (unreserved c \<or> c = CHR ''+'' \<or> c = CHR ''%'')"

lemma upper_hex_props:
  "d \<in> {0..15} \<Longrightarrow> hex_value (upper_hex d) = Some d \<and> unreserved (upper_hex d)"
proof -
  assume "d \<in> {0..15}"
  then have "d \<in> set [0..15]" by simp
  moreover have "\<forall>d \<in> set [0..15]. hex_value (upper_hex d) = Some d \<and> unreserved (upper_hex d)"
    by (simp add: upto.simps upper_hex_def hex_value_def unreserved_def byte_in_def)
  ultimately show ?thesis by blast
qed

lemma unreserved_plain: "unreserved c \<Longrightarrow> c \<noteq> CHR ''%'' \<and> c \<noteq> CHR ''+''"
  by (auto simp: unreserved_def byte_in_def)

lemma QueryUnescape_escape_char:
  "QueryUnescape (escape_char c @ s) = map_option ((#) c) (QueryUnescape s)"
proof -
  consider "unreserved c" | "\<not> unreserved c" "c = CHR '' ''" | "\<not> unreserved c" "c \<noteq> CHR '' ''" by blast
  then show ?thesis
  proof cases
    case 3
    have "hex_byte (upper_hex ((of_char c :: int) div 16)) (upper_hex ((of_char c :: int) mod 16)) = Some c"
      by (cases rule: nibbles [of c])
        (simp add: hex_byte_def upper_hex_props char_of_nibbles del: atLeastAtMost_iff)
    with 3 show ?thesis by (simp add: escape_char_def Let_def)
  qed (auto simp: escape_char_def dest: unreserved_plain)
qed

lemma QueryUnescape_QueryEscape: "QueryUnescape (QueryEscape s) = Some s"
  by (induction s) (simp_all add: QueryEscape_def QueryUnescape_escape_char)

lemma escape_char_escaped: "list_all escaped_char (escape_char c)"
  by (cases rule: nibbles [of c])
    (auto simp: escape_char_def Let_def escaped_char_def upper_hex_props simp del: atLeastAtMost_iff)

lemma QueryEscape_escaped: "list_all escaped_char (QueryEscape s)"
  using escape_char_escaped by (induction s) (auto simp: QueryEscape_def)

lemma escaped_char_plain: "escaped_char c \<Longrightarrow> c \<notin> {CHR ''&'', CHR ''='', CHR '';'', CHR ''?'', CHR ''#''}"
  by (auto simp: escaped_char_def unreserved_def byte_in_def)

lemma QueryEscape_plain:
  "c \<in> {CHR ''&'', CHR ''='', CHR '';'', CHR ''?'', CHR ''#''} \<Longrightarrow> c \<notin> set (QueryEscape s)"
  using QueryEscape_escaped escaped_char_plain by (fastforce simp: list_all_iff)

lemma query_pair_encode: "query_pair (encode_pair kv) = [kv]"
proof -
  have "CHR ''='' \<notin> set (QueryEscape (fst kv))" "CHR '';'' \<notin> set (encode_pair kv)"
    by (simp_all add: encode_pair_def QueryEscape_plain)
  moreover have "Cut (encode_pair kv) (CHR ''='') = (QueryEscape (fst kv), QueryEscape (snd kv), True)"
    using calculation(1) by (simp add: encode_pair_def Cut_append)
  moreover have "encode_pair kv \<noteq> []" by (simp add: encode_pair_def)
  ultimately show ?thesis by (simp add: query_pair_def Contains_def QueryUnescape_QueryEscape)
qed

lemma Split_join_amp: "ps \<noteq> [] \<Longrightarrow> \<forall>p \<in> set ps. CHR ''&'' \<notin> set p \<Longrightarrow> Split (join_amp ps) (CHR ''&'') = ps"
  by (induction ps rule: join_amp.induct) (simp_all add: Split_no_sep Split_append)

text \<open>Reading an encoded query gives the values back, in the order of the keys.\<close>

theorem ParseQuery_Encode: "ParseQuery (Values_Encode v) = sort_key fst v"
proof (cases "v = []")
  case True
  then show ?thesis by (simp add: ParseQuery_def Values_Encode_def query_pair_def Contains_def)
next
  case False
  let ?ps = "map encode_pair (sort_key fst v)"
  have "\<forall>p \<in> set ?ps. CHR ''&'' \<notin> set p" by (auto simp: encode_pair_def QueryEscape_plain)
  moreover have "?ps \<noteq> []" using False by (metis length_0_conv length_map length_sort)
  ultimately have "Split (Values_Encode v) (CHR ''&'') = ?ps"
    by (simp add: Values_Encode_def Split_join_amp)
  then show ?thesis by (simp add: ParseQuery_def query_pair_encode comp_def)
qed

theorem query_get_Encode:
  assumes "keys_distinct v"
  shows "query_get (Values_Encode v) k = get_or [] v k"
proof -
  have "map_of (sort_key fst v) = map_of v"
    using assms by (intro map_of_inject_set [THEN iffD2]) (simp_all add: distinct_map)
  then show ?thesis by (simp add: query_get_def ParseQuery_Encode get_or_def)
qed

lemma query_structure_free: "c \<in> {CHR ''?'', CHR ''#'', CHR '';''} \<Longrightarrow> c \<notin> set (Values_Encode v)"
proof -
  assume c: "c \<in> {CHR ''?'', CHR ''#'', CHR '';''}"
  have "c \<notin> set (join_amp ps)" if "\<forall>p \<in> set ps. c \<notin> set p" for ps
    using that c by (induction ps rule: join_amp.induct) auto
  then show ?thesis using c by (auto simp: Values_Encode_def encode_pair_def QueryEscape_plain)
qed

section \<open>Trailing characters\<close>

definition TrimRight :: "string \<Rightarrow> string \<Rightarrow> string" where
  "TrimRight s cutset = rev (dropWhile (\<lambda>c. c \<in> set cutset) (rev s))"

end
