(* ===== verification/Go_Lines.thy ===== *)
theory Go_Lines
  imports Ns_Csv Go_Encode
begin

text \<open>
  \<^verbatim>\<open>encoding/json\<close>'s stream encoder: each value is one line. The encoding of valid UTF-8 strings, and of
  lists of them, can be taken back: different streams of values are different texts. \<open>prefix_free\<close> is the
  property that makes encodings compose by concatenation.
\<close>

section \<open>Encodings\<close>

definition prefix_free :: "('a \<Rightarrow> bool) \<Rightarrow> ('a \<Rightarrow> string) \<Rightarrow> bool" where
  "prefix_free P enc \<longleftrightarrow>
     (\<forall>x y r r'. P x \<longrightarrow> P y \<longrightarrow> enc x @ r = enc y @ r' \<longrightarrow> x = y \<and> r = r')"

lemma prefix_freeI:
  "(\<And>x y r r'. P x \<Longrightarrow> P y \<Longrightarrow> enc x @ r = enc y @ r' \<Longrightarrow> x = y \<and> r = r') \<Longrightarrow> prefix_free P enc"
  unfolding prefix_free_def by blast

lemma prefix_freeD:
  "prefix_free P enc \<Longrightarrow> enc x @ r = enc y @ r' \<Longrightarrow> P x \<Longrightarrow> P y \<Longrightarrow> x = y \<and> r = r'"
  unfolding prefix_free_def by blast

lemma prefix_free_snoc: "prefix_free P enc \<Longrightarrow> prefix_free P (\<lambda>x. enc x @ e)"
  unfolding prefix_free_def append_assoc by (metis same_append_eq)

lemma prefix_free_concat:
  assumes "prefix_free P enc" and "\<forall>x. P x \<longrightarrow> enc x \<noteq> []"
  shows "\<forall>x \<in> set xs. P x \<Longrightarrow> \<forall>y \<in> set ys. P y \<Longrightarrow> concat (map enc xs) = concat (map enc ys) \<Longrightarrow> xs = ys"
proof (induction xs arbitrary: ys)
  case Nil
  show ?case
  proof (cases ys)
    case (Cons y ys')
    then have "P y" "enc y = []" using Nil by auto
    then show ?thesis using assms(2) by blast
  qed simp
next
  case (Cons x xs)
  have "enc x \<noteq> []" using assms(2) Cons.prems(1) by simp
  then obtain y ys' where ys: "ys = y # ys'" using Cons.prems(3) by (cases ys) auto
  have "enc x @ concat (map enc xs) = enc y @ concat (map enc ys')" using Cons.prems(3) by (simp add: ys)
  moreover have "P x" "P y" using Cons.prems(1,2) ys by simp_all
  ultimately have "x = y" "concat (map enc xs) = concat (map enc ys')"
    using prefix_freeD [OF assms(1), of x _ y] by blast+
  then show ?case using Cons.IH [of ys'] Cons.prems(1,2) ys by simp
qed

section \<open>Strings\<close>

abbreviation json_escape :: "string \<Rightarrow> string" where
  "json_escape s \<equiv> json_escape_fuel (length s) s"

definition json_token :: "string \<Rightarrow> string" where
  "json_token s =
     (if rune_len s = 1 then json_ascii (hd s)
      else if take 3 s = [CHR 0xE2, CHR 0x80, CHR 0xA8] then CHR 0x5C # ''u2028''
      else if take 3 s = [CHR 0xE2, CHR 0x80, CHR 0xA9] then CHR 0x5C # ''u2029''
      else take (rune_len s) s)"

lemma ValidString_rune:
  assumes "ValidString s" and "s \<noteq> []"
  shows "0 < rune_len s" "ValidString (drop (rune_len s) s)"
proof -
  obtain n where n: "length s = Suc n" using assms(2) by (cases s) auto
  then have v: "0 < rune_len s \<and> valid_fuel n (drop (rune_len s) s)" using assms by (simp add: ValidString_def)
  then show "0 < rune_len s" by simp
  moreover have "length (drop (rune_len s) s) \<le> n" using n v by auto
  ultimately show "ValidString (drop (rune_len s) s)"
    using v valid_fuel_enough [of "drop (rune_len s) s" n] by (simp add: ValidString_def)
qed

lemma json_escape_token:
  assumes "ValidString s" and "s \<noteq> []"
  shows "json_escape s = json_token s @ json_escape (drop (rune_len s) s)"
proof -
  obtain c cs where s: "s = c # cs" using assms(2) by (cases s) auto
  have k: "0 < rune_len s" by (rule ValidString_rune [OF assms])
  let ?d = "drop (rune_len s) s"
  have "length ?d \<le> length cs" using k s by simp
  then obtain j where "length cs = length ?d + j" using le_iff_add by blast
  then have "json_escape_fuel (length cs) ?d = json_escape ?d" by (simp add: json_escape_fuel_enough)
  then show ?thesis using k by (auto simp: s json_token_def Let_def)
qed


section \<open>Taking a token back\<close>

definition lead_length :: "char \<Rightarrow> nat" where
  "lead_length c =
     (if byte_in 0 0x7F c then 1 else if byte_in 0xC2 0xDF c then 2 else if byte_in 0xE0 0xEF c then 3 else 4)"

lemma rune_len_lead: "0 < rune_len (c # cs) \<Longrightarrow> rune_len (c # cs) = lead_length c"
  by (auto simp: rune_len.simps lead_length_def split: if_splits list.splits)

lemma rune_len_take: "0 < rune_len s \<Longrightarrow> length (take (rune_len s) s) = rune_len s"
  using rune_len_le [of s] by simp

definition token_length :: "string \<Rightarrow> nat" where
  "token_length z =
     (if z ! 0 = CHR 0x5C then (if z ! 1 = CHR ''u'' then 6 else 2) else lead_length (z ! 0))"

definition json_untoken :: "string \<Rightarrow> string" where
  "json_untoken z =
     (if z ! 0 \<noteq> CHR 0x5C then z
      else if length z = 2 then
        (case z ! 1 of CHR ''b'' \<Rightarrow> [CHR 8] | CHR ''f'' \<Rightarrow> [CHR 12] | CHR ''n'' \<Rightarrow> [CHR 10] | CHR ''r'' \<Rightarrow> [CHR 13]
         | CHR ''t'' \<Rightarrow> [CHR 9] | c \<Rightarrow> [c])
      else if z ! 2 = CHR ''2'' then [CHR 0xE2, CHR 0x80, if z ! 5 = CHR ''8'' then CHR 0xA8 else CHR 0xA9]
      else (case hex_value (z ! 4) of None \<Rightarrow> [] | Some h \<Rightarrow>
        (case hex_value (z ! 5) of None \<Rightarrow> [] | Some l \<Rightarrow> [char_of (16 * h + l)])))"

text \<open>What a token promises: where it ends can be read off its first two bytes, and what it encodes off itself.\<close>

definition token_of :: "string \<Rightarrow> string \<Rightarrow> bool" where
  "token_of z raw \<longleftrightarrow>
     z \<noteq> [] \<and> z ! 0 \<noteq> CHR 0x22 \<and> (z ! 0 = CHR 0x5C \<longrightarrow> 2 \<le> length z) \<and> token_length z = length z \<and> json_untoken z = raw"

lemma ascii_tokens: "\<forall>c \<in> set (map char_of [0..<128]). token_of (json_ascii c) [c]"
  by code_simp

lemma token_of_ascii:
  assumes "byte_in 0 0x7F c"
  shows "token_of (json_ascii c) [c]"
proof -
  have "(of_char c :: int) < 128" using assms by (simp add: byte_in_def)
  then have "(of_char c :: nat) < 128" by (metis of_nat_less_iff of_nat_numeral of_nat_of_char)
  then have "c \<in> set (map char_of [0..<128])" by (auto intro!: image_eqI [of _ _ "of_char c"])
  then show ?thesis using ascii_tokens by blast
qed

lemma token_of_separators:
  "token_of (CHR 0x5C # ''u2028'') [CHR 0xE2, CHR 0x80, CHR 0xA8]"
  "token_of (CHR 0x5C # ''u2029'') [CHR 0xE2, CHR 0x80, CHR 0xA9]"
  by code_simp+

lemma token_of_json_token:
  assumes "0 < rune_len s"
  shows "token_of (json_token s) (take (rune_len s) s)"
proof -
  obtain c cs where s: "s = c # cs" using assms by (cases s) (auto simp: rune_len.simps)
  have lead: "rune_len s = lead_length c" using assms rune_len_lead s by blast
  have three: "rune_len s = 3" if "take 3 s = [CHR 0xE2, CHR 0x80, x]" for x
    using that lead by (simp add: s lead_length_def byte_in_def)
  show ?thesis
  proof (cases "rune_len s = 1")
    case True
    then have "lead_length c = 1" using lead by simp
    then have "byte_in 0 0x7F c" unfolding lead_length_def by (simp split: if_splits)
    then show ?thesis using token_of_ascii True by (simp add: json_token_def s)
  next
    case False
    then have big: "\<not> byte_in 0 0x7F c" using lead by (auto simp: lead_length_def)
    have "token_of (take (rune_len s) s) (take (rune_len s) s)"
    proof -
      have "take (rune_len s) s ! 0 = c" "take (rune_len s) s \<noteq> []" using assms by (simp_all add: s)
      moreover have "byte_in 0 0x7F CHR 0x22" "byte_in 0 0x7F CHR 0x5C" by code_simp+
      then have "c \<noteq> CHR 0x22" "c \<noteq> CHR 0x5C" using big by blast+
      ultimately show ?thesis
        using rune_len_take [OF assms] lead by (simp add: token_of_def token_length_def json_untoken_def)
    qed
    then show ?thesis using False three token_of_separators by (auto simp: json_token_def)
  qed
qed

lemma token_of_cancel:
  assumes "token_of z raw" and "token_of z' raw'" and "z @ r = z' @ r'"
  shows "raw = raw' \<and> r = r'"
proof -
  have same: "token_length (x @ y) = length x" if "token_of x a" for x y a
    using that by (cases x) (auto simp: token_of_def token_length_def nth_append Suc_le_eq)
  have "length z = length z'" using same [OF assms(1), of r] same [OF assms(2), of r'] assms(3) by simp
  then show ?thesis using assms by (auto simp: token_of_def)
qed

lemma json_string_prefix_free: "prefix_free ValidString json_string"
proof (rule prefix_freeI)
  fix s t r r'
  assume "ValidString s" "ValidString t" "json_string s @ r = json_string t @ r'"
  then have "json_escape s @ CHR 0x22 # r = json_escape t @ CHR 0x22 # r'" by (simp add: json_string_def)
  then show "s = t \<and> r = r'" using \<open>ValidString s\<close> \<open>ValidString t\<close>
  proof (induction "length s" arbitrary: s t rule: less_induct)
    case less
    have quote: False if "json_token u @ x = CHR 0x22 # y" "0 < rune_len u" for u x y
      using that token_of_json_token [of u] by (cases "json_token u") (auto simp: token_of_def)
    show ?case
    proof (cases "s = []")
      case True
      have "t = []"
      proof (rule ccontr)
        assume "t \<noteq> []"
        then have "json_token t @ json_escape (drop (rune_len t) t) @ CHR 0x22 # r' = CHR 0x22 # r"
          using less.prems(1,3) True by (simp add: json_escape_token)
        then show False using quote ValidString_rune(1) [OF less.prems(3) \<open>t \<noteq> []\<close>] by blast
      qed
      then show ?thesis using less.prems(1) True by simp
    next
      case s: False
      have v: "0 < rune_len s" "ValidString (drop (rune_len s) s)" using ValidString_rune less.prems(2) s by blast+
      have "t \<noteq> []" using less.prems quote [of s] v(1) s by (auto simp: json_escape_token)
      then have w: "0 < rune_len t" "ValidString (drop (rune_len t) t)" using ValidString_rune less.prems(3) by blast+
      have "json_token s @ json_escape (drop (rune_len s) s) @ CHR 0x22 # r =
          json_token t @ json_escape (drop (rune_len t) t) @ CHR 0x22 # r'"
        using less.prems s \<open>t \<noteq> []\<close> by (simp add: json_escape_token)
      from token_of_cancel [OF token_of_json_token [OF v(1)] token_of_json_token [OF w(1)] this]
      have eq: "take (rune_len s) s = take (rune_len t) t"
        "json_escape (drop (rune_len s) s) @ CHR 0x22 # r = json_escape (drop (rune_len t) t) @ CHR 0x22 # r'" by simp_all
      have "length (drop (rune_len s) s) < length s" using s v(1) by simp
      from less.hyps [OF this eq(2) v(2) w(2)] show ?thesis using eq(1)
        by (metis append_take_drop_id)
    qed
  qed
qed


section \<open>Lines\<close>

text \<open>\<^verbatim>\<open>Encoder.Encode\<close>: what it writes, unless the value cannot be encoded.\<close>

definition Encode :: "json \<Rightarrow> string option" where
  "Encode v = map_option (\<lambda>s. s @ [NL]) (Marshal v)"

definition string_line :: "string \<Rightarrow> string" where
  "string_line s = json_string s @ [NL]"

definition strings_line :: "string list \<Rightarrow> string" where
  "strings_line xs = CHR ''['' # join_comma (map json_string xs) @ '']'' @ [NL]"

lemma marshal_list_strings: "marshal_list (map JStr xs) = Some (map json_string xs)"
  by (induction xs) simp_all

lemma Encode_lines: "Encode (JStr s) = Some (string_line s)" "Encode (JArr (map JStr xs)) = Some (strings_line xs)"
  by (simp_all add: Encode_def string_line_def strings_line_def marshal_list_strings)

lemma string_line_prefix_free: "prefix_free ValidString string_line"
  unfolding string_line_def by (rule prefix_free_snoc [OF json_string_prefix_free])

lemma json_string_Cons: "json_string s = CHR 0x22 # json_escape s @ [CHR 0x22]"
  by (simp add: json_string_def)

lemma array_tail_cancel:
  assumes "\<forall>x \<in> set xs. ValidString x" and "\<forall>y \<in> set ys. ValidString y"
    and "concat (map (\<lambda>x. '','' @ json_string x) xs) @ CHR '']'' # r =
         concat (map (\<lambda>y. '','' @ json_string y) ys) @ CHR '']'' # r'"
  shows "xs = ys \<and> r = r'"
  using assms
proof (induction xs arbitrary: ys)
  case Nil
  then show ?case by (cases ys) auto
next
  case (Cons x xs)
  then obtain y ys' where ys: "ys = y # ys'" by (cases ys) auto
  have "json_string x @ concat (map (\<lambda>x. '','' @ json_string x) xs) @ CHR '']'' # r =
      json_string y @ concat (map (\<lambda>y. '','' @ json_string y) ys') @ CHR '']'' # r'"
    using Cons.prems(3) by (simp add: ys)
  moreover have "ValidString x" "ValidString y" using Cons.prems(1,2) ys by simp_all
  ultimately have "x = y" and eq: "concat (map (\<lambda>x. '','' @ json_string x) xs) @ CHR '']'' # r =
      concat (map (\<lambda>y. '','' @ json_string y) ys') @ CHR '']'' # r'"
    using prefix_freeD [OF json_string_prefix_free, of x _ y] by blast+
  moreover have "xs = ys' \<and> r = r'" by (rule Cons.IH [OF _ _ eq]) (use Cons.prems(1,2) ys in simp_all)
  ultimately show ?case using ys by simp
qed

lemma strings_line_prefix_free: "prefix_free (\<lambda>xs. \<forall>x \<in> set xs. ValidString x) strings_line"
proof (rule prefix_freeI)
  fix xs ys r r'
  assume v: "\<forall>x \<in> set xs. ValidString x" "\<forall>y \<in> set ys. ValidString y"
    and eq: "strings_line xs @ r = strings_line ys @ r'"
  show "xs = ys \<and> r = r'"
  proof (cases xs; cases ys)
    fix x xs' y ys'
    assume "xs = x # xs'" "ys = y # ys'"
    then have "concat (map (\<lambda>x. '','' @ json_string x) xs) @ CHR '']'' # NL # r =
        concat (map (\<lambda>y. '','' @ json_string y) ys) @ CHR '']'' # NL # r'"
      using eq by (simp add: strings_line_def join_comma_def comp_def)
    then show ?thesis using array_tail_cancel [OF v] by blast
  qed (use eq in \<open>auto simp: strings_line_def join_comma_def json_string_Cons\<close>)
qed

lemma lines_nonempty: "string_line s \<noteq> []" "strings_line xs \<noteq> []"
  by (simp_all add: string_line_def strings_line_def)

end
