(* ===== verification/Pinakes_Main.thy ===== *)
theory Pinakes_Main
  imports Go_Encode Sqlite_Import Http_Backends
begin

text \<open>
  The server program: \<^verbatim>\<open>internal/configutil/config.go\<close> and \<^verbatim>\<open>cmd/pinakes/main.go\<close>.

  \<open>pinakes_main\<close> is \<^verbatim>\<open>main\<close> up to the call of \<^verbatim>\<open>runHTTPServer\<close>: it reads the environment, chooses the backend,
  moves a legacy state file into a new database, opens the store and builds the server. Its result is the
  error the process dies with, or the server that starts to listen, and the files as they are left. Log
  lines are not modelled. \<open>Quote\<close> is \<^verbatim>\<open>fmt\<close>'s \<^verbatim>\<open>%q\<close>, which appears in error messages only.
\<close>

section \<open>Lists and digests in environment variables\<close>

definition SplitCSV :: "string \<Rightarrow> string list" where
  "SplitCSV raw = filter (\<lambda>v. v \<noteq> []) (map TrimSpace (Split raw (CHR '','')))"

fun parse_hash_entries ::
  "(string \<Rightarrow> string) \<Rightarrow> string list \<Rightarrow> string gomap \<Rightarrow> string + string gomap" where
  "parse_hash_entries Quote [] result = Inr result"
| "parse_hash_entries Quote (rawEntry # rest) result =
     (let entry = TrimSpace rawEntry in
      if entry = [] then Inl ''empty identity-to-hash entry''
      else (case Cut entry (CHR ''='') of
        (before, after, ok) \<Rightarrow>
          (let identity = TrimSpace before; encoded = TrimSpace after in
           if \<not> ok \<or> identity = [] \<or> encoded = [] then Inl ''malformed identity-to-hash entry''
           else if has_key result identity then Inl (''duplicate identity '' @ Quote identity)
           else if length encoded \<noteq> 64 then
             Inl (''identity '' @ Quote identity @ '' must have a 64-character SHA-256 digest'')
           else (case DecodeString encoded of
             None \<Rightarrow> Inl (''identity '' @ Quote identity @ '' has invalid SHA-256 encoding'')
           | Some decoded \<Rightarrow> parse_hash_entries Quote rest (AList.update identity decoded result)))))"

definition ParseSHA256Map :: "(string \<Rightarrow> string) \<Rightarrow> string \<Rightarrow> string + string gomap" where
  "ParseSHA256Map Quote raw =
     (if TrimSpace raw = [] then Inr []
      else parse_hash_entries Quote (Split raw (CHR '','')) [])"

section \<open>Settings\<close>

definition envSeconds :: "(string \<Rightarrow> string) \<Rightarrow> string \<Rightarrow> duration" where
  "envSeconds Getenv name =
     (let raw = TrimSpace (Getenv name) in
      if raw = [] then 0
      else (case Atoi raw of
              None \<Rightarrow> 0
            | Some v \<Rightarrow> if v < 0 then -1 else seconds_dur v))"

definition envInt :: "(string \<Rightarrow> string) \<Rightarrow> string \<Rightarrow> int" where
  "envInt Getenv name =
     (let raw = TrimSpace (Getenv name) in
      if raw = [] then 0
      else (case Atoi raw of
              None \<Rightarrow> 0
            | Some v \<Rightarrow> if v < 0 then -1 else v))"

definition parseNamespaceConfig ::
  "(string \<Rightarrow> string) \<Rightarrow> string \<Rightarrow> string \<Rightarrow> string + namespace_mode \<times> scope" where
  "parseNamespaceConfig Quote modeRaw legacyScopeRaw =
     (let mode = TrimSpace modeRaw;
          mode = (if mode = [] then ''compat'' else mode) in
      if mode \<noteq> ''compat'' \<and> mode \<noteq> ''strict'' then
        Inl (''BUS_NAMESPACE_MODE must be compat or strict, got '' @ Quote modeRaw)
      else
        (let legacyScope = TrimSpace legacyScopeRaw;
             legacyScope = (if legacyScope = [] then ''ucla'' else legacyScope) in
         if legacyScope \<noteq> ''personal'' \<and> legacyScope \<noteq> ''ucla'' then
           Inl (''BUS_LEGACY_SCOPE must be personal or ucla, got '' @ Quote legacyScopeRaw)
         else Inr (if mode = ''strict'' then NamespaceModeStrict else NamespaceModeCompat,
                   if legacyScope = ''personal'' then ScopePersonal else ScopeUCLA)))"

definition main_config ::
  "(string \<Rightarrow> string) \<Rightarrow> namespace_mode \<Rightarrow> scope \<Rightarrow> string gomap \<Rightarrow> config" where
  "main_config Getenv namespaceMode legacyScope hashes =
     \<lparr>cfg_GracePeriod = 30 * Second, cfg_ProgressMinInterval = 2 * Second, cfg_IdempotencyWindow = 24 * Hour,
      cfg_InboxWaitMax = 60 * Second, cfg_AckTimeout = 10 * Second, cfg_DefaultMessageTTL = 600 * Second,
      cfg_DefaultRegistrationTTL = 60 * Second, cfg_PushMaxAttempts = 3, cfg_PushBaseBackoff = 500 * Millisecond,
      cfg_PushQueueSize = 0, cfg_PushWorkers = 0, cfg_PushShutdownTimeout = 15 * Second,
      cfg_MaxInboxEventsPerAgent = 10000, cfg_MaxObserveEvents = 50000,
      cfg_MaxInboxBytesPerAgent = envInt Getenv ''MAX_INBOX_BYTES_PER_AGENT'',
      cfg_MaxObserveBytes = envInt Getenv ''MAX_OBSERVE_BYTES'',
      cfg_MessageRetention = envSeconds Getenv ''MESSAGE_RETENTION_SECONDS'',
      cfg_MessageMaxAge = envSeconds Getenv ''MESSAGE_MAX_AGE_SECONDS'',
      cfg_ConversationRetention = envSeconds Getenv ''CONVERSATION_RETENTION_SECONDS'',
      cfg_AgentRetention = envSeconds Getenv ''AGENT_RETENTION_SECONDS'',
      cfg_SweepMinInterval = 0, cfg_NamespaceMode = namespaceMode, cfg_LegacyScope = legacyScope,
      cfg_SharedGrantAgents = SplitCSV (Getenv ''SHARED_GRANT_AGENTS''),
      cfg_ControlPlaneAgents = SplitCSV (Getenv ''CONTROL_PLANE_AGENTS''),
      cfg_ControlPlaneAgentSecretHashes = hashes\<rparr>"

text \<open>Which backend runs, and the path of the database: the flag, the variable, the default.\<close>

datatype backend = SqliteBackend | MemoryBackend | PersistentBackend

definition chosen_dbPath :: "(string \<Rightarrow> string) \<Rightarrow> string \<Rightarrow> string" where
  "chosen_dbPath Getenv dbFlag = (if dbFlag = [] then Getenv ''DB_PATH'' else dbFlag)"

definition chosen_backend :: "(string \<Rightarrow> string) \<Rightarrow> string \<Rightarrow> backend" where
  "chosen_backend Getenv dbFlag =
     (let name = TrimSpace (Getenv ''STORE_BACKEND'');
          name = (if chosen_dbPath Getenv dbFlag \<noteq> [] \<or> name = [] then ''sqlite'' else name) in
      if name = ''sqlite'' then SqliteBackend
      else if name = ''memory'' then MemoryBackend
      else PersistentBackend)"

definition chosen_statePath :: "(string \<Rightarrow> string) \<Rightarrow> string" where
  "chosen_statePath Getenv =
     (if Getenv ''STATE_FILE'' = [] then ''./data/state.json'' else Getenv ''STATE_FILE'')"

section \<open>Starting\<close>

text \<open>
  What the start takes from its surroundings: the environment and the flag, the file of allowed agents, the
  errors of the migration, of opening the store and of watching the file, iteration orders, the clock and
  the epoch of the observer stream.
\<close>

record boot =
  bt_Getenv :: "string \<Rightarrow> string"
  bt_dbFlag :: string
  bt_readFile :: "string \<Rightarrow> string + string"
  bt_migration :: migration_io
  bt_start :: start_io
  bt_load :: load_io
  bt_persist :: persist_io
  bt_watch :: "string option"
  bt_orders :: orders
  bt_ranking :: ranking
  bt_now :: time
  bt_epoch :: string
  bt_moment :: moment
  bt_sqlite :: sqlite_moment

datatype running =
    RunningSqlite "sqlite_store server"
  | RunningMemory "store server"
  | RunningPersistent "pstore server"

datatype boot_error =
    InvalidNamespace string
  | InvalidControlPlane string
  | MigrationFailed string
  | StoreFailed persistent_error
  | ServerFailed bus_error
  | WatchFailed string

definition boot_server :: "boot \<Rightarrow> 's bus_api \<Rightarrow> 's \<Rightarrow> boot_error + 's server" where
  "boot_server b api store =
     (case NewServerFromEnv (bt_ranking b) api (bt_Getenv b ''AGENT_ALLOWLIST'') (bt_Getenv b ''ALLOWLIST_FILE'')
             (bt_readFile b) (bt_Getenv b ''MAX_BODY_BYTES'') (bt_Getenv b ''INJECT_TOKENS'')
             (bt_Getenv b ''OBSERVE_TOKENS'') store of
        Inl err \<Rightarrow> Inl (ServerFailed err)
      | Inr server \<Rightarrow>
          if TrimSpace (bt_Getenv b ''ALLOWLIST_FILE'') \<noteq> [] then
            (case bt_watch b of Some err \<Rightarrow> Inl (WatchFailed err) | None \<Rightarrow> Inr server)
          else Inr server)"

text \<open>The file is there, with what the failed start wrote, once opening it has worked.\<close>

definition keep_db :: "boot \<Rightarrow> sqldb \<Rightarrow> migration_files \<Rightarrow> migration_files" where
  "keep_db b db fs = (if st_open (bt_start b) = None then fs\<lparr>mf_db := Some db\<rparr> else fs)"

definition boot_sqlite :: "boot \<Rightarrow> config \<Rightarrow> migration_files \<Rightarrow> (boot_error + running) \<times> migration_files" where
  "boot_sqlite b cfg fs =
     (let statePath = chosen_statePath (bt_Getenv b);
          dbPath = chosen_dbPath (bt_Getenv b) (bt_dbFlag b);
          dbPath = (if dbPath = [] then ''./data/bus.db'' else dbPath) in
      case MigrateJSONStateToSQLite (bt_migration b) (bt_orders b) statePath dbPath cfg (bt_now b) fs of
        (Inl err, fs1) \<Rightarrow> (Inl (MigrationFailed err), fs1)
      | (Inr _, fs1) \<Rightarrow>
          (case NewSQLiteStore (bt_ranking b) (bt_Getenv b ''HUMAN_ALLOWLIST'') (bt_epoch b) (bt_start b) (bt_now b) cfg
                  (case mf_db fs1 of Some db \<Rightarrow> db | None \<Rightarrow> empty_db) of
             (Inl (InvalidConfig err), q) \<Rightarrow> (Inl (StoreFailed (InvalidConfig err)), fs1)
           | (Inl (LoadFailed err), q) \<Rightarrow> (Inl (StoreFailed (LoadFailed err)), keep_db b (sq_db q) fs1)
           | (Inr s, q) \<Rightarrow>
               (map_sum id RunningSqlite (boot_server b (sqlite_api (bt_sqlite b)) (s, q)), keep_db b (sq_db q) fs1)))"

definition boot_memory :: "boot \<Rightarrow> config \<Rightarrow> boot_error + running" where
  "boot_memory b cfg =
     (case NewStore (bt_ranking b) (bt_Getenv b ''HUMAN_ALLOWLIST'') (bt_epoch b) cfg of
        Inl err \<Rightarrow> Inl (StoreFailed (InvalidConfig err))
      | Inr s \<Rightarrow> map_sum id RunningMemory (boot_server b (memory_api (bt_moment b)) s))"

definition boot_persistent :: "boot \<Rightarrow> config \<Rightarrow> migration_files \<Rightarrow> boot_error + running" where
  "boot_persistent b cfg fs =
     (case NewPersistentStore (bt_ranking b) (bt_Getenv b ''HUMAN_ALLOWLIST'') (bt_epoch b) (bt_load b) (mf_state fs)
             (chosen_statePath (bt_Getenv b)) cfg of
        Inl err \<Rightarrow> Inl (StoreFailed err)
      | Inr p \<Rightarrow> map_sum id RunningPersistent (boot_server b (persistent_api (bt_persist b) (bt_moment b)) p))"

definition pinakes_main ::
  "(string \<Rightarrow> string) \<Rightarrow> boot \<Rightarrow> migration_files \<Rightarrow> (boot_error + running) \<times> migration_files" where
  "pinakes_main Quote b fs =
     (let Getenv = bt_Getenv b in
      case parseNamespaceConfig Quote (Getenv ''BUS_NAMESPACE_MODE'') (Getenv ''BUS_LEGACY_SCOPE'') of
        Inl err \<Rightarrow> (Inl (InvalidNamespace err), fs)
      | Inr (namespaceMode, legacyScope) \<Rightarrow>
          (case ParseSHA256Map Quote (Getenv ''CONTROL_PLANE_AGENT_SECRET_HASHES'') of
             Inl err \<Rightarrow> (Inl (InvalidControlPlane err), fs)
           | Inr hashes \<Rightarrow>
               (let cfg = main_config Getenv namespaceMode legacyScope hashes in
                case chosen_backend Getenv (bt_dbFlag b) of
                  SqliteBackend \<Rightarrow> boot_sqlite b cfg fs
                | MemoryBackend \<Rightarrow> (boot_memory b cfg, fs)
                | PersistentBackend \<Rightarrow> (boot_persistent b cfg fs, fs))))"

section \<open>Stopping\<close>

text \<open>
  \<^verbatim>\<open>runHTTPServer\<close> ends on a signal or on a failure to listen. On both paths the HTTP server is shut down and
  the store is closed if it is an \<^verbatim>\<open>io.Closer\<close>, which only the SQLite store is; the exit code is 1 after a
  failure to listen.
\<close>

datatype stop_cause = ShutdownRequested | ListenFailed string

definition close_running :: "string option \<Rightarrow> time \<Rightarrow> running \<Rightarrow> running" where
  "close_running io now r =
     (case r of
        RunningSqlite sv \<Rightarrow>
          RunningSqlite (sv\<lparr>sv_store := (fst (sv_store sv), SQLiteStore_Close io now (snd (sv_store sv)))\<rparr>)
      | RunningMemory sv \<Rightarrow> RunningMemory sv
      | RunningPersistent sv \<Rightarrow> RunningPersistent sv)"

definition runHTTPServer :: "stop_cause \<Rightarrow> string option \<Rightarrow> time \<Rightarrow> running \<Rightarrow> int \<times> running" where
  "runHTTPServer cause io now r =
     ((case cause of ShutdownRequested \<Rightarrow> 0 | ListenFailed err \<Rightarrow> 1), close_running io now r)"

end
