(* ===== verification/Ns_Tools.thy ===== *)
theory Ns_Tools
  imports Ns_Migrate Pinakes_Main
begin

text \<open>
  The command-line programs around the namespace migration: \<^verbatim>\<open>cmd/pinakes-migrate\<close>,
  \<^verbatim>\<open>cmd/pinakes-manifest-invert\<close> and \<^verbatim>\<open>cmd/pinakes-manifest-allowlist\<close>.

  A program gets what \<^verbatim>\<open>flag\<close> made of its arguments, \<open>None\<close> when that failed, and the number of arguments that
  are left; it returns its exit code and what it wrote. Lines on standard error are not modelled. The error
  of each call on a file is in \<open>tool_io\<close>; a report is the value that is rendered on standard output.
\<close>

section \<open>Reading the manifest\<close>

record tool_io =
  to_Open :: "string + string"
  to_Close :: "string option"
  to_Create :: "string option"
  to_Write :: "string option"
  to_CloseOutput :: "string option"
  to_Remove :: bool

datatype manifest_input =
    NotRead string
  | NotParsed "refusal list"
  | NotClosed string
  | Manifest manifest

definition read_manifest :: "(string \<Rightarrow> string) \<Rightarrow> ranking \<Rightarrow> tool_io \<Rightarrow> manifest_input" where
  "read_manifest Quote rk io =
     (case to_Open io of
        Inl err \<Rightarrow> NotRead err
      | Inr input \<Rightarrow>
          (case ParseManifest Quote rk input of
             Inl refusals \<Rightarrow> NotParsed refusals
           | Inr manifest \<Rightarrow>
               (case to_Close io of Some err \<Rightarrow> NotClosed err | None \<Rightarrow> Manifest manifest)))"

section \<open>pinakes-manifest-allowlist\<close>

record allowlist_flags =
  fa_manifest :: string
  fa_NArg :: nat

definition allowlist_identities :: "manifest \<Rightarrow> string list" where
  "allowlist_identities manifest =
     sort (remdups (map mr_TargetID (filter (\<lambda>row. mr_Disposition row \<noteq> DispositionRetire) manifest)))"

definition allowlist_lines :: "manifest \<Rightarrow> string list" where
  "allowlist_lines manifest =
     [''# Proposed post-migration Pinakes agent allowlist'',
      ''# Generated from the reviewed issue #15 namespace manifest.'',
      ''# Retired identities are intentionally absent.''] @ allowlist_identities manifest"

definition println :: "string list \<Rightarrow> string" where
  "println ls = concat (map (\<lambda>l. l @ [CHR 0x0A]) ls)"

text \<open>A failing \<^verbatim>\<open>Flush\<close> has written some beginning of the text, which \<open>to_Write\<close> then gives.\<close>

definition allowlist_run ::
  "(string \<Rightarrow> string) \<Rightarrow> ranking \<Rightarrow> tool_io \<Rightarrow> allowlist_flags option \<Rightarrow> int \<times> string" where
  "allowlist_run Quote rk io flags =
     (case flags of
        None \<Rightarrow> (2, [])
      | Some f \<Rightarrow>
          if fa_NArg f \<noteq> 0 \<or> fa_manifest f = [] then (2, [])
          else (case read_manifest Quote rk io of
            NotRead err \<Rightarrow> (1, [])
          | NotParsed refusals \<Rightarrow> (1, [])
          | NotClosed err \<Rightarrow> (1, [])
          | Manifest manifest \<Rightarrow>
              (case to_Write io of
                 Some written \<Rightarrow> (1, written)
               | None \<Rightarrow> (0, println (allowlist_lines manifest)))))"

section \<open>pinakes-manifest-invert\<close>

record invert_flags =
  fi_manifest :: string
  fi_output :: string
  fi_NArg :: nat

text \<open>
  The last argument is the file at the output path, if there is one: \<^verbatim>\<open>O_EXCL\<close> refuses to replace it. When
  writing or closing fails, the file holds what \<open>to_Write\<close> gives until it is removed.
\<close>

definition invert_run ::
  "(string \<Rightarrow> string) \<Rightarrow> ranking \<Rightarrow> tool_io \<Rightarrow> invert_flags option \<Rightarrow> string option \<Rightarrow> int \<times> string option" where
  "invert_run Quote rk io flags out =
     (case flags of
        None \<Rightarrow> (2, out)
      | Some f \<Rightarrow>
          if fi_NArg f \<noteq> 0 \<or> fi_manifest f = [] \<or> fi_output f = [] then (2, out)
          else (case read_manifest Quote rk io of
            NotRead err \<Rightarrow> (1, out)
          | NotParsed refusals \<Rightarrow> (1, out)
          | NotClosed err \<Rightarrow> (1, out)
          | Manifest manifest \<Rightarrow>
              (case InvertManifest Quote rk manifest of
                 Inl refusals \<Rightarrow> (1, out)
               | Inr inverted \<Rightarrow>
                   if out \<noteq> None \<or> to_Create io \<noteq> None then (1, out)
                   else (case (to_Write io, to_CloseOutput io) of
                     (None, None) \<Rightarrow> (0, Some (WriteManifest inverted))
                   | (Some written, _) \<Rightarrow> (1, if to_Remove io then None else Some written)
                   | (None, Some err) \<Rightarrow> (1, if to_Remove io then None else Some (WriteManifest inverted))))))"

section \<open>pinakes-migrate\<close>

record migrate_flags =
  fm_db :: string
  fm_manifest :: string
  fm_authority :: string
  fm_apply :: bool
  fm_acknowledge_copy :: bool
  fm_NArg :: nat

definition migrate_options :: "(string \<Rightarrow> string) \<Rightarrow> migrate_flags \<Rightarrow> authority \<Rightarrow> options" where
  "migrate_options Getenv f authority =
     \<lparr>op_DBPath = fm_db f, op_Authority = authority, op_Apply = fm_apply f,
      op_AcknowledgeCopy = fm_acknowledge_copy f,
      op_ControlPlaneAgents = SplitCSV (Getenv ''CONTROL_PLANE_AGENTS'')\<rparr>"

text \<open>\<open>writable\<close> says whether the report can be written; the exit code, the report and the database result.\<close>

definition migrate_run ::
  "(string \<Rightarrow> string) \<Rightarrow> ranking \<Rightarrow> (string \<Rightarrow> string) \<Rightarrow> tool_io \<Rightarrow> migrate_io \<Rightarrow> bool \<Rightarrow> migrate_flags option \<Rightarrow>
     sqldb \<Rightarrow> int \<times> report option \<times> sqldb" where
  "migrate_run Quote rk Getenv io mio writable flags db =
     (case flags of
        None \<Rightarrow> (2, None, db)
      | Some f \<Rightarrow>
          if fm_NArg f \<noteq> 0 then (2, None, db)
          else (case ParseAuthority Quote (fm_authority f) of
            Inl err \<Rightarrow> (2, None, db)
          | Inr authority \<Rightarrow>
              if fm_manifest f = [] then (2, None, db)
              else (case read_manifest Quote rk io of
                NotRead err \<Rightarrow> (1, None, db)
              | NotParsed refusals \<Rightarrow>
                  (1, if writable then Some (RefusedReport authority (fm_apply f) refusals) else None, db)
              | NotClosed err \<Rightarrow> (1, None, db)
              | Manifest manifest \<Rightarrow>
                  (case Run Quote rk mio manifest (migrate_options Getenv f authority) db of
                     ((report, err), db') \<Rightarrow>
                       if \<not> writable then (1, None, db')
                       else if err \<noteq> None then (1, Some report, db')
                       else (0, Some report, db')))))"


section \<open>The allowlist that is written is the one that is loaded\<close>

lemma Split_println: "\<forall>l \<in> set ls. CHR 0x0A \<notin> set l \<Longrightarrow> Split (println ls) (CHR 0x0A) = ls @ [[]]"
  by (induction ls) (simp_all add: println_def Split_append)

lemma allowlist_comments:
  "\<forall>l \<in> set (take 3 (allowlist_lines [])). CHR 0x0A \<notin> set l \<and> length l < 100 \<and> TrimSpace l = l \<and> HasPrefix l ''#''"
  "TrimSpace [] = []"
  by code_simp+

lemma no_control_no_NL: "\<not> has_control s \<Longrightarrow> CHR 0x0A \<notin> set s"
  by (induction s) (auto simp: has_control.simps byte_in_def)

lemma allowlist_lines_split: "allowlist_lines m = take 3 (allowlist_lines []) @ allowlist_identities m"
  by (simp add: allowlist_lines_def)

text \<open>The identities that stay after the migration.\<close>

definition kept_targets :: "manifest \<Rightarrow> string set" where
  "kept_targets manifest = {mr_TargetID row |row. row \<in> set manifest \<and> mr_Disposition row \<noteq> DispositionRetire}"

lemma set_allowlist_identities: "set (allowlist_identities manifest) = kept_targets manifest"
  by (auto simp: allowlist_identities_def kept_targets_def)

lemma load_written_allowlist:
  assumes ok: "\<forall>a \<in> kept_targets manifest. CHR 0x0A \<notin> set a \<and> TrimSpace a = a \<and> a \<noteq> []"
    and plain: "\<forall>a \<in> kept_targets manifest. \<not> HasPrefix a ''#'' \<and> length a < 1048576"
  shows "\<exists>allowset. loadAllowlistFile (Inr (println (allowlist_lines manifest))) = Inr allowset \<and>
    set allowset = kept_targets manifest"
proof -
  let ?c = "take 3 (allowlist_lines [])"
  define ls where "ls = ?c @ allowlist_identities manifest"
  have split: "Split (println (allowlist_lines manifest)) (CHR 0x0A) = ls @ [[]]"
    unfolding ls_def allowlist_lines_split [of manifest]
    using allowlist_comments(1) ok by (intro Split_println) (auto simp: set_allowlist_identities)
  moreover have "\<not> list_ex (\<lambda>l. 1048576 \<le> length l) (ls @ [[]])"
    using allowlist_comments(1) plain unfolding ls_def
    by (force simp: list_ex_iff set_allowlist_identities not_le)
  moreover have "set (filter (\<lambda>l. \<not> HasPrefix l ''#'') (trimmed_entries (ls @ [[]]))) = kept_targets manifest"
  proof -
    have "TrimSpace l = l" if "l \<in> set ls" for l
      using that ok allowlist_comments(1) unfolding ls_def by (auto simp: set_allowlist_identities)
    then have "set (trimmed_entries (ls @ [[]])) = set ls - {[]}"
      using allowlist_comments(2) by (force simp: trimmed_entries_def)
    moreover have "{l \<in> set ls - {[]}. \<not> HasPrefix l ''#''} = kept_targets manifest"
      using ok plain allowlist_comments(1) unfolding ls_def by (auto simp: set_allowlist_identities)
    ultimately show ?thesis by simp
  qed
  ultimately show ?thesis by (simp add: loadAllowlistFile_def)
qed

text \<open>
  C39. The allowlist a migration is reviewed with is the one the server enforces. When the program wrote the
  allowlist of a manifest, and no identity that stays begins with the comment sign or is longer than a
  line may be, the server that loads the file allows exactly the identities the manifest keeps, under their
  new names; if the manifest retires every identity, it allows every agent.
\<close>

theorem allowlist_enforced:
  assumes "allowlist_run Quote rk io flags = (0, out)"
    and "to_Open io = Inr text" and "ParseManifest Quote rk text = Inr manifest"
    and "\<forall>a \<in> kept_targets manifest. \<not> HasPrefix a ''#'' \<and> length a < 1048576"
  shows "\<exists>allowset. loadAllowlistFile (Inr out) = Inr allowset \<and>
    (\<forall>sv a. isAgentAllowed (snd (reloadAllowlistFile (Inr out) (sv :: 's server))) a \<longleftrightarrow>
       a \<in> kept_targets manifest \<or> kept_targets manifest = {})"
proof -
  have out: "out = println (allowlist_lines manifest)"
    using assms(1-3) by (auto simp: allowlist_run_def read_manifest_def split: option.splits if_splits)
  have "\<forall>row \<in> set manifest. row_ok row"
    using ParseManifest_ok [OF assms(3)] by (simp add: manifest_ok_def entries_ok_def)
  then have "\<forall>a \<in> kept_targets manifest. CHR 0x0A \<notin> set a \<and> TrimSpace a = a \<and> a \<noteq> []"
    by (auto simp: kept_targets_def row_ok_def field_ok_def dest!: no_control_no_NL)
  from load_written_allowlist [OF this assms(4)] obtain allowset where
    "loadAllowlistFile (Inr out) = Inr allowset" "set allowset = kept_targets manifest" unfolding out by blast
  then show ?thesis
    by (auto simp: reloadAllowlistFile_def swapAgentAllowset_def isAgentAllowed_def)
qed

theorem allowlist_enforced_witness:
  "\<exists>out. allowlist_run (\<lambda>s. s) (\<lambda>_. 0) \<lparr>to_Open = Inr ex_manifest_text, to_Close = None, to_Create = None, to_Write = None,
       to_CloseOutput = None, to_Remove = True\<rparr> (Some \<lparr>fa_manifest = ''m.csv'', fa_NArg = 0\<rparr>) = (0, out) \<and>
     (\<forall>sv :: unit server. isAgentAllowed (snd (reloadAllowlistFile (Inr out) sv)) ''router'')"
proof -
  let ?io = "\<lparr>to_Open = Inr ex_manifest_text, to_Close = None, to_Create = None, to_Write = None,
       to_CloseOutput = None, to_Remove = True\<rparr>"
  let ?flags = "Some \<lparr>fa_manifest = ''m.csv'', fa_NArg = 0\<rparr>"
  have run: "allowlist_run (\<lambda>s. s) (\<lambda>_. 0) ?io ?flags = (0, println (allowlist_lines ex_manifest))"
    by (simp add: allowlist_run_def read_manifest_def ex_manifest_parsed)
  have kept: "kept_targets ex_manifest = {''personal.writer'', ''personal.mail'', ''ucla.mail'', ''router''}"
  proof -
    have "allowlist_identities ex_manifest = [''personal.mail'', ''personal.writer'', ''router'', ''ucla.mail'']" by code_simp
    then show ?thesis using set_allowlist_identities [of ex_manifest] by auto
  qed
  have "\<forall>a \<in> kept_targets ex_manifest. \<not> HasPrefix a ''#'' \<and> length a < 1048576"
    unfolding kept by (simp add: HasPrefix_def)
  from allowlist_enforced [OF run _ ex_manifest_parsed this]
  have "isAgentAllowed (snd (reloadAllowlistFile (Inr (println (allowlist_lines ex_manifest))) sv)) ''router''" for sv :: "unit server"
    unfolding kept by auto
  with run show ?thesis by blast
qed

end
