(* ===== verification/Ns_Compare.thy ===== *)
theory Ns_Compare
  imports Go_Lines Ns_Tools "HOL-Library.Multiset"
begin

text \<open>
  The comparison of two databases: \<^verbatim>\<open>internal/nsmigrate/compare.go\<close> and \<^verbatim>\<open>cmd/pinakes-migrate-compare\<close>.

  A database file gives the answers to the queries of the program, and the error of each: its tables with
  their schema texts, the columns of a table and its rows, each value as SQLite's \<^verbatim>\<open>quote()\<close> renders it. The
  program orders the rows by these texts, encodes them as lines of JSON and compares SHA-256 digests;
  \<open>comparison_exact\<close> shows that this decides equality of the contents.
\<close>

section \<open>The program\<close>

record db_file =
  df_Lstat :: "string + file_mode"
  df_Open :: "string option"
  df_SchemaQuery :: "string option"
  df_ColumnsQuery :: "string \<Rightarrow> string option"
  df_RowsQuery :: "string \<Rightarrow> string option"
  df_tables :: "(string \<times> string) list"
  df_columns :: "string \<Rightarrow> string list"
  df_rows :: "string \<Rightarrow> string list list"

record logicalTable =
  lg_name :: string
  lg_schema :: string
  lg_digest :: string

record LogicalComparisonReport =
  lr_Equal :: bool
  lr_TableCount :: nat
  lr_Tables :: "string list"
  lr_MismatchedTables :: "string list"

text \<open>\<^verbatim>\<open>name NOT LIKE 'sqlite_%'\<close>, where the underscore matches any character and letters match in both cases.\<close>

definition internal_name :: "string \<Rightarrow> bool" where
  "internal_name name \<longleftrightarrow> map ascii_lower (take 6 name) = ''sqlite'' \<and> 6 < length name"

definition encode_stream :: "json list \<Rightarrow> string option" where
  "encode_stream vs = map_option concat (those (map Encode vs))"

definition logicalTableDigest :: "(string \<Rightarrow> string) \<Rightarrow> db_file \<Rightarrow> logicalTable \<Rightarrow> string + string" where
  "logicalTableDigest sha256 f table =
     (case df_ColumnsQuery f (lg_name table) of
        Some err \<Rightarrow> Inl err
      | None \<Rightarrow>
          (let columns = df_columns f (lg_name table) in
           case encode_stream [JStr (lg_schema table), JArr (map JStr columns)] of
             None \<Rightarrow> Inl ''json''
           | Some header \<Rightarrow>
               if columns = [] then Inr (sha256 header)
               else (case df_RowsQuery f (lg_name table) of
                  Some err \<Rightarrow> Inl err
                | None \<Rightarrow>
                    (case encode_stream (map (\<lambda>values. JArr (map JStr values)) (sort (df_rows f (lg_name table)))) of
                       None \<Rightarrow> Inl ''json''
                     | Some body \<Rightarrow> Inr (sha256 (header @ body))))))"

fun digest_tables ::
  "(string \<Rightarrow> string) \<Rightarrow> (string \<Rightarrow> string) \<Rightarrow> db_file \<Rightarrow> string list \<Rightarrow> logicalTable gomap \<Rightarrow>
     string + logicalTable gomap" where
  "digest_tables sha256 Quote f [] tables = Inr tables"
| "digest_tables sha256 Quote f (name # names) tables =
     (case map_of tables name of
        None \<Rightarrow> digest_tables sha256 Quote f names tables
      | Some table \<Rightarrow>
          (case logicalTableDigest sha256 f table of
             Inl err \<Rightarrow> Inl (''table '' @ Quote name @ '': '' @ err)
           | Inr digest \<Rightarrow>
               digest_tables sha256 Quote f names (AList.update name (table\<lparr>lg_digest := digest\<rparr>) tables)))"

definition logicalTables ::
  "(string \<Rightarrow> string) \<Rightarrow> (string \<Rightarrow> string) \<Rightarrow> ranking \<Rightarrow> db_file \<Rightarrow> string + logicalTable gomap" where
  "logicalTables sha256 Quote rk f =
     (case df_Open f of
        Some err \<Rightarrow> Inl err
      | None \<Rightarrow>
          (case df_SchemaQuery f of
             Some err \<Rightarrow> Inl err
           | None \<Rightarrow>
               (let found = sort_key fst (filter (\<lambda>(name, schema). \<not> internal_name name) (df_tables f));
                    tables = fold (\<lambda>(name, schema). AList.update name
                      \<lparr>lg_name = name, lg_schema = schema, lg_digest = replicate 32 (CHR 0x00)\<rparr>) found []
                in digest_tables sha256 Quote f (range_keys rk tables) tables)))"

definition table_differs :: "logicalTable gomap \<Rightarrow> logicalTable gomap \<Rightarrow> string \<Rightarrow> bool" where
  "table_differs expected actual name =
     (case (map_of expected name, map_of actual name) of
        (Some left, Some right) \<Rightarrow> lg_schema left \<noteq> lg_schema right \<or> lg_digest left \<noteq> lg_digest right
      | _ \<Rightarrow> True)"

definition CompareLogicalDatabases ::
  "(string \<Rightarrow> string) \<Rightarrow> (string \<Rightarrow> string) \<Rightarrow> ranking \<Rightarrow> string \<Rightarrow> string \<Rightarrow> db_file \<Rightarrow> db_file \<Rightarrow>
     string + LogicalComparisonReport" where
  "CompareLogicalDatabases sha256 Quote rk expectedPath actualPath expectedFile actualFile =
     (case validateDBPath (df_Lstat expectedFile) expectedPath of
        Some err \<Rightarrow> Inl (''expected database: '' @ err)
      | None \<Rightarrow>
     (case validateDBPath (df_Lstat actualFile) actualPath of
        Some err \<Rightarrow> Inl (''actual database: '' @ err)
      | None \<Rightarrow>
     (case logicalTables sha256 Quote rk expectedFile of
        Inl err \<Rightarrow> Inl (''read expected database: '' @ err)
      | Inr expected \<Rightarrow>
     (case logicalTables sha256 Quote rk actualFile of
        Inl err \<Rightarrow> Inl (''read actual database: '' @ err)
      | Inr actual \<Rightarrow>
          (let names = fold (\<lambda>name. AList.update name ()) (range_keys rk expected @ range_keys rk actual) [];
               Tables = sort (range_keys rk names);
               mismatched = filter (table_differs expected actual) Tables
           in Inr \<lparr>lr_Equal = (mismatched = []), lr_TableCount = length Tables, lr_Tables = Tables,
                lr_MismatchedTables = mismatched\<rparr>)))))"

text \<open>The command-line program: its exit code, and the report if it was written.\<close>

record compare_flags =
  fc_expected :: string
  fc_actual :: string
  fc_NArg :: nat

definition compare_run ::
  "(string \<Rightarrow> string) \<Rightarrow> (string \<Rightarrow> string) \<Rightarrow> ranking \<Rightarrow> bool \<Rightarrow> compare_flags option \<Rightarrow> db_file \<Rightarrow> db_file \<Rightarrow>
     int \<times> LogicalComparisonReport option" where
  "compare_run sha256 Quote rk writable flags expectedFile actualFile =
     (case flags of
        None \<Rightarrow> (2, None)
      | Some fl \<Rightarrow>
          if fc_NArg fl \<noteq> 0 \<or> fc_expected fl = [] \<or> fc_actual fl = [] then (2, None)
          else (case CompareLogicalDatabases sha256 Quote rk (fc_expected fl) (fc_actual fl) expectedFile actualFile of
            Inl err \<Rightarrow> (1, None)
          | Inr report \<Rightarrow>
              if \<not> writable then (1, None)
              else if \<not> lr_Equal report then (1, Some report)
              else (0, Some report)))"


section \<open>The tables that are read\<close>

definition table_text :: "db_file \<Rightarrow> string \<Rightarrow> string \<Rightarrow> string" where
  "table_text f name schema =
     string_line schema @ strings_line (df_columns f name) @
       (if df_columns f name = [] then [] else concat (map strings_line (sort (df_rows f name))))"

text \<open>The tables the program reads.\<close>

definition user_tables :: "db_file \<Rightarrow> string \<rightharpoonup> string" where
  "user_tables f = map_of (filter (\<lambda>(name, schema). \<not> internal_name name) (df_tables f))"

lemma encode_stream_lines:
  "encode_stream [JStr s, JArr (map JStr cs)] = Some (string_line s @ strings_line cs)"
  "encode_stream (map (\<lambda>xs. JArr (map JStr xs)) rows) = Some (concat (map strings_line rows))"
proof -
  show "encode_stream [JStr s, JArr (map JStr cs)] = Some (string_line s @ strings_line cs)"
    by (simp add: encode_stream_def Encode_lines)
  have "those (map (Encode \<circ> (\<lambda>xs. JArr (map JStr xs))) rows) = Some (map strings_line rows)"
    by (induction rows) (simp_all add: Encode_lines)
  then show "encode_stream (map (\<lambda>xs. JArr (map JStr xs)) rows) = Some (concat (map strings_line rows))"
    by (simp add: encode_stream_def)
qed

lemma logicalTableDigest_text:
  "logicalTableDigest sha256 f t = Inr d \<Longrightarrow> d = sha256 (table_text f (lg_name t) (lg_schema t))"
  by (simp add: logicalTableDigest_def encode_stream_lines table_text_def Let_def split: option.splits if_splits)

lemma digest_tables_result:
  assumes "digest_tables sha256 Quote f names tables = Inr tables'" and "distinct names"
  shows "map_of tables' n = map_option (\<lambda>t. if n \<in> set names
      then t\<lparr>lg_digest := sha256 (table_text f (lg_name t) (lg_schema t))\<rparr> else t) (map_of tables n)"
  using assms
proof (induction names arbitrary: tables)
  case Nil
  then show ?case by (simp add: option.map_ident)
next
  case (Cons name names)
  show ?case
  proof (cases "map_of tables name")
    case None
    then show ?thesis using Cons by (cases "n = name") auto
  next
    case (Some t)
    then obtain d where d: "logicalTableDigest sha256 f t = Inr d"
      and run: "digest_tables sha256 Quote f names (AList.update name (t\<lparr>lg_digest := d\<rparr>) tables) = Inr tables'"
      using Cons.prems(1) by (auto split: sum.splits)
    show ?thesis using Cons.IH [OF run] Cons.prems(2) Some logicalTableDigest_text [OF d]
      by (cases "n = name") (auto simp: update_conv')
  qed
qed

lemma loaded_tables:
  "map_of (fold (\<lambda>(name, schema). AList.update name \<lparr>lg_name = name, lg_schema = schema, lg_digest = d\<rparr>) found tables) n =
     (case map_of (rev found) n of None \<Rightarrow> map_of tables n
      | Some schema \<Rightarrow> Some \<lparr>lg_name = n, lg_schema = schema, lg_digest = d\<rparr>)"
  by (induction found arbitrary: tables) (auto simp: update_conv' map_add_def split: option.splits)

lemma loaded_distinct:
  "keys_distinct tables \<Longrightarrow> keys_distinct (fold (\<lambda>(name, schema). AList.update name (mk name schema)) found tables)"
  by (induction found arbitrary: tables) auto

lemma logicalTables_result:
  assumes "logicalTables sha256 Quote rk f = Inr tables" and "keys_distinct (df_tables f)"
  shows "map_of tables name = map_option (\<lambda>schema. \<lparr>lg_name = name, lg_schema = schema,
      lg_digest = sha256 (table_text f name schema)\<rparr>) (user_tables f name)"
proof -
  define found where "found = sort_key fst (filter (\<lambda>(name, schema). \<not> internal_name name) (df_tables f))"
  define start where "start = fold (\<lambda>(name, schema). AList.update name
      \<lparr>lg_name = name, lg_schema = schema, lg_digest = replicate 32 (CHR 0x00)\<rparr>) found []"
  have run: "digest_tables sha256 Quote f (range_keys rk start) start = Inr tables"
    using assms(1) by (simp add: logicalTables_def found_def start_def Let_def split: option.splits)
  have dk: "keys_distinct start" unfolding start_def by (rule loaded_distinct) simp
  have df: "keys_distinct (filter (\<lambda>(name, schema). \<not> internal_name name) (df_tables f))"
    using assms(2) by (simp add: distinct_map_filter)
  moreover have "mset (map fst found) = mset (map fst (filter (\<lambda>(name, schema). \<not> internal_name name) (df_tables f)))"
    by (simp add: found_def)
  ultimately have "distinct (map fst found)" using mset_eq_imp_distinct_iff by blast
  moreover have "set found = set (filter (\<lambda>(name, schema). \<not> internal_name name) (df_tables f))" by (simp add: found_def)
  ultimately have "map_of (rev found) = user_tables f"
    unfolding user_tables_def using df by (subst map_of_inject_set) (simp_all add: rev_map [symmetric])
  then have start: "map_of start n = map_option (\<lambda>schema. \<lparr>lg_name = n, lg_schema = schema,
      lg_digest = replicate 32 (CHR 0x00)\<rparr>) (user_tables f n)" for n
    unfolding start_def loaded_tables by (simp add: split: option.splits)
  show ?thesis
  proof (cases "user_tables f name")
    case None
    then show ?thesis using digest_tables_result [OF run, of name] dk by (simp add: start)
  next
    case (Some schema)
    then have s: "map_of start name =
        Some \<lparr>lg_name = name, lg_schema = schema, lg_digest = replicate 32 (CHR 0x00)\<rparr>" by (simp add: start)
    then have "name \<in> fst ` set start" by (metis map_of_eq_None_iff option.distinct(1))
    then show ?thesis using digest_tables_result [OF run, of name] dk by (simp add: s Some)
  qed
qed

section \<open>The comparison is exact\<close>

text \<open>The contents of a table: its schema, its columns and the multiset of its rows.\<close>

definition table_of :: "db_file \<Rightarrow> string \<Rightarrow> (string \<times> string list \<times> string list multiset) option" where
  "table_of f name = map_option (\<lambda>schema. (schema, df_columns f name, mset (df_rows f name))) (user_tables f name)"

text \<open>SQLite's table names are distinct, a table has a column, and texts are UTF-8.\<close>

definition readable :: "db_file \<Rightarrow> bool" where
  "readable f \<longleftrightarrow>
     keys_distinct (df_tables f) \<and>
     (\<forall>(name, schema) \<in> set (df_tables f). ValidString schema \<and> df_columns f name \<noteq> [] \<and>
        (\<forall>c \<in> set (df_columns f name). ValidString c) \<and>
        (\<forall>row \<in> set (df_rows f name). \<forall>value \<in> set row. ValidString value))"

lemma readable_table:
  assumes "readable f" and "user_tables f name = Some schema"
  shows "ValidString schema" "df_columns f name \<noteq> []" "\<forall>c \<in> set (df_columns f name). ValidString c"
    "\<forall>row \<in> set (df_rows f name). \<forall>value \<in> set row. ValidString value"
proof -
  have "(name, schema) \<in> set (df_tables f)" using map_of_SomeD [OF assms(2) [unfolded user_tables_def]] by simp
  then show "ValidString schema" "df_columns f name \<noteq> []" "\<forall>c \<in> set (df_columns f name). ValidString c"
    "\<forall>row \<in> set (df_rows f name). \<forall>value \<in> set row. ValidString value"
    using assms(1) unfolding readable_def by blast+
qed

lemma sort_eq_mset: "sort xs = sort ys \<longleftrightarrow> mset xs = mset ys"
  by (metis mset_sort sorted_list_of_multiset_mset)

lemma table_text_exact:
  assumes "readable f" "readable g" and f: "user_tables f name = Some s" and g: "user_tables g name = Some t"
  shows "table_text f name s = table_text g name t \<longleftrightarrow> table_of f name = table_of g name"
proof
  assume "table_text f name s = table_text g name t"
  then have "string_line s @ strings_line (df_columns f name) @ concat (map strings_line (sort (df_rows f name))) =
      string_line t @ strings_line (df_columns g name) @ concat (map strings_line (sort (df_rows g name)))"
    using readable_table(2) [OF assms(1) f] readable_table(2) [OF assms(2) g] by (simp add: table_text_def)
  then have s: "s = t" and "strings_line (df_columns f name) @ concat (map strings_line (sort (df_rows f name))) =
      strings_line (df_columns g name) @ concat (map strings_line (sort (df_rows g name)))"
    using prefix_freeD [OF string_line_prefix_free] readable_table(1) [OF assms(1) f] readable_table(1) [OF assms(2) g]
    by blast+
  then have c: "df_columns f name = df_columns g name"
    and "concat (map strings_line (sort (df_rows f name))) = concat (map strings_line (sort (df_rows g name)))"
    using prefix_freeD [OF strings_line_prefix_free] readable_table(3) [OF assms(1) f] readable_table(3) [OF assms(2) g]
    by blast+
  then have "sort (df_rows f name) = sort (df_rows g name)"
    using readable_table(4) [OF assms(1) f] readable_table(4) [OF assms(2) g]
    by (intro prefix_free_concat [OF strings_line_prefix_free]) (simp_all add: lines_nonempty)
  then show "table_of f name = table_of g name" using s c f g by (simp add: table_of_def sort_eq_mset)
next
  assume "table_of f name = table_of g name"
  then show "table_text f name s = table_text g name t"
    using f g sort_eq_mset [of "df_rows f name" "df_rows g name"] by (simp add: table_of_def table_text_def)
qed


text \<open>SHA-256 tells the texts of the two tables with one name apart.\<close>

definition collision_free :: "(string \<Rightarrow> string) \<Rightarrow> db_file \<Rightarrow> db_file \<Rightarrow> bool" where
  "collision_free sha256 f g \<longleftrightarrow>
     (\<forall>name s t. user_tables f name = Some s \<longrightarrow> user_tables g name = Some t \<longrightarrow>
        sha256 (table_text f name s) = sha256 (table_text g name t) \<longrightarrow> table_text f name s = table_text g name t)"

lemma user_tables_iff: "user_tables f name = None \<longleftrightarrow> table_of f name = None"
  by (simp add: table_of_def)

lemma table_differs_iff:
  assumes "logicalTables sha256 Quote rk f = Inr expected" and "logicalTables sha256 Quote rk g = Inr actual"
    and r: "readable f" "readable g" and "collision_free sha256 f g"
    and "table_of f name \<noteq> None \<or> table_of g name \<noteq> None"
  shows "table_differs expected actual name \<longleftrightarrow> table_of f name \<noteq> table_of g name"
proof -
  have k: "keys_distinct (df_tables f)" "keys_distinct (df_tables g)" using r by (simp_all add: readable_def)
  note e = logicalTables_result [OF assms(1) k(1), of name] and a = logicalTables_result [OF assms(2) k(2), of name]
  show ?thesis
  proof (cases "user_tables f name"; cases "user_tables g name")
    fix s t
    assume s: "user_tables f name = Some s" and t: "user_tables g name = Some t"
    have "sha256 (table_text f name s) = sha256 (table_text g name t) \<longleftrightarrow> table_of f name = table_of g name"
      using table_text_exact [OF r s t] assms(5) s t unfolding collision_free_def by metis
    moreover have "table_of f name = table_of g name \<Longrightarrow> s = t" using s t by (simp add: table_of_def)
    ultimately show ?thesis using e a s t by (auto simp: table_differs_def)
  qed (use e a assms(6) in \<open>auto simp: table_differs_def table_of_def\<close>)
qed

lemma range_names: "set (range_keys rk (fold (\<lambda>name. AList.update name ()) names m)) = set names \<union> fst ` set m"
  by (induction names arbitrary: m) (auto simp: dom_update_keys)

text \<open>
  The names SQLite reserves for its own tables, and the other names the program's pattern matches: a table
  a user called \<open>sqlitedata\<close> is passed over as if it were SQLite's own, because the underscore of the
  pattern stands for any character.
\<close>

definition reserved_name :: "string \<Rightarrow> bool" where
  "reserved_name name \<longleftrightarrow> map ascii_lower (take 6 name) = ''sqlite'' \<and> take 1 (drop 6 name) = ''_''"

definition skipped :: "string \<Rightarrow> bool" where
  "skipped name \<longleftrightarrow> map ascii_lower (take 6 name) = ''sqlite'' \<and> drop 6 name \<noteq> [] \<and> take 1 (drop 6 name) \<noteq> ''_''"

lemma internal_name_iff: "internal_name name \<longleftrightarrow> reserved_name name \<or> skipped name"
proof -
  have "6 < length name \<longleftrightarrow> drop 6 name \<noteq> []" by auto
  moreover have "drop 6 name \<noteq> []" if "take 1 (drop 6 name) = ''_''" using that by (metis list.distinct(1) take_Nil)
  ultimately show ?thesis unfolding internal_name_def reserved_name_def skipped_def by blast
qed

text \<open>What a database holds, as SQLite sees it: every table that is not SQLite's own.\<close>

definition contents :: "db_file \<Rightarrow> string \<Rightarrow> (string \<times> string list \<times> string list multiset) option" where
  "contents f name = (if reserved_name name then None
     else map_option (\<lambda>schema. (schema, df_columns f name, mset (df_rows f name))) (map_of (df_tables f) name))"

lemma map_of_filter_key: "map_of (filter (\<lambda>(k, v). P k) xs) k = (if P k then map_of xs k else None)"
  by (induction xs) auto

lemma table_of_contents: "table_of f name = (if skipped name then None else contents f name)"
  by (simp add: table_of_def user_tables_def contents_def internal_name_iff map_of_filter_key)

text \<open>
  C38. The comparison of two databases is exact on the tables it reads. Suppose both can be read, no table is
  without columns, every schema, column name and value is valid UTF-8 (the JSON encoder would
  replace other bytes), and SHA-256 does not collide on the texts of their tables. Then the report lists, in order,
  the user tables of either database except the skipped ones, those whose name begins with the letters
  \<open>sqlite\<close> and a character other than the underscore; the mismatched tables are exactly the listed ones whose schema, columns or rows (as a
  multiset, whatever the order they are stored in) differ or that one database lacks; and the databases are
  reported equal just when all their user tables but the skipped ones are the same. So when neither has such a
  table, the verdict is equality of the contents; when one has, a difference in it goes unreported.
\<close>

theorem comparison_exact:
  assumes "CompareLogicalDatabases sha256 Quote rk expectedPath actualPath f g = Inr report"
    and "readable f" and "readable g" and "collision_free sha256 f g"
  shows "sorted (lr_Tables report) \<and> distinct (lr_Tables report) \<and>
    set (lr_Tables report) = {name. \<not> skipped name \<and> (contents f name \<noteq> None \<or> contents g name \<noteq> None)} \<and>
    lr_MismatchedTables report = filter (\<lambda>name. contents f name \<noteq> contents g name) (lr_Tables report) \<and>
    (lr_Equal report \<longleftrightarrow> (\<forall>name. \<not> skipped name \<longrightarrow> contents f name = contents g name)) \<and>
    ((\<forall>name. skipped name \<longrightarrow> contents f name = None \<and> contents g name = None) \<longrightarrow>
       (lr_Equal report \<longleftrightarrow> contents f = contents g))"
proof -
  obtain expected actual where e: "logicalTables sha256 Quote rk f = Inr expected"
    and a: "logicalTables sha256 Quote rk g = Inr actual"
    using assms(1) by (auto simp: CompareLogicalDatabases_def Let_def split: option.splits sum.splits)
  define names where "names = fold (\<lambda>name. AList.update name ()) (range_keys rk expected @ range_keys rk actual) []"
  have report: "lr_Tables report = sort (range_keys rk names)"
    "lr_MismatchedTables report = filter (table_differs expected actual) (lr_Tables report)"
    "lr_Equal report = (lr_MismatchedTables report = [])"
    using assms(1) e a
    by (auto simp: CompareLogicalDatabases_def names_def Let_def split: option.splits)
  have k: "keys_distinct (df_tables f)" "keys_distinct (df_tables g)" using assms(2,3) by (simp_all add: readable_def)
  have keys: "name \<in> fst ` set expected \<longleftrightarrow> table_of f name \<noteq> None" "name \<in> fst ` set actual \<longleftrightarrow> table_of g name \<noteq> None" for name
    using logicalTables_result [OF e k(1), of name] logicalTables_result [OF a k(2), of name]
    by (metis map_of_eq_None_iff option.map_disc_iff user_tables_iff)+
  have "keys_distinct names" unfolding names_def
    by (rule fold_invariant [of _ "\<lambda>_. True" keys_distinct]) auto
  then have "distinct (lr_Tables report)" "sorted (lr_Tables report)" by (simp_all add: report(1))
  moreover have tables: "set (lr_Tables report) = {name. table_of f name \<noteq> None \<or> table_of g name \<noteq> None}"
  proof -
    have "set (lr_Tables report) = fst ` set expected \<union> fst ` set actual"
      unfolding report(1) names_def set_sort range_names by simp
    then show ?thesis using keys by blast
  qed
  moreover have mismatched: "lr_MismatchedTables report = filter (\<lambda>name. table_of f name \<noteq> table_of g name) (lr_Tables report)"
    unfolding report(2) using table_differs_iff [OF e a assms(2,3,4)] tables by (intro filter_cong) auto
  moreover have equal: "lr_Equal report \<longleftrightarrow> (\<forall>name. \<not> skipped name \<longrightarrow> contents f name = contents g name)"
  proof
    assume "lr_Equal report"
    then have "table_of f name = table_of g name" if "table_of f name \<noteq> None \<or> table_of g name \<noteq> None" for name
      using that unfolding report(3) mismatched filter_empty_conv tables by blast
    then show "\<forall>name. \<not> skipped name \<longrightarrow> contents f name = contents g name"
      by (metis table_of_contents)
  qed (simp add: report(3) mismatched table_of_contents)
  moreover have "lr_Equal report \<longleftrightarrow> contents f = contents g"
    if "\<forall>name. skipped name \<longrightarrow> contents f name = None \<and> contents g name = None"
    using that equal unfolding fun_eq_iff by metis
  moreover have "set (lr_Tables report) = {name. \<not> skipped name \<and> (contents f name \<noteq> None \<or> contents g name \<noteq> None)}"
    unfolding tables by (auto simp: table_of_contents)
  moreover have "lr_MismatchedTables report = filter (\<lambda>name. contents f name \<noteq> contents g name) (lr_Tables report)"
    unfolding mismatched using tables by (intro filter_cong) (auto simp: table_of_contents split: if_splits)
  ultimately show ?thesis by blast
qed

text \<open>Two databases with the same rows in another order, a copy that lost a row, and a table of SQLite's own.\<close>

definition ex_file :: "string list list \<Rightarrow> db_file" where
  "ex_file rows = \<lparr>df_Lstat = Inr Regular, df_Open = None, df_SchemaQuery = None, df_ColumnsQuery = \<lambda>_. None,
     df_RowsQuery = \<lambda>_. None, df_tables = [(''sqlite_sequence'', ''s''), (''agents'', ''CREATE TABLE agents (id)'')],
     df_columns = \<lambda>_. [''id''], df_rows = \<lambda>_. rows\<rparr>"

lemma ex_file_report:
  "\<exists>report. CompareLogicalDatabases id id (\<lambda>_. 0) ''a.db'' ''b.db'' (ex_file rows) (ex_file rows') = Inr report"
proof -
  have names: "internal_name ''sqlite_sequence''" "\<not> internal_name ''agents''" by code_simp+
  have tables: "\<exists>tables. logicalTables id id (\<lambda>_. 0) (ex_file xs) = Inr tables" for xs
    by (simp add: logicalTables_def logicalTableDigest_def ex_file_def names range_keys_def Let_def
        encode_stream_lines(1) [where cs = "[x]" for x, simplified] encode_stream_lines(2))
  moreover have "df_Lstat (ex_file xs) = Inr Regular" for xs by (simp add: ex_file_def)
  moreover obtain e a where "logicalTables id id (\<lambda>_. 0) (ex_file rows) = Inr e"
    "logicalTables id id (\<lambda>_. 0) (ex_file rows') = Inr a" using tables by meson
  ultimately show ?thesis by (simp add: CompareLogicalDatabases_def validateDBPath_def Let_def)
qed

theorem comparison_exact_witness:
  "\<exists>report. CompareLogicalDatabases id id (\<lambda>_. 0) ''a.db'' ''b.db'' (ex_file [[''1''], [''2'']]) (ex_file [[''2''], [''1'']]) =
       Inr report \<and> lr_Equal report"
proof -
  obtain report where run: "CompareLogicalDatabases id id (\<lambda>_. 0) ''a.db'' ''b.db'' (ex_file [[''1''], [''2'']])
      (ex_file [[''2''], [''1'']]) = Inr report" using ex_file_report by blast
  have valid: "\<forall>s \<in> {''1'', ''2'', ''id'', ''s'', ''CREATE TABLE agents (id)''}. ValidString s" by code_simp
  then have r: "readable (ex_file [[''1''], [''2'']])" "readable (ex_file [[''2''], [''1'']])"
    by (simp_all add: readable_def ex_file_def)
  have c: "collision_free id (ex_file [[''1''], [''2'']]) (ex_file [[''2''], [''1'']])"
    by (simp add: collision_free_def)
  have "contents (ex_file [[''1''], [''2'']]) = contents (ex_file [[''2''], [''1'']])"
    by (simp add: contents_def ex_file_def fun_eq_iff add_mset_commute)
  then have "lr_Equal report" using comparison_exact [OF run r c] by simp
  with run show ?thesis by blast
qed

end
