(* ===== verification/Ns_Synthetic.thy ===== *)
theory Ns_Synthetic
  imports Ns_Tools
begin

text \<open>
  Test data for rehearsals: \<^verbatim>\<open>internal/nsmigrate/synthetic.go\<close> and \<^verbatim>\<open>cmd/pinakes-migrate-fixture\<close>. The
  generator drives the operations of \<^verbatim>\<open>SQLiteStore\<close>, here those of \<open>Sqlite_Store\<close>, on a new database: it
  registers every identity of the authority and lets each send a message to the next one of its scope.
\<close>

section \<open>Options and surroundings\<close>

record SyntheticOptions =
  so_DBPath :: string
  so_Authority :: authority
  so_ControlPlaneAgents :: "string list"

record SyntheticReport =
  sr_Authority :: authority
  sr_Identities :: nat
  sr_Conversations :: nat
  sr_Messages :: nat

text \<open>
  \<open>sy_Cause\<close> is what \<^verbatim>\<open>context.Cause\<close> returns at the start of a round, and \<open>sy_Moment\<close> and \<open>sy_Secret\<close> the
  surroundings of the calls of a round on the store. \<open>sy_Remove\<close> says whether removing the file works.
\<close>

record synthetic_io =
  sy_Stat :: "string option"
  sy_Mkdir :: "string option"
  sy_Start :: start_io
  sy_Cause :: "nat \<Rightarrow> string option"
  sy_Moment :: "nat \<Rightarrow> string \<Rightarrow> sqlite_moment"
  sy_Secret :: "nat \<Rightarrow> string option"
  sy_CloseExec :: "string option"
  sy_CloseError :: "string option"
  sy_Remove :: bool
  sy_sha256 :: "string \<Rightarrow> string"

datatype synthetic_error =
    Refused "refusal list"
  | NotCreated persistent_error
  | Failed string
  | StoreError string bus_error

text \<open>Noon on 8 August 2026, which the clock of the store always shows.\<close>

definition synthetic_noon :: time where
  "synthetic_noon = 63921787200 * Second"

definition at_noon :: "sqlite_moment \<Rightarrow> sqlite_moment" where
  "at_noon mo = mo\<lparr>qm_now := synthetic_noon, qm_receipt_now := synthetic_noon\<rparr>"

definition fmt_03d :: "nat \<Rightarrow> string" where
  "fmt_03d n = pad_zeros 3 (decimal (int n))"

definition syntheticRegistrationSecret :: "string \<Rightarrow> string" where
  "syntheticRegistrationSecret agentID = ''fabricated-registration-secret:'' @ agentID"

definition legacyScope :: "authority \<Rightarrow> scope" where
  "legacyScope authority = (if authority = AuthorityJK then ScopePersonal else ScopeUCLA)"

definition synthetic_scope :: "authority \<Rightarrow> string \<Rightarrow> string" where
  "synthetic_scope authority ident =
     (case explicitScope ident of
        Some scope \<Rightarrow> scope
      | None \<Rightarrow> if authority = AuthorityJK then ''personal'' else authority)"

text \<open>The identities of each scope, sorted.\<close>

definition synthetic_groups :: "authority \<Rightarrow> string list \<Rightarrow> string list gomap" where
  "synthetic_groups authority identities =
     map (\<lambda>(scope, members). (scope, sort members))
       (fold (\<lambda>ident groups. let scope = synthetic_scope authority ident in
                AList.update scope (get_or [] groups scope @ [ident]) groups) identities [])"

definition synthetic_config :: "(string \<Rightarrow> string) \<Rightarrow> SyntheticOptions \<Rightarrow> string list \<Rightarrow> config" where
  "synthetic_config sha256 opts sharedAgents =
     \<lparr>cfg_GracePeriod = 0, cfg_ProgressMinInterval = 0, cfg_IdempotencyWindow = 0, cfg_InboxWaitMax = 0,
      cfg_AckTimeout = 0, cfg_DefaultMessageTTL = 0, cfg_DefaultRegistrationTTL = 0, cfg_PushMaxAttempts = 0,
      cfg_PushBaseBackoff = 0, cfg_PushQueueSize = 0, cfg_PushWorkers = 0, cfg_PushShutdownTimeout = 0,
      cfg_MaxInboxEventsPerAgent = 0, cfg_MaxObserveEvents = 0, cfg_MaxInboxBytesPerAgent = 0,
      cfg_MaxObserveBytes = 0, cfg_MessageRetention = -1, cfg_MessageMaxAge = -1, cfg_ConversationRetention = -1,
      cfg_AgentRetention = -1, cfg_SweepMinInterval = 0, cfg_NamespaceMode = NamespaceModeCompat,
      cfg_LegacyScope = legacyScope (so_Authority opts), cfg_SharedGrantAgents = sharedAgents,
      cfg_ControlPlaneAgents = so_ControlPlaneAgents opts,
      cfg_ControlPlaneAgentSecretHashes =
        fold (\<lambda>agentID. AList.update agentID (sha256 (syntheticRegistrationSecret agentID))) (so_ControlPlaneAgents opts) []\<rparr>"

section \<open>Rounds\<close>

definition synthetic_agent :: "string \<Rightarrow> register_agent_input" where
  "synthetic_agent ident =
     \<lparr>ra_AgentID = ident, ra_Secret = syntheticRegistrationSecret ident, ra_AllowedScopes = [], ra_SharedGrants = [],
      ra_Capabilities = [''synthetic-rehearsal''], ra_Version = [],
      ra_Description = ''fabricated namespace migration fixture'', ra_AgentClass = ''worker'', ra_MutationClass = [],
      ra_Build = None,
      ra_Meta = Some \<lparr>am_Owner = ''synthetic-only'', am_Repo = ''github.com/joelkehle/pinakes'', am_HealthURL = [],
                     am_Dependencies = []\<rparr>,
      ra_Mode = AgentModePull, ra_CallbackURL = [], ra_TTLSeconds = 3600\<rparr>"

text \<open>\<open>index\<close> counts from 0.\<close>

definition register_round ::
  "synthetic_io \<Rightarrow> (string \<Rightarrow> string) \<Rightarrow> nat \<Rightarrow> string \<Rightarrow> sqlite_store \<Rightarrow> synthetic_error option \<times> sqlite_store" where
  "register_round io Quote index ident sq =
     (case sy_Cause io index of
        Some err \<Rightarrow> (Some (Failed err), sq)
      | None \<Rightarrow>
          (case SQLiteStore_RegisterAgent (at_noon (sy_Moment io index ''register'')) (synthetic_agent ident) sq of
             (Inl err, sq1) \<Rightarrow> (Some (StoreError (''register synthetic identity '' @ Quote ident) err), sq1)
           | (Inr ag, sq1) \<Rightarrow>
               (case SQLiteStore_SetAgentSecret (sy_Secret io index) ident (''synthetic-secret-'' @ fmt_03d (index + 1)) sq1 of
                  (Some err, sq2) \<Rightarrow> (Some (StoreError (''set synthetic secret for '' @ Quote ident) err), sq2)
                | (None, sq2) \<Rightarrow> (None, sq2))))"

fun register_rounds ::
  "synthetic_io \<Rightarrow> (string \<Rightarrow> string) \<Rightarrow> nat \<Rightarrow> string list \<Rightarrow> sqlite_store \<Rightarrow> synthetic_error option \<times> sqlite_store" where
  "register_rounds io Quote index [] sq = (None, sq)"
| "register_rounds io Quote index (ident # identities) sq =
     (case register_round io Quote index ident sq of
        (Some err, sq1) \<Rightarrow> (Some err, sq1)
      | (None, sq1) \<Rightarrow> register_rounds io Quote (index + 1) identities sq1)"

text \<open>Who writes to whom: the scopes in order, and in each the members in order, the last to the first.\<close>

definition synthetic_pairs :: "ranking \<Rightarrow> string list gomap \<Rightarrow> (string \<times> string \<times> string) list" where
  "synthetic_pairs rk groups =
     concat (map (\<lambda>scope. let members = get_or [] groups scope in
         map (\<lambda>index. (scope, members ! index, members ! ((index + 1) mod length members))) [0..<length members])
       (sort (range_keys rk groups)))"

definition synthetic_meta :: "string \<Rightarrow> json" where
  "synthetic_meta ident = JMap [(''synthetic'', JBool True), (''protected_identity_text'', JStr ident)]"

definition poll_of :: "string \<Rightarrow> int \<Rightarrow> poll_inbox_input" where
  "poll_of agentID cursor = \<lparr>pi_AgentID = agentID, pi_Cursor = cursor, pi_Wait = 0, pi_Limit = 0\<rparr>"

text \<open>A round that does not return is \<open>None\<close>; \<open>sequence\<close> counts from 1.\<close>

definition exchange_round ::
  "synthetic_io \<Rightarrow> (string \<Rightarrow> string) \<Rightarrow> nat \<Rightarrow> nat \<Rightarrow> string \<times> string \<times> string \<Rightarrow> sqlite_store \<Rightarrow>
     synthetic_error option option \<times> sqlite_store" where
  "exchange_round io Quote round sequence pair sq =
     (case pair of (scope, sender, target) \<Rightarrow>
      let mo = (\<lambda>call. at_noon (sy_Moment io round call));
          conversationID = ''synthetic-'' @ scope @ ''-'' @ fmt_03d sequence in
      case sy_Cause io round of
        Some err \<Rightarrow> (Some (Some (Failed err)), sq)
      | None \<Rightarrow>
     (case SQLiteStore_CreateConversation (mo ''create'')
             \<lparr>cc_ConversationID = conversationID, cc_Title = ''fabricated migration rehearsal'',
              cc_Participants = (if target \<noteq> sender then [sender, target] else [sender]),
              cc_Meta = synthetic_meta sender, cc_ActorAgentID = []\<rparr> sq of
        (Inl err, sq1) \<Rightarrow> (Some (Some (StoreError (''create synthetic conversation '' @ Quote conversationID) err)), sq1)
      | (Inr conv, sq1) \<Rightarrow>
     (case SQLiteStore_SendMessage (mo ''send'')
             \<lparr>sm_To = target, sm_From = sender, sm_ConversationID = conversationID,
              sm_RequestID = ''synthetic-request-'' @ fmt_03d sequence, sm_Type = MessageTypeInform,
              sm_Body = ''fabricated content; identity text must not be rewritten: '' @ sender,
              sm_Meta = synthetic_meta target, sm_Attachments = [], sm_TTLSeconds = 0, sm_InReplyTo = []\<rparr> sq1 of
        (Inl err, sq2) \<Rightarrow> (Some (Some (StoreError (''send synthetic message '' @ decimal (int sequence)) err)), sq2)
      | (Inr (message, dup), sq2) \<Rightarrow>
     (case SQLiteStore_PollInbox (mo ''poll'') (poll_of target 0) sq2 of
        (None, sq3) \<Rightarrow> (None, sq3)
      | (Some (Inl err), sq3) \<Rightarrow> (Some (Some (StoreError (''poll synthetic inbox '' @ Quote target) err)), sq3)
      | (Some (Inr (events, cursor)), sq3) \<Rightarrow>
          if events = [] \<or> i_MessageID (last events) \<noteq> m_MessageID message then
            (Some (Some (Failed (''synthetic delivery '' @ Quote (m_MessageID message) @ '' was not observable''))), sq3)
          else (case SQLiteStore_PollInbox (mo ''advance'') (poll_of target cursor) sq3 of
            (None, sq4) \<Rightarrow> (None, sq4)
          | (Some (Inl err), sq4) \<Rightarrow> (Some (Some (StoreError (''advance synthetic cursor '' @ Quote target) err)), sq4)
          | (Some (Inr r), sq4) \<Rightarrow> (Some None, sq4))))))"

text \<open>The number of rounds that were completed comes back too.\<close>

fun exchange_rounds ::
  "synthetic_io \<Rightarrow> (string \<Rightarrow> string) \<Rightarrow> nat \<Rightarrow> nat \<Rightarrow> (string \<times> string \<times> string) list \<Rightarrow> sqlite_store \<Rightarrow>
     (synthetic_error option \<times> nat) option \<times> sqlite_store" where
  "exchange_rounds io Quote start sent [] sq = (Some (None, sent), sq)"
| "exchange_rounds io Quote start sent (pair # pairs) sq =
     (case exchange_round io Quote (start + sent) (sent + 1) pair sq of
        (None, sq1) \<Rightarrow> (None, sq1)
      | (Some (Some err), sq1) \<Rightarrow> (Some (Some err, sent), sq1)
      | (Some None, sq1) \<Rightarrow> exchange_rounds io Quote start (sent + 1) pairs sq1)"


section \<open>The generator\<close>

text \<open>\<^verbatim>\<open>defer\<close>: the store is closed, and an incomplete database is removed.\<close>

definition synthetic_end ::
  "synthetic_io \<Rightarrow> SyntheticReport \<Rightarrow> synthetic_error option \<Rightarrow> bool \<Rightarrow> sqlite \<Rightarrow>
     (SyntheticReport \<times> synthetic_error option) option \<times> sqldb option" where
  "synthetic_end io report err complete q =
     (let q' = SQLiteStore_Close (sy_CloseExec io) synthetic_noon q;
          err' = (case (err, sy_CloseError io) of
                    (None, Some closeErr) \<Rightarrow> Some (Failed (''close synthetic sqlite store: '' @ closeErr))
                  | _ \<Rightarrow> err)
      in (Some (report, err'), if \<not> complete \<and> sy_Remove io then None else Some (sq_db q')))"

text \<open>The last argument is the file at the destination; a run that does not return is \<open>None\<close>.\<close>

definition GenerateSyntheticDB ::
  "synthetic_io \<Rightarrow> (string \<Rightarrow> string) \<Rightarrow> ranking \<Rightarrow> string \<Rightarrow> string \<Rightarrow> manifest \<Rightarrow> SyntheticOptions \<Rightarrow> sqldb option \<Rightarrow>
     (SyntheticReport \<times> synthetic_error option) option \<times> sqldb option" where
  "GenerateSyntheticDB io Quote rk humanAllowlist epoch manifest opts dest =
     (let report = \<lparr>sr_Authority = so_Authority opts, sr_Identities = 0, sr_Conversations = 0, sr_Messages = 0\<rparr>;
          failed = (\<lambda>err. (Some (report, Some err), dest)) in
      case ParseAuthority Quote (so_Authority opts) of Inl err \<Rightarrow> failed (Failed err) | Inr _ \<Rightarrow>
      if so_DBPath opts = [] then failed (Failed ''--db is required'')
      else (case sy_Stat io of
        Some err \<Rightarrow> failed (Failed (''stat synthetic database destination: '' @ err))
      | None \<Rightarrow>
      if dest \<noteq> None then failed (Failed ''synthetic database destination already exists'')
      else (case sy_Mkdir io of
        Some err \<Rightarrow> failed (Failed (''create synthetic database directory: '' @ err))
      | None \<Rightarrow>
     (let selected = fst (selectMappings manifest (so_Authority opts)
            (newReport \<lparr>op_DBPath = [], op_Authority = [], op_Apply = False, op_AcknowledgeCopy = False,
                        op_ControlPlaneAgents = []\<rparr>)) in
      if selected = [] then failed (Failed (''manifest has no rows for authority '' @ so_Authority opts))
      else (case validateControlPlaneAgreement Quote rk selected (so_ControlPlaneAgents opts) of
        Some refusals \<Rightarrow> failed (Refused refusals)
      | None \<Rightarrow>
     (let sources = map mp_SourceID selected;
          groups = synthetic_groups (so_Authority opts) sources;
          sharedAgents = filter (\<lambda>ident. synthetic_scope (so_Authority opts) ident = ''shared'') sources;
          identities = sort sources in
      case NewSQLiteStore rk humanAllowlist epoch (sy_Start io) synthetic_noon
             (synthetic_config (sy_sha256 io) opts sharedAgents) empty_db of
        (Inl err, q) \<Rightarrow>
          (Some (report, Some (NotCreated err)),
           (case err of InvalidConfig _ \<Rightarrow> None | LoadFailed _ \<Rightarrow> if st_open (sy_Start io) = None then Some (sq_db q) else None))
      | (Inr s, q) \<Rightarrow>
     (case register_rounds io Quote 0 identities (s, q) of
        (Some err, sq1) \<Rightarrow> synthetic_end io report (Some err) False (snd sq1)
      | (None, sq1) \<Rightarrow>
     (let report = report\<lparr>sr_Identities := length identities\<rparr> in
      case exchange_rounds io Quote (length identities) 0 (synthetic_pairs rk groups) sq1 of
        (None, sq2) \<Rightarrow> (None, Some (sq_db (snd sq2)))
      | (Some (err, sent), sq2) \<Rightarrow>
          synthetic_end io (report\<lparr>sr_Conversations := sent, sr_Messages := sent\<rparr>) err (err = None) (snd sq2)))))))))"

text \<open>The command-line program: its exit code, the report if it was written, and the file.\<close>

record fixture_flags =
  fx_db :: string
  fx_manifest :: string
  fx_authority :: string
  fx_NArg :: nat

definition fixture_run ::
  "synthetic_io \<Rightarrow> (string \<Rightarrow> string) \<Rightarrow> ranking \<Rightarrow> (string \<Rightarrow> string) \<Rightarrow> string \<Rightarrow> tool_io \<Rightarrow> bool \<Rightarrow>
     fixture_flags option \<Rightarrow> sqldb option \<Rightarrow> (int \<times> SyntheticReport option) option \<times> sqldb option" where
  "fixture_run sio Quote rk Getenv epoch io writable flags dest =
     (case flags of
        None \<Rightarrow> (Some (2, None), dest)
      | Some f \<Rightarrow>
          if fx_NArg f \<noteq> 0 \<or> fx_db f = [] \<or> fx_manifest f = [] then (Some (2, None), dest)
          else (case ParseAuthority Quote (fx_authority f) of
            Inl err \<Rightarrow> (Some (2, None), dest)
          | Inr authority \<Rightarrow>
              (case read_manifest Quote rk io of
                Manifest manifest \<Rightarrow>
                  (case GenerateSyntheticDB sio Quote rk (Getenv ''HUMAN_ALLOWLIST'') epoch manifest
                     \<lparr>so_DBPath = fx_db f, so_Authority = authority,
                      so_ControlPlaneAgents = SplitCSV (Getenv ''CONTROL_PLANE_AGENTS'')\<rparr> dest of
                     (None, dest') \<Rightarrow> (None, dest')
                   | (Some (report, Some err), dest') \<Rightarrow> (Some (1, None), dest')
                   | (Some (report, None), dest') \<Rightarrow> (if writable then Some (0, Some report) else Some (1, None), dest'))
              | _ \<Rightarrow> (Some (1, None), dest))))"

section \<open>What is generated\<close>

lemma synthetic_noon_text: "rfc3339nano synthetic_noon = ''2026-08-08T12:00:00Z''"
  by code_simp


lemma selected_rows:
  "map mp_row (fst (selectMappings manifest authority report)) =
     filter (\<lambda>row. mr_SourceAuthority row = authority) manifest"
proof -
  have "map mp_row (fst (fold (select_row authority) rows (done_rows, rep))) =
      map mp_row done_rows @ filter (\<lambda>row. mr_SourceAuthority row = authority) rows" for rows done_rows rep
    by (induction rows arbitrary: done_rows rep) (auto simp: select_row_def)
  then show ?thesis by (simp add: selectMappings_def)
qed

lemma exchange_rounds_sent:
  "exchange_rounds io Quote start sent pairs sq = (Some (None, n), sq') \<Longrightarrow> n = sent + length pairs"
  by (induction io Quote start sent pairs sq rule: exchange_rounds.induct)
    (auto split: prod.splits option.splits)

text \<open>Every identity is in one group, so every identity sends one message.\<close>

definition group_sizes :: "string list gomap \<Rightarrow> nat" where
  "group_sizes groups = (\<Sum>(scope, members) \<leftarrow> groups. length members)"

lemma group_sizes_update:
  assumes "keys_distinct groups"
  shows "group_sizes (AList.update k (get_or [] groups k @ [x]) groups) = Suc (group_sizes groups)"
  using assms
proof (induction groups)
  case (Cons g groups)
  obtain k' ms where g: "g = (k', ms)" by (cases g)
  show ?case
  proof (cases "k' = k")
    case False
    then have "get_or [] (g # groups) k = get_or [] groups k" by (simp add: g get_or_def)
    then show ?thesis using Cons False by (simp add: g group_sizes_def)
  qed (simp add: g group_sizes_def get_or_def)
qed (simp add: group_sizes_def get_or_def)

lemma group_sizes_groups:
  "keys_distinct (synthetic_groups authority identities) \<and> group_sizes (synthetic_groups authority identities) = length identities"
proof -
  let ?add = "\<lambda>ident groups. let scope = synthetic_scope authority ident in
                AList.update scope (get_or [] groups scope @ [ident]) groups"
  have "keys_distinct (fold ?add ids m) \<and> group_sizes (fold ?add ids m) = length ids + group_sizes m"
    if "keys_distinct m" for ids and m :: "string list gomap"
    using that by (induction ids arbitrary: m) (simp_all add: Let_def group_sizes_update)
  from this [of "[]" identities]
  show ?thesis by (simp add: synthetic_groups_def group_sizes_def comp_def case_prod_unfold)
qed

lemma length_pairs:
  assumes "keys_distinct groups"
  shows "length (synthetic_pairs rk groups) = group_sizes groups"
proof -
  have "length (synthetic_pairs rk groups) = (\<Sum>scope \<leftarrow> sort (range_keys rk groups). length (get_or [] groups scope))"
    by (simp add: synthetic_pairs_def length_concat comp_def Let_def)
  also have "\<dots> = (\<Sum>scope \<in> fst ` set groups. length (get_or [] groups scope))"
    using assms by (subst sum_list_distinct_conv_sum_set) simp_all
  also have "\<dots> = (\<Sum>scope \<leftarrow> map fst groups. length (get_or [] groups scope))"
    using assms by (subst sum_list_distinct_conv_sum_set) simp_all
  also have "\<dots> = group_sizes groups"
    unfolding group_sizes_def
    using assms by (auto simp: comp_def get_or_def case_prod_unfold intro!: arg_cong [of _ _ sum_list] map_cong)
  finally show ?thesis .
qed

text \<open>
  The generator never touches a file that exists. When it succeeds, the database is there and every row of
  the authority is an agent that sent one message in one conversation; when a round fails, no file is left.
\<close>

lemma synthetic_never_overwrites:
  "\<exists>report err. GenerateSyntheticDB io Quote rk allowlist epoch manifest opts (Some db) = (Some (report, Some err), Some db)"
  by (auto simp: GenerateSyntheticDB_def Let_def split: sum.splits option.splits)

lemma synthetic_complete:
  assumes "GenerateSyntheticDB io Quote rk allowlist epoch manifest opts dest = (Some (report, None), dest')"
  defines "n \<equiv> length (filter (\<lambda>row. mr_SourceAuthority row = so_Authority opts) manifest)"
  shows "dest = None" and "dest' \<noteq> None"
    and "sr_Identities report = n \<and> sr_Conversations report = n \<and> sr_Messages report = n" and "0 < n"
proof -
  let ?selected = "fst (selectMappings manifest (so_Authority opts)
    (newReport \<lparr>op_DBPath = [], op_Authority = [], op_Apply = False, op_AcknowledgeCopy = False, op_ControlPlaneAgents = []\<rparr>))"
  let ?groups = "synthetic_groups (so_Authority opts) (map mp_SourceID ?selected)"
  have selected: "length ?selected = n"
    using arg_cong [OF selected_rows, of length manifest "so_Authority opts"] by (simp add: n_def)
  have pairs: "length (synthetic_pairs rk ?groups) = n"
    using length_pairs [of ?groups rk] group_sizes_groups [of "so_Authority opts" "map mp_SourceID ?selected"] selected by simp
  show "dest = None"
  proof (cases dest)
    case (Some db)
    then show ?thesis
      using assms(1) synthetic_never_overwrites [of io Quote rk allowlist epoch manifest opts db] by auto
  qed simp
  show "0 < n" using assms(1) selected
    by (auto simp: GenerateSyntheticDB_def Let_def split: sum.splits option.splits if_splits)
  obtain sent err sq1 sq2 where x: "exchange_rounds io Quote (length (sort (map mp_SourceID ?selected))) 0 (synthetic_pairs rk ?groups) sq1 =
      (Some (err, sent), sq2)" and fin: "synthetic_end io \<lparr>sr_Authority = so_Authority opts, sr_Identities = n, sr_Conversations = sent,
      sr_Messages = sent\<rparr> err (err = None) (snd sq2) = (Some (report, None), dest')"
    using assms(1) selected
    by (auto simp: GenerateSyntheticDB_def Let_def synthetic_end_def split: sum.splits option.splits if_splits prod.splits)
  have "err = None" using fin by (cases err) (auto simp: synthetic_end_def Let_def)
  then show "dest' \<noteq> None" "sr_Identities report = n \<and> sr_Conversations report = n \<and> sr_Messages report = n"
    using fin exchange_rounds_sent [of io Quote _ 0 _ _ sent] x pairs
    by (auto simp: synthetic_end_def Let_def split: option.splits)
qed

lemma synthetic_end_removed:
  "sy_Remove io \<Longrightarrow> snd (synthetic_end io report err False q) = None"
  by (simp add: synthetic_end_def Let_def)

end
