(* ===== verification/Busclient.thy ===== *)
theory Busclient
  imports Go_Encode Http_Handlers
begin

text \<open>
  The HTTP client other programs use to reach the bus (\<^verbatim>\<open>pkg/busclient/client.go\<close>).

  A client is its base address and its timeout. Every operation renders its request, signs it where the
  server asks for a signature, sends one request through \<open>DoJSON\<close> and reads the answer. The network is a
  state \<open>'w\<close> and the record \<open>network\<close> of what \<^verbatim>\<open>net/http\<close> does with it: building a request may fail, and
  sending one gives an error or a status, the body and the error that cut the body off. As on the server,
  HMAC-SHA256 and the decoding of JSON answers into structs are functions of the bytes: \<open>hm\<close> and the
  record \<open>client_json\<close>. A nil slice, map or payload is \<open>None\<close>.
\<close>

section \<open>Data\<close>

record client_attachment =
  ca_URL :: string
  ca_Name :: string
  ca_ContentType :: string
  ca_Size :: int

record client_event =
  ce_MessageID :: string
  ce_Type :: string
  ce_From :: string
  ce_ConversationID :: string
  ce_Body :: string
  ce_Meta :: json
  ce_Attachments :: "client_attachment list"
  ce_CreatedAt :: time

record client_build =
  cb_Commit :: string
  cb_Dirty :: bool

record client_meta =
  cm_Owner :: string
  cm_Repo :: string
  cm_HealthURL :: string
  cm_Dependencies :: "string list"

record client_agent =
  cg_AgentID :: string
  cg_AllowedScopes :: "string list"
  cg_SharedGrants :: "string list"
  cg_Capabilities :: "string list"
  cg_Version :: string
  cg_Description :: string
  cg_AgentClass :: string
  cg_MutationClass :: string
  cg_Build :: "client_build option"
  cg_Meta :: "client_meta option"
  cg_Status :: string

record client_register =
  cn_AgentID :: string
  cn_Secret :: string
  cn_AllowedScopes :: "string list"
  cn_SharedGrants :: "string list"
  cn_Capabilities :: "string list option"
  cn_Version :: string
  cn_Description :: string
  cn_AgentClass :: string
  cn_MutationClass :: string
  cn_Build :: "client_build option"
  cn_Meta :: "client_meta option"
  cn_Mode :: string
  cn_CallbackURL :: string
  cn_TTL :: int

record client_conversation =
  cv_ConversationID :: string
  cv_Title :: string
  cv_Participants :: "string list"
  cv_Meta :: json

record bus_client =
  cl_baseURL :: string
  cl_Timeout :: duration

section \<open>JSON documents\<close>

definition json_slice :: "('a \<Rightarrow> json) \<Rightarrow> 'a list option \<Rightarrow> json" where
  "json_slice f v = (case v of None \<Rightarrow> JNull | Some xs \<Rightarrow> JArr (map f xs))"

definition json_map :: "(string \<times> json) list option \<Rightarrow> json" where
  "json_map v = (case v of None \<Rightarrow> JNull | Some kvs \<Rightarrow> JMap kvs)"

definition client_attachment_json :: "client_attachment \<Rightarrow> json" where
  "client_attachment_json a =
     JStruct ([(''url'', JStr (ca_URL a))]
       @ omit_str ''name'' (ca_Name a)
       @ omit_str ''content_type'' (ca_ContentType a)
       @ (if ca_Size a = 0 then [] else [(''size'', JNum (fmt_d (ca_Size a)))]))"

definition client_build_json :: "client_build \<Rightarrow> json" where
  "client_build_json b = JStruct (omit_str ''commit'' (cb_Commit b) @ [(''dirty'', JBool (cb_Dirty b))])"

definition client_meta_json :: "client_meta \<Rightarrow> json" where
  "client_meta_json m =
     JStruct (omit_str ''owner'' (cm_Owner m) @ omit_str ''repo'' (cm_Repo m)
       @ omit_str ''health_url'' (cm_HealthURL m) @ omit_strs ''dependencies'' (cm_Dependencies m))"

definition client_register_json :: "client_register \<Rightarrow> json" where
  "client_register_json r =
     JStruct ([(''agent_id'', JStr (cn_AgentID r)), (''secret'', JStr (cn_Secret r))]
       @ omit_strs ''allowed_scopes'' (cn_AllowedScopes r)
       @ omit_strs ''shared_grants'' (cn_SharedGrants r)
       @ [(''capabilities'', json_slice JStr (cn_Capabilities r))]
       @ omit_str ''version'' (cn_Version r)
       @ omit_str ''description'' (cn_Description r)
       @ omit_str ''agent_class'' (cn_AgentClass r)
       @ omit_str ''mutation_class'' (cn_MutationClass r)
       @ (case cn_Build r of None \<Rightarrow> [] | Some b \<Rightarrow> [(''build'', client_build_json b)])
       @ (case cn_Meta r of None \<Rightarrow> [] | Some m \<Rightarrow> [(''meta'', client_meta_json m)])
       @ [(''mode'', JStr (cn_Mode r))]
       @ omit_str ''callback_url'' (cn_CallbackURL r)
       @ [(''ttl'', JNum (fmt_d (cn_TTL r)))])"

definition client_conversation_json :: "client_conversation \<Rightarrow> json" where
  "client_conversation_json c =
     JStruct (omit_str ''conversation_id'' (cv_ConversationID c)
       @ omit_str ''title'' (cv_Title c)
       @ omit_strs ''participants'' (cv_Participants c)
       @ omit_any ''meta'' (cv_Meta c))"

section \<open>The network\<close>

record client_request =
  cq_Method :: string
  cq_URL :: string
  cq_Header :: "string gomap"
  cq_Body :: string

record client_response =
  cp_StatusCode :: int
  cp_Body :: string
  cp_readErr :: "string option"

record 'w network =
  nw_NewRequest :: "string \<Rightarrow> string \<Rightarrow> string option"
  nw_Do :: "duration \<Rightarrow> client_request \<Rightarrow> 'w \<Rightarrow> (string + client_response) \<times> 'w"

record client_json =
  cj_message_id :: "string \<Rightarrow> string + string"
  cj_conversation_id :: "string \<Rightarrow> string + string"
  cj_inbox :: "string \<Rightarrow> string + client_event list \<times> string"
  cj_agents :: "string \<Rightarrow> string + client_agent list"

section \<open>Operations\<close>

definition defaultHTTPTimeout :: duration where
  "defaultHTTPTimeout = 15 * Second"

definition NewClientWithTimeout :: "string \<Rightarrow> duration \<Rightarrow> bus_client" where
  "NewClientWithTimeout baseURL timeout =
     (let timeout = (if timeout \<le> 0 then defaultHTTPTimeout else timeout) in
      \<lparr>cl_baseURL = TrimRight baseURL ''/'', cl_Timeout = timeout\<rparr>)"

definition NewClient :: "string \<Rightarrow> bus_client" where
  "NewClient baseURL = NewClientWithTimeout baseURL defaultHTTPTimeout"

definition Sign :: "(string \<Rightarrow> string \<Rightarrow> string) \<Rightarrow> string \<Rightarrow> string option \<Rightarrow> string" where
  "Sign hm secret payload = EncodeToString (hm secret (case payload of None \<Rightarrow> [] | Some b \<Rightarrow> b))"

definition header_set :: "string \<Rightarrow> string \<Rightarrow> string gomap \<Rightarrow> string gomap" where
  "header_set k v h = AList.update k v h"

definition DoJSON ::
  "'w network \<Rightarrow> bus_client \<Rightarrow> string \<Rightarrow> string \<Rightarrow> string option \<Rightarrow> string gomap \<Rightarrow> 'w \<Rightarrow>
     (string \<times> int \<times> string option) \<times> 'w" where
  "DoJSON nw c meth path payload headers w =
     (let url = cl_baseURL c @ path in
      case nw_NewRequest nw meth url of
        Some err \<Rightarrow> (([], 0, Some err), w)
      | None \<Rightarrow>
          (let h0 = (if payload \<noteq> None then header_set ''Content-Type'' ''application/json'' [] else []);
               h = fold (\<lambda>(k, v). header_set k v) headers h0;
               req = \<lparr>cq_Method = meth, cq_URL = url, cq_Header = h,
                      cq_Body = (case payload of None \<Rightarrow> [] | Some b \<Rightarrow> b)\<rparr> in
           case nw_Do nw (cl_Timeout c) req w of
             (Inl err, w') \<Rightarrow> (([], 0, Some err), w')
           | (Inr resp, w') \<Rightarrow>
               (let blob = cp_Body resp; st = cp_StatusCode resp in
                case cp_readErr resp of
                  Some e \<Rightarrow> ((blob, st, Some (''read '' @ meth @ '' '' @ path @ '' response: '' @ e)), w')
                | None \<Rightarrow>
                    if st \<ge> 400 then
                      ((blob, st, Some (meth @ '' '' @ path @ '' failed status='' @ fmt_d st @ '' body='' @ blob)), w')
                    else ((blob, st, None), w'))))"

definition RegisterAgentWithPassport ::
  "'w network \<Rightarrow> bus_client \<Rightarrow> client_register \<Rightarrow> 'w \<Rightarrow> string option \<times> 'w" where
  "RegisterAgentWithPassport nw c req w =
     (let req = (if TrimSpace (cn_Mode req) = [] then req\<lparr>cn_Mode := ''pull''\<rparr> else req);
          req = (if cn_TTL req \<le> 0 then req\<lparr>cn_TTL := 120\<rparr> else req) in
      case DoJSON nw c ''POST'' ''/v1/agents/register'' (Marshal (client_register_json req)) [] w of
        ((_, _, err), w') \<Rightarrow> (err, w'))"

definition RegisterAgentWithDescription ::
  "'w network \<Rightarrow> bus_client \<Rightarrow> string \<Rightarrow> string \<Rightarrow> string list option \<Rightarrow> string \<Rightarrow> 'w \<Rightarrow> string option \<times> 'w" where
  "RegisterAgentWithDescription nw c agentID secret capabilities description w =
     RegisterAgentWithPassport nw c
       \<lparr>cn_AgentID = agentID, cn_Secret = secret, cn_AllowedScopes = [], cn_SharedGrants = [],
        cn_Capabilities = capabilities, cn_Version = [], cn_Description = TrimSpace description,
        cn_AgentClass = [], cn_MutationClass = [], cn_Build = None, cn_Meta = None,
        cn_Mode = ''pull'', cn_CallbackURL = [], cn_TTL = 120\<rparr> w"

definition RegisterAgent_call ::
  "'w network \<Rightarrow> bus_client \<Rightarrow> string \<Rightarrow> string \<Rightarrow> string list option \<Rightarrow> 'w \<Rightarrow> string option \<times> 'w" where
  "RegisterAgent_call nw c agentID secret capabilities w =
     RegisterAgentWithDescription nw c agentID secret capabilities [] w"

text \<open>Reading the identifier an answer gives, under the name the error message uses.\<close>

definition answer_id :: "(string \<Rightarrow> string + string) \<Rightarrow> string \<Rightarrow> string \<Rightarrow> string + string" where
  "answer_id decode name out =
     (case decode out of
        Inl err \<Rightarrow> Inl err
      | Inr ident \<Rightarrow>
          if TrimSpace ident = [] then Inl (''missing '' @ name @ '' in response'') else Inr ident)"

definition send_payload ::
  "string \<Rightarrow> string \<Rightarrow> string \<Rightarrow> string \<Rightarrow> string \<Rightarrow> string \<Rightarrow> client_attachment list option \<Rightarrow>
     (string \<times> json) list option \<Rightarrow> json" where
  "send_payload sender target conversationID requestID messageType bodyText attachments meta =
     JMap [(''to'', JStr target), (''from'', JStr sender), (''conversation_id'', JStr conversationID),
           (''request_id'', JStr requestID), (''type'', JStr messageType), (''body'', JStr bodyText),
           (''attachments'', json_slice client_attachment_json attachments), (''meta'', json_map meta)]"

definition SendMessage_call ::
  "(string \<Rightarrow> string \<Rightarrow> string) \<Rightarrow> client_json \<Rightarrow> 'w network \<Rightarrow> bus_client \<Rightarrow> string \<Rightarrow> string \<Rightarrow> string \<Rightarrow>
     string \<Rightarrow> string \<Rightarrow> string \<Rightarrow> string \<Rightarrow> client_attachment list option \<Rightarrow> (string \<times> json) list option \<Rightarrow>
     'w \<Rightarrow> (string + string) \<times> 'w" where
  "SendMessage_call hm cj nw c sender secret target conversationID requestID messageType bodyText attachments meta w =
     (let blob = Marshal (send_payload sender target conversationID requestID messageType bodyText attachments meta);
          headers = [(''X-Bus-Signature'', Sign hm secret blob)] in
      case DoJSON nw c ''POST'' ''/v1/messages'' blob headers w of
        ((_, _, Some err), w') \<Rightarrow> (Inl err, w')
      | ((out, _, None), w') \<Rightarrow> (answer_id (cj_message_id cj) ''message_id'' out, w'))"

definition CreateConversation_call ::
  "(string \<Rightarrow> string \<Rightarrow> string) \<Rightarrow> client_json \<Rightarrow> 'w network \<Rightarrow> bus_client \<Rightarrow> string \<Rightarrow> string \<Rightarrow>
     client_conversation \<Rightarrow> 'w \<Rightarrow> (string + string) \<times> 'w" where
  "CreateConversation_call hm cj nw c agentID secret req w =
     (let blob = Marshal (client_conversation_json req);
          headers = [(''X-Agent-ID'', agentID), (''X-Bus-Signature'', Sign hm secret blob)] in
      case DoJSON nw c ''POST'' ''/v1/conversations'' blob headers w of
        ((_, _, Some err), w') \<Rightarrow> (Inl err, w')
      | ((out, _, None), w') \<Rightarrow> (answer_id (cj_conversation_id cj) ''conversation_id'' out, w'))"

text \<open>\<^verbatim>\<open>url.Values\<close> after the calls of \<^verbatim>\<open>Set\<close>, and the query it is encoded to.\<close>

definition poll_values :: "string \<Rightarrow> int \<Rightarrow> int \<Rightarrow> int \<Rightarrow> string gomap" where
  "poll_values agentID cursor waitSec limit =
     [(''agent_id'', agentID), (''cursor'', Itoa cursor), (''wait'', Itoa waitSec)]
       @ (if limit > 0 then [(''limit'', Itoa limit)] else [])"

text \<open>The events, the cursor for the next poll and the error.\<close>

definition PollInboxLimited ::
  "(string \<Rightarrow> string \<Rightarrow> string) \<Rightarrow> client_json \<Rightarrow> 'w network \<Rightarrow> bus_client \<Rightarrow> string \<Rightarrow> string \<Rightarrow> int \<Rightarrow> int \<Rightarrow>
     int \<Rightarrow> 'w \<Rightarrow> (client_event list \<times> int \<times> string option) \<times> 'w" where
  "PollInboxLimited hm cj nw c agentID secret cursor waitSec limit w =
     (let rawQuery = Values_Encode (poll_values agentID cursor waitSec limit);
          path = ''/v1/inbox?'' @ rawQuery;
          headers = [(''X-Bus-Signature'', Sign hm secret (Some rawQuery))] in
      case DoJSON nw c ''GET'' path None headers w of
        ((_, _, Some err), w') \<Rightarrow> (([], cursor, Some err), w')
      | ((out, _, None), w') \<Rightarrow>
          (case cj_inbox cj out of
             Inl err \<Rightarrow> (([], cursor, Some err), w')
           | Inr (events, cur) \<Rightarrow>
               ((events, case Atoi (TrimSpace cur) of None \<Rightarrow> cursor | Some next_cursor \<Rightarrow> next_cursor, None), w')))"

definition PollInbox_call ::
  "(string \<Rightarrow> string \<Rightarrow> string) \<Rightarrow> client_json \<Rightarrow> 'w network \<Rightarrow> bus_client \<Rightarrow> string \<Rightarrow> string \<Rightarrow> int \<Rightarrow> int \<Rightarrow>
     'w \<Rightarrow> (client_event list \<times> int \<times> string option) \<times> 'w" where
  "PollInbox_call hm cj nw c agentID secret cursor waitSec w =
     PollInboxLimited hm cj nw c agentID secret cursor waitSec 0 w"

definition ack_payload :: "string \<Rightarrow> string \<Rightarrow> string \<Rightarrow> string \<Rightarrow> json" where
  "ack_payload agentID messageID status reason =
     JMap [(''agent_id'', JStr agentID), (''message_id'', JStr messageID), (''status'', JStr status),
           (''reason'', JStr reason)]"

definition Ack_call ::
  "(string \<Rightarrow> string \<Rightarrow> string) \<Rightarrow> 'w network \<Rightarrow> bus_client \<Rightarrow> string \<Rightarrow> string \<Rightarrow> string \<Rightarrow> string \<Rightarrow> string \<Rightarrow>
     'w \<Rightarrow> string option \<times> 'w" where
  "Ack_call hm nw c agentID secret messageID status reason w =
     (let blob = Marshal (ack_payload agentID messageID status reason);
          headers = [(''X-Bus-Signature'', Sign hm secret blob)] in
      case DoJSON nw c ''POST'' ''/v1/acks'' blob headers w of ((_, _, err), w') \<Rightarrow> (err, w'))"

definition event_payload :: "string \<Rightarrow> string \<Rightarrow> string \<Rightarrow> (string \<times> json) list option \<Rightarrow> json" where
  "event_payload messageID eventType body meta =
     JMap [(''message_id'', JStr messageID), (''type'', JStr eventType), (''body'', JStr body),
           (''meta'', json_map meta)]"

definition Event_call ::
  "(string \<Rightarrow> string \<Rightarrow> string) \<Rightarrow> 'w network \<Rightarrow> bus_client \<Rightarrow> string \<Rightarrow> string \<Rightarrow> string \<Rightarrow> string \<Rightarrow> string \<Rightarrow>
     (string \<times> json) list option \<Rightarrow> 'w \<Rightarrow> string option \<times> 'w" where
  "Event_call hm nw c agentID secret messageID eventType body meta w =
     (let blob = Marshal (event_payload messageID eventType body meta);
          headers = [(''X-Agent-ID'', agentID), (''X-Bus-Signature'', Sign hm secret blob)] in
      case DoJSON nw c ''POST'' ''/v1/events'' blob headers w of ((_, _, err), w') \<Rightarrow> (err, w'))"

definition ListAgents_call ::
  "client_json \<Rightarrow> 'w network \<Rightarrow> bus_client \<Rightarrow> string \<Rightarrow> 'w \<Rightarrow> (string + client_agent list) \<times> 'w" where
  "ListAgents_call cj nw c capability w =
     (let path = ''/v1/agents'' @ (if capability \<noteq> [] then ''?capability='' @ QueryEscape capability else []) in
      case DoJSON nw c ''GET'' path None [] w of
        ((_, _, Some err), w') \<Rightarrow> (Inl err, w')
      | ((out, _, None), w') \<Rightarrow> (cj_agents cj out, w'))"

end
