(* ===== verification/Client_Server.thy ===== *)
theory Client_Server
  imports Busclient Bus_Examples
begin

text \<open>
  The client of \<open>Busclient\<close> talking to the server of \<open>Http_Handlers\<close>. What \<open>DoJSON\<close> needs of the network is
  the locale \<open>delivering_network\<close>: a request is built, is answered, and the answer arrives whole. The
  connection to a server is an interpretation of it. The theorems follow a call from its arguments to the
  input of the store behind the server and back to its result.
\<close>

section \<open>The interface\<close>

text \<open>\<^verbatim>\<open>net/http\<close> refuses a header value with a control character other than a tab.\<close>

definition header_ok :: "string \<Rightarrow> bool" where
  "header_ok v = list_all (\<lambda>c. c = CHR 0x09 \<or> \<not> byte_in 0 31 c \<and> c \<noteq> CHR 0x7F) v"

definition request_headers :: "string option \<Rightarrow> string gomap \<Rightarrow> string gomap" where
  "request_headers payload headers =
     fold (\<lambda>(k, v). header_set k v) headers
       (if payload \<noteq> None then header_set ''Content-Type'' ''application/json'' [] else [])"

definition client_request_of ::
  "bus_client \<Rightarrow> string \<Rightarrow> string \<Rightarrow> string option \<Rightarrow> string gomap \<Rightarrow> client_request" where
  "client_request_of c meth path payload headers =
     \<lparr>cq_Method = meth, cq_URL = cl_baseURL c @ path, cq_Header = request_headers payload headers,
      cq_Body = (case payload of None \<Rightarrow> [] | Some b \<Rightarrow> b)\<rparr>"

locale delivering_network =
  fixes nw :: "'w network" and answer :: "client_request \<Rightarrow> 'w \<Rightarrow> (int \<times> string) option \<times> 'w"
  assumes builds: "meth \<in> {''GET'', ''POST''} \<Longrightarrow> nw_NewRequest nw meth url = None"
    and delivers: "\<forall>v \<in> snd ` set (cq_Header q). header_ok v \<Longrightarrow> answer q w = (Some (st, body), w') \<Longrightarrow>
      nw_Do nw t q w = (Inr \<lparr>cp_StatusCode = st, cp_Body = body, cp_readErr = None\<rparr>, w')"
    and loses: "\<forall>v \<in> snd ` set (cq_Header q). header_ok v \<Longrightarrow> answer q w = (None, w') \<Longrightarrow>
      \<exists>err. nw_Do nw t q w = (Inl err, w')"
begin

lemma DoJSON_answered:
  assumes "meth \<in> {''GET'', ''POST''}" and "\<forall>v \<in> snd ` set (request_headers payload headers). header_ok v"
    and "answer (client_request_of c meth path payload headers) w = (res, w')"
  shows "\<exists>err. DoJSON nw c meth path payload headers w =
    (case res of
       None \<Rightarrow> (([], 0, Some err), w')
     | Some (st, body) \<Rightarrow> ((body, st, if st < 400 then None else Some err), w'))"
proof (cases res)
  case None
  then show ?thesis
    using builds [OF assms(1)] loses [of "client_request_of c meth path payload headers" w w' "cl_Timeout c"] assms(2,3)
    by (auto simp: DoJSON_def Let_def client_request_of_def request_headers_def)
next
  case (Some p)
  then obtain st body where p: "res = Some (st, body)" by (cases p) auto
  show ?thesis
    using builds [OF assms(1)] delivers [of "client_request_of c meth path payload headers" w st body w' "cl_Timeout c"] assms(2,3)
    by (simp add: p DoJSON_def Let_def client_request_of_def request_headers_def)
qed

end

section \<open>A connection to a server\<close>

text \<open>
  The path and the query of the address after the base, the header fields without surrounding blanks, and
  the body. The answer is what the handler wrote: a document followed by a newline (\<^verbatim>\<open>json.Encoder\<close>), or
  nothing when the document cannot be rendered. A long poll that is still blocked when the client's
  timeout expires is an error.
\<close>

definition trim_blanks :: "string \<Rightarrow> string" where
  "trim_blanks s =
     (let blank = (\<lambda>c. c = CHR '' '' \<or> c = CHR 0x09) in rev (dropWhile blank (rev (dropWhile blank s))))"

definition server_request :: "string \<Rightarrow> client_request \<Rightarrow> http_request" where
  "server_request base q =
     (case Cut (drop (length base) (cq_URL q)) (CHR ''?'') of
        (path, query, _) \<Rightarrow>
          \<lparr>rq_Method = cq_Method q, rq_Path = path, rq_RawQuery = query,
           rq_Header = map (\<lambda>(k, v). (k, trim_blanks v)) (cq_Header q), rq_Body = Some (cq_Body q, None)\<rparr>)"

definition json_bytes :: "json \<Rightarrow> string" where
  "json_bytes doc = (case Marshal doc of None \<Rightarrow> [] | Some b \<Rightarrow> b @ [CHR 0x0A])"

fun body_bytes :: "response_body \<Rightarrow> string" where
  "body_bytes EmptyBody = []"
| "body_bytes (JsonBody doc) = json_bytes doc"
| "body_bytes (TextBody s) = s"

definition server_answer ::
  "'s bus_api \<Rightarrow> http_env \<Rightarrow> string \<Rightarrow> client_request \<Rightarrow> 's server \<Rightarrow> (int \<times> string) option \<times> 's server" where
  "server_answer api env base q sv =
     (case ServeHTTP api env True [] (server_request base q) sv of
        (None, sv') \<Rightarrow> (None, sv')
      | (Some resp, sv') \<Rightarrow> (Some (rs_Status resp, body_bytes (rs_Body resp)), sv'))"

definition server_network :: "'s bus_api \<Rightarrow> http_env \<Rightarrow> string \<Rightarrow> 's server network" where
  "server_network api env base =
     \<lparr>nw_NewRequest = (\<lambda>meth url. None),
      nw_Do = (\<lambda>t q sv.
        if list_ex (\<lambda>(k, v). \<not> header_ok v) (cq_Header q) then (Inl ''net/http: invalid header field value'', sv)
        else (case server_answer api env base q sv of
                (None, sv') \<Rightarrow> (Inl ''context deadline exceeded'', sv')
              | (Some (st, body), sv') \<Rightarrow>
                  (Inr \<lparr>cp_StatusCode = st, cp_Body = body, cp_readErr = None\<rparr>, sv')))\<rparr>"

interpretation conn: delivering_network "server_network api env base" "server_answer api env base"
  for api :: "'s bus_api" and env base
  by unfold_locales (auto simp: server_network_def list_ex_iff)

section \<open>What the wire keeps\<close>

lemma trim_blanks_id:
  assumes "TrimSpace v = v"
  shows "trim_blanks v = v"
proof (cases "v = []")
  case False
  have sp: "[CHR '' ''] \<in> set space_runes" "[CHR 0x09] \<in> set space_runes" by (simp_all add: space_runes_def)
  have "\<not> is_prefix [CHR '' ''] v" "\<not> is_prefix [CHR 0x09] v"
    using TrimSpace_prefix_free [of v] sp unfolding assms starts_with_any_None by blast+
  then have front: "dropWhile (\<lambda>c. c = CHR '' '' \<or> c = CHR 0x09) v = v"
    using False by (cases v) (auto simp: is_prefix_iff)
  have "\<not> is_prefix (rev [CHR '' '']) (rev v)" "\<not> is_prefix (rev [CHR 0x09]) (rev v)"
    using TrimSpace_suffix_free [of v] sp unfolding assms starts_with_any_None set_map by blast+
  then have "dropWhile (\<lambda>c. c = CHR '' '' \<or> c = CHR 0x09) (rev v) = rev v"
    using False by (cases v rule: rev_cases) (auto simp: is_prefix_iff)
  with front show ?thesis by (simp add: trim_blanks_def)
qed (simp add: trim_blanks_def)

lemma printable_header_ok: "list_all printable v \<Longrightarrow> header_ok v"
  by (auto simp: header_ok_def list_all_iff printable_def byte_in_def)

lemma Sign_printable: "list_all printable (Sign hm secret payload)"
  using set_EncodeToString hex_chars_printable by (fastforce simp: Sign_def list_all_iff)

lemma Sign_wire: "header_ok (Sign hm secret payload)" "trim_blanks (Sign hm secret payload) = Sign hm secret payload"
  by (simp_all add: printable_header_ok Sign_printable trim_blanks_id TrimSpace_printable)

lemma hex_not_prefixed: "set s \<subseteq> set hex_chars \<Longrightarrow> \<not> HasPrefix s ''sha256=''"
  by (auto simp: HasPrefix_iff hex_chars_def)

text \<open>What a client signed is the signature the server computes.\<close>

lemma signature_bytes_Sign:
  "signature_bytes (Sign hm secret payload) = Some (hm secret (case payload of None \<Rightarrow> [] | Some b \<Rightarrow> b))"
  by (simp add: signature_bytes_def Sign_def EncodeToString_plain hex_not_prefixed set_EncodeToString
      DecodeString_EncodeToString)

text \<open>An agent that is registered with a secret, and a hash that gives at least a byte.\<close>

definition holds_secret :: "http_env \<Rightarrow> 's server \<Rightarrow> string \<Rightarrow> string \<Rightarrow> bool" where
  "holds_secret env sv agentID secret \<longleftrightarrow>
     map_of (sv_agentSecrets sv) (TrimSpace agentID) = Some secret \<and> TrimSpace agentID \<noteq> [] \<and>
     TrimSpace secret \<noteq> [] \<and> (\<forall>p. he_hmac env secret p \<noteq> [])"

lemma holds_secret_trim [simp]: "holds_secret env sv (TrimSpace agentID) secret = holds_secret env sv agentID secret"
  by (simp add: holds_secret_def)

lemma verifySignature_Sign:
  assumes "holds_secret env sv agentID secret"
  shows "verifySignature (he_hmac env) sv agentID (Sign (he_hmac env) secret payload)
    (case payload of None \<Rightarrow> [] | Some b \<Rightarrow> b) = None"
proof -
  have "TrimSpace (Sign (he_hmac env) secret payload) \<noteq> []"
    using assms by (simp add: TrimSpace_printable Sign_printable) (simp add: Sign_def EncodeToString_Nil_iff holds_secret_def)
  with assms show ?thesis
    unfolding verifySignature_None signed_by_def holds_secret_def by (simp add: signature_bytes_Sign)
qed

section \<open>Numbers in a query\<close>

definition int64 :: "int \<Rightarrow> bool" where
  "int64 n \<longleftrightarrow> - (2 ^ 63) \<le> n \<and> n < 2 ^ 63"

lemma Itoa_printable: "list_all printable (Itoa n)" "Itoa n \<noteq> []"
proof -
  have d: "printable c" if "is_digit c" for c using that by (simp add: is_digit_def printable_def byte_in_def)
  have "printable (CHR ''-'')" by (simp add: printable_def byte_in_def)
  then show "list_all printable (Itoa n)"
    using is_digit_decimal [of n] is_digit_decimal [of "- n"] d by (auto simp: Itoa_def fmt_d_def list_all_iff)
  show "Itoa n \<noteq> []" using is_digit_decimal [of n] by (auto simp: Itoa_def fmt_d_def)
qed

lemma parse_int_Itoa: "int64 n \<Longrightarrow> parse_int (Itoa n) d = n"
  by (simp add: parse_int_def TrimSpace_printable Itoa_printable Atoi_Itoa int64_def)

lemma parseWaitSeconds_Itoa: "int64 n \<Longrightarrow> parseWaitSeconds (Itoa n) = seconds_dur (max 0 n)"
  by (auto simp: parseWaitSeconds_def TrimSpace_printable Itoa_printable Atoi_Itoa int64_def)


section \<open>Calls and their requests\<close>

lemma Cut_none: "sep \<notin> set s \<Longrightarrow> Cut s sep = (s, [], False)"
  by (induction s) auto

lemma server_request_plain:
  assumes "CHR ''?'' \<notin> set path"
  shows "server_request (cl_baseURL c) (client_request_of c meth path payload headers) =
    \<lparr>rq_Method = meth, rq_Path = path, rq_RawQuery = [],
     rq_Header = map (\<lambda>(k, v). (k, trim_blanks v)) (request_headers payload headers),
     rq_Body = Some (case payload of None \<Rightarrow> [] | Some b \<Rightarrow> b, None)\<rparr>"
  using assms by (simp add: server_request_def client_request_of_def Cut_none)

lemma server_request_query:
  assumes "CHR ''?'' \<notin> set path"
  shows "server_request (cl_baseURL c) (client_request_of c meth (path @ CHR ''?'' # query) payload headers) =
    \<lparr>rq_Method = meth, rq_Path = path, rq_RawQuery = query,
     rq_Header = map (\<lambda>(k, v). (k, trim_blanks v)) (request_headers payload headers),
     rq_Body = Some (case payload of None \<Rightarrow> [] | Some b \<Rightarrow> b, None)\<rparr>"
  using assms by (simp add: server_request_def client_request_of_def Cut_append)

lemma request_headers_eval:
  "request_headers None [] = []"
  "request_headers None [(''X-Bus-Signature'', s)] = [(''X-Bus-Signature'', s)]"
  "request_headers (Some b) [] = [(''Content-Type'', ''application/json'')]"
  "request_headers (Some b) [(''X-Bus-Signature'', s)] =
     [(''Content-Type'', ''application/json''), (''X-Bus-Signature'', s)]"
  "request_headers (Some b) [(''X-Agent-ID'', a), (''X-Bus-Signature'', s)] =
     [(''Content-Type'', ''application/json''), (''X-Agent-ID'', a), (''X-Bus-Signature'', s)]"
  by (simp_all add: request_headers_def header_set_def)

lemma content_type_ok: "header_ok ''application/json''"
  by (rule printable_header_ok) (simp add: printable_def byte_in_def)

text \<open>The route of each path a client asks for.\<close>

lemma client_routes:
  "route ''/v1/agents/register'' = Some RegisterAgentEndpoint" "route ''/v1/messages'' = Some MessagesEndpoint"
  "route ''/v1/conversations'' = Some ConversationsEndpoint" "route ''/v1/inbox'' = Some InboxEndpoint"
  "route ''/v1/acks'' = Some AcksEndpoint" "route ''/v1/events'' = Some EventsEndpoint"
  "route ''/v1/agents'' = Some ListAgentsEndpoint"
  by (code_simp)+

lemma client_served:
  "rq_Path r = ''/v1/agents/register'' \<Longrightarrow> ServeHTTP api env cf ps r sv = answered (handleRegisterAgent api env r sv)"
  "rq_Path r = ''/v1/messages'' \<Longrightarrow> ServeHTTP api env cf ps r sv = answered (handleMessages api env r sv)"
  "rq_Path r = ''/v1/conversations'' \<Longrightarrow> ServeHTTP api env cf ps r sv = answered (handleConversations api env r sv)"
  "rq_Path r = ''/v1/inbox'' \<Longrightarrow> ServeHTTP api env cf ps r sv = handleInbox api env r sv"
  "rq_Path r = ''/v1/acks'' \<Longrightarrow> ServeHTTP api env cf ps r sv = answered (handleAcks api env r sv)"
  "rq_Path r = ''/v1/events'' \<Longrightarrow> ServeHTTP api env cf ps r sv = answered (handleEvents api env r sv)"
  "rq_Path r = ''/v1/agents'' \<Longrightarrow> ServeHTTP api env cf ps r sv = answered (handleListAgents api r sv)"
  by (simp_all add: ServeHTTP_def client_routes)

text \<open>A body within the server's limit is the body its handlers read.\<close>

definition body_fits :: "'s server \<Rightarrow> string \<Rightarrow> bool" where
  "body_fits sv b \<longleftrightarrow> b \<noteq> [] \<and> (sv_maxBodyBytes sv \<le> 0 \<or> int (length b) \<le> sv_maxBodyBytes sv)"

lemma readBody_fits: "body_fits sv b \<Longrightarrow> rq_Body r = Some (b, None) \<Longrightarrow> readBody sv r = Inr b"
  by (auto simp: body_fits_def readBody_def)

lemma decode_fits:
  "body_fits sv b \<Longrightarrow> rq_Body r = Some (b, None) \<Longrightarrow> decode b = Inr req \<Longrightarrow> decode_body sv r decode = Inr (b, req)"
  by (simp add: decode_body_def readBody_fits)

section \<open>Polling\<close>

lemma poll_query:
  "query_get (Values_Encode (poll_values agentID cursor waitSec limit)) ''agent_id'' = agentID"
  "query_get (Values_Encode (poll_values agentID cursor waitSec limit)) ''cursor'' = Itoa cursor"
  "query_get (Values_Encode (poll_values agentID cursor waitSec limit)) ''wait'' = Itoa waitSec"
  "query_get (Values_Encode (poll_values agentID cursor waitSec limit)) ''limit'' = (if limit > 0 then Itoa limit else [])"
proof -
  have "keys_distinct (poll_values agentID cursor waitSec limit)" by (simp add: poll_values_def)
  note q = query_get_Encode [OF this]
  show "query_get (Values_Encode (poll_values agentID cursor waitSec limit)) ''agent_id'' = agentID"
    "query_get (Values_Encode (poll_values agentID cursor waitSec limit)) ''cursor'' = Itoa cursor"
    "query_get (Values_Encode (poll_values agentID cursor waitSec limit)) ''wait'' = Itoa waitSec"
    "query_get (Values_Encode (poll_values agentID cursor waitSec limit)) ''limit'' = (if limit > 0 then Itoa limit else [])"
    unfolding q by (simp_all add: poll_values_def get_or_def)
qed

text \<open>The input the store gets, and the document the server answers with.\<close>

definition poll_input :: "string \<Rightarrow> int \<Rightarrow> int \<Rightarrow> int \<Rightarrow> poll_inbox_input" where
  "poll_input agentID cursor waitSec limit =
     \<lparr>pi_AgentID = TrimSpace agentID, pi_Cursor = cursor, pi_Wait = seconds_dur (max 0 waitSec), pi_Limit = max 0 limit\<rparr>"

definition inbox_answer :: "inbox_event list \<Rightarrow> int \<Rightarrow> json" where
  "inbox_answer events cursor =
     JMap [(''events'', JArr (map inbox_event_json events)), (''cursor'', JStr (Itoa cursor))]"

lemma handleInbox_poll:
  assumes "holds_secret env sv agentID secret" and "int64 cursor" "int64 waitSec" "int64 limit"
    and "rq_Method r = ''GET''" and "rq_RawQuery r = Values_Encode (poll_values agentID cursor waitSec limit)"
    and "header_get r ''X-Bus-Signature'' = Sign (he_hmac env) secret (Some (rq_RawQuery r))"
  shows "handleInbox api env r sv =
    (case api_PollInbox api (poll_input agentID cursor waitSec limit) (sv_store sv) of
       (None, st) \<Rightarrow> (None, sv\<lparr>sv_store := st\<rparr>)
     | (Some (Inl err), st) \<Rightarrow> (Some (writeBusError err), sv\<lparr>sv_store := st\<rparr>)
     | (Some (Inr (events, cur)), st) \<Rightarrow> (Some (writeJSON 200 (inbox_answer events cur)), sv\<lparr>sv_store := st\<rparr>))"
proof -
  have "verifySignature (he_hmac env) sv (TrimSpace agentID) (header_get r ''X-Bus-Signature'') (rq_RawQuery r) = None"
    using verifySignature_Sign [of env sv "TrimSpace agentID" secret "Some (rq_RawQuery r)"] assms(1,7) by simp
  moreover have "parse_int (if limit > 0 then Itoa limit else []) 0 = max 0 limit"
    using assms(4) by (simp add: parse_int_Itoa) (simp add: parse_int_def)
  ultimately show ?thesis
    using assms(2,3,5,6)
    by (simp add: handleInbox_def Let_def poll_query parse_int_Itoa parseWaitSeconds_Itoa poll_input_def)
      (auto simp: inbox_answer_def split: prod.splits option.splits sum.splits)
qed

lemma poll_answer:
  assumes "holds_secret env sv agentID secret" and "int64 cursor" "int64 waitSec" "int64 limit"
    and "query = Values_Encode (poll_values agentID cursor waitSec limit)"
  shows "server_answer api env (cl_baseURL c)
      (client_request_of c ''GET'' (''/v1/inbox?'' @ query) None [(''X-Bus-Signature'', Sign (he_hmac env) secret (Some query))]) sv =
    (case api_PollInbox api (poll_input agentID cursor waitSec limit) (sv_store sv) of
       (None, st) \<Rightarrow> (None, sv\<lparr>sv_store := st\<rparr>)
     | (Some (Inl err), st) \<Rightarrow>
         (Some (rs_Status (writeBusError err), body_bytes (rs_Body (writeBusError err))), sv\<lparr>sv_store := st\<rparr>)
     | (Some (Inr (events, cur)), st) \<Rightarrow> (Some (200, json_bytes (inbox_answer events cur)), sv\<lparr>sv_store := st\<rparr>))"
proof -
  let ?r = "server_request (cl_baseURL c)
    (client_request_of c ''GET'' (''/v1/inbox?'' @ query) None [(''X-Bus-Signature'', Sign (he_hmac env) secret (Some query))])"
  have r: "rq_Method ?r = ''GET''" "rq_Path ?r = ''/v1/inbox''" "rq_RawQuery ?r = query"
    "header_get ?r ''X-Bus-Signature'' = Sign (he_hmac env) secret (Some query)"
    using server_request_query [of "''/v1/inbox''" c "''GET''" query None "[(''X-Bus-Signature'', Sign (he_hmac env) secret (Some query))]"]
    by (simp_all add: request_headers_eval header_get_def Sign_wire)
  have "handleInbox api env ?r sv =
    (case api_PollInbox api (poll_input agentID cursor waitSec limit) (sv_store sv) of
       (None, st) \<Rightarrow> (None, sv\<lparr>sv_store := st\<rparr>)
     | (Some (Inl err), st) \<Rightarrow> (Some (writeBusError err), sv\<lparr>sv_store := st\<rparr>)
     | (Some (Inr (events, cur)), st) \<Rightarrow> (Some (writeJSON 200 (inbox_answer events cur)), sv\<lparr>sv_store := st\<rparr>))"
    by (rule handleInbox_poll [OF assms(1-4) r(1) trans [OF r(3) assms(5)]]) (simp only: r)
  then show ?thesis
    unfolding server_answer_def client_served(4) [OF r(2)]
    by (auto simp: writeJSON_def split: prod.splits option.splits sum.splits)
qed


text \<open>
  C26. A poll through the client is a poll of the store. For an agent registered with its secret, the server
  accepts the client's signature and asks the store for exactly the inbox, cursor, wait and limit the caller
  gave; the caller gets the store's events and next cursor as the answer encodes them. When the store refuses,
  or the poll is still blocked at the client's timeout, the caller keeps its cursor and gets an error.
\<close>

theorem client_poll_served:
  assumes "holds_secret env sv agentID secret" and "int64 cursor" "int64 waitSec" "int64 limit"
  shows "case api_PollInbox api (poll_input agentID cursor waitSec limit) (sv_store sv) of
      (None, st) \<Rightarrow>
        \<exists>msg. PollInboxLimited (he_hmac env) cj (server_network api env (cl_baseURL c)) c agentID secret cursor waitSec limit sv =
          (([], cursor, Some msg), sv\<lparr>sv_store := st\<rparr>)
    | (Some (Inl err), st) \<Rightarrow>
        400 \<le> rs_Status (writeBusError err) \<longrightarrow>
        (\<exists>msg. PollInboxLimited (he_hmac env) cj (server_network api env (cl_baseURL c)) c agentID secret cursor waitSec limit sv =
          (([], cursor, Some msg), sv\<lparr>sv_store := st\<rparr>))
    | (Some (Inr (events, cur)), st) \<Rightarrow>
        (\<forall>evs. int64 cur \<and> cj_inbox cj (json_bytes (inbox_answer events cur)) = Inr (evs, Itoa cur) \<longrightarrow>
          PollInboxLimited (he_hmac env) cj (server_network api env (cl_baseURL c)) c agentID secret cursor waitSec limit sv =
            ((evs, cur, None), sv\<lparr>sv_store := st\<rparr>))"
proof -
  define query where "query = Values_Encode (poll_values agentID cursor waitSec limit)"
  define headers where "headers = [(''X-Bus-Signature'', Sign (he_hmac env) secret (Some query))]"
  define path where "path = ''/v1/inbox?'' @ query"
  have h: "\<forall>v \<in> snd ` set (request_headers None headers). header_ok v"
    by (simp add: headers_def request_headers_eval Sign_wire)
  note ans = poll_answer [OF assms query_def, of api c, folded headers_def path_def]
  obtain err where call: "DoJSON (server_network api env (cl_baseURL c)) c ''GET'' path None headers sv =
      (case api_PollInbox api (poll_input agentID cursor waitSec limit) (sv_store sv) of
         (None, st) \<Rightarrow> (([], 0, Some err), sv\<lparr>sv_store := st\<rparr>)
       | (Some (Inl e), st) \<Rightarrow> ((body_bytes (rs_Body (writeBusError e)), rs_Status (writeBusError e),
           if rs_Status (writeBusError e) < 400 then None else Some err), sv\<lparr>sv_store := st\<rparr>)
       | (Some (Inr (events, cur)), st) \<Rightarrow> ((json_bytes (inbox_answer events cur), 200, None), sv\<lparr>sv_store := st\<rparr>))"
    using conn.DoJSON_answered [OF _ h surjective_pairing, of "''GET''" api env "cl_baseURL c" c path sv]
    unfolding ans by (auto split: prod.splits option.splits sum.splits)
  show ?thesis
    unfolding PollInboxLimited_def Let_def query_def [symmetric] headers_def [symmetric] path_def [symmetric] call
    by (auto simp: TrimSpace_printable Itoa_printable Atoi_Itoa int64_def split: prod.splits option.splits sum.splits)
qed


section \<open>Signed posts\<close>

text \<open>
  A post reaches the server with its body, its signature and, where the caller names itself in a header, its
  identity. \<open>header_name\<close> is an identity that fits a header and has no white space around it.
\<close>

definition header_name :: "string \<Rightarrow> bool" where
  "header_name a \<longleftrightarrow> header_ok a \<and> TrimSpace a = a"

definition named_headers :: "string option \<Rightarrow> string \<Rightarrow> string gomap" where
  "named_headers name signature =
     (case name of None \<Rightarrow> [] | Some a \<Rightarrow> [(''X-Agent-ID'', a)]) @ [(''X-Bus-Signature'', signature)]"

lemma posted_request:
  fixes c :: bus_client and hm :: "string \<Rightarrow> string \<Rightarrow> string" and secret blob path :: string and name :: "string option"
  assumes "CHR ''?'' \<notin> set path" and "\<forall>a. name = Some a \<longrightarrow> header_name a"
  defines "headers \<equiv> named_headers name (Sign hm secret (Some blob))"
  defines "r \<equiv> server_request (cl_baseURL c) (client_request_of c ''POST'' path (Some blob) headers)"
  shows "rq_Method r = ''POST''" "rq_Path r = path" "rq_RawQuery r = []" "rq_Body r = Some (blob, None)"
    "header_get r ''X-Bus-Signature'' = Sign hm secret (Some blob)" "\<And>a. name = Some a \<Longrightarrow> header_get r ''X-Agent-ID'' = a"
    "header_get r ''Authorization'' = []"
    "\<forall>v \<in> snd ` set (request_headers (Some blob) headers). header_ok v"
  using assms(2)
  by (auto simp: r_def headers_def named_headers_def server_request_plain [OF assms(1)] request_headers_eval
      header_get_def Sign_wire trim_blanks_id header_name_def content_type_ok split: option.splits)

text \<open>What the client gets of a response.\<close>

definition client_outcome :: "http_response \<Rightarrow> string \<Rightarrow> string \<times> int \<times> string option" where
  "client_outcome resp err =
     (body_bytes (rs_Body resp), rs_Status resp, if rs_Status resp < 400 then None else Some err)"

lemma post_DoJSON:
  fixes c :: bus_client and hm :: "string \<Rightarrow> string \<Rightarrow> string" and secret blob path :: string and name :: "string option"
  assumes "CHR ''?'' \<notin> set path" and "\<forall>a. name = Some a \<longrightarrow> header_name a"
  defines "headers \<equiv> named_headers name (Sign hm secret (Some blob))"
  defines "r \<equiv> server_request (cl_baseURL c) (client_request_of c ''POST'' path (Some blob) headers)"
  assumes "ServeHTTP api env True [] r sv = answered (resp, sv')"
  shows "\<exists>err. DoJSON (server_network api env (cl_baseURL c)) c ''POST'' path (Some blob) headers sv =
    (client_outcome resp err, sv')"
proof -
  have "server_answer api env (cl_baseURL c) (client_request_of c ''POST'' path (Some blob) headers) sv =
      (Some (rs_Status resp, body_bytes (rs_Body resp)), sv')"
    using assms(5) by (simp add: server_answer_def r_def answered_def)
  from conn.DoJSON_answered [OF _ posted_request(8) [OF assms(1,2), where hm = hm and secret = secret and blob = blob, folded headers_def] this]
  show ?thesis by (simp add: client_outcome_def)
qed

section \<open>Sending\<close>

definition server_attachment :: "client_attachment \<Rightarrow> attachment" where
  "server_attachment a =
     \<lparr>at_URL = ca_URL a, at_Name = ca_Name a, at_ContentType = ca_ContentType a, at_Size = ca_Size a, at_SHA256 = []\<rparr>"

definition attachments_of :: "client_attachment list option \<Rightarrow> attachment list" where
  "attachments_of v = (case v of None \<Rightarrow> [] | Some xs \<Rightarrow> map server_attachment xs)"

text \<open>The request struct the server decodes from a client's payload, and the input it gives the store.\<close>

definition sent_request ::
  "string \<Rightarrow> string \<Rightarrow> string \<Rightarrow> string \<Rightarrow> string \<Rightarrow> string \<Rightarrow> client_attachment list option \<Rightarrow>
     (string \<times> json) list option \<Rightarrow> message_request" where
  "sent_request sender target conversationID requestID messageType bodyText attachments meta =
     \<lparr>mr_To = target, mr_From = sender, mr_ConversationID = conversationID, mr_RequestID = requestID,
      mr_Type = messageType, mr_Body = bodyText, mr_Meta = json_map meta, mr_Attachments = attachments_of attachments,
      mr_TTL = 0, mr_InReplyTo = []\<rparr>"

definition sent_input ::
  "string \<Rightarrow> string \<Rightarrow> string \<Rightarrow> string \<Rightarrow> string \<Rightarrow> string \<Rightarrow> client_attachment list option \<Rightarrow>
     (string \<times> json) list option \<Rightarrow> send_message_input" where
  "sent_input sender target conversationID requestID messageType bodyText attachments meta =
     \<lparr>sm_To = target, sm_From = sender, sm_ConversationID = conversationID, sm_RequestID = requestID,
      sm_Type = message_type_of messageType, sm_Body = bodyText, sm_Meta = json_map meta,
      sm_Attachments = attachments_of attachments, sm_TTLSeconds = 0, sm_InReplyTo = []\<rparr>"

definition send_answer :: "message \<Rightarrow> bool \<Rightarrow> json" where
  "send_answer m duplicate =
     JMap [(''ok'', JBool True), (''message_id'', JStr (m_MessageID m)), (''duplicate'', JBool duplicate)]"

text \<open>
  C25. A send through the client is a send to the store. For a sender registered with its secret, a payload
  that fits the server's limit and is decoded to the values that were encoded, the store gets exactly the
  caller's message, signed for by the sender: when it accepts, the caller gets the identifier of the message,
  and when it refuses, an error. No attachment hash, time to live or reply reference can be passed this way.
\<close>

theorem client_send_served:
  assumes "holds_secret env sv sender secret"
    and "Marshal (send_payload sender target conversationID requestID messageType bodyText attachments meta) = Some blob"
    and "body_fits sv blob"
    and "he_message env blob = Inr (sent_request sender target conversationID requestID messageType bodyText attachments meta)"
  shows "case api_SendMessage api (sent_input sender target conversationID requestID messageType bodyText attachments meta)
        (sv_store sv) of
      (Inl err, st) \<Rightarrow>
        400 \<le> rs_Status (writeBusError err) \<longrightarrow>
        (\<exists>msg. SendMessage_call (he_hmac env) cj (server_network api env (cl_baseURL c)) c sender secret target
          conversationID requestID messageType bodyText attachments meta sv = (Inl msg, sv\<lparr>sv_store := st\<rparr>))
    | (Inr (m, duplicate), st) \<Rightarrow>
        cj_message_id cj (json_bytes (send_answer m duplicate)) = Inr (m_MessageID m) \<and> TrimSpace (m_MessageID m) \<noteq> [] \<longrightarrow>
        SendMessage_call (he_hmac env) cj (server_network api env (cl_baseURL c)) c sender secret target
          conversationID requestID messageType bodyText attachments meta sv = (Inr (m_MessageID m), sv\<lparr>sv_store := st\<rparr>)"
proof -
  define headers where "headers = [(''X-Bus-Signature'', Sign (he_hmac env) secret (Some blob))]"
  define r where "r = server_request (cl_baseURL c) (client_request_of c ''POST'' ''/v1/messages'' (Some blob) headers)"
  have hd: "headers = named_headers None (Sign (he_hmac env) secret (Some blob))" by (simp add: headers_def named_headers_def)
  note R = posted_request(1-7) [where path = "''/v1/messages''" and name = None and c = c and hm = "he_hmac env" and secret = secret and blob = blob,
      folded hd, folded r_def, simplified]
  have "decode_body sv r (he_message env) =
      Inr (blob, sent_request sender target conversationID requestID messageType bodyText attachments meta)"
    using assms(3,4) R(4) by (simp add: decode_fits)
  moreover have "verifySignature (he_hmac env) sv sender (header_get r ''X-Bus-Signature'') blob = None"
    using verifySignature_Sign [OF assms(1), of "Some blob"] R(5) by simp
  ultimately have "handleMessages api env r sv =
    (case api_SendMessage api (sent_input sender target conversationID requestID messageType bodyText attachments meta) (sv_store sv) of
       (Inl err, st) \<Rightarrow> (writeBusError err, sv\<lparr>sv_store := st\<rparr>)
     | (Inr (m, duplicate), st) \<Rightarrow> (writeJSON 200 (send_answer m duplicate), sv\<lparr>sv_store := st\<rparr>))"
    using R(1) by (simp add: handleMessages_def sent_request_def sent_input_def) (auto simp: send_answer_def split: prod.splits sum.splits)
  then have "ServeHTTP api env True [] r sv = answered
    (case api_SendMessage api (sent_input sender target conversationID requestID messageType bodyText attachments meta) (sv_store sv) of
       (Inl err, st) \<Rightarrow> (writeBusError err, sv\<lparr>sv_store := st\<rparr>)
     | (Inr (m, duplicate), st) \<Rightarrow> (writeJSON 200 (send_answer m duplicate), sv\<lparr>sv_store := st\<rparr>))"
    by (simp add: client_served(2) [OF R(2)])
  then obtain err where call: "DoJSON (server_network api env (cl_baseURL c)) c ''POST'' ''/v1/messages'' (Some blob) headers sv =
    (case api_SendMessage api (sent_input sender target conversationID requestID messageType bodyText attachments meta) (sv_store sv) of
       (Inl e, st) \<Rightarrow> (client_outcome (writeBusError e) err, sv\<lparr>sv_store := st\<rparr>)
     | (Inr (m, duplicate), st) \<Rightarrow> (client_outcome (writeJSON 200 (send_answer m duplicate)) err, sv\<lparr>sv_store := st\<rparr>))"
    using post_DoJSON [where path = "''/v1/messages''" and name = None and c = c and hm = "he_hmac env" and secret = secret and
        blob = blob and api = api and env = env and sv = sv, folded hd, folded r_def]
    by (fastforce split: prod.splits sum.splits)
  show ?thesis
    unfolding SendMessage_call_def Let_def assms(2) headers_def [symmetric] call
    by (auto simp: client_outcome_def answer_id_def writeJSON_def split: prod.splits sum.splits)
qed


section \<open>The other calls\<close>

text \<open>The outcome of a call that only reports whether it succeeded.\<close>

definition reported :: "bus_error option \<Rightarrow> string option \<Rightarrow> bool" where
  "reported refused err =
     (case refused of None \<Rightarrow> err = None | Some e \<Rightarrow> 400 \<le> rs_Status (writeBusError e) \<longrightarrow> err \<noteq> None)"

lemma post_reported:
  fixes c :: bus_client and hm :: "string \<Rightarrow> string \<Rightarrow> string" and secret blob path :: string and name :: "string option"
  assumes "CHR ''?'' \<notin> set path" and "\<forall>a. name = Some a \<longrightarrow> header_name a"
  defines "headers \<equiv> named_headers name (Sign hm secret (Some blob))"
  defines "r \<equiv> server_request (cl_baseURL c) (client_request_of c ''POST'' path (Some blob) headers)"
  assumes "ServeHTTP api env True [] r sv = answered
    (case refused of None \<Rightarrow> (writeJSON 200 doc, sv') | Some e \<Rightarrow> (writeBusError e, sv'))"
  shows "\<exists>out st err. DoJSON (server_network api env (cl_baseURL c)) c ''POST'' path (Some blob) headers sv =
    ((out, st, err), sv') \<and> reported refused err \<and> (refused = None \<longrightarrow> out = json_bytes doc)"
proof -
  obtain resp where resp: "ServeHTTP api env True [] r sv = answered (resp, sv')"
    "resp = (case refused of None \<Rightarrow> writeJSON 200 doc | Some e \<Rightarrow> writeBusError e)"
    using assms(5) by (cases refused) auto
  from post_DoJSON [OF assms(1,2) resp(1) [unfolded r_def headers_def], folded headers_def] resp(2) show ?thesis
    by (fastforce simp: client_outcome_def reported_def writeJSON_def split: option.splits)
qed

text \<open>Acknowledging: the store gets the agent, the message, the status and the reason of the call.\<close>

definition acked_input :: "string \<Rightarrow> string \<Rightarrow> string \<Rightarrow> string \<Rightarrow> ack_input" where
  "acked_input agentID messageID status reason =
     \<lparr>ak_AgentID = agentID, ak_MessageID = messageID, ak_Status = status, ak_Reason = reason\<rparr>"

theorem client_ack_served:
  assumes "holds_secret env sv agentID secret"
    and "Marshal (ack_payload agentID messageID status reason) = Some blob" and "body_fits sv blob"
    and "he_ack env blob =
      Inr \<lparr>kr_AgentID = agentID, kr_MessageID = messageID, kr_Status = status, kr_Reason = reason\<rparr>"
  shows "\<exists>err. Ack_call (he_hmac env) (server_network api env (cl_baseURL c)) c agentID secret messageID status reason sv =
      (err, sv\<lparr>sv_store := snd (api_Ack api (acked_input agentID messageID status reason) (sv_store sv))\<rparr>) \<and>
    reported (fst (api_Ack api (acked_input agentID messageID status reason) (sv_store sv))) err"
proof -
  define headers where "headers = [(''X-Bus-Signature'', Sign (he_hmac env) secret (Some blob))]"
  define r where "r = server_request (cl_baseURL c) (client_request_of c ''POST'' ''/v1/acks'' (Some blob) headers)"
  have hd: "headers = named_headers None (Sign (he_hmac env) secret (Some blob))" by (simp add: headers_def named_headers_def)
  note R = posted_request(1-7) [where path = "''/v1/acks''" and name = None and c = c and hm = "he_hmac env" and secret = secret and blob = blob,
      folded hd, folded r_def, simplified]
  obtain refused st where x: "api_Ack api (acked_input agentID messageID status reason) (sv_store sv) = (refused, st)" by fastforce
  have "verifySignature (he_hmac env) sv agentID (header_get r ''X-Bus-Signature'') blob = None"
    using verifySignature_Sign [OF assms(1), of "Some blob"] R(5) by simp
  then have "handleAcks api env r sv =
    (case refused of None \<Rightarrow> (writeJSON 200 (JMap [(''ok'', JBool True)]), sv\<lparr>sv_store := st\<rparr>)
     | Some e \<Rightarrow> (writeBusError e, sv\<lparr>sv_store := st\<rparr>))"
    using decode_fits [where decode = "he_ack env", OF assms(3) R(4) assms(4)] R(1) x by (auto simp: handleAcks_def acked_input_def split: option.splits)
  then have "ServeHTTP api env True [] r sv = answered
    (case refused of None \<Rightarrow> (writeJSON 200 (JMap [(''ok'', JBool True)]), sv\<lparr>sv_store := st\<rparr>)
     | Some e \<Rightarrow> (writeBusError e, sv\<lparr>sv_store := st\<rparr>))"
    by (simp add: client_served(5) [OF R(2)])
  from post_reported [where path = "''/v1/acks''" and name = None and c = c and hm = "he_hmac env" and secret = secret and
      blob = blob, folded hd, folded r_def, OF _ _ this]
  show ?thesis unfolding Ack_call_def Let_def assms(2) headers_def [symmetric] x by fastforce
qed

text \<open>Posting an event: the actor is the agent named in the header, whose secret signed the body.\<close>

definition posted_input :: "string \<Rightarrow> string \<Rightarrow> string \<Rightarrow> string \<Rightarrow> (string \<times> json) list option \<Rightarrow> event_input" where
  "posted_input agentID messageID eventType body meta =
     \<lparr>ev_ActorAgentID = agentID, ev_MessageID = messageID, ev_Type = eventType, ev_Body = body, ev_Meta = json_map meta\<rparr>"

theorem client_event_served:
  assumes "holds_secret env sv agentID secret" and "header_name agentID"
    and "Marshal (event_payload messageID eventType body meta) = Some blob" and "body_fits sv blob"
    and "he_event env blob =
      Inr \<lparr>er_MessageID = messageID, er_Type = eventType, er_Body = body, er_Meta = json_map meta\<rparr>"
  shows "\<exists>err. Event_call (he_hmac env) (server_network api env (cl_baseURL c)) c agentID secret messageID eventType body meta sv =
      (err, sv\<lparr>sv_store := snd (api_PostEvent api (posted_input agentID messageID eventType body meta) (sv_store sv))\<rparr>) \<and>
    reported (fst (api_PostEvent api (posted_input agentID messageID eventType body meta) (sv_store sv))) err"
proof -
  define headers where "headers = [(''X-Agent-ID'', agentID), (''X-Bus-Signature'', Sign (he_hmac env) secret (Some blob))]"
  define r where "r = server_request (cl_baseURL c) (client_request_of c ''POST'' ''/v1/events'' (Some blob) headers)"
  have hd: "headers = named_headers (Some agentID) (Sign (he_hmac env) secret (Some blob))" by (simp add: headers_def named_headers_def)
  note R = posted_request(1-7) [where path = "''/v1/events''" and name = "Some agentID" and c = c and hm = "he_hmac env" and secret = secret and blob = blob,
      folded hd, folded r_def, simplified, OF assms(2)]
  have t: "TrimSpace agentID = agentID" using assms(2) by (simp add: header_name_def)
  obtain refused st where x: "api_PostEvent api (posted_input agentID messageID eventType body meta) (sv_store sv) = (refused, st)" by fastforce
  have "verifySignature (he_hmac env) sv agentID (header_get r ''X-Bus-Signature'') blob = None"
    using verifySignature_Sign [OF assms(1), of "Some blob"] R(5) by simp
  then have "handleEvents api env r sv =
    (case refused of None \<Rightarrow> (writeJSON 200 (JMap [(''ok'', JBool True)]), sv\<lparr>sv_store := st\<rparr>)
     | Some e \<Rightarrow> (writeBusError e, sv\<lparr>sv_store := st\<rparr>))"
    using decode_fits [where decode = "he_event env", OF assms(4) R(4) assms(5)] R(1,6) x t by (auto simp: handleEvents_def posted_input_def Let_def split: option.splits)
  then have "ServeHTTP api env True [] r sv = answered
    (case refused of None \<Rightarrow> (writeJSON 200 (JMap [(''ok'', JBool True)]), sv\<lparr>sv_store := st\<rparr>)
     | Some e \<Rightarrow> (writeBusError e, sv\<lparr>sv_store := st\<rparr>))"
    by (simp add: client_served(6) [OF R(2)])
  from post_reported [where path = "''/v1/events''" and name = "Some agentID" and c = c and hm = "he_hmac env" and secret = secret and
      blob = blob, folded hd, folded r_def, OF _ _ this] assms(2)
  show ?thesis unfolding Event_call_def Let_def assms(3) headers_def [symmetric] x by fastforce
qed


text \<open>Creating a conversation: the store gets the request, with the signer as its actor.\<close>

definition created_input :: "string \<Rightarrow> client_conversation \<Rightarrow> create_conversation_input" where
  "created_input agentID req =
     \<lparr>cc_ConversationID = cv_ConversationID req, cc_Title = cv_Title req, cc_Participants = cv_Participants req,
      cc_Meta = cv_Meta req, cc_ActorAgentID = agentID\<rparr>"

definition created_answer :: "conversation \<Rightarrow> json" where
  "created_answer conv = JMap [(''ok'', JBool True), (''conversation_id'', JStr (c_ConversationID conv))]"

lemma bearerToken_none: "header_get r ''Authorization'' = [] \<Longrightarrow> \<not> validInjectToken sv r"
  by (simp add: validInjectToken_def bearerToken_def tokenAllowed_def Let_def)

theorem client_create_served:
  assumes "holds_secret env sv agentID secret" and "header_name agentID"
    and "Marshal (client_conversation_json req) = Some blob" and "body_fits sv blob"
    and "he_conversation env blob =
      Inr \<lparr>cr_ConversationID = cv_ConversationID req, cr_Title = cv_Title req, cr_Participants = cv_Participants req,
           cr_Meta = cv_Meta req\<rparr>"
  shows "case api_CreateConversation api (created_input agentID req) (sv_store sv) of
      (Inl err, st) \<Rightarrow>
        400 \<le> rs_Status (writeBusError err) \<longrightarrow>
        (\<exists>msg. CreateConversation_call (he_hmac env) cj (server_network api env (cl_baseURL c)) c agentID secret req sv =
          (Inl msg, sv\<lparr>sv_store := st\<rparr>))
    | (Inr conv, st) \<Rightarrow>
        cj_conversation_id cj (json_bytes (created_answer conv)) = Inr (c_ConversationID conv) \<and>
        TrimSpace (c_ConversationID conv) \<noteq> [] \<longrightarrow>
        CreateConversation_call (he_hmac env) cj (server_network api env (cl_baseURL c)) c agentID secret req sv =
          (Inr (c_ConversationID conv), sv\<lparr>sv_store := st\<rparr>)"
proof -
  define headers where "headers = [(''X-Agent-ID'', agentID), (''X-Bus-Signature'', Sign (he_hmac env) secret (Some blob))]"
  define r where "r = server_request (cl_baseURL c) (client_request_of c ''POST'' ''/v1/conversations'' (Some blob) headers)"
  have hd: "headers = named_headers (Some agentID) (Sign (he_hmac env) secret (Some blob))" by (simp add: headers_def named_headers_def)
  note R = posted_request(1-7) [where path = "''/v1/conversations''" and name = "Some agentID" and c = c and hm = "he_hmac env" and
      secret = secret and blob = blob, folded hd, folded r_def, simplified, OF assms(2)]
  have t: "TrimSpace agentID = agentID" using assms(2) by (simp add: header_name_def)
  have nonempty: "agentID \<noteq> []" using assms(1) t by (simp add: holds_secret_def)
  obtain res st where x: "api_CreateConversation api (created_input agentID req) (sv_store sv) = (res, st)" by fastforce
  have sig: "verifySignature (he_hmac env) sv agentID (Sign (he_hmac env) secret (Some blob)) blob = None"
    using verifySignature_Sign [OF assms(1), of "Some blob"] by simp
  have "verifyConversationCreateAuth (he_hmac env) sv r blob = Inr \<lparr>au_AgentID = agentID, au_Global = False\<rparr>"
    using sig R(5,6) bearerToken_none [OF R(7)] t nonempty
    by (simp add: verifyConversationCreateAuth_def TrimSpace_printable Sign_printable)
  then have "handleConversations api env r sv =
    (case res of Inl e \<Rightarrow> (writeBusError e, sv\<lparr>sv_store := st\<rparr>)
     | Inr conv \<Rightarrow> (writeJSON 200 (created_answer conv), sv\<lparr>sv_store := st\<rparr>))"
    using readBody_fits [OF assms(4) R(4)] R(1) x assms(5)
    by (auto simp: handleConversations_def create_conversation_def created_input_def created_answer_def actor_of_def split: sum.splits)
  then obtain resp where resp: "ServeHTTP api env True [] r sv = answered (resp, sv\<lparr>sv_store := st\<rparr>)"
    "resp = (case res of Inl e \<Rightarrow> writeBusError e | Inr conv \<Rightarrow> writeJSON 200 (created_answer conv))"
    by (cases res) (auto simp: client_served(3) [OF R(2)])
  obtain err where "DoJSON (server_network api env (cl_baseURL c)) c ''POST'' ''/v1/conversations'' (Some blob) headers sv =
      (client_outcome resp err, sv\<lparr>sv_store := st\<rparr>)"
    using post_DoJSON [where path = "''/v1/conversations''" and name = "Some agentID" and c = c and hm = "he_hmac env" and
        secret = secret and blob = blob, folded hd, folded r_def, OF _ _ resp(1)] assms(2) by auto
  then show ?thesis
    unfolding CreateConversation_call_def Let_def assms(3) headers_def [symmetric] x
    by (auto simp: resp(2) client_outcome_def answer_id_def writeJSON_def split: sum.splits)
qed

section \<open>Registering\<close>

text \<open>What the server decodes from a registration by name and capabilities, and the input of the store.\<close>

definition registered_request :: "string \<Rightarrow> string \<Rightarrow> string list option \<Rightarrow> string \<Rightarrow> register_request" where
  "registered_request agentID secret capabilities description =
     \<lparr>rr_AgentID = agentID, rr_AllowedScopes = [], rr_SharedGrants = [],
      rr_Capabilities = (case capabilities of None \<Rightarrow> [] | Some cs \<Rightarrow> cs), rr_Version = [],
      rr_Description = TrimSpace description, rr_AgentClass = [], rr_MutationClass = [], rr_Build = None,
      rr_Meta = None, rr_Mode = ''pull'', rr_CallbackURL = [], rr_TTL = 120, rr_Secret = secret\<rparr>"

definition registered_input :: "string \<Rightarrow> string \<Rightarrow> string list option \<Rightarrow> string \<Rightarrow> register_agent_input" where
  "registered_input agentID secret capabilities description =
     \<lparr>ra_AgentID = TrimSpace agentID, ra_Secret = secret, ra_AllowedScopes = [], ra_SharedGrants = [],
      ra_Capabilities = (case capabilities of None \<Rightarrow> [] | Some cs \<Rightarrow> cs), ra_Version = [],
      ra_Description = TrimSpace description, ra_AgentClass = [], ra_MutationClass = [], ra_Build = None,
      ra_Meta = None, ra_Mode = AgentModePull, ra_CallbackURL = [], ra_TTLSeconds = 120\<rparr>"

definition register_payload :: "string \<Rightarrow> string \<Rightarrow> string list option \<Rightarrow> string \<Rightarrow> client_register" where
  "register_payload agentID secret capabilities description =
     \<lparr>cn_AgentID = agentID, cn_Secret = secret, cn_AllowedScopes = [], cn_SharedGrants = [],
      cn_Capabilities = capabilities, cn_Version = [], cn_Description = TrimSpace description,
      cn_AgentClass = [], cn_MutationClass = [], cn_Build = None, cn_Meta = None,
      cn_Mode = ''pull'', cn_CallbackURL = [], cn_TTL = 120\<rparr>"

text \<open>
  C27. Registering makes the client's later calls acceptable. When the server lets the identity register, no
  other secret is registered for it, the store accepts the registration and keeps the secret, the client sees
  no error, the store was given the caller's values as a pull agent for two minutes, and from then on the
  client holds the secret every signed call is checked against.
\<close>

theorem client_registration:
  assumes "Marshal (client_register_json (register_payload agentID secret capabilities description)) = Some blob"
    and "body_fits sv blob" and "he_register env blob = Inr (registered_request agentID secret capabilities description)"
    and "isAgentAllowed sv (TrimSpace agentID)" and "TrimSpace agentID \<noteq> []" "TrimSpace secret \<noteq> []"
    and "currentAgentSecret sv agentID \<in> {None, Some secret}" and "\<forall>p. he_hmac env secret p \<noteq> []"
    and "api_RegisterAgent api (registered_input agentID secret capabilities description) (sv_store sv) = (Inr agent, st)"
    and "a_AgentID agent = TrimSpace agentID"
    and "(case api_SetAgentSecret api of None \<Rightarrow> (None, st) | Some set_secret \<Rightarrow> set_secret (TrimSpace agentID) secret st) =
      (None, st')"
  shows "\<exists>sv'. RegisterAgentWithDescription (server_network api env (cl_baseURL c)) c agentID secret capabilities description sv =
      (None, sv') \<and> sv_store sv' = st' \<and> holds_secret env sv' agentID secret"
proof -
  define r where "r = server_request (cl_baseURL c) (client_request_of c ''POST'' ''/v1/agents/register'' (Some blob) [])"
  have r: "rq_Method r = ''POST''" "rq_Path r = ''/v1/agents/register''" "rq_Body r = Some (blob, None)"
    by (simp_all add: r_def server_request_plain)
  have pull: "agent_mode_of ''pull'' = AgentModePull" by (simp add: agent_mode_of_def)
  have proof_free: "verifyReregistrationProof (he_hmac env) sv (TrimSpace agentID) secret blob sig = None" for sig
    using assms(7) by (auto simp: verifyReregistrationProof_def currentAgentSecret_def)
  define sv' where "sv' = sv\<lparr>sv_store := st', sv_agentSecrets := AList.update (TrimSpace agentID) secret (sv_agentSecrets sv)\<rparr>"
  have "setAgentSecret api (a_AgentID agent) secret (sv\<lparr>sv_store := st\<rparr>) = (None, sv')"
    using assms(5,6,10,11) by (cases "api_SetAgentSecret api") (simp_all add: setAgentSecret_def sv'_def)
  then have "\<exists>doc. handleRegisterAgent api env r sv = (writeJSON 200 doc, sv')"
    using r(1) decode_fits [where decode = "he_register env", OF assms(2) r(3) assms(3)] assms(4-6,9) proof_free pull
    by (auto simp: handleRegisterAgent_def registered_request_def registered_input_def)
  then obtain doc where "server_answer api env (cl_baseURL c) (client_request_of c ''POST'' ''/v1/agents/register'' (Some blob) []) sv =
      (Some (200, json_bytes doc), sv')"
    unfolding server_answer_def r_def [symmetric] client_served(1) [OF r(2)] by (auto simp: answered_def writeJSON_def)
  from conn.DoJSON_answered [OF _ _ this] have
    "DoJSON (server_network api env (cl_baseURL c)) c ''POST'' ''/v1/agents/register'' (Some blob) [] sv = ((json_bytes doc, 200, None), sv')"
    by (auto simp: request_headers_eval content_type_ok)
  moreover have "TrimSpace ''pull'' = ''pull''" by (rule TrimSpace_printable) (simp add: printable_def byte_in_def)
  ultimately have "RegisterAgentWithDescription (server_network api env (cl_baseURL c)) c agentID secret capabilities description sv =
      (None, sv')"
    using assms(1) by (simp add: RegisterAgentWithDescription_def RegisterAgentWithPassport_def register_payload_def)
  moreover have "sv_store sv' = st'" "holds_secret env sv' agentID secret"
    using assms(5,6,8) by (simp_all add: sv'_def holds_secret_def)
  ultimately show ?thesis by blast
qed

end
