(* ===== verification/Client_Examples.thy ===== *)
theory Client_Examples
  imports Client_Server Http_Safety
begin

text \<open>
  The scenario of \<open>Bus_Examples\<close> behind a server, with a client for each agent. The hash appends a byte to
  the key, so no two secrets of the scenario have the same signatures.
\<close>

definition ex_net_env :: http_env where
  "ex_net_env = ex_env\<lparr>he_hmac := (\<lambda>key payload. key @ ''!''),
     he_register := (\<lambda>blob. Inr (registered_request ''ucla.a'' ''N'' None [])),
     he_message := (\<lambda>blob. Inr (sent_request ''ucla.a'' ''ucla.b'' [] ''r1'' [] ''hi'' None None))\<rparr>"

definition ex_net_server :: "store \<Rightarrow> store server" where
  "ex_net_server st = \<lparr>sv_store = st, sv_agentSecrets = [(''ucla.a'', ''Z''), (''ucla.b'', ''Y'')], sv_agentAllowset = [],
     sv_injectTokens = [], sv_observeTokens = [], sv_maxBodyBytes = 0\<rparr>"

definition ex_client :: bus_client where
  "ex_client = NewClient ''http://bus:8080/''"

definition ex_event :: client_event where
  "ex_event = \<lparr>ce_MessageID = ''m-000001'', ce_Type = ''request'', ce_From = ''ucla.a'', ce_ConversationID = ''c-000001'',
     ce_Body = ''hi'', ce_Meta = JNull, ce_Attachments = [], ce_CreatedAt = ex_time\<rparr>"

definition ex_answers :: client_json where
  "ex_answers = \<lparr>cj_message_id = (\<lambda>_. Inr ''m-000001''), cj_conversation_id = (\<lambda>_. Inr ''c-000001''),
     cj_inbox = (\<lambda>_. Inr ([ex_event], ''1'')), cj_agents = (\<lambda>_. Inl ''none'')\<rparr>"

definition ex_reading :: moment where
  "ex_reading = ex_moment\<lparr>mo_turns := [\<lparr>tn_orders = ex_orders, tn_now = ex_time, tn_later = ex_time,
     tn_others = id, tn_timer = False\<rparr>]\<rparr>"

lemma ex_secrets: "TrimSpace ''Z'' = ''Z''" "TrimSpace ''Y'' = ''Y''" "TrimSpace ''N'' = ''N''"
  by code_simp+

lemma ex_holds:
  "holds_secret ex_net_env (ex_net_server st) ''ucla.a'' ''Z''" "holds_secret ex_net_env (ex_net_server st) ''ucla.b'' ''Y''"
  by (simp_all add: holds_secret_def ex_net_server_def ex_net_env_def ex_names ex_secrets)

theorem client_send_served_witness:
  "\<exists>st. SendMessage_call (he_hmac ex_net_env) ex_answers (server_network (memory_api ex_moment) ex_net_env (cl_baseURL ex_client))
      ex_client ''ucla.a'' ''Z'' ''ucla.b'' [] ''r1'' [] ''hi'' None None (ex_net_server ex2) =
    (Inr ''m-000001'', (ex_net_server ex2)\<lparr>sv_store := st\<rparr>)"
proof -
  obtain blob where blob: "Marshal (send_payload ''ucla.a'' ''ucla.b'' [] ''r1'' [] ''hi'' None None) = Some blob" "blob \<noteq> []"
    by (simp add: send_payload_def json_slice_def json_map_def json_object_def)
  have fits: "body_fits (ex_net_server ex2) blob" using blob(2) by (simp add: body_fits_def ex_net_server_def)
  have decoded: "he_message ex_net_env blob = Inr (sent_request ''ucla.a'' ''ucla.b'' [] ''r1'' [] ''hi'' None None)"
    by (simp add: ex_net_env_def)
  have input: "sent_input ''ucla.a'' ''ucla.b'' [] ''r1'' [] ''hi'' None None = ex_send"
    by (simp add: sent_input_def ex_send_def message_type_of_def json_map_def attachments_of_def)
  obtain s where "SendMessage ex_orders ex_time ex_send ex2 = (Inr (ex_message, False), s)"
    by (simp add: SendMessage_def ex_send_eval run_barrier_def Let_def ex_acceptance_def)
  then have "api_SendMessage (memory_api ex_moment) ex_send (sv_store (ex_net_server ex2)) = (Inr (ex_message, False), s)"
    by (simp add: memory_api_def ex_moment_def ex_net_server_def)
  with client_send_served [OF ex_holds(1) blob(1) fits decoded, where api = "memory_api ex_moment" and cj = ex_answers
      and c = ex_client, unfolded input]
  show ?thesis by (auto simp: ex_answers_def ex_message_def ex_ack_names)
qed

theorem client_poll_served_witness:
  "\<exists>st. PollInboxLimited (he_hmac ex_net_env) ex_answers (server_network (memory_api ex_reading) ex_net_env (cl_baseURL ex_client))
      ex_client ''ucla.b'' ''Y'' 0 0 0 (ex_net_server ex3) =
    (([ex_event], 1, None), (ex_net_server ex3)\<lparr>sv_store := st\<rparr>)"
proof -
  have range: "int64 0" "int64 1" by (simp_all add: int64_def)
  let ?i = "poll_input ''ucla.b'' 0 0 0"
  have ready: "may_poll (sweepLocked ex_orders ex_time ex3) ''ucla.b''"
    and sw: "sweepLocked ex_orders ex_time ex3 = ex3\<lparr>s_sweepSkipped := Suc (s_sweepSkipped ex3)\<rparr>"
    using ex_poll_ready [OF ex3_fields(1,2)] by (auto simp: ex3_fields ex2_fields ex_names)
  have i: "TrimSpace (pi_AgentID ?i) = ''ucla.b''" "pi_Cursor ?i = 0" "pi_Limit ?i = 0" "pi_Wait ?i = 0"
    by (simp_all add: poll_input_def ex_names seconds_dur_def wrap64_def)
  have "poll_check ?i ex3 = None"
    using ex3_fields(1) by (simp add: poll_check_def i same_policy_eval ex_policy_names)
  moreover have "clamp_wait 0 ex3 = 0"
    using ex3_fields(1) by (simp add: clamp_wait_def same_policy_def ex_policy_def ex_config_fields)
  moreover obtain s where "poll_turn ex_orders ex_time ex_time None ?i (Add ex_time 0) 0 ex3 () =
      (Done (Inr ([inbox_event_of ex_message], 1)), s, ())"
    using poll_turn_ready [where R = ex_orders and now = ex_time and s = ex3 and input = ?i and later = ex_time and
        deadline = "Add ex_time 0" and wait = 0 and d = "()"] ready
    by (simp add: i sw ex3_fields clamp_cursor_def limit_page_def dropInboxPrefixLocked_tables Let_def)
  ultimately have "pollInbox ex_time None ?i (mo_turns ex_reading) ex3 () = (Some (Inr ([inbox_event_of ex_message], 1)), s, ())"
    by (simp add: pollInbox_def i ex_reading_def)
  then have "api_PollInbox (memory_api ex_reading) ?i (sv_store (ex_net_server ex3)) = (Some (Inr ([inbox_event_of ex_message], 1)), s)"
    by (simp add: memory_api_def ex_reading_def ex_moment_def ex_net_server_def without_backend_def)
  moreover have "Itoa 1 = ''1''" by code_simp
  moreover have "cj_inbox ex_answers doc = Inr ([ex_event], ''1'')" for doc by (simp add: ex_answers_def)
  ultimately show ?thesis
    using client_poll_served [OF ex_holds(2) [of ex3] range(1) range(1) range(1), where api = "memory_api ex_reading" and cj = ex_answers
        and c = ex_client] range(2)
    by auto
qed

lemma ex_register_accepted:
  "\<exists>s. RegisterAgent id ex_orders ex_time (registered_input ''ucla.a'' ''N'' None []) ex0 =
    (Inr (registered_agent ex_time (registered_input ''ucla.a'' ''N'' None []) (sweepLocked ex_orders ex_time ex0)), s)"
proof -
  let ?s = "sweepLocked ex_orders ex_time ex0" and ?i = "registered_input ''ucla.a'' ''N'' None []"
  have pol: "same_policy ex0" "same_policy ?s"
    by (simp_all add: same_policy_sweep) (simp_all add: same_policy_def ex_policy_def ex0_fields)
  have "normalizeScopes [] = Inr []" "normalizeSharedGrants [] = Inr []" by code_simp+
  then have "register_check id ?i ex0 = None"
    by (simp add: registered_input_def register_check_def register_mode_def Let_def ex_names
        same_policy_eval [OF pol(1)] ex_policy_names)
  moreover have "TrimSpace (ra_AgentID ?i) = ''ucla.a''" by (simp add: registered_input_def ex_names)
  ultimately show ?thesis
    by (simp add: RegisterAgent_def Let_def registered_agent_def same_policy_eval [OF pol(2)] ex_policy_names)
qed

theorem client_registration_witness:
  "\<exists>sv'. RegisterAgentWithDescription (server_network (memory_api ex_moment) ex_net_env (cl_baseURL ex_client)) ex_client
      ''ucla.a'' ''N'' None [] ((ex_net_server ex0)\<lparr>sv_agentSecrets := []\<rparr>) = (None, sv') \<and>
    holds_secret ex_net_env sv' ''ucla.a'' ''N''"
proof -
  let ?sv = "(ex_net_server ex0)\<lparr>sv_agentSecrets := []\<rparr>" and ?i = "registered_input ''ucla.a'' ''N'' None []"
  obtain blob where blob: "Marshal (client_register_json (register_payload ''ucla.a'' ''N'' None [])) = Some blob" "blob \<noteq> []"
    by (simp add: client_register_json_def register_payload_def json_slice_def json_object_def omit_str_def omit_strs_def)
  have fits: "body_fits ?sv blob" using blob(2) by (simp add: body_fits_def ex_net_server_def)
  have decoded: "he_register ex_net_env blob = Inr (registered_request ''ucla.a'' ''N'' None [])" by (simp add: ex_net_env_def)
  have admitted: "isAgentAllowed ?sv (TrimSpace ''ucla.a'')" "TrimSpace ''ucla.a'' \<noteq> []" "TrimSpace ''N'' \<noteq> []"
    "currentAgentSecret ?sv ''ucla.a'' \<in> {None, Some ''N''}" "\<forall>p. he_hmac ex_net_env ''N'' p \<noteq> []"
    by (simp_all add: isAgentAllowed_def ex_net_server_def ex_names ex_secrets currentAgentSecret_def ex_net_env_def)
  obtain s where "RegisterAgent id ex_orders ex_time ?i ex0 =
      (Inr (registered_agent ex_time ?i (sweepLocked ex_orders ex_time ex0)), s)" using ex_register_accepted by blast
  then have stored: "api_RegisterAgent (memory_api ex_moment) ?i (sv_store ?sv) =
      (Inr (registered_agent ex_time ?i (sweepLocked ex_orders ex_time ex0)), s)"
    by (simp add: memory_api_def ex_moment_def ex_net_server_def)
  have name: "a_AgentID (registered_agent ex_time ?i (sweepLocked ex_orders ex_time ex0)) = TrimSpace ''ucla.a''"
    by (simp add: registered_agent_def registered_input_def Let_def)
  have "(case api_SetAgentSecret (memory_api ex_moment) of None \<Rightarrow> (None, s) | Some f \<Rightarrow> f (TrimSpace ''ucla.a'') ''N'' s) = (None, s)"
    by (simp add: memory_api_def)
  from client_registration [OF blob(1) fits decoded admitted stored name this, of ex_client] show ?thesis by blast
qed

end
