(* ===== verification/Pinakes_Boot.thy ===== *)
theory Pinakes_Boot
  imports Pinakes_Main Access
begin

text \<open>
  What a start of the server program establishes: the digests it reads are the ones that were listed, the
  store it runs has the policy that was asked for, and the state of an earlier deployment is not left behind.
\<close>

section \<open>Digests\<close>

lemma prefix_before_sep:
  assumes "is_prefix e (i @ c # t)" and "c \<notin> set e"
  shows "is_prefix e i"
  using assms by (induction e i rule: is_prefix.induct) auto

lemma TrimSpace_entry:
  assumes "TrimSpace i = i" and "c \<notin> \<Union> (set ` set space_runes)" and "t \<noteq> []" and "printable (last t)"
    and "i \<noteq> []"
  shows "TrimSpace (i @ c # t) = i @ c # t"
proof -
  have "starts_with_any space_runes i = None" using TrimSpace_prefix_free [of i] by (simp add: assms(1))
  then have "starts_with_any space_runes (i @ c # t) = None"
    using assms(2) prefix_before_sep [of _ i c t] by (fastforce simp: starts_with_any_None)
  then have "strip space_runes (i @ c # t) = i @ c # t" by (rule strip_id)
  moreover have "starts_with_any (map rev space_runes) (rev (i @ c # t)) = None"
    using assms(3,4) by (cases t rule: rev_cases) (simp_all add: not_space_stop)
  then have "strip (map rev space_runes) (rev (i @ c # t)) = rev (i @ c # t)" by (rule strip_id)
  ultimately show ?thesis by (simp only: TrimSpace_def rev_rev_ident)
qed

text \<open>Text that is trimmed to nothing consists of white space.\<close>

lemma strip_fuel_removed: "\<exists>p. s = p @ strip_fuel n es s \<and> set p \<subseteq> \<Union> (set ` set es)"
proof (induction n arbitrary: s)
  case 0
  then show ?case by simp
next
  case (Suc n)
  show ?case
  proof (cases "starts_with_any es s")
    case None
    then show ?thesis by simp
  next
    case (Some e)
    then have e: "e \<in> set es" "s = e @ drop (length e) s"
      by (auto dest!: starts_with_any_SomeD simp: is_prefix_iff)
    obtain p where "drop (length e) s = p @ strip_fuel n es (drop (length e) s)" "set p \<subseteq> \<Union> (set ` set es)"
      using Suc.IH by blast
    then have "s = (e @ p) @ strip_fuel (Suc n) es s \<and> set (e @ p) \<subseteq> \<Union> (set ` set es)"
      using e Some by (metis (no_types, lifting) Sup_upper Un_least append.assoc image_eqI option.simps(5)
          set_append strip_fuel.simps(2))
    then show ?thesis by blast
  qed
qed

lemma TrimSpace_blank:
  assumes "TrimSpace s = []" shows "set s \<subseteq> \<Union> (set ` set space_runes)"
proof -
  let ?l = "strip space_runes s"
  obtain p where p: "s = p @ ?l" "set p \<subseteq> \<Union> (set ` set space_runes)"
    using strip_fuel_removed [of s "length s" space_runes] by (auto simp: strip_def)
  obtain q where "rev ?l = q @ strip (map rev space_runes) (rev ?l)" "set q \<subseteq> \<Union> (set ` set (map rev space_runes))"
    using strip_fuel_removed [of "rev ?l" "length (rev ?l)" "map rev space_runes"] by (auto simp: strip_def)
  then have "set (rev ?l) \<subseteq> \<Union> (set ` set space_runes)" using assms by (auto simp: TrimSpace_def)
  then show ?thesis using p by (metis Un_least set_append set_rev)
qed

text \<open>An entry as an operator writes it, and what makes a list of entries readable.\<close>

definition hash_entry :: "string \<times> string \<Rightarrow> string" where
  "hash_entry e = fst e @ ''='' @ EncodeToString (snd e)"

fun join_list :: "string list \<Rightarrow> string" where
  "join_list [] = []"
| "join_list [x] = x"
| "join_list (x # y # ys) = x @ CHR '','' # join_list (y # ys)"

definition digest_entry :: "string \<times> string \<Rightarrow> bool" where
  "digest_entry e \<longleftrightarrow>
     fst e \<noteq> [] \<and> TrimSpace (fst e) = fst e \<and> CHR ''='' \<notin> set (fst e) \<and> length (snd e) = 32"

lemma length_EncodeToString: "length (EncodeToString bs) = 2 * length bs"
  by (induction bs) (simp_all add: EncodeToString_def Let_def)

lemma EncodeToString_last: "bs \<noteq> [] \<Longrightarrow> EncodeToString bs \<noteq> [] \<and> printable (last (EncodeToString bs))"
  using set_EncodeToString [of bs] hex_chars_printable EncodeToString_Nil_iff [of bs] last_in_set by blast

lemma parse_hash_entry:
  assumes "digest_entry e" and "\<not> has_key result (fst e)"
  shows "parse_hash_entries Quote (hash_entry e # rest) result = parse_hash_entries Quote rest (result @ [e])"
proof -
  have e: "fst e \<noteq> []" "TrimSpace (fst e) = fst e" "CHR ''='' \<notin> set (fst e)" "length (snd e) = 32"
    using assms(1) by (simp_all add: digest_entry_def)
  then have "snd e \<noteq> []" by auto
  note last = EncodeToString_last [OF this]
  have "CHR ''='' \<notin> \<Union> (set ` set space_runes)" by (simp add: space_runes_def)
  then have "TrimSpace (hash_entry e) = hash_entry e"
    unfolding hash_entry_def using TrimSpace_entry [OF e(2) _ _ _ e(1), of "CHR ''=''"] last by simp
  moreover have "Cut (hash_entry e) (CHR ''='') = (fst e, EncodeToString (snd e), True)"
    using e(3) by (simp add: hash_entry_def Cut_append)
  moreover have "AList.update (fst e) (snd e) result = result @ [e]"
    using assms(2) by (induction result) (auto simp: has_key_def)
  moreover have "hash_entry e \<noteq> []" by (simp add: hash_entry_def)
  ultimately show ?thesis
    using e last assms(2)
    by (simp add: EncodeToString_plain length_EncodeToString DecodeString_EncodeToString)
qed

lemma parse_written_entries:
  "\<forall>e \<in> set es. digest_entry e \<Longrightarrow> keys_distinct (result @ es) \<Longrightarrow>
     parse_hash_entries Quote (map hash_entry es) result = Inr (result @ es)"
proof (induction es arbitrary: result)
  case (Cons e es)
  then have "\<not> has_key result (fst e)" by (auto simp: has_key_iff_mem)
  with Cons show ?case by (simp add: parse_hash_entry del: parse_hash_entries.simps)
qed simp

lemma Split_join_list: "xs \<noteq> [] \<Longrightarrow> \<forall>x \<in> set xs. CHR '','' \<notin> set x \<Longrightarrow> Split (join_list xs) (CHR '','') = xs"
  by (induction xs rule: join_list.induct) (simp_all add: Split_no_sep Split_append)

text \<open>Reading a list of digests gives the identities and digests it was written from.\<close>

theorem ParseSHA256Map_written:
  assumes "\<forall>e \<in> set es. digest_entry e \<and> CHR '','' \<notin> set (fst e)" and "keys_distinct es" and "es \<noteq> []"
  shows "ParseSHA256Map Quote (join_list (map hash_entry es)) = Inr es"
proof -
  have "CHR '','' \<notin> set (hash_entry e)" if "e \<in> set es" for e
    using assms(1) that set_EncodeToString [of "snd e"] by (auto simp: hash_entry_def hex_chars_def)
  then have split: "Split (join_list (map hash_entry es)) (CHR '','') = map hash_entry es"
    using assms(3) by (intro Split_join_list) auto
  have "TrimSpace (join_list (map hash_entry es)) \<noteq> []"
  proof
    assume blank: "TrimSpace (join_list (map hash_entry es)) = []"
    moreover have "CHR ''='' \<notin> \<Union> (set ` set space_runes)" by (simp add: space_runes_def)
    moreover have "CHR ''='' \<in> set (join_list (map hash_entry es))"
      using assms(3) by (cases "map hash_entry es" rule: join_list.cases) (auto simp: hash_entry_def)
    ultimately show False using TrimSpace_blank by blast
  qed
  then show ?thesis
    using parse_written_entries [of es "[]" Quote] assms(1,2) by (simp add: ParseSHA256Map_def split)
qed


lemma parsed_digests:
  "parse_hash_entries Quote entries result = Inr m \<Longrightarrow> \<forall>(a, d) \<in> set result. length d = 32 \<Longrightarrow>
     \<forall>(a, d) \<in> set m. length d = 32"
proof (induction Quote entries result rule: parse_hash_entries.induct)
  case (2 Quote rawEntry rest result)
  obtain before after ok where c: "Cut (TrimSpace rawEntry) (CHR ''='') = (before, after, ok)" by (metis prod_cases3)
  obtain d where d: "DecodeString (TrimSpace after) = Some d" "length (TrimSpace after) = 64" "\<not> has_key result (TrimSpace before)"
    and rec: "parse_hash_entries Quote rest (AList.update (TrimSpace before) d result) = Inr m"
    and steps: "TrimSpace rawEntry \<noteq> []" "ok" "TrimSpace before \<noteq> []" "TrimSpace after \<noteq> []"
    using "2.prems"(1) c by (auto simp: Let_def split: if_splits option.splits)
  have "length d = 32" using DecodeString_length [OF d(1)] d(2) by simp
  moreover have "AList.update (TrimSpace before) d result = result @ [(TrimSpace before, d)]"
    using d(3) by (induction result) (auto simp: has_key_def)
  ultimately have "\<forall>(a, d) \<in> set (AList.update (TrimSpace before) d result). length d = 32"
    using "2.prems"(2) by auto
  then show ?case using "2.IH" [OF refl steps(1) c [symmetric] refl refl refl] rec d steps by simp
qed simp

section \<open>What a start establishes\<close>

definition running_store :: "running \<Rightarrow> store" where
  "running_store r =
     (case r of
        RunningSqlite sv \<Rightarrow> fst (sv_store sv)
      | RunningMemory sv \<Rightarrow> sv_store sv
      | RunningPersistent sv \<Rightarrow> pst_inner (sv_store sv))"

lemma boot_server_store: "boot_server b api st = Inr sv \<Longrightarrow> sv_store sv = st"
proof -
  have kept: "sv_store (fold (\<lambda>k v. if P k then v\<lparr>sv_agentSecrets := f k v\<rparr> else v) ks w) = sv_store w" for P f ks and w :: "'a server"
    by (rule fold_keeps_eq) simp
  show "boot_server b api st = Inr sv \<Longrightarrow> sv_store sv = st"
    by (auto simp: boot_server_def NewServerFromEnv_def loadPersistedAgentSecrets_def Let_def kept
        split: sum.splits option.splits if_splits)
qed

text \<open>Loading rows into a store does not touch its policy.\<close>

lemma load_receipts_policy:
  "load_receipts rs s = Inr s' \<Longrightarrow> s_cfg s' = s_cfg s \<and> s_controlPlaneAgents s' = s_controlPlaneAgents s"
  by (induction rs arbitrary: s) (fastforce split: sum.splits)+

lemma load_policy:
  "s_cfg (loadCounters db s) = s_cfg s" "s_controlPlaneAgents (loadCounters db s) = s_controlPlaneAgents s"
  "s_cfg (loadAgents db s) = s_cfg s" "s_controlPlaneAgents (loadAgents db s) = s_controlPlaneAgents s"
  "s_cfg (loadConversations db s) = s_cfg s" "s_controlPlaneAgents (loadConversations db s) = s_controlPlaneAgents s"
  "s_cfg (loadMessages db s) = s_cfg s" "s_controlPlaneAgents (loadMessages db s) = s_controlPlaneAgents s"
  "s_cfg (loadConversationMessages db s) = s_cfg s"
  "s_controlPlaneAgents (loadConversationMessages db s) = s_controlPlaneAgents s"
  by (auto simp: loadCounters_def loadAgents_def loadConversations_def loadMessages_def loadConversationMessages_def
      Let_def intro!: fold_keeps_eq)

lemma loadAll_policy:
  assumes "loadAll io now db s = Inr s'"
  shows "s_cfg s' = s_cfg s \<and> s_controlPlaneAgents s' = s_controlPlaneAgents s"
  using assms
  by (auto simp: loadAll_def loadIdempotency_def load_policy dest: load_receipts_policy split: option.splits)

lemma started_policy:
  assumes "NewSQLiteStore rk allowlist epoch io now cfg db = (Inr s, q)"
  obtains inner where "NewStore rk allowlist epoch cfg = Inr inner" "s_cfg s = s_cfg inner"
    "s_controlPlaneAgents s = s_controlPlaneAgents inner" "st_open io = None"
  using assms
  by (auto simp: NewSQLiteStore_def Let_def dest: loadAll_policy split: sum.splits option.splits prod.splits)

lemma persistent_policy:
  assumes "NewPersistentStore rk allowlist epoch io file path cfg = Inr p"
  obtains inner where "NewStore rk allowlist epoch cfg = Inr inner" "s_cfg (pst_inner p) = s_cfg inner"
    "s_controlPlaneAgents (pst_inner p) = s_controlPlaneAgents inner"
  using assms
  by (auto simp: NewPersistentStore_def load_state_def applyState_def Let_def split: sum.splits option.splits if_splits)


text \<open>The policy a configuration of \<^verbatim>\<open>main\<close> gives a store.\<close>

definition asked_policy :: "boot \<Rightarrow> string gomap \<Rightarrow> store \<Rightarrow> bool" where
  "asked_policy b hashes s \<longleftrightarrow>
     config_ok (s_cfg s) \<and> cfg_ControlPlaneAgentSecretHashes (s_cfg s) = hashes \<and>
     (\<forall>a. has_key hashes a \<longleftrightarrow> a \<in> set (s_controlPlaneAgents s)) \<and> (\<forall>(a, d) \<in> set hashes. length d = 32) \<and>
     (cfg_NamespaceMode (s_cfg s) = NamespaceModeStrict \<longleftrightarrow> TrimSpace (bt_Getenv b ''BUS_NAMESPACE_MODE'') = ''strict'') \<and>
     (cfg_LegacyScope (s_cfg s) = ScopePersonal \<longleftrightarrow> TrimSpace (bt_Getenv b ''BUS_LEGACY_SCOPE'') = ''personal'')"

lemma asked_policy_new:
  assumes "parseNamespaceConfig Quote (bt_Getenv b ''BUS_NAMESPACE_MODE'') (bt_Getenv b ''BUS_LEGACY_SCOPE'') = Inr (mode, legacy)"
    and "ParseSHA256Map Quote (bt_Getenv b ''CONTROL_PLANE_AGENT_SECRET_HASHES'') = Inr hashes"
    and "NewStore rk allowlist epoch (main_config (bt_Getenv b) mode legacy hashes) = Inr inner"
    and "s_cfg s = s_cfg inner" and "s_controlPlaneAgents s = s_controlPlaneAgents inner"
  shows "asked_policy b hashes s"
proof -
  have mode: "mode = (if TrimSpace (bt_Getenv b ''BUS_NAMESPACE_MODE'') = ''strict'' then NamespaceModeStrict else NamespaceModeCompat)"
    "legacy = (if TrimSpace (bt_Getenv b ''BUS_LEGACY_SCOPE'') = ''personal'' then ScopePersonal else ScopeUCLA)"
    using assms(1) by (auto simp: parseNamespaceConfig_def Let_def split: if_splits)
  have digests: "\<forall>(a, d) \<in> set hashes. length d = 32"
  proof (cases "TrimSpace (bt_Getenv b ''CONTROL_PLANE_AGENT_SECRET_HASHES'') = []")
    case True
    then show ?thesis using assms(2) by (simp add: ParseSHA256Map_def)
  next
    case False
    then have "parse_hash_entries Quote (Split (bt_Getenv b ''CONTROL_PLANE_AGENT_SECRET_HASHES'') (CHR '','')) [] = Inr hashes"
      using assms(2) by (simp add: ParseSHA256Map_def)
    then show ?thesis by (rule parsed_digests) simp
  qed
  have norm: "cfg_ControlPlaneAgentSecretHashes (normalize_config c) = cfg_ControlPlaneAgentSecretHashes c"
    "cfg_NamespaceMode (normalize_config c) = (if cfg_NamespaceMode c = NamespaceModeStrict then NamespaceModeStrict else NamespaceModeCompat)"
    "cfg_LegacyScope (normalize_config c) = (if cfg_LegacyScope c = ScopePersonal then ScopePersonal else ScopeUCLA)" for c
    by (simp_all add: normalize_config_def)
  have conf: "cfg_ControlPlaneAgentSecretHashes (main_config g m l h) = h" "cfg_NamespaceMode (main_config g m l h) = m"
    "cfg_LegacyScope (main_config g m l h) = l" for g m l h
    by (simp_all add: main_config_def)
  obtain parts: "\<forall>a. has_key hashes a \<longleftrightarrow> a \<in> set (s_controlPlaneAgents inner)"
    "s_cfg inner = normalize_config ((main_config (bt_Getenv b) mode legacy hashes)\<lparr>cfg_ControlPlaneAgents := s_controlPlaneAgents inner\<rparr>)"
    using new_store_parts [OF assms(3)] by (metis conf(1))
  show ?thesis
    using digests parts(1) unfolding asked_policy_def assms(4,5) parts(2)
    by (simp add: config_ok_normalize norm conf mode)
qed

text \<open>What a start does to the files: the database of a start on SQLite is there, and no state file is left beside it.\<close>

definition started_files :: "boot \<Rightarrow> running \<Rightarrow> migration_files \<Rightarrow> migration_files \<Rightarrow> bool" where
  "started_files b r fs fs' \<longleftrightarrow>
     (case r of
        RunningSqlite sv \<Rightarrow>
          mf_db fs' = Some (sq_db (snd (sv_store sv))) \<and> mf_state fs' = (if mf_db fs = None then None else mf_state fs)
      | RunningMemory sv \<Rightarrow> fs' = fs
      | RunningPersistent sv \<Rightarrow> fs' = fs)"

fun backend_of :: "running \<Rightarrow> backend" where
  "backend_of (RunningSqlite sv) = SqliteBackend"
| "backend_of (RunningMemory sv) = MemoryBackend"
| "backend_of (RunningPersistent sv) = PersistentBackend"

lemma migrated_files:
  assumes "MigrateJSONStateToSQLite io R statePath dbPath cfg now fs = (Inr moved, fs')" and "statePath \<noteq> []" "dbPath \<noteq> []"
  shows "mf_state fs' = (if mf_db fs = None then None else mf_state fs)"
proof -
  have frame: "mf_state (remove_tmp c g) = mf_state g" for c g by (simp add: remove_tmp_def)
  show ?thesis
    using assms by (auto simp: MigrateJSONStateToSQLite_def Let_def frame split: option.splits sum.splits if_splits)
qed

lemma boot_sqlite_started:
  assumes "boot_sqlite b cfg fs = (Inr r, fs')"
  obtains sv inner where "r = RunningSqlite sv" "started_files b r fs fs'"
    "NewStore (bt_ranking b) (bt_Getenv b ''HUMAN_ALLOWLIST'') (bt_epoch b) cfg = Inr inner"
    "s_cfg (running_store r) = s_cfg inner" "s_controlPlaneAgents (running_store r) = s_controlPlaneAgents inner"
proof -
  let ?state = "chosen_statePath (bt_Getenv b)"
  define dbPath where "dbPath = (if chosen_dbPath (bt_Getenv b) (bt_dbFlag b) = [] then ''./data/bus.db'' else chosen_dbPath (bt_Getenv b) (bt_dbFlag b))"
  have paths: "?state \<noteq> []" "dbPath \<noteq> []" by (simp_all add: chosen_statePath_def dbPath_def)
  obtain moved fs1 s q sv where steps:
    "MigrateJSONStateToSQLite (bt_migration b) (bt_orders b) ?state dbPath cfg (bt_now b) fs = (Inr moved, fs1)"
    "NewSQLiteStore (bt_ranking b) (bt_Getenv b ''HUMAN_ALLOWLIST'') (bt_epoch b) (bt_start b) (bt_now b) cfg
       (case mf_db fs1 of Some db \<Rightarrow> db | None \<Rightarrow> empty_db) = (Inr s, q)"
    "boot_server b (sqlite_api (bt_sqlite b)) (s, q) = Inr sv" "r = RunningSqlite sv" "fs' = keep_db b (sq_db q) fs1"
    using assms unfolding boot_sqlite_def Let_def dbPath_def [symmetric]
    by (auto split: prod.splits sum.splits persistent_error.splits simp: map_sum_def)
  obtain inner where inner: "NewStore (bt_ranking b) (bt_Getenv b ''HUMAN_ALLOWLIST'') (bt_epoch b) cfg = Inr inner"
    "s_cfg s = s_cfg inner" "s_controlPlaneAgents s = s_controlPlaneAgents inner" "st_open (bt_start b) = None"
    using started_policy [OF steps(2)] .
  have st: "sv_store sv = (s, q)" by (rule boot_server_store [OF steps(3)])
  have "started_files b r fs fs'"
    using migrated_files [OF steps(1) paths] inner(4) by (simp add: started_files_def steps(4,5) st keep_db_def)
  then show ?thesis using that [OF steps(4)] inner by (simp add: running_store_def steps(4) st)
qed


text \<open>
  C37. What the server program starts is what its environment asks for. When \<^verbatim>\<open>main\<close> gets as far as
  listening, the running store has the namespace mode and the legacy scope that were named (strict only
  when asked for), and exactly the control-plane identities that have a digest in the list, each of 32 bytes;
  the backend is SQLite whenever a database path is given or no backend is named; and on SQLite either the
  database existed or no state file is left behind, so a live state file is never shadowed by a new database,
  while the other backends leave the files alone.
\<close>

theorem boot_as_configured:
  assumes "pinakes_main Quote b fs = (Inr r, fs')"
  shows "\<exists>hashes. ParseSHA256Map Quote (bt_Getenv b ''CONTROL_PLANE_AGENT_SECRET_HASHES'') = Inr hashes \<and>
    asked_policy b hashes (running_store r) \<and> started_files b r fs fs' \<and>
    (let name = TrimSpace (bt_Getenv b ''STORE_BACKEND'') in
     backend_of r = (if bt_dbFlag b \<noteq> [] \<or> bt_Getenv b ''DB_PATH'' \<noteq> [] \<or> name \<in> {[], ''sqlite''} then SqliteBackend
       else if name = ''memory'' then MemoryBackend else PersistentBackend))"
proof -
  obtain mode legacy where ns:
    "parseNamespaceConfig Quote (bt_Getenv b ''BUS_NAMESPACE_MODE'') (bt_Getenv b ''BUS_LEGACY_SCOPE'') = Inr (mode, legacy)"
    using assms by (auto simp: pinakes_main_def Let_def split: sum.splits)
  obtain hashes where hs: "ParseSHA256Map Quote (bt_Getenv b ''CONTROL_PLANE_AGENT_SECRET_HASHES'') = Inr hashes"
    using assms ns by (auto simp: pinakes_main_def Let_def split: sum.splits)
  define cfg where "cfg = main_config (bt_Getenv b) mode legacy hashes"
  have run: "(case chosen_backend (bt_Getenv b) (bt_dbFlag b) of SqliteBackend \<Rightarrow> boot_sqlite b cfg fs
      | MemoryBackend \<Rightarrow> (boot_memory b cfg, fs) | PersistentBackend \<Rightarrow> (boot_persistent b cfg fs, fs)) = (Inr r, fs')"
    using assms unfolding cfg_def by (simp add: pinakes_main_def Let_def ns hs)
  obtain inner where started: "NewStore (bt_ranking b) (bt_Getenv b ''HUMAN_ALLOWLIST'') (bt_epoch b) cfg = Inr inner"
    "s_cfg (running_store r) = s_cfg inner" "s_controlPlaneAgents (running_store r) = s_controlPlaneAgents inner"
    "started_files b r fs fs'" "backend_of r = chosen_backend (bt_Getenv b) (bt_dbFlag b)"
  proof (cases "chosen_backend (bt_Getenv b) (bt_dbFlag b)")
    case SqliteBackend
    then have "boot_sqlite b cfg fs = (Inr r, fs')" using run by simp
    then show ?thesis using SqliteBackend by (elim boot_sqlite_started) (auto intro: that)
  next
    case MemoryBackend
    then have "boot_memory b cfg = Inr r" and same: "fs' = fs" using run by simp_all
    then show ?thesis using MemoryBackend
      by (auto simp: same boot_memory_def map_sum_def running_store_def started_files_def intro!: that
          dest: boot_server_store split: sum.splits)
  next
    case PersistentBackend
    then have "boot_persistent b cfg fs = Inr r" and same: "fs' = fs" using run by auto
    then show ?thesis using PersistentBackend
      by (auto simp: same boot_persistent_def map_sum_def running_store_def started_files_def intro!: that
          dest!: boot_server_store elim!: persistent_policy split: sum.splits)
  qed
  have "asked_policy b hashes (running_store r)"
    by (rule asked_policy_new [OF ns hs started(1) [unfolded cfg_def] started(2,3)])
  moreover have "chosen_backend (bt_Getenv b) (bt_dbFlag b) =
      (let name = TrimSpace (bt_Getenv b ''STORE_BACKEND'') in
       if bt_dbFlag b \<noteq> [] \<or> bt_Getenv b ''DB_PATH'' \<noteq> [] \<or> name \<in> {[], ''sqlite''} then SqliteBackend
       else if name = ''memory'' then MemoryBackend else PersistentBackend)"
    by (auto simp: chosen_backend_def chosen_dbPath_def Let_def)
  ultimately show ?thesis using hs started(4,5) by (simp add: Let_def)
qed


definition ex_Getenv :: "string \<Rightarrow> string" where
  "ex_Getenv = (\<lambda>_. [])(''STORE_BACKEND'' := '' memory'', ''BUS_NAMESPACE_MODE'' := ''strict'',
     ''CONTROL_PLANE_AGENTS'' := ''router'',
     ''CONTROL_PLANE_AGENT_SECRET_HASHES'' := ''router='' @ replicate 64 (CHR ''0''))"

definition ex_boot :: boot where
  "ex_boot = \<lparr>bt_Getenv = ex_Getenv, bt_dbFlag = [], bt_readFile = Inr,
     bt_migration = \<lparr>mi_stat = None, mi_read = None, mi_remove = False, mi_unmarshal = None, mi_mkdir = None,
       mi_import = None, mi_clean = True, mi_rename_db = None, mi_rename_state = None\<rparr>,
     bt_start = \<lparr>st_open = None, st_backfill = None, st_recover = None, st_prune = [], st_load = None\<rparr>,
     bt_load = load_fine, bt_persist = io_fine, bt_watch = None, bt_orders = ex_orders, bt_ranking = (\<lambda>_. 0),
     bt_now = ex_time, bt_epoch = ''e'', bt_moment = \<lparr>mo_sha256 = id, mo_orders = ex_orders, mo_now = ex_time, mo_turns = []\<rparr>, bt_sqlite = ex_sqlite_moment\<rparr>"

definition ex_files :: migration_files where
  "ex_files = \<lparr>mf_state = None, mf_migrated = None, mf_db = None, mf_tmp = None\<rparr>"

lemma ex_boot_started:
  "\<exists>sv. pinakes_main id ex_boot ex_files = (Inr (RunningMemory sv), ex_files) \<and> s_controlPlaneAgents (sv_store sv) = [''router'']"
proof -
  let ?hashes = "[(''router'', replicate 32 (CHR 0x00))]"
  let ?cfg = "main_config ex_Getenv NamespaceModeStrict ScopeUCLA ?hashes"
  have "parseNamespaceConfig id (ex_Getenv ''BUS_NAMESPACE_MODE'') (ex_Getenv ''BUS_LEGACY_SCOPE'') =
      Inr (NamespaceModeStrict, ScopeUCLA)" by code_simp
  moreover have "ParseSHA256Map id (ex_Getenv ''CONTROL_PLANE_AGENT_SECRET_HASHES'') = Inr ?hashes" by code_simp
  moreover have "chosen_backend ex_Getenv [] = MemoryBackend" by code_simp
  moreover obtain s where s: "NewStore (\<lambda>_. 0) [] ''e'' ?cfg = Inr s" "s_agents s = []"
    "s_controlPlaneAgents s = [''router'']"
  proof -
    have "NormalizeControlPlaneAgents (cfg_ControlPlaneAgents ?cfg) = Inr [''router'']" by code_simp
    moreover have "check_control_plane_hashes ?hashes [''router''] = None" by code_simp
    moreover have "check_hash_identities [''router''] [''router''] = None" by code_simp
    moreover have "cfg_ControlPlaneAgentSecretHashes ?cfg = ?hashes" by (simp add: main_config_def)
    ultimately show ?thesis
      by (intro that [of "new_store_state (normalize_config (?cfg\<lparr>cfg_ControlPlaneAgents := [''router'']\<rparr>)) [''router'']
            (parse_allowlist []) ''e''"])
        (simp_all add: NewStore_def Let_def range_keys_def new_store_state_def
          del: check_control_plane_hashes.simps check_hash_identities.simps)
  qed
  moreover have "ex_Getenv ''HUMAN_ALLOWLIST'' = []" by code_simp
  moreover obtain sv where "boot_server ex_boot (memory_api (bt_moment ex_boot)) s = Inr sv" "sv_store sv = s"
  proof -
    have e: "ex_Getenv ''ALLOWLIST_FILE'' = []" "ex_Getenv ''AGENT_ALLOWLIST'' = []" "ex_Getenv ''MAX_BODY_BYTES'' = []"
      by code_simp+
    have "TrimSpace [] = []" "parseMaxBodyBytes [] = Inr 2097152" by code_simp+
    then show ?thesis using that s(2)
      by (simp add: boot_server_def ex_boot_def NewServerFromEnv_def e loadPersistedAgentSecrets_def memory_api_def Let_def)
  qed
  ultimately show ?thesis using s(3)
    by (simp add: pinakes_main_def boot_memory_def) (simp add: ex_boot_def pinakes_main_def boot_memory_def)
qed

theorem boot_as_configured_witness:
  "\<exists>r. pinakes_main id ex_boot ex_files = (Inr r, ex_files) \<and> backend_of r = MemoryBackend \<and>
     cfg_NamespaceMode (s_cfg (running_store r)) = NamespaceModeStrict"
proof -
  obtain sv where "pinakes_main id ex_boot ex_files = (Inr (RunningMemory sv), ex_files)"
    using ex_boot_started by blast
  moreover have "TrimSpace (bt_Getenv ex_boot ''BUS_NAMESPACE_MODE'') = ''strict''" by code_simp
  ultimately show ?thesis using boot_as_configured [of id ex_boot ex_files "RunningMemory sv" ex_files]
    by (auto simp: asked_policy_def)
qed

end
