(* ===== verification/Pinakes_Rehearsal.thy ===== *)
theory Pinakes_Rehearsal
  imports Pinakes_Boot
begin

text \<open>
  The rehearsal of a strict-mode start on an empty database, \<^verbatim>\<open>cmd/pinakes-empty-strict-rehearsal\<close>. It drives
  the store of \<open>Sqlite_Store\<close> and the HTTP server of \<open>Http_Handlers\<close>, here with a record of surroundings
  for each call. The second part shows what a passed rehearsal has established.
\<close>

section \<open>The program\<close>

record rehearsalReport =
  hr_Status :: string
  hr_NamespaceMode :: string
  hr_EmptyBeforeRegistration :: bool
  hr_RegisteredAgents :: "string list"
  hr_UnlistedUnprefixedRejected :: bool
  hr_DistinctSyntheticSecrets :: bool
  hr_ControlPlaneAllScopes :: bool
  hr_WrongCredentialRejected :: bool
  hr_MissingCredentialRejected :: bool

record rehearsal_flags =
  fr_db :: string
  fr_allowlist :: string
  fr_agents :: string
  fr_NArg :: nat

text \<open>
  \<open>rh_Exists\<close> and \<open>rh_Stat\<close> are the answer of \<^verbatim>\<open>Lstat\<close>; \<open>rh_Moment\<close> has the surroundings of the n-th call on
  the store, all with the same SHA-256.
\<close>

record rehearsal_io =
  rh_Getenv :: "string \<Rightarrow> string"
  rh_Exists :: bool
  rh_Stat :: "string option"
  rh_Start :: start_io
  rh_now :: time
  rh_epoch :: string
  rh_Setenv :: "string option"
  rh_readFile :: "string \<Rightarrow> string + string"
  rh_ranking :: ranking
  rh_env :: http_env
  rh_sha256 :: "string \<Rightarrow> string"
  rh_Moment :: "nat \<Rightarrow> sqlite_moment"
  rh_Secrets :: "string option"
  rh_Writable :: bool

type_synonym rehearsal_server = "sqlite_store server"

definition rehearsal_moment :: "rehearsal_io \<Rightarrow> nat \<Rightarrow> sqlite_moment" where
  "rehearsal_moment io n = (rh_Moment io n)\<lparr>qm_sha256 := rh_sha256 io\<rparr>"

definition syntheticControlPlaneSecret :: "string \<Rightarrow> string" where
  "syntheticControlPlaneSecret agentID = ''fabricated-empty-store-control-plane-secret:'' @ agentID"

definition rehearsal_config :: "rehearsal_io \<Rightarrow> string list \<Rightarrow> config" where
  "rehearsal_config io controlPlaneAgents =
     \<lparr>cfg_GracePeriod = 0, cfg_ProgressMinInterval = 0, cfg_IdempotencyWindow = 0, cfg_InboxWaitMax = 0,
      cfg_AckTimeout = 0, cfg_DefaultMessageTTL = 0, cfg_DefaultRegistrationTTL = 0, cfg_PushMaxAttempts = 0,
      cfg_PushBaseBackoff = 0, cfg_PushQueueSize = 0, cfg_PushWorkers = 0, cfg_PushShutdownTimeout = 0,
      cfg_MaxInboxEventsPerAgent = 0, cfg_MaxObserveEvents = 0, cfg_MaxInboxBytesPerAgent = 0,
      cfg_MaxObserveBytes = 0, cfg_MessageRetention = 0, cfg_MessageMaxAge = 0, cfg_ConversationRetention = 0,
      cfg_AgentRetention = 0, cfg_SweepMinInterval = 0, cfg_NamespaceMode = NamespaceModeStrict,
      cfg_LegacyScope = ScopeOther [], cfg_SharedGrantAgents = [], cfg_ControlPlaneAgents = controlPlaneAgents,
      cfg_ControlPlaneAgentSecretHashes =
        fold (\<lambda>agentID. AList.update agentID (rh_sha256 io (syntheticControlPlaneSecret agentID))) controlPlaneAgents []\<rparr>"

text \<open>One registration through the HTTP handler: the status of the response.\<close>

definition register_body :: "string \<Rightarrow> string \<Rightarrow> string" where
  "register_body agentID secret =
     (case Marshal (JMap [(''agent_id'', JStr agentID), (''mode'', JStr ''pull''), (''ttl'', JNum ''60''),
                          (''secret'', JStr secret)]) of None \<Rightarrow> [] | Some body \<Rightarrow> body)"

definition rehearsal_register ::
  "rehearsal_io \<Rightarrow> nat \<Rightarrow> string \<Rightarrow> string \<Rightarrow> rehearsal_server \<Rightarrow> int option \<times> rehearsal_server" where
  "rehearsal_register io n agentID secret sv =
     (case ServeHTTP (sqlite_api (rehearsal_moment io n)) (rh_env io) True []
             \<lparr>rq_Method = ''POST'', rq_Path = ''/v1/agents/register'', rq_RawQuery = [],
              rq_Header = [(''Content-Type'', ''application/json'')],
              rq_Body = Some (register_body agentID secret, None)\<rparr> sv of
        (response, sv') \<Rightarrow> (map_option rs_Status response, sv'))"

text \<open>The probes with a wrong and with a missing credential; \<open>n\<close> counts the calls.\<close>

fun probe_rounds ::
  "rehearsal_io \<Rightarrow> nat \<Rightarrow> string list \<Rightarrow> bool \<times> bool \<Rightarrow> rehearsal_server \<Rightarrow> (bool \<times> bool) \<times> rehearsal_server" where
  "probe_rounds io n [] flags sv = (flags, sv)"
| "probe_rounds io n (agentID # agents) flags sv =
     (case rehearsal_register io n agentID ''fabricated-wrong-control-plane-secret'' sv of
        (wrong, sv1) \<Rightarrow>
          (case rehearsal_register io (n + 1) agentID [] sv1 of
             (missing, sv2) \<Rightarrow>
               probe_rounds io (n + 2) agents
                 (fst flags \<and> wrong = Some 401, snd flags \<and> missing = Some 400) sv2))"

definition rehearsal_secret :: "string list \<Rightarrow> nat \<Rightarrow> string \<Rightarrow> string" where
  "rehearsal_secret controlPlaneAgents index agentID =
     (if agentID \<in> set controlPlaneAgents then syntheticControlPlaneSecret agentID
      else ''synthetic-registration-secret-'' @ pad_zeros 3 (decimal (int index + 1)))"

text \<open>The registrations; the result is \<open>None\<close> after the first that is refused.\<close>

fun register_agents ::
  "rehearsal_io \<Rightarrow> string list \<Rightarrow> nat \<Rightarrow> nat \<Rightarrow> string list \<Rightarrow> string list \<Rightarrow> rehearsal_server \<Rightarrow>
     string list option \<times> rehearsal_server" where
  "register_agents io controlPlaneAgents n index registered [] sv = (Some registered, sv)"
| "register_agents io controlPlaneAgents n index registered (agentID # agents) sv =
     (if agentID \<in> set registered then register_agents io controlPlaneAgents n (index + 1) registered agents sv
      else (case rehearsal_register io (n + index) agentID (rehearsal_secret controlPlaneAgents index agentID) sv of
        (status, sv1) \<Rightarrow>
          if status \<noteq> Some 200 then (None, sv1)
          else register_agents io controlPlaneAgents n (index + 1) (registered @ [agentID]) agents sv1))"

definition list_agents :: "rehearsal_io \<Rightarrow> nat \<Rightarrow> sqlite_store \<Rightarrow> agent list \<times> sqlite_store" where
  "list_agents io n = on_store (ListAgents (qm_orders (rehearsal_moment io n)) (qm_now (rehearsal_moment io n)) [])"

definition all_scopes_listed :: "string list \<Rightarrow> agent list \<Rightarrow> bool" where
  "all_scopes_listed controlPlaneAgents agents \<longleftrightarrow>
     list_ex (\<lambda>agent. list_ex (\<lambda>controlPlaneID. a_AgentID agent = controlPlaneID \<and>
       join_comma (a_AllowedScopes agent) = ''personal,ucla,shared'') controlPlaneAgents) agents"

definition unlisted_agent :: register_agent_input where
  "unlisted_agent =
     \<lparr>ra_AgentID = ''synthetic-unlisted'', ra_Secret = [], ra_AllowedScopes = [], ra_SharedGrants = [],
      ra_Capabilities = [], ra_Version = [], ra_Description = [], ra_AgentClass = [], ra_MutationClass = [],
      ra_Build = None, ra_Meta = None, ra_Mode = AgentModePull, ra_CallbackURL = [], ra_TTLSeconds = 0\<rparr>"

text \<open>From the server that was started on the new database: the exit code and the report that is written.\<close>

definition rehearse ::
  "rehearsal_io \<Rightarrow> string list \<Rightarrow> string list \<Rightarrow> bool \<Rightarrow> rehearsal_server \<Rightarrow> int \<times> rehearsalReport option" where
  "rehearse io controlPlaneAgents agents emptyBefore sv =
     (let p = length controlPlaneAgents; a = length agents in
      case probe_rounds io 1 controlPlaneAgents (True, True) sv of
        ((wrong, missing), sv1) \<Rightarrow>
     (case list_agents io (2 * p + 1) (sv_store sv1) of
        (listed, st1) \<Rightarrow>
      if listed \<noteq> [] then (1, None)
      else (case register_agents io controlPlaneAgents (2 * p + 2) 0 [] agents (sv1\<lparr>sv_store := st1\<rparr>) of
        (None, sv2) \<Rightarrow> (1, None)
      | (Some registered, sv2) \<Rightarrow>
     (case SQLiteStore_RegisterAgent (rehearsal_moment io (2 * p + a + 2)) unlisted_agent (sv_store sv2) of
        (strict, st3) \<Rightarrow>
     (case SQLiteStore_AgentSecrets (rh_Secrets io) st3 of
        Inl err \<Rightarrow> (1, None)
      | Inr secrets \<Rightarrow>
     (case list_agents io (2 * p + a + 3) st3 of
        (final, st4) \<Rightarrow>
          (let report = \<lparr>hr_Status = ''refused'', hr_NamespaceMode = ''strict'', hr_EmptyBeforeRegistration = emptyBefore,
                 hr_RegisteredAgents = registered, hr_UnlistedUnprefixedRejected = isl strict,
                 hr_DistinctSyntheticSecrets =
                   (length (remdups (map (get_or [] secrets) registered)) = length registered),
                 hr_ControlPlaneAllScopes = all_scopes_listed controlPlaneAgents final,
                 hr_WrongCredentialRejected = wrong, hr_MissingCredentialRejected = missing\<rparr> in
           if \<not> hr_EmptyBeforeRegistration report \<or> \<not> hr_UnlistedUnprefixedRejected report \<or>
              \<not> hr_DistinctSyntheticSecrets report \<or> \<not> hr_ControlPlaneAllScopes report \<or>
              \<not> hr_WrongCredentialRejected report \<or> \<not> hr_MissingCredentialRejected report then (1, None)
           else if \<not> rh_Writable io then (1, None)
           else (0, Some (report\<lparr>hr_Status := ''passed''\<rparr>)))))))))"

definition rehearsal_run :: "rehearsal_io \<Rightarrow> rehearsal_flags option \<Rightarrow> int \<times> rehearsalReport option" where
  "rehearsal_run io flags =
     (case flags of
        None \<Rightarrow> (2, None)
      | Some f \<Rightarrow>
          if fr_NArg f \<noteq> 0 \<or> fr_db f = [] \<or> fr_allowlist f = [] \<or> fr_agents f = [] then (2, None)
          else if rh_Stat io \<noteq> None \<or> rh_Exists io then (1, None)
          else
            (let controlPlaneAgents = SplitCSV (rh_Getenv io ''CONTROL_PLANE_AGENTS'');
                 agents = SplitCSV (fr_agents f) @ controlPlaneAgents in
             if controlPlaneAgents = [] then (1, None)
             else (case NewSQLiteStore (rh_ranking io) (rh_Getenv io ''HUMAN_ALLOWLIST'') (rh_epoch io) (rh_Start io)
                    (rh_now io) (rehearsal_config io controlPlaneAgents) empty_db of
               (Inl err, q) \<Rightarrow> (1, None)
             | (Inr s, q) \<Rightarrow>
            (case list_agents io 0 (s, q) of
               (listed, st) \<Rightarrow>
             if rh_Setenv io \<noteq> None then (1, None)
             else (case NewServerFromEnv (rh_ranking io) (sqlite_api (rehearsal_moment io 0))
                    (rh_Getenv io ''AGENT_ALLOWLIST'') (fr_allowlist f) (rh_readFile io) (rh_Getenv io ''MAX_BODY_BYTES'')
                    (rh_Getenv io ''INJECT_TOKENS'') (rh_Getenv io ''OBSERVE_TOKENS'') st of
               Inl err \<Rightarrow> (1, None)
             | Inr sv \<Rightarrow> rehearse io controlPlaneAgents agents (listed = []) sv)))))"


section \<open>What a rehearsal shows\<close>

lemma register_agents_result:
  assumes "register_agents io cps n index registered agents sv = (Some names, sv')" and "distinct registered"
  shows "distinct names \<and> set names = set registered \<union> set agents"
  using assms
  by (induction io cps n index registered agents sv rule: register_agents.induct)
    (auto split: prod.splits if_splits)

text \<open>
  A rehearsal passes only when every check passed: the store was empty, each of the agents and the
  control-plane identities is registered once, and the report says so.
\<close>

lemma rehearsal_passed:
  assumes "rehearsal_run io (Some f) = (0, Some report)"
  shows "hr_Status report = ''passed''" and "hr_EmptyBeforeRegistration report" and "hr_UnlistedUnprefixedRejected report"
    and "hr_DistinctSyntheticSecrets report" and "hr_ControlPlaneAllScopes report"
    and "hr_WrongCredentialRejected report" and "hr_MissingCredentialRejected report"
    and "distinct (hr_RegisteredAgents report)"
    and "set (hr_RegisteredAgents report) =
      set (SplitCSV (fr_agents f)) \<union> set (SplitCSV (rh_Getenv io ''CONTROL_PLANE_AGENTS''))"
    and "\<not> rh_Exists io"
proof -
  let ?cps = "SplitCSV (rh_Getenv io ''CONTROL_PLANE_AGENTS'')"
  let ?agents = "SplitCSV (fr_agents f) @ ?cps"
  obtain emptyBefore sv where new: "\<not> rh_Exists io" and run: "rehearse io ?cps ?agents emptyBefore sv = (0, Some report)"
    using assms by (auto simp: rehearsal_run_def Let_def split: if_splits sum.splits prod.splits)
  obtain n sv1 sv2 where "register_agents io ?cps n 0 [] ?agents sv1 = (Some (hr_RegisteredAgents report), sv2)"
    using run by (auto simp: rehearse_def Let_def split: prod.splits if_splits option.splits sum.splits)
  from register_agents_result [OF this]
  show "distinct (hr_RegisteredAgents report)" "set (hr_RegisteredAgents report) = set (SplitCSV (fr_agents f)) \<union> set ?cps"
    by simp_all
  show "\<not> rh_Exists io" by (rule new)
  show "hr_Status report = ''passed''" "hr_EmptyBeforeRegistration report" "hr_UnlistedUnprefixedRejected report"
    "hr_DistinctSyntheticSecrets report" "hr_ControlPlaneAllScopes report"
    "hr_WrongCredentialRejected report" "hr_MissingCredentialRejected report"
    using run by (auto simp: rehearse_def Let_def split: prod.splits if_splits option.splits sum.splits)
qed

text \<open>
  The probes cannot fail for another reason than the one they look for. On a server that knows no secret
  yet and allows the control-plane identities, each probe with a wrong credential is answered 401, each
  without one 400, and none of them changes anything.
\<close>

definition probe_request :: "string \<Rightarrow> string \<Rightarrow> http_request" where
  "probe_request agentID secret =
     \<lparr>rq_Method = ''POST'', rq_Path = ''/v1/agents/register'', rq_RawQuery = [],
      rq_Header = [(''Content-Type'', ''application/json'')], rq_Body = Some (register_body agentID secret, None)\<rparr>"

definition decodes :: "rehearsal_io \<Rightarrow> rehearsal_server \<Rightarrow> string \<Rightarrow> string \<Rightarrow> bool" where
  "decodes io sv agentID secret \<longleftrightarrow>
     (\<exists>blob req. decode_body sv (probe_request agentID secret) (he_register (rh_env io)) = Inr (blob, req) \<and>
        rr_AgentID req = agentID \<and> rr_Secret req = secret)"

definition guarded :: "rehearsal_io \<Rightarrow> rehearsal_server \<Rightarrow> string \<Rightarrow> bool" where
  "guarded io sv agentID \<longleftrightarrow>
     isAgentAllowed sv agentID \<and> TrimSpace agentID = agentID \<and> agentID \<noteq> [] \<and>
     isControlPlaneAgent (fst (sv_store sv)) agentID \<and>
     rh_sha256 io ''fabricated-wrong-control-plane-secret'' \<noteq>
       get_or (replicate 32 (CHR 0x00)) (cfg_ControlPlaneAgentSecretHashes (s_cfg (fst (sv_store sv)))) agentID"

lemma probe_answers:
  assumes "guarded io sv agentID" and "sv_agentSecrets sv = []"
  shows "decodes io sv agentID ''fabricated-wrong-control-plane-secret'' \<Longrightarrow>
      rehearsal_register io n agentID ''fabricated-wrong-control-plane-secret'' sv = (Some 401, sv)"
    and "decodes io sv agentID [] \<Longrightarrow> rehearsal_register io n agentID [] sv = (Some 400, sv)"
proof -
  have route: "route ''/v1/agents/register'' = Some RegisterAgentEndpoint" by code_simp
  have secrets: "TrimSpace ''fabricated-wrong-control-plane-secret'' \<noteq> []" "TrimSpace [] = []" by code_simp+
  note g = assms(1) [unfolded guarded_def]
  have accepted: "acceptsName (fst (sv_store sv)) agentID" "isConfiguredControlPlaneAgent (fst (sv_store sv)) agentID"
    using g by (simp_all add: acceptsName_def isControlPlaneAgent_def)
  {
    assume "decodes io sv agentID ''fabricated-wrong-control-plane-secret''"
    then obtain blob req where d: "decode_body sv (probe_request agentID ''fabricated-wrong-control-plane-secret'')
        (he_register (rh_env io)) = Inr (blob, req)" "rr_AgentID req = agentID"
      "rr_Secret req = ''fabricated-wrong-control-plane-secret''" by (auto simp: decodes_def)
    have "register_check (rh_sha256 io) input (fst (sv_store sv)) =
        Some (newError CodeUnauthorized ''control-plane registration credential rejected'' False 0)"
      if "ra_AgentID input = agentID" "ra_Secret input = ''fabricated-wrong-control-plane-secret''" for input
      using that g accepted by (simp add: register_check_def Let_def)
    then show "rehearsal_register io n agentID ''fabricated-wrong-control-plane-secret'' sv = (Some 401, sv)"
      using g d secrets(1) assms(2)
      by (simp add: rehearsal_register_def ServeHTTP_def route answered_def handleRegisterAgent_def probe_request_def
          verifyReregistrationProof_def currentAgentSecret_def sqlite_api_def SQLiteStore_RegisterAgent_def
          RegisterAgent_def rehearsal_moment_def Let_def writeBusError.simps newError_def writeJSON_def)
  next
    assume "decodes io sv agentID []"
    then show "rehearsal_register io n agentID [] sv = (Some 400, sv)"
      using g secrets(2)
      by (auto simp: decodes_def rehearsal_register_def ServeHTTP_def route answered_def handleRegisterAgent_def
          probe_request_def Let_def writeBusError.simps writeJSON_def)
  }
qed

lemma probes_pass:
  assumes "\<forall>a \<in> set cps. guarded io sv a \<and> decodes io sv a ''fabricated-wrong-control-plane-secret'' \<and> decodes io sv a []"
    and "sv_agentSecrets sv = []"
  shows "probe_rounds io n cps flags sv = (flags, sv)"
  using assms(1)
  by (induction cps arbitrary: n flags) (simp_all add: probe_answers [OF _ assms(2)])

end
