(* ===== verification/Spec2Isabelle.thy ===== *)
theory Spec2Isabelle
  imports Lifecycle Access Delivery Reading Housekeeping Http_Safety Http_Register Http_Watch Sqlite_Backend Sqlite_Import
    Sqlite_Maintenance Namespace Ns_Compare Ns_Synthetic Client_Examples Pinakes_Boot Pinakes_Rehearsal
begin

text \<open>
  Verification of Pinakes, a message bus for software agents written in Go.

  \<^bold>\<open>The program.\<close> Agents register with the bus, send each other messages in conversations, poll their
  inboxes with long polls or receive push callbacks, acknowledge requests and post progress events;
  observers follow a ring of recent events. \<^verbatim>\<open>pkg/bus/store.go\<close> is the state machine: one mutex-protected
  store that every backend runs. \<^verbatim>\<open>pkg/bus/persistent.go\<close> wraps it and rewrites a state file after each
  mutation; \<^verbatim>\<open>pkg/bus/sqlite.go\<close> and \<^verbatim>\<open>pkg/bus/sqlite_delivery.go\<close> wrap it with durability barriers on
  SQLite. \<^verbatim>\<open>pkg/httpapi\<close> exposes a store over HTTP with signed requests, and \<^verbatim>\<open>pkg/busclient\<close> is the client
  of that interface. \<^verbatim>\<open>cmd/pinakes\<close> reads the environment, opens a store and serves it.
  \<^verbatim>\<open>internal/nsmigrate\<close> moves the identities of a database into namespaces as a reviewed manifest says; the
  other programs under \<^verbatim>\<open>cmd/\<close> run it, derive files from the manifest, compare, generate, compact and
  rehearse databases.

  \<^bold>\<open>Theories and what they model.\<close>

  \<^item> \<open>Go_Prelude\<close>, \<open>Go_Json\<close>, \<open>Go_Net\<close>, \<open>Go_Encode\<close>, \<open>Go_Lines\<close>, \<open>Ns_Csv\<close>: what the source uses of the
    language and its standard library. Strings are byte lists; a Go map is an association list with distinct keys, and a \<^verbatim>\<open>range\<close> over it
    visits the keys in an order given by an argument (\<open>range_keys\<close> with a ranking), so that a theorem
    about a loop over a map holds for every iteration order; times and durations are nanoseconds, and
    arithmetic that can overflow goes through \<open>wrap64\<close>. \<open>json\<close> is the value tree given to
    \<^verbatim>\<open>encoding/json\<close>, and \<open>Marshal\<close> its encoder with the escapes of Go. \<open>Go_Encode\<close> has hex and query
    encoding, \<open>Go_Lines\<close> the stream encoder and that its lines can be taken back, \<open>Ns_Csv\<close> the CSV
    reader and writer.
  \<^item> \<open>Bus_Types\<close> (\<^verbatim>\<open>types.go\<close>, \<^verbatim>\<open>errors.go\<close>): structs as records, string enumerations as datatypes with a
    constructor for any other string, errors as values.
  \<^item> \<open>Bus_Scope\<close> (\<^verbatim>\<open>scope.go\<close> and the authorization functions of \<^verbatim>\<open>store.go\<close>): the scopes
    \<^verbatim>\<open>personal\<close>, \<^verbatim>\<open>ucla\<close>, \<^verbatim>\<open>shared\<close>, control-plane identities and grants.
  \<^item> \<open>Bus_State\<close>: the record \<open>store\<close> (\<^verbatim>\<open>Store\<close>), inboxes, the observer ring and the notification channels.
    The locale \<open>cursor_log\<close> is the contract of a buffer read through a cursor; inboxes and the ring
    both satisfy it.
  \<^item> \<open>Bus_Sweep\<close> (\<^verbatim>\<open>sweepLocked\<close>, \<^verbatim>\<open>pruneLocked\<close>), \<open>Bus_Agents\<close>, \<open>Bus_Conversations\<close>, \<open>Bus_Delivery\<close>
    (\<^verbatim>\<open>sendMessage\<close>, \<^verbatim>\<open>inject\<close>), \<open>Bus_Inbox\<close> (\<^verbatim>\<open>pollInbox\<close>, \<^verbatim>\<open>ack\<close>, \<^verbatim>\<open>postEvent\<close>, \<^verbatim>\<open>ObserveSince\<close>), \<open>Bus_Push\<close> (the
    worker pool, the retry loop and the shutdown).
  \<^item> \<open>Bus_Inv\<close>, \<open>Bus_Steps\<close>: the invariant \<open>bus_inv\<close>, that each operation keeps it, and the step relation
    \<open>bus_step\<close>, whose steps are the critical sections of the store in any interleaving. \<open>Bus_Clock\<close> has the
    same steps with the clock each of them reads, and what keeps the record of a request.
  \<^item> \<open>Persistent\<close> (\<^verbatim>\<open>persistent.go\<close>): the state file, its encoding, loading, and every operation of
    \<^verbatim>\<open>PersistentStore\<close>.
  \<^item> \<open>Sqlite_Db\<close> (the tables of \<^verbatim>\<open>sqlite.go\<close> and the statements run on them), \<open>Sqlite_Delivery\<close> and
    \<open>Sqlite_Inbox\<close> (\<^verbatim>\<open>sqlite_delivery.go\<close>: the acceptance transaction, push receipts and claims, the durable
    inbox and its long poll), \<open>Sqlite_Store\<close> (retention, start-up, the upgrade of old databases, shutdown
    and the methods of \<^verbatim>\<open>SQLiteStore\<close>). \<open>Sqlite_Inv\<close> has the invariant \<open>db_inv\<close> of the tables and the
    relation \<open>db_step\<close>, whose steps are the transactions of the program in any interleaving.
  \<^item> \<open>Sqlite_Import\<close> (\<^verbatim>\<open>migrate.go\<close>: a state file becomes a database), \<open>Sqlite_Maintenance\<close> (the columns added
    to older tables in \<^verbatim>\<open>sqlite.go\<close>; \<^verbatim>\<open>compact.go\<close> and \<^verbatim>\<open>cmd/pinakes-db-compact\<close>).
  \<^item> \<open>Http_Auth\<close>, \<open>Http_Handlers\<close>, \<open>Http_Watch\<close> (\<^verbatim>\<open>pkg/httpapi\<close>): the server record, signatures, tokens, the
    allowlist, every handler and the router, over any implementation of \<^verbatim>\<open>bus.API\<close> (the record
    \<open>bus_api\<close>), and the loop that reloads the allowlist. A handler is one step there; \<open>Http_Register\<close> takes
    the handler of a registration apart into the sections between which it holds no lock, and runs any
    number of them at once (\<open>http_step\<close>). Together the sections are the handler (\<open>phases_compose\<close>).
  \<^item> \<open>Http_Backends\<close>, \<open>Sqlite_Backend\<close>: the locale \<open>bus_backend\<close>, what the HTTP layer relies on in a store,
    interpreted on the in-memory, the file-backed and the SQLite store.
  \<^item> \<open>Busclient\<close> (\<^verbatim>\<open>pkg/busclient/client.go\<close>): every operation over an arbitrary network. \<open>Client_Server\<close> has
    the locale \<open>delivering_network\<close>, a network that delivers requests and answers unchanged, interpreted on
    the server of \<open>Http_Handlers\<close>; \<open>Client_Examples\<close> runs both on concrete stores.
  \<^item> \<open>Ns_Manifest\<close>, \<open>Ns_Migrate\<close>, \<open>Ns_Compare\<close>, \<open>Ns_Synthetic\<close> (\<^verbatim>\<open>internal/nsmigrate\<close>): the manifest, the
    migration of the tables of \<open>Sqlite_Db\<close> with its report, the comparison of databases, the generator of
    test data. \<open>Ns_Rename\<close> is the specification of the migration: a renaming applied to every column at once.
    \<open>Ns_Tools\<close> has the command-line programs around them.
  \<^item> \<open>Pinakes_Main\<close> (\<^verbatim>\<open>cmd/pinakes/main.go\<close>, \<^verbatim>\<open>internal/configutil\<close>): from the environment to the server that
    starts to listen. \<open>Pinakes_Rehearsal\<close> (\<^verbatim>\<open>cmd/pinakes-empty-strict-rehearsal\<close>).

  \<^bold>\<open>Parameters.\<close> What lies outside the source is an argument: the clock, map iteration orders, the
  environment variables, SHA-256 and HMAC-SHA256, the decoders of request bodies, the outcome of each
  file-system call and of each SQL statement (the records whose names end in \<open>_io\<close>), the network behind a
  push callback and behind the client, the decoders of answers in the client, \<^verbatim>\<open>fmt\<close>'s \<^verbatim>\<open>%q\<close> (\<open>Quote\<close>, which
  appears in texts of errors only), what VACUUM does to the pages of a file, and the durability barrier of a
  store.

  \<^bold>\<open>Long polls and streams.\<close> A waiting operation releases the mutex. It is a list of turns, each with what
  the other goroutines do before the next one; when the list ends the operation has not returned and the
  result is \<open>None\<close>. No theorem assumes that a poll returns; \<open>poll_no_lost_wakeup\<close> and
  \<open>observe_no_lost_wakeup\<close> show that a sleeping reader is woken. The push retry loop is bounded by the
  number of attempts, and the string scanners of the prelude recurse on the length of their input.

  \<^bold>\<open>What is shown.\<close>

  \<^item> \<open>Lifecycle\<close>: every reachable store satisfies \<open>bus_inv\<close>; a message only moves forward in its life cycle
    and never comes back after it was pruned; no wakeup is lost.
  \<^item> \<open>Delivery\<close>: a send can be repeated within its window, whatever the bus did in between, and takes effect
    once; the durability barrier decides whether a send takes effect, completely or not at all; the
    effect of sends, injections, acknowledgements and events on every branch.
  \<^item> \<open>Access\<close>: scopes are isolated, for sends and for every view; the control plane needs its secret.
  \<^item> \<open>Reading\<close>: what polls, pages and observers return; an inbox read through its cursor loses nothing
    but what the documented eviction drops.
  \<^item> \<open>Housekeeping\<close>: the sweep does not depend on the iteration order of the maps, meets the deadlines,
    prunes exactly what the retention rules say; push delivery is bounded and drains on shutdown.
  \<^item> \<open>Durability\<close>, \<open>Http_Safety\<close>: a restart gives back what the state file holds, and which parts start
    afresh; a request changes the bus only with a credential; a success answer survives a crash.
    \<open>Http_Register\<close>: a secret is replaced only with proof of it, or by a registration that passed its
    check before another registration put that secret there (the race is a run of the model).

  \<^item> \<open>Durable_Inbox\<close>, \<open>Durable_Restart\<close>: an accepted message is in the database with its delivery; the
    delivery stays open until its receiver confirmed it or its deadline passed, whatever transactions,
    crashes and restarts follow; a poll returns the next open deliveries in order; a restart loads what the
    retention rules keep and reopens interrupted pushes; a delivery is claimed by one push at a time.

  \<^item> \<open>Sqlite_Backend\<close>: the invariants of the store and of the tables hold in every state a server on SQLite
    reaches; a message it accepted over HTTP is kept until it was confirmed or expired. \<open>Sqlite_Import\<close>: what
    a database made from a state file holds, table by table, where its deliveries are renumbered, and that a
    failed import leaves the file.
  \<^item> \<open>Client_Server\<close>: what a call of the client returns when the server answers it: a send or a poll is that
    of the store, with the attributes the client passed, and a registration gives the client a secret the
    server knows.
  \<^item> \<open>Ns_Manifest\<close>, \<open>Namespace\<close>: what the parser accepts; manifests survive writing and parsing, and so do
    their inverses; a migration renames every occurrence of an identity and nothing else, takes effect
    completely or not at all, is undone by the inverse manifest, and its dry run decides whether it works.
  \<^item> \<open>Ns_Compare\<close>: two databases are reported equal just when their tables have the same schema, columns and
    rows, except those whose name the program takes for one of SQLite's own. \<open>Ns_Tools\<close>: the server that loads the allowlist of a manifest enforces it. \<open>Ns_Synthetic\<close>: the
    generator never overwrites a file, and what a complete database holds.
  \<^item> \<open>Pinakes_Boot\<close>: the server that is started has the policy its environment asks for, and never shadows a
    state file by a new database. \<open>Http_Watch\<close>: the list in force is the last one that could be read.
    \<open>Pinakes_Rehearsal\<close>: what a passed rehearsal means. \<open>Sqlite_Maintenance\<close>: adding columns keeps every
    value, can be resumed and repeated.

  \<^bold>\<open>Idealisations.\<close> The state file is the value its JSON encoding preserves: fields tagged
  \<^verbatim>\<open>json:"-"\<close> are lost, and strings are taken to be valid UTF-8, as those decoded from requests are.
  The HTTP server's connection handling, header limits, TLS and the redirect of paths that are not clean
  belong to \<^verbatim>\<open>net/http\<close>; a response is the status, the headers and the body a handler writes. A handler
  other than that of registrations is one step: it verifies a signature and then calls the store.

  A row of a table holds the values that were encoded into its columns; time columns are compared as the
  texts the program stores.

  \<^bold>\<open>Not modelled.\<close> SQLite itself: a transaction takes effect or fails, which is an argument; the queries of the
  comparison are answered by its argument. Go's scheduler: the background loops of a store are the steps of
  \<open>bus_step\<close> and \<open>db_step\<close>. Parsing of command-line flags (\<^verbatim>\<open>flag\<close>), log lines and messages on standard error,
  signals, and the tests.
\<close>

end
